(* ===== verification/Prelude.thy ===== *)
theory Prelude
  imports Complex_Main "HOL-Library.AList" "HOL-Library.Monad_Syntax"
begin

section \<open>Shared vocabulary of the development\<close>

text \<open>
  The pieces of the JavaScript run time that several components use, and the
  lemmas about them: insertion-ordered \<open>Map\<close> and \<open>Set\<close> values, SQLite tables
  with a primary key, the 32-bit conversions behind the bit operators of
  JavaScript, and fallible results.  The collections \<open>js_simps\<close> (evaluation of
  run-time operations) and \<open>store_simps\<close> (lookup after update) are extended by
  the component theories.
\<close>

named_theorems js_simps "evaluation rules of the modelled JavaScript operations"
named_theorems store_simps "lookup after update, for every kind of store"

subsection \<open>Fallible results\<close>

text \<open>
  A call that may throw returns a sum: \<open>Inl\<close> carries what is thrown, \<open>Inr\<close> what
  is returned.
\<close>

definition bind_sum :: "'e + 'a \<Rightarrow> ('a \<Rightarrow> 'e + 'b) \<Rightarrow> 'e + 'b" where
  "bind_sum r k = (case r of Inl e \<Rightarrow> Inl e | Inr x \<Rightarrow> k x)"

lemma bind_sum_simps [simp, js_simps]:
  "bind_sum (Inl e) k = Inl e"
  "bind_sum (Inr x) k = k x"
  by (simp_all add: bind_sum_def)

lemma bind_sum_Inr_iff:
  "bind_sum r k = Inr y \<longleftrightarrow> (\<exists>x. r = Inr x \<and> k x = Inr y)"
  by (cases r) auto

fun the_right :: "'e + 'a \<Rightarrow> 'a option" where
  "the_right (Inl e) = None"
| "the_right (Inr x) = Some x"

subsection \<open>Insertion-ordered maps and sets\<close>

text \<open>
  A JavaScript \<open>Map\<close> keeps its keys in insertion order and overwrites in place;
  \<open>AList.update\<close> and \<open>AList.delete\<close> on an association list do exactly that.  A
  SQLite table with a primary key, written with \<open>INSERT OR REPLACE\<close> or with
  \<open>ON CONFLICT DO UPDATE\<close>, is such a map from the key to the row; with
  \<open>ON CONFLICT DO NOTHING\<close> (or \<open>INSERT OR IGNORE\<close>) the first row of a key stays.
\<close>

definition insert_ignore :: "'k \<Rightarrow> 'v \<Rightarrow> ('k \<times> 'v) list \<Rightarrow> ('k \<times> 'v) list" where
  "insert_ignore k v t = (if map_of t k = None then t @ [(k, v)] else t)"

definition set_add :: "'a \<Rightarrow> 'a list \<Rightarrow> 'a list" where
  "set_add x xs = (if x \<in> set xs then xs else xs @ [x])"

definition set_del :: "'a \<Rightarrow> 'a list \<Rightarrow> 'a list" where
  "set_del x xs = filter (\<lambda>y. y \<noteq> x) xs"

lemma map_of_insert_ignore [store_simps]:
  "map_of (insert_ignore k v t) =
     (if map_of t k = None then (map_of t)(k \<mapsto> v) else map_of t)"
  by (auto simp: insert_ignore_def fun_eq_iff map_add_def split: option.splits)

lemma map_of_update [store_simps]: "map_of (AList.update k v t) = (map_of t)(k \<mapsto> v)"
  by (rule update_conv')

lemma map_of_delete [store_simps]: "map_of (AList.delete k t) = (map_of t)(k := None)"
  by (rule delete_conv')

lemma set_set_add [simp, store_simps]: "set (set_add x xs) = insert x (set xs)"
  by (auto simp: set_add_def)

lemma set_set_del [simp, store_simps]: "set (set_del x xs) = set xs - {x}"
  by (auto simp: set_del_def)

lemma distinct_set_add [simp]: "distinct (set_add x xs) \<longleftrightarrow> distinct xs"
  by (auto simp: set_add_def)

lemma distinct_set_del: "distinct xs \<Longrightarrow> distinct (set_del x xs)"
  by (simp add: set_del_def)

lemma distinct_keys_update: "distinct (map fst t) \<Longrightarrow> distinct (map fst (AList.update k v t))"
  by (rule distinct_update)

lemma distinct_keys_delete: "distinct (map fst t) \<Longrightarrow> distinct (map fst (AList.delete k t))"
  by (rule distinct_delete)

lemma distinct_keys_insert_ignore:
  "distinct (map fst t) \<Longrightarrow> distinct (map fst (insert_ignore k v t))"
  by (auto simp: insert_ignore_def map_of_eq_None_iff)

lemma update_fresh: "map_of t k = None \<Longrightarrow> AList.update k v t = t @ [(k, v)]"
  by (induction t) (auto split: if_splits)

lemma values_update_subset: "set (map snd (AList.update k v t)) \<subseteq> insert v (set (map snd t))"
  by (induction t) auto

lemma values_delete_subset: "set (map snd (AList.delete k t)) \<subseteq> set (map snd t)"
  by (auto simp: AList.delete_eq)

text \<open>
  The interface every keyed store of the program offers to its clients: what is
  read after a write, and that the keys stay unique.
\<close>

locale kv_store =
  fixes lookup :: "'s \<Rightarrow> 'k \<Rightarrow> 'v option"
    and put :: "'k \<Rightarrow> 'v \<Rightarrow> 's \<Rightarrow> 's"
    and remove :: "'k \<Rightarrow> 's \<Rightarrow> 's"
    and wf :: "'s \<Rightarrow> bool"
  assumes lookup_put: "lookup (put k v s) = (lookup s)(k \<mapsto> v)"
    and lookup_remove: "wf s \<Longrightarrow> lookup (remove k s) = (lookup s)(k := None)"
    and wf_put: "wf s \<Longrightarrow> wf (put k v s)"
    and wf_remove: "wf s \<Longrightarrow> wf (remove k s)"
begin

lemma put_same: "lookup (put k v s) k = Some v"
  by (simp add: lookup_put)

lemma put_other: "k' \<noteq> k \<Longrightarrow> lookup (put k v s) k' = lookup s k'"
  by (simp add: lookup_put)

lemma put_put: "lookup (put k v (put k w s)) = lookup (put k v s)"
  by (simp add: lookup_put fun_eq_iff)

lemma remove_put: "wf s \<Longrightarrow> lookup s k = None \<Longrightarrow> lookup (remove k (put k v s)) = lookup s"
  by (auto simp: lookup_put lookup_remove wf_put fun_eq_iff)

end

interpretation js_map: kv_store "map_of" AList.update AList.delete "\<lambda>t. distinct (map fst t)"
  by unfold_locales
    (auto simp: store_simps intro: distinct_keys_update distinct_keys_delete)

subsection \<open>Bit operators on numbers\<close>

text \<open>
  The operators \<open>>>\<close>, \<open>&\<close> and \<open>^\<close> convert their operands to 32-bit two's
  complement integers first.  The model writes the conversion out: above
  \<open>2^31 - 1\<close> the results are negative, as they are in the run time.
\<close>

definition to_int32 :: "int \<Rightarrow> int" where
  "to_int32 i = (i + 2147483648) mod 4294967296 - 2147483648"

definition js_shr1 :: "int \<Rightarrow> int" where
  "js_shr1 i = to_int32 i div 2"

definition js_and1 :: "int \<Rightarrow> int" where
  "js_and1 i = to_int32 i mod 2"

definition js_xor1 :: "int \<Rightarrow> int" where
  "js_xor1 i = (if even (to_int32 i) then to_int32 i + 1 else to_int32 i - 1)"

lemma to_int32_small [js_simps]: "0 \<le> i \<Longrightarrow> i < 2147483648 \<Longrightarrow> to_int32 i = i"
  by (simp add: to_int32_def)

lemma js_shr1_small [js_simps]: "0 \<le> i \<Longrightarrow> i < 2147483648 \<Longrightarrow> js_shr1 i = i div 2"
  by (simp add: js_shr1_def to_int32_small)

lemma js_and1_small [js_simps]: "0 \<le> i \<Longrightarrow> i < 2147483648 \<Longrightarrow> js_and1 i = i mod 2"
  by (simp add: js_and1_def to_int32_small)

lemma js_xor1_small [js_simps]:
  "0 \<le> i \<Longrightarrow> i < 2147483648 \<Longrightarrow> js_xor1 i = (if even i then i + 1 else i - 1)"
  by (simp add: js_xor1_def to_int32_small)

subsection \<open>Big integers and decimal numbers\<close>

text \<open>
  Division of two \<open>bigint\<close> values truncates towards zero.  Every division of the
  modelled code has a positive constant as its divisor or checks the divisor first.
\<close>

definition big_div :: "int \<Rightarrow> int \<Rightarrow> int" where
  "big_div a b = sgn a * sgn b * (\<bar>a\<bar> div \<bar>b\<bar>)"

lemma big_div_nonneg [js_simps]: "0 \<le> a \<Longrightarrow> 0 < b \<Longrightarrow> big_div a b = a div b"
  by (cases "a = 0") (simp_all add: big_div_def)

lemma big_div_mult_le: "0 \<le> a \<Longrightarrow> 0 < b \<Longrightarrow> big_div a b * b \<le> a"
  by (simp add: js_simps minus_mod_eq_div_mult [symmetric])

lemma big_div_ge_0 [intro]: "0 \<le> a \<Longrightarrow> 0 < b \<Longrightarrow> 0 \<le> big_div a b"
  by (simp add: js_simps pos_imp_zdiv_nonneg_iff)

lemma big_div_mono: "a \<le> c \<Longrightarrow> 0 \<le> a \<Longrightarrow> 0 < b \<Longrightarrow> big_div a b \<le> big_div c b"
  by (simp add: js_simps zdiv_mono1)

text \<open>
  Decimal quantities that arrive from an exchange as JavaScript numbers are
  modelled as exact rationals; the rounding of doubles is left out.
\<close>

definition math_round :: "rat \<Rightarrow> int" where
  "math_round x = \<lfloor>x + 1 / 2\<rfloor>"

definition truthy_or :: "rat \<Rightarrow> rat \<Rightarrow> rat" where
  "truthy_or a b = (if a \<noteq> 0 then a else b)"

lemma math_round_int [simp, js_simps]: "math_round (of_int n) = n"
  by (simp add: math_round_def floor_eq_iff)

lemma math_round_nonneg: "0 \<le> x \<Longrightarrow> 0 \<le> math_round x"
  by (simp add: math_round_def)

lemma math_round_mono: "x \<le> y \<Longrightarrow> math_round x \<le> math_round y"
  by (simp add: math_round_def floor_mono)

subsection \<open>Strings\<close>

text \<open>\<open>includes\<close>, and \<open>toLowerCase\<close> and \<open>toUpperCase\<close> on the ASCII strings the program compares.\<close>

fun js_includes :: "string \<Rightarrow> string \<Rightarrow> bool" where
  "js_includes p [] \<longleftrightarrow> p = []"
| "js_includes p (c # cs) \<longleftrightarrow> take (length p) (c # cs) = p \<or> js_includes p cs"

definition orelse :: "'a option \<Rightarrow> 'a option \<Rightarrow> 'a option" where
  "orelse a b = (case a of None \<Rightarrow> b | Some x \<Rightarrow> Some x)"

definition upper_char :: "char \<Rightarrow> char" where
  "upper_char c =
     (let n = (of_char c :: nat) in if 97 \<le> n \<and> n \<le> 122 then char_of (n - 32) else c)"

definition upper :: "string \<Rightarrow> string" where
  "upper s = map upper_char s"

definition lower_char :: "char \<Rightarrow> char" where
  "lower_char c =
     (let n = (of_char c :: nat) in if 65 \<le> n \<and> n \<le> 90 then char_of (n + 32) else c)"

definition lower :: "string \<Rightarrow> string" where
  "lower s = map lower_char s"

lemma lower_char_idem [simp]: "lower_char (lower_char c) = lower_char c"
proof (cases "65 \<le> (of_char c :: nat) \<and> (of_char c :: nat) \<le> 90")
  case True
  then have "(of_char (lower_char c) :: nat) = of_char c + 32"
    by (simp add: lower_char_def)
  with True show ?thesis by (simp add: lower_char_def [of "lower_char c"])
next
  case False
  then have "lower_char c = c" by (auto simp: lower_char_def)
  then show ?thesis by simp
qed

lemma lower_idem [simp, js_simps]: "lower (lower s) = lower s"
  by (simp add: lower_def)

subsection \<open>Lists\<close>

lemma foldl_invariant:
  assumes "P s" and "\<And>s x. x \<in> set xs \<Longrightarrow> P s \<Longrightarrow> P (f s x)"
  shows "P (foldl f s xs)"
  using assms by (induction xs arbitrary: s) auto

lemma take_Suc_snoc: "i < length xs \<Longrightarrow> take (Suc i) xs = take i xs @ [xs ! i]"
  by (rule take_Suc_conv_app_nth)

end
