(* ===== verification/Hex.thy ===== *)
theory Hex
  imports Prelude
begin

section \<open>Big integers as strings\<close>

text \<open>
  The printer \<open>toHex\<close> of the proof relay (a \<open>0x\<close> prefix and 64 padded
  hexadecimal digits) and the standard library's \<open>BigInt(string)\<close> on the
  strings the program gives it: \<open>0x\<close> and hexadecimal digits, or decimal digits
  (the empty string is 0).  Any other string is a \<open>SyntaxError\<close>, here \<open>None\<close>;
  surrounding blanks and the \<open>0b\<close> and \<open>0o\<close> prefixes, which the program never
  produces, are treated as errors too.
\<close>

definition hex_char :: "nat \<Rightarrow> char" where
  "hex_char d = (if d < 10 then char_of (48 + d) else char_of (87 + d))"

definition hex_val :: "char \<Rightarrow> nat option" where
  "hex_val c =
     (let n = (of_char c :: nat)
      in if 48 \<le> n \<and> n \<le> 57 then Some (n - 48)
         else if 97 \<le> n \<and> n \<le> 102 then Some (n - 87)
         else if 65 \<le> n \<and> n \<le> 70 then Some (n - 55)
         else None)"

fun to_string16 :: "nat \<Rightarrow> string" where
  "to_string16 n =
     (if n < 16 then [hex_char n] else to_string16 (n div 16) @ [hex_char (n mod 16)])"

declare to_string16.simps [simp del]

definition pad_start :: "nat \<Rightarrow> char \<Rightarrow> string \<Rightarrow> string" where
  "pad_start w c s = replicate (w - length s) c @ s"

definition toHex :: "nat \<Rightarrow> string" where
  "toHex n = ''0x'' @ pad_start 64 (CHR ''0'') (to_string16 n)"

text \<open>Reading digits in a base, most significant first.\<close>

fun parse_digits :: "nat \<Rightarrow> nat \<Rightarrow> string \<Rightarrow> nat option" where
  "parse_digits b acc [] = Some acc"
| "parse_digits b acc (c # cs) =
     (case hex_val c of
        None \<Rightarrow> None
      | Some d \<Rightarrow> if d < b then parse_digits b (acc * b + d) cs else None)"

fun BigInt :: "string \<Rightarrow> nat option" where
  "BigInt (z # x # cs) =
     (if z = CHR ''0'' \<and> (x = CHR ''x'' \<or> x = CHR ''X'')
      then if cs = [] then None else parse_digits 16 0 cs
      else parse_digits 10 0 (z # x # cs))"
| "BigInt cs = parse_digits 10 0 cs"

lemma hex_val_hex_char [simp]: "d < 16 \<Longrightarrow> hex_val (hex_char d) = Some d"
  by (auto simp: hex_val_def hex_char_def)

lemma parse_digits_append:
  "parse_digits b acc (xs @ ys) =
     (case parse_digits b acc xs of None \<Rightarrow> None | Some a \<Rightarrow> parse_digits b a ys)"
  by (induction b acc xs rule: parse_digits.induct) (auto split: option.splits)

lemma to_string16_nonempty: "to_string16 n \<noteq> []"
  by (subst to_string16.simps) simp

lemma parse_to_string16: "parse_digits 16 0 (to_string16 n) = Some n"
proof (induction n rule: to_string16.induct)
  case (1 n)
  show ?case
  proof (cases "n < 16")
    case True
    then show ?thesis by (subst to_string16.simps) simp
  next
    case False
    with "1.IH" have "parse_digits 16 0 (to_string16 (n div 16)) = Some (n div 16)" by simp
    with False show ?thesis
      by (subst to_string16.simps) (simp add: parse_digits_append)
  qed
qed

lemma hex_val_zero [simp]: "hex_val (CHR ''0'') = Some 0"
  by (simp add: hex_val_def)

lemma parse_leading_zeros: "parse_digits 16 0 (replicate k (CHR ''0'') @ s) = parse_digits 16 0 s"
  by (induction k) simp_all

lemma BigInt_toHex: "BigInt (toHex n) = Some n"
  by (simp add: toHex_def pad_start_def parse_leading_zeros parse_to_string16 to_string16_nonempty)

lemma toHex_inject: "toHex m = toHex n \<longleftrightarrow> m = n"
  by (metis BigInt_toHex option.inject)

lemma lower_char_hex_char: "d < 16 \<Longrightarrow> lower_char (hex_char d) = hex_char d"
  by (auto simp: lower_char_def hex_char_def Let_def)

lemma lower_to_string16: "lower (to_string16 n) = to_string16 n"
proof (induction n rule: to_string16.induct)
  case (1 n)
  then show ?case by (subst (1 2) to_string16.simps) (auto simp: lower_def lower_char_hex_char)
qed

text \<open>Encoded words are lower case already.\<close>

lemma lower_toHex: "lower (toHex n) = toHex n"
  using lower_to_string16 [of n] by (simp add: toHex_def pad_start_def lower_def lower_char_def)

lemma length_to_string16: "n < 16 ^ k \<Longrightarrow> 0 < k \<Longrightarrow> length (to_string16 n) \<le> k"
proof (induction n arbitrary: k rule: to_string16.induct)
  case (1 n)
  show ?case
  proof (cases "n < 16")
    case True
    with "1.prems" show ?thesis by (subst to_string16.simps) simp
  next
    case False
    with "1.prems"(1) have "k \<noteq> 1" by auto
    with "1.prems"(2) have "1 < k" by simp
    then obtain j where k: "k = Suc j" "0 < j" by (cases k) auto
    with "1.prems"(1) have "n div 16 < 16 ^ j" by (simp add: less_mult_imp_div_less mult.commute)
    with "1.IH" False k have "length (to_string16 (n div 16)) \<le> j" by simp
    with False k show ?thesis by (subst to_string16.simps) simp
  qed
qed

lemma length_toHex: "n < 2 ^ 256 \<Longrightarrow> length (toHex n) = 66"
proof -
  assume "n < 2 ^ 256"
  moreover have "(2::nat) ^ 256 = 16 ^ 64" by simp
  ultimately have "length (to_string16 n) \<le> 64" using length_to_string16 [of n 64] by simp
  then show ?thesis by (simp add: toHex_def pad_start_def)
qed

subsection \<open>Decimal strings\<close>

fun to_string10 :: "nat \<Rightarrow> string" where
  "to_string10 n =
     (if n < 10 then [hex_char n] else to_string10 (n div 10) @ [hex_char (n mod 10)])"

declare to_string10.simps [simp del]

lemma parse_to_string10: "parse_digits 10 0 (to_string10 n) = Some n"
proof (induction n rule: to_string10.induct)
  case (1 n)
  show ?case
  proof (cases "n < 10")
    case True
    then show ?thesis by (subst to_string10.simps) simp
  next
    case False
    with "1.IH" have "parse_digits 10 0 (to_string10 (n div 10)) = Some (n div 10)" by simp
    with False show ?thesis by (subst to_string10.simps) (simp add: parse_digits_append)
  qed
qed

lemma hex_val_x: "hex_val (CHR ''x'') = None" "hex_val (CHR ''X'') = None"
  by (simp_all add: hex_val_def)

lemma BigInt_decimal:
  assumes "parse_digits 10 0 s = Some n"
  shows "BigInt s = Some n"
proof (cases s rule: BigInt.cases)
  case (1 z x cs)
  have "x \<noteq> CHR ''x'' \<and> x \<noteq> CHR ''X''"
    using assms 1 by (auto simp: hex_val_x split: option.splits if_splits)
  with 1 assms show ?thesis by (simp split: option.splits if_splits)
qed (use assms in \<open>simp_all split: option.splits if_splits\<close>)

lemma BigInt_to_string10 [simp]: "BigInt (to_string10 n) = Some n"
  by (rule BigInt_decimal [OF parse_to_string10])

subsection \<open>Reduction to the scalar field\<close>

definition BN254_P :: nat where
  "BN254_P = 0x30644e72e131a029b85045b68181585d2833e84879b9709143e1f593f0000001"

text \<open>
  \<open>toFieldSafe\<close>: the reduced key of a condition id (\<open>BigInt\<close> throws on a string
  that is no number).
\<close>

definition toFieldSafe :: "string \<Rightarrow> string option" where
  "toFieldSafe hex = map_option (\<lambda>n. toHex (n mod BN254_P)) (BigInt hex)"

lemma toFieldSafe_idem: "toFieldSafe s = Some k \<Longrightarrow> toFieldSafe k = Some k"
  by (auto simp: toFieldSafe_def BigInt_toHex)

lemma toFieldSafe_eq_iff:
  "toFieldSafe a = Some x \<Longrightarrow> toFieldSafe b = Some y \<Longrightarrow>
     x = y \<longleftrightarrow> the (BigInt a) mod BN254_P = the (BigInt b) mod BN254_P"
  by (auto simp: toFieldSafe_def toHex_inject)

end
