(* ===== verification/Merkle_Cache.thy ===== *)
theory Merkle_Cache
  imports Hex
begin

section \<open>The relay's cache of the commitment tree\<close>

text \<open>
  \<open>CachedMerkleTree\<close> of \<open>packages/backend/proof-relay/src/merkleTree.ts\<close>: the
  depth-32 append-only tree of commitments, mirrored from \<open>LeafInserted\<close> events.
  The hash \<open>poseidon2\<close> comes from a package and is the parameter \<open>h\<close>.  The node
  map keeps only written nodes; every other node is the root of an empty
  subtree.  Tree indices are JavaScript numbers and go through its 32-bit
  operators.
\<close>

type_synonym hash2 = "nat \<Rightarrow> nat \<Rightarrow> nat"

definition TREE_DEPTH :: nat where "TREE_DEPTH = 32"

definition CONFIRMATIONS :: int where "CONFIRMATIONS = 3"

definition SCAN_WINDOW :: int where "SCAN_WINDOW = 5000"

definition buildZeros :: "hash2 \<Rightarrow> nat list" where
  "buildZeros h = foldl (\<lambda>z i. z @ [h (z ! i) (z ! i)]) [0] [0..<TREE_DEPTH]"

definition ZEROS :: "hash2 \<Rightarrow> nat \<Rightarrow> nat" where
  "ZEROS h level = buildZeros h ! level"

text \<open>The two tables of the cache's database.\<close>

record mdb =
  merkle_leaves :: "(int \<times> string) list"
  meta_last_block :: "int option"

record mtree =
  nodes :: "nat \<times> int \<Rightarrow> nat option"
  index_by_leaf :: "nat \<Rightarrow> int option"
  next_index :: int
  last_block :: int
  deploy_block :: int
  ready :: bool
  consistent :: bool
  mtree_db :: "mdb option"

record merkle_proof =
  proof_path :: "string list"
  path_indices :: "int list"
  proof_root :: string
  leaf_index :: int

text \<open>The constructor; opening the database may fail, which leaves \<open>None\<close>.\<close>

definition new_mtree :: "int \<Rightarrow> mdb option \<Rightarrow> mtree" where
  "new_mtree deploy d =
     \<lparr>nodes = Map.empty, index_by_leaf = Map.empty, next_index = 0,
      last_block = max 0 (deploy - 1), deploy_block = deploy,
      ready = False, consistent = True, mtree_db = d\<rparr>"

definition isReady :: "mtree \<Rightarrow> bool" where
  "isReady t \<longleftrightarrow> ready t \<and> consistent t"

definition getNode :: "hash2 \<Rightarrow> mtree \<Rightarrow> nat \<Rightarrow> int \<Rightarrow> nat" where
  "getNode h t level index =
     (case nodes t (level, index) of Some v \<Rightarrow> v | None \<Rightarrow> ZEROS h level)"

definition setNode :: "nat \<Rightarrow> int \<Rightarrow> nat \<Rightarrow> mtree \<Rightarrow> mtree" where
  "setNode level index v t = t\<lparr>nodes := (nodes t)((level, index) \<mapsto> v)\<rparr>"

text \<open>One round of the loop of \<open>append\<close>: hash the two children into the parent.\<close>

definition append_level :: "hash2 \<Rightarrow> mtree \<times> int \<Rightarrow> nat \<Rightarrow> mtree \<times> int" where
  "append_level h = (\<lambda>(t, i) level.
     let parent = js_shr1 i;
         left = getNode h t level (parent * 2);
         right = getNode h t level (parent * 2 + 1)
     in (setNode (level + 1) parent (h left right) t, parent))"

definition root :: "hash2 \<Rightarrow> mtree \<Rightarrow> nat" where
  "root h t = getNode h t TREE_DEPTH 0"

definition append_leaf :: "hash2 \<Rightarrow> nat \<Rightarrow> mtree \<Rightarrow> nat \<times> mtree" where
  "append_leaf h leaf t =
     (let idx = next_index t;
          t0 = setNode 0 idx leaf t;
          t1 = t0\<lparr>index_by_leaf := (index_by_leaf t0)(leaf \<mapsto> idx)\<rparr>;
          t2 = fst (foldl (append_level h) (t1, idx) [0..<TREE_DEPTH]);
          t3 = t2\<lparr>next_index := idx + 1\<rparr>
      in (getNode h t3 TREE_DEPTH 0, t3))"

definition proof_level :: "hash2 \<Rightarrow> mtree \<Rightarrow> string list \<times> int list \<times> int \<Rightarrow> nat
    \<Rightarrow> string list \<times> int list \<times> int" where
  "proof_level h t = (\<lambda>(path, bits, i) level.
     (path @ [toHex (getNode h t level (js_xor1 i))], bits @ [js_and1 i], js_shr1 i))"

definition proofForIndex :: "hash2 \<Rightarrow> mtree \<Rightarrow> int \<Rightarrow> merkle_proof" where
  "proofForIndex h t idx =
     (let (path, bits, i) = foldl (proof_level h t) ([], [], idx) [0..<TREE_DEPTH]
      in \<lparr>proof_path = path, path_indices = bits, proof_root = toHex (root h t),
          leaf_index = idx\<rparr>)"

text \<open>
  \<open>proofFor\<close>: \<open>Inr None\<close> is the \<open>null\<close> of a cache that is not ready or a leaf not
  ingested, \<open>Inl\<close> the \<open>SyntaxError\<close> of a commitment that is no number.
\<close>

definition proofFor :: "hash2 \<Rightarrow> string \<Rightarrow> mtree \<Rightarrow> string + merkle_proof option" where
  "proofFor h commitment t =
     (if \<not> isReady t then Inr None
      else case BigInt commitment of
             None \<Rightarrow> Inl ''SyntaxError''
           | Some c \<Rightarrow> (case index_by_leaf t c of
                         None \<Rightarrow> Inr None
                       | Some idx \<Rightarrow> Inr (Some (proofForIndex h t idx))))"

subsection \<open>The tree the cache stands for\<close>

text \<open>
  The specification: a perfect binary tree over the leaves, missing leaves being
  0, and the check the circuits make of a path (fold the siblings into the leaf).
\<close>

fun spec_node :: "hash2 \<Rightarrow> nat list \<Rightarrow> nat \<Rightarrow> nat \<Rightarrow> nat" where
  "spec_node h xs 0 i = (if i < length xs then xs ! i else 0)"
| "spec_node h xs (Suc l) i = h (spec_node h xs l (2 * i)) (spec_node h xs l (2 * i + 1))"

definition spec_root :: "hash2 \<Rightarrow> nat list \<Rightarrow> nat" where
  "spec_root h xs = spec_node h xs TREE_DEPTH 0"

definition climb :: "hash2 \<Rightarrow> nat \<Rightarrow> (nat \<times> int) list \<Rightarrow> nat" where
  "climb h leaf sibs = foldl (\<lambda>v (s, b). if b = 0 then h v s else h s v) leaf sibs"

fun zero_hash :: "hash2 \<Rightarrow> nat \<Rightarrow> nat" where
  "zero_hash h 0 = 0"
| "zero_hash h (Suc l) = h (zero_hash h l) (zero_hash h l)"

lemma buildZeros_prefix:
  "foldl (\<lambda>z i. z @ [h (z ! i) (z ! i)]) [0] [0..<n] = map (zero_hash h) [0..<Suc n]"
proof (induction n)
  case 0
  show ?case by simp
next
  case (Suc n)
  then show ?case by (simp del: upt_Suc add: upt_Suc_append nth_append)
qed

lemma ZEROS_eq: "l \<le> TREE_DEPTH \<Longrightarrow> ZEROS h l = zero_hash h l"
  unfolding ZEROS_def buildZeros_def buildZeros_prefix
  by (subst nth_map) (auto simp del: upt_Suc)

lemma spec_node_empty: "length xs \<le> i * 2 ^ l \<Longrightarrow> spec_node h xs l i = zero_hash h l"
proof (induction l arbitrary: i)
  case 0
  then show ?case by simp
next
  case (Suc l)
  have "length xs \<le> (2 * i) * 2 ^ l" and "length xs \<le> (2 * i + 1) * 2 ^ l"
    using Suc.prems by (auto simp: algebra_simps)
  with Suc.IH show ?case by simp
qed

lemma spec_node_snoc_other:
  "i \<noteq> length xs div 2 ^ l \<Longrightarrow> spec_node h (xs @ [x]) l i = spec_node h xs l i"
proof (induction l arbitrary: i)
  case 0
  then show ?case by (auto simp: nth_append)
next
  case (Suc l)
  have "length xs div 2 ^ Suc l = (length xs div 2 ^ l) div 2"
    by (metis div_mult2_eq power_Suc2)
  with Suc.prems have "2 * i \<noteq> length xs div 2 ^ l" and "2 * i + 1 \<noteq> length xs div 2 ^ l"
    by auto
  with Suc.IH show ?case by simp
qed

text \<open>
  \<open>tree_inv h t xs\<close>: the cache \<open>t\<close> holds exactly the leaves \<open>xs\<close>.  The bound is
  the range in which \<open>i >> 1\<close> halves.
\<close>

definition tree_inv :: "hash2 \<Rightarrow> mtree \<Rightarrow> nat list \<Rightarrow> bool" where
  "tree_inv h t xs \<longleftrightarrow>
     next_index t = int (length xs) \<and> length xs \<le> 2147483648 \<and>
     (\<forall>l \<le> TREE_DEPTH. \<forall>i. getNode h t l (int i) = spec_node h xs l i) \<and>
     (\<forall>x j. index_by_leaf t x = Some j \<longrightarrow> 0 \<le> j \<and> nat j < length xs \<and> xs ! nat j = x) \<and>
     (\<forall>x \<in> set xs. index_by_leaf t x \<noteq> None)"

lemma tree_inv_nextD: "tree_inv h t xs \<Longrightarrow> next_index t = int (length xs)"
  by (simp add: tree_inv_def)

lemma tree_inv_nodeD:
  "tree_inv h t xs \<Longrightarrow> l \<le> TREE_DEPTH \<Longrightarrow> getNode h t l (int i) = spec_node h xs l i"
  by (simp add: tree_inv_def)

lemma tree_inv_rootD: "tree_inv h t xs \<Longrightarrow> root h t = spec_root h xs"
  using tree_inv_nodeD [of h t xs TREE_DEPTH 0] by (simp add: root_def spec_root_def)

lemma tree_inv_new: "tree_inv h (new_mtree d m) []"
  by (auto simp: tree_inv_def new_mtree_def getNode_def ZEROS_eq spec_node_empty)

lemma tree_inv_frame:
  assumes "nodes t' = nodes t" "index_by_leaf t' = index_by_leaf t" "next_index t' = next_index t"
  shows "tree_inv h t' xs \<longleftrightarrow> tree_inv h t xs"
  by (simp add: tree_inv_def getNode_def assms)

lemma getNode_setNode [store_simps]:
  "getNode h (setNode l i v t) l' i' = (if l' = l \<and> i' = i then v else getNode h t l' i')"
  by (auto simp: getNode_def setNode_def)

lemma getNode_frame [simp]:
  "getNode h (t\<lparr>index_by_leaf := a\<rparr>) l i = getNode h t l i"
  "getNode h (t\<lparr>next_index := n\<rparr>) l i = getNode h t l i"
  "getNode h (t\<lparr>last_block := n\<rparr>) l i = getNode h t l i"
  "getNode h (t\<lparr>mtree_db := d\<rparr>) l i = getNode h t l i"
  "getNode h (t\<lparr>consistent := c\<rparr>) l i = getNode h t l i"
  "getNode h (t\<lparr>ready := c\<rparr>) l i = getNode h t l i"
  by (simp_all add: getNode_def)

lemma setNode_frame [simp]:
  "index_by_leaf (setNode l i v t) = index_by_leaf t"
  "next_index (setNode l i v t) = next_index t"
  "last_block (setNode l i v t) = last_block t"
  "deploy_block (setNode l i v t) = deploy_block t"
  "ready (setNode l i v t) = ready t"
  "consistent (setNode l i v t) = consistent t"
  "mtree_db (setNode l i v t) = mtree_db t"
  by (simp_all add: setNode_def)

text \<open>
  Half-way through \<open>append\<close>: levels up to \<open>m\<close> already include the new leaf, the
  ones above do not.
\<close>

definition climbing :: "hash2 \<Rightarrow> nat list \<Rightarrow> nat \<Rightarrow> mtree \<times> int \<Rightarrow> nat \<Rightarrow> bool" where
  "climbing h xs x = (\<lambda>(t, i) m.
     i = int (length xs div 2 ^ m) \<and>
     (\<forall>l \<le> TREE_DEPTH. \<forall>j. getNode h t l (int j) =
        spec_node h (if l \<le> m then xs @ [x] else xs) l j))"

lemma climbing_step:
  assumes inv: "climbing h xs x (t, i) m" and m: "m < TREE_DEPTH"
    and len: "length xs < 2147483648"
  shows "climbing h xs x (append_level h (t, i) m) (Suc m)"
proof -
  let ?p = "length xs div 2 ^ Suc m"
  have i: "i = int (length xs div 2 ^ m)" using inv by (simp add: climbing_def)
  have "length xs div 2 ^ m < 2147483648"
    using len by (rule le_less_trans [OF div_le_dividend])
  then have small: "i < 2147483648" "0 \<le> i" by (simp_all add: i)
  have half: "?p = (length xs div 2 ^ m) div 2"
    by (metis div_mult2_eq power_Suc2)
  have p: "js_shr1 i = int ?p"
    unfolding half using small by (simp add: js_shr1_small i zdiv_int)
  have node: "getNode h t l (int j) = spec_node h (if l \<le> m then xs @ [x] else xs) l j"
    if "l \<le> TREE_DEPTH" for l j
    using inv that by (simp add: climbing_def)
  have kids: "getNode h t m (int ?p * 2) = spec_node h (xs @ [x]) m (2 * ?p)"
    "getNode h t m (int ?p * 2 + 1) = spec_node h (xs @ [x]) m (2 * ?p + 1)"
    using node [of m "2 * ?p"] node [of m "2 * ?p + 1"] m
    by (simp_all add: mult.commute add.commute del: power_Suc)
  have parent: "h (getNode h t m (int ?p * 2)) (getNode h t m (int ?p * 2 + 1))
      = spec_node h (xs @ [x]) (Suc m) ?p"
    unfolding kids by simp
  have upd: "getNode h (setNode (Suc m) (int ?p) (spec_node h (xs @ [x]) (Suc m) ?p) t) l (int j)
      = spec_node h (if l \<le> Suc m then xs @ [x] else xs) l j" if "l \<le> TREE_DEPTH" for l j
    using node [OF that, of j] spec_node_snoc_other [of j xs l h x]
    by (auto simp: getNode_setNode le_Suc_eq simp del: power_Suc spec_node.simps)
  show ?thesis
    unfolding append_level_def split Let_def p parent Suc_eq_plus1 [symmetric] climbing_def
    using upd by simp
qed

lemma climbing_steps:
  assumes "climbing h xs x (t, i) 0" and "length xs < 2147483648" and "n \<le> TREE_DEPTH"
  shows "climbing h xs x (foldl (append_level h) (t, i) [0..<n]) n"
  using assms(3)
proof (induction n)
  case 0
  then show ?case using assms(1) by simp
next
  case (Suc n)
  then have "climbing h xs x (foldl (append_level h) (t, i) [0..<n]) n" by simp
  then show ?case
    using Suc.prems assms(2)
    by (cases "foldl (append_level h) (t, i) [0..<n]") (simp add: climbing_step)
qed

text \<open>What the loop leaves alone.\<close>

lemma append_level_frame [simp]:
  "index_by_leaf (fst (append_level h p m)) = index_by_leaf (fst p)"
  "next_index (fst (append_level h p m)) = next_index (fst p)"
  "last_block (fst (append_level h p m)) = last_block (fst p)"
  "deploy_block (fst (append_level h p m)) = deploy_block (fst p)"
  "ready (fst (append_level h p m)) = ready (fst p)"
  "consistent (fst (append_level h p m)) = consistent (fst p)"
  "mtree_db (fst (append_level h p m)) = mtree_db (fst p)"
  by (cases p; simp add: append_level_def Let_def)+

lemma append_levels_frame [simp]:
  "index_by_leaf (fst (foldl (append_level h) p ms)) = index_by_leaf (fst p)"
  "next_index (fst (foldl (append_level h) p ms)) = next_index (fst p)"
  "last_block (fst (foldl (append_level h) p ms)) = last_block (fst p)"
  "deploy_block (fst (foldl (append_level h) p ms)) = deploy_block (fst p)"
  "ready (fst (foldl (append_level h) p ms)) = ready (fst p)"
  "consistent (fst (foldl (append_level h) p ms)) = consistent (fst p)"
  "mtree_db (fst (foldl (append_level h) p ms)) = mtree_db (fst p)"
  by (induction ms arbitrary: p) simp_all

lemma append_leaf_frame [simp]:
  "next_index (snd (append_leaf h x t)) = next_index t + 1"
  "index_by_leaf (snd (append_leaf h x t)) = (index_by_leaf t)(x \<mapsto> next_index t)"
  "last_block (snd (append_leaf h x t)) = last_block t"
  "deploy_block (snd (append_leaf h x t)) = deploy_block t"
  "ready (snd (append_leaf h x t)) = ready t"
  "consistent (snd (append_leaf h x t)) = consistent t"
  "mtree_db (snd (append_leaf h x t)) = mtree_db t"
  by (simp_all add: append_leaf_def Let_def)

lemma append_leaf_nodes:
  assumes inv: "tree_inv h t xs" and len: "length xs < 2147483648" and l: "l \<le> TREE_DEPTH"
  shows "getNode h (snd (append_leaf h x t)) l (int j) = spec_node h (xs @ [x]) l j"
proof -
  let ?t1 = "(setNode 0 (next_index t) x t)
      \<lparr>index_by_leaf := (index_by_leaf (setNode 0 (next_index t) x t))(x \<mapsto> next_index t)\<rparr>"
  have start: "climbing h xs x (?t1, next_index t) 0"
    using inv by (auto simp: climbing_def tree_inv_def getNode_setNode nth_append)
  have "climbing h xs x (foldl (append_level h) (?t1, next_index t) [0..<TREE_DEPTH]) TREE_DEPTH"
    by (rule climbing_steps [OF start len order_refl])
  then show ?thesis
    using l by (auto simp: climbing_def append_leaf_def Let_def split: prod.splits)
qed

theorem append_leaf_inv:
  assumes inv: "tree_inv h t xs" and len: "length xs < 2147483648"
  shows "tree_inv h (snd (append_leaf h x t)) (xs @ [x])"
proof -
  have idx: "next_index t = int (length xs)" using inv by (rule tree_inv_nextD)
  have old: "index_by_leaf t y = Some j \<Longrightarrow> 0 \<le> j \<and> nat j < length xs \<and> xs ! nat j = y" for y j
    using inv by (simp add: tree_inv_def)
  have all: "y \<in> set xs \<Longrightarrow> index_by_leaf t y \<noteq> None" for y
    using inv unfolding tree_inv_def by blast
  show ?thesis
    unfolding tree_inv_def
    using append_leaf_nodes [OF inv len] len idx
    by (auto simp: nth_append dest!: old dest: all)
qed

lemma append_leaf_root:
  assumes "tree_inv h t xs" and "length xs < 2147483648"
  shows "fst (append_leaf h x t) = spec_root h (xs @ [x])"
proof -
  have "fst (append_leaf h x t) = root h (snd (append_leaf h x t))"
    by (simp add: append_leaf_def Let_def root_def)
  then show ?thesis using tree_inv_rootD [OF append_leaf_inv [OF assms]] by simp
qed

subsection \<open>Served proofs\<close>

text \<open>The check a client (the circuits) makes of a served proof.\<close>

definition verify_proof :: "hash2 \<Rightarrow> nat \<Rightarrow> merkle_proof \<Rightarrow> bool" where
  "verify_proof h leaf p =
     (case those (map BigInt (proof_path p)) of
        None \<Rightarrow> False
      | Some sibs \<Rightarrow> length sibs = TREE_DEPTH \<and> length (path_indices p) = TREE_DEPTH \<and>
          BigInt (proof_root p) = Some (climb h leaf (zip sibs (path_indices p))))"

definition sibling :: "nat \<Rightarrow> nat" where
  "sibling i = (if even i then i + 1 else i - 1)"

definition spec_sib :: "hash2 \<Rightarrow> nat list \<Rightarrow> nat \<Rightarrow> nat \<Rightarrow> nat" where
  "spec_sib h xs n l = spec_node h xs l (sibling (n div 2 ^ l))"

definition spec_bit :: "nat \<Rightarrow> nat \<Rightarrow> int" where
  "spec_bit n l = int (n div 2 ^ l mod 2)"

text \<open>The proof every correct server gives for the leaf at position \<open>n\<close>.\<close>

definition spec_proof :: "hash2 \<Rightarrow> nat list \<Rightarrow> nat \<Rightarrow> merkle_proof" where
  "spec_proof h xs n =
     \<lparr>proof_path = map (\<lambda>l. toHex (spec_sib h xs n l)) [0..<TREE_DEPTH],
      path_indices = map (spec_bit n) [0..<TREE_DEPTH],
      proof_root = toHex (spec_root h xs), leaf_index = int n\<rparr>"

lemma div_pow_Suc: "(n::nat) div 2 ^ Suc m = (n div 2 ^ m) div 2"
  by (metis div_mult2_eq power_Suc2)

lemma climb_snoc:
  "climb h v (sibs @ [(s, b)]) = (if b = 0 then h (climb h v sibs) s else h s (climb h v sibs))"
  by (simp add: climb_def)

lemma climb_spec:
  "n < length xs \<Longrightarrow>
     climb h (xs ! n) (map (\<lambda>l. (spec_sib h xs n l, spec_bit n l)) [0..<m])
       = spec_node h xs m (n div 2 ^ m)"
proof (induction m)
  case 0
  then show ?case by (simp add: climb_def)
next
  case (Suc m)
  let ?i = "n div 2 ^ m"
  have "climb h (xs ! n) (map (\<lambda>l. (spec_sib h xs n l, spec_bit n l)) [0..<Suc m])
      = (if even ?i then h (spec_node h xs m ?i) (spec_node h xs m (?i + 1))
         else h (spec_node h xs m (?i - 1)) (spec_node h xs m ?i))"
    using Suc by (auto simp: climb_snoc spec_sib_def spec_bit_def sibling_def even_iff_mod_2_eq_zero)
  also have "\<dots> = spec_node h xs (Suc m) (?i div 2)"
    by (cases "even ?i") (auto elim!: evenE oddE)
  finally show ?case unfolding div_pow_Suc .
qed

lemma spec_proof_verifies:
  assumes "n < length xs" and "n < 2 ^ TREE_DEPTH"
  shows "verify_proof h (xs ! n) (spec_proof h xs n)"
proof -
  have sibs: "those (map BigInt (proof_path (spec_proof h xs n)))
      = Some (map (spec_sib h xs n) [0..<TREE_DEPTH])"
  proof -
    have "those (map (\<lambda>l. Some (spec_sib h xs n l)) ls) = Some (map (spec_sib h xs n) ls)" for ls
      by (induction ls) simp_all
    then show ?thesis by (simp add: spec_proof_def comp_def BigInt_toHex)
  qed
  have "zip (map (spec_sib h xs n) [0..<TREE_DEPTH]) (map (spec_bit n) [0..<TREE_DEPTH])
      = map (\<lambda>l. (spec_sib h xs n l, spec_bit n l)) [0..<TREE_DEPTH]"
    by (simp add: zip_map_map zip_same_conv_map)
  moreover have "n div 2 ^ TREE_DEPTH = 0" using assms(2) by simp
  ultimately have "climb h (xs ! n) (zip (map (spec_sib h xs n) [0..<TREE_DEPTH])
      (map (spec_bit n) [0..<TREE_DEPTH])) = spec_root h xs"
    using climb_spec [OF assms(1), of h TREE_DEPTH] by (simp add: spec_root_def)
  then show ?thesis
    unfolding verify_proof_def sibs by (simp add: spec_proof_def BigInt_toHex)
qed

lemma js_ops_nat:
  assumes "k < 2147483648"
  shows "js_xor1 (int k) = int (sibling k)" "js_and1 (int k) = int (k mod 2)"
    "js_shr1 (int k) = int (k div 2)"
  using assms by (auto simp: js_simps sibling_def zdiv_int zmod_int elim!: oddE)

lemma proof_levels:
  assumes inv: "tree_inv h t xs" and n: "n < 2147483648" and m: "m \<le> TREE_DEPTH"
  shows "foldl (proof_level h t) ([], [], int n) [0..<m] =
    (map (\<lambda>l. toHex (spec_sib h xs n l)) [0..<m], map (spec_bit n) [0..<m], int (n div 2 ^ m))"
  using m
proof (induction m)
  case 0
  then show ?case by simp
next
  case (Suc m)
  define k where "k = n div 2 ^ m"
  have "k < 2147483648" unfolding k_def using n by (rule le_less_trans [OF div_le_dividend])
  note ops = js_ops_nat [OF this]
  have "getNode h t m (int (sibling k)) = spec_sib h xs n m"
    using tree_inv_nodeD [OF inv] Suc.prems by (simp add: spec_sib_def k_def)
  with Suc show ?case
    by (simp add: proof_level_def ops spec_bit_def div_pow_Suc del: power_Suc of_nat_div
        flip: k_def)
qed

lemma proofForIndex_spec:
  assumes "tree_inv h t xs" and "n < length xs"
  shows "proofForIndex h t (int n) = spec_proof h xs n"
proof -
  have "n < 2147483648" using assms by (simp add: tree_inv_def)
  then show ?thesis
    using proof_levels [OF assms(1), of n TREE_DEPTH] tree_inv_rootD [OF assms(1)]
    by (simp add: proofForIndex_def spec_proof_def)
qed

text \<open>A served proof is the specified proof of some position that holds the leaf.\<close>

lemma proofFor_spec:
  assumes inv: "tree_inv h t xs" and p: "proofFor h commitment t = Inr (Some p)"
  obtains c n where "BigInt commitment = Some c" "n < length xs" "xs ! n = c"
    "p = spec_proof h xs n" "isReady t"
proof -
  from p obtain c j where c: "BigInt commitment = Some c" and j: "index_by_leaf t c = Some j"
    and p': "p = proofForIndex h t j" and r: "isReady t"
    by (auto simp: proofFor_def split: if_splits option.splits)
  from inv j have b: "0 \<le> j" "nat j < length xs" "xs ! nat j = c"
    by (auto simp: tree_inv_def)
  have "p = spec_proof h xs (nat j)"
    using proofForIndex_spec [OF inv b(2)] b(1) p' by simp
  then show thesis using that [OF c b(2,3) _ r] by blast
qed

end
