(* ===== verification/Merkle_Sync.thy ===== *)
theory Merkle_Sync
  imports Merkle_Cache "HOL-Library.Multiset"
begin

section \<open>Synchronising and persisting the tree cache\<close>

text \<open>
  The second half of \<open>merkleTree.ts\<close>: loading the persisted leaves, scanning new
  \<open>LeafInserted\<close> events window by window, checking every computed root against
  the one the chain reported, and saving leaves and cursor.  What the RPC node
  answers is the environment \<open>tree_env\<close>: the head block and, per block range,
  the logs or the error it rejects with.  ABI decoding (\<open>parseLog\<close>) is done by a
  package; a log carries its decoded triple, or none where decoding gives null.
\<close>

record tree_log =
  tl_address :: string
  tl_topic0 :: string
  tl_parsed :: "(int \<times> nat \<times> nat) option"

record tree_env =
  te_tree :: string
  te_topic :: string
  te_head :: "string + int"
  te_combined :: "int \<Rightarrow> int \<Rightarrow> string + tree_log list option"
  te_scan :: "int \<Rightarrow> int \<Rightarrow> string + tree_log list"

definition resetInMemory :: "mtree \<Rightarrow> mtree" where
  "resetInMemory t = t\<lparr>nodes := Map.empty, index_by_leaf := Map.empty, next_index := 0,
     last_block := max 0 (deploy_block t - 1),
     mtree_db := map_option (\<lambda>d. d\<lparr>merkle_leaves := [], meta_last_block := None\<rparr>) (mtree_db t)\<rparr>"

definition persistLeaf :: "int \<Rightarrow> nat \<Rightarrow> mtree \<Rightarrow> mtree" where
  "persistLeaf idx leaf t = t\<lparr>mtree_db := map_option
     (\<lambda>d. d\<lparr>merkle_leaves := AList.update idx (toHex leaf) (merkle_leaves d)\<rparr>) (mtree_db t)\<rparr>"

definition persistLastBlock :: "mtree \<Rightarrow> mtree" where
  "persistLastBlock t = t\<lparr>mtree_db := map_option
     (\<lambda>d. d\<lparr>meta_last_block := Some (last_block t)\<rparr>) (mtree_db t)\<rparr>"

subsection \<open>Loading\<close>

datatype load_status = Loaded | Discarded | LoadThrew

fun load_rows :: "hash2 \<Rightarrow> (int \<times> string) list \<Rightarrow> mtree \<Rightarrow> load_status \<times> mtree" where
  "load_rows h [] t = (Loaded, t)"
| "load_rows h ((idx, leaf) # rs) t =
     (if idx \<noteq> next_index t then (Discarded, resetInMemory t)
      else case BigInt leaf of
             None \<Rightarrow> (LoadThrew, t)
           | Some x \<Rightarrow> load_rows h rs (snd (append_leaf h x t)))"

definition loadFromDb :: "hash2 \<Rightarrow> mtree \<Rightarrow> load_status \<times> mtree" where
  "loadFromDb h t =
     (case mtree_db t of
        None \<Rightarrow> (Loaded, t)
      | Some d \<Rightarrow>
          (case load_rows h (sort_key fst (merkle_leaves d)) t of
             (Loaded, t') \<Rightarrow>
               (case meta_last_block d of
                  Some b \<Rightarrow> (Loaded, if next_index t' > 0 then t'\<lparr>last_block := b\<rparr> else t')
                | None \<Rightarrow> (Loaded, t'))
           | (st, t') \<Rightarrow> (st, t')))"

subsection \<open>Scanning\<close>

text \<open>
  One window's events: the shared vault and tree scan where it is configured,
  cut down to this tree's events, and the tree-only scan otherwise; decoded and
  sorted by leaf index.
\<close>

definition window_logs :: "tree_env \<Rightarrow> int \<Rightarrow> int \<Rightarrow> string + tree_log list" where
  "window_logs env lo hi =
     (case te_combined env lo hi of
        Inl e \<Rightarrow> Inl e
      | Inr (Some ls) \<Rightarrow>
          Inr (filter (\<lambda>l. lower (tl_address l) = lower (te_tree env) \<and> tl_topic0 l = te_topic env) ls)
      | Inr None \<Rightarrow> te_scan env lo hi)"

definition parsed_logs :: "tree_log list \<Rightarrow> (int \<times> nat \<times> nat) list" where
  "parsed_logs ls = List.map_filter tl_parsed ls"

definition window_events :: "tree_log list \<Rightarrow> (int \<times> nat \<times> nat) list" where
  "window_events ls = sort_key fst (parsed_logs ls)"

text \<open>
  The loop over the events.  \<open>True\<close> in the result means that \<open>sync\<close> returns: a
  gap in the indices (the cache is reset) or a root that differs from the
  chain's (the cache is marked inconsistent; the leaf stays in memory and is not
  persisted).
\<close>

fun process_events :: "hash2 \<Rightarrow> (int \<times> nat \<times> nat) list \<Rightarrow> mtree \<Rightarrow> bool \<times> mtree" where
  "process_events h [] t = (False, t)"
| "process_events h ((leafIndex, leaf, newRoot) # evs) t =
     (if leafIndex < next_index t then process_events h evs t
      else if leafIndex \<noteq> next_index t then (True, resetInMemory t)
      else let (computedRoot, t') = append_leaf h leaf t in
           if computedRoot \<noteq> newRoot then (True, t'\<lparr>consistent := False\<rparr>)
           else process_events h evs (persistLeaf leafIndex leaf t'))"

function sync_windows :: "hash2 \<Rightarrow> tree_env \<Rightarrow> int \<Rightarrow> int \<Rightarrow> mtree \<Rightarrow> string option \<times> mtree" where
  "sync_windows h env cursor target t =
     (if cursor \<le> target \<and> consistent t then
        let windowEnd = min (cursor + SCAN_WINDOW - 1) target in
        case window_logs env cursor windowEnd of
          Inl e \<Rightarrow> (Some e, t)
        | Inr ls \<Rightarrow>
            (case process_events h (window_events ls) t of
               (True, t') \<Rightarrow> (None, t')
             | (False, t') \<Rightarrow>
                 sync_windows h env (windowEnd + 1) target
                   (persistLastBlock (t'\<lparr>last_block := windowEnd\<rparr>)))
      else (None, t))"
  by pat_completeness auto
termination
  by (relation "measure (\<lambda>(h, env, cursor, target, t). nat (target + 1 - cursor))")
    (auto simp: SCAN_WINDOW_def)

declare sync_windows.simps [simp del]

text \<open>\<open>sync\<close>: the first component is the error a rejected RPC call throws.\<close>

definition sync :: "hash2 \<Rightarrow> tree_env \<Rightarrow> mtree \<Rightarrow> string option \<times> mtree" where
  "sync h env t =
     (if \<not> consistent t then (None, t)
      else case te_head env of
             Inl e \<Rightarrow> (Some e, t)
           | Inr head \<Rightarrow>
               let target = head - CONFIRMATIONS in
               if target \<le> last_block t then (None, t)
               else sync_windows h env (last_block t + 1) target t)"

text \<open>\<open>syncNow\<close> logs an error and keeps what the run did before it.\<close>

definition syncNow :: "hash2 \<Rightarrow> tree_env \<Rightarrow> mtree \<Rightarrow> mtree" where
  "syncNow h env t = (if \<not> consistent t then t else snd (sync h env t))"

text \<open>
  \<open>catchUp\<close> (and \<open>start\<close>, up to its timers): load, scan once, open for service.
  An exception on the way leaves \<open>ready\<close> unset.
\<close>

definition catchUp :: "hash2 \<Rightarrow> tree_env \<Rightarrow> mtree \<Rightarrow> string option \<times> mtree" where
  "catchUp h env t =
     (case loadFromDb h t of
        (LoadThrew, t') \<Rightarrow> (Some ''SyntaxError'', t')
      | (_, t') \<Rightarrow>
          (case sync h env t' of
             (Some e, t'') \<Rightarrow> (Some e, t'')
           | (None, t'') \<Rightarrow> (None, t''\<lparr>ready := True\<rparr>)))"

subsection \<open>The invariant: memory, database and chain agree\<close>

definition leaf_rows :: "nat list \<Rightarrow> (int \<times> string) list" where
  "leaf_rows xs = map (\<lambda>i. (int i, toHex (xs ! i))) [0..<length xs]"

definition db_inv :: "mtree \<Rightarrow> nat list \<Rightarrow> bool" where
  "db_inv t xs \<longleftrightarrow>
     (case mtree_db t of None \<Rightarrow> True | Some d \<Rightarrow> merkle_leaves d = leaf_rows xs)"

definition good :: "hash2 \<Rightarrow> mtree \<Rightarrow> nat list \<Rightarrow> bool" where
  "good h t xs \<longleftrightarrow> tree_inv h t xs \<and> db_inv t xs"

lemma leaf_rows_snoc: "leaf_rows (xs @ [x]) = leaf_rows xs @ [(int (length xs), toHex x)]"
  by (simp add: leaf_rows_def nth_append cong: map_cong)

lemma leaf_rows_keys: "map fst (leaf_rows xs) = map int [0..<length xs]"
  by (simp add: leaf_rows_def comp_def)

lemma sort_leaf_rows: "sort_key fst (leaf_rows xs) = leaf_rows xs"
proof (rule sort_key_id_if_sorted)
  have "sorted (map int [0..<n])" for n
    by (induction n) (auto simp: sorted_append)
  then show "sorted (map fst (leaf_rows xs))" unfolding leaf_rows_keys .
qed

lemma good_treeD: "good h t xs \<Longrightarrow> tree_inv h t xs"
  by (simp add: good_def)

lemma good_new:
  "(\<forall>d. m = Some d \<longrightarrow> merkle_leaves d = []) \<Longrightarrow> good h (new_mtree b m) []"
  by (auto simp: good_def tree_inv_new db_inv_def leaf_rows_def split: option.splits)
    (simp add: new_mtree_def)

lemma good_reset: "good h (resetInMemory t) []"
  by (auto simp: good_def db_inv_def leaf_rows_def tree_inv_def resetInMemory_def getNode_def
      ZEROS_eq spec_node_empty split: option.splits)

lemma good_persist:
  assumes g: "good h t xs" and len: "length xs < 2147483648"
  shows "good h (persistLeaf (next_index t) x (snd (append_leaf h x t))) (xs @ [x])"
proof -
  let ?t = "snd (append_leaf h x t)"
  have tree: "tree_inv h t xs" using g by (rule good_treeD)
  have "tree_inv h (persistLeaf (next_index t) x ?t) (xs @ [x]) \<longleftrightarrow> tree_inv h ?t (xs @ [x])"
    by (rule tree_inv_frame) (simp_all add: persistLeaf_def)
  moreover have "db_inv (persistLeaf (next_index t) x ?t) (xs @ [x])"
  proof -
    have "fst ` set (leaf_rows xs) = int ` {0..<length xs}"
      by (metis leaf_rows_keys list.set_map set_upt)
    then have "map_of (leaf_rows xs) (int (length xs)) = None"
      by (auto simp: map_of_eq_None_iff)
    then show ?thesis
      using g tree_inv_nextD [OF tree]
      by (auto simp: good_def db_inv_def persistLeaf_def update_fresh leaf_rows_snoc split: option.splits)
  qed
  ultimately show ?thesis using append_leaf_inv [OF tree len] by (simp add: good_def)
qed

lemma good_cursor [simp]:
  "good h (t\<lparr>last_block := b\<rparr>) xs \<longleftrightarrow> good h t xs"
  "good h (t\<lparr>ready := r\<rparr>) xs \<longleftrightarrow> good h t xs"
  by (simp_all add: good_def tree_inv_def db_inv_def)

lemma good_persistLastBlock [simp]: "good h (persistLastBlock t) xs \<longleftrightarrow> good h t xs"
  by (auto simp: good_def tree_inv_def db_inv_def getNode_def persistLastBlock_def split: option.splits)

lemma persist_frame [simp]:
  "next_index (persistLeaf i x t) = next_index t" "consistent (persistLeaf i x t) = consistent t"
  "last_block (persistLeaf i x t) = last_block t" "ready (persistLeaf i x t) = ready t"
  "next_index (persistLastBlock t) = next_index t" "consistent (persistLastBlock t) = consistent t"
  "last_block (persistLastBlock t) = last_block t" "ready (persistLastBlock t) = ready t"
  "consistent (resetInMemory t) = consistent t" "ready (resetInMemory t) = ready t"
  by (simp_all add: persistLeaf_def persistLastBlock_def resetInMemory_def)

subsection \<open>Safety: nothing is accepted that the chain did not attest\<close>

text \<open>
  \<open>attested h E m ys\<close>: for every position from \<open>m\<close> on, the leaf at it was
  reported (in \<open>E\<close>) together with the root of the tree up to it.
\<close>

definition attested :: "hash2 \<Rightarrow> (int \<times> nat \<times> nat) set \<Rightarrow> nat \<Rightarrow> nat list \<Rightarrow> bool" where
  "attested h E m ys \<longleftrightarrow>
     (\<forall>k. m \<le> k \<longrightarrow> k < length ys \<longrightarrow> (int k, ys ! k, spec_root h (take (Suc k) ys)) \<in> E)"

lemma attested_refl [simp]: "length ys \<le> m \<Longrightarrow> attested h E m ys"
  by (auto simp: attested_def)

lemma attested_mono: "attested h E m ys \<Longrightarrow> E \<subseteq> E' \<Longrightarrow> attested h E' m ys"
  by (auto simp: attested_def)

lemma attested_trans:
  assumes "attested h E m (xs @ ys)" and "attested h E (length (xs @ ys)) (xs @ ys @ zs)"
  shows "attested h E m (xs @ ys @ zs)"
  unfolding attested_def
proof (intro allI impI)
  fix k assume k: "m \<le> k" "k < length (xs @ ys @ zs)"
  show "(int k, (xs @ ys @ zs) ! k, spec_root h (take (Suc k) (xs @ ys @ zs))) \<in> E"
  proof (cases "k < length (xs @ ys)")
    case True
    then have "(xs @ ys @ zs) ! k = (xs @ ys) ! k"
      "take (Suc k) (xs @ ys @ zs) = take (Suc k) (xs @ ys)"
      by (simp_all add: nth_append flip: append_assoc)
    with True k assms(1) show ?thesis by (simp only: attested_def)
  next
    case False
    with k assms(2) show ?thesis by (simp add: attested_def)
  qed
qed

lemma process_events_safe:
  assumes "good h t xs" and "consistent t" and "\<forall>e \<in> set evs. fst e < 2147483648"
    and "process_events h evs t = (stop, t')" and "consistent t'"
  shows "if stop then good h t' []
         else \<exists>zs. good h t' (xs @ zs) \<and> attested h (set evs) (length xs) (xs @ zs)"
  using assms
proof (induction h evs t arbitrary: xs rule: process_events.induct)
  case (1 h t)
  then show ?case by (auto intro: exI [of _ "[]"])
next
  case (2 h i leaf r evs t)
  have idx: "next_index t = int (length xs)" using tree_inv_nextD [OF good_treeD [OF 2(3)]] .
  show ?case
  proof (cases "i = next_index t \<and> fst (append_leaf h leaf t) = r")
    case True
    let ?t = "persistLeaf i leaf (snd (append_leaf h leaf t))"
    have len: "length xs < 2147483648" using 2(5) True idx by simp
    have root: "r = spec_root h (xs @ [leaf])"
      using append_leaf_root [OF good_treeD [OF 2(3)] len] True by simp
    have "good h ?t (xs @ [leaf])" using good_persist [OF 2(3) len] True by simp
    moreover have "process_events h evs ?t = (stop, t')"
      using 2(6) True by (simp add: Let_def case_prod_beta)
    ultimately have IH: "if stop then good h t' [] else \<exists>zs. good h t' ((xs @ [leaf]) @ zs) \<and>
        attested h (set evs) (length (xs @ [leaf])) ((xs @ [leaf]) @ zs)"
      using "2.IH"(2) [of "append_leaf h leaf t"] True 2(4,5,7)
      by (metis (no_types, lifting) append_leaf_frame(6) less_irrefl list.set_intros(2)
          persist_frame(2) prod.collapse)
    have one: "attested h (set ((i, leaf, r) # evs)) (length xs) (xs @ [leaf])"
      using True idx root by (auto simp: attested_def less_Suc_eq nth_append)
    show ?thesis
    proof (cases stop)
      case True
      with IH show ?thesis by simp
    next
      case False
      with IH obtain zs where zs: "good h t' (xs @ leaf # zs)"
        "attested h (set evs) (length (xs @ [leaf])) (xs @ [leaf] @ zs)" by auto
      have "attested h (set ((i, leaf, r) # evs)) (length xs) (xs @ [leaf] @ zs)"
        by (rule attested_trans [OF one]) (rule attested_mono [OF zs(2)], auto)
      with zs(1) False show ?thesis by auto
    qed
  next
    case False
    show ?thesis
    proof (cases "i < next_index t")
      case True
      with 2 have "if stop then good h t' []
          else \<exists>zs. good h t' (xs @ zs) \<and> attested h (set evs) (length xs) (xs @ zs)" by simp
      then show ?thesis
        by (auto intro: attested_mono [of _ "set evs"] split: if_splits)
    next
      case False
      with \<open>\<not> (i = next_index t \<and> _)\<close> 2(6,7) show ?thesis
        by (auto simp: Let_def case_prod_beta good_reset split: if_splits)
    qed
  qed
qed

definition reported :: "tree_env \<Rightarrow> (int \<times> nat \<times> nat) set" where
  "reported env = {e. \<exists>lo hi ls. window_logs env lo hi = Inr ls \<and> e \<in> set (parsed_logs ls)}"

definition index_bounded :: "tree_env \<Rightarrow> bool" where
  "index_bounded env \<longleftrightarrow> (\<forall>e \<in> reported env. fst e < 2147483648)"

lemma set_window_events [simp]: "set (window_events ls) = set (parsed_logs ls)"
  by (simp add: window_events_def)

definition sync_safe :: "hash2 \<Rightarrow> tree_env \<Rightarrow> mtree \<Rightarrow> nat list \<Rightarrow> bool" where
  "sync_safe h env t' xs \<longleftrightarrow>
     (consistent t' \<longrightarrow> good h t' [] \<or>
        (\<exists>zs. good h t' (xs @ zs) \<and> attested h (reported env) (length xs) (xs @ zs)))"

lemma sync_windows_safe:
  assumes "good h t xs" and "index_bounded env"
  shows "sync_safe h env (snd (sync_windows h env cursor target t)) xs"
  using assms
proof (induction h env cursor target t arbitrary: xs rule: sync_windows.induct)
  case (1 h env cursor target t)
  let ?W = "min (cursor + SCAN_WINDOW - 1) target"
  show ?case
  proof (cases "cursor \<le> target \<and> consistent t")
    case False
    then show ?thesis using "1.prems"
      by (auto simp: sync_windows.simps [of h env cursor] sync_safe_def intro: exI [of _ "[]"])
  next
    case run: True
    show ?thesis
    proof (cases "window_logs env cursor ?W")
      case (Inl e)
      then show ?thesis using "1.prems" run
        by (auto simp: sync_windows.simps [of h env cursor] Let_def sync_safe_def intro: exI [of _ "[]"])
    next
      case (Inr ls)
      have rep: "set (parsed_logs ls) \<subseteq> reported env" using Inr by (auto simp: reported_def)
      then have bnd: "\<forall>e \<in> set (window_events ls). fst e < 2147483648"
        using "1.prems"(2) by (auto simp: index_bounded_def)
      obtain stop t1 where pe: "process_events h (window_events ls) t = (stop, t1)" by fastforce
      note step = process_events_safe [OF "1.prems"(1) conjunct2 [OF run] bnd pe]
      show ?thesis
      proof (cases stop)
        case True
        then show ?thesis using run Inr pe step
          by (auto simp: sync_windows.simps [of h env cursor] Let_def sync_safe_def)
      next
        case False
        let ?t2 = "persistLastBlock (t1\<lparr>last_block := ?W\<rparr>)"
        let ?r = "snd (sync_windows h env (?W + 1) target ?t2)"
        have res: "snd (sync_windows h env cursor target t) = ?r"
          using run Inr pe False by (simp add: sync_windows.simps [of h env cursor] Let_def)
        show ?thesis
        proof (cases "consistent t1")
          case True
          with step False obtain zs where zs: "good h t1 (xs @ zs)"
            "attested h (set (window_events ls)) (length xs) (xs @ zs)" by auto
          have att: "attested h (reported env) (length xs) (xs @ zs)"
            using zs(2) rep by (auto intro: attested_mono)
          have "sync_safe h env ?r (xs @ zs)"
            using "1.IH" [OF run refl Inr pe [symmetric], of "xs @ zs"] zs(1) \<open>\<not> stop\<close> "1.prems"(2)
            by simp
          then show ?thesis unfolding res sync_safe_def
            using attested_trans [OF att] by auto
        next
          case False
          then have "?r = ?t2" by (simp add: sync_windows.simps [of h env "?W + 1"])
          with False show ?thesis unfolding res sync_safe_def by simp
        qed
      qed
    qed
  qed
qed

lemma sync_safe_sync:
  assumes "good h t xs" and "index_bounded env"
  shows "sync_safe h env (snd (sync h env t)) xs"
proof -
  have "sync_safe h env t xs"
    using assms(1) by (auto simp: sync_safe_def intro: exI [of _ "[]"])
  then show ?thesis
    using sync_windows_safe [OF assms]
    by (auto simp: sync_def Let_def split: sum.splits)
qed

subsection \<open>Completeness against an honest chain\<close>

text \<open>
  \<open>chain_view h ls cnt env\<close>: the contract holds the leaves \<open>ls\<close>, of which
  \<open>cnt b\<close> were inserted up to block \<open>b\<close>, and the node answers every range with
  exactly the events of that range (in any order), each with its true root.
\<close>

definition expected_events :: "hash2 \<Rightarrow> nat list \<Rightarrow> nat \<Rightarrow> nat \<Rightarrow> (int \<times> nat \<times> nat) list" where
  "expected_events h ls a b =
     map (\<lambda>i. (int i, ls ! i, spec_root h (take (Suc i) ls))) [a..<b]"

definition chain_view :: "hash2 \<Rightarrow> nat list \<Rightarrow> (int \<Rightarrow> nat) \<Rightarrow> tree_env \<Rightarrow> bool" where
  "chain_view h ls cnt env \<longleftrightarrow>
     mono cnt \<and> (\<forall>b. cnt b \<le> length ls) \<and> length ls \<le> 2147483648 \<and>
     (\<forall>lo hi. \<exists>logs. window_logs env lo hi = Inr logs \<and>
        mset (parsed_logs logs) = mset (expected_events h ls (cnt (lo - 1)) (cnt hi)))"

lemma sort_key_unique:
  assumes "mset xs = mset ys" and "sorted (map fst ys)" and "distinct (map fst ys)"
  shows "sort_key fst xs = ys"
proof (rule map_sorted_distinct_set_unique [of fst])
  have m: "mset (sort_key fst xs) = mset ys" using assms(1) by simp
  show set: "set (sort_key fst xs) = set ys" using m by (metis set_mset_mset)
  have "distinct (map fst (sort_key fst xs)) \<longleftrightarrow> distinct (map fst ys)"
    by (metis m mset_eq_imp_distinct_iff mset_map)
  then show "distinct (map fst (sort_key fst xs))" using assms(3) by simp
  show "inj_on fst (set (sort_key fst xs) \<union> set ys)"
    unfolding set using assms(3) by (simp add: distinct_map)
qed (use assms in simp_all)

lemma window_events_expected:
  assumes "mset (parsed_logs logs) = mset (expected_events h ls a b)"
  shows "window_events logs = expected_events h ls a b"
  unfolding window_events_def
proof (rule sort_key_unique [OF assms])
  have keys: "map fst (expected_events h ls a b) = map int [a..<b]"
    by (simp add: expected_events_def comp_def)
  have "sorted (map int [a..<b])" by (induction b) (auto simp: sorted_append)
  then show "sorted (map fst (expected_events h ls a b))" unfolding keys .
  show "distinct (map fst (expected_events h ls a b))" unfolding keys by (simp add: distinct_map)
qed

lemma expected_events_Cons:
  "a < b \<Longrightarrow> expected_events h ls a b =
     (int a, ls ! a, spec_root h (take (Suc a) ls)) # expected_events h ls (Suc a) b"
  by (simp add: expected_events_def upt_conv_Cons)

lemma process_events_complete:
  assumes "good h t (take n ls)" and "a \<le> n" and "n \<le> length ls" and "b \<le> length ls"
    and "length ls \<le> 2147483648" and "consistent t"
  shows "\<exists>t'. process_events h (expected_events h ls a b) t = (False, t') \<and>
    good h t' (take (max n b) ls) \<and> consistent t'"
  using assms
proof (induction "b - a" arbitrary: a n t)
  case 0
  then have "expected_events h ls a b = []" and "max n b = n" by (auto simp: expected_events_def)
  with 0 show ?case by simp
next
  case (Suc d)
  have ab: "a < b" using Suc(2) by simp
  have idx: "next_index t = int n" using tree_inv_nextD [OF good_treeD [OF Suc(3)]] Suc(5) by simp
  show ?case
  proof (cases "a < n")
    case True
    have "\<exists>t'. process_events h (expected_events h ls (Suc a) b) t = (False, t') \<and>
        good h t' (take (max n b) ls) \<and> consistent t'"
      using Suc(2) True Suc(5-8) by (intro Suc(1) [OF _ Suc(3)]) auto
    with True idx show ?thesis by (simp add: expected_events_Cons [OF ab])
  next
    case False
    then have an: "a = n" using Suc(4) by simp
    then have nlen: "n < length ls" using ab Suc(6) by simp
    have len: "length (take n ls) < 2147483648" using nlen Suc(7) by simp
    let ?t = "persistLeaf (int n) (ls ! n) (snd (append_leaf h (ls ! n) t))"
    have good: "good h ?t (take (Suc n) ls)"
      using good_persist [OF Suc(3) len, of "ls ! n"] idx nlen by (simp add: take_Suc_snoc)
    have root: "fst (append_leaf h (ls ! n) t) = spec_root h (take (Suc n) ls)"
      using append_leaf_root [OF good_treeD [OF Suc(3)] len] nlen by (simp add: take_Suc_snoc)
    have "\<exists>t'. process_events h (expected_events h ls (Suc a) b) ?t = (False, t') \<and>
        good h t' (take (max (Suc n) b) ls) \<and> consistent t'"
      using Suc(2) an nlen Suc(6-8) by (intro Suc(1) [OF _ good]) auto
    moreover have "max (Suc n) b = max n b" using an ab by simp
    ultimately show ?thesis
      unfolding expected_events_Cons [OF ab] using idx root an
      by (simp add: Let_def case_prod_beta)
  qed
qed

lemma sync_windows_complete:
  assumes "good h t (take n ls)" and "cnt (cursor - 1) \<le> n" and "n \<le> length ls"
    and "chain_view h ls cnt env" and "consistent t"
    and "cursor \<le> target + 1" and "last_block t = cursor - 1"
  shows "\<exists>t'. sync_windows h env cursor target t = (None, t') \<and>
    good h t' (take (max n (cnt target)) ls) \<and> consistent t' \<and> last_block t' = target"
  using assms
proof (induction h env cursor target t arbitrary: n rule: sync_windows.induct)
  case (1 h env cursor target t)
  let ?W = "min (cursor + SCAN_WINDOW - 1) target"
  show ?case
  proof (cases "cursor \<le> target")
    case False
    then have "cursor - 1 = target" using "1.prems"(6) by simp
    with False "1.prems" show ?thesis
      by (simp add: sync_windows.simps [of h env cursor] max_absorb1)
  next
    case True
    have view: "mono cnt" "\<And>b. cnt b \<le> length ls" "length ls \<le> 2147483648"
      using "1.prems"(4) by (auto simp: chain_view_def)
    obtain logs where logs: "window_logs env cursor ?W = Inr logs"
      "mset (parsed_logs logs) = mset (expected_events h ls (cnt (cursor - 1)) (cnt ?W))"
      using "1.prems"(4) unfolding chain_view_def by meson
    obtain t1 where t1: "process_events h (window_events logs) t = (False, t1)"
      "good h t1 (take (max n (cnt ?W)) ls)" "consistent t1"
      unfolding window_events_expected [OF logs(2)]
      using process_events_complete [OF "1.prems"(1-3) view(2) view(3) "1.prems"(5)] by blast
    have m: "max (max n (cnt ?W)) (cnt target) = max n (cnt target)"
      using view(1) by (simp add: monoD max.assoc max_absorb2)
    from t1(2) have g: "good h (persistLastBlock (t1\<lparr>last_block := ?W\<rparr>)) (take (max n (cnt ?W)) ls)"
      by simp
    have "\<exists>t'. sync_windows h env (?W + 1) target (persistLastBlock (t1\<lparr>last_block := ?W\<rparr>)) = (None, t') \<and>
        good h t' (take (max (max n (cnt ?W)) (cnt target)) ls) \<and> consistent t' \<and> last_block t' = target"
      by (rule "1.IH" [OF conjI [OF True "1.prems"(5)] refl logs(1) t1(1) [symmetric] refl
            g _ _ "1.prems"(4)]) (use t1(3) "1.prems"(3) view(2) in simp_all)
    with True "1.prems"(5) logs(1) t1(1) show ?thesis
      unfolding m by (simp add: sync_windows.simps [of h env cursor] Let_def)
  qed
qed

lemma sync_complete:
  assumes "good h t (take n ls)" and "cnt (last_block t) \<le> n" and "n \<le> length ls"
    and "chain_view h ls cnt env" and "consistent t"
    and "te_head env = Inr head" and "last_block t \<le> head - CONFIRMATIONS"
  shows "\<exists>t'. sync h env t = (None, t') \<and> consistent t' \<and>
    good h t' (take (max n (cnt (head - CONFIRMATIONS))) ls) \<and> last_block t' = head - CONFIRMATIONS"
proof (cases "head - CONFIRMATIONS \<le> last_block t")
  case True
  with assms(7) have "head - CONFIRMATIONS = last_block t" by simp
  with assms show ?thesis by (simp add: sync_def max_absorb1)
next
  case False
  have "\<exists>t'. sync_windows h env (last_block t + 1) (head - CONFIRMATIONS) t = (None, t') \<and>
      good h t' (take (max n (cnt (head - CONFIRMATIONS))) ls) \<and> consistent t' \<and>
      last_block t' = head - CONFIRMATIONS"
    by (rule sync_windows_complete) (use assms False in simp_all)
  then show ?thesis using assms(5,6) False by (auto simp: sync_def)
qed

subsection \<open>Restarting from the database\<close>

lemma load_rows_good:
  assumes "tree_inv h t xs" and "length (xs @ ys) \<le> 2147483648"
  shows "\<exists>t'. load_rows h (map (\<lambda>i. (int i, toHex ((xs @ ys) ! i))) [length xs..<length (xs @ ys)]) t
      = (Loaded, t') \<and> tree_inv h t' (xs @ ys) \<and> mtree_db t' = mtree_db t \<and>
      last_block t' = last_block t \<and> consistent t' = consistent t"
  using assms
proof (induction ys arbitrary: t xs)
  case Nil
  then show ?case by simp
next
  case (Cons y ys)
  have len: "length xs < 2147483648" using Cons.prems(2) by simp
  have inv: "tree_inv h (snd (append_leaf h y t)) (xs @ [y])"
    by (rule append_leaf_inv [OF Cons.prems(1) len])
  have split: "[length xs..<length (xs @ y # ys)] = length xs # [length (xs @ [y])..<length ((xs @ [y]) @ ys)]"
    by (simp add: upt_conv_Cons del: upt_Suc)
  have "\<exists>t'. load_rows h (map (\<lambda>i. (int i, toHex (((xs @ [y]) @ ys) ! i)))
        [length (xs @ [y])..<length ((xs @ [y]) @ ys)]) (snd (append_leaf h y t)) = (Loaded, t') \<and>
      tree_inv h t' ((xs @ [y]) @ ys) \<and> mtree_db t' = mtree_db (snd (append_leaf h y t)) \<and>
      last_block t' = last_block (snd (append_leaf h y t)) \<and>
      consistent t' = consistent (snd (append_leaf h y t))"
    by (rule Cons.IH [OF inv]) (use Cons.prems(2) in simp)
  then show ?case
    unfolding split list.map load_rows.simps
    using tree_inv_nextD [OF Cons.prems(1)] by (simp add: BigInt_toHex)
qed

lemma loadFromDb_good:
  assumes "merkle_leaves d = leaf_rows xs" and "length xs \<le> 2147483648"
  shows "\<exists>t'. loadFromDb h (new_mtree b (Some d)) = (Loaded, t') \<and> good h t' xs \<and> consistent t' \<and>
    last_block t' = (case meta_last_block d of
        Some c \<Rightarrow> if xs = [] then max 0 (b - 1) else c | None \<Rightarrow> max 0 (b - 1))"
proof -
  obtain t' where t': "load_rows h (leaf_rows xs) (new_mtree b (Some d)) = (Loaded, t')"
    "tree_inv h t' xs" "mtree_db t' = mtree_db (new_mtree b (Some d))"
    "last_block t' = last_block (new_mtree b (Some d))"
    "consistent t' = consistent (new_mtree b (Some d))"
    using load_rows_good [OF tree_inv_new, of xs h b "Some d"] assms(2)
    by (auto simp: leaf_rows_def)
  then have "good h t' xs" using assms(1) by (simp add: good_def db_inv_def new_mtree_def)
  moreover have "0 < next_index t' \<longleftrightarrow> xs \<noteq> []" using tree_inv_nextD [OF t'(2)] by simp
  moreover have "consistent t'" "last_block t' = max 0 (b - 1)"
    using t'(4,5) by (simp_all add: new_mtree_def)
  moreover have "mtree_db (new_mtree b (Some d)) = Some d" by (simp add: new_mtree_def)
  ultimately show ?thesis
    using t'(1) assms(1) by (auto simp: loadFromDb_def sort_leaf_rows split: option.splits)
qed

lemma catchUp_complete:
  assumes "merkle_leaves d = leaf_rows (take n ls)" and "n \<le> length ls"
    and view: "chain_view h ls cnt env" and "te_head env = Inr head"
    and "cnt (max 0 (b - 1)) = 0" and "max 0 (b - 1) \<le> head - CONFIRMATIONS"
    and cur: "\<forall>c. meta_last_block d = Some c \<longrightarrow> cnt c \<le> n \<and> c \<le> head - CONFIRMATIONS"
  shows "\<exists>t'. catchUp h env (new_mtree b (Some d)) = (None, t') \<and> isReady t' \<and>
    good h t' (take (max n (cnt (head - CONFIRMATIONS))) ls) \<and> last_block t' = head - CONFIRMATIONS"
proof -
  have len: "length (take n ls) \<le> 2147483648" using view by (auto simp: chain_view_def)
  obtain t0 where t0: "loadFromDb h (new_mtree b (Some d)) = (Loaded, t0)" "good h t0 (take n ls)"
    "consistent t0" "last_block t0 = (case meta_last_block d of
        Some c \<Rightarrow> if take n ls = [] then max 0 (b - 1) else c | None \<Rightarrow> max 0 (b - 1))"
    using loadFromDb_good [OF assms(1) len] by blast
  have "cnt (last_block t0) \<le> n" and "last_block t0 \<le> head - CONFIRMATIONS"
    using assms(5,6) cur t0(4) by (auto split: option.splits if_splits)
  then obtain t1 where t1: "sync h env t0 = (None, t1)" "consistent t1"
    "good h t1 (take (max n (cnt (head - CONFIRMATIONS))) ls)" "last_block t1 = head - CONFIRMATIONS"
    using sync_complete [OF t0(2) _ assms(2) view t0(3) assms(4)] by blast
  have "catchUp h env (new_mtree b (Some d)) = (None, t1\<lparr>ready := True\<rparr>)"
    using t0(1) t1(1) by (simp add: catchUp_def)
  then show ?thesis using t1(2-4) by (simp add: isReady_def)
qed

end
