(* ===== verification/Log_Scan.thy ===== *)
theory Log_Scan
  imports Prelude
begin

section \<open>Reading logs from a metered node\<close>

text \<open>
  The RPC layer both services use (\<open>proof-relay/src/merkle.ts\<close> and
  \<open>signing-layer/src/logScan.ts\<close>): telling rate limits from other errors, the
  retrying provider, paging through \<open>eth_getLogs\<close> with a span that halves on
  range errors, the cached block head and the shared vault and tree scan.  The
  node itself is a parameter: what it answers to the \<open>n\<close>-th request.
\<close>

subsection \<open>Rate limits\<close>

datatype js_code = NumCode int | StrCode string

record rpc_error =
  err_code :: "js_code option"
  err_inner_code :: "js_code option"
  err_inner_message :: "string option"
  err_short_message :: "string option"
  err_message :: "string option"

definition isRateLimit :: "rpc_error \<Rightarrow> bool" where
  "isRateLimit e =
     (let code = orelse (err_inner_code e) (err_code e);
          msg = lower (case orelse (err_inner_message e) (orelse (err_short_message e) (err_message e)) of
                         None \<Rightarrow> '''' | Some m \<Rightarrow> m)
      in code = Some (NumCode 429) \<or> code = Some (NumCode (-32005)) \<or>
         js_includes ''compute unit'' msg \<or> js_includes ''rate limit'' msg \<or>
         js_includes ''too many requests'' msg \<or> js_includes ''429'' msg \<or> js_includes ''throughput'' msg)"

subsection \<open>The retrying provider\<close>

text \<open>
  \<open>send\<close> of \<open>RetryingJsonRpcProvider\<close>.  \<open>calls k\<close> is the outcome of the \<open>k\<close>-th
  underlying request; the result carries the delays slept before it.
\<close>

definition retry_delay :: "nat \<Rightarrow> nat" where
  "retry_delay attempt = min 8000 (300 * 2 ^ attempt)"

function send_from :: "(nat \<Rightarrow> rpc_error + 'a) \<Rightarrow> nat \<Rightarrow> (rpc_error + 'a) \<times> nat list" where
  "send_from calls attempt =
     (case calls attempt of
        Inr r \<Rightarrow> (Inr r, [])
      | Inl e \<Rightarrow>
          if isRateLimit e \<and> attempt < 8
          then (let (r, ds) = send_from calls (attempt + 1) in (r, retry_delay (attempt + 1) # ds))
          else (Inl e, []))"
  by pat_completeness auto
termination
  by (relation "measure (\<lambda>(calls, attempt). 8 - attempt)") auto

declare send_from.simps [simp del]

definition rpc_send :: "(nat \<Rightarrow> rpc_error + 'a) \<Rightarrow> (rpc_error + 'a) \<times> nat list" where
  "rpc_send calls = send_from calls 0"

lemma send_from_delays:
  "attempt \<le> 8 \<Longrightarrow> snd (send_from calls attempt) = map retry_delay
     [attempt + 1..<attempt + 1 + length (snd (send_from calls attempt))] \<and>
   length (snd (send_from calls attempt)) \<le> 8 - attempt"
proof (induction calls attempt rule: send_from.induct)
  case (1 calls attempt)
  show ?case
  proof (cases "\<exists>e. calls attempt = Inl e \<and> isRateLimit e \<and> attempt < 8")
    case False
    then show ?thesis by (auto simp: send_from.simps [of calls attempt] split: sum.splits)
  next
    case True
    then obtain e where e: "calls attempt = Inl e" "isRateLimit e" "attempt < 8" by blast
    then have IH: "snd (send_from calls (attempt + 1)) = map retry_delay
        [attempt + 1 + 1..<attempt + 1 + 1 + length (snd (send_from calls (attempt + 1)))]"
      "length (snd (send_from calls (attempt + 1))) \<le> 8 - (attempt + 1)"
      using "1.IH" [of e] by auto
    have "snd (send_from calls attempt) = retry_delay (attempt + 1) # snd (send_from calls (attempt + 1))"
      using e by (simp add: send_from.simps [of calls attempt] case_prod_beta)
    with IH e(3) show ?thesis
      by (simp add: upt_conv_Cons del: upt_Suc)
  qed
qed

lemma sum_retry_delays: "k \<le> 8 \<Longrightarrow> sum_list (map retry_delay [1..<1 + k]) \<le> 41000"
proof -
  assume "k \<le> 8"
  then have "(1 + k) + (8 - k) = 9" by simp
  with upt_add_eq_append [of 1 "1 + k" "8 - k"]
  have "[1..<9] = [1..<1 + k] @ [1 + k..<9]" by (simp only: le_add1)
  then have "sum_list (map retry_delay [1..<1 + k]) \<le> sum_list (map retry_delay [1..<9])" by simp
  also have "\<dots> = 41000" by (simp add: upt_conv_Cons retry_delay_def)
  finally show ?thesis .
qed

text \<open>
  A request sleeps at most 41 seconds and is sent at most nine times; an error
  that is no rate limit is passed on at once.
\<close>

lemma rpc_send_bounded:
  "length (snd (rpc_send calls)) \<le> 8 \<and> sum_list (snd (rpc_send calls)) \<le> 41000"
  using send_from_delays [of 0 calls] sum_retry_delays [of "length (snd (send_from calls 0))"]
  by (simp add: rpc_send_def)

lemma send_from_result:
  "attempt \<le> 8 \<Longrightarrow> \<exists>k. attempt \<le> k \<and> k \<le> 8 \<and> fst (send_from calls attempt) = calls k \<and>
     length (snd (send_from calls attempt)) = k - attempt \<and>
     (\<forall>j. attempt \<le> j \<longrightarrow> j < k \<longrightarrow> (\<exists>e. calls j = Inl e \<and> isRateLimit e)) \<and>
     (k < 8 \<longrightarrow> (\<forall>e. calls k = Inl e \<longrightarrow> \<not> isRateLimit e))"
proof (induction calls attempt rule: send_from.induct)
  case (1 calls attempt)
  show ?case
  proof (cases "\<exists>e. calls attempt = Inl e \<and> isRateLimit e \<and> attempt < 8")
    case False
    then have "fst (send_from calls attempt) = calls attempt \<and> snd (send_from calls attempt) = []"
      by (auto simp: send_from.simps [of calls attempt] split: sum.splits)
    with False "1.prems" show ?thesis by (intro exI [of _ attempt]) auto
  next
    case True
    then obtain e where e: "calls attempt = Inl e" "isRateLimit e" "attempt < 8" by blast
    have "fst (send_from calls attempt) = fst (send_from calls (attempt + 1))"
      "length (snd (send_from calls attempt)) = Suc (length (snd (send_from calls (attempt + 1))))"
      using e by (simp_all add: send_from.simps [of calls attempt] case_prod_beta)
    moreover obtain k where "attempt + 1 \<le> k" "k \<le> 8" "fst (send_from calls (attempt + 1)) = calls k"
      "length (snd (send_from calls (attempt + 1))) = k - (attempt + 1)"
      "\<forall>j. attempt + 1 \<le> j \<longrightarrow> j < k \<longrightarrow> (\<exists>e. calls j = Inl e \<and> isRateLimit e)"
      "k < 8 \<longrightarrow> (\<forall>e. calls k = Inl e \<longrightarrow> \<not> isRateLimit e)"
      using "1.IH" [of e] e by auto
    moreover have "\<exists>e. calls attempt = Inl e \<and> isRateLimit e" using e by blast
    ultimately have "\<forall>j. attempt \<le> j \<longrightarrow> j < k \<longrightarrow> (\<exists>e. calls j = Inl e \<and> isRateLimit e)"
      by (metis Suc_eq_plus1 Suc_leI le_neq_implies_less)
    moreover note \<open>attempt + 1 \<le> k\<close> \<open>k \<le> 8\<close>
    ultimately show ?thesis
      using \<open>fst (send_from calls attempt) = fst (send_from calls (attempt + 1))\<close>
        \<open>length (snd (send_from calls attempt)) = Suc (length (snd (send_from calls (attempt + 1))))\<close>
        \<open>fst (send_from calls (attempt + 1)) = calls k\<close>
        \<open>length (snd (send_from calls (attempt + 1))) = k - (attempt + 1)\<close>
        \<open>k < 8 \<longrightarrow> (\<forall>e. calls k = Inl e \<longrightarrow> \<not> isRateLimit e)\<close>
      by (intro exI [of _ k]) simp
  qed
qed

subsection \<open>Paging with a shrinking span\<close>

text \<open>
  The loop of \<open>getLogsChunked\<close> (and of \<open>queryFilterChunked\<close>, which is the same
  loop over a contract filter).  \<open>query k lo hi\<close> is the node's answer to the
  \<open>k\<close>-th request, for the range \<open>lo..hi\<close>.  A rate limit is passed on, a
  failing single block too; any other error halves the span.  The loop ends
  because each round either moves \<open>from\<close> or shrinks a span above one.
\<close>

function scan_loop :: "(nat \<Rightarrow> int \<Rightarrow> int \<Rightarrow> rpc_error + 'l list) \<Rightarrow> nat \<Rightarrow> int \<Rightarrow> int \<Rightarrow> int \<Rightarrow> 'l list
    \<Rightarrow> rpc_error + 'l list" where
  "scan_loop query k from to_block chunk out =
     (if from \<le> to_block \<and> 1 \<le> chunk then
        let hi = min (from + chunk - 1) to_block in
        case query k from hi of
          Inr logs \<Rightarrow> scan_loop query (k + 1) (hi + 1) to_block chunk (out @ logs)
        | Inl e \<Rightarrow>
            if isRateLimit e then Inl e
            else if hi = from then Inl e
            else scan_loop query (k + 1) from to_block (max 1 (chunk div 2)) out
      else Inr out)"
  by pat_completeness auto
termination
  by (relation "measures [\<lambda>(q, k, lo, hi, c, out). nat (hi + 1 - lo), \<lambda>(q, k, lo, hi, c, out). nat c]")
    auto

declare scan_loop.simps [simp del]

definition getLogsChunked :: "(nat \<Rightarrow> int \<Rightarrow> int \<Rightarrow> rpc_error + 'l list) \<Rightarrow> int \<Rightarrow> int \<Rightarrow> int
    \<Rightarrow> rpc_error + 'l list" where
  "getLogsChunked query from_block to_block startChunk =
     scan_loop query 0 from_block to_block (max 1 startChunk) []"

definition queryFilterChunked :: "(nat \<Rightarrow> int \<Rightarrow> int \<Rightarrow> rpc_error + 'l list) \<Rightarrow> int \<Rightarrow> int \<Rightarrow> int
    \<Rightarrow> rpc_error + 'l list" where
  "queryFilterChunked query from_block to_block startChunk =
     scan_loop query 0 (max 0 from_block) to_block (max 1 startChunk) []"

text \<open>
  A node that does not lie: whatever it answers to a range is the logs of the
  range's blocks, block by block.  Over such a node a client of the scan sees
  the whole range or an error, never a part of it.
\<close>

definition range_logs :: "(int \<Rightarrow> 'l list) \<Rightarrow> int \<Rightarrow> int \<Rightarrow> 'l list" where
  "range_logs chain lo hi = concat (map chain [lo..hi])"

definition truthful :: "(int \<Rightarrow> 'l list) \<Rightarrow> (nat \<Rightarrow> int \<Rightarrow> int \<Rightarrow> rpc_error + 'l list) \<Rightarrow> bool" where
  "truthful chain query \<longleftrightarrow>
     (\<forall>k lo hi logs. query k lo hi = Inr logs \<longrightarrow> logs = range_logs chain lo hi)"

text \<open>
  A node with a range limit \<open>L\<close>: it serves every range of at most \<open>L\<close> blocks
  and refuses others with an error that is no rate limit.
\<close>

definition serves_up_to :: "int \<Rightarrow> (nat \<Rightarrow> int \<Rightarrow> int \<Rightarrow> rpc_error + 'l list) \<Rightarrow> bool" where
  "serves_up_to L query \<longleftrightarrow>
     (\<forall>k lo hi. hi - lo + 1 \<le> L \<longrightarrow> (\<exists>logs. query k lo hi = Inr logs)) \<and>
     (\<forall>k lo hi e. query k lo hi = Inl e \<longrightarrow> \<not> isRateLimit e)"

lemma range_logs_empty [simp]: "hi < lo \<Longrightarrow> range_logs chain lo hi = []"
  by (simp add: range_logs_def)

lemma range_logs_append:
  assumes "lo \<le> mid + 1" and "mid \<le> hi"
  shows "range_logs chain lo mid @ range_logs chain (mid + 1) hi = range_logs chain lo hi"
proof (cases "lo \<le> mid")
  case True
  then have "[lo..hi] = [lo..mid] @ [mid + 1..hi]" using assms(2) by (rule upto_split2)
  then show ?thesis by (simp add: range_logs_def)
next
  case False
  with assms(1) have "lo = mid + 1" by simp
  then show ?thesis by simp
qed

lemma scan_loop_whole:
  assumes "truthful chain query" and "1 \<le> chunk"
    and "scan_loop query k lo to_block chunk out = Inr res"
  shows "res = out @ range_logs chain lo to_block"
  using assms
proof (induction query k lo to_block chunk out rule: scan_loop.induct)
  case (1 query k lo to_block chunk out)
  let ?hi = "min (lo + chunk - 1) to_block"
  show ?case
  proof (cases "lo \<le> to_block")
    case False
    with "1.prems"(3) show ?thesis by (simp add: scan_loop.simps [of query k lo])
  next
    case True
    then have run: "lo \<le> to_block \<and> 1 \<le> chunk" using "1.prems"(2) by simp
    show ?thesis
    proof (cases "query k lo ?hi")
      case (Inr logs)
      have "scan_loop query (k + 1) (?hi + 1) to_block chunk (out @ logs) = Inr res"
        using "1.prems"(3) run Inr by (simp add: scan_loop.simps [of query k lo] Let_def)
      then have "res = (out @ logs) @ range_logs chain (?hi + 1) to_block"
        using "1.IH"(2) [OF run refl Inr "1.prems"(1,2)] by simp
      moreover have "logs = range_logs chain lo ?hi"
        using "1.prems"(1) Inr by (simp add: truthful_def)
      moreover have "range_logs chain lo ?hi @ range_logs chain (?hi + 1) to_block = range_logs chain lo to_block"
        by (rule range_logs_append) (use run in auto)
      ultimately show ?thesis by simp
    next
      case (Inl e)
      then have "\<not> isRateLimit e" "?hi \<noteq> lo"
        "scan_loop query (k + 1) lo to_block (max 1 (chunk div 2)) out = Inr res"
        using "1.prems"(3) run by (auto simp: scan_loop.simps [of query k lo] Let_def split: if_splits)
      then show ?thesis using "1.IH"(1) [OF run refl Inl _ _ "1.prems"(1)] by simp
    qed
  qed
qed

lemma scan_loop_returns:
  assumes "serves_up_to L query" and "1 \<le> L" and "1 \<le> chunk"
  shows "\<exists>res. scan_loop query k lo to_block chunk out = Inr res"
  using assms
proof (induction query k lo to_block chunk out rule: scan_loop.induct)
  case (1 query k lo to_block chunk out)
  let ?hi = "min (lo + chunk - 1) to_block"
  show ?case
  proof (cases "lo \<le> to_block")
    case False
    then show ?thesis by (simp add: scan_loop.simps [of query k lo])
  next
    case True
    then have run: "lo \<le> to_block \<and> 1 \<le> chunk" using "1.prems"(3) by simp
    show ?thesis
    proof (cases "query k lo ?hi")
      case (Inr logs)
      then show ?thesis
        using "1.IH"(2) [OF run refl Inr "1.prems"] run
        by (simp add: scan_loop.simps [of query k lo] Let_def)
    next
      case (Inl e)
      then have e: "\<not> isRateLimit e" using "1.prems"(1) by (auto simp: serves_up_to_def)
      have wide: "?hi \<noteq> lo"
      proof
        assume "?hi = lo"
        then have "\<exists>logs. query k lo ?hi = Inr logs"
          using "1.prems"(1,2) by (simp add: serves_up_to_def)
        with Inl show False by simp
      qed
      have "\<exists>res. scan_loop query (k + 1) lo to_block (max 1 (chunk div 2)) out = Inr res"
        by (rule "1.IH"(1) [OF run refl Inl e wide "1.prems"(1,2)]) simp
      with run Inl e wide show ?thesis by (simp add: scan_loop.simps [of query k lo] Let_def)
    qed
  qed
qed

text \<open>Both scans: all or nothing, and all when the node has a range limit.\<close>

lemma getLogsChunked_whole:
  "truthful chain query \<Longrightarrow> getLogsChunked query lo hi c = Inr res \<Longrightarrow> res = range_logs chain lo hi"
  using scan_loop_whole [of chain query "max 1 c" 0 lo hi "[]" res] by (simp add: getLogsChunked_def)

lemma queryFilterChunked_whole:
  "truthful chain query \<Longrightarrow> queryFilterChunked query lo hi c = Inr res \<Longrightarrow>
     res = range_logs chain (max 0 lo) hi"
  using scan_loop_whole [of chain query "max 1 c" 0 "max 0 lo" hi "[]" res]
  by (simp add: queryFilterChunked_def)

lemma getLogsChunked_complete:
  assumes "truthful chain query" and "serves_up_to L query" and "1 \<le> L"
  shows "getLogsChunked query lo hi c = Inr (range_logs chain lo hi)"
  using scan_loop_returns [OF assms(2,3), of "max 1 c" 0 lo hi "[]"] getLogsChunked_whole [OF assms(1)]
  by (auto simp: getLogsChunked_def)

subsection \<open>The cached block head\<close>

text \<open>
  \<open>getCachedBlockNumber\<close>: a value younger than \<open>HEAD_TTL_MS\<close> is served, a
  request in flight is joined, otherwise one is started.  \<open>head_resolved\<close> and
  \<open>head_rejected\<close> are the two ways the started request settles.
\<close>

definition HEAD_TTL_MS :: int where "HEAD_TTL_MS = 5000"

record head_cache =
  head_value :: int
  head_at :: int
  head_in_flight :: bool

datatype head_answer = Served int | Joined | Started

definition getCachedBlockNumber :: "int \<Rightarrow> head_cache \<Rightarrow> head_answer \<times> head_cache" where
  "getCachedBlockNumber now s =
     (if now - head_at s < HEAD_TTL_MS \<and> head_value s > 0 then (Served (head_value s), s)
      else if head_in_flight s then (Joined, s)
      else (Started, s\<lparr>head_in_flight := True\<rparr>))"

definition head_resolved :: "int \<Rightarrow> int \<Rightarrow> head_cache \<Rightarrow> head_cache" where
  "head_resolved now bn s = s\<lparr>head_value := bn, head_at := now, head_in_flight := False\<rparr>"

definition head_rejected :: "head_cache \<Rightarrow> head_cache" where
  "head_rejected s = s\<lparr>head_in_flight := False\<rparr>"

subsection \<open>The shared vault and tree scan\<close>

text \<open>
  \<open>getVaultTreeLogs\<close>: no scan unless both addresses are configured; a result
  for the same range is shared for \<open>COMBINED_MEMO_MS\<close>, an error included, since
  it is the promise that is kept.  \<open>fetch\<close> is \<open>getLogsChunked\<close> over both
  addresses.
\<close>

definition COMBINED_MEMO_MS :: int where "COMBINED_MEMO_MS = 5000"

type_synonym 'l memo = "((int \<times> int) \<times> int \<times> (rpc_error + 'l list)) option"

definition getVaultTreeLogs :: "bool \<Rightarrow> (int \<Rightarrow> int \<Rightarrow> rpc_error + 'l list) \<Rightarrow> int \<Rightarrow> int \<Rightarrow> int
    \<Rightarrow> 'l memo \<Rightarrow> (rpc_error + 'l list) option \<times> 'l memo" where
  "getVaultTreeLogs configured fetch fromBlock toBlock now m =
     (if \<not> configured then (None, m)
      else case m of
             Some (key, stored, p) \<Rightarrow>
               if key = (fromBlock, toBlock) \<and> now - stored < COMBINED_MEMO_MS then (Some p, m)
               else (let p = fetch fromBlock toBlock in (Some p, Some ((fromBlock, toBlock), now, p)))
           | None \<Rightarrow> (let p = fetch fromBlock toBlock in (Some p, Some ((fromBlock, toBlock), now, p))))"

subsection \<open>Claims\<close>

text \<open>
  A paged scan is exact.  Over a node whose answers are truthful, whatever
  sequence of range errors, rate limits and span halvings happened, a scan that
  returns has the logs of the whole range in order; and over a node that serves
  every range of at most \<open>L\<close> blocks (and is not rate limiting) it does return.
\<close>

lemma log_scan_exact:
  assumes "truthful chain query"
  shows "(\<forall>res. getLogsChunked query lo hi c = Inr res \<longrightarrow> res = range_logs chain lo hi) \<and>
    (serves_up_to L query \<and> 1 \<le> L \<longrightarrow> getLogsChunked query lo hi c = Inr (range_logs chain lo hi)) \<and>
    (\<forall>res. queryFilterChunked query lo hi c = Inr res \<longrightarrow> res = range_logs chain (max 0 lo) hi)"
  using getLogsChunked_whole [OF assms] getLogsChunked_complete [OF assms] queryFilterChunked_whole [OF assms]
  by blast

definition limited_node :: "nat \<Rightarrow> int \<Rightarrow> int \<Rightarrow> rpc_error + int list" where
  "limited_node k lo hi =
     (if hi - lo + 1 \<le> 3 then Inr (range_logs (\<lambda>b. [b * b]) lo hi)
      else Inl \<lparr>err_code = Some (NumCode (-32600)), err_inner_code = None, err_inner_message = None,
                err_short_message = None, err_message = Some ''range''\<rparr>)"

lemma limited_node_truthful: "truthful (\<lambda>b. [b * b]) limited_node"
  by (auto simp: truthful_def limited_node_def split: if_splits)

lemma limited_node_serves: "serves_up_to 3 limited_node"
proof -
  have "\<not> isRateLimit e" if "limited_node k lo hi = Inl e" for k lo hi e
  proof -
    from that have e: "err_code e = Some (NumCode (-32600)) \<and> err_inner_code e = None \<and>
        err_inner_message e = None \<and> err_short_message e = None \<and> err_message e = Some ''range''"
      by (auto simp: limited_node_def split: if_splits)
    have "lower ''range'' = ''range''" by code_simp
    with e show ?thesis by (simp add: isRateLimit_def orelse_def)
  qed
  then show ?thesis by (simp add: serves_up_to_def) (simp add: limited_node_def)
qed

lemma log_scan_exact_witness:
  "getLogsChunked limited_node 5 11 9500 = Inr [25, 36, 49, 64, 81, 100, 121]"
proof -
  have "range_logs (\<lambda>b. [b * b]) 5 11 = [25, 36, 49, 64, 81, 100, 121]"
    by (simp add: range_logs_def)
  moreover have "serves_up_to 3 limited_node \<and> (1 :: int) \<le> 3" using limited_node_serves by simp
  ultimately show ?thesis
    using log_scan_exact [OF limited_node_truthful, of 5 11 9500 3] by metis
qed

text \<open>
  The retrying provider is bounded and honest: it sleeps at most 8 times and
  at most 41 seconds in all, it retries after rate limits only, and what it
  returns or throws is the outcome of the last request it sent.
\<close>

lemma rpc_retries_bounded:
  "\<exists>k \<le> 8. fst (rpc_send calls) = calls k \<and> length (snd (rpc_send calls)) = k \<and>
     sum_list (snd (rpc_send calls)) \<le> 41000 \<and>
     (\<forall>j < k. \<exists>e. calls j = Inl e \<and> isRateLimit e) \<and>
     (\<forall>e. calls k = Inl e \<longrightarrow> isRateLimit e \<longrightarrow> k = 8)"
proof -
  obtain k where k: "k \<le> 8" "fst (send_from calls 0) = calls k" "length (snd (send_from calls 0)) = k - 0"
    "\<forall>j. 0 \<le> j \<longrightarrow> j < k \<longrightarrow> (\<exists>e. calls j = Inl e \<and> isRateLimit e)"
    "k < 8 \<longrightarrow> (\<forall>e. calls k = Inl e \<longrightarrow> \<not> isRateLimit e)"
    using send_from_result [OF le0, of calls] by blast
  have "\<forall>e. calls k = Inl e \<longrightarrow> isRateLimit e \<longrightarrow> k = 8"
    using k(1,5) by (metis le_neq_implies_less)
  moreover have "sum_list (snd (rpc_send calls)) \<le> 41000" using rpc_send_bounded by blast
  moreover have "\<forall>j < k. \<exists>e. calls j = Inl e \<and> isRateLimit e" using k(4) by blast
  ultimately show ?thesis
    using k(1-3) unfolding rpc_send_def diff_zero by blast
qed

definition limited_calls :: "nat \<Rightarrow> rpc_error + int" where
  "limited_calls k =
     (if k < 2 then Inl \<lparr>err_code = Some (NumCode 429), err_inner_code = None, err_inner_message = None,
                         err_short_message = None, err_message = None\<rparr>
      else Inr 7)"

lemma rpc_retries_bounded_witness:
  "\<exists>k \<le> 8. fst (rpc_send limited_calls) = limited_calls k \<and>
     length (snd (rpc_send limited_calls)) = k \<and> sum_list (snd (rpc_send limited_calls)) \<le> 41000"
  using rpc_retries_bounded [of limited_calls] by blast

end
