(* ===== verification/Merkle_Direct.thy ===== *)
theory Merkle_Direct
  imports Merkle_Sync Log_Scan
begin

section \<open>Merkle paths computed from the event log\<close>

text \<open>
  \<open>computeMerkleProof\<close> of \<open>proof-relay/src/merkle.ts\<close>, the fallback the API uses
  when the cache cannot serve: fetch every \<open>LeafInserted\<close> event, rebuild the
  tree layer by layer and read the siblings off.  An index the log misses leaves
  a hole in the \<open>leaves\<close> array; hashing a hole throws.
\<close>

text \<open>\<open>leaves[i] = v\<close> on a JavaScript array, which grows with holes.\<close>

definition array_set :: "nat \<Rightarrow> 'a \<Rightarrow> 'a option list \<Rightarrow> 'a option list" where
  "array_set i v xs =
     (if i < length xs then xs[i := Some v]
      else xs @ replicate (i - length xs) None @ [Some v])"

definition collect_leaves :: "(int \<times> nat \<times> nat) list \<Rightarrow> nat option list" where
  "collect_leaves evs = foldl (\<lambda>leaves (i, leaf, r). array_set (nat i) leaf leaves) [] evs"

fun find_index :: "'a \<Rightarrow> 'a option list \<Rightarrow> nat option" where
  "find_index x [] = None"
| "find_index x (y # ys) = (if y = Some x then Some 0 else map_option Suc (find_index x ys))"

text \<open>One layer up; a missing right neighbour is the zero hash of the level.\<close>

fun next_layer :: "hash2 \<Rightarrow> nat \<Rightarrow> nat list \<Rightarrow> nat list" where
  "next_layer h z [] = []"
| "next_layer h z [l] = [h l z]"
| "next_layer h z (l # r # rest) = h l r # next_layer h z rest"

definition direct_level :: "hash2 \<Rightarrow> string list \<times> int list \<times> nat list \<times> nat \<Rightarrow> nat
    \<Rightarrow> string list \<times> int list \<times> nat list \<times> nat" where
  "direct_level h = (\<lambda>(path, bits, layer, idx) level.
     let siblingIdx = (if idx mod 2 = 0 then idx + 1 else idx - 1);
         sibling = (if siblingIdx < length layer then layer ! siblingIdx else ZEROS h level);
         nextLayer = (if layer = [] then [h (ZEROS h level) (ZEROS h level)]
                      else next_layer h (ZEROS h level) layer)
     in (path @ [toHex sibling], bits @ [int (idx mod 2)], nextLayer, idx div 2))"

text \<open>The proof from the collected leaves: null, a thrown \<open>TypeError\<close>, or a proof.\<close>

definition proof_from_leaves :: "hash2 \<Rightarrow> nat option list \<Rightarrow> nat \<Rightarrow> string + merkle_proof option" where
  "proof_from_leaves h leaves target =
     (case find_index target leaves of
        None \<Rightarrow> Inr None
      | Some targetIdx \<Rightarrow>
          if None \<in> set leaves then Inl ''TypeError''
          else let (path, bits, layer, idx) =
                     foldl (direct_level h) ([], [], map the leaves, targetIdx) [0..<TREE_DEPTH];
                   r = (case layer of [] \<Rightarrow> ZEROS h TREE_DEPTH | x # _ \<Rightarrow> x)
               in Inr (Some \<lparr>proof_path = path, path_indices = bits, proof_root = toHex r,
                         leaf_index = int targetIdx\<rparr>))"

text \<open>
  The whole function.  \<open>latest\<close> is the block number the node returns,
  \<open>fromBlock\<close> the caller's option (0 when absent), \<open>query\<close> the node's
  \<open>eth_getLogs\<close> with the events decoded.
\<close>

definition computeMerkleProof :: "hash2 \<Rightarrow> string \<Rightarrow> string + int \<Rightarrow> int option \<Rightarrow> int
    \<Rightarrow> (nat \<Rightarrow> int \<Rightarrow> int \<Rightarrow> rpc_error + (int \<times> nat \<times> nat) option list) \<Rightarrow> string + merkle_proof option" where
  "computeMerkleProof h commitment latest fromOpt chunkSize query =
     (case latest of
        Inl e \<Rightarrow> Inl e
      | Inr n \<Rightarrow>
          let fromBlock = max 0 (min (case fromOpt of None \<Rightarrow> 0 | Some b \<Rightarrow> b) n) in
          case getLogsChunked query fromBlock n chunkSize of
            Inl e \<Rightarrow> Inl ''RpcError''
          | Inr logs \<Rightarrow>
              let leaves = collect_leaves (List.map_filter id logs) in
              case BigInt commitment of
                None \<Rightarrow> Inl ''SyntaxError''
              | Some target \<Rightarrow> proof_from_leaves h leaves target)"

subsection \<open>The layers are the levels of the tree\<close>

definition layer_inv :: "hash2 \<Rightarrow> nat list \<Rightarrow> nat \<Rightarrow> nat list \<Rightarrow> bool" where
  "layer_inv h xs l layer \<longleftrightarrow> layer \<noteq> [] \<and>
     (\<forall>i < length layer. layer ! i = spec_node h xs l i) \<and>
     (\<forall>i \<ge> length layer. spec_node h xs l i = zero_hash h l)"

lemma length_next_layer: "length (next_layer h z xs) = (length xs + 1) div 2"
  by (induction h z xs rule: next_layer.induct) auto

lemma nth_next_layer:
  "i < (length xs + 1) div 2 \<Longrightarrow>
     next_layer h z xs ! i = h (xs ! (2 * i)) (if 2 * i + 1 < length xs then xs ! (2 * i + 1) else z)"
proof (induction h z xs arbitrary: i rule: next_layer.induct)
  case (3 h z l r rest)
  show ?case
  proof (cases i)
    case 0
    then show ?thesis by simp
  next
    case (Suc j)
    with 3 show ?thesis by simp
  qed
qed auto

lemma layer_inv_zero: "xs \<noteq> [] \<Longrightarrow> layer_inv h xs 0 xs"
  by (simp add: layer_inv_def)

lemma layer_inv_Suc:
  assumes "layer_inv h xs l layer" and "l < TREE_DEPTH"
  shows "layer_inv h xs (Suc l) (next_layer h (ZEROS h l) layer)"
proof -
  have z: "ZEROS h l = zero_hash h l" using assms(2) by (simp add: ZEROS_eq)
  have ne: "layer \<noteq> []"
    and inn: "\<And>i. i < length layer \<Longrightarrow> layer ! i = spec_node h xs l i"
    and out: "\<And>i. length layer \<le> i \<Longrightarrow> spec_node h xs l i = zero_hash h l"
    using assms(1) by (auto simp: layer_inv_def)
  show ?thesis unfolding layer_inv_def
  proof (intro conjI allI impI)
    show "next_layer h (ZEROS h l) layer \<noteq> []"
      using ne length_next_layer [of h "ZEROS h l" layer] by (cases layer) auto
  next
    fix i assume i: "i < length (next_layer h (ZEROS h l) layer)"
    then have "next_layer h (ZEROS h l) layer ! i =
        h (layer ! (2 * i)) (if 2 * i + 1 < length layer then layer ! (2 * i + 1) else ZEROS h l)"
      by (simp add: length_next_layer nth_next_layer)
    moreover have "2 * i < length layer" using i by (simp add: length_next_layer)
    ultimately show "next_layer h (ZEROS h l) layer ! i = spec_node h xs (Suc l) i"
      using inn [of "2 * i"] inn [of "2 * i + 1"] out [of "2 * i + 1"] z by auto
  next
    fix i assume "i \<ge> length (next_layer h (ZEROS h l) layer)"
    then have "length layer \<le> 2 * i" by (simp add: length_next_layer)
    then show "spec_node h xs (Suc l) i = zero_hash h (Suc l)"
      using out [of "2 * i"] out [of "2 * i + 1"] by simp
  qed
qed

lemma direct_levels:
  assumes "n < length xs" and "m \<le> TREE_DEPTH"
  shows "\<exists>layer. layer_inv h xs m layer \<and>
    foldl (direct_level h) ([], [], xs, n) [0..<m] =
      (map (\<lambda>l. toHex (spec_sib h xs n l)) [0..<m], map (spec_bit n) [0..<m], layer, n div 2 ^ m)"
  using assms(2)
proof (induction m)
  case 0
  have "xs \<noteq> []" using assms(1) by auto
  then show ?case using layer_inv_zero [of xs h] by simp
next
  case (Suc m)
  then obtain layer where inv: "layer_inv h xs m layer" and fold:
    "foldl (direct_level h) ([], [], xs, n) [0..<m] =
      (map (\<lambda>l. toHex (spec_sib h xs n l)) [0..<m], map (spec_bit n) [0..<m], layer, n div 2 ^ m)"
    by auto
  let ?i = "n div 2 ^ m"
  have sib: "(if sibling ?i < length layer then layer ! sibling ?i else ZEROS h m) = spec_sib h xs n m"
    using inv Suc.prems by (simp add: layer_inv_def spec_sib_def ZEROS_eq)
  have idx: "(if ?i mod 2 = 0 then ?i + 1 else ?i - 1) = sibling ?i"
    by (simp add: sibling_def even_iff_mod_2_eq_zero)
  have "layer_inv h xs (Suc m) (next_layer h (ZEROS h m) layer)"
    by (rule layer_inv_Suc [OF inv]) (use Suc.prems in simp)
  moreover have "layer \<noteq> []" using inv by (simp add: layer_inv_def)
  ultimately show ?case
    unfolding upt_Suc_append [OF le0] foldl_append fold
    by (simp add: direct_level_def idx spec_bit_def Let_def div_pow_Suc del: power_Suc flip: sib)
qed

lemma find_index_Some:
  "find_index x (map Some xs) = Some n \<Longrightarrow> n < length xs \<and> xs ! n = x"
  by (induction xs arbitrary: n) (auto split: if_splits)

lemma find_index_mem: "x \<in> set xs \<Longrightarrow> find_index x (map Some xs) \<noteq> None"
  by (induction xs) auto

lemma proof_from_leaves_spec:
  assumes "find_index x (map Some xs) = Some n"
  shows "proof_from_leaves h (map Some xs) x = Inr (Some (spec_proof h xs n))"
proof -
  have n: "n < length xs" using find_index_Some [OF assms] by simp
  obtain layer where inv: "layer_inv h xs TREE_DEPTH layer" and fold:
    "foldl (direct_level h) ([], [], xs, n) [0..<TREE_DEPTH] =
      (map (\<lambda>l. toHex (spec_sib h xs n l)) [0..<TREE_DEPTH], map (spec_bit n) [0..<TREE_DEPTH],
       layer, n div 2 ^ TREE_DEPTH)"
    using direct_levels [OF n order_refl] by blast
  have "(case layer of [] \<Rightarrow> ZEROS h TREE_DEPTH | x # _ \<Rightarrow> x) = spec_root h xs"
    using inv by (cases layer) (auto simp: layer_inv_def spec_root_def)
  moreover have "None \<notin> set (map Some xs)" and "map the (map Some xs) = xs"
    by (auto simp: comp_def)
  ultimately show ?thesis
    unfolding proof_from_leaves_def using assms fold
    by (simp add: spec_proof_def comp_def image_iff)
qed

text \<open>From an honest log: the collected leaves are the chain's.\<close>

lemma collect_expected:
  "n \<le> length ls \<Longrightarrow> collect_leaves (expected_events h ls 0 n) = map Some (take n ls)"
proof (induction n)
  case 0
  then show ?case by (simp add: collect_leaves_def expected_events_def)
next
  case (Suc n)
  have "expected_events h ls 0 (Suc n) =
      expected_events h ls 0 n @ [(int n, ls ! n, spec_root h (take (Suc n) ls))]"
    by (simp add: expected_events_def)
  with Suc show ?case
    by (simp add: collect_leaves_def array_set_def take_Suc_snoc)
qed

subsection \<open>The interface of a path server\<close>

text \<open>
  Both servers of paths promise the same: what they serve is the specified path
  of a position that holds the leaf, and while they are available every leaf
  they hold is served.
\<close>

locale path_server =
  fixes h :: hash2
    and serve :: "'s \<Rightarrow> string \<Rightarrow> string + merkle_proof option"
    and holds :: "'s \<Rightarrow> nat list \<Rightarrow> bool"
    and avail :: "'s \<Rightarrow> bool"
  assumes served_spec: "holds s xs \<Longrightarrow> serve s c = Inr (Some p) \<Longrightarrow>
      \<exists>x n. BigInt c = Some x \<and> n < length xs \<and> n < 2 ^ TREE_DEPTH \<and> xs ! n = x \<and>
        p = spec_proof h xs n"
    and serves_all: "holds s xs \<Longrightarrow> avail s \<Longrightarrow> BigInt c = Some x \<Longrightarrow> x \<in> set xs \<Longrightarrow>
      \<exists>p. serve s c = Inr (Some p)"
begin

lemma served_verifies:
  assumes "holds s xs" and "serve s c = Inr (Some p)"
  shows "\<exists>x. BigInt c = Some x \<and> x \<in> set xs \<and> verify_proof h x p \<and>
    proof_root p = toHex (spec_root h xs) \<and> xs ! nat (leaf_index p) = x"
proof -
  from served_spec [OF assms] obtain x n where n: "BigInt c = Some x" "n < length xs"
    "n < 2 ^ TREE_DEPTH" "xs ! n = x" "p = spec_proof h xs n" by blast
  then have "verify_proof h x p" using spec_proof_verifies [of n xs h] by simp
  then show ?thesis using n by (auto simp: spec_proof_def)
qed

lemma served_unique:
  assumes "holds s xs" and "serve s c = Inr (Some p)" and "distinct xs"
    and "n < length xs" and "BigInt c = Some (xs ! n)"
  shows "p = spec_proof h xs n"
  using served_spec [OF assms(1,2)] assms(3-5) by (auto simp: nth_eq_iff_index_eq)

end

interpretation cache_server: path_server h "\<lambda>t c. proofFor h c t" "tree_inv h" isReady for h
proof unfold_locales
  fix t xs c p
  assume inv: "tree_inv h t xs" and "proofFor h c t = Inr (Some p)"
  then obtain x n where "BigInt c = Some x" "n < length xs" "xs ! n = x" "p = spec_proof h xs n"
    using proofFor_spec by metis
  moreover have "length xs \<le> 2 ^ TREE_DEPTH"
    using inv by (simp add: tree_inv_def TREE_DEPTH_def)
  ultimately show "\<exists>x n. BigInt c = Some x \<and> n < length xs \<and> n < 2 ^ TREE_DEPTH \<and> xs ! n = x \<and>
      p = spec_proof h xs n" by (auto intro: less_le_trans)
next
  fix t xs c x
  assume "tree_inv h t xs" "isReady t" "BigInt c = Some x" "x \<in> set xs"
  then show "\<exists>p. proofFor h c t = Inr (Some p)"
    by (auto simp: proofFor_def tree_inv_def split: option.splits)
qed

interpretation direct_server: path_server h
  "\<lambda>leaves c. case BigInt c of None \<Rightarrow> Inl ''SyntaxError'' | Some x \<Rightarrow> proof_from_leaves h leaves x"
  "\<lambda>leaves xs. leaves = map Some xs \<and> length xs \<le> 2 ^ TREE_DEPTH" "\<lambda>_. True" for h
proof unfold_locales
  fix leaves xs c p
  assume holds: "leaves = map Some xs \<and> length xs \<le> 2 ^ TREE_DEPTH"
    and s: "(case BigInt c of None \<Rightarrow> Inl ''SyntaxError'' | Some x \<Rightarrow> proof_from_leaves h leaves x)
      = Inr (Some p)"
  then obtain x where x: "BigInt c = Some x" and p: "proof_from_leaves h (map Some xs) x = Inr (Some p)"
    by (auto split: option.splits)
  then obtain n where n: "find_index x (map Some xs) = Some n"
    by (auto simp: proof_from_leaves_def split: option.splits)
  with p have "p = spec_proof h xs n" by (simp add: proof_from_leaves_spec)
  with find_index_Some [OF n] x holds
  show "\<exists>x n. BigInt c = Some x \<and> n < length xs \<and> n < 2 ^ TREE_DEPTH \<and> xs ! n = x \<and>
      p = spec_proof h xs n" by (auto intro: less_le_trans)
next
  fix leaves xs c x
  assume "leaves = map Some xs \<and> length xs \<le> 2 ^ TREE_DEPTH" "BigInt c = Some x" "x \<in> set xs"
  moreover then obtain n where "find_index x (map Some xs) = Some n"
    using find_index_mem by fastforce
  ultimately show "\<exists>p. (case BigInt c of None \<Rightarrow> Inl ''SyntaxError''
      | Some x \<Rightarrow> proof_from_leaves h leaves x) = Inr (Some p)"
    by (simp add: proof_from_leaves_spec)
qed

lemma servers_agree:
  assumes "tree_inv h t xs" and "isReady t" and "distinct xs" and "BigInt c = Some x" and "x \<in> set xs"
  shows "proofFor h c t = proof_from_leaves h (map Some xs) x"
proof -
  obtain n where n: "n < length xs" "xs ! n = x" using assms(5) by (auto simp: in_set_conv_nth)
  obtain p where p: "proofFor h c t = Inr (Some p)"
    using cache_server.serves_all [OF assms(1,2,4,5)] by blast
  then have "p = spec_proof h xs n"
    using cache_server.served_unique [OF assms(1) p assms(3) n(1)] assms(4) n(2) by simp
  moreover obtain m where m: "find_index x (map Some xs) = Some m"
    using find_index_mem [OF assms(5)] by blast
  moreover have "m = n" using find_index_Some [OF m] n assms(3) by (metis nth_eq_iff_index_eq)
  ultimately show ?thesis using p by (simp add: proof_from_leaves_spec)
qed

end
