(* ===== verification/Merkle_Props.thy ===== *)
theory Merkle_Props
  imports Merkle_Direct
begin

section \<open>Properties of the commitment tree mirror\<close>

text \<open>
  The claims about the relay's tree cache, its synchronisation, its database and
  the paths both servers give out, each with a run that meets its hypotheses.
  \<open>demo_hash\<close> and the three-leaf chain below are the concrete instances.
\<close>

definition demo_hash :: hash2 where "demo_hash a b = 2 * a + 3 * b + 1"

definition demo_leaves :: "nat list" where "demo_leaves = [7, 5, 9]"

definition demo_cnt :: "int \<Rightarrow> nat" where
  "demo_cnt b = (if b < 10 then 0 else if b < 20 then 2 else 3)"

definition demo_log :: "int \<times> nat \<times> nat \<Rightarrow> tree_log" where
  "demo_log e = \<lparr>tl_address = ''0xT'', tl_topic0 = ''0x1'', tl_parsed = Some e\<rparr>"

definition demo_env :: tree_env where
  "demo_env = \<lparr>te_tree = ''0xT'', te_topic = ''0x1'', te_head = Inr 30,
     te_combined = (\<lambda>lo hi. Inr None),
     te_scan = (\<lambda>lo hi. Inr (map demo_log
       (expected_events demo_hash demo_leaves (demo_cnt (lo - 1)) (demo_cnt hi))))\<rparr>"

definition demo_db :: mdb where
  "demo_db = \<lparr>merkle_leaves = leaf_rows [7], meta_last_block = Some 9\<rparr>"

lemma parsed_demo_log: "parsed_logs (map demo_log es) = es"
  by (induction es) (auto simp: parsed_logs_def demo_log_def map_filter_simps)

lemma demo_window: "window_logs demo_env lo hi = Inr (map demo_log
    (expected_events demo_hash demo_leaves (demo_cnt (lo - 1)) (demo_cnt hi)))"
  by (simp add: window_logs_def demo_env_def)

lemma demo_cnt_le: "demo_cnt b \<le> 3"
  by (simp add: demo_cnt_def)

lemma demo_chain: "chain_view demo_hash demo_leaves demo_cnt demo_env"
proof -
  have "mono demo_cnt" by (auto simp: mono_def demo_cnt_def)
  then show ?thesis
    using demo_cnt_le [unfolded eval_nat_numeral]
    by (simp add: chain_view_def demo_window parsed_demo_log demo_leaves_def)
qed

lemma demo_bounded: "index_bounded demo_env"
proof -
  have "fst e < 2147483648" if "e \<in> set (expected_events demo_hash demo_leaves a (demo_cnt b))" for e a b
    using that demo_cnt_le [of b] by (auto simp: expected_events_def)
  then show ?thesis by (auto simp: index_bounded_def reported_def demo_window parsed_demo_log)
qed

lemma demo_tree: "tree_inv demo_hash (snd (append_leaf demo_hash 7 (new_mtree 0 None))) [7]"
  using append_leaf_inv [OF tree_inv_new [of demo_hash 0 None], of 7] by simp

text \<open>
  C1: Appending a leaf to the cache updates exactly the nodes of its path: the
  incremental \<open>append\<close>, which rehashes 32 nodes over a sparse map, yields the root
  and the whole node map of the tree specified over the extended leaf list.
\<close>

theorem append_refines_tree:
  assumes "tree_inv h t xs" and "length xs < 2147483648"
  shows "fst (append_leaf h x t) = spec_root h (xs @ [x]) \<and>
    tree_inv h (snd (append_leaf h x t)) (xs @ [x])"
  using append_leaf_root [OF assms] append_leaf_inv [OF assms] by simp

theorem append_refines_tree_witness:
  "fst (append_leaf demo_hash 7 (new_mtree 0 None)) = spec_root demo_hash ([] @ [7])"
  using append_refines_tree [OF tree_inv_new [of demo_hash 0 None], of 7] by simp

text \<open>
  C2: Every path the cache serves verifies: folding its siblings into the
  requested leaf by its index bits gives its root, which is the root of the tree
  over the ingested leaves, and the leaf index it names holds that leaf.
\<close>

theorem served_path_verifies:
  assumes "tree_inv h t xs" and "proofFor h c t = Inr (Some p)"
  shows "\<exists>x. BigInt c = Some x \<and> x \<in> set xs \<and> verify_proof h x p \<and>
    proof_root p = toHex (spec_root h xs) \<and> xs ! nat (leaf_index p) = x"
  by (rule cache_server.served_verifies [OF assms])

theorem served_path_verifies_witness:
  "\<exists>p. proofFor demo_hash (toHex 7)
      ((snd (append_leaf demo_hash 7 (new_mtree 0 None)))\<lparr>ready := True\<rparr>) = Inr (Some p) \<and>
    (\<exists>x. verify_proof demo_hash x p)"
proof -
  let ?t = "(snd (append_leaf demo_hash 7 (new_mtree 0 None)))\<lparr>ready := True\<rparr>"
  have inv: "tree_inv demo_hash ?t [7]"
    using demo_tree tree_inv_frame [of ?t "snd (append_leaf demo_hash 7 (new_mtree 0 None))"] by simp
  have "isReady ?t" by (simp add: isReady_def new_mtree_def)
  then obtain p where p: "proofFor demo_hash (toHex 7) ?t = Inr (Some p)"
    using cache_server.serves_all [OF inv, of "toHex 7" 7] by (auto simp: BigInt_toHex)
  then show ?thesis using served_path_verifies [OF inv p] by blast
qed

text \<open>
  C27: The cache and the fallback agree: for a leaf of the chain, the path read
  off the incremental node map is the path computed by rebuilding the tree
  layer by layer from the event log (leaf commitments being distinct).
\<close>

theorem cache_equals_direct:
  assumes "tree_inv h t xs" and "isReady t" and "distinct xs"
    and "BigInt c = Some x" and "x \<in> set xs"
  shows "proofFor h c t = proof_from_leaves h (map Some xs) x"
  by (rule servers_agree [OF assms])

theorem cache_equals_direct_witness:
  "proofFor demo_hash (toHex 7) ((snd (append_leaf demo_hash 7 (new_mtree 0 None)))\<lparr>ready := True\<rparr>)
     = proof_from_leaves demo_hash [Some 7] 7"
proof -
  let ?t = "(snd (append_leaf demo_hash 7 (new_mtree 0 None)))\<lparr>ready := True\<rparr>"
  have inv: "tree_inv demo_hash ?t [7]"
    using demo_tree tree_inv_frame [of ?t "snd (append_leaf demo_hash 7 (new_mtree 0 None))"] by simp
  have "isReady ?t" by (simp add: isReady_def new_mtree_def)
  then show ?thesis using cache_equals_direct [OF inv, of "toHex 7" 7] by (simp add: BigInt_toHex)
qed

text \<open>
  C19: Whatever the node answers, a cache that is still consistent after a sync
  either was reset or extended its leaves only by leaves the node reported
  together with the root the cache itself computed for them; memory and database
  then hold the same leaves.
\<close>

theorem sync_accepts_only_attested:
  assumes "good h t xs" and "index_bounded env" and "consistent (snd (sync h env t))"
  shows "good h (snd (sync h env t)) [] \<or>
    (\<exists>zs. good h (snd (sync h env t)) (xs @ zs) \<and>
       attested h (reported env) (length xs) (xs @ zs))"
  using sync_safe_sync [OF assms(1,2)] assms(3) by (simp add: sync_safe_def)

theorem sync_accepts_only_attested_witness:
  "\<exists>ys. good demo_hash (snd (sync demo_hash demo_env (new_mtree 0 None))) ys"
proof -
  have g: "good demo_hash (new_mtree 0 None) []" by (rule good_new) simp
  have "\<exists>t'. sync demo_hash demo_env (new_mtree 0 None) = (None, t') \<and> consistent t' \<and>
      good demo_hash t' (take (max 0 (demo_cnt (30 - CONFIRMATIONS))) demo_leaves) \<and>
      last_block t' = 30 - CONFIRMATIONS"
    by (rule sync_complete [where n = 0 and cnt = demo_cnt and ls = demo_leaves])
      (use g demo_chain in \<open>simp_all add: new_mtree_def demo_cnt_def demo_env_def CONFIRMATIONS_def\<close>)
  then have c: "consistent (snd (sync demo_hash demo_env (new_mtree 0 None)))" by auto
  show ?thesis using sync_accepts_only_attested [OF g demo_bounded c] by auto
qed

text \<open>
  Crash tolerance and completeness: starting from the rows a previous process
  persisted, with any cursor it saved (leaves may be ahead of the cursor), a
  catch-up against an honest node ends ready, without error, with the cursor at
  the confirmed head, and holding exactly the leaves inserted up to it.
\<close>

lemma restart_catches_up:
  assumes "merkle_leaves d = leaf_rows (take n ls)" and "n \<le> length ls"
    and "chain_view h ls cnt env" and "te_head env = Inr head"
    and "cnt (max 0 (b - 1)) = 0" and "max 0 (b - 1) \<le> head - CONFIRMATIONS"
    and "\<forall>c. meta_last_block d = Some c \<longrightarrow> cnt c \<le> n \<and> c \<le> head - CONFIRMATIONS"
  shows "\<exists>t'. catchUp h env (new_mtree b (Some d)) = (None, t') \<and> isReady t' \<and>
    good h t' (take (max n (cnt (head - CONFIRMATIONS))) ls) \<and> last_block t' = head - CONFIRMATIONS"
  by (rule catchUp_complete [OF assms])

lemma restart_catches_up_witness:
  "\<exists>t'. catchUp demo_hash demo_env (new_mtree 0 (Some demo_db)) = (None, t') \<and>
     good demo_hash t' [7, 5, 9] \<and> last_block t' = 27"
proof -
  have "\<exists>t'. catchUp demo_hash demo_env (new_mtree 0 (Some demo_db)) = (None, t') \<and> isReady t' \<and>
      good demo_hash t' (take (max 1 (demo_cnt (30 - CONFIRMATIONS))) demo_leaves) \<and>
      last_block t' = 30 - CONFIRMATIONS"
    by (rule restart_catches_up [where n = 1, OF _ _ demo_chain])
      (simp_all add: demo_db_def demo_cnt_def demo_env_def CONFIRMATIONS_def demo_leaves_def)
  then show ?thesis by (auto simp: demo_cnt_def CONFIRMATIONS_def demo_leaves_def)
qed

text \<open>
  Persisting and loading round-trip: from the database of a synchronised cache
  a new process rebuilds the same tree, node for node.
\<close>

lemma persisted_leaves_roundtrip:
  assumes "good h t xs" and "mtree_db t = Some d" and "l \<le> TREE_DEPTH"
  shows "\<exists>t'. loadFromDb h (new_mtree b (Some d)) = (Loaded, t') \<and>
    next_index t' = next_index t \<and> getNode h t' l (int i) = getNode h t l (int i)"
proof -
  have len: "length xs \<le> 2147483648" and rows: "merkle_leaves d = leaf_rows xs"
    using assms(1,2) by (auto simp: good_def tree_inv_def db_inv_def)
  obtain t' where t': "loadFromDb h (new_mtree b (Some d)) = (Loaded, t')" "good h t' xs"
    using loadFromDb_good [OF rows len] by blast
  note inv = good_treeD [OF assms(1)] good_treeD [OF t'(2)]
  show ?thesis
    using t'(1) tree_inv_nextD [OF inv(1)] tree_inv_nextD [OF inv(2)]
      tree_inv_nodeD [OF inv(1) assms(3)] tree_inv_nodeD [OF inv(2) assms(3)] by auto
qed

lemma persisted_leaves_roundtrip_witness:
  "\<exists>t'. loadFromDb demo_hash (new_mtree 5 (Some \<lparr>merkle_leaves = [], meta_last_block = None\<rparr>)) = (Loaded, t') \<and>
     getNode demo_hash t' 32 (int 0) =
       getNode demo_hash (new_mtree 0 (Some \<lparr>merkle_leaves = [], meta_last_block = None\<rparr>)) 32 (int 0)"
proof -
  let ?d = "\<lparr>merkle_leaves = [], meta_last_block = None\<rparr>"
  have g: "good demo_hash (new_mtree 0 (Some ?d)) []" by (rule good_new) simp
  have "mtree_db (new_mtree 0 (Some ?d)) = Some ?d" by (simp add: new_mtree_def)
  then show ?thesis
    using persisted_leaves_roundtrip [OF g, of ?d 32 5 0] by (auto simp: TREE_DEPTH_def)
qed

end
