(* ===== verification/Attestation.thy ===== *)
theory Attestation
  imports Prelude
begin

section \<open>Operator attestations\<close>

text \<open>
  \<open>signing-layer/src/attestationStore.ts\<close> and \<open>terminalAttestation.ts\<close>: the
  table of signed outcome reports, the single-write rule for bet outcomes, and
  the mapping of an order's fill to the report that is signed.  Amounts are
  kept as the integers whose decimal strings the table stores.  The EIP-712
  signature comes from the wallet package: \<open>sign\<close> is a parameter that may throw.
\<close>

datatype ReportType = FILLED | FAILED | PARTIAL | SOLD

fun report_code :: "ReportType \<Rightarrow> int" where
  "report_code FILLED = 1"
| "report_code FAILED = 2"
| "report_code PARTIAL = 3"
| "report_code SOLD = 4"

record att_input =
  in_nullifier :: string
  in_type :: ReportType
  in_amount_a :: int
  in_amount_b :: int

record attestation =
  at_nullifier :: string
  at_type :: ReportType
  at_amount_a :: int
  at_amount_b :: int
  at_signature :: string

type_synonym att_table = "((string \<times> ReportType) \<times> attestation) list"

definition isBetOutcome :: "ReportType \<Rightarrow> bool" where
  "isBetOutcome r \<longleftrightarrow> r \<in> {FILLED, FAILED, PARTIAL}"

definition readTypedRow :: "string \<Rightarrow> ReportType \<Rightarrow> att_table \<Rightarrow> attestation option" where
  "readTypedRow nf r tab = map_of tab (nf, r)"

text \<open>The outcome row of a bet; the first one where the table has several.\<close>

definition readOutcomeRow :: "string \<Rightarrow> att_table \<Rightarrow> attestation option" where
  "readOutcomeRow nf tab =
     map_option snd (List.find (\<lambda>((n, r), row). n = nf \<and> isBetOutcome r) tab)"

definition attestation_of :: "att_input \<Rightarrow> string \<Rightarrow> attestation" where
  "attestation_of i sig =
     \<lparr>at_nullifier = in_nullifier i, at_type = in_type i, at_amount_a = in_amount_a i,
      at_amount_b = in_amount_b i, at_signature = sig\<rparr>"

text \<open>
  \<open>signAndStoreAttestation\<close> awaits the wallet between its check and its insert.
  The two halves are definitions of their own, so that the interleaving with
  another call can be stated; \<open>signAndStoreAttestation\<close> is the uninterrupted run.
\<close>

definition existing_row :: "att_input \<Rightarrow> att_table \<Rightarrow> attestation option" where
  "existing_row i tab =
     (if isBetOutcome (in_type i) then readOutcomeRow (in_nullifier i) tab
      else readTypedRow (in_nullifier i) (in_type i) tab)"

definition store_signed :: "att_input \<Rightarrow> string \<Rightarrow> att_table \<Rightarrow> attestation \<times> att_table" where
  "store_signed i sig tab =
     (let tab' = insert_ignore (in_nullifier i, in_type i) (attestation_of i sig) tab
      in (case readTypedRow (in_nullifier i) (in_type i) tab' of
            Some row \<Rightarrow> row | None \<Rightarrow> attestation_of i sig, tab'))"

definition signAndStoreAttestation :: "(att_input \<Rightarrow> string + string) \<Rightarrow> att_input \<Rightarrow> att_table
    \<Rightarrow> (string + attestation) \<times> att_table" where
  "signAndStoreAttestation sign i tab =
     (case existing_row i tab of
        Some row \<Rightarrow> (Inr row, tab)
      | None \<Rightarrow>
          (case sign i of
             Inl e \<Rightarrow> (Inl e, tab)
           | Inr sig \<Rightarrow> (let (row, tab') = store_signed i sig tab in (Inr row, tab'))))"

definition getAttestation :: "string \<Rightarrow> ReportType option \<Rightarrow> att_table \<Rightarrow> attestation option" where
  "getAttestation nf r tab =
     (case r of Some t \<Rightarrow> readTypedRow nf t tab | None \<Rightarrow> readOutcomeRow nf tab)"

subsection \<open>Terminal classification\<close>

definition DUST :: int where "DUST = 10000"

datatype side = BUY | SELL

record terminal_bet =
  tb_nullifier :: string
  tb_expected_shares :: int
  tb_bet_amount :: int
  tb_side :: side

text \<open>
  The report \<open>attestTerminal\<close> signs for a fill: none for a close that sold
  nothing.
\<close>

definition terminal_input :: "terminal_bet \<Rightarrow> int \<Rightarrow> int \<Rightarrow> att_input option" where
  "terminal_input bet filledShares spentAmount =
     (if tb_side bet = SELL then
        (if filledShares \<le> 0 then None
         else Some \<lparr>in_nullifier = tb_nullifier bet, in_type = SOLD,
                in_amount_a = (if filledShares + DUST \<ge> tb_expected_shares bet
                               then tb_expected_shares bet else filledShares),
                in_amount_b = spentAmount\<rparr>)
      else if filledShares \<le> 0 then
        Some \<lparr>in_nullifier = tb_nullifier bet, in_type = FAILED, in_amount_a = 0, in_amount_b = 0\<rparr>
      else if filledShares + DUST \<ge> tb_expected_shares bet then
        Some \<lparr>in_nullifier = tb_nullifier bet, in_type = FILLED, in_amount_a = 0, in_amount_b = 0\<rparr>
      else
        Some \<lparr>in_nullifier = tb_nullifier bet, in_type = PARTIAL, in_amount_a = filledShares,
              in_amount_b = (if spentAmount \<le> tb_bet_amount bet then spentAmount
                             else tb_bet_amount bet)\<rparr>)"

text \<open>
  \<open>attestTerminal\<close> logs and swallows every error; what remains is the table.
  \<open>domain\<close> says whether the EIP-712 domain was set at startup (the getter
  throws otherwise).
\<close>

definition attestTerminal :: "(att_input \<Rightarrow> string + string) \<Rightarrow> bool \<Rightarrow> terminal_bet \<Rightarrow> int \<Rightarrow> int
    \<Rightarrow> att_table \<Rightarrow> att_table" where
  "attestTerminal sign domain bet filledShares spentAmount tab =
     (case terminal_input bet filledShares spentAmount of
        None \<Rightarrow> tab
      | Some i \<Rightarrow> if domain then snd (signAndStoreAttestation sign i tab) else tab)"

subsection \<open>Market submissions and resting orders\<close>

record market_submission =
  ms_condition :: string
  ms_order_id :: "string option"
  ms_submitted_at :: int

type_synonym submissions = "(string \<times> market_submission) list"

definition markMarketSubmitting :: "string \<Rightarrow> string \<Rightarrow> int \<Rightarrow> submissions \<Rightarrow> submissions" where
  "markMarketSubmitting nf condition now tab =
     insert_ignore nf \<lparr>ms_condition = condition, ms_order_id = None, ms_submitted_at = now\<rparr> tab"

definition setMarketOrderId :: "string \<Rightarrow> string \<Rightarrow> submissions \<Rightarrow> submissions" where
  "setMarketOrderId nf oid tab =
     (if oid = '''' then tab
      else map (\<lambda>(k, m). (k, if k = nf then m\<lparr>ms_order_id := Some oid\<rparr> else m)) tab)"

definition getMarketSubmission :: "string \<Rightarrow> submissions \<Rightarrow> market_submission option" where
  "getMarketSubmission nf tab = map_of tab nf"

definition markResting :: "string \<Rightarrow> int \<Rightarrow> (string \<times> int) list \<Rightarrow> (string \<times> int) list" where
  "markResting nf now tab = insert_ignore nf now tab"

lemma getMarketSubmission_mark [store_simps]:
  "getMarketSubmission k (markMarketSubmitting nf c now tab) =
     (if k = nf \<and> getMarketSubmission nf tab = None
      then Some \<lparr>ms_condition = c, ms_order_id = None, ms_submitted_at = now\<rparr>
      else getMarketSubmission k tab)"
  by (auto simp: getMarketSubmission_def markMarketSubmitting_def map_of_insert_ignore)

lemma getMarketSubmission_set [store_simps]:
  "getMarketSubmission k (setMarketOrderId nf oid tab) =
     (if k = nf \<and> oid \<noteq> '''' then map_option (\<lambda>m. m\<lparr>ms_order_id := Some oid\<rparr>) (getMarketSubmission nf tab)
      else getMarketSubmission k tab)"
proof -
  have "map_of (map (\<lambda>(k, m). (k, if k = nf then m\<lparr>ms_order_id := Some oid\<rparr> else m)) tab) k =
      (if k = nf then map_option (\<lambda>m. m\<lparr>ms_order_id := Some oid\<rparr>) (map_of tab nf) else map_of tab k)"
    by (induction tab) auto
  then show ?thesis by (cases "k = nf") (simp_all add: getMarketSubmission_def setMarketOrderId_def)
qed

subsection \<open>Lemmas on the table\<close>

lemma find_outcome_iff:
  "readOutcomeRow nf tab = None \<longleftrightarrow> (\<forall>r. isBetOutcome r \<longrightarrow> map_of tab (nf, r) = None)"
proof -
  have "readOutcomeRow nf tab = None \<longleftrightarrow> (\<forall>e \<in> set tab. \<not> (fst (fst e) = nf \<and> isBetOutcome (snd (fst e))))"
    unfolding readOutcomeRow_def option.map_disc_iff find_None_iff case_prod_beta by blast
  also have "\<dots> \<longleftrightarrow> (\<forall>r. isBetOutcome r \<longrightarrow> (nf, r) \<notin> fst ` set tab)"
    by force
  finally show ?thesis by (simp add: map_of_eq_None_iff)
qed

lemma readOutcomeRow_Some:
  "readOutcomeRow nf tab = Some row \<Longrightarrow> \<exists>r. isBetOutcome r \<and> ((nf, r), row) \<in> set tab"
  by (auto simp: readOutcomeRow_def find_Some_iff2 find_Some_iff) (metis nth_mem)

lemma store_signed_table [simp]:
  "snd (store_signed i sig tab) = insert_ignore (in_nullifier i, in_type i) (attestation_of i sig) tab"
  by (simp add: store_signed_def Let_def)

lemma readOutcomeRow_insert_fresh:
  assumes "readOutcomeRow nf tab = None" and "isBetOutcome r"
  shows "readOutcomeRow nf (insert_ignore (nf, r) row tab) = Some row"
proof -
  have none: "map_of tab (nf, r) = None" using assms by (simp add: find_outcome_iff)
  have "List.find (\<lambda>((n, r), row). n = nf \<and> isBetOutcome r) tab = None"
    using assms(1) by (simp add: readOutcomeRow_def)
  then have "List.find (\<lambda>((n, r), row). n = nf \<and> isBetOutcome r) (tab @ [((nf, r), row)]) = Some ((nf, r), row)"
    using assms(2) by (induction tab) (auto split: if_splits)
  with none show ?thesis by (simp add: readOutcomeRow_def insert_ignore_def)
qed

lemma stored_row_visible:
  assumes "existing_row i tab = None" and "store_signed i sig tab = (row, tab')"
  shows "existing_row i tab' = Some row"
proof -
  have tab': "tab' = insert_ignore (in_nullifier i, in_type i) (attestation_of i sig) tab"
    using assms(2) store_signed_table by (metis snd_conv)
  have none: "map_of tab (in_nullifier i, in_type i) = None"
    using assms(1) by (auto simp: existing_row_def readTypedRow_def find_outcome_iff split: if_splits)
  then have "row = attestation_of i sig"
    using assms(2) by (simp add: store_signed_def readTypedRow_def map_of_insert_ignore Let_def)
  with assms(1) none show ?thesis
    by (auto simp: existing_row_def tab' readOutcomeRow_insert_fresh readTypedRow_def map_of_insert_ignore
        split: if_splits)
qed

text \<open>The table holds at most one outcome per bet.\<close>

definition outcome_exclusive :: "att_table \<Rightarrow> bool" where
  "outcome_exclusive tab \<longleftrightarrow>
     (\<forall>nf r r'. isBetOutcome r \<longrightarrow> isBetOutcome r' \<longrightarrow> map_of tab (nf, r) \<noteq> None \<longrightarrow>
        map_of tab (nf, r') \<noteq> None \<longrightarrow> r = r')"

lemma insert_outcome_exclusive:
  assumes "outcome_exclusive tab" and "isBetOutcome r \<Longrightarrow> readOutcomeRow nf tab = None"
  shows "outcome_exclusive (insert_ignore (nf, r) row tab)"
proof (cases "isBetOutcome r")
  case True
  then have "\<forall>r'. isBetOutcome r' \<longrightarrow> map_of tab (nf, r') = None"
    using assms(2) by (simp add: find_outcome_iff)
  with assms(1) show ?thesis
    unfolding outcome_exclusive_def by (auto simp: map_of_insert_ignore)
next
  case False
  with assms(1) show ?thesis
    unfolding outcome_exclusive_def by (auto simp: map_of_insert_ignore)
qed

lemma signAndStore_exclusive:
  assumes "outcome_exclusive tab"
  shows "outcome_exclusive (snd (signAndStoreAttestation sign i tab))"
proof (cases "existing_row i tab")
  case None
  then have "isBetOutcome (in_type i) \<Longrightarrow> readOutcomeRow (in_nullifier i) tab = None"
    by (simp add: existing_row_def)
  with assms None show ?thesis
    by (auto simp: signAndStoreAttestation_def case_prod_beta intro: insert_outcome_exclusive
        split: sum.splits)
qed (use assms in \<open>simp add: signAndStoreAttestation_def\<close>)

lemma signAndStore_keeps:
  "map_of tab k = Some row \<Longrightarrow> map_of (snd (signAndStoreAttestation sign i tab)) k = Some row"
  by (auto simp: signAndStoreAttestation_def case_prod_beta map_of_insert_ignore
      split: option.splits sum.splits)

lemma attestTerminal_exclusive:
  "outcome_exclusive tab \<Longrightarrow> outcome_exclusive (attestTerminal sign domain bet f s tab)"
  by (auto simp: attestTerminal_def signAndStore_exclusive split: option.splits)

lemma attestTerminal_keeps:
  "map_of tab k = Some row \<Longrightarrow> map_of (attestTerminal sign domain bet f s tab) k = Some row"
  by (auto simp: attestTerminal_def signAndStore_keeps split: option.splits)

subsection \<open>Interleaved signers\<close>

text \<open>
  Several calls of \<open>signAndStoreAttestation\<close> in one process: each checks the
  table, waits for its signature, and inserts later.  A state is the table with
  the calls between check and insert.
\<close>

record att_sys =
  att_rows :: att_table
  att_pending :: "att_input list"

inductive att_step :: "(att_input \<Rightarrow> string + string) \<Rightarrow> att_sys \<Rightarrow> att_sys \<Rightarrow> bool"
  for sign :: "att_input \<Rightarrow> string + string" where
  begin_sign: "existing_row i (att_rows s) = None \<Longrightarrow>
     att_step sign s (s\<lparr>att_pending := att_pending s @ [i]\<rparr>)"
| commit: "i \<in> set (att_pending s) \<Longrightarrow> sign i = Inr sig \<Longrightarrow>
     att_step sign s (s\<lparr>att_rows := snd (store_signed i sig (att_rows s)),
                        att_pending := remove1 i (att_pending s)\<rparr>)"
| sign_failed: "i \<in> set (att_pending s) \<Longrightarrow> sign i = Inl e \<Longrightarrow>
     att_step sign s (s\<lparr>att_pending := remove1 i (att_pending s)\<rparr>)"

inductive_cases att_stepE: "att_step sign s s'"

inductive att_reach :: "(att_input \<Rightarrow> string + string) \<Rightarrow> att_sys \<Rightarrow> bool"
  for sign :: "att_input \<Rightarrow> string + string" where
  att_init: "att_reach sign \<lparr>att_rows = [], att_pending = []\<rparr>"
| att_next: "att_reach sign s \<Longrightarrow> att_step sign s s' \<Longrightarrow> att_reach sign s'"

text \<open>A stored report is never overwritten, however calls interleave.\<close>

lemma att_step_keeps:
  "att_step sign s s' \<Longrightarrow> map_of (att_rows s) k = Some row \<Longrightarrow> map_of (att_rows s') k = Some row"
  by (erule att_stepE) (auto simp: map_of_insert_ignore)

text \<open>
  With at most one outcome call per bet in flight, the outcomes stay exclusive:
  no bet has a pending outcome call and a stored outcome, nor two pending ones.
\<close>

definition outcomes_of :: "string \<Rightarrow> att_input list \<Rightarrow> att_input list" where
  "outcomes_of nf is = filter (\<lambda>i. in_nullifier i = nf \<and> isBetOutcome (in_type i)) is"

definition serialized :: "att_sys \<Rightarrow> bool" where
  "serialized s \<longleftrightarrow> (\<forall>nf. length (outcomes_of nf (att_pending s)) \<le> 1)"

definition att_inv :: "att_sys \<Rightarrow> bool" where
  "att_inv s \<longleftrightarrow> outcome_exclusive (att_rows s) \<and>
     (\<forall>i \<in> set (att_pending s). isBetOutcome (in_type i) \<longrightarrow>
        readOutcomeRow (in_nullifier i) (att_rows s) = None)"

lemma outcomes_of_remove1:
  assumes "length (outcomes_of nf ps) \<le> 1" and "i \<in> set ps" and "in_nullifier i = nf"
    and "isBetOutcome (in_type i)"
  shows "outcomes_of nf (remove1 i ps) = []"
proof -
  have "outcomes_of nf (remove1 i ps) = remove1 i (outcomes_of nf ps)"
    by (simp add: outcomes_of_def filter_remove1)
  moreover have "i \<in> set (outcomes_of nf ps)" using assms by (simp add: outcomes_of_def)
  ultimately show ?thesis using assms(1) by (cases "outcomes_of nf ps") auto
qed

lemma att_step_inv:
  assumes "att_step sign s s'" and "att_inv s" and "serialized s"
  shows "att_inv s'"
  using assms(1)
proof (cases rule: att_step.cases)
  case (begin_sign i)
  then show ?thesis using assms(2) by (auto simp: att_inv_def existing_row_def)
next
  case (commit i sig)
  have "outcome_exclusive (att_rows s')"
    using commit assms(2) by (auto simp: att_inv_def intro!: insert_outcome_exclusive)
  moreover have "readOutcomeRow (in_nullifier j) (att_rows s') = None"
    if j: "j \<in> set (remove1 i (att_pending s))" "isBetOutcome (in_type j)" for j
  proof -
    have "in_nullifier j \<noteq> in_nullifier i \<or> \<not> isBetOutcome (in_type i)"
    proof (rule ccontr)
      assume "\<not> ?thesis"
      then have "outcomes_of (in_nullifier j) (remove1 i (att_pending s)) = []"
        using assms(3) commit(2) by (intro outcomes_of_remove1) (auto simp: serialized_def)
      with j show False by (auto simp: outcomes_of_def filter_empty_conv)
    qed
    moreover have "readOutcomeRow (in_nullifier j) (att_rows s) = None"
      using j assms(2) notin_set_remove1 by (fastforce simp: att_inv_def)
    ultimately show ?thesis
      unfolding commit(1) find_outcome_iff by (auto simp: map_of_insert_ignore)
  qed
  ultimately show ?thesis using commit(1) by (simp add: att_inv_def)
next
  case (sign_failed i e)
  then show ?thesis using assms(2) notin_set_remove1 by (fastforce simp: att_inv_def)
qed

subsection \<open>Claims\<close>

text \<open>
  The single-write rule, for calls that run one after another: storing a
  report keeps at most one outcome per bet, never changes a stored row, and what
  is returned is what the table holds for the bet (its first outcome, or the row
  of this type for a close).
\<close>

lemma single_write:
  assumes "outcome_exclusive tab" and "signAndStoreAttestation sign i tab = (res, tab')"
  shows "outcome_exclusive tab' \<and> (\<forall>k row. map_of tab k = Some row \<longrightarrow> map_of tab' k = Some row) \<and>
    (\<forall>row. res = Inr row \<longrightarrow> existing_row i tab' = Some row)"
proof -
  have tab': "tab' = snd (signAndStoreAttestation sign i tab)" using assms(2) by simp
  have "existing_row i tab' = Some row" if res: "res = Inr row" for row
  proof (cases "existing_row i tab")
    case (Some r)
    then show ?thesis using assms(2) that by (simp add: signAndStoreAttestation_def)
  next
    case None
    with assms(2) obtain sig where sig: "sign i = Inr sig" "store_signed i sig tab = (row, tab')"
      unfolding res signAndStoreAttestation_def
      by (auto split: sum.splits prod.splits)
    then show ?thesis using stored_row_visible [OF None] by simp
  qed
  then show ?thesis
    unfolding tab' using signAndStore_exclusive [OF assms(1)] signAndStore_keeps by blast
qed

definition demo_filled :: att_input where
  "demo_filled = \<lparr>in_nullifier = ''n'', in_type = FILLED, in_amount_a = 0, in_amount_b = 0\<rparr>"

definition demo_failed :: att_input where
  "demo_failed = \<lparr>in_nullifier = ''n'', in_type = FAILED, in_amount_a = 0, in_amount_b = 0\<rparr>"

lemma single_write_witness:
  "existing_row demo_failed (snd (signAndStoreAttestation (\<lambda>i. Inr ''s'') demo_failed
      (snd (signAndStoreAttestation (\<lambda>i. Inr ''s'') demo_filled [])))) = Some (attestation_of demo_filled ''s'')"
proof -
  let ?t1 = "snd (signAndStoreAttestation (\<lambda>i. Inr ''s'') demo_filled [])"
  have ex: "outcome_exclusive []" by (simp add: outcome_exclusive_def)
  have 1: "outcome_exclusive ?t1"
    using single_write [OF ex, of "\<lambda>i. Inr ''s''" demo_filled] by (metis prod.collapse)
  have 2: "signAndStoreAttestation (\<lambda>i. Inr ''s'') demo_failed ?t1 = (Inr (attestation_of demo_filled ''s''), ?t1)"
    by (simp add: signAndStoreAttestation_def existing_row_def readOutcomeRow_def store_signed_def
        insert_ignore_def isBetOutcome_def demo_filled_def demo_failed_def readTypedRow_def)
  show ?thesis using single_write [OF 1 2] 2 by simp
qed

text \<open>
  The single-write rule does not survive interleaving: two calls for one bet
  with different outcomes can both pass the check while the other waits for its
  signature, and then both rows are stored, although the comment promises exactly
  one outcome per bet.
\<close>

lemma interleaved_signers_both_stored:
  "\<exists>s. att_reach (\<lambda>i. Inr ''s'') s \<and> map_of (att_rows s) (''n'', FILLED) \<noteq> None \<and>
     map_of (att_rows s) (''n'', FAILED) \<noteq> None"
proof -
  let ?sign = "\<lambda>i :: att_input. (Inr ''s'' :: string + string)"
  let ?s0 = "\<lparr>att_rows = [], att_pending = []\<rparr>"
  let ?s1 = "?s0\<lparr>att_pending := [demo_filled]\<rparr>"
  let ?s2 = "?s0\<lparr>att_pending := [demo_filled, demo_failed]\<rparr>"
  have none: "existing_row i [] = None" for i by (simp add: existing_row_def readOutcomeRow_def readTypedRow_def)
  have "att_step ?sign ?s0 ?s1" using att_step.begin_sign [of demo_filled ?s0 ?sign] none by simp
  then have "att_reach ?sign ?s1" by (rule att_next [OF att_init])
  moreover have "att_step ?sign ?s1 ?s2" using att_step.begin_sign [of demo_failed ?s1 ?sign] none by simp
  ultimately have "att_reach ?sign ?s2" by (rule att_next)
  then have "att_reach ?sign (?s2\<lparr>att_rows := snd (store_signed demo_filled ''s'' []),
      att_pending := remove1 demo_filled [demo_filled, demo_failed]\<rparr>)" (is "att_reach _ ?s3")
    using att_step.commit [of demo_filled ?s2 ?sign "''s''"] by (auto intro: att_next)
  then have "att_reach ?sign (?s3\<lparr>att_rows := snd (store_signed demo_failed ''s'' (att_rows ?s3)),
      att_pending := remove1 demo_failed (att_pending ?s3)\<rparr>)" (is "att_reach _ ?s4")
    using att_step.commit [of demo_failed ?s3 ?sign "''s''"]
    by (auto simp: demo_filled_def demo_failed_def intro: att_next)
  moreover have "map_of (att_rows ?s4) (''n'', FILLED) \<noteq> None" "map_of (att_rows ?s4) (''n'', FAILED) \<noteq> None"
    by (simp_all add: map_of_insert_ignore demo_filled_def demo_failed_def)
  ultimately show ?thesis by blast
qed

text \<open>
  Serialising the calls per bet is enough: along any run in which at most one
  outcome call per bet is between its check and its insert, every reached table
  has at most one outcome per bet.
\<close>

lemma serialized_signers_exclusive:
  assumes "(\<lambda>s s'. serialized s \<and> att_step sign s s')\<^sup>*\<^sup>* \<lparr>att_rows = [], att_pending = []\<rparr> s"
  shows "outcome_exclusive (att_rows s)"
proof -
  have "att_inv \<lparr>att_rows = [], att_pending = []\<rparr>" by (simp add: att_inv_def outcome_exclusive_def)
  with assms have "att_inv s"
    by (induction rule: rtranclp_induct) (auto intro: att_step_inv)
  then show ?thesis by (simp add: att_inv_def)
qed

lemma serialized_signers_exclusive_witness:
  "outcome_exclusive (att_rows \<lparr>att_rows = snd (store_signed demo_filled ''s'' []), att_pending = []\<rparr>)"
proof (rule serialized_signers_exclusive)
  let ?sign = "\<lambda>i :: att_input. (Inr ''s'' :: string + string)"
  let ?s0 = "\<lparr>att_rows = [], att_pending = []\<rparr>"
  let ?s1 = "?s0\<lparr>att_pending := [demo_filled]\<rparr>"
  have "att_step ?sign ?s0 ?s1"
    using att_step.begin_sign [of demo_filled ?s0 ?sign]
    by (simp add: existing_row_def readOutcomeRow_def readTypedRow_def)
  moreover have "att_step ?sign ?s1 \<lparr>att_rows = snd (store_signed demo_filled ''s'' []), att_pending = []\<rparr>"
    using att_step.commit [of demo_filled ?s1 ?sign "''s''"] by simp
  moreover have "serialized ?s0" "serialized ?s1" by (simp_all add: serialized_def outcomes_of_def)
  ultimately show "(\<lambda>s s'. serialized s \<and> att_step ?sign s s')\<^sup>*\<^sup>* ?s0
      \<lparr>att_rows = snd (store_signed demo_filled ''s'' []), att_pending = []\<rparr>"
    by (blast intro: converse_rtranclp_into_rtranclp)
qed

text \<open>
  C30: The report of a terminal order is sound in its amounts.  A buy always gets
  an outcome, a close gets a SOLD report exactly when shares were sold; reported
  shares never exceed the expected ones nor the fill by more than a hundredth of a share, the dust, a
  PARTIAL report is strictly below the expected shares by more than the dust and
  never charges more than the bet, and FILLED needs the fill up to dust.
\<close>

theorem terminal_report_sound:
  assumes "0 \<le> tb_expected_shares bet"
  shows "(terminal_input bet filled spent = None \<longleftrightarrow> tb_side bet = SELL \<and> filled \<le> 0) \<and>
    (\<forall>i. terminal_input bet filled spent = Some i \<longrightarrow>
       in_nullifier i = tb_nullifier bet \<and>
       (tb_side bet = SELL \<longleftrightarrow> in_type i = SOLD) \<and>
       (in_type i = FAILED \<longleftrightarrow> tb_side bet = BUY \<and> filled \<le> 0) \<and>
       (in_type i = FILLED \<longrightarrow> 0 < filled \<and> tb_expected_shares bet \<le> filled + 10000) \<and>
       in_amount_a i \<le> tb_expected_shares bet \<and> in_amount_a i \<le> max 0 (filled + 10000) \<and>
       (in_type i = PARTIAL \<longrightarrow> in_amount_a i = filled \<and> 0 < filled \<and>
          filled + 10000 < tb_expected_shares bet \<and> in_amount_b i \<le> tb_bet_amount bet \<and>
          in_amount_b i \<le> spent) \<and>
       (in_type i = SOLD \<longrightarrow> in_amount_b i = spent \<and> min filled (tb_expected_shares bet) \<le> in_amount_a i))"
proof (cases "tb_side bet")
  case BUY
  then show ?thesis using assms by (simp add: terminal_input_def DUST_def)
next
  case SELL
  then show ?thesis using assms by (simp add: terminal_input_def DUST_def)
qed

theorem terminal_report_sound_witness:
  "terminal_input \<lparr>tb_nullifier = ''n'', tb_expected_shares = 5000000, tb_bet_amount = 100, tb_side = BUY\<rparr>
     2000000 120 = Some \<lparr>in_nullifier = ''n'', in_type = PARTIAL, in_amount_a = 2000000, in_amount_b = 100\<rparr> \<and>
   (100 :: int) \<le> 120"
proof -
  let ?b = "\<lparr>tb_nullifier = ''n'', tb_expected_shares = 5000000, tb_bet_amount = 100, tb_side = BUY\<rparr>"
  let ?i = "\<lparr>in_nullifier = ''n'', in_type = PARTIAL, in_amount_a = 2000000, in_amount_b = 100\<rparr>"
  have "terminal_input ?b 2000000 120 = Some ?i" by (simp add: terminal_input_def DUST_def)
  then show ?thesis using terminal_report_sound [of ?b 2000000 120] by simp
qed

end
