(* ===== verification/Fill_Tracker.thy ===== *)
theory Fill_Tracker
  imports Attestation Hex
begin

section \<open>Tracking the fills of resting orders\<close>

text \<open>
  \<open>signing-layer/src/wsFillTracker.ts\<close>: the registry of resting limit orders, in
  memory and in the table \<open>tracked_orders\<close>, and the ways an order reaches its
  terminal attestation: a message of the user channel, a reconcile over REST, a
  cancel requested by the user, and the resolution of its market.  The state is
  one record; the attestation store the module writes to is part of it.  What
  the exchange answers is a parameter of each operation.
\<close>

datatype order_type = GTC | GTD

record tracked_order =
  to_nullifier :: string
  to_orderID :: string
  to_conditionId :: string
  to_tokenId :: string
  to_expected_shares :: int
  to_bet_amount :: int
  to_price :: int
  to_orderType :: order_type
  to_expiration :: int
  to_side :: side
  to_sellLimitPrice :: int
  to_takerFeeUsd :: int

record tracker =
  by_order_id :: "(string \<times> tracked_order) list"
  finalized :: "string list"
  tracked_rows :: "(string \<times> tracked_order) list"
  attestations :: att_table
  has_wallet :: bool

definition alreadyAttested :: "side \<Rightarrow> string \<Rightarrow> att_table \<Rightarrow> bool" where
  "alreadyAttested sd nf tab =
     (if sd = SELL then getAttestation nf (Some SOLD) tab \<noteq> None
      else getAttestation nf None tab \<noteq> None)"

subsection \<open>Persistence\<close>

definition persist :: "tracked_order \<Rightarrow> tracker \<Rightarrow> tracker" where
  "persist ord t = t\<lparr>tracked_rows := AList.update (to_nullifier ord) ord (tracked_rows t)\<rparr>"

definition unpersist :: "string \<Rightarrow> tracker \<Rightarrow> tracker" where
  "unpersist nf t = t\<lparr>tracked_rows := AList.delete nf (tracked_rows t)\<rparr>"

definition loadPersisted :: "tracker \<Rightarrow> tracked_order list" where
  "loadPersisted t = map snd (tracked_rows t)"

definition sameMarket :: "string \<Rightarrow> string \<Rightarrow> bool" where
  "sameMarket a b =
     (case (BigInt a, BigInt b) of
        (Some x, Some y) \<Rightarrow> x mod BN254_P = y mod BN254_P
      | _ \<Rightarrow> False)"

subsection \<open>The registry\<close>

definition getTrackedOrder :: "string \<Rightarrow> tracker \<Rightarrow> tracked_order option" where
  "getTrackedOrder nf t =
     (if nf \<in> set (finalized t) then None
      else List.find (\<lambda>ord. to_nullifier ord = nf) (map snd (by_order_id t)))"

definition isOrderTracked :: "string \<Rightarrow> tracker \<Rightarrow> bool" where
  "isOrderTracked nf t \<longleftrightarrow>
     nf \<notin> set (finalized t) \<and> (\<exists>ord \<in> set (map snd (by_order_id t)). to_nullifier ord = nf)"

text \<open>
  The state \<open>trackOrder\<close> leaves before its asynchronous tail (re-subscribing and
  one reconcile); the flag says whether the tail runs.
\<close>

definition trackOrder :: "tracked_order \<Rightarrow> tracker \<Rightarrow> bool \<times> tracker" where
  "trackOrder ord t =
     (if to_nullifier ord \<in> set (finalized t)
         \<or> alreadyAttested (to_side ord) (to_nullifier ord) (attestations t) then (False, t)
      else (let t1 = persist ord t
            in (True, t1\<lparr>by_order_id := AList.update (to_orderID ord) ord (by_order_id t1)\<rparr>)))"

text \<open>The boot loop of \<open>startFillTracker\<close>: resume what has no attestation yet.\<close>

definition boot_order :: "tracker \<Rightarrow> tracked_order \<Rightarrow> tracker" where
  "boot_order t ord =
     (if alreadyAttested (to_side ord) (to_nullifier ord) (attestations t)
      then (let t1 = unpersist (to_nullifier ord) t
            in t1\<lparr>finalized := set_add (to_nullifier ord) (finalized t1)\<rparr>)
      else t\<lparr>by_order_id := AList.update (to_orderID ord) ord (by_order_id t)\<rparr>)"

definition startFillTracker :: "tracker \<Rightarrow> tracker" where
  "startFillTracker t = foldl boot_order (t\<lparr>has_wallet := True\<rparr>) (loadPersisted t)"

subsection \<open>Finalisation\<close>

definition fee_adjusted :: "tracked_order \<Rightarrow> int \<Rightarrow> int" where
  "fee_adjusted ord spent =
     (if to_takerFeeUsd ord > 0 then
        (if to_side ord = SELL
         then (if spent > to_takerFeeUsd ord then spent - to_takerFeeUsd ord else 0)
         else spent + to_takerFeeUsd ord)
      else spent)"

definition bet_of :: "tracked_order \<Rightarrow> terminal_bet" where
  "bet_of ord = \<lparr>tb_nullifier = to_nullifier ord, tb_expected_shares = to_expected_shares ord,
     tb_bet_amount = to_bet_amount ord, tb_side = to_side ord\<rparr>"

text \<open>
  \<open>finalize\<close>.  \<open>sign\<close> and \<open>domain\<close> are those of \<open>attestTerminal\<close>, which
  swallows every error; the order is dropped whether or not a report was stored.
\<close>

definition finalize :: "(att_input \<Rightarrow> string + string) \<Rightarrow> bool \<Rightarrow> tracked_order \<Rightarrow> int \<Rightarrow> int
    \<Rightarrow> tracker \<Rightarrow> tracker" where
  "finalize sign domain ord filled spent t =
     (if to_nullifier ord \<in> set (finalized t) then t
      else if \<not> has_wallet t then t
      else (let t1 = t\<lparr>finalized := set_add (to_nullifier ord) (finalized t)\<rparr>;
                t2 = t1\<lparr>attestations :=
                  attestTerminal sign domain (bet_of ord) filled (fee_adjusted ord spent) (attestations t1)\<rparr>;
                t3 = t2\<lparr>by_order_id := AList.delete (to_orderID ord) (by_order_id t2)\<rparr>
            in unpersist (to_nullifier ord) t3))"

text \<open>A resolved market: every order still tracked for it is finalised with no fill.\<close>

definition cancelOrdersForMarket :: "(att_input \<Rightarrow> string + string) \<Rightarrow> bool \<Rightarrow> string \<Rightarrow> tracker \<Rightarrow> tracker" where
  "cancelOrdersForMarket sign domain conditionId t =
     foldl (\<lambda>s ord. if to_nullifier ord \<in> set (finalized s) then s
                  else if \<not> sameMarket (to_conditionId ord) conditionId then s
                  else finalize sign domain ord 0 0 s)
       t (map snd (by_order_id t))"

subsection \<open>User-channel messages\<close>

record user_msg =
  m_event_type :: "string option"
  m_type :: "string option"
  m_status :: "string option"
  m_asset_id :: "string option"
  m_id :: "string option"
  m_order_id :: "string option"
  m_orderID :: "string option"
  m_size_matched :: "rat option"
  m_filledShares :: "rat option"
  m_spentAmount :: "rat option"

definition isOrderMessage :: "user_msg \<Rightarrow> bool" where
  "isOrderMessage m =
     (let et = lower (case m_event_type m of None \<Rightarrow> '''' | Some s \<Rightarrow> s);
          ty = lower (case m_type m of None \<Rightarrow> '''' | Some s \<Rightarrow> s)
      in if et = ''order'' then True
         else if ty = ''order'' \<or> ty = ''placement'' \<or> ty = ''update'' \<or> ty = ''cancellation'' then True
         else m_filledShares m \<noteq> None \<or> m_spentAmount m \<noteq> None)"

datatype terminal = Matched | PartialFill | Cancelled

definition classifyTerminal :: "string \<Rightarrow> int \<Rightarrow> terminal option" where
  "classifyTerminal status filled =
     (let s = lower status
      in if s = ''matched'' \<or> s = ''filled'' then Some Matched
         else if s = ''partial'' then Some PartialFill
         else if s = ''cancelled'' \<or> s = ''canceled'' \<or> s = ''expired''
              then Some (if filled > 0 then PartialFill else Cancelled)
         else None)"

definition findTracked :: "user_msg \<Rightarrow> tracker \<Rightarrow> tracked_order option" where
  "findTracked m t =
     (let oid = orelse (m_orderID m) (orelse (m_order_id m) (m_id m));
          by_id = (case oid of None \<Rightarrow> None
                   | Some k \<Rightarrow> if k \<noteq> '''' then map_of (by_order_id t) k else None)
      in case by_id of
           Some ord \<Rightarrow> Some ord
         | None \<Rightarrow>
             (case m_asset_id m of
                None \<Rightarrow> None
              | Some a \<Rightarrow> if a \<noteq> ''''
                  then List.find (\<lambda>ord. to_tokenId ord = a) (map snd (by_order_id t)) else None))"

definition extractFill :: "user_msg \<Rightarrow> tracked_order \<Rightarrow> int \<times> int" where
  "extractFill m ord =
     (case (m_filledShares m, m_spentAmount m) of
        (Some f, Some s) \<Rightarrow> (\<lfloor>f\<rfloor>, \<lfloor>s\<rfloor>)
      | _ \<Rightarrow>
          (case m_size_matched m of
             Some shares \<Rightarrow>
               let filled = \<lfloor>shares * 1000000\<rfloor>;
                   spent = (if to_side ord = SELL
                            then big_div (filled * to_sellLimitPrice ord) 1000000
                            else big_div (filled * to_price ord) 100000000)
               in (filled, spent)
           | None \<Rightarrow> (0, 0)))"

definition handleOne :: "(att_input \<Rightarrow> string + string) \<Rightarrow> bool \<Rightarrow> user_msg \<Rightarrow> tracker \<Rightarrow> tracker" where
  "handleOne sign domain m t =
     (if \<not> isOrderMessage m then t
      else case findTracked m t of
             None \<Rightarrow> t
           | Some ord \<Rightarrow>
               if to_nullifier ord \<in> set (finalized t) then t
               else (let (filled, spent) = extractFill m ord
                     in case classifyTerminal (case m_status m of None \<Rightarrow> '''' | Some s \<Rightarrow> s) filled of
                          None \<Rightarrow> t
                        | Some _ \<Rightarrow> finalize sign domain ord filled spent t))"

text \<open>\<open>handleMessage\<close> after JSON parsing: one object or an array of them.\<close>

definition handleMessage :: "(att_input \<Rightarrow> string + string) \<Rightarrow> bool \<Rightarrow> user_msg list \<Rightarrow> tracker \<Rightarrow> tracker" where
  "handleMessage sign domain ms t = foldl (\<lambda>s m. handleOne sign domain m s) t ms"

subsection \<open>REST: cancel and reconcile\<close>

text \<open>
  What the exchange answers.  A quantity that is not a finite number is \<open>None\<close>;
  an absent one is 0, as \<open>Number(x ?? 0)\<close> makes it.
\<close>

record maker_order =
  mo_order_id :: string
  mo_matched :: "rat option"
  mo_price :: "rat option"

record clob_order =
  co_status :: string
  co_size_matched :: rat
  co_original_size :: rat
  co_price :: rat

record mock_state =
  mk_status :: "string option"
  mk_filledShares :: "rat option"
  mk_spentAmount :: "rat option"

record clob_client =
  cc_get_order :: "clob_order option"
  cc_trades :: "maker_order list option"

datatype clob_side = MockClob "mock_state option" | ProdClob "clob_client option"

definition confirmFillViaTrades :: "tracked_order \<Rightarrow> maker_order list option \<Rightarrow> (int \<times> int) option" where
  "confirmFillViaTrades ord trades =
     (case trades of
        None \<Rightarrow> None
      | Some mos \<Rightarrow>
          let mine = filter (\<lambda>mo. lower (mo_order_id mo) = lower (to_orderID ord)) mos;
              hits = List.map_filter (\<lambda>mo. case mo_matched mo of
                        Some amt \<Rightarrow> if amt > 0 then Some (amt, case mo_price mo of None \<Rightarrow> 0 | Some p \<Rightarrow> p)
                                    else None
                      | None \<Rightarrow> None) mine;
              shares = sum_list (map fst hits);
              spent = sum_list (map (\<lambda>(amt, p). amt * p) hits)
          in Some (math_round (shares * 1000000), math_round (spent * 1000000)))"

definition live_status :: "string \<Rightarrow> bool" where
  "live_status st \<longleftrightarrow> st = ''LIVE'' \<or> st = ''DELAYED'' \<or> st = ''OPEN''"

text \<open>The fill an order state reports, at its price or a fallback.\<close>

definition order_fill :: "clob_order \<Rightarrow> rat \<Rightarrow> int \<times> int" where
  "order_fill od fallback =
     (let priceFrac = truthy_or (co_price od) fallback
      in (math_round (co_size_matched od * 1000000),
          math_round (co_size_matched od * priceFrac * 1000000)))"

definition reconcileOne :: "(att_input \<Rightarrow> string + string) \<Rightarrow> bool \<Rightarrow> clob_side \<Rightarrow> tracked_order
    \<Rightarrow> tracker \<Rightarrow> tracker" where
  "reconcileOne sign domain clob ord t =
     (if to_nullifier ord \<in> set (finalized t) then t
      else case clob of
        ProdClob client \<Rightarrow>
          if \<not> has_wallet t then t
          else (case client of
            None \<Rightarrow> t
          | Some cc \<Rightarrow>
              (let od = cc_get_order cc;
                   st = upper (case od of None \<Rightarrow> '''' | Some x \<Rightarrow> co_status x)
               in case od of
                    Some x \<Rightarrow>
                      if st \<noteq> '''' \<and> \<not> live_status st then
                        (let (filled, spent) = order_fill x (of_int (to_price ord) / 100000000)
                         in finalize sign domain ord filled spent t)
                      else if live_status st then t
                      else (case confirmFillViaTrades ord (cc_trades cc) of
                              Some (filled, spent) \<Rightarrow>
                                if filled > 0 then finalize sign domain ord filled spent t else t
                            | None \<Rightarrow> t)
                  | None \<Rightarrow>
                      (case confirmFillViaTrades ord (cc_trades cc) of
                         Some (filled, spent) \<Rightarrow>
                           if filled > 0 then finalize sign domain ord filled spent t else t
                       | None \<Rightarrow> t)))
      | MockClob res \<Rightarrow>
          (case res of
             None \<Rightarrow> t
           | Some state \<Rightarrow>
               (case mk_status state of
                  None \<Rightarrow> t
                | Some status \<Rightarrow>
                    if status = '''' \<or> status = ''live'' then t
                    else let filled = \<lfloor>case mk_filledShares state of None \<Rightarrow> 0 | Some f \<Rightarrow> f\<rfloor>;
                             spent = \<lfloor>case mk_spentAmount state of None \<Rightarrow> 0 | Some f \<Rightarrow> f\<rfloor>
                         in case classifyTerminal status filled of
                              Some _ \<Rightarrow> finalize sign domain ord filled spent t
                            | None \<Rightarrow> t)))"

definition reconcileAll :: "(att_input \<Rightarrow> string + string) \<Rightarrow> bool \<Rightarrow> (tracked_order \<Rightarrow> clob_side)
    \<Rightarrow> tracker \<Rightarrow> tracker" where
  "reconcileAll sign domain clob t =
     foldl (\<lambda>s ord. reconcileOne sign domain (clob ord) ord s) t (map snd (by_order_id t))"

datatype cancel_answer = Finalized | CancelRequested

text \<open>
  The fill a cancel finalises with: from the order state once it is terminal,
  else from the trade history; none where neither answers.
\<close>

definition cancel_fill :: "clob_client option \<Rightarrow> tracked_order \<Rightarrow> (int \<times> int) option" where
  "cancel_fill client ord =
     (case client of
        None \<Rightarrow> None
      | Some cc \<Rightarrow>
          if to_orderID ord = '''' then None
          else (case cc_get_order cc of
                  Some x \<Rightarrow>
                    (let st = upper (co_status x)
                     in if st \<noteq> '''' \<and> \<not> live_status st
                        then Some (order_fill x (if to_side ord = SELL
                               then of_int (to_sellLimitPrice ord) / 1000000
                               else of_int (to_price ord) / 100000000))
                        else confirmFillViaTrades ord (cc_trades cc))
                | None \<Rightarrow> confirmFillViaTrades ord (cc_trades cc)))"

text \<open>
  \<open>cancelTrackedOrder\<close>: \<open>client\<close> is the exchange client the caller passes (its
  \<open>cancelOrder\<close> may fail, which is only logged), \<open>clob\<close> what the closing
  reconcile sees.
\<close>

definition cancelTrackedOrder :: "(att_input \<Rightarrow> string + string) \<Rightarrow> bool \<Rightarrow> string \<Rightarrow> clob_client option
    \<Rightarrow> clob_side \<Rightarrow> tracker \<Rightarrow> cancel_answer \<times> tracker" where
  "cancelTrackedOrder sign domain nf client clob t =
     (if nf \<in> set (finalized t) then (Finalized, t)
      else case getTrackedOrder nf t of
        None \<Rightarrow> (Finalized, t)
      | Some ord \<Rightarrow>
          if alreadyAttested (to_side ord) nf (attestations t) then (Finalized, t)
          else (case cancel_fill client ord of
                  Some (filled, spent) \<Rightarrow> (Finalized, finalize sign domain ord filled spent t)
                | None \<Rightarrow>
                    let t1 = reconcileOne sign domain clob ord t
                    in (if nf \<in> set (finalized t1) \<or> alreadyAttested (to_side ord) nf (attestations t1)
                        then Finalized else CancelRequested, t1)))"

subsection \<open>The websocket\<close>

text \<open>
  The connection's control state: a socket (by number) and whether it is open,
  the flags of \<open>connect\<close>, and the reconnect timer.  A constructor that throws is
  \<open>ws_connect False\<close>.
\<close>

record ws_state =
  ws_socket :: "nat option"
  ws_open :: bool
  ws_connecting :: bool
  ws_stopped :: bool
  ws_attempts :: nat
  ws_timer :: "nat option"
  ws_next :: nat

definition RECONNECT_DELAYS_MS :: "nat list" where
  "RECONNECT_DELAYS_MS = [1000, 2000, 5000, 10000, 30000]"

definition scheduleReconnect :: "ws_state \<Rightarrow> ws_state" where
  "scheduleReconnect w =
     (if ws_stopped w \<or> ws_timer w \<noteq> None then w
      else w\<lparr>ws_timer := Some (RECONNECT_DELAYS_MS ! min (ws_attempts w) (length RECONNECT_DELAYS_MS - 1)),
             ws_attempts := ws_attempts w + 1\<rparr>)"

definition ws_connect :: "bool \<Rightarrow> ws_state \<Rightarrow> ws_state" where
  "ws_connect constructed w =
     (if ws_stopped w \<or> ws_connecting w \<or> (ws_socket w \<noteq> None \<and> ws_open w) then w
      else if constructed
           then w\<lparr>ws_connecting := True, ws_socket := Some (ws_next w), ws_open := False,
                  ws_next := ws_next w + 1\<rparr>
           else scheduleReconnect (w\<lparr>ws_connecting := False\<rparr>))"

text \<open>The events of socket \<open>k\<close>, and the reconnect timer firing.\<close>

definition ws_on_open :: "nat \<Rightarrow> ws_state \<Rightarrow> ws_state" where
  "ws_on_open k w = w\<lparr>ws_connecting := False, ws_attempts := 0,
     ws_open := (ws_open w \<or> ws_socket w = Some k)\<rparr>"

definition ws_on_close :: "nat \<Rightarrow> ws_state \<Rightarrow> ws_state" where
  "ws_on_close k w =
     (let w1 = w\<lparr>ws_connecting := False\<rparr>;
          w2 = (if ws_socket w1 = Some k then w1\<lparr>ws_socket := None, ws_open := False\<rparr> else w1)
      in if ws_stopped w2 then w2 else scheduleReconnect w2)"

definition ws_timer_fires :: "bool \<Rightarrow> ws_state \<Rightarrow> ws_state" where
  "ws_timer_fires constructed w = ws_connect constructed (w\<lparr>ws_timer := None\<rparr>)"

definition stop_socket :: "ws_state \<Rightarrow> ws_state" where
  "stop_socket w = w\<lparr>ws_stopped := True, ws_timer := None, ws_socket := None, ws_open := False\<rparr>"

end
