(* ===== verification/Fill_Tracker_Props.thy ===== *)
theory Fill_Tracker_Props
  imports Fill_Tracker
begin

section \<open>The fill tracker as a state machine\<close>

text \<open>
  The operations of \<open>Fill_Tracker\<close> as steps of one machine, its invariant, and
  what follows: outcomes stay exclusive, reports are never overwritten, memory
  and table agree so that a restart resumes what was resting.
\<close>

definition tracker_inv :: "tracker \<Rightarrow> bool" where
  "tracker_inv t \<longleftrightarrow>
     distinct (map fst (by_order_id t)) \<and> distinct (map fst (tracked_rows t)) \<and>
     (\<forall>(k, ord) \<in> set (by_order_id t). k = to_orderID ord \<and>
        (to_nullifier ord \<in> set (finalized t) \<or> to_nullifier ord \<in> fst ` set (tracked_rows t))) \<and>
     (\<forall>(nf, ord) \<in> set (tracked_rows t). nf = to_nullifier ord \<and> nf \<notin> set (finalized t)) \<and>
     outcome_exclusive (attestations t)"

lemma tracker_invD:
  assumes "tracker_inv t"
  shows "distinct (map fst (by_order_id t))" "distinct (map fst (tracked_rows t))"
    "outcome_exclusive (attestations t)"
    "(k, ord) \<in> set (by_order_id t) \<Longrightarrow> k = to_orderID ord"
    "(k, ord) \<in> set (by_order_id t) \<Longrightarrow> to_nullifier ord \<notin> set (finalized t) \<Longrightarrow>
       to_nullifier ord \<in> fst ` set (tracked_rows t)"
    "(nf, ord) \<in> set (tracked_rows t) \<Longrightarrow> nf = to_nullifier ord \<and> nf \<notin> set (finalized t)"
  using assms by (auto simp: tracker_inv_def)

lemma in_update: "(k', v') \<in> set (AList.update k v al) \<Longrightarrow> distinct (map fst al) \<Longrightarrow>
   (k', v') = (k, v) \<or> (k' \<noteq> k \<and> (k', v') \<in> set al)"
  by (metis distinct_update fun_upd_other fun_upd_same map_of_SomeD map_of_is_SomeI map_of_update option.inject)

lemma keys_update: "fst ` set (AList.update k v al) = insert k (fst ` set al)"
  by (simp add: dom_update)

lemma keys_delete: "fst ` set (AList.delete k al) = fst ` set al - {k}"
  by (auto simp: AList.delete_eq image_iff)

lemma in_delete: "(k', v') \<in> set (AList.delete k al) \<longleftrightarrow> k' \<noteq> k \<and> (k', v') \<in> set al"
  by (auto simp: AList.delete_eq)

subsection \<open>Each operation keeps the invariant\<close>

lemma finalize_inv:
  assumes inv: "tracker_inv t"
  shows "tracker_inv (finalize sign domain ord f s t)"
proof (cases "to_nullifier ord \<in> set (finalized t) \<or> \<not> has_wallet t")
  case True
  then show ?thesis using inv by (auto simp: finalize_def)
next
  case False
  note D = tracker_invD [OF inv]
  have t': "finalize sign domain ord f s t =
      t\<lparr>finalized := set_add (to_nullifier ord) (finalized t),
        attestations := attestTerminal sign domain (bet_of ord) f (fee_adjusted ord s) (attestations t),
        by_order_id := AList.delete (to_orderID ord) (by_order_id t),
        tracked_rows := AList.delete (to_nullifier ord) (tracked_rows t)\<rparr>"
    using False by (simp add: finalize_def unpersist_def Let_def)
  show ?thesis
    unfolding tracker_inv_def t'
    using D by (auto simp: in_delete keys_delete intro: distinct_keys_delete attestTerminal_exclusive)
qed

lemma trackOrder_inv:
  assumes inv: "tracker_inv t"
  shows "tracker_inv (snd (trackOrder ord t))"
proof (cases "fst (trackOrder ord t)")
  case False
  then show ?thesis using inv by (auto simp: trackOrder_def Let_def split: if_splits)
next
  case True
  note D = tracker_invD [OF inv]
  have new: "to_nullifier ord \<notin> set (finalized t)"
    using True by (auto simp: trackOrder_def split: if_splits)
  have t': "snd (trackOrder ord t) = (persist ord t)
      \<lparr>by_order_id := AList.update (to_orderID ord) ord (by_order_id t)\<rparr>"
    using True by (auto simp: trackOrder_def Let_def persist_def split: if_splits)
  show ?thesis
    unfolding t' tracker_inv_def persist_def
    using D new
    by (auto simp: keys_update distinct_keys_update
        dest!: in_update [OF _ D(1)] in_update [OF _ D(2)])
qed

lemma boot_order_inv:
  assumes inv: "tracker_inv t"
    and row: "to_nullifier ord \<in> fst ` set (tracked_rows t) \<or> to_nullifier ord \<in> set (finalized t)"
  shows "tracker_inv (boot_order t ord)"
proof (cases "alreadyAttested (to_side ord) (to_nullifier ord) (attestations t)")
  case True
  with tracker_invD [OF inv] show ?thesis
    unfolding tracker_inv_def boot_order_def unpersist_def Let_def
    by (auto simp: in_delete keys_delete intro: distinct_keys_delete)
next
  case False
  note D = tracker_invD [OF inv]
  show ?thesis
    unfolding tracker_inv_def boot_order_def Let_def
    using False D row by (auto simp: distinct_keys_update dest!: in_update [OF _ D(1)])
qed

lemma foldl_finalize_inv:
  assumes "tracker_inv t" and "\<And>s x. tracker_inv s \<Longrightarrow> tracker_inv (f s x)"
  shows "tracker_inv (foldl f t xs)"
  using assms(1) by (rule foldl_invariant) (rule assms(2))

lemma cancelOrdersForMarket_inv:
  "tracker_inv t \<Longrightarrow> tracker_inv (cancelOrdersForMarket sign domain c t)"
  unfolding cancelOrdersForMarket_def by (rule foldl_finalize_inv) (auto simp: finalize_inv)

lemma handleOne_inv: "tracker_inv t \<Longrightarrow> tracker_inv (handleOne sign domain m t)"
  by (auto simp: handleOne_def finalize_inv split: option.splits prod.splits)

lemma handleMessage_inv: "tracker_inv t \<Longrightarrow> tracker_inv (handleMessage sign domain ms t)"
  unfolding handleMessage_def by (rule foldl_finalize_inv) (auto simp: handleOne_inv)

lemma reconcileOne_cases:
  "reconcileOne sign domain clob ord t = t \<or>
   (\<exists>f s. reconcileOne sign domain clob ord t = finalize sign domain ord f s t)"
  by (simp add: reconcileOne_def Let_def split: clob_side.split option.split prod.split) blast

lemma cancelTrackedOrder_cases:
  "snd (cancelTrackedOrder sign domain nf client clob t) = t \<or>
   (\<exists>ord f s. snd (cancelTrackedOrder sign domain nf client clob t) = finalize sign domain ord f s t)"
  using reconcileOne_cases
  by (simp add: cancelTrackedOrder_def Let_def split: option.split prod.split) blast

lemma reconcileOne_inv: "tracker_inv t \<Longrightarrow> tracker_inv (reconcileOne sign domain clob ord t)"
  using reconcileOne_cases [of sign domain clob ord t] by (auto simp: finalize_inv)

lemma reconcileAll_inv: "tracker_inv t \<Longrightarrow> tracker_inv (reconcileAll sign domain clob t)"
  unfolding reconcileAll_def by (rule foldl_finalize_inv) (auto simp: reconcileOne_inv)

lemma cancelTrackedOrder_inv:
  "tracker_inv t \<Longrightarrow> tracker_inv (snd (cancelTrackedOrder sign domain nf client clob t))"
  using cancelTrackedOrder_cases [of sign domain nf client clob t] by (auto simp: finalize_inv)

subsection \<open>Restart\<close>

text \<open>A new process: memory is empty, the tables are what they were.\<close>

definition restarted :: "tracker \<Rightarrow> tracker" where
  "restarted t = t\<lparr>by_order_id := [], finalized := [], has_wallet := False\<rparr>"

lemma restarted_inv: "tracker_inv t \<Longrightarrow> tracker_inv (restarted t)"
  by (auto simp: tracker_inv_def restarted_def)

lemma boot_order_frame [simp]:
  "attestations (boot_order t ord) = attestations t"
  "has_wallet (boot_order t ord) = has_wallet t"
  by (simp_all add: boot_order_def unpersist_def Let_def)

lemma boot_loop:
  assumes "tracker_inv t" and "distinct (map to_nullifier ords)"
    and "\<forall>ord \<in> set ords. to_nullifier ord \<in> fst ` set (tracked_rows t)"
  shows "tracker_inv (foldl boot_order t ords)"
  using assms
proof (induction ords arbitrary: t)
  case Nil
  then show ?case by simp
next
  case (Cons ord ords)
  have "tracker_inv (boot_order t ord)" using Cons.prems by (intro boot_order_inv) auto
  moreover have "\<forall>o' \<in> set ords. to_nullifier o' \<in> fst ` set (tracked_rows (boot_order t ord))"
  proof
    fix o' assume o': "o' \<in> set ords"
    have "fst ` set (tracked_rows t) - {to_nullifier ord} \<subseteq> fst ` set (tracked_rows (boot_order t ord))"
      by (simp add: boot_order_def unpersist_def Let_def keys_delete)
    moreover have "to_nullifier o' \<in> fst ` set (tracked_rows t)" using Cons.prems(3) o' by simp
    moreover have "to_nullifier o' \<noteq> to_nullifier ord"
      using Cons.prems(2) o' by (metis distinct.simps(2) imageI list.set_map list.simps(9))
    ultimately show "to_nullifier o' \<in> fst ` set (tracked_rows (boot_order t ord))" by blast
  qed
  ultimately show ?case using Cons.IH Cons.prems(2) by simp
qed

lemma loadPersisted_keys:
  "tracker_inv t \<Longrightarrow> map to_nullifier (loadPersisted t) = map fst (tracked_rows t)"
  by (auto simp: loadPersisted_def tracker_inv_def)

lemma startFillTracker_inv:
  assumes "tracker_inv t"
  shows "tracker_inv (startFillTracker t)"
  unfolding startFillTracker_def
proof (rule boot_loop)
  show "tracker_inv (t\<lparr>has_wallet := True\<rparr>)" using assms unfolding tracker_inv_def by simp
  show "distinct (map to_nullifier (loadPersisted t))"
    using loadPersisted_keys [OF assms] tracker_invD(2) [OF assms] by simp
  show "\<forall>ord \<in> set (loadPersisted t). to_nullifier ord \<in> fst ` set (tracked_rows (t\<lparr>has_wallet := True\<rparr>))"
    using loadPersisted_keys [OF assms] by (metis (no_types, lifting) list.set_map imageI
        tracker.select_convs(3) tracker.surjective tracker.update_convs(5))
qed

text \<open>Orders without an attestation come back under their own id.\<close>

lemma boot_keeps_order:
  "map_of (by_order_id t) k = Some ord \<Longrightarrow> \<forall>o' \<in> set ords. to_orderID o' \<noteq> k \<Longrightarrow>
     map_of (by_order_id (foldl boot_order t ords)) k = Some ord"
  by (induction ords arbitrary: t) (auto simp: boot_order_def unpersist_def Let_def map_of_update)

lemma boot_resumes:
  assumes "ord \<in> set ords" and "distinct (map to_orderID ords)"
    and "\<not> alreadyAttested (to_side ord) (to_nullifier ord) (attestations t)"
  shows "map_of (by_order_id (foldl boot_order t ords)) (to_orderID ord) = Some ord"
  using assms
proof (induction ords arbitrary: t)
  case (Cons x xs)
  show ?case
  proof (cases "x = ord")
    case True
    have "map_of (by_order_id (boot_order t x)) (to_orderID ord) = Some ord"
      using True Cons.prems(3) by (simp add: boot_order_def map_of_update)
    then show ?thesis using Cons.prems(2) True
      by (auto intro!: boot_keeps_order) (metis image_eqI)
  next
    case False
    then show ?thesis using Cons by simp
  qed
qed simp

lemma boot_mono: "nf \<in> set (finalized t) \<Longrightarrow> nf \<in> set (finalized (foldl boot_order t ords))"
  by (induction ords arbitrary: t) (simp_all add: boot_order_def unpersist_def Let_def)

lemma boot_finalizes:
  assumes "ord \<in> set ords" and "alreadyAttested (to_side ord) (to_nullifier ord) (attestations t)"
  shows "to_nullifier ord \<in> set (finalized (foldl boot_order t ords))"
  using assms
proof (induction ords arbitrary: t)
  case (Cons x xs)
  show ?case
  proof (cases "x = ord")
    case True
    then have "to_nullifier ord \<in> set (finalized (boot_order t x))"
      using Cons.prems(2) by (simp add: boot_order_def unpersist_def Let_def)
    then show ?thesis by (simp add: boot_mono)
  next
    case False
    with Cons show ?thesis by simp
  qed
qed simp

subsection \<open>The machine\<close>

inductive tracker_step :: "(att_input \<Rightarrow> string + string) \<Rightarrow> bool \<Rightarrow> tracker \<Rightarrow> tracker \<Rightarrow> bool"
  for sign domain where
  ts_track: "tracker_step sign domain t (snd (trackOrder ord t))"
| ts_message: "tracker_step sign domain t (handleMessage sign domain ms t)"
| ts_reconcile: "tracker_step sign domain t (reconcileAll sign domain clob t)"
| ts_reconcile_one: "tracker_step sign domain t (reconcileOne sign domain cl ord t)"
| ts_cancel: "tracker_step sign domain t (snd (cancelTrackedOrder sign domain nf client cl t))"
| ts_resolved: "tracker_step sign domain t (cancelOrdersForMarket sign domain c t)"
| ts_restart: "tracker_step sign domain t (startFillTracker (restarted t))"

inductive tracker_reach :: "(att_input \<Rightarrow> string + string) \<Rightarrow> bool \<Rightarrow> tracker \<Rightarrow> bool"
  for sign domain where
  tr_init: "tracker_reach sign domain
     \<lparr>by_order_id = [], finalized = [], tracked_rows = [], attestations = [], has_wallet = True\<rparr>"
| tr_next: "tracker_reach sign domain t \<Longrightarrow> tracker_step sign domain t t' \<Longrightarrow> tracker_reach sign domain t'"

lemma tracker_step_inv: "tracker_step sign domain t t' \<Longrightarrow> tracker_inv t \<Longrightarrow> tracker_inv t'"
  by (induction rule: tracker_step.induct)
    (simp_all add: trackOrder_inv handleMessage_inv reconcileAll_inv reconcileOne_inv
      cancelTrackedOrder_inv cancelOrdersForMarket_inv startFillTracker_inv restarted_inv)

lemma tracker_inv_init:
  "tracker_inv \<lparr>by_order_id = [], finalized = [], tracked_rows = [], attestations = [], has_wallet = True\<rparr>"
  by (simp add: tracker_inv_def outcome_exclusive_def)

lemma tracker_reach_inv: "tracker_reach sign domain t \<Longrightarrow> tracker_inv t"
  by (induction rule: tracker_reach.induct) (simp_all add: tracker_inv_init tracker_step_inv)

subsection \<open>Reports are final\<close>

lemma finalize_keeps:
  "map_of (attestations t) k = Some row \<Longrightarrow>
     map_of (attestations (finalize sign domain ord f s t)) k = Some row"
  by (simp add: finalize_def unpersist_def Let_def attestTerminal_keeps)

lemma foldl_keeps:
  assumes "map_of (attestations t) k = Some row"
    and "\<And>s x. map_of (attestations s) k = Some row \<Longrightarrow> map_of (attestations (f s x)) k = Some row"
  shows "map_of (attestations (foldl f t xs)) k = Some row"
  using assms(1) by (rule foldl_invariant [where P = "\<lambda>s. map_of (attestations s) k = Some row"])
    (rule assms(2))

lemma reconcileOne_keeps:
  "map_of (attestations t) k = Some row \<Longrightarrow>
     map_of (attestations (reconcileOne sign domain clob ord t)) k = Some row"
  using reconcileOne_cases [of sign domain clob ord t] by (auto simp: finalize_keeps)

lemma handleOne_keeps:
  "map_of (attestations t) k = Some row \<Longrightarrow>
     map_of (attestations (handleOne sign domain m t)) k = Some row"
  by (auto simp: handleOne_def finalize_keeps split: option.splits prod.splits)

lemma startFillTracker_attestations [simp]: "attestations (startFillTracker t) = attestations t"
proof -
  have "attestations (foldl boot_order s ords) = attestations s" for s ords
    by (induction ords arbitrary: s) simp_all
  then show ?thesis by (simp add: startFillTracker_def)
qed

lemma tracker_step_keeps:
  "tracker_step sign domain t t' \<Longrightarrow> map_of (attestations t) k = Some row \<Longrightarrow>
     map_of (attestations t') k = Some row"
proof (induction rule: tracker_step.induct)
  case (ts_track t ord)
  then show ?case by (simp add: trackOrder_def persist_def Let_def)
next
  case (ts_message t ms)
  then show ?case unfolding handleMessage_def by (rule foldl_keeps) (rule handleOne_keeps)
next
  case (ts_reconcile t clob)
  then show ?case unfolding reconcileAll_def by (rule foldl_keeps) (rule reconcileOne_keeps)
next
  case (ts_cancel t nf client cl)
  then show ?case
    using cancelTrackedOrder_cases [of sign domain nf client cl t] by (auto simp: finalize_keeps)
next
  case (ts_resolved t c)
  then show ?case unfolding cancelOrdersForMarket_def
    by (rule foldl_keeps) (simp add: finalize_keeps)
qed (simp_all add: reconcileOne_keeps restarted_def)

subsection \<open>Claims\<close>

text \<open>
  C17: In every state the tracker can reach, by tracking, messages, reconciles,
  cancels, resolved markets and restarts in any order: a bet has at most one
  outcome report, an order in memory that is not finalised has its row in the
  table, and no finalised order has one.
\<close>

theorem tracker_reachable_consistent:
  assumes "tracker_reach sign domain t"
  shows "outcome_exclusive (attestations t) \<and>
    (\<forall>nf. isOrderTracked nf t \<longrightarrow> nf \<in> fst ` set (tracked_rows t)) \<and>
    (\<forall>nf \<in> fst ` set (tracked_rows t). nf \<notin> set (finalized t)) \<and>
    (\<forall>ord. trackOrder ord t = (False, t) \<or> isOrderTracked (to_nullifier ord) (snd (trackOrder ord t)))"
proof -
  note inv = tracker_reach_inv [OF assms]
  note D = tracker_invD [OF inv]
  have "trackOrder ord t = (False, t) \<or> isOrderTracked (to_nullifier ord) (snd (trackOrder ord t))" for ord
    by (auto simp: trackOrder_def isOrderTracked_def persist_def Let_def update_conv' dest!: map_of_is_SomeI
        intro!: bexI [of _ "(to_orderID ord, ord)"] map_of_SomeD)
  moreover have "nf \<in> fst ` set (tracked_rows t)" if "isOrderTracked nf t" for nf
    using that D(5) by (auto simp: isOrderTracked_def)
  ultimately show ?thesis using D(3,6) by auto
qed

definition demo_order :: tracked_order where
  "demo_order = \<lparr>to_nullifier = ''n'', to_orderID = ''o1'', to_conditionId = ''0x1'', to_tokenId = ''t'',
     to_expected_shares = 5000000, to_bet_amount = 2000000, to_price = 40000000, to_orderType = GTC,
     to_expiration = 0, to_side = BUY, to_sellLimitPrice = 0, to_takerFeeUsd = 0\<rparr>"

definition demo_tracker :: tracker where
  "demo_tracker = snd (trackOrder demo_order
     \<lparr>by_order_id = [], finalized = [], tracked_rows = [], attestations = [], has_wallet = True\<rparr>)"

lemma demo_tracker_fields [simp]:
  "by_order_id demo_tracker = [(''o1'', demo_order)]" "finalized demo_tracker = []"
  "tracked_rows demo_tracker = [(''n'', demo_order)]" "attestations demo_tracker = []"
  "has_wallet demo_tracker"
  by (simp_all add: demo_tracker_def demo_order_def trackOrder_def persist_def alreadyAttested_def
      getAttestation_def readOutcomeRow_def Let_def)

lemma demo_tracker_reach: "tracker_reach sign domain demo_tracker"
  unfolding demo_tracker_def by (rule tr_next [OF tr_init ts_track])

theorem tracker_reachable_consistent_witness: "''n'' \<in> fst ` set (tracked_rows demo_tracker)"
proof -
  have "isOrderTracked ''n'' demo_tracker" by (simp add: isOrderTracked_def demo_order_def)
  then show ?thesis
    using tracker_reachable_consistent [OF demo_tracker_reach [of "\<lambda>i. Inr ''s''" True]] by blast
qed

text \<open>
  Reports are final: once a report is stored, every later state of the tracker,
  restarts included, holds the same row.
\<close>

lemma tracker_reports_final:
  assumes "(tracker_step sign domain)\<^sup>*\<^sup>* t t'" and "map_of (attestations t) k = Some row"
  shows "map_of (attestations t') k = Some row"
  using assms by (induction rule: rtranclp_induct) (auto intro: tracker_step_keeps)

lemma tracker_reports_final_witness:
  "map_of (attestations (startFillTracker (restarted (finalize (\<lambda>i. Inr ''s'') True demo_order 5000000 9 demo_tracker))))
     (''n'', FILLED) = Some (attestation_of demo_filled ''s'')"
proof (rule tracker_reports_final)
  let ?t = "finalize (\<lambda>i. Inr ''s'') True demo_order 5000000 9 demo_tracker"
  show "(tracker_step (\<lambda>i. Inr ''s'') True)\<^sup>*\<^sup>* ?t (startFillTracker (restarted ?t))"
    by (rule r_into_rtranclp [of "tracker_step _ _", OF ts_restart])
  show "map_of (attestations ?t) (''n'', FILLED) = Some (attestation_of demo_filled ''s'')"
    by (simp add: finalize_def unpersist_def Let_def attestTerminal_def terminal_input_def bet_of_def
        demo_order_def demo_filled_def signAndStoreAttestation_def existing_row_def isBetOutcome_def
        readOutcomeRow_def map_of_insert_ignore DUST_def case_prod_beta)
qed

text \<open>
  A restart resumes what was resting: every order persisted by the previous
  process whose bet has no report yet is tracked again under its exchange id,
  and an order whose report exists is finalised and its row removed.
\<close>

lemma restart_resumes_resting:
  assumes "tracker_inv t" and "distinct (map to_orderID (loadPersisted t))" and "ord \<in> set (loadPersisted t)"
  shows "if alreadyAttested (to_side ord) (to_nullifier ord) (attestations t)
    then to_nullifier ord \<in> set (finalized (startFillTracker (restarted t))) \<and>
      to_nullifier ord \<notin> fst ` set (tracked_rows (startFillTracker (restarted t)))
    else map_of (by_order_id (startFillTracker (restarted t))) (to_orderID ord) = Some ord"
proof -
  have load: "loadPersisted (restarted t) = loadPersisted t"
    "attestations (restarted t\<lparr>has_wallet := True\<rparr>) = attestations t"
    by (simp_all add: loadPersisted_def restarted_def)
  show ?thesis
  proof (cases "alreadyAttested (to_side ord) (to_nullifier ord) (attestations t)")
    case False
    then have "map_of (by_order_id (startFillTracker (restarted t))) (to_orderID ord) = Some ord"
      unfolding startFillTracker_def load using assms(2,3) load(2) by (intro boot_resumes) simp_all
    with False show ?thesis by simp
  next
    case True
    then have "to_nullifier ord \<in> set (finalized (startFillTracker (restarted t)))"
      unfolding startFillTracker_def load using assms(3) load(2) by (intro boot_finalizes) simp_all
    with True tracker_invD(6) [OF startFillTracker_inv [OF restarted_inv [OF assms(1)]]]
    show ?thesis by auto
  qed
qed

lemma restart_resumes_resting_witness:
  "map_of (by_order_id (startFillTracker (restarted demo_tracker))) ''o1'' = Some demo_order"
  using restart_resumes_resting [OF tracker_reach_inv [OF demo_tracker_reach], of demo_order]
  by (simp add: loadPersisted_def demo_order_def alreadyAttested_def getAttestation_def readOutcomeRow_def)

text \<open>
  An order is finalised once: whichever path gets there first decides.
  Afterwards a second finalisation of the bet with any other fill, a reconcile, a
  cancel and a new registration of the order all change nothing.
\<close>

lemma finalize_once:
  assumes "has_wallet t" and "to_nullifier ord' = to_nullifier ord"
  shows "let u = finalize sign domain ord f s t in
    finalize sign domain ord' f' s' u = u \<and> reconcileOne sign domain clob ord' u = u \<and>
    cancelTrackedOrder sign domain (to_nullifier ord) client clob u = (Finalized, u) \<and>
    trackOrder ord' u = (False, u) \<and> \<not> isOrderTracked (to_nullifier ord) u"
proof -
  have "to_nullifier ord \<in> set (finalized (finalize sign domain ord f s t))"
    using assms(1) by (simp add: finalize_def unpersist_def Let_def)
  then show ?thesis
    using assms(2) by (simp add: Let_def finalize_def [of _ _ ord'] reconcileOne_def cancelTrackedOrder_def
        trackOrder_def isOrderTracked_def)
qed

lemma finalize_once_witness:
  "finalize (\<lambda>i. Inr ''s'') True demo_order 0 0 (finalize (\<lambda>i. Inr ''s'') True demo_order 5000000 9 demo_tracker)
     = finalize (\<lambda>i. Inr ''s'') True demo_order 5000000 9 demo_tracker"
proof -
  have "has_wallet demo_tracker" by simp
  from finalize_once [OF this refl, of "\<lambda>i. Inr ''s''" True demo_order 5000000 9]
  show ?thesis by (simp add: Let_def)
qed

definition inert :: "tracker \<Rightarrow> user_msg \<Rightarrow> bool" where
  "inert t m \<longleftrightarrow> \<not> isOrderMessage m \<or> findTracked m t = None \<or>
     (\<exists>st. m_status m = Some st \<and> lower st \<notin> {''matched'', ''filled'', ''partial'', ''cancelled'', ''canceled'', ''expired''})"

text \<open>
  Messages act only on what they name.  A batch of messages leaves the tracker
  unchanged if each of them is no order message, matches no tracked order, or
  carries a status that is not terminal; in particular every live status is
  ignored, whatever fill it reports.
\<close>

lemma inert_messages_ignored:
  assumes "\<forall>m \<in> set ms. inert t m"
  shows "handleMessage sign domain ms t = t"
proof -
  have "handleOne sign domain m t = t" if "inert t m" for m
    using that by (auto simp: inert_def handleOne_def classifyTerminal_def Let_def split: option.splits)
  with assms show ?thesis unfolding handleMessage_def by (induction ms) simp_all
qed

definition demo_msg :: "string \<Rightarrow> user_msg" where
  "demo_msg st = \<lparr>m_event_type = Some ''order'', m_type = None, m_status = Some st, m_asset_id = None,
     m_id = Some ''o1'', m_order_id = None, m_orderID = None, m_size_matched = Some 2,
     m_filledShares = None, m_spentAmount = None\<rparr>"

lemma inert_messages_ignored_witness:
  "handleMessage (\<lambda>i. Inr ''s'') True [demo_msg ''LIVE''] demo_tracker = demo_tracker"
proof (rule inert_messages_ignored)
  have "lower ''LIVE'' = ''live''" by code_simp
  then show "\<forall>m \<in> set [demo_msg ''LIVE'']. inert demo_tracker m" by (simp add: inert_def demo_msg_def)
qed

text \<open>
  A cancel can report a live order as failed.  If the exchange still answers
  that the order is live (the cancel request itself failed, which is only
  logged) and its trade history shows no match, a buy is finalised as FAILED and
  dropped, although the comment says a live order is never marked reclaimable.
\<close>

lemma cancel_attests_live_order_failed:
  assumes "getTrackedOrder nf t = Some ord" and "nf \<notin> set (finalized t)" and "has_wallet t"
    and "to_side ord = BUY" and "to_orderID ord \<noteq> ''''" and "getAttestation nf None (attestations t) = None"
    and "cc_get_order cc = Some x" and "live_status (upper (co_status x))" and "cc_trades cc = Some []"
  shows "fst (cancelTrackedOrder (\<lambda>i. Inr sig) True nf (Some cc) clob t) = Finalized \<and>
    map_option at_type (getAttestation nf None
      (attestations (snd (cancelTrackedOrder (\<lambda>i. Inr sig) True nf (Some cc) clob t)))) = Some FAILED"
proof -
  have nf: "to_nullifier ord = nf"
    using assms(1) by (auto simp: getTrackedOrder_def find_Some_iff split: if_splits)
  have fill: "cancel_fill (Some cc) ord = Some (0, 0)"
    using assms(5,7-9) by (simp add: cancel_fill_def confirmFillViaTrades_def map_filter_def Let_def
        math_round_int [of 0, simplified])
  have none: "readOutcomeRow nf (attestations t) = None"
    using assms(6) by (simp add: getAttestation_def)
  let ?i = "\<lparr>in_nullifier = nf, in_type = FAILED, in_amount_a = 0, in_amount_b = 0\<rparr>"
  have cancel: "cancelTrackedOrder (\<lambda>i. Inr sig) True nf (Some cc) clob t =
      (Finalized, finalize (\<lambda>i. Inr sig) True ord 0 0 t)"
    using assms(1,2,4,6) fill by (simp add: cancelTrackedOrder_def alreadyAttested_def)
  have att: "attestations (finalize (\<lambda>i. Inr sig) True ord 0 0 t) =
      insert_ignore (nf, FAILED) (attestation_of ?i sig) (attestations t)"
    using assms(2,3,4) nf none
    by (simp add: finalize_def unpersist_def Let_def attestTerminal_def terminal_input_def bet_of_def
        signAndStoreAttestation_def existing_row_def isBetOutcome_def case_prod_beta)
  show ?thesis
    unfolding cancel using none
    by (simp add: att getAttestation_def readOutcomeRow_insert_fresh isBetOutcome_def attestation_of_def)
qed

lemma cancel_attests_live_order_failed_witness:
  "fst (cancelTrackedOrder (\<lambda>i. Inr ''s'') True ''n''
     (Some \<lparr>cc_get_order = Some \<lparr>co_status = ''LIVE'', co_size_matched = 0, co_original_size = 5, co_price = 0\<rparr>,
            cc_trades = Some []\<rparr>) (ProdClob None) demo_tracker) = Finalized"
proof -
  have up: "upper ''LIVE'' = ''LIVE''" by code_simp
  show ?thesis
    by (rule conjunct1 [OF cancel_attests_live_order_failed [where ord = demo_order
          and x = "\<lparr>co_status = ''LIVE'', co_size_matched = 0, co_original_size = 5, co_price = 0\<rparr>"]])
      (simp_all add: getTrackedOrder_def demo_order_def getAttestation_def readOutcomeRow_def up live_status_def)
qed

definition ws_alive :: "ws_state \<Rightarrow> bool" where
  "ws_alive w \<longleftrightarrow> ws_stopped w \<or> ws_timer w \<noteq> None \<or> ws_connecting w \<or> (ws_socket w \<noteq> None \<and> ws_open w)"

text \<open>
  The reconnect loop neither stops nor multiplies.  When the current socket
  closes, a stopped tracker schedules nothing, and any other has exactly one
  timer pending, with a delay of at most 30 seconds; when the timer fires the
  tracker is connecting again or has the next timer pending.
\<close>

lemma reconnect_loop_alive:
  assumes "\<forall>d. ws_timer w = Some d \<longrightarrow> d \<le> 30000"
  shows "ws_alive (ws_on_close k w) \<and> ws_alive (ws_timer_fires made w) \<and>
    (ws_alive w \<longrightarrow> ws_alive (ws_connect made w)) \<and> (ws_socket w \<noteq> None \<longrightarrow> ws_alive (ws_on_open (the (ws_socket w)) w)) \<and>
    (\<forall>d. ws_timer (ws_on_close k w) = Some d \<longrightarrow> d \<le> 30000) \<and>
    (\<forall>d. ws_timer (ws_timer_fires made w) = Some d \<longrightarrow> d \<le> 30000) \<and>
    (ws_stopped w \<longrightarrow> ws_timer (ws_on_close k w) = ws_timer w)"
proof -
  have d: "RECONNECT_DELAYS_MS ! min n (length RECONNECT_DELAYS_MS - 1) \<le> 30000" for n
  proof -
    have "\<forall>x \<in> set RECONNECT_DELAYS_MS. x \<le> 30000" by (simp add: RECONNECT_DELAYS_MS_def)
    moreover have "min n (length RECONNECT_DELAYS_MS - 1) < length RECONNECT_DELAYS_MS"
      by (simp add: RECONNECT_DELAYS_MS_def)
    ultimately show ?thesis by (metis nth_mem)
  qed
  show ?thesis
    using assms d
    by (auto simp: ws_alive_def ws_on_close_def ws_timer_fires_def ws_connect_def ws_on_open_def
        scheduleReconnect_def Let_def)
qed

definition demo_ws :: ws_state where
  "demo_ws = \<lparr>ws_socket = Some 0, ws_open = True, ws_connecting = False, ws_stopped = False,
     ws_attempts = 7, ws_timer = None, ws_next = 1\<rparr>"

lemma reconnect_loop_alive_witness:
  "ws_alive (ws_on_close 0 demo_ws) \<and> ws_timer (ws_on_close 0 demo_ws) = Some 30000"
proof -
  have "\<forall>d. ws_timer demo_ws = Some d \<longrightarrow> d \<le> 30000" by (simp add: demo_ws_def)
  from reconnect_loop_alive [OF this] have "ws_alive (ws_on_close 0 demo_ws)" by blast
  moreover have "ws_timer (ws_on_close 0 demo_ws) = Some 30000"
    by (simp add: demo_ws_def ws_on_close_def scheduleReconnect_def RECONNECT_DELAYS_MS_def)
  ultimately show ?thesis by blast
qed

end
