(* ===== verification/Funding.thy ===== *)
theory Funding
  imports Prelude
begin

section \<open>Funding the deposit wallet\<close>

text \<open>
  \<open>signing-layer/src/jitFunding.ts\<close>, \<open>bufferManager.ts\<close> and the executors of
  \<open>depositWalletExecutor.ts\<close>: before a bet the deposit wallet is topped up by the
  exact shortfall, a buffer manager keeps a base balance, and both run on one
  promise chain.  The chain is the world \<open>'w\<close>; what the program calls on it
  (the balance read, the vault transaction, the relayer) are parameters, and the
  interface \<open>funding_port\<close> states what they do to it.
\<close>

record fund_config =
  fc_pusd :: string
  fc_usdc :: string
  fc_onramp :: string
  fc_deposit_wallet :: string
  fc_exchange :: string
  fc_ctf :: string
  fc_low :: int
  fc_target :: int
  fc_mock_relayer :: string
  fc_poly_relayer :: string
  fc_wallet_key :: string

definition ZeroAddress :: string where
  "ZeroAddress = ''0x0000000000000000000000000000000000000000''"

subsection \<open>Deposit-wallet calls and executors\<close>

text \<open>A call carries its decoded calldata; ABI encoding is done by a package.\<close>

datatype call_data = Approve string int | SetApprovalForAll string bool | Wrap string string int

record WalletCall =
  wc_target :: string
  wc_value :: int
  wc_data :: call_data

definition MaxUint256 :: int where "MaxUint256 = 2 ^ 256 - 1"

definition approvalCalls :: "fund_config \<Rightarrow> WalletCall list" where
  "approvalCalls cfg =
     (let exchange = fc_exchange cfg; ok = (exchange \<noteq> '''' \<and> exchange \<noteq> ZeroAddress)
      in (if fc_pusd cfg \<noteq> '''' \<and> ok
          then [\<lparr>wc_target = fc_pusd cfg, wc_value = 0, wc_data = Approve exchange MaxUint256\<rparr>] else []) @
         (if fc_ctf cfg \<noteq> '''' \<and> ok
          then [\<lparr>wc_target = fc_ctf cfg, wc_value = 0, wc_data = SetApprovalForAll exchange True\<rparr>] else []))"

definition wrapUsdcToPusd :: "fund_config \<Rightarrow> (WalletCall list \<Rightarrow> 'w \<Rightarrow> (string + unit) \<times> 'w)
    \<Rightarrow> int \<Rightarrow> 'w \<Rightarrow> (string + unit) \<times> 'w" where
  "wrapUsdcToPusd cfg executeBatch amount w =
     (if fc_onramp cfg = '''' \<or> fc_onramp cfg = ZeroAddress then (Inl ''ONRAMP_ADDRESS not configured'', w)
      else if fc_usdc cfg = '''' then (Inl ''USDC_ADDRESS not configured'', w)
      else if fc_deposit_wallet cfg = '''' then (Inl ''DEPOSIT_WALLET_ADDRESS not configured'', w)
      else executeBatch
        [\<lparr>wc_target = fc_usdc cfg, wc_value = 0, wc_data = Approve (fc_onramp cfg) amount\<rparr>,
         \<lparr>wc_target = fc_onramp cfg, wc_value = 0,
           wc_data = Wrap (fc_usdc cfg) (fc_deposit_wallet cfg) amount\<rparr>] w)"

definition isWalletBusy :: "string \<Rightarrow> bool" where
  "isWalletBusy err \<longleftrightarrow>
     js_includes ''wallet busy'' (lower err) \<or> js_includes ''active action exists'' (lower err)"

text \<open>
  The relayer's answer to a submitted batch: mined, not mined (it failed or timed
  out) or an exception.  The production executor repeats a busy wallet's batch up
  to \<open>WALLET_BUSY_MAX_RETRIES\<close> times; the result carries the number of submissions.
\<close>

datatype batch_reply = Mined | NotMined | Threw string

definition WALLET_BUSY_MAX_RETRIES :: nat where "WALLET_BUSY_MAX_RETRIES = 8"

function poly_batch_from :: "(WalletCall list \<Rightarrow> 'w \<Rightarrow> batch_reply \<times> 'w) \<Rightarrow> WalletCall list \<Rightarrow> nat \<Rightarrow> 'w
    \<Rightarrow> ((string + unit) \<times> 'w) \<times> nat" where
  "poly_batch_from submit calls attempt w =
     (case submit calls w of
        (Mined, w') \<Rightarrow> ((Inr (), w'), attempt)
      | (NotMined, w') \<Rightarrow> ((Inl ''polymarket relayer WALLET batch failed or timed out'', w'), attempt)
      | (Threw e, w') \<Rightarrow>
          if isWalletBusy e \<and> attempt < WALLET_BUSY_MAX_RETRIES
          then poly_batch_from submit calls (attempt + 1) w'
          else ((Inl e, w'), attempt))"
  by pat_completeness auto
termination
  by (relation "measure (\<lambda>(s, c, attempt, w). WALLET_BUSY_MAX_RETRIES - attempt)") auto

declare poly_batch_from.simps [simp del]

record 'w executor_port =
  ep_post :: "WalletCall list \<Rightarrow> 'w \<Rightarrow> (bool \<times> bool option) \<times> 'w"
  ep_submit :: "WalletCall list \<Rightarrow> 'w \<Rightarrow> batch_reply \<times> 'w"
  ep_tx :: "WalletCall \<Rightarrow> 'w \<Rightarrow> (string + unit) \<times> 'w"

datatype executor = MockRelayer | PolymarketRelayer | EoaExecutor | Unconfigured

definition getDepositWalletExecutor :: "fund_config \<Rightarrow> executor" where
  "getDepositWalletExecutor cfg =
     (if fc_mock_relayer cfg \<noteq> '''' then MockRelayer
      else if fc_poly_relayer cfg \<noteq> '''' then PolymarketRelayer
      else if fc_wallet_key cfg \<noteq> '''' then EoaExecutor
      else Unconfigured)"

fun eoa_batch :: "(WalletCall \<Rightarrow> 'w \<Rightarrow> (string + unit) \<times> 'w) \<Rightarrow> WalletCall list \<Rightarrow> 'w \<Rightarrow> (string + unit) \<times> 'w" where
  "eoa_batch tx [] w = (Inr (), w)"
| "eoa_batch tx (c # cs) w =
     (case tx c w of (Inl e, w') \<Rightarrow> (Inl e, w') | (Inr _, w') \<Rightarrow> eoa_batch tx cs w')"

definition executeBatch :: "executor \<Rightarrow> fund_config \<Rightarrow> 'w executor_port \<Rightarrow> WalletCall list \<Rightarrow> 'w
    \<Rightarrow> (string + unit) \<times> 'w" where
  "executeBatch ex cfg port calls w =
     (case ex of
        MockRelayer \<Rightarrow>
          if calls = [] then (Inr (), w)
          else (case ep_post port calls w of ((http_ok, ok_field), w') \<Rightarrow>
                  if \<not> http_ok \<or> ok_field = Some False then (Inl ''mock relayer batch failed'', w')
                  else (Inr (), w'))
      | PolymarketRelayer \<Rightarrow>
          if calls = [] then (Inr (), w)
          else if fc_deposit_wallet cfg = '''' then (Inl ''DEPOSIT_WALLET_ADDRESS not set'', w)
          else fst (poly_batch_from (ep_submit port) calls 1 w)
      | EoaExecutor \<Rightarrow> eoa_batch (ep_tx port) calls w
      | Unconfigured \<Rightarrow> (Inl ''No deposit-wallet executor configured'', w))"

lemma poly_batch_attempts:
  "1 \<le> attempt \<Longrightarrow> attempt \<le> WALLET_BUSY_MAX_RETRIES \<Longrightarrow>
     snd (poly_batch_from submit calls attempt w) \<le> WALLET_BUSY_MAX_RETRIES"
proof (induction submit calls attempt w rule: poly_batch_from.induct)
  case (1 submit calls attempt w)
  then show ?case
    by (auto simp: poly_batch_from.simps [of submit calls attempt] split: prod.splits batch_reply.splits)
qed

text \<open>A law of the submission carries over to the retrying batch.\<close>

lemma poly_batch_rule:
  assumes "poly_batch_from submit calls attempt w = ((r, w'), n)" and "I w"
    and mined: "\<And>u u'. I u \<Longrightarrow> submit calls u = (Mined, u') \<Longrightarrow> Q (Inr ()) u'"
    and failed: "\<And>u u'. I u \<Longrightarrow> submit calls u = (NotMined, u') \<Longrightarrow> Q (Inl ''polymarket relayer WALLET batch failed or timed out'') u'"
    and threw: "\<And>u u' e. I u \<Longrightarrow> submit calls u = (Threw e, u') \<Longrightarrow> I u' \<and> Q (Inl e) u'"
  shows "Q r w'"
  using assms
proof (induction submit calls attempt w rule: poly_batch_from.induct)
  case (1 submit calls attempt w)
  obtain reply w1 where r: "submit calls w = (reply, w1)" by fastforce
  show ?case
  proof (cases reply)
    case (Threw e)
    show ?thesis
    proof (cases "isWalletBusy e \<and> attempt < WALLET_BUSY_MAX_RETRIES")
      case True
      have "poly_batch_from submit calls (attempt + 1) w1 = ((r, w'), n)"
        using "1.prems"(1) r Threw True by (simp add: poly_batch_from.simps [of submit calls attempt])
      moreover have "I w1" using "1.prems"(5) [OF "1.prems"(2)] r Threw by blast
      ultimately show ?thesis
        using "1.IH" [OF r [symmetric] Threw True] "1.prems"(3-5) by blast
    next
      case False
      then show ?thesis using 1 r Threw by (auto simp: poly_batch_from.simps [of submit calls attempt])
    qed
  qed (use 1 r in \<open>auto simp: poly_batch_from.simps [of submit calls attempt]\<close>)
qed

subsection \<open>Just-in-time funding and the buffer\<close>

text \<open>
  \<open>balance\<close> reads the deposit wallet's pUSD, \<open>fund\<close> is the vault transaction with
  its confirmation (through the nonce manager), \<open>wrap\<close> is \<open>wrapUsdcToPusd\<close>.
\<close>

definition fundOnce :: "fund_config \<Rightarrow> ('w \<Rightarrow> string + int) \<Rightarrow> (int \<Rightarrow> 'w \<Rightarrow> (string + unit) \<times> 'w)
    \<Rightarrow> (int \<Rightarrow> 'w \<Rightarrow> (string + unit) \<times> 'w) \<Rightarrow> int \<Rightarrow> 'w \<Rightarrow> bool \<times> 'w" where
  "fundOnce cfg balance fund wrap betAmount w =
     (if fc_pusd cfg = '''' \<or> fc_deposit_wallet cfg = '''' \<or> fc_onramp cfg = '''' then (False, w)
      else case balance w of
        Inl _ \<Rightarrow> (False, w)
      | Inr bal \<Rightarrow>
          if bal \<ge> betAmount then (True, w)
          else let shortfall = betAmount - bal
               in case fund shortfall w of
                    (Inl _, w1) \<Rightarrow> (False, w1)
                  | (Inr _, w1) \<Rightarrow>
                      (case wrap shortfall w1 of (Inl _, w2) \<Rightarrow> (False, w2) | (Inr _, w2) \<Rightarrow> (True, w2)))"

definition topUpOnce :: "fund_config \<Rightarrow> ('w \<Rightarrow> string + int) \<Rightarrow> (int \<Rightarrow> 'w \<Rightarrow> (string + unit) \<times> 'w)
    \<Rightarrow> (int \<Rightarrow> 'w \<Rightarrow> (string + unit) \<times> 'w) \<Rightarrow> 'w \<Rightarrow> (string + unit) \<times> 'w" where
  "topUpOnce cfg balance fund wrap w =
     (let low = fc_low cfg; target = (if fc_target cfg < low then low else fc_target cfg)
      in case balance w of
           Inl e \<Rightarrow> (Inl e, w)
         | Inr bal \<Rightarrow>
             if bal \<ge> low then (Inr (), w)
             else let topUp = target - bal
                  in case fund topUp w of
                       (Inl e, w1) \<Rightarrow> (Inl e, w1)
                     | (Inr _, w1) \<Rightarrow> wrap topUp w1)"

text \<open>
  The promise chain runs its jobs one after another, and a job that throws does
  not stop the next one: \<open>True\<close> in the result is a job that returned normally
  and, for a bet, returned true.
\<close>

datatype fund_job = Jit int | Buffer

fun run_job :: "fund_config \<Rightarrow> ('w \<Rightarrow> string + int) \<Rightarrow> (int \<Rightarrow> 'w \<Rightarrow> (string + unit) \<times> 'w)
    \<Rightarrow> (int \<Rightarrow> 'w \<Rightarrow> (string + unit) \<times> 'w) \<Rightarrow> fund_job \<Rightarrow> 'w \<Rightarrow> bool \<times> 'w" where
  "run_job cfg balance fund wrap (Jit a) w = fundOnce cfg balance fund wrap a w"
| "run_job cfg balance fund wrap Buffer w =
     (case topUpOnce cfg balance fund wrap w of (Inl _, w') \<Rightarrow> (False, w') | (Inr _, w') \<Rightarrow> (True, w'))"

fun runOnFundingChain :: "fund_config \<Rightarrow> ('w \<Rightarrow> string + int) \<Rightarrow> (int \<Rightarrow> 'w \<Rightarrow> (string + unit) \<times> 'w)
    \<Rightarrow> (int \<Rightarrow> 'w \<Rightarrow> (string + unit) \<times> 'w) \<Rightarrow> fund_job list \<Rightarrow> 'w \<Rightarrow> bool list \<times> 'w" where
  "runOnFundingChain cfg balance fund wrap [] w = ([], w)"
| "runOnFundingChain cfg balance fund wrap (j # js) w =
     (let (ok, w1) = run_job cfg balance fund wrap j w;
          (oks, w2) = runOnFundingChain cfg balance fund wrap js w1
      in (ok # oks, w2))"

text \<open>The control state of the buffer manager, and its guarded tick.\<close>

record buffer_state =
  bs_started :: bool
  bs_running :: bool
  bs_hook :: bool
  bs_timer :: bool

definition startBufferManager :: "fund_config \<Rightarrow> buffer_state \<Rightarrow> buffer_state" where
  "startBufferManager cfg s =
     (if fc_low cfg \<le> 0 \<or> fc_target cfg \<le> 0 then s
      else if fc_pusd cfg = '''' \<or> fc_deposit_wallet cfg = '''' then s
      else s\<lparr>bs_started := True, bs_hook := True, bs_timer := True\<rparr>)"

definition stopBufferManager :: "buffer_state \<Rightarrow> buffer_state" where
  "stopBufferManager s = s\<lparr>bs_timer := False\<rparr>"

text \<open>\<open>runTick\<close>: whether it enqueues a top-up, and what its \<open>finally\<close> leaves.\<close>

definition runTick :: "buffer_state \<Rightarrow> bool \<times> buffer_state" where
  "runTick s = (if bs_running s \<or> \<not> bs_started s then (False, s) else (True, s\<lparr>bs_running := True\<rparr>))"

definition tick_settled :: "buffer_state \<Rightarrow> buffer_state" where
  "tick_settled s = s\<lparr>bs_running := False\<rparr>"

definition triggerBufferCheck :: "buffer_state \<Rightarrow> bool \<times> buffer_state" where
  "triggerBufferCheck s = (if \<not> bs_started s then (False, s) else runTick s)"

text \<open>\<open>ensureDepositWalletFunded\<close>: the bet's answer, then the nudge of the buffer.\<close>

definition ensureDepositWalletFunded :: "fund_config \<Rightarrow> ('w \<Rightarrow> string + int)
    \<Rightarrow> (int \<Rightarrow> 'w \<Rightarrow> (string + unit) \<times> 'w) \<Rightarrow> (int \<Rightarrow> 'w \<Rightarrow> (string + unit) \<times> 'w) \<Rightarrow> int
    \<Rightarrow> buffer_state \<times> 'w \<Rightarrow> (bool \<times> fund_job list) \<times> buffer_state \<times> 'w" where
  "ensureDepositWalletFunded cfg balance fund wrap betAmount = (\<lambda>(s, w).
     (let (ok, w1) = fundOnce cfg balance fund wrap betAmount w;
          (nudge, s1) = (if bs_hook s then triggerBufferCheck s else (False, s))
      in ((ok, if nudge then [Buffer] else []), s1, w1)))"

text \<open>A tick is never enqueued while one is in flight, nor before the manager started.\<close>

lemma runTick_guard: "fst (runTick s) \<longleftrightarrow> bs_started s \<and> \<not> bs_running s"
  by (simp add: runTick_def)

subsection \<open>The interface\<close>

text \<open>
  What the three calls do to the wallet's buying power (pUSD) and to the amount
  the vault counts as deployed.  A call that fails leaves both as they were.
\<close>

locale funding_port =
  fixes balance :: "'w \<Rightarrow> string + int"
    and fund :: "int \<Rightarrow> 'w \<Rightarrow> (string + unit) \<times> 'w"
    and wrap :: "int \<Rightarrow> 'w \<Rightarrow> (string + unit) \<times> 'w"
    and buying :: "'w \<Rightarrow> int"
    and deployed :: "'w \<Rightarrow> int"
  assumes balance_law: "balance w = Inr b \<Longrightarrow> b = buying w"
    and fund_ok: "fund a w = (Inr u, w') \<Longrightarrow> buying w' = buying w \<and> deployed w' = deployed w + a"
    and fund_err: "fund a w = (Inl e, w') \<Longrightarrow> buying w' = buying w \<and> deployed w' = deployed w"
    and wrap_ok: "wrap a w = (Inr u, w') \<Longrightarrow> buying w' = buying w + a \<and> deployed w' = deployed w"
    and wrap_err: "wrap a w = (Inl e, w') \<Longrightarrow> buying w' = buying w \<and> deployed w' = deployed w"
begin

lemma fundOnce_effect:
  assumes "fundOnce cfg balance fund wrap a w = (ok, w')"
  shows "buying w' = (if ok then max a (buying w) else buying w) \<and>
    (if ok then deployed w' - deployed w = buying w' - buying w
     else deployed w \<le> deployed w' \<and> deployed w' - deployed w \<le> max 0 (a - buying w))"
  using assms balance_law
  by (auto simp: fundOnce_def Let_def dest!: fund_ok fund_err wrap_ok wrap_err
      split: if_splits sum.splits prod.splits)

lemma topUpOnce_effect:
  assumes "topUpOnce cfg balance fund wrap w = (r, w')"
  shows "buying w' = (if the_right r \<noteq> None \<and> buying w < fc_low cfg then max (fc_low cfg) (fc_target cfg) else buying w) \<and>
    (if the_right r \<noteq> None then deployed w' - deployed w = buying w' - buying w
     else deployed w \<le> deployed w')"
proof (cases r)
  case (Inl e)
  then show ?thesis
    using assms balance_law
    by (auto simp: topUpOnce_def Let_def max_def dest!: fund_ok fund_err wrap_ok wrap_err
        split: if_splits sum.splits prod.splits)
next
  case (Inr u)
  then show ?thesis
    using assms balance_law
    by (auto simp: topUpOnce_def Let_def max_def dest!: fund_ok fund_err wrap_ok wrap_err
        split: if_splits sum.splits prod.splits)
qed

end

text \<open>The level a job asks for, given the buying power it finds.\<close>

fun job_level :: "fund_config \<Rightarrow> int \<Rightarrow> fund_job \<Rightarrow> int" where
  "job_level cfg b (Jit a) = max a b"
| "job_level cfg b Buffer = (if b < fc_low cfg then max (fc_low cfg) (fc_target cfg) else b)"

context funding_port
begin

lemma run_job_effect:
  assumes "run_job cfg balance fund wrap j w = (ok, w')"
  shows "buying w' = (if ok then job_level cfg (buying w) j else buying w) \<and> deployed w \<le> deployed w' \<and>
    (ok \<longrightarrow> deployed w' - deployed w = buying w' - buying w)"
proof (cases j)
  case (Jit a)
  then show ?thesis using assms fundOnce_effect [of cfg a w ok w'] by (cases ok) auto
next
  case Buffer
  obtain r where r: "topUpOnce cfg balance fund wrap w = (r, w')" "ok \<longleftrightarrow> the_right r \<noteq> None"
    using assms Buffer by (auto split: prod.splits sum.splits)
  show ?thesis using topUpOnce_effect [OF r(1)] Buffer r(2) by (cases ok) (auto split: if_splits)
qed

lemma chain_effect:
  assumes "runOnFundingChain cfg balance fund wrap js w = (oks, w')" and "\<forall>ok \<in> set oks. ok"
  shows "buying w' = foldl (job_level cfg) (buying w) js \<and>
    deployed w' - deployed w = buying w' - buying w"
  using assms
proof (induction js arbitrary: w oks)
  case Nil
  then show ?case by simp
next
  case (Cons j js)
  obtain ok w1 where j: "run_job cfg balance fund wrap j w = (ok, w1)" by fastforce
  obtain oks1 where js: "runOnFundingChain cfg balance fund wrap js w1 = (oks1, w')" "oks = ok # oks1"
    using Cons.prems(1) j by (auto simp: Let_def split: prod.splits)
  have "\<forall>ok \<in> set oks1. ok" and "ok" using Cons.prems(2) js(2) by auto
  with Cons.IH [OF js(1)] run_job_effect [OF j]
  have "buying w' = foldl (job_level cfg) (buying w1) js" "deployed w' - deployed w1 = buying w' - buying w1"
    "buying w1 = job_level cfg (buying w) j" "deployed w1 - deployed w = buying w1 - buying w" by simp_all
  then show ?case by (simp only: foldl_Cons) linarith
qed

lemma chain_monotone:
  assumes "runOnFundingChain cfg balance fund wrap js w = (oks, w')"
  shows "deployed w \<le> deployed w' \<and> length oks = length js"
  using assms
proof (induction js arbitrary: w oks)
  case (Cons j js)
  obtain ok w1 where j: "run_job cfg balance fund wrap j w = (ok, w1)" by fastforce
  obtain oks1 where js: "runOnFundingChain cfg balance fund wrap js w1 = (oks1, w')" "oks = ok # oks1"
    using Cons.prems(1) j by (auto simp: Let_def split: prod.splits)
  then show ?case using Cons.IH [OF js(1)] run_job_effect [OF j] by auto
qed simp

end


subsection \<open>The vault and the deposit wallet\<close>

text \<open>
  The provider of the interface: \<open>fundPolymarketWallet\<close> of \<open>Vault.sol\<close> with its
  reverts, and the deposit wallet's USDC, allowance and pUSD, which a batch
  changes atomically.  \<open>vw_script\<close> says of each external request in turn whether
  it gets through.
\<close>

record vault_world =
  vw_vault_usdc :: int
  vw_deployed :: int
  vw_cap :: int
  vw_paused :: bool
  vw_wallet_usdc :: int
  vw_allowance :: int
  vw_pusd :: int
  vw_script :: "bool list"

definition next_fault :: "vault_world \<Rightarrow> bool \<times> vault_world" where
  "next_fault w = (case vw_script w of [] \<Rightarrow> (False, w) | b # bs \<Rightarrow> (\<not> b, w\<lparr>vw_script := bs\<rparr>))"

definition fundPolymarketWallet :: "int \<Rightarrow> vault_world \<Rightarrow> (string + unit) \<times> vault_world" where
  "fundPolymarketWallet amount w =
     (if vw_paused w then (Inl ''EnforcedPause'', w)
      else if vw_vault_usdc w < amount then (Inl ''InsufficientVaultLiquidity'', w)
      else if vw_deployed w + amount > vw_cap w then (Inl ''DeployCapExceeded'', w)
      else (Inr (), w\<lparr>vw_deployed := vw_deployed w + amount, vw_vault_usdc := vw_vault_usdc w - amount,
                     vw_wallet_usdc := vw_wallet_usdc w + amount\<rparr>))"

definition vault_fund :: "int \<Rightarrow> vault_world \<Rightarrow> (string + unit) \<times> vault_world" where
  "vault_fund amount w =
     (let (fault, w1) = next_fault w in if fault then (Inl ''rpc'', w1) else fundPolymarketWallet amount w1)"

definition vault_balance :: "vault_world \<Rightarrow> string + int" where
  "vault_balance w = Inr (vw_pusd w)"

fun wallet_calls :: "WalletCall list \<Rightarrow> vault_world \<Rightarrow> vault_world option" where
  "wallet_calls [] w = Some w"
| "wallet_calls (c # cs) w =
     (case wc_data c of
        Approve _ a \<Rightarrow> wallet_calls cs (w\<lparr>vw_allowance := a\<rparr>)
      | Wrap _ _ a \<Rightarrow>
          if a \<le> vw_allowance w \<and> a \<le> vw_wallet_usdc w
          then wallet_calls cs (w\<lparr>vw_allowance := vw_allowance w - a,
                  vw_wallet_usdc := vw_wallet_usdc w - a, vw_pusd := vw_pusd w + a\<rparr>)
          else None
      | SetApprovalForAll _ _ \<Rightarrow> wallet_calls cs w)"

definition wallet_submit :: "WalletCall list \<Rightarrow> vault_world \<Rightarrow> batch_reply \<times> vault_world" where
  "wallet_submit calls w =
     (let (fault, w1) = next_fault w
      in if fault then (Threw ''wallet busy: active action exists'', w1)
         else case wallet_calls calls w1 of None \<Rightarrow> (NotMined, w1) | Some w2 \<Rightarrow> (Mined, w2))"

definition wallet_port :: "vault_world executor_port" where
  "wallet_port = \<lparr>ep_post = (\<lambda>calls w. case wallet_submit calls w of
       (Mined, w') \<Rightarrow> ((True, Some True), w') | (_, w') \<Rightarrow> ((False, None), w')),
     ep_submit = wallet_submit,
     ep_tx = (\<lambda>c w. case wallet_submit [c] w of (Mined, w') \<Rightarrow> (Inr (), w') | (_, w') \<Rightarrow> (Inl ''reverted'', w'))\<rparr>"

definition wallet_wrap :: "fund_config \<Rightarrow> int \<Rightarrow> vault_world \<Rightarrow> (string + unit) \<times> vault_world" where
  "wallet_wrap cfg amount w =
     wrapUsdcToPusd cfg (executeBatch (getDepositWalletExecutor cfg) cfg wallet_port) amount w"

lemma next_fault_funds [simp]:
  "next_fault w = (b, w') \<Longrightarrow> vw_pusd w' = vw_pusd w \<and> vw_deployed w' = vw_deployed w \<and> vw_cap w' = vw_cap w"
  by (auto simp: next_fault_def split: list.splits)

text \<open>What a submission does: a wrap batch that is mined moves its amount, any other outcome nothing.\<close>

definition wrap_batch :: "fund_config \<Rightarrow> int \<Rightarrow> WalletCall list" where
  "wrap_batch cfg a =
     [\<lparr>wc_target = fc_usdc cfg, wc_value = 0, wc_data = Approve (fc_onramp cfg) a\<rparr>,
      \<lparr>wc_target = fc_onramp cfg, wc_value = 0, wc_data = Wrap (fc_usdc cfg) (fc_deposit_wallet cfg) a\<rparr>]"

lemma wallet_submit_cases:
  "wallet_submit (wrap_batch cfg a) w = (r, w') \<Longrightarrow>
     vw_deployed w' = vw_deployed w \<and> vw_cap w' = vw_cap w \<and> vw_pusd w' = (if r = Mined then vw_pusd w + a else vw_pusd w)"
  "wallet_submit [c] w = (r, w') \<Longrightarrow> vw_deployed w' = vw_deployed w \<and> vw_cap w' = vw_cap w \<and>
     (case (r, wc_data c) of (Mined, Wrap _ _ a) \<Rightarrow> vw_pusd w' = vw_pusd w + a | _ \<Rightarrow> vw_pusd w' = vw_pusd w)"
  by (auto simp: wallet_submit_def wrap_batch_def Let_def
      split: prod.splits if_splits option.splits call_data.splits batch_reply.splits)

lemma wallet_batch_effect:
  assumes "executeBatch ex cfg wallet_port (wrap_batch cfg a) w = (r, w')"
  shows "vw_deployed w' = vw_deployed w \<and> vw_cap w' = vw_cap w \<and>
    vw_pusd w' = (if the_right r \<noteq> None then vw_pusd w + a else vw_pusd w)"
proof (cases ex)
  case MockRelayer
  obtain reply u where s: "wallet_submit (wrap_batch cfg a) w = (reply, u)" by fastforce
  from MockRelayer assms s wallet_submit_cases(1) [OF s] show ?thesis
    by (cases reply) (auto simp: executeBatch_def wallet_port_def wrap_batch_def)
next
  case PolymarketRelayer
  show ?thesis
  proof (cases "fc_deposit_wallet cfg = ''''")
    case True
    with PolymarketRelayer assms show ?thesis by (auto simp: executeBatch_def wrap_batch_def)
  next
    case False
    then obtain n where n: "poly_batch_from wallet_submit (wrap_batch cfg a) 1 w = ((r, w'), n)"
      using PolymarketRelayer assms by (cases "poly_batch_from wallet_submit (wrap_batch cfg a) 1 w")
        (auto simp: executeBatch_def wallet_port_def wrap_batch_def)
    show ?thesis
      by (rule poly_batch_rule [OF n, where I = "\<lambda>u. vw_deployed u = vw_deployed w \<and> vw_cap u = vw_cap w \<and> vw_pusd u = vw_pusd w"])
        (auto dest!: wallet_submit_cases(1))
  qed
next
  case EoaExecutor
  let ?c1 = "\<lparr>wc_target = fc_usdc cfg, wc_value = 0, wc_data = Approve (fc_onramp cfg) a\<rparr>"
  let ?c2 = "\<lparr>wc_target = fc_onramp cfg, wc_value = 0, wc_data = Wrap (fc_usdc cfg) (fc_deposit_wallet cfg) a\<rparr>"
  obtain r1 u1 where s1: "wallet_submit [?c1] w = (r1, u1)" by fastforce
  obtain r2 u2 where s2: "wallet_submit [?c2] u1 = (r2, u2)" by fastforce
  from EoaExecutor assms s1 s2 wallet_submit_cases(2) [OF s1] wallet_submit_cases(2) [OF s2] show ?thesis
    by (cases r1; cases r2) (auto simp: executeBatch_def wallet_port_def wrap_batch_def)
next
  case Unconfigured
  with assms show ?thesis by (auto simp: executeBatch_def)
qed

lemma wallet_wrap_effect:
  assumes "wallet_wrap cfg a w = (r, w')"
  shows "vw_deployed w' = vw_deployed w \<and> vw_cap w' = vw_cap w \<and>
    vw_pusd w' = (if the_right r \<noteq> None then vw_pusd w + a else vw_pusd w)"
  using assms wallet_batch_effect [of "getDepositWalletExecutor cfg" cfg a w r w']
  by (auto simp: wallet_wrap_def wrapUsdcToPusd_def wrap_batch_def split: if_splits)

lemma vault_fund_effect:
  assumes "vault_fund a w = (r, w')"
  shows "vw_pusd w' = vw_pusd w \<and>
    vw_deployed w' = (if the_right r \<noteq> None then vw_deployed w + a else vw_deployed w)"
  using assms by (auto simp: vault_fund_def fundPolymarketWallet_def Let_def split: prod.splits if_splits)

interpretation wallet: funding_port vault_balance vault_fund "wallet_wrap cfg" vw_pusd vw_deployed
  by unfold_locales (auto simp: vault_balance_def dest!: vault_fund_effect wallet_wrap_effect)

text \<open>The vault's cap bounds every run.\<close>

lemma vault_fund_cap:
  "vault_fund a w = (r, w') \<Longrightarrow> vw_deployed w \<le> vw_cap w \<Longrightarrow> vw_deployed w' \<le> vw_cap w' \<and> vw_cap w' = vw_cap w"
proof -
  assume r: "vault_fund a w = (r, w')" and cap: "vw_deployed w \<le> vw_cap w"
  obtain fault w1 where n: "next_fault w = (fault, w1)" by fastforce
  have "w' = w1 \<or> \<not> vw_deployed w1 + a > vw_cap w1 \<and> vw_deployed w' = vw_deployed w1 + a \<and> vw_cap w' = vw_cap w1"
    using r n by (auto simp: vault_fund_def fundPolymarketWallet_def split: if_splits)
  then show ?thesis using next_fault_funds [OF n] cap by auto
qed

lemma fundOnce_cap:
  assumes "fundOnce cfg vault_balance vault_fund (wallet_wrap cfg) a w = (ok, w')" and "vw_deployed w \<le> vw_cap w"
  shows "vw_deployed w' \<le> vw_cap w'"
proof -
  let ?a = "a - vw_pusd w"
  obtain r1 w1 where f: "vault_fund ?a w = (r1, w1)" by fastforce
  obtain r2 w2 where g: "wallet_wrap cfg ?a w1 = (r2, w2)" by fastforce
  have "w' = w \<or> w' = w1 \<or> w' = w2"
    using assms(1) f g
    by (simp add: fundOnce_def vault_balance_def split: if_splits sum.splits)
  moreover have "vw_deployed w1 \<le> vw_cap w1" using vault_fund_cap [OF f assms(2)] by simp
  ultimately show ?thesis using assms(2) wallet_wrap_effect [OF g] by auto
qed

subsection \<open>Claims\<close>

text \<open>
  C34: Whatever jobs run on the funding chain, per-bet top-ups and buffer checks in
  any order, when all of them succeed the wallet ends at the level the jobs ask
  for one after another, and the vault deployed exactly the increase: nothing is
  funded twice.  In every run, deployment only grows, and each job has its answer.
\<close>

theorem funding_chain_exact:
  assumes "runOnFundingChain cfg vault_balance vault_fund (wallet_wrap cfg) js w = (oks, w')"
  shows "vw_deployed w \<le> vw_deployed w' \<and> length oks = length js \<and>
    ((\<forall>ok \<in> set oks. ok) \<longrightarrow>
      vw_pusd w' = foldl (job_level cfg) (vw_pusd w) js \<and>
      vw_deployed w' - vw_deployed w = vw_pusd w' - vw_pusd w)"
  using wallet.chain_monotone [OF assms] wallet.chain_effect [OF assms] by blast

definition demo_config :: fund_config where
  "demo_config = \<lparr>fc_pusd = ''0xP'', fc_usdc = ''0xU'', fc_onramp = ''0xO'', fc_deposit_wallet = ''0xD'',
     fc_exchange = ''0xE'', fc_ctf = ''0xC'', fc_low = 50, fc_target = 80, fc_mock_relayer = '''',
     fc_poly_relayer = ''https'', fc_wallet_key = ''''\<rparr>"

definition demo_world :: "bool list \<Rightarrow> vault_world" where
  "demo_world script = \<lparr>vw_vault_usdc = 1000, vw_deployed = 0, vw_cap = 500, vw_paused = False,
     vw_wallet_usdc = 0, vw_allowance = 0, vw_pusd = 0, vw_script = script\<rparr>"

theorem funding_chain_exact_witness:
  "vw_pusd (snd (runOnFundingChain demo_config vault_balance vault_fund (wallet_wrap demo_config)
      [Jit 30, Buffer, Jit 60] (demo_world []))) = 80"
proof -
  let ?r = "runOnFundingChain demo_config vault_balance vault_fund (wallet_wrap demo_config) [Jit 30, Buffer, Jit 60] (demo_world [])"
  have "fst ?r = [True, True, True]" by code_simp
  then have "\<forall>ok \<in> set (fst ?r). ok" by (simp del: runOnFundingChain.simps)
  then have "vw_pusd (snd ?r) = foldl (job_level demo_config) (vw_pusd (demo_world [])) [Jit 30, Buffer, Jit 60]"
    using funding_chain_exact [of demo_config "[Jit 30, Buffer, Jit 60]" "demo_world []" "fst ?r" "snd ?r"]
    unfolding prod.collapse by blast
  also have "\<dots> = 80" by (simp add: demo_config_def demo_world_def)
  finally show ?thesis .
qed

text \<open>
  A bet is only placed on real buying power.  If the funding of a bet answers
  true, the deposit wallet holds at least the bet; if it answers false its pUSD
  is what it was; and the vault's deployment cap holds afterwards, whatever
  failed on the way.
\<close>

lemma funded_bet_is_covered:
  assumes "ensureDepositWalletFunded cfg vault_balance vault_fund (wallet_wrap cfg) bet (s, w) = ((ok, nudge), s', w')"
    and "vw_deployed w \<le> vw_cap w"
  shows "(ok \<longrightarrow> bet \<le> vw_pusd w' \<and> vw_pusd w' = max bet (vw_pusd w)) \<and> (\<not> ok \<longrightarrow> vw_pusd w' = vw_pusd w) \<and>
    (bs_running s \<longrightarrow> nudge = []) \<and> (nudge \<noteq> [] \<longrightarrow> bs_started s \<and> bs_running s') \<and>
    vw_deployed w' \<le> max (vw_deployed w) (vw_deployed w + bet - vw_pusd w) \<and> vw_deployed w' \<le> vw_cap w'"
proof -
  have f: "fundOnce cfg vault_balance vault_fund (wallet_wrap cfg) bet w = (ok, w')"
    using assms(1) by (auto simp: ensureDepositWalletFunded_def Let_def split: prod.splits)
  have "(bs_running s \<longrightarrow> nudge = []) \<and> (nudge \<noteq> [] \<longrightarrow> bs_started s \<and> bs_running s')"
    using assms(1) by (auto simp: ensureDepositWalletFunded_def triggerBufferCheck_def runTick_def Let_def
        split: prod.splits if_splits)
  with wallet.fundOnce_effect [OF f] fundOnce_cap [OF f assms(2)] show ?thesis by (cases ok) (auto simp: max_def split: if_splits)
qed

lemma funded_bet_is_covered_witness:
  "vw_pusd (snd (snd (ensureDepositWalletFunded demo_config vault_balance vault_fund (wallet_wrap demo_config) 30
      (\<lparr>bs_started = True, bs_running = False, bs_hook = True, bs_timer = True\<rparr>, demo_world [])))) = 30"
proof -
  let ?s = "\<lparr>bs_started = True, bs_running = False, bs_hook = True, bs_timer = True\<rparr>"
  let ?r = "ensureDepositWalletFunded demo_config vault_balance vault_fund (wallet_wrap demo_config) 30 (?s, demo_world [])"
  have ok: "fst (fst ?r)" by code_simp
  have c: "vw_deployed (demo_world []) \<le> vw_cap (demo_world [])" by (simp add: demo_world_def)
  have "?r = ((fst (fst ?r), snd (fst ?r)), fst (snd ?r), snd (snd ?r))" by simp
  from funded_bet_is_covered [OF this c] ok show ?thesis by (simp add: demo_world_def)
qed

text \<open>
  A wrap that fails after the vault transaction strands what was moved: the
  next attempt for the same bet deploys the whole shortfall again, since only
  pUSD counts as residual; the deposit wallet then holds the first amount as
  idle USDC.
\<close>

lemma failed_wrap_deploys_twice:
  assumes "fundOnce cfg vault_balance vault_fund (wallet_wrap cfg) bet w = (False, w1)"
    and "vw_deployed w1 = vw_deployed w + (bet - vw_pusd w)"
    and "fundOnce cfg vault_balance vault_fund (wallet_wrap cfg) bet w1 = (True, w2)" and "vw_pusd w < bet"
  shows "vw_pusd w2 = bet \<and> vw_deployed w2 = vw_deployed w + 2 * (bet - vw_pusd w)"
  using wallet.fundOnce_effect [OF assms(1)] wallet.fundOnce_effect [OF assms(3)] assms(2,4)
  by (simp split: if_splits)

lemma failed_wrap_deploys_twice_witness:
  "vw_deployed (snd (fundOnce demo_config vault_balance vault_fund (wallet_wrap demo_config) 30
      (snd (fundOnce demo_config vault_balance vault_fund (wallet_wrap demo_config) 30
        (demo_world ([True] @ replicate 8 False)))))) = 60"
proof -
  let ?f = "fundOnce demo_config vault_balance vault_fund (wallet_wrap demo_config) 30"
  let ?w = "demo_world ([True] @ replicate 8 False)"
  have one: "fst (?f ?w) = False" "vw_deployed (snd (?f ?w)) = 30" by code_simp+
  have two: "fst (?f (snd (?f ?w))) = True" by code_simp
  show ?thesis
    using failed_wrap_deploys_twice [of demo_config 30 ?w "snd (?f ?w)" "snd (?f (snd (?f ?w)))"] one two
    by (simp add: demo_world_def prod_eq_iff)
qed

end
