(* ===== verification/Event_Index.thy ===== *)
theory Event_Index
  imports Hex "HOL-Library.Product_Lexorder"
begin

section \<open>The index of vault events\<close>

text \<open>
  \<open>proof-relay/src/eventIndex.ts\<close>: the persisted table of the vault's events that
  wallets recover their notes from and the signing layer reads bets from, and
  the client side of it in \<open>signing-layer/src/vaultEventSource.ts\<close>.  ABI
  decoding is done by a package: a log carries its decoded arguments by name, or
  none where decoding gives null, and topics are mapped to event names by the
  environment.
\<close>

definition INDEX_CONFIRMATIONS :: int where "INDEX_CONFIRMATIONS = 3"
definition INDEX_SCAN_WINDOW :: int where "INDEX_SCAN_WINDOW = 5000"

subsection \<open>Serialising the arguments of an event\<close>

text \<open>A decoded value, and the JSON the table stores.\<close>

datatype sol_value = SStr string | SNum nat | SBool bool | SArr "string list" | SUndefined

datatype json = JStr string | JBool bool | JArr "json list"

type_synonym log_args = "(string \<times> sol_value) list"
type_synonym json_args = "(string \<times> json) list"

definition fld :: "log_args \<Rightarrow> string \<Rightarrow> sol_value" where
  "fld a k = (case map_of a k of None \<Rightarrow> SUndefined | Some v \<Rightarrow> v)"

fun js_join :: "string list \<Rightarrow> string" where
  "js_join [] = ''''"
| "js_join [s] = s"
| "js_join (s # ss) = s @ '','' @ js_join ss"

fun js_String :: "sol_value \<Rightarrow> string" where
  "js_String (SStr s) = s"
| "js_String (SNum n) = to_string10 n"
| "js_String (SBool b) = (if b then ''true'' else ''false'')"
| "js_String (SArr ss) = js_join ss"
| "js_String SUndefined = ''undefined''"

fun js_Boolean :: "sol_value \<Rightarrow> bool" where
  "js_Boolean (SStr s) \<longleftrightarrow> s \<noteq> ''''"
| "js_Boolean (SNum n) \<longleftrightarrow> n \<noteq> 0"
| "js_Boolean (SBool b) \<longleftrightarrow> b"
| "js_Boolean (SArr ss) \<longleftrightarrow> True"
| "js_Boolean SUndefined \<longleftrightarrow> False"

definition strings_of :: "log_args \<Rightarrow> string list \<Rightarrow> json_args" where
  "strings_of a ks = map (\<lambda>k. (k, JStr (js_String (fld a k)))) ks"

definition serializeArgs :: "string \<Rightarrow> log_args \<Rightarrow> json_args" where
  "serializeArgs name a =
     (if name = ''Deposited'' then strings_of a [''depositor'', ''commitment'', ''amount'']
      else if name = ''BetAuthorized'' then strings_of a [''nullifier'', ''market_id'', ''position_id'',
        ''expected_shares'', ''bet_amount'', ''price'', ''outcome_side'', ''new_commitment'',
        ''protocolFee'', ''relayFee'']
      else if name = ''SettlementCredited'' \<or> name = ''BetCancellationCredited''
           \<or> name = ''NACancellationCredited'' \<or> name = ''PartialFillCredited''
        then strings_of a [''nullifier'', ''nullifier_of_bet'', ''new_commitment'']
      else if name = ''Withdrawn'' then strings_of a [''nullifier'', ''recipient'', ''amount'', ''new_commitment'']
      else if name = ''BetSold'' then strings_of a [''nullifier_of_bet'', ''sold_shares'', ''proceeds'']
      else if name = ''PositionClosed''
        then strings_of a [''nullifier'', ''nullifier_of_bet'', ''new_commitment''] @
             [(''fullClose'', JBool (js_Boolean (fld a ''fullClose'')))]
      else if name = ''Consolidated''
        then (''nullifiers'', JArr (case fld a ''nullifiers'' of SArr ss \<Rightarrow> map JStr ss | _ \<Rightarrow> [])) #
             strings_of a [''new_commitment'']
      else if name = ''MarketResolved'' then strings_of a [''market_id'', ''resolvedAt'']
      else [])"

subsection \<open>State and environment\<close>

record IndexedEvent =
  ev_type :: string
  ev_block :: int
  ev_log :: int
  ev_tx :: string
  ev_args :: json_args

record vault_log =
  vl_address :: string
  vl_topic0 :: string
  vl_block :: int
  vl_index :: int
  vl_tx :: string
  vl_args :: "log_args option"

record index_env =
  ie_vault :: string
  ie_names :: "(string \<times> string) list"
  ie_head :: "string + int"
  ie_combined :: "int \<Rightarrow> int \<Rightarrow> string + vault_log list option"
  ie_scan :: "int \<Rightarrow> int \<Rightarrow> string + vault_log list"
  ie_block_ts :: "int \<Rightarrow> string + int option"

record event_row =
  er_tx :: string
  er_depositor :: "string option"
  er_ts :: "int option"
  er_args :: json_args

type_synonym event_table = "((string \<times> int \<times> int) \<times> event_row) list"

record event_db =
  vault_events :: event_table
  event_last_block :: "int option"

record event_index =
  ei_db :: "event_db option"
  ei_last_block :: int
  ei_ready :: bool

definition new_event_index :: "int \<Rightarrow> event_db option \<Rightarrow> event_index" where
  "new_event_index deployBlock db =
     \<lparr>ei_db = db,
      ei_last_block = (case Option.bind db event_last_block of
         Some b \<Rightarrow> b | None \<Rightarrow> max 0 (deployBlock - 1)),
      ei_ready = False\<rparr>"

definition index_isReady :: "event_index \<Rightarrow> bool" where
  "index_isReady s \<longleftrightarrow> ei_ready s \<and> ei_db s \<noteq> None"

definition headBlock :: "event_index \<Rightarrow> int" where
  "headBlock s = ei_last_block s"

subsection \<open>Synchronisation\<close>

definition index_window_logs :: "index_env \<Rightarrow> int \<Rightarrow> int \<Rightarrow> string + vault_log list" where
  "index_window_logs env lo hi =
     (case ie_combined env lo hi of
        Inl e \<Rightarrow> Inl e
      | Inr (Some ls) \<Rightarrow> Inr (filter (\<lambda>l. lower (vl_address l) = lower (ie_vault env) \<and>
                                     map_of (ie_names env) (vl_topic0 l) \<noteq> None) ls)
      | Inr None \<Rightarrow> ie_scan env lo hi)"

definition decode_log :: "index_env \<Rightarrow> vault_log \<Rightarrow> IndexedEvent option" where
  "decode_log env l =
     (case map_of (ie_names env) (vl_topic0 l) of
        None \<Rightarrow> None
      | Some name \<Rightarrow>
          if name = '''' then None
          else (case vl_args l of
             None \<Rightarrow> None
           | Some a \<Rightarrow> Some \<lparr>ev_type = name, ev_block = vl_block l, ev_log = vl_index l,
               ev_tx = vl_tx l, ev_args = serializeArgs name a\<rparr>))"

definition block_ts :: "index_env \<Rightarrow> int \<Rightarrow> int option" where
  "block_ts env bn = (case ie_block_ts env bn of Inl _ \<Rightarrow> None | Inr t \<Rightarrow> t)"

fun js_json :: "json option \<Rightarrow> string" where
  "js_json (Some (JStr s)) = s"
| "js_json (Some (JBool b)) = (if b then ''true'' else ''false'')"
| "js_json (Some (JArr _)) = ''[object]''"
| "js_json None = ''undefined''"

definition row_of :: "index_env \<Rightarrow> IndexedEvent \<Rightarrow> event_row" where
  "row_of env e =
     \<lparr>er_tx = ev_tx e,
      er_depositor = (if ev_type e = ''Deposited''
        then Some (lower (js_json (map_of (ev_args e) ''depositor''))) else None),
      er_ts = block_ts env (ev_block e), er_args = ev_args e\<rparr>"

definition key_of :: "IndexedEvent \<Rightarrow> string \<times> int \<times> int" where
  "key_of e = (ev_type e, ev_block e, ev_log e)"

definition insert_events :: "index_env \<Rightarrow> IndexedEvent list \<Rightarrow> event_table \<Rightarrow> event_table" where
  "insert_events env es tab = foldl (\<lambda>t e. insert_ignore (key_of e) (row_of env e) t) tab es"

function index_windows :: "index_env \<Rightarrow> int \<Rightarrow> int \<Rightarrow> event_db \<Rightarrow> int \<Rightarrow> string option \<times> event_db \<times> int" where
  "index_windows env cursor target d lastb =
     (if cursor \<le> target then
        let windowEnd = min (cursor + INDEX_SCAN_WINDOW - 1) target in
        case index_window_logs env cursor windowEnd of
          Inl e \<Rightarrow> (Some e, d, lastb)
        | Inr logs \<Rightarrow>
            index_windows env (windowEnd + 1) target
              \<lparr>vault_events = insert_events env (List.map_filter (decode_log env) logs) (vault_events d),
               event_last_block = Some windowEnd\<rparr> windowEnd
      else (None, d, lastb))"
  by pat_completeness auto
termination
  by (relation "measure (\<lambda>(env, cursor, target, d, l). nat (target + 1 - cursor))")
    (auto simp: INDEX_SCAN_WINDOW_def)

declare index_windows.simps [simp del]

definition index_sync :: "index_env \<Rightarrow> event_index \<Rightarrow> string option \<times> event_index" where
  "index_sync env s =
     (case ei_db s of
        None \<Rightarrow> (None, s)
      | Some d \<Rightarrow>
          (case ie_head env of
             Inl e \<Rightarrow> (Some e, s)
           | Inr head \<Rightarrow>
               let target = head - INDEX_CONFIRMATIONS in
               if target \<le> ei_last_block s then (None, s)
               else let (err, d', lastb) = index_windows env (ei_last_block s + 1) target d (ei_last_block s)
                    in (err, s\<lparr>ei_db := Some d', ei_last_block := lastb\<rparr>)))"

definition index_syncNow :: "index_env \<Rightarrow> event_index \<Rightarrow> event_index" where
  "index_syncNow env s = (if \<not> ei_ready s \<or> ei_db s = None then s else snd (index_sync env s))"

definition index_catchUp :: "index_env \<Rightarrow> event_index \<Rightarrow> string option \<times> event_index" where
  "index_catchUp env s =
     (case index_sync env s of
        (Some e, s') \<Rightarrow> (Some e, s')
      | (None, s') \<Rightarrow> (None, s'\<lparr>ei_ready := True\<rparr>))"

subsection \<open>Queries\<close>

definition event_of :: "(string \<times> int \<times> int) \<times> event_row \<Rightarrow> IndexedEvent" where
  "event_of = (\<lambda>((ty, b, i), r). \<lparr>ev_type = ty, ev_block = b, ev_log = i, ev_tx = er_tx r, ev_args = er_args r\<rparr>)"

definition by_position :: "event_table \<Rightarrow> event_table" where
  "by_position rows = sort_key (\<lambda>((ty, b, i), r). (b, i)) rows"

definition rows_in :: "event_index \<Rightarrow> event_table" where
  "rows_in s = (case ei_db s of None \<Rightarrow> [] | Some d \<Rightarrow> vault_events d)"

definition betAuthorizedEvents :: "int \<Rightarrow> int \<Rightarrow> event_index \<Rightarrow> IndexedEvent list" where
  "betAuthorizedEvents fromBlock toBlock s =
     map event_of (by_position (filter (\<lambda>((ty, b, i), r). ty = ''BetAuthorized'' \<and> b \<ge> fromBlock \<and> b \<le> toBlock)
       (rows_in s)))"

definition recoveryData :: "string \<Rightarrow> event_index \<Rightarrow> IndexedEvent list \<times> IndexedEvent list" where
  "recoveryData depositor s =
     (let dep = lower depositor in
      (map event_of (by_position (filter (\<lambda>((ty, b, i), r). ty = ''Deposited'' \<and> er_depositor r = Some dep) (rows_in s))),
       map event_of (by_position (filter (\<lambda>((ty, b, i), r). ty \<noteq> ''Deposited'') (rows_in s)))))"

definition resolvedMarketIds :: "event_index \<Rightarrow> string list" where
  "resolvedMarketIds s =
     foldl (\<lambda>out (k, r). case map_of (er_args r) ''market_id'' of
              Some (JStr m) \<Rightarrow> if m \<noteq> '''' then set_add m out else out
            | _ \<Rightarrow> out)
       [] (filter (\<lambda>((ty, b, i), r). ty = ''MarketResolved'') (rows_in s))"

definition allEvents :: "nat \<Rightarrow> event_index \<Rightarrow> (IndexedEvent \<times> int option) list" where
  "allEvents limit s = take limit (map (\<lambda>row. (event_of row, er_ts (snd row))) (rev (by_position (rows_in s))))"

definition blockTimestamps :: "int list \<Rightarrow> event_index \<Rightarrow> (int \<times> int) list" where
  "blockTimestamps blocks s =
     foldl (\<lambda>out b. case List.find (\<lambda>((ty, b', i), r). b' = b \<and> er_ts r \<noteq> None) (rows_in s) of
              Some ((ty, b', i), r) \<Rightarrow> AList.update b' (the (er_ts r)) out
            | None \<Rightarrow> out) [] blocks"

subsection \<open>The signing layer's view\<close>

record BetAuthorizedRecord =
  br_nullifier :: string
  br_market_id :: string
  br_position_id :: string
  br_expected_shares :: nat
  br_bet_amount :: nat
  br_price :: nat
  br_outcome_side :: nat
  br_new_commitment :: string
  br_block :: int
  br_tx :: string

text \<open>
  \<open>recordFromIndex\<close>: a number that does not parse throws (\<open>None\<close>).  The index
  sends decimal strings, on which \<open>Number\<close> and \<open>BigInt\<close> agree.
\<close>

definition recordFromIndex :: "IndexedEvent \<Rightarrow> BetAuthorizedRecord option" where
  "recordFromIndex e =
     (let s = (\<lambda>k. js_json (map_of (ev_args e) k))
      in case (BigInt (s ''expected_shares''), BigInt (s ''bet_amount''), BigInt (s ''price''), BigInt (s ''outcome_side'')) of
           (Some es, Some ba, Some p, Some os) \<Rightarrow>
             Some \<lparr>br_nullifier = s ''nullifier'', br_market_id = s ''market_id'', br_position_id = s ''position_id'',
               br_expected_shares = es, br_bet_amount = ba, br_price = p, br_outcome_side = os,
               br_new_commitment = s ''new_commitment'', br_block = ev_block e, br_tx = ev_tx e\<rparr>
         | _ \<Rightarrow> None)"

text \<open>\<open>recordsFromChainLogs\<close>, one log: the decoded tuple in the order of the event.\<close>

fun sol_num :: "sol_value \<Rightarrow> nat" where
  "sol_num (SNum n) = n"
| "sol_num _ = 0"

fun sol_str :: "sol_value \<Rightarrow> string" where
  "sol_str (SStr s) = s"
| "sol_str _ = ''''"

definition recordFromChainLog :: "vault_log \<Rightarrow> BetAuthorizedRecord option" where
  "recordFromChainLog l =
     (case vl_args l of
        None \<Rightarrow> None
      | Some a \<Rightarrow> Some \<lparr>br_nullifier = sol_str (snd (a ! 0)), br_market_id = sol_str (snd (a ! 1)),
          br_position_id = sol_str (snd (a ! 2)), br_expected_shares = sol_num (snd (a ! 3)),
          br_bet_amount = sol_num (snd (a ! 4)), br_price = sol_num (snd (a ! 5)),
          br_outcome_side = sol_num (snd (a ! 6)), br_new_commitment = sol_str (snd (a ! 7)),
          br_block = vl_block l, br_tx = vl_tx l\<rparr>)"

datatype event_source = FromIndex | FromChain

text \<open>
  What the relay answers, as the signing layer sees it: an exception, or the
  parsed body.  \<open>url\<close> says whether a relay is configured.
\<close>

definition indexHead :: "bool \<Rightarrow> string + (bool \<times> int option) \<Rightarrow> int option" where
  "indexHead url reply =
     (if \<not> url then None
      else case reply of Inr (ready, Some h) \<Rightarrow> if ready then Some h else None | _ \<Rightarrow> None)"

definition scanHead :: "bool \<Rightarrow> string + (bool \<times> int option) \<Rightarrow> string + int \<Rightarrow> string + int \<times> event_source" where
  "scanHead url reply chain_head =
     (case indexHead url reply of
        Some h \<Rightarrow> Inr (h, FromIndex)
      | None \<Rightarrow> bind_sum chain_head (\<lambda>h. Inr (h, FromChain)))"

fun all_some :: "'a option list \<Rightarrow> 'a list option" where
  "all_some [] = Some []"
| "all_some (None # xs) = None"
| "all_some (Some x # xs) = map_option ((#) x) (all_some xs)"

definition fetchBetAuthorized :: "bool \<Rightarrow> (int \<Rightarrow> int \<Rightarrow> string + IndexedEvent list)
    \<Rightarrow> (int \<Rightarrow> int \<Rightarrow> string + vault_log list) \<Rightarrow> int \<Rightarrow> int \<Rightarrow> bool
    \<Rightarrow> string + BetAuthorizedRecord list \<times> event_source" where
  "fetchBetAuthorized url relay query fromBlock toBlock preferIndex =
     (let chain = bind_sum (query fromBlock toBlock)
                    (\<lambda>logs. Inr (List.map_filter recordFromChainLog logs, FromChain))
      in if preferIndex \<and> url then
           (case relay fromBlock toBlock of
              Inr es \<Rightarrow> (case all_some (map recordFromIndex es) of
                 Some rs \<Rightarrow> Inr (rs, FromIndex) | None \<Rightarrow> chain)
            | Inl _ \<Rightarrow> chain)
         else chain)"

definition fetchAllBetAuthorized :: "bool \<Rightarrow> string + (bool \<times> int option) \<Rightarrow> (int \<Rightarrow> int \<Rightarrow> string + IndexedEvent list)
    \<Rightarrow> string + int \<Rightarrow> (int \<Rightarrow> int \<Rightarrow> string + vault_log list) \<Rightarrow> int \<Rightarrow> string + BetAuthorizedRecord list" where
  "fetchAllBetAuthorized url reply relay chain_head query fromBlock =
     (let chain = bind_sum chain_head (\<lambda>latest. bind_sum (query fromBlock latest)
                    (\<lambda>logs. Inr (List.map_filter recordFromChainLog logs)))
      in case indexHead url reply of
           Some h \<Rightarrow>
             (case relay fromBlock h of
                Inr es \<Rightarrow> (case all_some (map recordFromIndex es) of Some rs \<Rightarrow> Inr rs | None \<Rightarrow> chain)
              | Inl _ \<Rightarrow> chain)
         | None \<Rightarrow> chain)"

end
