(* ===== verification/Event_Index_Props.thy ===== *)
theory Event_Index_Props
  imports Event_Index
begin

section \<open>The index mirrors the chain\<close>

text \<open>
  The invariant of the event index against the vault's log on the chain: up to
  the block of its cursor the table holds exactly the decoded events.  It holds
  after every synchronisation, failed ones included, and the queries are read off
  it.
\<close>

subsection \<open>The chain and the invariant\<close>

definition chain_events :: "index_env \<Rightarrow> vault_log list \<Rightarrow> IndexedEvent set" where
  "chain_events env lg = {e. \<exists>l \<in> set lg. decode_log env l = Some e}"

definition events_upto :: "index_env \<Rightarrow> vault_log list \<Rightarrow> int \<Rightarrow> IndexedEvent set" where
  "events_upto env lg b = {e \<in> chain_events env lg. ev_block e \<le> b}"

text \<open>
  The node tells the truth: the logs it returns for a range are the vault's logs of
  that range (in any order, with repetitions or other contracts' logs that do not
  decode).  Block and log index identify an event.
\<close>

definition truthful_index :: "index_env \<Rightarrow> vault_log list \<Rightarrow> bool" where
  "truthful_index env lg \<longleftrightarrow>
     inj_on key_of (chain_events env lg) \<and>
     (\<forall>lo hi logs. index_window_logs env lo hi = Inr logs \<longrightarrow>
        set (List.map_filter (decode_log env) logs) = {e \<in> chain_events env lg. lo \<le> ev_block e \<and> ev_block e \<le> hi})"

definition entry_of :: "index_env \<Rightarrow> IndexedEvent \<Rightarrow> (string \<times> int \<times> int) \<times> event_row" where
  "entry_of env e = (key_of e, row_of env e)"

definition mirrors :: "index_env \<Rightarrow> vault_log list \<Rightarrow> int \<Rightarrow> event_table \<Rightarrow> bool" where
  "mirrors env lg b tab \<longleftrightarrow>
     set tab = entry_of env ` events_upto env lg b \<and> distinct (map fst tab)"

definition index_inv :: "index_env \<Rightarrow> vault_log list \<Rightarrow> event_index \<Rightarrow> bool" where
  "index_inv env lg s \<longleftrightarrow> (\<exists>d. ei_db s = Some d \<and> mirrors env lg (ei_last_block s) (vault_events d))"

lemma event_of_entry [simp]: "event_of (entry_of env e) = e"
  by (simp add: event_of_def entry_of_def key_of_def row_of_def)

lemma insert_events_set:
  assumes "distinct (map fst tab)" and "set tab \<subseteq> entry_of env ` D" and "set es \<subseteq> D" and "inj_on key_of D"
  shows "set (insert_events env es tab) = set tab \<union> entry_of env ` set es \<and>
    distinct (map fst (insert_events env es tab))"
  using assms
proof (induction es arbitrary: tab)
  case Nil
  then show ?case by (simp add: insert_events_def)
next
  case (Cons e es)
  let ?t = "insert_ignore (key_of e) (row_of env e) tab"
  have "set ?t = insert (entry_of env e) (set tab)"
  proof (cases "map_of tab (key_of e)")
    case None
    then show ?thesis by (auto simp: insert_ignore_def entry_of_def)
  next
    case (Some r)
    then have "(key_of e, r) \<in> set tab" by (rule map_of_SomeD)
    then obtain e' where e': "e' \<in> D" "(key_of e, r) = entry_of env e'" using Cons.prems(2) by blast
    then have "e' = e" using Cons.prems(3,4) by (auto simp: entry_of_def dest: inj_onD)
    with e' \<open>(key_of e, r) \<in> set tab\<close> have "entry_of env e \<in> set tab" by simp
    with Some show ?thesis by (auto simp: insert_ignore_def)
  qed
  moreover have "distinct (map fst ?t)" by (rule distinct_keys_insert_ignore [OF Cons.prems(1)])
  moreover have "insert_events env (e # es) tab = insert_events env es ?t"
    by (simp add: insert_events_def)
  ultimately show ?case
    using Cons.IH [of ?t] Cons.prems(2-4) by auto
qed

lemma mirrors_window:
  assumes "truthful_index env lg" and "mirrors env lg (cursor - 1) tab"
    and "index_window_logs env cursor hi = Inr logs" and "cursor \<le> hi + 1"
  shows "mirrors env lg hi (insert_events env (List.map_filter (decode_log env) logs) tab)"
proof -
  let ?es = "List.map_filter (decode_log env) logs"
  have es: "set ?es = {e \<in> chain_events env lg. cursor \<le> ev_block e \<and> ev_block e \<le> hi}"
    using assms(1,3) by (simp add: truthful_index_def)
  have "set (insert_events env ?es tab) = set tab \<union> entry_of env ` set ?es \<and>
      distinct (map fst (insert_events env ?es tab))"
    by (rule insert_events_set [where D = "chain_events env lg"])
      (use assms(1,2) es in \<open>auto simp: mirrors_def events_upto_def truthful_index_def\<close>)
  moreover have "events_upto env lg (cursor - 1) \<union> set ?es = events_upto env lg hi"
    using assms(4) unfolding es events_upto_def by auto
  ultimately show ?thesis using assms(2) unfolding mirrors_def by (metis image_Un)
qed

lemma index_windows_mirror:
  assumes "truthful_index env lg" and "mirrors env lg lastb (vault_events d)" and "lastb = cursor - 1"
    and "cursor \<le> target + 1" and "index_windows env cursor target d lastb = (err, d', last')"
  shows "mirrors env lg last' (vault_events d') \<and> lastb \<le> last' \<and> (err = None \<longrightarrow> last' = target)"
  using assms
proof (induction env cursor target d lastb rule: index_windows.induct)
  case (1 env cursor target d lastb)
  let ?W = "min (cursor + INDEX_SCAN_WINDOW - 1) target"
  show ?case
  proof (cases "cursor \<le> target")
    case False
    then have "target = cursor - 1" using "1.prems"(4) by simp
    then show ?thesis using "1.prems" by (auto simp: index_windows.simps [of env cursor])
  next
    case True
    show ?thesis
    proof (cases "index_window_logs env cursor ?W")
      case (Inl e)
      then show ?thesis using "1.prems" True by (auto simp: index_windows.simps [of env cursor] Let_def)
    next
      case (Inr logs)
      let ?d = "\<lparr>vault_events = insert_events env (List.map_filter (decode_log env) logs) (vault_events d),
          event_last_block = Some ?W\<rparr>"
      have W: "cursor \<le> ?W" using True by (simp add: INDEX_SCAN_WINDOW_def)
      have "mirrors env lg ?W (vault_events ?d)"
        using mirrors_window [OF "1.prems"(1) _ Inr] "1.prems"(2,3) W by simp
      moreover have "index_windows env (?W + 1) target ?d ?W = (err, d', last')"
        using "1.prems"(5) True Inr by (simp add: index_windows.simps [of env cursor] Let_def)
      ultimately show ?thesis
        using "1.IH" [OF True refl Inr "1.prems"(1)] "1.prems"(3) W by auto
    qed
  qed
qed

lemma index_sync_mirror:
  assumes "index_inv env lg s" and "truthful_index env lg" and "index_sync env s = (err, s')"
  shows "index_inv env lg s' \<and> headBlock s \<le> headBlock s' \<and>
    (\<forall>head. err = None \<longrightarrow> ie_head env = Inr head \<longrightarrow>
       headBlock s' = max (headBlock s) (head - INDEX_CONFIRMATIONS))"
proof -
  obtain d where d: "ei_db s = Some d" "mirrors env lg (ei_last_block s) (vault_events d)"
    using assms(1) by (auto simp: index_inv_def)
  show ?thesis
  proof (cases "\<exists>head. ie_head env = Inr head \<and> ei_last_block s < head - INDEX_CONFIRMATIONS")
    case False
    then have "s' = s" using assms(3) d(1)
      by (auto simp: index_sync_def Let_def split: sum.splits if_splits)
    with False assms(1) show ?thesis by (auto simp: headBlock_def max_def)
  next
    case True
    then obtain head where h: "ie_head env = Inr head" "ei_last_block s < head - INDEX_CONFIRMATIONS" by blast
    obtain e d' l' where w: "index_windows env (ei_last_block s + 1) (head - INDEX_CONFIRMATIONS) d (ei_last_block s) = (e, d', l')"
      by (metis prod_cases3)
    then have s': "s' = s\<lparr>ei_db := Some d', ei_last_block := l'\<rparr>" "err = e"
      using assms(3) d(1) h by (auto simp: index_sync_def Let_def)
    have "mirrors env lg l' (vault_events d') \<and> ei_last_block s \<le> l' \<and> (e = None \<longrightarrow> l' = head - INDEX_CONFIRMATIONS)"
      by (rule index_windows_mirror [OF assms(2) d(2) _ _ w]) (use h in simp_all)
    then show ?thesis using s' h by (auto simp: index_inv_def headBlock_def)
  qed
qed

subsection \<open>Reading bets from the index\<close>

text \<open>The decoded arguments of \<open>BetAuthorized\<close>, in the order of the event.\<close>

definition bet_args :: "string \<Rightarrow> string \<Rightarrow> string \<Rightarrow> nat \<Rightarrow> nat \<Rightarrow> nat \<Rightarrow> nat \<Rightarrow> string \<Rightarrow> nat \<Rightarrow> nat \<Rightarrow> log_args" where
  "bet_args n m p es ba pr os nc pf rf =
     [(''nullifier'', SStr n), (''market_id'', SStr m), (''position_id'', SStr p), (''expected_shares'', SNum es),
      (''bet_amount'', SNum ba), (''price'', SNum pr), (''outcome_side'', SNum os), (''new_commitment'', SStr nc),
      (''protocolFee'', SNum pf), (''relayFee'', SNum rf)]"

definition is_bet_log :: "index_env \<Rightarrow> vault_log \<Rightarrow> bool" where
  "is_bet_log env l \<longleftrightarrow> map_of (ie_names env) (vl_topic0 l) = Some ''BetAuthorized''"

definition well_formed_bets :: "index_env \<Rightarrow> vault_log list \<Rightarrow> bool" where
  "well_formed_bets env lg \<longleftrightarrow> (\<forall>l \<in> set lg. is_bet_log env l \<longrightarrow>
     (\<exists>n m p es ba pr os nc pf rf. vl_args l = Some (bet_args n m p es ba pr os nc pf rf)))"

definition chain_query :: "index_env \<Rightarrow> vault_log list \<Rightarrow> int \<Rightarrow> int \<Rightarrow> vault_log list" where
  "chain_query env lg lo hi = filter (\<lambda>l. is_bet_log env l \<and> lo \<le> vl_block l \<and> vl_block l \<le> hi) lg"

lemma record_agrees:
  assumes "is_bet_log env l" and "vl_args l = Some (bet_args n m p es ba pr os nc pf rf)"
  shows "\<exists>e. decode_log env l = Some e \<and> ev_type e = ''BetAuthorized'' \<and> ev_block e = vl_block l \<and>
    recordFromIndex e = recordFromChainLog l \<and> recordFromChainLog l \<noteq> None"
proof -
  let ?a = "bet_args n m p es ba pr os nc pf rf"
  have s: "serializeArgs ''BetAuthorized'' ?a =
      [(''nullifier'', JStr n), (''market_id'', JStr m), (''position_id'', JStr p),
       (''expected_shares'', JStr (to_string10 es)), (''bet_amount'', JStr (to_string10 ba)),
       (''price'', JStr (to_string10 pr)), (''outcome_side'', JStr (to_string10 os)), (''new_commitment'', JStr nc),
       (''protocolFee'', JStr (to_string10 pf)), (''relayFee'', JStr (to_string10 rf))]"
    by (simp add: serializeArgs_def strings_of_def fld_def bet_args_def)
  have "decode_log env l = Some \<lparr>ev_type = ''BetAuthorized'', ev_block = vl_block l, ev_log = vl_index l,
      ev_tx = vl_tx l, ev_args = serializeArgs ''BetAuthorized'' ?a\<rparr>"
    using assms by (simp add: decode_log_def is_bet_log_def)
  then show ?thesis
    unfolding s using assms(2)
    by (simp add: recordFromIndex_def recordFromChainLog_def bet_args_def)
qed

lemma all_some_map: "\<forall>x \<in> set xs. f x \<noteq> None \<Longrightarrow> all_some (map f xs) = Some (map (\<lambda>x. the (f x)) xs)"
  by (induction xs) auto

text \<open>Every query reads the events it selects, in the order of the chain.\<close>

lemma set_query:
  assumes "index_inv env lg s"
  shows "set (map event_of (by_position (filter P (rows_in s)))) =
    {e \<in> events_upto env lg (headBlock s). P (entry_of env e)}"
proof -
  have rows: "set (rows_in s) = entry_of env ` events_upto env lg (headBlock s)"
    using assms by (auto simp: index_inv_def rows_in_def mirrors_def headBlock_def)
  have "set (map event_of (by_position (filter P (rows_in s)))) =
      event_of ` {x \<in> entry_of env ` events_upto env lg (headBlock s). P x}"
    by (simp add: by_position_def rows)
  also have "{x \<in> entry_of env ` events_upto env lg (headBlock s). P x} =
      entry_of env ` {e \<in> events_upto env lg (headBlock s). P (entry_of env e)}" by blast
  finally show ?thesis by (simp add: image_image)
qed

lemma sorted_query:
  "sorted (map (\<lambda>e. (ev_block e, ev_log e)) (map event_of (by_position t)))"
proof -
  have pos: "(\<lambda>e. (ev_block e, ev_log e)) \<circ> event_of = (\<lambda>((ty, b, i), r). (b, i))"
    by (auto simp: event_of_def)
  show ?thesis unfolding map_map pos by_position_def by (rule sorted_sort_key)
qed

lemma bet_events:
  assumes "index_inv env lg s" and "hi \<le> headBlock s"
  shows "set (betAuthorizedEvents lo hi s) =
    {e \<in> chain_events env lg. ev_type e = ''BetAuthorized'' \<and> lo \<le> ev_block e \<and> ev_block e \<le> hi}"
proof -
  have "set (betAuthorizedEvents lo hi s) = {e \<in> events_upto env lg (headBlock s).
      ev_type e = ''BetAuthorized'' \<and> lo \<le> ev_block e \<and> ev_block e \<le> hi}"
    unfolding betAuthorizedEvents_def set_query [OF assms(1)]
    by (rule Collect_cong) (simp only: entry_of_def key_of_def prod.case)
  also have "\<dots> = {e \<in> chain_events env lg. ev_type e = ''BetAuthorized'' \<and> lo \<le> ev_block e \<and> ev_block e \<le> hi}"
    unfolding events_upto_def using assms(2) order_trans by blast
  finally show ?thesis .
qed

lemma index_and_chain_agree:
  assumes "index_inv env lg s" and "well_formed_bets env lg" and "hi \<le> headBlock s"
  shows "\<exists>rs. all_some (map recordFromIndex (betAuthorizedEvents lo hi s)) = Some rs \<and>
    set rs = set (List.map_filter recordFromChainLog (chain_query env lg lo hi))"
proof -
  let ?es = "betAuthorizedEvents lo hi s"
  have agree: "\<exists>e. decode_log env l = Some e \<and> ev_type e = ''BetAuthorized'' \<and> ev_block e = vl_block l \<and>
      recordFromIndex e = recordFromChainLog l \<and> recordFromChainLog l \<noteq> None"
    if "l \<in> set lg" "is_bet_log env l" for l
  proof -
    have "\<exists>n m p es ba pr os nc pf rf. vl_args l = Some (bet_args n m p es ba pr os nc pf rf)"
      using bspec [OF assms(2) [unfolded well_formed_bets_def] that(1)] that(2) by (rule mp)
    then show ?thesis by (elim exE) (rule record_agrees [OF that(2)])
  qed
  have src: "\<exists>l \<in> set (chain_query env lg lo hi). decode_log env l = Some e" if "e \<in> set ?es" for e
  proof -
    from that bet_events [OF assms(1,3)] obtain l where l: "l \<in> set lg" "decode_log env l = Some e"
      "ev_type e = ''BetAuthorized''" "lo \<le> ev_block e" "ev_block e \<le> hi"
      by (auto simp: chain_events_def)
    then have "is_bet_log env l" "ev_block e = vl_block l"
      by (auto simp: decode_log_def is_bet_log_def split: option.splits if_splits)
    with l show ?thesis by (auto simp: chain_query_def)
  qed
  have tgt: "\<exists>e \<in> set ?es. decode_log env l = Some e" if "l \<in> set (chain_query env lg lo hi)" for l
  proof -
    have l: "l \<in> set lg" "is_bet_log env l" "lo \<le> vl_block l" "vl_block l \<le> hi"
      using that by (auto simp: chain_query_def)
    then show ?thesis using agree [OF l(1,2)] bet_events [OF assms(1,3)] by (auto simp: chain_events_def)
  qed
  have some: "\<forall>e \<in> set ?es. recordFromIndex e \<noteq> None"
    using src agree by (fastforce simp: chain_query_def)
  have "set (map (\<lambda>e. the (recordFromIndex e)) ?es) = {r. \<exists>e \<in> set ?es. recordFromIndex e = Some r}"
    using some by force
  also have "\<dots> = {r. \<exists>l \<in> set (chain_query env lg lo hi). recordFromChainLog l = Some r}"
  proof (intro Collect_cong iffI)
    fix r assume "\<exists>e \<in> set ?es. recordFromIndex e = Some r"
    then obtain e where e: "e \<in> set ?es" "recordFromIndex e = Some r" by blast
    then obtain l where l: "l \<in> set (chain_query env lg lo hi)" "decode_log env l = Some e" using src by blast
    then show "\<exists>l \<in> set (chain_query env lg lo hi). recordFromChainLog l = Some r"
      using agree [of l] e(2) by (auto simp: chain_query_def)
  next
    fix r assume "\<exists>l \<in> set (chain_query env lg lo hi). recordFromChainLog l = Some r"
    then obtain l where l: "l \<in> set (chain_query env lg lo hi)" "recordFromChainLog l = Some r" by blast
    obtain e where e: "e \<in> set ?es" "decode_log env l = Some e" using tgt [OF l(1)] by blast
    then show "\<exists>e \<in> set ?es. recordFromIndex e = Some r"
      using agree [of l] l by (auto simp: chain_query_def)
  qed
  also have "\<dots> = set (List.map_filter recordFromChainLog (chain_query env lg lo hi))"
    by (force simp: map_filter_def)
  finally show ?thesis using all_some_map [OF some] by blast
qed

subsection \<open>Claims\<close>

definition demo_deposit :: "string \<Rightarrow> int \<Rightarrow> vault_log" where
  "demo_deposit who b = \<lparr>vl_address = ''0xV'', vl_topic0 = ''0x1'', vl_block = b, vl_index = 0, vl_tx = ''0xt'',
     vl_args = Some [(''depositor'', SStr who), (''commitment'', SStr ''0xc''), (''amount'', SNum 5)]\<rparr>"

definition demo_logs :: "vault_log list" where "demo_logs = [demo_deposit ''0xa'' 4, demo_deposit ''0xb'' 9]"

definition demo_index_env :: index_env where
  "demo_index_env = \<lparr>ie_vault = ''0xV'', ie_names = [(''0x1'', ''Deposited'')], ie_head = Inr 20,
     ie_combined = (\<lambda>lo hi. Inr None),
     ie_scan = (\<lambda>lo hi. Inr (filter (\<lambda>l. lo \<le> vl_block l \<and> vl_block l \<le> hi) demo_logs)),
     ie_block_ts = (\<lambda>b. Inr (Some b))\<rparr>"

definition demo_event :: "string \<Rightarrow> int \<Rightarrow> IndexedEvent" where
  "demo_event who b = \<lparr>ev_type = ''Deposited'', ev_block = b, ev_log = 0, ev_tx = ''0xt'',
     ev_args = [(''depositor'', JStr who), (''commitment'', JStr ''0xc''), (''amount'', JStr ''5'')]\<rparr>"

lemma demo_decode: "decode_log demo_index_env (demo_deposit who b) = Some (demo_event who b)"
  by (simp add: demo_event_def decode_log_def demo_index_env_def demo_deposit_def serializeArgs_def strings_of_def fld_def
      to_string10.simps [of 5] hex_char_def) code_simp

lemma demo_chain_events: "chain_events demo_index_env demo_logs = {demo_event ''0xa'' 4, demo_event ''0xb'' 9}"
  by (auto simp: chain_events_def demo_logs_def demo_decode)

lemma demo_index_truthful: "truthful_index demo_index_env demo_logs"
proof -
  have b: "vl_block (demo_deposit who b) = b" "ev_block (demo_event who b) = b" for who b
    by (simp_all add: demo_deposit_def demo_event_def)
  have "set (List.map_filter (decode_log demo_index_env) (filter (\<lambda>l. lo \<le> vl_block l \<and> vl_block l \<le> hi) demo_logs)) =
      {e \<in> chain_events demo_index_env demo_logs. lo \<le> ev_block e \<and> ev_block e \<le> hi}" for lo hi
    unfolding demo_chain_events by (auto simp: demo_logs_def map_filter_simps demo_decode b)
  moreover have "inj_on key_of (chain_events demo_index_env demo_logs)"
    unfolding demo_chain_events by (simp add: key_of_def demo_event_def)
  ultimately show ?thesis
    by (auto simp: truthful_index_def index_window_logs_def demo_index_env_def)
qed

lemma demo_index_start: "index_inv demo_index_env demo_logs
    (new_event_index 1 (Some \<lparr>vault_events = [], event_last_block = None\<rparr>))"
  unfolding index_inv_def mirrors_def events_upto_def demo_chain_events
  by (auto simp: new_event_index_def demo_event_def)

definition demo_synced :: event_index where
  "demo_synced = snd (index_sync demo_index_env (new_event_index 1 (Some \<lparr>vault_events = [], event_last_block = None\<rparr>)))"

lemma demo_sync_ok: "index_sync demo_index_env (new_event_index 1 (Some \<lparr>vault_events = [], event_last_block = None\<rparr>)) = (None, demo_synced)"
proof -
  let ?s = "new_event_index 1 (Some \<lparr>vault_events = [], event_last_block = None\<rparr>)"
  have "fst (index_sync demo_index_env ?s) = None"
    by (simp add: index_sync_def new_event_index_def demo_index_env_def INDEX_CONFIRMATIONS_def
        index_windows.simps INDEX_SCAN_WINDOW_def index_window_logs_def Let_def)
  then show ?thesis by (simp add: demo_synced_def prod_eq_iff)
qed

lemma demo_synced_inv: "index_inv demo_index_env demo_logs demo_synced"
  using index_sync_mirror [OF demo_index_start demo_index_truthful demo_sync_ok] by blast

lemma demo_synced_head: "headBlock demo_synced = 17"
  using index_sync_mirror [OF demo_index_start demo_index_truthful demo_sync_ok]
  by (auto simp: demo_index_env_def INDEX_CONFIRMATIONS_def headBlock_def new_event_index_def)

text \<open>
  After every synchronisation the event table holds exactly the vault's events
  up to the cursor, each once, whether the run completed or an RPC error cut it
  short after some windows; a run that reports no error has its cursor at the
  confirmed head (or where it was, when that is behind).
\<close>

lemma index_mirrors_chain:
  assumes "index_inv env lg s" and "truthful_index env lg" and "index_sync env s = (err, s')"
  shows "index_inv env lg s' \<and> headBlock s \<le> headBlock s' \<and>
    (\<forall>head. err = None \<longrightarrow> ie_head env = Inr head \<longrightarrow>
       headBlock s' = max (headBlock s) (head - INDEX_CONFIRMATIONS))"
  by (rule index_sync_mirror [OF assms])

lemma index_mirrors_chain_witness: "headBlock demo_synced = max 0 (20 - 3)"
  using index_mirrors_chain [OF demo_index_start demo_index_truthful demo_sync_ok]
  by (auto simp: demo_index_env_def INDEX_CONFIRMATIONS_def headBlock_def new_event_index_def)

text \<open>
  Recovery loses nothing and leaks nothing.  The payload for a wallet is
  exactly its own deposits and all other events of the vault up to the cursor,
  with the arguments the chain has, in the order of the chain; no other wallet's
  deposit is in it.
\<close>

lemma recovery_payload_exact:
  assumes "index_inv env lg s" and "recoveryData dep s = (deposits, spends)"
  shows "set deposits = {e \<in> events_upto env lg (headBlock s). ev_type e = ''Deposited'' \<and>
      lower (js_json (map_of (ev_args e) ''depositor'')) = lower dep} \<and>
    set spends = {e \<in> events_upto env lg (headBlock s). ev_type e \<noteq> ''Deposited''} \<and>
    sorted (map (\<lambda>e. (ev_block e, ev_log e)) deposits) \<and> sorted (map (\<lambda>e. (ev_block e, ev_log e)) spends)"
proof -
  have dep: "deposits = map event_of (by_position (filter (\<lambda>((ty, b, i), r). ty = ''Deposited'' \<and> er_depositor r = Some (lower dep)) (rows_in s)))"
    and sp: "spends = map event_of (by_position (filter (\<lambda>((ty, b, i), r). ty \<noteq> ''Deposited'') (rows_in s)))"
    using assms(2) by (simp_all add: recoveryData_def Let_def)
  have "set deposits = {e \<in> events_upto env lg (headBlock s). ev_type e = ''Deposited'' \<and>
      lower (js_json (map_of (ev_args e) ''depositor'')) = lower dep}"
    unfolding dep set_query [OF assms(1)]
    by (rule Collect_cong) (auto simp only: entry_of_def key_of_def row_of_def prod.case event_row.simps
        option.inject if_True simp_thms)
  moreover have "set spends = {e \<in> events_upto env lg (headBlock s). ev_type e \<noteq> ''Deposited''}"
    unfolding sp set_query [OF assms(1)] by (rule Collect_cong) (simp only: entry_of_def key_of_def prod.case)
  moreover have "sorted (map (\<lambda>e. (ev_block e, ev_log e)) deposits)" "sorted (map (\<lambda>e. (ev_block e, ev_log e)) spends)"
    unfolding dep sp by (rule sorted_query)+
  ultimately show ?thesis by blast
qed

lemma recovery_payload_exact_witness: "set (fst (recoveryData ''0xA'' demo_synced)) = {demo_event ''0xa'' 4}"
proof -
  have l: "lower ''0xA'' = ''0xa''" "lower ''0xa'' = ''0xa''" "lower ''0xb'' = ''0xb''" by code_simp+
  have "set (fst (recoveryData ''0xA'' demo_synced)) = {e \<in> events_upto demo_index_env demo_logs (headBlock demo_synced).
      ev_type e = ''Deposited'' \<and> lower (js_json (map_of (ev_args e) ''depositor'')) = lower ''0xA''}"
    by (rule conjunct1 [OF recovery_payload_exact [OF demo_synced_inv prod.collapse [symmetric]]])
  also have "\<dots> = {demo_event ''0xa'' 4}"
    unfolding events_upto_def demo_chain_events demo_synced_head l(1) demo_event_def
    by (auto simp: l(2,3))
  finally show ?thesis .
qed

text \<open>
  The signing layer sees the same bets from either source: for a range the
  index has ingested, the records decoded from the relay's answer and the records
  decoded from the chain's logs are the same, field by field, and a relay that
  fails or answers garbage is replaced by the chain.
\<close>

lemma bet_sources_agree:
  assumes "index_inv env lg s" and "well_formed_bets env lg" and "hi \<le> headBlock s"
  shows "\<exists>rs rs'.
    fetchBetAuthorized True (\<lambda>lo hi. Inr (betAuthorizedEvents lo hi s)) (\<lambda>lo hi. Inr (chain_query env lg lo hi)) lo hi True
      = Inr (rs, FromIndex) \<and>
    fetchBetAuthorized url relay (\<lambda>lo hi. Inr (chain_query env lg lo hi)) lo hi False = Inr (rs', FromChain) \<and>
    fetchBetAuthorized url (\<lambda>lo hi. Inl e) (\<lambda>lo hi. Inr (chain_query env lg lo hi)) lo hi True = Inr (rs', FromChain) \<and>
    set rs = set rs'"
proof -
  obtain rs where "all_some (map recordFromIndex (betAuthorizedEvents lo hi s)) = Some rs"
    "set rs = set (List.map_filter recordFromChainLog (chain_query env lg lo hi))"
    using index_and_chain_agree [OF assms] by blast
  then show ?thesis by (auto simp: fetchBetAuthorized_def Let_def)
qed

lemma bet_sources_agree_witness:
  "\<exists>rs. fetchBetAuthorized True (\<lambda>lo hi. Inr (betAuthorizedEvents lo hi demo_synced)) (\<lambda>lo hi. Inr []) 1 17 True = Inr (rs, FromIndex)"
proof -
  have "well_formed_bets demo_index_env demo_logs"
    by (simp add: well_formed_bets_def is_bet_log_def demo_logs_def demo_deposit_def demo_index_env_def)
  moreover have "chain_query demo_index_env demo_logs lo hi = []" for lo hi
    by (simp add: chain_query_def is_bet_log_def demo_logs_def demo_deposit_def demo_index_env_def)
  ultimately show ?thesis
    using bet_sources_agree [OF demo_synced_inv, of 17 1 True "\<lambda>lo hi. Inr []" "''''"] demo_synced_head
    by (simp only: order_refl) blast
qed

end
