(* ===== verification/Nonce_Manager.thy ===== *)
theory Nonce_Manager
  imports Prelude
begin

section \<open>Nonces and the circuit breaker of the operator wallet\<close>

text \<open>
  \<open>signing-layer/src/nonceManager.ts\<close> and \<open>circuitBreaker.ts\<close>: the counter that
  hands out the operator's transaction nonces, the send wrapper that retries once
  after a nonce error, and the switch that stops the process after a ban signal.
  The node is a parameter: \<open>seed\<close> is its pending transaction count and
  \<open>fn n\<close> the outcome of broadcasting with nonce \<open>n\<close>, both over a world \<open>'w\<close>.
\<close>

record nonce_mgr =
  nm_nonce :: "int option"
  nm_last_seen :: int

definition NONCE_ERROR_PATTERNS :: "string list" where
  "NONCE_ERROR_PATTERNS = [''nonce too low'', ''nonce too high'', ''replacement underpriced'',
     ''NONCE_EXPIRED'', ''already known'', ''invalid nonce'']"

definition isNonceError :: "string \<Rightarrow> bool" where
  "isNonceError err \<longleftrightarrow> (\<exists>p \<in> set NONCE_ERROR_PATTERNS. js_includes (lower p) (lower err))"

definition getAndIncrement :: "string + int \<Rightarrow> nonce_mgr \<Rightarrow> (string + int) \<times> nonce_mgr" where
  "getAndIncrement seed m =
     (case nm_nonce m of
        None \<Rightarrow> (case seed of Inl e \<Rightarrow> (Inl e, m) | Inr c \<Rightarrow> (Inr c, m\<lparr>nm_nonce := Some (c + 1)\<rparr>))
      | Some n \<Rightarrow> (Inr n, m\<lparr>nm_nonce := Some (n + 1)\<rparr>))"

definition decrement :: "nonce_mgr \<Rightarrow> nonce_mgr" where
  "decrement m = (case nm_nonce m of
     Some n \<Rightarrow> if n > 0 then m\<lparr>nm_nonce := Some (n - 1)\<rparr> else m | None \<Rightarrow> m)"

definition reset_nonce :: "nonce_mgr \<Rightarrow> nonce_mgr" where
  "reset_nonce m = m\<lparr>nm_nonce := None\<rparr>"

definition checkForChainReset :: "bool \<Rightarrow> string + int \<Rightarrow> nonce_mgr \<Rightarrow> nonce_mgr" where
  "checkForChainReset production head m =
     (if production then m
      else case head of
             Inl _ \<Rightarrow> m
           | Inr current \<Rightarrow>
               (if current < nm_last_seen m then reset_nonce m else m)\<lparr>nm_last_seen := current\<rparr>)"

text \<open>
  \<open>send\<close>, uninterrupted.  The retry after a nonce error does not give its nonce
  back when it fails; the first attempt does.
\<close>

definition nonce_send :: "('w \<Rightarrow> string + int) \<Rightarrow> (int \<Rightarrow> 'w \<Rightarrow> (string + 'tx) \<times> 'w)
    \<Rightarrow> nonce_mgr \<times> 'w \<Rightarrow> (string + 'tx) \<times> nonce_mgr \<times> 'w" where
  "nonce_send seed fn = (\<lambda>(m, w).
     (case getAndIncrement (seed w) m of
        (Inl e, m1) \<Rightarrow> (Inl e, m1, w)
      | (Inr n, m1) \<Rightarrow>
          (case fn n w of
             (Inr tx, w1) \<Rightarrow> (Inr tx, m1, w1)
           | (Inl err, w1) \<Rightarrow>
               if isNonceError err then
                 (case getAndIncrement (seed w1) (reset_nonce m1) of
                    (Inl e, m2) \<Rightarrow> (Inl e, m2, w1)
                  | (Inr n2, m2) \<Rightarrow> (let (r, w2) = fn n2 w1 in (r, m2, w2)))
               else (Inl err, decrement m1, w1))))"

subsection \<open>Sends one after another\<close>

text \<open>
  A node as documented: the pending count is the next nonce of the account, a
  transaction is accepted at that nonce only, a broadcast at another nonce
  answers with a nonce error, and one refused for another reason does not count.
\<close>

definition honest_node :: "('w \<Rightarrow> int) \<Rightarrow> ('w \<Rightarrow> string + int) \<Rightarrow> (int \<Rightarrow> 'w \<Rightarrow> (string + 'tx) \<times> 'w) \<Rightarrow> bool" where
  "honest_node pc seed fn \<longleftrightarrow>
     (\<forall>w. 0 \<le> pc w \<and> seed w = Inr (pc w)) \<and>
     (\<forall>n w. case fn n w of
        (Inr tx, w') \<Rightarrow> n = pc w \<and> pc w' = pc w + 1
      | (Inl e, w') \<Rightarrow> pc w' = pc w \<and> (isNonceError e \<longleftrightarrow> n \<noteq> pc w))"

definition in_sync :: "('w \<Rightarrow> int) \<Rightarrow> nonce_mgr \<Rightarrow> 'w \<Rightarrow> bool" where
  "in_sync pc m w \<longleftrightarrow> nm_nonce m = None \<or> nm_nonce m = Some (pc w)"

lemma honest_nodeD:
  assumes "honest_node pc seed fn"
  shows "seed w = Inr (pc w)" "0 \<le> pc w"
    "fn n w = (Inr tx, w') \<Longrightarrow> n = pc w \<and> pc w' = pc w + 1"
    "fn n w = (Inl e, w') \<Longrightarrow> pc w' = pc w \<and> (isNonceError e \<longleftrightarrow> n \<noteq> pc w)"
proof -
  note D = conjunct2 [OF assms [unfolded honest_node_def], THEN spec [of _ n], THEN spec [of _ w]]
  show "seed w = Inr (pc w)" "0 \<le> pc w" using assms unfolding honest_node_def by blast+
  show "n = pc w \<and> pc w' = pc w + 1" if "fn n w = (Inr tx, w')"
    using D that by simp
  show "pc w' = pc w \<and> (isNonceError e \<longleftrightarrow> n \<noteq> pc w)" if "fn n w = (Inl e, w')"
    using D that by simp
qed

lemma getAndIncrement_in_sync:
  assumes "honest_node pc seed fn" and "in_sync pc m w"
  shows "getAndIncrement (seed w) m = (Inr (pc w), m\<lparr>nm_nonce := Some (pc w + 1)\<rparr>)"
  using assms by (auto simp: getAndIncrement_def in_sync_def honest_nodeD)

lemma nonce_send_in_sync:
  assumes "honest_node pc seed fn" and "in_sync pc m w"
  shows "case nonce_send seed fn (m, w) of
     (Inr tx, m', w') \<Rightarrow> in_sync pc m' w' \<and> fn (pc w) w = (Inr tx, w') \<and> pc w' = pc w + 1
   | (Inl e, m', w') \<Rightarrow> in_sync pc m' w' \<and> fn (pc w) w = (Inl e, w') \<and> pc w' = pc w"
proof -
  obtain r w1 where r: "fn (pc w) w = (r, w1)" by fastforce
  show ?thesis
  proof (cases r)
    case (Inl e)
    have "pc w1 = pc w \<and> \<not> isNonceError e" using honest_nodeD(4) [OF assms(1), of "pc w" w e w1] r Inl by simp
    then show ?thesis
      using r Inl honest_nodeD(2) [OF assms(1), of w]
      by (simp add: nonce_send_def getAndIncrement_in_sync [OF assms] decrement_def in_sync_def)
  next
    case (Inr tx)
    have "pc w1 = pc w + 1" using honest_nodeD(3) [OF assms(1), of "pc w" w tx w1] r Inr by simp
    then show ?thesis
      using r Inr by (simp add: nonce_send_def getAndIncrement_in_sync [OF assms] in_sync_def)
  qed
qed

text \<open>A sequence of sends, one per broadcast function, with their results.\<close>

fun send_all :: "('w \<Rightarrow> string + int) \<Rightarrow> (int \<Rightarrow> 'w \<Rightarrow> (string + 'tx) \<times> 'w) list
    \<Rightarrow> nonce_mgr \<times> 'w \<Rightarrow> (string + 'tx) list \<times> nonce_mgr \<times> 'w" where
  "send_all seed [] s = ([], s)"
| "send_all seed (f # fs) s =
     (let (r, s') = nonce_send seed f s; (rs, s'') = send_all seed fs s' in (r # rs, s''))"

definition sent_ok :: "(string + 'tx) list \<Rightarrow> nat" where
  "sent_ok rs = length (filter (\<lambda>r. the_right r \<noteq> None) rs)"

lemma send_all_in_sync:
  assumes "\<forall>f \<in> set fs. honest_node pc seed f" and "in_sync pc m w"
    and "send_all seed fs (m, w) = (rs, m', w')"
  shows "in_sync pc m' w' \<and> pc w' = pc w + int (sent_ok rs) \<and> length rs = length fs"
  using assms
proof (induction fs arbitrary: m w rs)
  case Nil
  then show ?case by (auto simp: sent_ok_def)
next
  case (Cons f fs)
  obtain r m1 w1 where one: "nonce_send seed f (m, w) = (r, m1, w1)" by (metis prod_cases3)
  obtain rs1 where rest: "send_all seed fs (m1, w1) = (rs1, m', w')" "rs = r # rs1"
    using Cons.prems(3) one by (auto simp: Let_def split: prod.splits)
  have step: "in_sync pc m1 w1" "pc w1 = pc w + (if the_right r = None then 0 else 1)"
    using nonce_send_in_sync [of pc seed f m w] Cons.prems(1,2) one by (auto split: sum.splits)
  from Cons.IH [OF _ step(1) rest(1)] Cons.prems(1) step(2) rest(2) show ?case
    by (auto simp: sent_ok_def)
qed

text \<open>A stale counter is repaired by the retry, unless the retry itself fails.\<close>

lemma nonce_send_stale:
  assumes "honest_node pc seed fn" and "nm_nonce m = Some n" and "n \<noteq> pc w"
  shows "\<exists>w1. pc w1 = pc w \<and> (case nonce_send seed fn (m, w) of
     (Inr tx, m', w') \<Rightarrow> in_sync pc m' w' \<and> pc w' = pc w + 1
   | (Inl e, m', w') \<Rightarrow> fn (pc w) w1 = (Inl e, w') \<and> pc w' = pc w \<and> nm_nonce m' = Some (pc w + 1))"
proof -
  obtain r w1 where r: "fn n w = (r, w1)" by fastforce
  then obtain e where e: "r = Inl e" using honest_nodeD(3) [OF assms(1)] assms(3) by (cases r) auto
  have w1: "pc w1 = pc w" "isNonceError e" using honest_nodeD(4) [OF assms(1), of n w e w1] r e assms(3) by auto
  have fresh: "getAndIncrement (seed w1) (reset_nonce (m\<lparr>nm_nonce := Some (n + 1)\<rparr>)) =
      (Inr (pc w), m\<lparr>nm_nonce := Some (pc w + 1)\<rparr>)"
    using w1 honest_nodeD(1) [OF assms(1), of w1] by (simp add: getAndIncrement_def reset_nonce_def)
  obtain r2 w2 where r2: "fn (pc w) w1 = (r2, w2)" by fastforce
  have res: "nonce_send seed fn (m, w) = (r2, m\<lparr>nm_nonce := Some (pc w + 1)\<rparr>, w2)"
    using assms(2) r e w1 fresh r2 by (simp add: nonce_send_def getAndIncrement_def [of _ m])
  show ?thesis
  proof (intro exI [of _ w1] conjI)
    show "case nonce_send seed fn (m, w) of
     (Inr tx, m', w') \<Rightarrow> in_sync pc m' w' \<and> pc w' = pc w + 1
   | (Inl e, m', w') \<Rightarrow> fn (pc w) w1 = (Inl e, w') \<and> pc w' = pc w \<and> nm_nonce m' = Some (pc w + 1)"
    proof (cases r2)
      case (Inl e2)
      then show ?thesis using res r2 w1 honest_nodeD(4) [OF assms(1), of "pc w" w1 e2 w2] by simp
    next
      case (Inr tx)
      then show ?thesis
        using res r2 w1 honest_nodeD(3) [OF assms(1), of "pc w" w1 tx w2] by (simp add: in_sync_def)
    qed
  qed (rule w1)
qed

subsection \<open>Calls that overlap\<close>

text \<open>
  \<open>getAndIncrement\<close> awaits the node between its test and its assignment, and the
  broadcast is awaited too.  A state holds the manager, the number of calls
  waiting for the pending count, and the nonces handed to broadcasts so far.
\<close>

record nonce_sys =
  ns_mgr :: nonce_mgr
  ns_seeding :: nat
  ns_used :: "int list"

inductive nonce_step :: "int \<Rightarrow> nonce_sys \<Rightarrow> nonce_sys \<Rightarrow> bool" for count :: int where
  call_seeds: "nm_nonce (ns_mgr s) = None \<Longrightarrow> nonce_step count s (s\<lparr>ns_seeding := ns_seeding s + 1\<rparr>)"
| seed_arrives: "0 < ns_seeding s \<Longrightarrow>
     nonce_step count s (s\<lparr>ns_seeding := ns_seeding s - 1,
       ns_mgr := (ns_mgr s)\<lparr>nm_nonce := Some (count + 1)\<rparr>, ns_used := ns_used s @ [count]\<rparr>)"
| call_takes: "nm_nonce (ns_mgr s) = Some n \<Longrightarrow>
     nonce_step count s (s\<lparr>ns_mgr := (ns_mgr s)\<lparr>nm_nonce := Some (n + 1)\<rparr>, ns_used := ns_used s @ [n]\<rparr>)"
| not_broadcast: "n \<in> set (ns_used s) \<Longrightarrow>
     nonce_step count s (s\<lparr>ns_mgr := decrement (ns_mgr s), ns_used := remove1 n (ns_used s)\<rparr>)"

definition fresh_sys :: nonce_sys where
  "fresh_sys = \<lparr>ns_mgr = \<lparr>nm_nonce = None, nm_last_seen = 0\<rparr>, ns_seeding = 0, ns_used = []\<rparr>"

lemma overlapping_seeds:
  "(nonce_step c)\<^sup>*\<^sup>* fresh_sys
     \<lparr>ns_mgr = \<lparr>nm_nonce = Some (c + 1), nm_last_seen = 0\<rparr>, ns_seeding = 0, ns_used = [c, c]\<rparr>"
proof -
  let ?s = "\<lambda>n k us. \<lparr>ns_mgr = \<lparr>nm_nonce = n, nm_last_seen = 0\<rparr>, ns_seeding = k, ns_used = us\<rparr>"
  have "nonce_step c (?s None 0 []) (?s None 1 [])" using call_seeds [of "?s None 0 []" c] by simp
  moreover have "nonce_step c (?s None 1 []) (?s None 2 [])"
    using call_seeds [of "?s None 1 []" c] by (simp add: numeral_2_eq_2)
  moreover have "nonce_step c (?s None 2 []) (?s (Some (c + 1)) 1 [c])"
    using seed_arrives [of "?s None 2 []" c] by simp
  moreover have "nonce_step c (?s (Some (c + 1)) 1 [c]) (?s (Some (c + 1)) 0 [c, c])"
    using seed_arrives [of "?s (Some (c + 1)) 1 [c]" c] by simp
  ultimately show ?thesis
    unfolding fresh_sys_def by (meson r_into_rtranclp rtranclp_trans)
qed

lemma overlapping_decrement:
  assumes "0 \<le> c"
  shows "(nonce_step c)\<^sup>*\<^sup>*
     \<lparr>ns_mgr = \<lparr>nm_nonce = Some c, nm_last_seen = 0\<rparr>, ns_seeding = 0, ns_used = []\<rparr>
     \<lparr>ns_mgr = \<lparr>nm_nonce = Some (c + 2), nm_last_seen = 0\<rparr>, ns_seeding = 0, ns_used = [c + 1, c + 1]\<rparr>"
proof -
  let ?s = "\<lambda>n us. \<lparr>ns_mgr = \<lparr>nm_nonce = Some n, nm_last_seen = 0\<rparr>, ns_seeding = 0, ns_used = us\<rparr>"
  have "nonce_step c (?s c []) (?s (c + 1) [c])" using call_takes [of "?s c []" c c] by simp
  moreover have "nonce_step c (?s (c + 1) [c]) (?s (c + 2) [c, c + 1])"
    using call_takes [of "?s (c + 1) [c]" "c + 1" c] by (simp add: add.commute)
  moreover have "nonce_step c (?s (c + 2) [c, c + 1]) (?s (c + 1) [c + 1])"
    using not_broadcast [of c "?s (c + 2) [c, c + 1]" c] assms by (simp add: decrement_def add.commute)
  moreover have "nonce_step c (?s (c + 1) [c + 1]) (?s (c + 2) [c + 1, c + 1])"
    using call_takes [of "?s (c + 1) [c + 1]" "c + 1" c] by (simp add: add.commute)
  ultimately show ?thesis by (meson r_into_rtranclp rtranclp_trans)
qed

subsection \<open>The circuit breaker\<close>

text \<open>
  \<open>halt\<close> sets the flag, stops the heartbeat and exits the process.  A response
  body is the pair of its \<open>error\<close> and \<open>code\<close> fields where it is an object.
\<close>

record breaker =
  br_halted :: bool
  br_heartbeat :: bool
  br_exited :: bool

definition stopHeartbeat :: "breaker \<Rightarrow> breaker" where
  "stopHeartbeat b = b\<lparr>br_heartbeat := False\<rparr>"

definition halt :: "breaker \<Rightarrow> breaker" where
  "halt b = (stopHeartbeat (b\<lparr>br_halted := True\<rparr>))\<lparr>br_exited := True\<rparr>"

definition checkResponse :: "int \<Rightarrow> (string option \<times> string option) option \<Rightarrow> breaker \<Rightarrow> breaker" where
  "checkResponse status body b =
     (if status = 403 then halt b
      else case body of
             Some (err, code) \<Rightarrow>
               if err = Some ''ACCOUNT_FLAGGED'' \<or> code = Some ''ACCOUNT_BANNED'' then halt b else b
           | None \<Rightarrow> b)"

lemma checkResponse_halts:
  "br_exited (checkResponse status body b) \<longleftrightarrow> br_exited b \<or> status = 403 \<or>
     (\<exists>err code. body = Some (err, code) \<and> (err = Some ''ACCOUNT_FLAGGED'' \<or> code = Some ''ACCOUNT_BANNED''))"
  by (auto simp: checkResponse_def halt_def split: option.splits)

subsection \<open>Claims\<close>

text \<open>
  Sends that do not overlap never waste or reuse a nonce: over a node that
  accepts the next nonce only, any sequence of sends, some refused, leaves the
  counter at the account's next nonce, and the account advanced by exactly the
  number of sends that succeeded.
\<close>

lemma sequential_sends_consecutive:
  assumes "\<forall>f \<in> set fs. honest_node pc seed f" and "in_sync pc m w"
    and "send_all seed fs (m, w) = (rs, m', w')"
  shows "in_sync pc m' w' \<and> pc w' = pc w + int (sent_ok rs) \<and> length rs = length fs"
  by (rule send_all_in_sync [OF assms])

definition demo_node :: "bool \<Rightarrow> int \<Rightarrow> nat \<Rightarrow> (string + int) \<times> nat" where
  "demo_node ok n w =
     (if n \<noteq> int w then (Inl ''nonce too low'', w)
      else if ok then (Inr n, w + 1) else (Inl ''reverted'', w))"

lemma demo_node_honest: "honest_node int (\<lambda>w. Inr (int w)) (demo_node ok)"
proof -
  have "isNonceError ''nonce too low''" "\<not> isNonceError ''reverted''"
    by (simp_all add: isNonceError_def NONCE_ERROR_PATTERNS_def) (simp_all add: lower_def lower_char_def)
  then show ?thesis by (auto simp: honest_node_def demo_node_def)
qed

lemma sequential_sends_consecutive_witness:
  "in_sync int (fst (snd (send_all (\<lambda>w. Inr (int w)) [demo_node True, demo_node False, demo_node True]
     (\<lparr>nm_nonce = None, nm_last_seen = 0\<rparr>, 4))))
     (snd (snd (send_all (\<lambda>w. Inr (int w)) [demo_node True, demo_node False, demo_node True]
     (\<lparr>nm_nonce = None, nm_last_seen = 0\<rparr>, 4))))"
proof -
  let ?fs = "[demo_node True, demo_node False, demo_node True]"
  have "\<forall>f \<in> set ?fs. honest_node int (\<lambda>w. Inr (int w)) f" by (simp add: demo_node_honest)
  moreover have "in_sync int \<lparr>nm_nonce = None, nm_last_seen = 0\<rparr> 4" by (simp add: in_sync_def)
  ultimately show ?thesis
    using sequential_sends_consecutive [of ?fs int "\<lambda>w. Inr (int w)" "\<lparr>nm_nonce = None, nm_last_seen = 0\<rparr>" 4]
    by (metis prod.collapse)
qed

text \<open>
  A failing retry leaves a gap.  When the counter was stale and the retried
  broadcast is refused for a reason that is no nonce error, the fresh nonce is
  not given back, although it was never broadcast: the counter stands one above
  the account's next nonce.
\<close>

lemma failed_retry_leaves_gap:
  assumes "honest_node pc seed fn" and "nm_nonce m = Some n" and "n \<noteq> pc w"
    and "fst (nonce_send seed fn (m, w)) = Inl e"
  shows "nm_nonce (fst (snd (nonce_send seed fn (m, w)))) = Some (pc (snd (snd (nonce_send seed fn (m, w)))) + 1)"
proof -
  obtain m' w' where r: "nonce_send seed fn (m, w) = (Inl e, m', w')"
    using assms(4) by (metis prod.collapse)
  then show ?thesis using nonce_send_stale [OF assms(1-3)] by auto
qed

lemma failed_retry_leaves_gap_witness:
  "nm_nonce (fst (snd (nonce_send (\<lambda>w. Inr (int w)) (demo_node False)
     (\<lparr>nm_nonce = Some 9, nm_last_seen = 0\<rparr>, 4)))) = Some 5"
proof -
  let ?m = "\<lparr>nm_nonce = Some 9, nm_last_seen = 0\<rparr>"
  have err: "isNonceError ''nonce too low''"
    by (simp add: isNonceError_def NONCE_ERROR_PATTERNS_def) (simp add: lower_def lower_char_def)
  have r: "nonce_send (\<lambda>w. Inr (int w)) (demo_node False) (?m, 4) =
      (Inl ''reverted'', ?m\<lparr>nm_nonce := Some 5\<rparr>, 4)"
    by (simp add: nonce_send_def demo_node_def getAndIncrement_def reset_nonce_def err)
  show ?thesis
    using failed_retry_leaves_gap [OF demo_node_honest, of ?m 9 4 False "''reverted''"] r by simp
qed

text \<open>
  Overlapping sends can share a nonce, although the comment promises safety
  under concurrent submissions: two calls that both find the counter unset both
  return the pending count, and a refused call that gives its nonce back while a
  later one is in flight makes the next call reuse that one's nonce.
\<close>

lemma overlapping_sends_share_nonce:
  "(\<exists>s. (nonce_step c)\<^sup>*\<^sup>* fresh_sys s \<and> ns_used s = [c, c]) \<and>
   (0 \<le> c \<longrightarrow> (\<exists>s. (nonce_step c)\<^sup>*\<^sup>* (fresh_sys\<lparr>ns_mgr := \<lparr>nm_nonce = Some c, nm_last_seen = 0\<rparr>\<rparr>) s \<and>
      ns_used s = [c + 1, c + 1]))"
proof (intro conjI impI)
  show "\<exists>s. (nonce_step c)\<^sup>*\<^sup>* fresh_sys s \<and> ns_used s = [c, c]"
    by (intro exI conjI, rule overlapping_seeds) simp
  assume "0 \<le> c"
  then show "\<exists>s. (nonce_step c)\<^sup>*\<^sup>* (fresh_sys\<lparr>ns_mgr := \<lparr>nm_nonce = Some c, nm_last_seen = 0\<rparr>\<rparr>) s \<and>
      ns_used s = [c + 1, c + 1]"
    using overlapping_decrement [of c] unfolding fresh_sys_def by fastforce
qed

lemma overlapping_sends_share_nonce_witness:
  "\<exists>s. (nonce_step 7)\<^sup>*\<^sup>* (fresh_sys\<lparr>ns_mgr := \<lparr>nm_nonce = Some 7, nm_last_seen = 0\<rparr>\<rparr>) s \<and> ns_used s = [8, 8]"
  using overlapping_sends_share_nonce [of 7] by simp

end
