(* ===== verification/Operator_Policy.thy ===== *)
theory Operator_Policy
  imports Prelude
begin

section \<open>Token binding, order intents and tracked markets\<close>

text \<open>
  Three small modules the signing layer consults before it trades:
  \<open>tokenBinding.ts\<close> (which token may be traded for a bet), \<open>limitOrderStore.ts\<close>
  (the registered order type of a bet) and \<open>trackedMarkets.ts\<close> (the markets with
  bets on them).  The two stores are SQLite tables with a primary key.
\<close>

subsection \<open>Token binding\<close>

text \<open>A JavaScript number that is not finite is \<open>None\<close>.\<close>

record RegistryHit =
  rh_tokenId :: string
  rh_conditionId :: string

datatype token_source = Registry | MockOnchain
datatype reject_reason = OutcomeSideOutOfRange | MarketNotInRegistry
datatype BuyDecision = Trade string string token_source | Reject reject_reason

definition isMockClobHost :: "string option \<Rightarrow> bool" where
  "isMockClobHost host \<longleftrightarrow>
     (let h = (case host of None \<Rightarrow> ''https://clob.polymarket.com'' | Some x \<Rightarrow> x)
      in js_includes ''localhost'' h \<or> js_includes ''127.0.0.1'' h)"

definition bad_side :: "rat option \<Rightarrow> bool" where
  "bad_side n \<longleftrightarrow>
     (case n of None \<Rightarrow> True | Some r \<Rightarrow> of_int \<lfloor>r\<rfloor> \<noteq> r \<or> r < 0 \<or> r > 1)"

definition usable_hit :: "RegistryHit option \<Rightarrow> bool" where
  "usable_hit hit \<longleftrightarrow> (case hit of None \<Rightarrow> False | Some r \<Rightarrow> rh_tokenId r \<noteq> '''')"

definition decideBuyToken :: "string \<Rightarrow> string \<Rightarrow> rat option \<Rightarrow> RegistryHit option \<Rightarrow> bool \<Rightarrow> BuyDecision" where
  "decideBuyToken marketId positionId outcomeSide resolved mock =
     (if bad_side outcomeSide then Reject OutcomeSideOutOfRange
      else if usable_hit resolved
        then Trade (rh_tokenId (the resolved)) (rh_conditionId (the resolved)) Registry
      else if mock then Trade positionId marketId MockOnchain
      else Reject MarketNotInRegistry)"

definition decideCloseToken :: "string \<Rightarrow> rat option option \<Rightarrow> RegistryHit option \<Rightarrow> bool
    \<Rightarrow> reject_reason + string \<times> string" where
  "decideCloseToken requestPositionId outcomeSide resolved mock =
     (if (case outcomeSide of None \<Rightarrow> False | Some n \<Rightarrow> bad_side n) then Inl OutcomeSideOutOfRange
      else if usable_hit resolved
        then Inr (rh_tokenId (the resolved), rh_conditionId (the resolved))
      else if mock then Inr (requestPositionId, '''')
      else Inl MarketNotInRegistry)"

lemma bad_side_iff: "\<not> bad_side n \<longleftrightarrow> n = Some 0 \<or> n = Some 1"
proof
  assume ok: "\<not> bad_side n"
  then obtain r where r: "n = Some r" "of_int \<lfloor>r\<rfloor> = r" "0 \<le> r" "r \<le> 1"
    by (auto simp: bad_side_def split: option.splits)
  have "0 \<le> \<lfloor>r\<rfloor>" "\<lfloor>r\<rfloor> \<le> 1" using r(3,4) by (simp_all add: floor_le_iff)
  then have "\<lfloor>r\<rfloor> = 0 \<or> \<lfloor>r\<rfloor> = 1" by linarith
  with r(1,2) show "n = Some 0 \<or> n = Some 1" by auto
qed (auto simp: bad_side_def)

subsection \<open>Order intents\<close>

datatype LimitOrderType = I_GTC | I_GTD | I_FAK

fun intent_text :: "LimitOrderType \<Rightarrow> string" where
  "intent_text I_GTC = ''GTC''"
| "intent_text I_GTD = ''GTD''"
| "intent_text I_FAK = ''FAK''"

record LimitOrderIntent =
  loi_nullifier :: string
  loi_type :: LimitOrderType
  loi_expiration :: int

record limit_row =
  lr_order_type :: string
  lr_expiration :: int
  lr_created_at :: int

type_synonym limit_orders = "(string \<times> limit_row) list"

definition recordLimitOrder :: "LimitOrderIntent \<Rightarrow> int \<Rightarrow> limit_orders \<Rightarrow> limit_orders" where
  "recordLimitOrder i now tab =
     (case map_of tab (loi_nullifier i) of
        None \<Rightarrow> AList.update (loi_nullifier i)
          \<lparr>lr_order_type = intent_text (loi_type i), lr_expiration = loi_expiration i, lr_created_at = now\<rparr> tab
      | Some row \<Rightarrow> AList.update (loi_nullifier i)
          (row\<lparr>lr_order_type := intent_text (loi_type i), lr_expiration := loi_expiration i\<rparr>) tab)"

definition getLimitOrder :: "string \<Rightarrow> limit_orders \<Rightarrow> LimitOrderIntent option" where
  "getLimitOrder nf tab =
     (case map_of tab nf of
        None \<Rightarrow> None
      | Some row \<Rightarrow> Some \<lparr>loi_nullifier = nf,
          loi_type = (if lr_order_type row = ''GTD'' then I_GTD
                      else if lr_order_type row = ''FAK'' then I_FAK else I_GTC),
          loi_expiration = lr_expiration row\<rparr>)"

lemma getLimitOrder_record [store_simps]:
  "getLimitOrder nf (recordLimitOrder i now tab) =
     (if nf = loi_nullifier i then Some i else getLimitOrder nf tab)"
  by (cases "loi_type i") (auto simp: getLimitOrder_def recordLimitOrder_def map_of_update split: option.splits)

subsection \<open>Tracked markets\<close>

record TrackedMarket =
  tm_reducedKey :: string
  tm_rawConditionId :: string
  tm_endDate :: "int option"

record tracked_row =
  tr_raw :: string
  tr_end :: "int option"
  tr_created :: int

type_synonym tracked_markets = "(string \<times> tracked_row) list"

definition upsertTrackedMarket :: "string \<Rightarrow> string \<Rightarrow> int option \<Rightarrow> int \<Rightarrow> tracked_markets \<Rightarrow> tracked_markets" where
  "upsertTrackedMarket reducedKey rawConditionId endDate now tab =
     (let key = lower reducedKey; raw = lower rawConditionId
      in case map_of tab key of
           None \<Rightarrow> AList.update key \<lparr>tr_raw = raw, tr_end = endDate, tr_created = now\<rparr> tab
         | Some row \<Rightarrow> AList.update key (row\<lparr>tr_raw := raw, tr_end := orelse endDate (tr_end row)\<rparr>) tab)"

definition getTrackedMarkets :: "tracked_markets \<Rightarrow> TrackedMarket list" where
  "getTrackedMarkets tab =
     map (\<lambda>(k, r). \<lparr>tm_reducedKey = k, tm_rawConditionId = tr_raw r, tm_endDate = tr_end r\<rparr>) tab"

definition trackedMarketCount :: "tracked_markets \<Rightarrow> nat" where
  "trackedMarketCount tab = length tab"

lemma upsert_lookup [store_simps]:
  "map_of (upsertTrackedMarket k raw e now tab) =
     (map_of tab)(lower k \<mapsto> \<lparr>tr_raw = lower raw,
        tr_end = orelse e (Option.bind (map_of tab (lower k)) tr_end),
        tr_created = (case map_of tab (lower k) of None \<Rightarrow> now | Some r \<Rightarrow> tr_created r)\<rparr>)"
  by (auto simp: upsertTrackedMarket_def map_of_update orelse_def Let_def fun_eq_iff split: option.splits)

lemma upsert_distinct: "distinct (map fst tab) \<Longrightarrow> distinct (map fst (upsertTrackedMarket k raw e now tab))"
  by (auto simp: upsertTrackedMarket_def Let_def intro: distinct_keys_update split: option.splits)

text \<open>What a list of writes says of one key: the last raw id, and the last known end date.\<close>

type_synonym market_write = "string \<times> string \<times> int option \<times> int"

definition upsert_all :: "market_write list \<Rightarrow> tracked_markets \<Rightarrow> tracked_markets" where
  "upsert_all ws tab = foldl (\<lambda>t (k, raw, e, now). upsertTrackedMarket k raw e now t) tab ws"

definition writes_of :: "string \<Rightarrow> market_write list \<Rightarrow> market_write list" where
  "writes_of key ws = filter (\<lambda>w. lower (fst w) = key) ws"

definition last_known_end :: "market_write list \<Rightarrow> int option" where
  "last_known_end ws = foldl (\<lambda>d (k, raw, e, now). orelse e d) None ws"

lemma upsert_all_snoc:
  "upsert_all (ws @ [(k, raw, e, now)]) tab = upsertTrackedMarket k raw e now (upsert_all ws tab)"
  by (simp add: upsert_all_def)

lemma last_known_end_snoc: "last_known_end (ws @ [(k, raw, e, now)]) = orelse e (last_known_end ws)"
  by (simp add: last_known_end_def)

lemma upsert_all_lookup:
  "map_of (upsert_all ws []) key =
     (if writes_of key ws = [] then None
      else Some \<lparr>tr_raw = lower (fst (snd (last (writes_of key ws)))),
        tr_end = last_known_end (writes_of key ws),
        tr_created = snd (snd (snd (hd (writes_of key ws))))\<rparr>)"
proof (induction ws rule: rev_induct)
  case Nil
  then show ?case by (simp add: upsert_all_def writes_of_def)
next
  case (snoc w ws)
  obtain k raw e now where w: "w = (k, raw, e, now)" by (metis prod_cases4)
  show ?case
  proof (cases "lower k = key")
    case False
    then have "writes_of key (ws @ [w]) = writes_of key ws" using w by (simp add: writes_of_def)
    with False snoc show ?thesis by (simp add: w upsert_all_snoc upsert_lookup)
  next
    case True
    then have ws: "writes_of key (ws @ [w]) = writes_of key ws @ [w]" using w by (simp add: writes_of_def)
    have "last_known_end [] = None" by (simp add: last_known_end_def)
    then show ?thesis
      using True snoc unfolding ws
      by (simp add: w upsert_all_snoc upsert_lookup last_known_end_snoc)
  qed
qed

lemma upsert_all_distinct: "distinct (map fst (upsert_all ws []))"
  unfolding upsert_all_def
  by (rule foldl_invariant [where P = "\<lambda>t. distinct (map fst t)"]) (auto simp: upsert_distinct)

subsection \<open>Claims\<close>

text \<open>
  In production the traded token comes from the market registry and nowhere
  else.  With the mock off, a buy or a close trades only if the registry has a
  token for the market, trades exactly that token, for a buy only on side 0 or 1,
  and the user's own position id has no influence on either decision.
\<close>

lemma production_binding:
  "(decideBuyToken marketId positionId side resolved False = Trade tok cond src \<longleftrightarrow>
      (side = Some 0 \<or> side = Some 1) \<and> src = Registry \<and>
      (\<exists>hit. resolved = Some hit \<and> tok = rh_tokenId hit \<and> cond = rh_conditionId hit \<and> tok \<noteq> '''')) \<and>
   (decideCloseToken positionId cside resolved False = Inr (tok, cond) \<longleftrightarrow>
      (cside = None \<or> cside = Some (Some 0) \<or> cside = Some (Some 1)) \<and>
      (\<exists>hit. resolved = Some hit \<and> tok = rh_tokenId hit \<and> cond = rh_conditionId hit \<and> tok \<noteq> '''')) \<and>
   decideBuyToken marketId positionId side resolved False = decideBuyToken marketId' positionId' side resolved False \<and>
   decideCloseToken positionId cside resolved False = decideCloseToken positionId' cside resolved False"
proof -
  have side: "bad_side side \<longleftrightarrow> \<not> (side = Some 0 \<or> side = Some 1)" using bad_side_iff by blast
  have cside: "(case cside of None \<Rightarrow> False | Some n \<Rightarrow> bad_side n) \<longleftrightarrow>
      \<not> (cside = None \<or> cside = Some (Some 0) \<or> cside = Some (Some 1))"
    using bad_side_iff by (cases cside) auto
  have hit: "usable_hit resolved \<longleftrightarrow> (\<exists>h. resolved = Some h \<and> rh_tokenId h \<noteq> '''')"
    by (cases resolved) (auto simp: usable_hit_def)
  show ?thesis
    unfolding decideBuyToken_def decideCloseToken_def side cside hit by auto
qed

text \<open>
  A registered order intent reads back as registered: after any later
  registrations for other bets the same type and expiration are returned, and
  nothing is returned for a bet that has none.
\<close>

lemma limit_intent_roundtrip:
  assumes "\<forall>j \<in> set later. loi_nullifier (fst j) \<noteq> loi_nullifier i"
  shows "getLimitOrder (loi_nullifier i)
      (foldl (\<lambda>t (j, now). recordLimitOrder j now t) (recordLimitOrder i now tab) later) = Some i \<and>
    (map_of tab nf = None \<longrightarrow> getLimitOrder nf tab = None)"
proof -
  have "getLimitOrder (loi_nullifier i) (foldl (\<lambda>t (j, now). recordLimitOrder j now t) (recordLimitOrder i now tab) later) = Some i"
    by (rule foldl_invariant [where P = "\<lambda>t. getLimitOrder (loi_nullifier i) t = Some i"])
      (use assms in \<open>auto simp: store_simps\<close>)
  then show ?thesis by (simp add: getLimitOrder_def)
qed

lemma limit_intent_roundtrip_witness:
  "getLimitOrder ''a'' (recordLimitOrder \<lparr>loi_nullifier = ''b'', loi_type = I_GTC, loi_expiration = 0\<rparr> 6
     (recordLimitOrder \<lparr>loi_nullifier = ''a'', loi_type = I_FAK, loi_expiration = 3\<rparr> 5 []))
   = Some \<lparr>loi_nullifier = ''a'', loi_type = I_FAK, loi_expiration = 3\<rparr>"
  using limit_intent_roundtrip [of "[(\<lparr>loi_nullifier = ''b'', loi_type = I_GTC, loi_expiration = 0\<rparr>, 6)]"
      "\<lparr>loi_nullifier = ''a'', loi_type = I_FAK, loi_expiration = 3\<rparr>" 5 "[]"] by simp

text \<open>
  The table of tracked markets is a faithful summary of the writes: a market
  is listed once, exactly when it was written (keys compared without case), with
  the raw id of the last write and the last end date that was known, which a
  write without a date never erases.
\<close>

lemma tracked_markets_summarise_writes:
  "(\<exists>m \<in> set (getTrackedMarkets (upsert_all ws [])). tm_reducedKey m = key) = (writes_of key ws \<noteq> []) \<and>
   distinct (map tm_reducedKey (getTrackedMarkets (upsert_all ws []))) \<and>
   trackedMarketCount (upsert_all ws []) = card (lower ` fst ` set ws) \<and>
   (\<forall>m \<in> set (getTrackedMarkets (upsert_all ws [])). tm_reducedKey m = key \<longrightarrow>
      tm_rawConditionId m = lower (fst (snd (last (writes_of key ws)))) \<and>
      tm_endDate m = last_known_end (writes_of key ws))"
proof -
  let ?t = "upsert_all ws []"
  have keys: "map tm_reducedKey (getTrackedMarkets ?t) = map fst ?t"
    by (auto simp: getTrackedMarkets_def)
  have dom: "k \<in> fst ` set ?t \<longleftrightarrow> writes_of k ws \<noteq> []" for k
    using map_of_eq_None_iff [of ?t k] unfolding upsert_all_lookup by (simp split: if_splits)
  have "k \<in> fst ` set ?t \<longleftrightarrow> k \<in> lower ` fst ` set ws" for k
    unfolding dom by (auto simp: writes_of_def filter_empty_conv)
  then have "fst ` set ?t = lower ` fst ` set ws" by blast
  then have count: "trackedMarketCount ?t = card (lower ` fst ` set ws)"
    using distinct_card [OF upsert_all_distinct [of ws]] by (simp add: trackedMarketCount_def)
  have row: "tm_rawConditionId m = lower (fst (snd (last (writes_of key ws)))) \<and>
      tm_endDate m = last_known_end (writes_of key ws)"
    if m: "m \<in> set (getTrackedMarkets ?t)" "tm_reducedKey m = key" for m
  proof -
    obtain r where r: "(key, r) \<in> set ?t" "tm_rawConditionId m = tr_raw r" "tm_endDate m = tr_end r"
      using m by (auto simp: getTrackedMarkets_def)
    then have "map_of ?t key = Some r" using upsert_all_distinct by (simp add: map_of_is_SomeI)
    with r(2,3) show ?thesis using upsert_all_lookup [of ws key] by (auto split: if_splits)
  qed
  have ex: "(\<exists>m \<in> set (getTrackedMarkets ?t). tm_reducedKey m = key) = (writes_of key ws \<noteq> [])"
    using dom [of key] keys by (metis (no_types, lifting) image_iff list.set_map)
  show ?thesis using ex upsert_all_distinct [of ws] count row unfolding keys by blast
qed

lemma tracked_markets_summarise_writes_witness:
  "tm_endDate (hd (getTrackedMarkets (upsert_all [(''0xA'', ''r'', Some 7, 1), (''0xa'', ''s'', None, 2)] []))) = Some 7"
proof -
  let ?ws = "[(''0xA'', ''r'', Some 7, 1), (''0xa'', ''s'', None, 2)] :: market_write list"
  have l: "lower ''0xA'' = ''0xa''" "lower ''0xa'' = ''0xa''" "lower ''r'' = ''r''" "lower ''s'' = ''s''"
    by code_simp+
  have ms: "getTrackedMarkets (upsert_all ?ws []) =
      [\<lparr>tm_reducedKey = ''0xa'', tm_rawConditionId = ''s'', tm_endDate = Some 7\<rparr>]"
    by (simp add: upsert_all_def upsertTrackedMarket_def getTrackedMarkets_def l orelse_def Let_def)
  have "last_known_end (writes_of ''0xa'' ?ws) = Some 7"
    by (simp add: writes_of_def l last_known_end_def orelse_def)
  then show ?thesis
    using tracked_markets_summarise_writes [of ?ws "''0xa''"] unfolding ms by simp
qed

end
