(* ===== verification/Order_Base.thy ===== *)
theory Order_Base
  imports Fill_Tracker Nonce_Manager Operator_Policy
begin

section \<open>The order desk: state, exchange and sizing\<close>

text \<open>
  The shared part of \<open>signing-layer/src/orderBuilder.ts\<close>: the state the order
  functions read and write, what they ask of the exchange, the sizing of a buy
  order, the fees, and the reading of a reply.  A call of the exchange is a
  parameter in \<open>order_env\<close>, valid for one call of an order function: an answer,
  or what is thrown, of which only the HTTP status matters (\<open>thrown\<close>).  Prices
  and sizes that the code keeps as JavaScript numbers are exact rationals.
\<close>

subsection \<open>What the exchange answers\<close>

type_synonym thrown = "int option"

text \<open>\<open>Number(x)\<close> of a reply field: absent, not finite, or a number (\<open>null\<close> is 0).\<close>

datatype amount = Absent | NotANumber | Amount rat

datatype reply_id = IdString string | IdOther string

record clob_reply =
  rp_status :: "string option"
  rp_status_num :: "rat option"
  rp_orderID :: "reply_id option"
  rp_orderId :: "reply_id option"
  rp_id :: "reply_id option"
  rp_filledShares :: "rat option"
  rp_spentAmount :: "rat option"
  rp_takingAmount :: amount
  rp_makingAmount :: amount
  rp_size_matched :: amount
  rp_errorMsg :: "string option"
  rp_error :: "string option"

definition reply_status :: "clob_reply \<Rightarrow> string" where
  "reply_status r = lower (case rp_status r of None \<Rightarrow> '''' | Some s \<Rightarrow> s)"

definition reply_error :: "clob_reply \<Rightarrow> string" where
  "reply_error r = (case orelse (rp_errorMsg r) (rp_error r) of None \<Rightarrow> '''' | Some s \<Rightarrow> s)"

definition id_text :: "reply_id option \<Rightarrow> string" where
  "id_text i = (case i of None \<Rightarrow> '''' | Some (IdString s) \<Rightarrow> s | Some (IdOther s) \<Rightarrow> s)"

definition string_id :: "clob_reply \<Rightarrow> string" where
  "string_id r = id_text (orelse (rp_orderID r) (orelse (rp_orderId r) (rp_id r)))"

definition typed_id :: "reply_id option \<Rightarrow> string option" where
  "typed_id i = (case i of Some (IdString s) \<Rightarrow> if s = '''' then None else Some s | _ \<Rightarrow> None)"

definition order_id :: "clob_reply \<Rightarrow> string option" where
  "order_id r = orelse (typed_id (rp_orderID r)) (orelse (typed_id (rp_orderId r)) (typed_id (rp_id r)))"

text \<open>\<open>BigInt(Math.round(Number(x ?? 0) * 1e6))\<close>: throws on a number that is not finite.\<close>

fun round6 :: "amount \<Rightarrow> int option" where
  "round6 Absent = Some 0"
| "round6 NotANumber = None"
| "round6 (Amount x) = Some (math_round (x * 1000000))"

datatype post_type = PFOK | PFAK | PGTC | PGTD

record prod_order =
  po_token :: string
  po_price :: rat
  po_size :: rat
  po_side :: side
  po_type :: post_type
  po_expiration :: int
  po_balance :: "rat option"

record mock_order =
  mo_token :: string
  mo_price_text :: string
  mo_makerAmount :: string
  mo_side :: side
  mo_type :: post_type
  mo_expiration :: int

datatype post = Prod prod_order | Mock mock_order

record fee_schedule =
  fs_rate :: rat
  fs_exponent :: rat

text \<open>
  \<open>oe_fees token\<close> is the fee schedule the client has for a token: \<open>None\<close> where
  fetching it throws, or the rate is missing or not finite.  \<open>oe_adjust\<close> is the
  package's \<open>adjustBuyAmountForFees\<close>, \<open>None\<close> where it throws.
\<close>

record order_env =
  oe_api_url :: "string option"
  oe_now_ms :: int
  oe_funded :: "int \<Rightarrow> bool"
  oe_client :: "thrown option"
  oe_prod_post :: "prod_order \<Rightarrow> thrown + clob_reply"
  oe_mock_post :: "mock_order \<Rightarrow> thrown + clob_reply option"
  oe_tick :: "string \<Rightarrow> rat option"
  oe_pusd_balance :: "int option"
  oe_clob_balance :: "rat option"
  oe_fees :: "string \<Rightarrow> fee_schedule option"
  oe_adjust :: "rat \<Rightarrow> rat \<Rightarrow> rat \<Rightarrow> rat \<Rightarrow> rat \<Rightarrow> rat \<Rightarrow> rat \<Rightarrow> rat option"
  oe_builder_code :: string
  oe_builder_taker :: "string \<Rightarrow> rat option"
  oe_slippage :: rat
  oe_fee_bps :: rat
  oe_sign :: "att_input \<Rightarrow> string + string"
  oe_domain :: bool

definition is_mock :: "order_env \<Rightarrow> bool" where
  "is_mock env \<longleftrightarrow>
     isMockClobHost (oe_api_url env)"

definition now_sec :: "order_env \<Rightarrow> int" where
  "now_sec env = oe_now_ms env div 1000"

subsection \<open>The state of the desk\<close>

text \<open>
  \<open>dk_sent\<close> is no variable of the program: it lists the orders handed to the
  exchange, in the order of the calls.
\<close>

record desk =
  dk_tracker :: tracker
  dk_submissions :: submissions
  dk_resting :: "(string \<times> int) list"
  dk_breaker :: breaker
  dk_sent :: "post list"

definition desk_atts :: "desk \<Rightarrow> att_table" where
  "desk_atts d = attestations (dk_tracker d)"

definition set_atts :: "att_table \<Rightarrow> desk \<Rightarrow> desk" where
  "set_atts a d = d\<lparr>dk_tracker := (dk_tracker d)\<lparr>attestations := a\<rparr>\<rparr>"

definition desk_isHalted :: "desk \<Rightarrow> bool" where
  "desk_isHalted d \<longleftrightarrow> br_halted (dk_breaker d)"

text \<open>The common \<open>catch\<close> of the order functions.\<close>

definition caught :: "thrown \<Rightarrow> desk \<Rightarrow> desk" where
  "caught e d = (case e of None \<Rightarrow> d
     | Some st \<Rightarrow> d\<lparr>dk_breaker := checkResponse st None (dk_breaker d)\<rparr>)"

definition attest :: "order_env \<Rightarrow> string \<Rightarrow> ReportType \<Rightarrow> int \<Rightarrow> int \<Rightarrow> desk \<Rightarrow> desk" where
  "attest env nf r a b d =
     (if oe_domain env
      then set_atts (snd (signAndStoreAttestation (oe_sign env)
             \<lparr>in_nullifier = nf, in_type = r, in_amount_a = a, in_amount_b = b\<rparr> (desk_atts d))) d
      else d)"

definition attestFailedFor :: "order_env \<Rightarrow> string \<Rightarrow> desk \<Rightarrow> desk" where
  "attestFailedFor env nf d = attest env nf FAILED 0 0 d"

definition reportFOKFailureSafe :: "order_env \<Rightarrow> string \<Rightarrow> desk \<Rightarrow> desk" where
  "reportFOKFailureSafe env nf d = attest env nf FAILED 0 0 d"

definition attest_terminal :: "order_env \<Rightarrow> terminal_bet \<Rightarrow> int \<Rightarrow> int \<Rightarrow> desk \<Rightarrow> desk" where
  "attest_terminal env bet filled spent d =
     set_atts (attestTerminal (oe_sign env) (oe_domain env) bet filled spent (desk_atts d)) d"

text \<open>The client: none in mock mode, else a fresh or cached one, or an exception.\<close>

definition getOrCreateClobClient :: "order_env \<Rightarrow> thrown + bool" where
  "getOrCreateClobClient env =
     (if is_mock env then Inr False
      else case oe_client env of None \<Rightarrow> Inr True | Some e \<Rightarrow> Inl e)"

text \<open>
  The heartbeat.  In mock mode \<open>reply\<close> is the status, the \<open>error\<close> and \<open>code\<close>
  fields of the body and its \<open>heartbeat_id\<close>; in production the \<open>error_msg\<close> and
  the \<open>heartbeat_id\<close> the client resolves with (\<open>callable\<close>: it has the method).
  The result is the id; the breaker may have tripped.
\<close>

type_synonym reply_body = "(string option \<times> string option) option"

definition sendHeartbeat :: "order_env
    \<Rightarrow> (int \<times> reply_body) option + (int \<times> reply_body \<times> string option)
    \<Rightarrow> bool \<Rightarrow> (int \<times> reply_body) option + (string option \<times> string option) \<Rightarrow> breaker \<Rightarrow> string \<times> breaker" where
  "sendHeartbeat env mock_reply callable prod_reply b =
     (let fail = (\<lambda>e. ('''', case e of None \<Rightarrow> b | Some (st, body) \<Rightarrow> checkResponse st body b))
      in if is_mock env then
           (case mock_reply of
              Inl e \<Rightarrow> fail e
            | Inr (status, body, hid) \<Rightarrow> (case hid of None \<Rightarrow> '''' | Some h \<Rightarrow> h, checkResponse status body b))
         else case getOrCreateClobClient env of
                Inl e \<Rightarrow> fail (map_option (\<lambda>st. (st, None)) e)
              | Inr ok \<Rightarrow>
                  if \<not> ok \<or> \<not> callable then ('''', b)
                  else (case prod_reply of
                          Inl e \<Rightarrow> fail e
                        | Inr (err, hid) \<Rightarrow>
                            (case hid of None \<Rightarrow> '''' | Some h \<Rightarrow> h,
                             if err \<noteq> None \<and> err \<noteq> Some '''' then checkResponse 200 (Some (err, None)) b else b)))"

subsection \<open>Amounts and sizing\<close>

fun rstrip0 :: "string \<Rightarrow> string" where
  "rstrip0 s = rev (dropWhile (\<lambda>c. c = CHR ''0'') (rev s))"

definition microToDecimal :: "int \<Rightarrow> string" where
  "microToDecimal x =
     (let sign = (if x < 0 then ''-'' else ''''); a = nat \<bar>x\<bar>;
          whole = to_string10 (a div 1000000);
          frac = rstrip0 (pad_start 6 (CHR ''0'') (to_string10 (a mod 1000000)))
      in if frac \<noteq> '''' then sign @ whole @ ''.'' @ frac else sign @ whole)"

record BetAuthorizedEvent =
  be_nullifier :: string
  be_market_id :: string
  be_position_id :: string
  be_expected_shares :: int
  be_bet_amount :: int
  be_price :: int
  be_new_commitment :: string

definition toFixed6 :: "rat \<Rightarrow> rat" where
  "toFixed6 x = of_int (math_round (x * 1000000)) / 1000000"

definition market_tick :: "order_env \<Rightarrow> string \<Rightarrow> rat" where
  "market_tick env token = (case oe_tick env token of Some t \<Rightarrow> if t > 0 then t else 1 / 1000 | None \<Rightarrow> 1 / 1000)"

definition tick_price :: "rat \<Rightarrow> rat \<Rightarrow> rat" where
  "tick_price raw tick = toFixed6 (of_int \<lceil>raw / tick - 1 / 1000000000\<rceil> * tick)"

text \<open>The stake, capped by the wallet's balance on chain and by the one the exchange sees.\<close>

definition buy_budget :: "order_env \<Rightarrow> BetAuthorizedEvent \<Rightarrow> rat" where
  "buy_budget env ev =
     (let stake = of_int (be_bet_amount ev) / 1000000;
          b1 = (case oe_pusd_balance env of
                  Some bal \<Rightarrow> if of_int bal / 1000000 < stake then of_int bal / 1000000 else stake
                | None \<Rightarrow> stake)
      in case oe_clob_balance env of
           Some raw \<Rightarrow> let clob = raw / 1000000 in if clob > 0 \<and> clob < b1 then clob else b1
         | None \<Rightarrow> b1)"

definition builder_taker :: "order_env \<Rightarrow> rat" where
  "builder_taker env =
     (if oe_builder_code env = '''' then 0
      else case oe_builder_taker env (oe_builder_code env) of None \<Rightarrow> 0 | Some r \<Rightarrow> r)"

definition adjust_for_fees :: "order_env \<Rightarrow> fee_schedule \<Rightarrow> rat \<Rightarrow> rat \<Rightarrow> rat option" where
  "adjust_for_fees env fs notional price =
     oe_adjust env notional price notional (fs_rate fs) (fs_exponent fs) (builder_taker env) (oe_slippage env)"

definition fee_budget :: "order_env \<Rightarrow> string \<Rightarrow> rat \<Rightarrow> rat \<Rightarrow> rat" where
  "fee_budget env token budget price =
     (let flat = budget * (1 - oe_fee_bps env / 10000)
      in case oe_fees env token of
           Some fs \<Rightarrow> (case adjust_for_fees env fs budget price of Some x \<Rightarrow> x | None \<Rightarrow> flat)
         | None \<Rightarrow> flat)"

definition budgetedBuyOrder :: "order_env \<Rightarrow> BetAuthorizedEvent \<Rightarrow> rat \<times> rat" where
  "budgetedBuyOrder env ev =
     (let price = tick_price (of_int (be_price ev) / 100000000) (market_tick env (be_position_id ev));
          feeBudget = fee_budget env (be_position_id ev) (buy_budget env ev) price;
          desired = of_int (be_expected_shares ev) / 1000000;
          affordable = (if price > 0 then of_int \<lfloor>feeBudget / price * 100\<rfloor> / 100 else desired)
      in (price, min desired affordable))"

definition DUST_SHARES :: int where "DUST_SHARES = 10000"

definition marketSpentWithFee :: "int \<Rightarrow> int \<Rightarrow> int \<Rightarrow> int" where
  "marketSpentWithFee betAmount filled submittedShares =
     (if filled \<ge> submittedShares - DUST_SHARES then betAmount
      else let spent = big_div (betAmount * filled) submittedShares
           in if spent > betAmount then betAmount else spent)"

definition clobTakerFeeUsd :: "order_env \<Rightarrow> bool \<Rightarrow> string \<Rightarrow> rat \<Rightarrow> rat \<Rightarrow> int" where
  "clobTakerFeeUsd env client token notional priceFrac =
     (if \<not> client \<or> \<not> notional > 0 \<or> \<not> priceFrac > 0 \<or> \<not> priceFrac < 1 then 0
      else case oe_fees env token of
        None \<Rightarrow> 0
      | Some fs \<Rightarrow>
          (case adjust_for_fees env fs notional priceFrac of
             None \<Rightarrow> 0
           | Some adjusted \<Rightarrow> math_round (max 0 (notional - adjusted) * 1000000)))"

lemma marketSpentWithFee_bounds:
  assumes "0 \<le> b" "0 < filled" "0 < sub"
  shows "0 \<le> marketSpentWithFee b filled sub \<and> marketSpentWithFee b filled sub \<le> b"
  using assms by (auto simp: marketSpentWithFee_def Let_def js_simps pos_imp_zdiv_nonneg_iff)

lemma marketSpentWithFee_partial:
  assumes "0 \<le> b" "0 < filled" "filled < sub - DUST_SHARES"
  shows "marketSpentWithFee b filled sub * sub \<le> b * filled \<and> b * filled < (marketSpentWithFee b filled sub + 1) * sub"
proof -
  have sub: "0 < sub" using assms(2,3) by (simp add: DUST_SHARES_def)
  have m: "sub * (b * filled div sub) = b * filled - b * filled mod sub" by (simp add: minus_mod_eq_mult_div)
  have "b * filled \<le> b * sub" using assms by (intro mult_left_mono) (simp_all add: DUST_SHARES_def)
  from zdiv_mono1 [OF this sub] have "b * filled div sub \<le> b" using sub by simp
  then have "marketSpentWithFee b filled sub = b * filled div sub"
    using assms sub by (simp add: marketSpentWithFee_def Let_def js_simps)
  then show ?thesis using m pos_mod_bound [OF sub, of "b * filled"] pos_mod_sign [OF sub, of "b * filled"]
    by (simp add: algebra_simps m)
qed

subsection \<open>What an order function may change\<close>

lemma desk_atts_simps [simp]:
  "desk_atts (set_atts a d) = a"
  "desk_atts (d\<lparr>dk_submissions := s\<rparr>) = desk_atts d"
  "desk_atts (d\<lparr>dk_resting := r\<rparr>) = desk_atts d"
  "desk_atts (d\<lparr>dk_breaker := b\<rparr>) = desk_atts d"
  "desk_atts (d\<lparr>dk_sent := ps\<rparr>) = desk_atts d"
  "dk_sent (set_atts a d) = dk_sent d"
  "dk_submissions (set_atts a d) = dk_submissions d"
  by (simp_all add: desk_atts_def set_atts_def)

lemma caught_frame [simp]:
  "desk_atts (caught e d) = desk_atts d" "dk_sent (caught e d) = dk_sent d"
  "dk_submissions (caught e d) = dk_submissions d" "dk_tracker (caught e d) = dk_tracker d"
  by (auto simp: caught_def split: option.splits)

lemma attest_frame [simp]:
  "dk_sent (attest env nf r a b d) = dk_sent d"
  "dk_sent (attest_terminal env bet f s d) = dk_sent d"
  "dk_submissions (attest_terminal env bet f s d) = dk_submissions d"
  by (auto simp: attest_def attest_terminal_def)

text \<open>A row that a signing added is the one it was asked for.\<close>

lemma sign_new_row:
  assumes "map_of tab k = None" and "map_of (snd (signAndStoreAttestation sign i tab)) k = Some row"
  shows "k = (in_nullifier i, in_type i) \<and> (\<exists>sig. row = attestation_of i sig)"
  using assms by (auto simp: signAndStoreAttestation_def case_prod_beta map_of_insert_ignore
      split: option.splits sum.splits if_splits)

lemma attest_new_row:
  assumes "map_of (desk_atts d) k = None" and "map_of (desk_atts (attest env nf r a b d)) k = Some row"
  shows "k = (nf, r) \<and> at_amount_a row = a \<and> at_amount_b row = b"
proof (cases "oe_domain env")
  case True
  then have "map_of (snd (signAndStoreAttestation (oe_sign env)
      \<lparr>in_nullifier = nf, in_type = r, in_amount_a = a, in_amount_b = b\<rparr> (desk_atts d))) k = Some row"
    using assms(2) by (simp add: attest_def)
  from sign_new_row [OF assms(1) this] show ?thesis by (auto simp: attestation_of_def)
next
  case False
  then show ?thesis using assms by (simp add: attest_def)
qed

lemma attest_terminal_new_row:
  assumes "map_of (desk_atts d) k = None" and "map_of (desk_atts (attest_terminal env bet f s d)) k = Some row"
  shows "\<exists>i sig. terminal_input bet f s = Some i \<and> k = (in_nullifier i, in_type i) \<and> row = attestation_of i sig"
proof (cases "terminal_input bet f s")
  case None
  then show ?thesis using assms by (simp add: attest_terminal_def attestTerminal_def)
next
  case (Some i)
  then have "oe_domain env" using assms by (auto simp: attest_terminal_def attestTerminal_def split: if_splits)
  then have "map_of (snd (signAndStoreAttestation (oe_sign env) i (desk_atts d))) k = Some row"
    using Some assms(2) by (simp add: attest_terminal_def attestTerminal_def)
  from sign_new_row [OF assms(1) this] Some show ?thesis by auto
qed

text \<open>Which report a buy gets for a fill.\<close>

lemma terminal_buy:
  assumes "tb_side bet = BUY" and "terminal_input bet f s = Some i"
  shows "in_nullifier i = tb_nullifier bet \<and>
    (in_type i = FAILED \<longleftrightarrow> f \<le> 0) \<and>
    (in_type i = PARTIAL \<longrightarrow> in_amount_a i = f \<and> 0 < f \<and> f + DUST < tb_expected_shares bet \<and>
       in_amount_b i = min s (tb_bet_amount bet)) \<and>
    (in_type i = FILLED \<longrightarrow> 0 < f \<and> tb_expected_shares bet \<le> f + DUST) \<and> in_type i \<noteq> SOLD"
  using assms by (auto simp: terminal_input_def min_def split: if_splits)

subsection \<open>Bounds of the sizing\<close>

lemma toFixed6_tick:
  "t = of_int n / 1000000 \<Longrightarrow> toFixed6 (of_int k * t) = of_int k * t"
proof -
  assume t: "t = of_int n / 1000000"
  then have "of_int k * t * 1000000 = of_int (k * n)" by simp
  then have "toFixed6 (of_int k * t) = of_int (k * n) / 1000000"
    unfolding toFixed6_def by (simp only: math_round_int)
  also have "of_int (k * n) / 1000000 = of_int k * t" unfolding t by simp
  finally show ?thesis .
qed

lemma tick_bounds:
  fixes t raw k :: rat
  assumes "0 < t" "raw / t - 1 / 1000000000 \<le> k" "k < raw / t - 1 / 1000000000 + 1"
  shows "raw - t / 1000000000 \<le> k * t \<and> k * t < raw + t"
proof -
  have "(raw / t - 1 / 1000000000) * t \<le> k * t" using assms(1,2) by (simp add: mult_right_mono)
  moreover have "k * t < (raw / t + 1) * t" using assms(1,3) by (intro mult_strict_right_mono) auto
  ultimately show ?thesis using assms(1) by (simp add: algebra_simps)
qed

lemma floor_cents_le: "of_int \<lfloor>x * 100 :: rat\<rfloor> / 100 \<le> x"
  using of_int_floor_le [of "x * 100"] by (simp add: field_simps)

lemma buy_budget_bounds:
  assumes "0 \<le> be_bet_amount ev" and "\<And>b. oe_pusd_balance env = Some b \<Longrightarrow> 0 \<le> b"
  shows "0 \<le> buy_budget env ev \<and> buy_budget env ev \<le> of_int (be_bet_amount ev) / 1000000 \<and>
    (\<forall>b. oe_pusd_balance env = Some b \<longrightarrow> buy_budget env ev \<le> of_int b / 1000000)"
  using assms by (auto simp: buy_budget_def Let_def split: option.split)

lemma fee_budget_le:
  assumes "\<And>n p b r e t s x. oe_adjust env n p b r e t s = Some x \<Longrightarrow> x \<le> n"
    and "0 \<le> oe_fee_bps env" and "0 \<le> budget"
  shows "fee_budget env token budget price \<le> budget"
proof -
  have "budget * (1 - oe_fee_bps env / 10000) \<le> budget"
    using assms(2,3) mult_left_mono [of "1 - oe_fee_bps env / 10000" 1 budget] by simp
  then show ?thesis using assms(1)
    by (auto simp: fee_budget_def adjust_for_fees_def Let_def split: option.split)
qed

end
