(* ===== verification/Orders_Buy.thy ===== *)
theory Orders_Buy
  imports Order_Base
begin

section \<open>Buying: fill-or-kill, fill-and-kill and resting orders\<close>

text \<open>
  The buy side of \<open>signing-layer/src/orderBuilder.ts\<close>: \<open>submitFOKOrder\<close>,
  \<open>submitFAKOrder\<close>, \<open>submitLimitOrder\<close> and the reconcile of a market order that
  has no terminal report yet.  The rate limiter runs one job at a time; a job is
  one step of the model.
\<close>

definition mock_body :: "string \<Rightarrow> int \<Rightarrow> int \<Rightarrow> side \<Rightarrow> post_type \<Rightarrow> int \<Rightarrow> mock_order" where
  "mock_body token price amt sd ty expiration =
     \<lparr>mo_token = token, mo_price_text = microToDecimal price, mo_makerAmount = microToDecimal amt,
      mo_side = sd, mo_type = ty, mo_expiration = expiration\<rparr>"

definition prod_buy :: "BetAuthorizedEvent \<Rightarrow> rat \<times> rat \<Rightarrow> post_type \<Rightarrow> int \<Rightarrow> prod_order" where
  "prod_buy ev ps ty expiration =
     \<lparr>po_token = be_position_id ev, po_price = fst ps, po_size = snd ps, po_side = BUY, po_type = ty,
      po_expiration = expiration, po_balance = Some (of_int (be_bet_amount ev) / 1000000)\<rparr>"

definition sent :: "post \<Rightarrow> desk \<Rightarrow> desk" where
  "sent p d = d\<lparr>dk_sent := dk_sent d @ [p]\<rparr>"

text \<open>
  Placing a buy order: an early return (\<open>Inr None\<close>: a 403 of the mock, or no
  client), an exception, or the reply with the production order's price and size.
\<close>

definition place_buy :: "order_env \<Rightarrow> BetAuthorizedEvent \<Rightarrow> post_type \<Rightarrow> int \<Rightarrow> desk
    \<Rightarrow> (thrown + (clob_reply \<times> (rat \<times> rat) option) option) \<times> desk" where
  "place_buy env ev ty expiration d =
     (if is_mock env then
        (let m = mock_body (be_position_id ev) (be_price ev) (be_bet_amount ev) BUY ty expiration;
             d1 = sent (Mock m) d
         in case oe_mock_post env m of
              Inl e \<Rightarrow> (Inl e, d1)
            | Inr None \<Rightarrow> (Inr None, d1\<lparr>dk_breaker := checkResponse 403 None (dk_breaker d1)\<rparr>)
            | Inr (Some r) \<Rightarrow> (Inr (Some (r, None)), d1))
      else
        (case getOrCreateClobClient env of
           Inl e \<Rightarrow> (Inl e, d)
         | Inr False \<Rightarrow> (Inr None, d)
         | Inr True \<Rightarrow>
             let ps = budgetedBuyOrder env ev; p = prod_buy ev ps ty expiration; d1 = sent (Prod p) d
             in case oe_prod_post env p of
                  Inl e \<Rightarrow> (Inl e, d1)
                | Inr r \<Rightarrow> (Inr (Some (r, Some ps)), d1)))"

definition bet_terminal :: "BetAuthorizedEvent \<Rightarrow> terminal_bet" where
  "bet_terminal ev = \<lparr>tb_nullifier = be_nullifier ev, tb_expected_shares = be_expected_shares ev,
     tb_bet_amount = be_bet_amount ev, tb_side = BUY\<rparr>"

definition submitted_shares :: "(rat \<times> rat) option \<Rightarrow> int" where
  "submitted_shares ps = (case ps of None \<Rightarrow> 0 | Some (p, sz) \<Rightarrow> math_round (sz * 1000000))"

subsection \<open>Fill or kill\<close>

text \<open>The fill a reply reports; \<open>None\<close> where \<open>BigInt\<close> throws on a number that is not finite.\<close>

definition fok_fill :: "BetAuthorizedEvent \<Rightarrow> (rat \<times> rat) option \<Rightarrow> clob_reply \<Rightarrow> (int \<times> int) option" where
  "fok_fill ev ps r =
     (if reply_status r = ''matched'' \<or> reply_status r = ''filled'' then
        (case (rp_filledShares r, rp_spentAmount r) of
           (Some f, Some s) \<Rightarrow> Some (\<lfloor>f\<rfloor>, \<lfloor>s\<rfloor>)
         | _ \<Rightarrow>
             if rp_takingAmount r \<noteq> Absent \<or> rp_makingAmount r \<noteq> Absent then
               (case (round6 (rp_takingAmount r), round6 (rp_makingAmount r)) of
                  (Some f, Some s) \<Rightarrow> Some (f, s) | _ \<Rightarrow> None)
             else (case rp_size_matched r of
                NotANumber \<Rightarrow> None
              | Amount shares \<Rightarrow>
                  let px = (case ps of Some (p, _) \<Rightarrow> p | None \<Rightarrow> of_int (be_price ev) / 100000000)
                  in Some (\<lfloor>shares * 1000000\<rfloor>, \<lceil>shares * px * 1000000\<rceil>)
              | Absent \<Rightarrow>
                  (case ps of
                     Some (p, sz) \<Rightarrow> Some (math_round (sz * 1000000), \<lceil>sz * p * 1000000\<rceil>)
                   | None \<Rightarrow> Some (be_expected_shares ev, be_bet_amount ev))))
      else Some (0, 0))"

text \<open>
  After a production order the fee is part of what is spent.  The division of
  \<open>marketSpentWithFee\<close> throws where the size rounds to 0 and the fill is tiny
  (\<open>filled\<close> then exceeds it, so that branch is not reached).
\<close>

definition fok_spent :: "BetAuthorizedEvent \<Rightarrow> (rat \<times> rat) option \<Rightarrow> int \<Rightarrow> int \<Rightarrow> int" where
  "fok_spent ev ps filled spent =
     (if ps \<noteq> None \<and> filled > 0 then marketSpentWithFee (be_bet_amount ev) filled (submitted_shares ps) else spent)"

definition submitFOKOrder :: "order_env \<Rightarrow> BetAuthorizedEvent \<Rightarrow> desk \<Rightarrow> desk" where
  "submitFOKOrder env ev d =
     (if desk_isHalted d then d
      else if \<not> oe_funded env (be_bet_amount ev) then reportFOKFailureSafe env (be_nullifier ev) d
      else (case place_buy env ev PFOK 0 d of
        (Inl e, d1) \<Rightarrow> caught e d1
      | (Inr None, d1) \<Rightarrow> d1
      | (Inr (Some (r, ps)), d1) \<Rightarrow>
          (case fok_fill ev ps r of
             None \<Rightarrow> d1
           | Some (filled, spent) \<Rightarrow> attest_terminal env (bet_terminal ev) filled (fok_spent ev ps filled spent) d1)))"

subsection \<open>Fill and kill\<close>

definition fak_fill :: "BetAuthorizedEvent \<Rightarrow> clob_reply \<Rightarrow> (int \<times> int) option" where
  "fak_fill ev r =
     (case (rp_filledShares r, rp_spentAmount r) of
        (Some f, Some s) \<Rightarrow> Some (\<lfloor>f\<rfloor>, \<lfloor>s\<rfloor>)
      | _ \<Rightarrow>
          if rp_takingAmount r \<noteq> Absent \<or> rp_makingAmount r \<noteq> Absent then
            (case (round6 (rp_takingAmount r), round6 (rp_makingAmount r)) of
               (Some f, Some s) \<Rightarrow> Some (f, s) | _ \<Rightarrow> None)
          else (case rp_size_matched r of
             Absent \<Rightarrow> Some (0, 0)
           | NotANumber \<Rightarrow> None
           | Amount shares \<Rightarrow>
               let f = \<lfloor>shares * 1000000\<rfloor> in Some (f, big_div (f * be_price ev) 100000000)))"

definition fak_spent :: "BetAuthorizedEvent \<Rightarrow> (rat \<times> rat) option \<Rightarrow> int \<Rightarrow> int \<Rightarrow> int" where
  "fak_spent ev ps filled spent =
     (if submitted_shares ps > 0 \<and> filled > 0
      then marketSpentWithFee (be_bet_amount ev) filled (submitted_shares ps) else spent)"

definition REJECTION_WORDS :: "string list" where
  "REJECTION_WORDS = [''invalid amount'', ''min size'', ''not enough'', ''insufficient'', ''too small'',
     ''rejected'', ''bad request'']"

definition rejected :: "clob_reply \<Rightarrow> bool" where
  "rejected r \<longleftrightarrow>
     (case rp_status_num r of None \<Rightarrow> False | Some n \<Rightarrow> n \<ge> 400) \<or>
     (\<exists>w \<in> set REJECTION_WORDS. js_includes w (lower (reply_error r)))"

definition not_filled_text :: "string \<Rightarrow> bool" where
  "not_filled_text s \<longleftrightarrow>
     (\<exists>w \<in> set [''notfilled'', ''not_filled'', ''not filled'']. js_includes w (lower s))"

definition explicitMiss :: "clob_reply \<Rightarrow> bool" where
  "explicitMiss r \<longleftrightarrow>
     reply_status r = ''unmatched'' \<or> reply_status r = ''killed'' \<or> reply_status r = ''cancelled'' \<or>
     not_filled_text (reply_error r) \<or> rejected r"

definition record_order_id :: "string \<Rightarrow> string \<Rightarrow> desk \<Rightarrow> desk" where
  "record_order_id nf oid d =
     (if oid \<noteq> '''' then d\<lparr>dk_submissions := setMarketOrderId nf oid (dk_submissions d)\<rparr> else d)"

definition mark_submitting :: "order_env \<Rightarrow> BetAuthorizedEvent \<Rightarrow> desk \<Rightarrow> desk" where
  "mark_submitting env ev d = d\<lparr>dk_submissions :=
     markMarketSubmitting (be_nullifier ev) (be_market_id ev) (now_sec env) (dk_submissions d)\<rparr>"

definition submitFAKOrder :: "order_env \<Rightarrow> BetAuthorizedEvent \<Rightarrow> desk \<Rightarrow> desk" where
  "submitFAKOrder env ev d =
     (if desk_isHalted d then d
      else if \<not> oe_funded env (be_bet_amount ev) then reportFOKFailureSafe env (be_nullifier ev) d
      else (case place_buy env ev PFAK 0 (mark_submitting env ev d) of
        (Inl e, d1) \<Rightarrow> caught e d1
      | (Inr None, d1) \<Rightarrow> d1
      | (Inr (Some (r, ps)), d1) \<Rightarrow>
          let d2 = record_order_id (be_nullifier ev) (string_id r) d1
          in case fak_fill ev r of
               None \<Rightarrow> d2
             | Some (filled, spent) \<Rightarrow>
                 if filled = 0 \<and> \<not> explicitMiss r \<and> \<not> is_mock env then d2
                 else attest_terminal env (bet_terminal ev) filled (fak_spent ev ps filled spent) d2))"

subsection \<open>Resting orders\<close>

record LimitOrderParams =
  lp_orderType :: order_type
  lp_expiration :: int

fun post_of :: "order_type \<Rightarrow> post_type" where
  "post_of GTC = PGTC"
| "post_of GTD = PGTD"

definition effective_expiration :: "order_env \<Rightarrow> LimitOrderParams \<Rightarrow> int" where
  "effective_expiration env params =
     (if lp_orderType params = GTD then now_sec env + 60 + lp_expiration params else 0)"

definition accepted_status :: "string \<Rightarrow> bool" where
  "accepted_status s \<longleftrightarrow> s = ''live'' \<or> s = ''matched'' \<or> s = ''delayed''"

definition track :: "tracked_order \<Rightarrow> desk \<Rightarrow> desk" where
  "track ord d = d\<lparr>dk_tracker := snd (trackOrder ord (dk_tracker d))\<rparr>"

text \<open>The taker fee of the part that crossed: \<open>Number(x ?? 0)\<close>, no fee unless it is positive.\<close>

fun crossed :: "amount \<Rightarrow> rat" where
  "crossed (Amount x) = x"
| "crossed _ = 0"

definition crossing_fee :: "order_env \<Rightarrow> string \<Rightarrow> amount \<Rightarrow> rat \<Rightarrow> thrown + int" where
  "crossing_fee env token amt priceFrac =
     (if is_mock env \<or> \<not> crossed amt > 0 then Inr 0
      else bind_sum (getOrCreateClobClient env)
             (\<lambda>client. Inr (clobTakerFeeUsd env client token (crossed amt * priceFrac) priceFrac)))"

definition submitLimitOrder :: "order_env \<Rightarrow> BetAuthorizedEvent \<Rightarrow> LimitOrderParams \<Rightarrow> desk \<Rightarrow> desk" where
  "submitLimitOrder env ev params d =
     (if desk_isHalted d then d
      else if \<not> oe_funded env (be_bet_amount ev) then reportFOKFailureSafe env (be_nullifier ev) d
      else let expiration = effective_expiration env params
        in case place_buy env ev (post_of (lp_orderType params)) expiration d of
          (Inl e, d1) \<Rightarrow> caught e d1
        | (Inr None, d1) \<Rightarrow> d1
        | (Inr (Some (r, ps)), d1) \<Rightarrow>
            let d2 = (if reply_status r = ''live''
                      then d1\<lparr>dk_resting := markResting (be_nullifier ev) (now_sec env) (dk_resting d1)\<rparr> else d1)
            in case order_id r of
                 None \<Rightarrow> if accepted_status (reply_status r) then d2
                         else attest env (be_nullifier ev) FAILED 0 0 d2
               | Some oid \<Rightarrow>
                   (case crossing_fee env (be_position_id ev) (rp_takingAmount r)
                           (of_int (be_price ev) / 100000000) of
                      Inl e \<Rightarrow> caught e d2
                    | Inr fee \<Rightarrow> track \<lparr>to_nullifier = be_nullifier ev, to_orderID = oid,
                        to_conditionId = be_market_id ev, to_tokenId = be_position_id ev,
                        to_expected_shares = be_expected_shares ev, to_bet_amount = be_bet_amount ev,
                        to_price = be_price ev, to_orderType = lp_orderType params,
                        to_expiration = expiration, to_side = BUY, to_sellLimitPrice = 0,
                        to_takerFeeUsd = fee\<rparr> d2))"

subsection \<open>Reconciling a market order\<close>

definition STALE_SUBMISSION_SEC :: int where "STALE_SUBMISSION_SEC = 300"

datatype reconcile_answer = R_Finalized | R_Processing

text \<open>
  \<open>rec\<close> is the bet's expected shares and stake on chain (\<open>None\<close>: the read
  failed); \<open>od\<close> what \<open>getOrder\<close> answers: an exception, nothing, or the order.
\<close>

definition reconcileMarketSubmission :: "order_env \<Rightarrow> bool \<Rightarrow> (int \<times> int) option
    \<Rightarrow> (string \<Rightarrow> string + clob_order option) \<Rightarrow> string \<Rightarrow> market_submission \<Rightarrow> desk
    \<Rightarrow> reconcile_answer \<times> desk" where
  "reconcileMarketSubmission env client rec od nf sub d =
     (if getAttestation nf None (desk_atts d) \<noteq> None then (R_Finalized, d)
      else case ms_order_id sub of
        None \<Rightarrow>
          if now_sec env - ms_submitted_at sub > STALE_SUBMISSION_SEC
          then (R_Finalized, attestFailedFor env nf d)
          else (R_Processing, d)
      | Some oid \<Rightarrow>
          if \<not> client then (R_Processing, d)
          else (case rec of
            None \<Rightarrow> (R_Processing, d)
          | Some (expected, stake) \<Rightarrow>
              (case od oid of
                 Inr (Some x) \<Rightarrow>
                   let st = upper (co_status x)
                   in if st \<noteq> '''' \<and> \<not> live_status st then
                        (let filled = math_round (co_size_matched x * 1000000);
                             spent = math_round (co_size_matched x * co_price x * 1000000);
                             d1 = attest_terminal env \<lparr>tb_nullifier = nf, tb_expected_shares = expected,
                                    tb_bet_amount = stake, tb_side = BUY\<rparr> filled spent d
                         in (if getAttestation nf None (desk_atts d1) \<noteq> None then R_Finalized else R_Processing, d1))
                      else (R_Processing, d)
               | _ \<Rightarrow> (R_Processing, d))))"

subsection \<open>Lemmas\<close>

lemma place_buy_frame:
  assumes "place_buy env ev ty x d = (r, d1)"
  shows "desk_atts d1 = desk_atts d \<and> dk_submissions d1 = dk_submissions d \<and> dk_tracker d1 = dk_tracker d"
  using assms by (auto simp: place_buy_def sent_def desk_atts_def Let_def split: if_splits sum.splits option.splits bool.splits)

lemma place_buy_prod:
  assumes "\<not> is_mock env" and "place_buy env ev ty x d = (Inr (Some (r, ps)), d1)"
  shows "ps = Some (budgetedBuyOrder env ev) \<and>
    oe_prod_post env (prod_buy ev (budgetedBuyOrder env ev) ty x) = Inr r \<and>
    dk_sent d1 = dk_sent d @ [Prod (prod_buy ev (budgetedBuyOrder env ev) ty x)]"
  using assms by (auto simp: place_buy_def sent_def Let_def split: sum.splits option.splits bool.splits)

lemma track_frame [simp]:
  "desk_atts (track ord d) = desk_atts d" "dk_sent (track ord d) = dk_sent d"
  by (auto simp: track_def desk_atts_def trackOrder_def persist_def Let_def)

lemma record_order_id_frame [simp]:
  "desk_atts (record_order_id nf oid d) = desk_atts d" "dk_sent (record_order_id nf oid d) = dk_sent d"
  by (simp_all add: record_order_id_def)

lemma mark_frame [simp]:
  "desk_atts (mark_submitting env ev d) = desk_atts d" "dk_sent (mark_submitting env ev d) = dk_sent d"
  by (simp_all add: mark_submitting_def)

text \<open>A fill-and-kill run that adds a report, on production: where it comes from.\<close>

lemma fak_new_row:
  assumes "\<not> is_mock env" and "map_of (desk_atts d) k = None"
    and "map_of (desk_atts (submitFAKOrder env ev d)) k = Some row"
  obtains (unfunded) "\<not> oe_funded env (be_bet_amount ev)" "k = (be_nullifier ev, FAILED)"
      "dk_sent (submitFAKOrder env ev d) = dk_sent d"
  | (replied) r f s i sig where "oe_funded env (be_bet_amount ev)"
      "dk_sent (submitFAKOrder env ev d) = dk_sent d @ [Prod (prod_buy ev (budgetedBuyOrder env ev) PFAK 0)]"
      "oe_prod_post env (prod_buy ev (budgetedBuyOrder env ev) PFAK 0) = Inr r"
      "fak_fill ev r = Some (f, s)" "f \<noteq> 0 \<or> explicitMiss r"
      "terminal_input (bet_terminal ev) f (fak_spent ev (Some (budgetedBuyOrder env ev)) f s) = Some i"
      "k = (in_nullifier i, in_type i)" "row = attestation_of i sig"
proof (cases "desk_isHalted d \<or> \<not> oe_funded env (be_bet_amount ev)")
  case True
  then have "\<not> desk_isHalted d" using assms by (auto simp: submitFAKOrder_def)
  with True show ?thesis
    using assms attest_new_row [of d k env "be_nullifier ev" FAILED 0 0 row]
    by (intro unfunded) (auto simp: submitFAKOrder_def reportFOKFailureSafe_def)
next
  case False
  obtain res d1 where pl: "place_buy env ev PFAK 0 (mark_submitting env ev d) = (res, d1)" by fastforce
  have fr: "desk_atts d1 = desk_atts d" using place_buy_frame [OF pl] by simp
  have "\<exists>r ps. res = Inr (Some (r, ps))"
  proof (rule ccontr)
    assume "\<not> ?thesis"
    then have "desk_atts (submitFAKOrder env ev d) = desk_atts d"
      using False pl fr by (auto simp: submitFAKOrder_def split: sum.splits option.splits)
    with assms show False by simp
  qed
  then obtain r ps where res: "res = Inr (Some (r, ps))" by blast
  note pr = place_buy_prod [OF assms(1) pl [unfolded res]]
  define d2 where "d2 = record_order_id (be_nullifier ev) (string_id r) d1"
  have eq: "submitFAKOrder env ev d = (case fak_fill ev r of None \<Rightarrow> d2
      | Some (filled, spent) \<Rightarrow> if filled = 0 \<and> \<not> explicitMiss r then d2
          else attest_terminal env (bet_terminal ev) filled (fak_spent ev ps filled spent) d2)"
    using False pl res assms(1) by (auto simp: submitFAKOrder_def d2_def Let_def split: option.split)
  have d2: "desk_atts d2 = desk_atts d" "dk_sent d2 = dk_sent d1" using fr by (simp_all add: d2_def)
  obtain f s where fs: "fak_fill ev r = Some (f, s)" "f \<noteq> 0 \<or> explicitMiss r"
    using eq d2 assms(2,3) by (auto split: option.splits if_splits)
  then have run: "submitFAKOrder env ev d = attest_terminal env (bet_terminal ev) f (fak_spent ev ps f s) d2"
    using eq by auto
  obtain i sig where i: "terminal_input (bet_terminal ev) f (fak_spent ev ps f s) = Some i"
    "k = (in_nullifier i, in_type i)" "row = attestation_of i sig"
    using attest_terminal_new_row [of d2 k env "bet_terminal ev" f "fak_spent ev ps f s" row] run assms(2,3) d2 by auto
  show ?thesis
    by (rule replied [of r f s i sig]) (use False pr fs i run d2 in auto)
qed

text \<open>What a partial fill is reported to have cost.\<close>

lemma fak_spent_cases:
  assumes "0 < f"
  defines "q \<equiv> \<lambda>ps :: rat \<times> rat. math_round (snd ps * 1000000)"
  shows "q ps \<le> 0 \<Longrightarrow> fak_spent ev (Some ps) f s = s"
    "0 < q ps \<Longrightarrow> q ps - 10000 \<le> f \<Longrightarrow> fak_spent ev (Some ps) f s = be_bet_amount ev"
    "0 < q ps \<Longrightarrow> f < q ps - 10000 \<Longrightarrow> 0 \<le> be_bet_amount ev \<Longrightarrow>
       fak_spent ev (Some ps) f s = be_bet_amount ev * f div q ps \<and> be_bet_amount ev * f div q ps \<le> be_bet_amount ev \<and>
       be_bet_amount ev * (q ps - f) \<le> (be_bet_amount ev - be_bet_amount ev * f div q ps) * q ps"
proof -
  have sub: "submitted_shares (Some ps) = q ps" by (cases ps) (simp add: submitted_shares_def q_def)
  show "q ps \<le> 0 \<Longrightarrow> fak_spent ev (Some ps) f s = s" by (simp add: fak_spent_def sub)
  show "0 < q ps \<Longrightarrow> q ps - 10000 \<le> f \<Longrightarrow> fak_spent ev (Some ps) f s = be_bet_amount ev"
    using assms(1) by (simp add: fak_spent_def sub marketSpentWithFee_def DUST_SHARES_def)
  assume q: "0 < q ps" "f < q ps - 10000" "0 \<le> be_bet_amount ev"
  let ?b = "be_bet_amount ev"
  have b: "?b * f div q ps * q ps \<le> ?b * f" using q(1) by (simp add: minus_mod_eq_div_mult [symmetric])
  have "?b * f \<le> ?b * q ps" using q by (intro mult_left_mono) simp_all
  from zdiv_mono1 [OF this q(1)] have le: "?b * f div q ps \<le> ?b" using q(1) by simp
  have "fak_spent ev (Some ps) f s = ?b * f div q ps"
    using assms(1) q le by (simp add: fak_spent_def sub marketSpentWithFee_def DUST_SHARES_def Let_def js_simps)
  then show "fak_spent ev (Some ps) f s = ?b * f div q ps \<and> ?b * f div q ps \<le> ?b \<and>
      ?b * (q ps - f) \<le> (?b - ?b * f div q ps) * q ps"
    using le b by (simp add: algebra_simps)
qed

text \<open>A resting order's submission adds no report but a failure, and only without an order.\<close>

lemma limit_new_row:
  assumes "\<not> is_mock env" and "map_of (desk_atts d) k = None"
    and "map_of (desk_atts (submitLimitOrder env ev params d)) k = Some row"
  shows "k = (be_nullifier ev, FAILED) \<and>
    (\<not> oe_funded env (be_bet_amount ev) \<and> dk_sent (submitLimitOrder env ev params d) = dk_sent d \<or>
     (\<exists>p r. dk_sent (submitLimitOrder env ev params d) = dk_sent d @ [Prod p] \<and> oe_prod_post env p = Inr r \<and>
        order_id r = None \<and> \<not> accepted_status (reply_status r)))"
proof (cases "desk_isHalted d \<or> \<not> oe_funded env (be_bet_amount ev)")
  case True
  then show ?thesis using assms attest_new_row [of d k env "be_nullifier ev" FAILED 0 0 row]
    by (auto simp: submitLimitOrder_def reportFOKFailureSafe_def split: if_splits)
next
  case False
  let ?x = "effective_expiration env params"
  obtain res d1 where pl: "place_buy env ev (post_of (lp_orderType params)) ?x d = (res, d1)" by fastforce
  have fr: "desk_atts d1 = desk_atts d" using place_buy_frame [OF pl] by simp
  have run: "submitLimitOrder env ev params d = (case res of Inl e \<Rightarrow> caught e d1 | Inr None \<Rightarrow> d1
      | Inr (Some (r, ps)) \<Rightarrow> (let d2 = (if reply_status r = ''live''
            then d1\<lparr>dk_resting := markResting (be_nullifier ev) (now_sec env) (dk_resting d1)\<rparr> else d1)
          in case order_id r of
               None \<Rightarrow> if accepted_status (reply_status r) then d2 else attest env (be_nullifier ev) FAILED 0 0 d2
             | Some oid \<Rightarrow>
                 (case crossing_fee env (be_position_id ev) (rp_takingAmount r) (of_int (be_price ev) / 100000000) of
                    Inl e \<Rightarrow> caught e d2
                  | Inr fee \<Rightarrow> track \<lparr>to_nullifier = be_nullifier ev, to_orderID = oid,
                      to_conditionId = be_market_id ev, to_tokenId = be_position_id ev,
                      to_expected_shares = be_expected_shares ev, to_bet_amount = be_bet_amount ev,
                      to_price = be_price ev, to_orderType = lp_orderType params,
                      to_expiration = ?x, to_side = BUY, to_sellLimitPrice = 0, to_takerFeeUsd = fee\<rparr> d2)))"
    using False pl by (auto simp: submitLimitOrder_def Let_def split: sum.split option.split)
  then obtain r ps where res: "res = Inr (Some (r, ps))"
    using assms(2,3) fr by (auto split: sum.splits option.splits)
  define d2 where "d2 = (if reply_status r = ''live''
      then d1\<lparr>dk_resting := markResting (be_nullifier ev) (now_sec env) (dk_resting d1)\<rparr> else d1)"
  have d2: "desk_atts d2 = desk_atts d" "dk_sent d2 = dk_sent d1" using fr by (simp_all add: d2_def)
  have run1: "submitLimitOrder env ev params d = (case order_id r of
      None \<Rightarrow> if accepted_status (reply_status r) then d2 else attest env (be_nullifier ev) FAILED 0 0 d2
    | Some oid \<Rightarrow>
        (case crossing_fee env (be_position_id ev) (rp_takingAmount r) (of_int (be_price ev) / 100000000) of
           Inl e \<Rightarrow> caught e d2
         | Inr fee \<Rightarrow> track \<lparr>to_nullifier = be_nullifier ev, to_orderID = oid,
             to_conditionId = be_market_id ev, to_tokenId = be_position_id ev,
             to_expected_shares = be_expected_shares ev, to_bet_amount = be_bet_amount ev,
             to_price = be_price ev, to_orderType = lp_orderType params,
             to_expiration = ?x, to_side = BUY, to_sellLimitPrice = 0, to_takerFeeUsd = fee\<rparr> d2))"
    unfolding run res d2_def by (simp add: Let_def)
  have none: "order_id r = None" "\<not> accepted_status (reply_status r)"
    using run1 assms(2,3) d2(1) by (auto split: option.splits sum.splits if_splits)
  then have run2: "submitLimitOrder env ev params d = attest env (be_nullifier ev) FAILED 0 0 d2"
    using run1 by simp
  note pr = place_buy_prod [OF assms(1) pl [unfolded res]]
  have "k = (be_nullifier ev, FAILED)"
    using attest_new_row [of d2 k env "be_nullifier ev" FAILED 0 0 row] run2 assms(2,3) d2 by simp
  with pr none run2 d2 show ?thesis by auto
qed

subsection \<open>Claims\<close>

text \<open>
  C18: A buy order never costs more than the bet's stake, the deposit wallet's
  balance, or what is left of them after the exchange's fee: price times size
  stays within the fee-adjusted budget, which stays within the stake and the
  balance; where the market has fees, price times size stays within what the package leaves of the
  budget, else within the budget less the configured flat fee.  The price is a multiple of the market's tick, at most one tick above
  the bet's price and not below it (up to the tolerance of the code), and the size
  never exceeds the committed shares.  The package's fee function is assumed not to
  add to the amount it is given.
\<close>

theorem buy_order_within_budget:
  assumes adj: "\<And>n p b r e t s x. oe_adjust env n p b r e t s = Some x \<Longrightarrow> x \<le> n"
    and bps: "0 \<le> oe_fee_bps env" and stake: "0 \<le> be_bet_amount ev"
    and bal: "\<And>b. oe_pusd_balance env = Some b \<Longrightarrow> 0 \<le> b"
    and tick: "market_tick env (be_position_id ev) = of_int n / 1000000"
    and ps: "budgetedBuyOrder env ev = (price, qty)" and pos: "0 < price"
  shows "price * qty \<le> fee_budget env (be_position_id ev) (buy_budget env ev) price \<and>
    fee_budget env (be_position_id ev) (buy_budget env ev) price \<le> buy_budget env ev \<and>
    (oe_fees env (be_position_id ev) = None \<longrightarrow> price * qty \<le> buy_budget env ev * (1 - oe_fee_bps env / 10000)) \<and>
    (\<forall>fs x. oe_fees env (be_position_id ev) = Some fs \<longrightarrow>
       oe_adjust env (buy_budget env ev) price (buy_budget env ev) (fs_rate fs) (fs_exponent fs) (builder_taker env)
         (oe_slippage env) = Some x \<longrightarrow> price * qty \<le> x) \<and>
    buy_budget env ev \<le> of_int (be_bet_amount ev) / 1000000 \<and>
    (\<forall>b. oe_pusd_balance env = Some b \<longrightarrow> buy_budget env ev \<le> of_int b / 1000000) \<and>
    qty \<le> of_int (be_expected_shares ev) / 1000000 \<and>
    (\<exists>k. price = of_int k * market_tick env (be_position_id ev)) \<and>
    of_int (be_price ev) / 100000000 - market_tick env (be_position_id ev) / 1000000000 \<le> price \<and>
    price < of_int (be_price ev) / 100000000 + market_tick env (be_position_id ev)"
proof -
  let ?t = "market_tick env (be_position_id ev)" and ?raw = "of_int (be_price ev) / 100000000 :: rat"
  let ?k = "\<lceil>?raw / ?t - 1 / 1000000000\<rceil>" and ?fb = "fee_budget env (be_position_id ev) (buy_budget env ev) price"
  have t0: "0 < ?t" by (simp add: market_tick_def split: option.split)
  have p: "price = tick_price ?raw ?t" and sz: "qty \<le> of_int (be_expected_shares ev) / 1000000"
    and af: "qty \<le> of_int \<lfloor>?fb / price * 100\<rfloor> / 100"
    using ps pos by (auto simp: budgetedBuyOrder_def Let_def)
  have pk: "price = of_int ?k * ?t" unfolding p tick_price_def by (rule toFixed6_tick [OF tick])
  have budget: "0 \<le> buy_budget env ev \<and> buy_budget env ev \<le> of_int (be_bet_amount ev) / 1000000 \<and>
      (\<forall>b. oe_pusd_balance env = Some b \<longrightarrow> buy_budget env ev \<le> of_int b / 1000000)"
    using stake bal by (rule buy_budget_bounds)
  have fee: "?fb \<le> buy_budget env ev" using budget adj bps by (intro fee_budget_le) auto
  have "qty \<le> ?fb / price" using af floor_cents_le [of "?fb / price"] by (rule order_trans)
  then have cost: "price * qty \<le> ?fb" using pos by (simp add: field_simps)
  have "?raw / ?t - 1 / 1000000000 \<le> of_int ?k" "of_int ?k < ?raw / ?t - 1 / 1000000000 + 1" by linarith+
  then have "?raw - ?t / 1000000000 \<le> of_int ?k * ?t" "of_int ?k * ?t < ?raw + ?t"
    using t0 tick_bounds [of ?t ?raw "of_int ?k"] by auto
  moreover have "oe_fees env (be_position_id ev) = None \<Longrightarrow> ?fb = buy_budget env ev * (1 - oe_fee_bps env / 10000)"
    "oe_fees env (be_position_id ev) = Some fs \<Longrightarrow>
       oe_adjust env (buy_budget env ev) price (buy_budget env ev) (fs_rate fs) (fs_exponent fs) (builder_taker env)
         (oe_slippage env) = Some x \<Longrightarrow> ?fb = x" for fs x
    by (simp_all add: fee_budget_def adjust_for_fees_def Let_def)
  ultimately show ?thesis using cost fee budget sz pk by auto
qed

text \<open>A concrete desk: production, funded, a fee of 1 percent, one bet of 10 dollars at 0.52.\<close>

definition demo_reply :: clob_reply where
  "demo_reply = \<lparr>rp_status = Some ''unmatched'', rp_status_num = None, rp_orderID = None, rp_orderId = None,
     rp_id = None, rp_filledShares = None, rp_spentAmount = None, rp_takingAmount = Amount 0,
     rp_makingAmount = Amount 0, rp_size_matched = Absent, rp_errorMsg = None, rp_error = None\<rparr>"

definition demo_env :: order_env where
  "demo_env = \<lparr>oe_api_url = None, oe_now_ms = 1000000, oe_funded = (\<lambda>a. True), oe_client = None,
     oe_prod_post = (\<lambda>p. Inr demo_reply), oe_mock_post = (\<lambda>p. Inr None), oe_tick = (\<lambda>t. Some (1 / 100)),
     oe_pusd_balance = Some 50000000, oe_clob_balance = None,
     oe_fees = (\<lambda>t. Some \<lparr>fs_rate = 1 / 100, fs_exponent = 1\<rparr>),
     oe_adjust = (\<lambda>n p b r e t s. Some (min n (n * (1 - r)))),
     oe_builder_code = '''', oe_builder_taker = (\<lambda>c. None), oe_slippage = 0, oe_fee_bps = 0,
     oe_sign = (\<lambda>i. Inr ''sig''), oe_domain = True\<rparr>"

definition demo_bet :: BetAuthorizedEvent where
  "demo_bet = \<lparr>be_nullifier = ''n'', be_market_id = ''m'', be_position_id = ''p'',
     be_expected_shares = 19000000, be_bet_amount = 10000000, be_price = 52000000, be_new_commitment = ''c''\<rparr>"

definition demo_desk :: desk where
  "demo_desk = \<lparr>dk_tracker = \<lparr>by_order_id = [], finalized = [], tracked_rows = [], attestations = [], has_wallet = True\<rparr>,
     dk_submissions = [], dk_resting = [], dk_breaker = \<lparr>br_halted = False, br_heartbeat = True, br_exited = False\<rparr>,
     dk_sent = []\<rparr>"

lemma demo_host: "\<not> is_mock demo_env"
  by (simp add: is_mock_def demo_env_def isMockClobHost_def)

theorem buy_order_within_budget_witness:
  "fst (budgetedBuyOrder demo_env demo_bet) * snd (budgetedBuyOrder demo_env demo_bet) \<le> 10"
proof -
  have "\<lceil>51999999999 / 1000000000 :: rat\<rceil> = 52" by (rule ceiling_unique) simp_all
  moreover have "\<lfloor>1 / 2 :: rat\<rfloor> = 0" by (simp add: floor_eq_iff)
  ultimately have "0 < fst (budgetedBuyOrder demo_env demo_bet)"
    by (simp add: budgetedBuyOrder_def Let_def tick_price_def toFixed6_def market_tick_def demo_env_def demo_bet_def
        math_round_def)
  moreover have "market_tick demo_env ''p'' = of_int 10000 / 1000000" by (simp add: market_tick_def demo_env_def)
  ultimately have "fst (budgetedBuyOrder demo_env demo_bet) * snd (budgetedBuyOrder demo_env demo_bet)
      \<le> fee_budget demo_env ''p'' (buy_budget demo_env demo_bet) (fst (budgetedBuyOrder demo_env demo_bet)) \<and>
      fee_budget demo_env ''p'' (buy_budget demo_env demo_bet) (fst (budgetedBuyOrder demo_env demo_bet))
      \<le> buy_budget demo_env demo_bet \<and> buy_budget demo_env demo_bet \<le> 10"
    using buy_order_within_budget [of demo_env demo_bet 10000 "fst (budgetedBuyOrder demo_env demo_bet)"
        "snd (budgetedBuyOrder demo_env demo_bet)"]
    by (auto simp: demo_env_def demo_bet_def)
  then show ?thesis by linarith
qed

text \<open>
  What a reply says, apart from the code's readers: the shares it reports as bought, in
  millionths, and whether it says that the order missed.
\<close>

definition says_bought :: "clob_reply \<Rightarrow> int \<Rightarrow> bool" where
  "says_bought r f \<longleftrightarrow>
     (case (rp_filledShares r, rp_spentAmount r) of
        (Some x, Some y) \<Rightarrow> f = \<lfloor>x\<rfloor>
      | _ \<Rightarrow> (case (rp_takingAmount r, rp_makingAmount r, rp_size_matched r) of
          (Amount x, _, _) \<Rightarrow> f = math_round (x * 1000000)
        | (Absent, Amount x, _) \<Rightarrow> f = 0
        | (Absent, Absent, Amount x) \<Rightarrow> f = \<lfloor>x * 1000000\<rfloor>
        | (Absent, Absent, Absent) \<Rightarrow> f = 0
        | _ \<Rightarrow> False))"

definition says_missed :: "clob_reply \<Rightarrow> bool" where
  "says_missed r \<longleftrightarrow>
     reply_status r \<in> {''unmatched'', ''killed'', ''cancelled''} \<or>
     (\<exists>n. rp_status_num r = Some n \<and> 400 \<le> n) \<or>
     (\<exists>w \<in> {''notfilled'', ''not_filled'', ''not filled'', ''invalid amount'', ''min size'', ''not enough'',
         ''insufficient'', ''too small'', ''rejected'', ''bad request''}. js_includes w (lower (reply_error r)))"

lemma explicitMiss_says: "explicitMiss r \<Longrightarrow> says_missed r"
  by (auto simp: explicitMiss_def says_missed_def rejected_def not_filled_text_def REJECTION_WORDS_def split: option.splits)

lemma fak_fill_says: "fak_fill ev r = Some (f, s) \<Longrightarrow> says_bought r f"
  by (cases "rp_takingAmount r"; cases "rp_makingAmount r")
    (auto simp: fak_fill_def says_bought_def Let_def split: option.splits amount.splits)

lemma not_accepted: "\<not> accepted_status st \<longleftrightarrow> st \<notin> {''live'', ''matched'', ''delayed''}"
  by (simp add: accepted_status_def)

text \<open>
  C14: No false reclaim.  On production, a buy is reported as failed, which lets
  the user take the stake back, only where the wallet could not be funded and
  nothing was sent, or where the one order that was sent got a reply that reports
  no fill: for a fill-and-kill order no shares bought and a miss in so many words (its status,
  an error code from 400 or its error text), for a resting order
  neither an order id nor a status that says it was accepted.  A market buy
  that is reported as filled in part names the fill of the reply, short of the committed
  shares by more than a cent of a share.  What it reports as spent is the stake
  times the part of the ordered shares that was filled, rounded down, so that at least
  the stake's share of the unfilled part is refunded; it is the whole stake exactly
  where the order was filled to within a cent of a share, and for an order of no
  shares what the reply says was spent, at most the stake.
\<close>

theorem no_false_reclaim:
  assumes "\<not> is_mock env" and "map_of (desk_atts d) (be_nullifier ev, FAILED) = None"
  shows "(map_of (desk_atts (submitFAKOrder env ev d)) (be_nullifier ev, FAILED) \<noteq> None \<longrightarrow>
      \<not> oe_funded env (be_bet_amount ev) \<and> dk_sent (submitFAKOrder env ev d) = dk_sent d \<or>
      (\<exists>p r f. dk_sent (submitFAKOrder env ev d) = dk_sent d @ [Prod p] \<and> oe_prod_post env p = Inr r \<and>
         says_bought r f \<and> f \<le> 0 \<and> (f = 0 \<longrightarrow> says_missed r))) \<and>
    (map_of (desk_atts (submitLimitOrder env ev params d)) (be_nullifier ev, FAILED) \<noteq> None \<longrightarrow>
      \<not> oe_funded env (be_bet_amount ev) \<and> dk_sent (submitLimitOrder env ev params d) = dk_sent d \<or>
      (\<exists>p r. dk_sent (submitLimitOrder env ev params d) = dk_sent d @ [Prod p] \<and> oe_prod_post env p = Inr r \<and>
         order_id r = None \<and> reply_status r \<notin> {''live'', ''matched'', ''delayed''})) \<and>
    (\<forall>row. map_of (desk_atts d) (be_nullifier ev, PARTIAL) = None \<longrightarrow>
       map_of (desk_atts (submitFAKOrder env ev d)) (be_nullifier ev, PARTIAL) = Some row \<longrightarrow>
       (\<exists>p r f s. oe_prod_post env p = Inr r \<and> fak_fill ev r = Some (f, s) \<and> says_bought r f \<and> 0 < f \<and>
          at_amount_a row = f \<and> f + 10000 < be_expected_shares ev \<and>
          (let q = math_round (snd (budgetedBuyOrder env ev) * 1000000); stake = be_bet_amount ev in
             (q \<le> 0 \<longrightarrow> at_amount_b row = min s stake) \<and>
             (0 < q \<and> q - 10000 \<le> f \<longrightarrow> at_amount_b row = stake) \<and>
             (0 < q \<and> f < q - 10000 \<and> 0 \<le> stake \<longrightarrow> at_amount_b row = stake * f div q \<and>
                stake * (q - f) \<le> (stake - at_amount_b row) * q))))"
proof (intro conjI impI allI)
  assume new: "map_of (desk_atts (submitFAKOrder env ev d)) (be_nullifier ev, FAILED) \<noteq> None"
  then obtain row where row: "map_of (desk_atts (submitFAKOrder env ev d)) (be_nullifier ev, FAILED) = Some row" by auto
  show "\<not> oe_funded env (be_bet_amount ev) \<and> dk_sent (submitFAKOrder env ev d) = dk_sent d \<or>
      (\<exists>p r f. dk_sent (submitFAKOrder env ev d) = dk_sent d @ [Prod p] \<and> oe_prod_post env p = Inr r \<and>
         says_bought r f \<and> f \<le> 0 \<and> (f = 0 \<longrightarrow> says_missed r))"
  proof (rule fak_new_row [OF assms row])
    fix r f s i sig
    assume a: "dk_sent (submitFAKOrder env ev d) = dk_sent d @ [Prod (prod_buy ev (budgetedBuyOrder env ev) PFAK 0)]"
      "oe_prod_post env (prod_buy ev (budgetedBuyOrder env ev) PFAK 0) = Inr r" "fak_fill ev r = Some (f, s)"
      "f \<noteq> 0 \<or> explicitMiss r" "(be_nullifier ev, FAILED) = (in_nullifier i, in_type i)"
      "terminal_input (bet_terminal ev) f (fak_spent ev (Some (budgetedBuyOrder env ev)) f s) = Some i"
    then have "f \<le> 0" using terminal_buy [OF _ a(6)] by (simp add: bet_terminal_def)
    with a(1-4) show ?thesis using fak_fill_says [OF a(3)] explicitMiss_says by blast
  qed blast
next
  assume "map_of (desk_atts (submitLimitOrder env ev params d)) (be_nullifier ev, FAILED) \<noteq> None"
  then show "\<not> oe_funded env (be_bet_amount ev) \<and> dk_sent (submitLimitOrder env ev params d) = dk_sent d \<or>
      (\<exists>p r. dk_sent (submitLimitOrder env ev params d) = dk_sent d @ [Prod p] \<and> oe_prod_post env p = Inr r \<and>
         order_id r = None \<and> reply_status r \<notin> {''live'', ''matched'', ''delayed''})"
    using limit_new_row [OF assms] unfolding not_accepted by auto
next
  fix row
  assume new: "map_of (desk_atts d) (be_nullifier ev, PARTIAL) = None"
    "map_of (desk_atts (submitFAKOrder env ev d)) (be_nullifier ev, PARTIAL) = Some row"
  let ?p = "prod_buy ev (budgetedBuyOrder env ev) PFAK 0"
  show "\<exists>p r f s. oe_prod_post env p = Inr r \<and> fak_fill ev r = Some (f, s) \<and> says_bought r f \<and> 0 < f \<and>
      at_amount_a row = f \<and> f + 10000 < be_expected_shares ev \<and>
      (let q = math_round (snd (budgetedBuyOrder env ev) * 1000000); stake = be_bet_amount ev in
         (q \<le> 0 \<longrightarrow> at_amount_b row = min s stake) \<and>
         (0 < q \<and> q - 10000 \<le> f \<longrightarrow> at_amount_b row = stake) \<and>
         (0 < q \<and> f < q - 10000 \<and> 0 \<le> stake \<longrightarrow> at_amount_b row = stake * f div q \<and>
            stake * (q - f) \<le> (stake - at_amount_b row) * q))"
  proof (rule fak_new_row [OF assms(1) new])
    fix r f s i sig
    assume a: "oe_prod_post env ?p = Inr r" "fak_fill ev r = Some (f, s)"
      "(be_nullifier ev, PARTIAL) = (in_nullifier i, in_type i)" "row = attestation_of i sig"
      "terminal_input (bet_terminal ev) f (fak_spent ev (Some (budgetedBuyOrder env ev)) f s) = Some i"
    then have row: "0 < f" "at_amount_a row = f" "f + 10000 < be_expected_shares ev"
        "at_amount_b row = min (fak_spent ev (Some (budgetedBuyOrder env ev)) f s) (be_bet_amount ev)"
      using terminal_buy [OF _ a(5)] by (simp_all add: bet_terminal_def attestation_of_def DUST_def)
    note sp = fak_spent_cases [OF row(1), where ev = ev and ps = "budgetedBuyOrder env ev" and s = s]
    show ?thesis
      by (rule exI [of _ ?p], rule exI [of _ r], rule exI [of _ f], rule exI [of _ s])
         (use a(1,2) row sp fak_fill_says [OF a(2)] in \<open>auto simp: Let_def\<close>)
  qed simp
qed

theorem no_false_reclaim_witness:
  "\<exists>p r f. dk_sent (submitFAKOrder demo_env demo_bet demo_desk) = [Prod p] \<and> oe_prod_post demo_env p = Inr r \<and>
     says_bought r f \<and> f \<le> 0 \<and> (f = 0 \<longrightarrow> says_missed r)"
proof -
  have st: "reply_status demo_reply = ''unmatched''" by code_simp
  have fill: "fak_fill demo_bet demo_reply = Some (0, 0)"
    by (simp add: fak_fill_def demo_reply_def math_round_def floor_eq_iff)
  have miss: "explicitMiss demo_reply" by (simp add: explicitMiss_def st)
  let ?p = "prod_buy demo_bet (budgetedBuyOrder demo_env demo_bet) PFAK 0"
  have e: "oe_funded demo_env a" "oe_prod_post demo_env q = Inr demo_reply" "oe_client demo_env = None"
    "oe_domain demo_env" "oe_sign demo_env i = Inr ''sig''" "string_id demo_reply = ''''" for a q i
    by (simp_all add: demo_env_def string_id_def demo_reply_def id_text_def orelse_def)
  have run: "submitFAKOrder demo_env demo_bet demo_desk =
      attest_terminal demo_env (bet_terminal demo_bet) 0 0 (sent (Prod ?p) (mark_submitting demo_env demo_bet demo_desk))"
    using demo_host fill miss
    by (simp add: submitFAKOrder_def demo_desk_def desk_isHalted_def place_buy_def getOrCreateClobClient_def e
        Let_def record_order_id_def fak_spent_def)
  have none: "desk_atts (sent (Prod ?p) (mark_submitting demo_env demo_bet demo_desk)) = []"
    by (simp add: sent_def mark_submitting_def demo_desk_def desk_atts_def)
  have "map_of (desk_atts (submitFAKOrder demo_env demo_bet demo_desk)) (be_nullifier demo_bet, FAILED) \<noteq> None"
    unfolding run attest_terminal_def none
    by (simp add: attestTerminal_def terminal_input_def bet_terminal_def e signAndStoreAttestation_def
        existing_row_def isBetOutcome_def readOutcomeRow_def case_prod_beta map_of_insert_ignore)
  moreover have "map_of (desk_atts demo_desk) (be_nullifier demo_bet, FAILED) = None"
    by (simp add: demo_desk_def desk_atts_def)
  moreover have "oe_funded demo_env (be_bet_amount demo_bet)" "dk_sent demo_desk = []" by (simp_all add: e demo_desk_def)
  ultimately show ?thesis
    using no_false_reclaim [OF demo_host, of demo_desk demo_bet] by (auto simp del: not_None_eq)
qed

end
