(* ===== verification/Market_Registry.thy ===== *)
theory Market_Registry
  imports Hex
begin

section \<open>From Polymarket's markets to registry and catalog\<close>

text \<open>
  \<open>signing-layer/src/marketRegistry.ts\<close> and the row mapping of
  \<open>proof-relay/src/marketCatalog.ts\<close>: which markets are mirrored, which token is
  side 0 and side 1, and the reverse lookups from the reduced on-chain market id.
  A Gamma market is taken after JSON and date parsing (\<open>parseJsonArray\<close> gives the
  empty list for anything that is no array; \<open>Date.parse\<close> gives milliseconds).
\<close>

record GammaMarket =
  gm_conditionId :: "string option"
  gm_question :: "string option"
  gm_outcomes :: "string list"
  gm_tokens :: "string list"
  gm_prices :: "rat option list"
  gm_enableOrderBook :: bool
  gm_acceptingOrders :: "bool option"
  gm_closed :: "bool option"
  gm_active :: "bool option"
  gm_end_ms :: "rat option"

fun indexOf :: "'a list \<Rightarrow> 'a \<Rightarrow> nat option" where
  "indexOf [] y = None"
| "indexOf (x # xs) y = (if x = y then Some 0 else map_option Suc (indexOf xs y))"

definition elem_at :: "'a list \<Rightarrow> nat \<Rightarrow> 'a option" where
  "elem_at xs i = (if i < length xs then Some (xs ! i) else None)"

definition present :: "string option \<Rightarrow> bool" where
  "present s \<longleftrightarrow> (case s of None \<Rightarrow> False | Some x \<Rightarrow> x \<noteq> '''')"

definition BINARY_PAIRS :: "(string \<times> string) list" where
  "BINARY_PAIRS = [(''yes'', ''no''), (''up'', ''down'')]"

subsection \<open>The signing layer's registry\<close>

record reg_row =
  rr_condition_id :: string
  rr_yes :: string
  rr_no :: string
  rr_question :: string
  rr_end_date :: "int option"
  rr_updated_at :: int

type_synonym registry = "(string \<times> reg_row) list"

definition parseEndDate :: "rat option \<Rightarrow> int option" where
  "parseEndDate ms = map_option (\<lambda>m. \<lfloor>m / 1000\<rfloor>) ms"

text \<open>The loop over the pairs in \<open>toRow\<close>: the first pair present decides.\<close>

fun registry_sides :: "(string \<times> string) list \<Rightarrow> string list \<Rightarrow> nat \<times> nat" where
  "registry_sides [] outcomes = (0, 1)"
| "registry_sides ((a, b) # ps) outcomes =
     (case (indexOf outcomes a, indexOf outcomes b) of
        (Some yi, Some ni) \<Rightarrow> (yi, ni)
      | _ \<Rightarrow> registry_sides ps outcomes)"

definition candidate_id :: "GammaMarket \<Rightarrow> string" where
  "candidate_id m = lower (case gm_conditionId m of None \<Rightarrow> '''' | Some c \<Rightarrow> c)"

definition id_shaped :: "string \<Rightarrow> bool" where
  "id_shaped cid \<longleftrightarrow> take 2 cid = ''0x'' \<and> length cid = 66"

text \<open>
  \<open>toRow\<close>: \<open>Inl\<close> is the exception of \<open>BigInt\<close> on an id that has the right length
  but is no hexadecimal number.
\<close>

definition toRow :: "GammaMarket \<Rightarrow> int \<Rightarrow> string + (string \<times> reg_row) option" where
  "toRow m ts =
     (let cid = candidate_id m; outcomes = map lower (gm_outcomes m) in
      if \<not> id_shaped cid then Inr None
      else if \<not> gm_enableOrderBook m then Inr None
      else if length outcomes \<noteq> 2 then Inr None
      else let (yesIdx, noIdx) = registry_sides BINARY_PAIRS outcomes;
               yes = elem_at (gm_tokens m) yesIdx; no = elem_at (gm_tokens m) noIdx
           in if \<not> present yes \<or> \<not> present no then Inr None
              else case toFieldSafe cid of
                     None \<Rightarrow> Inl ''SyntaxError''
                   | Some key \<Rightarrow> Inr (Some (key, \<lparr>rr_condition_id = cid, rr_yes = the yes, rr_no = the no,
                       rr_question = (case gm_question m of None \<Rightarrow> '''' | Some q \<Rightarrow> q),
                       rr_end_date = parseEndDate (gm_end_ms m), rr_updated_at = ts\<rparr>)))"

definition upsert_row :: "registry \<Rightarrow> string \<times> reg_row \<Rightarrow> registry" where
  "upsert_row tab kr =
     (case kr of (k, r) \<Rightarrow> AList.update k
        (r\<lparr>rr_end_date := orelse (rr_end_date r) (Option.bind (map_of tab k) rr_end_date)\<rparr>) tab)"

fun map_rows :: "(GammaMarket \<Rightarrow> string + 'r option) \<Rightarrow> GammaMarket list \<Rightarrow> string + 'r list" where
  "map_rows f [] = Inr []"
| "map_rows f (m # ms) =
     bind_sum (f m) (\<lambda>r. bind_sum (map_rows f ms) (\<lambda>rs. Inr (case r of None \<Rightarrow> rs | Some x \<Rightarrow> x # rs)))"

text \<open>
  One pass over the pages.  \<open>fetch page\<close> is the page, or \<open>None\<close> where the request
  failed or did not answer an array.  A row that throws ends the pass with the
  error; the pages before it are stored.
\<close>

definition PAGE :: nat where "PAGE = 500"
definition MAX_PAGES :: nat where "MAX_PAGES = 20"

fun sync_pages_from :: "(nat \<Rightarrow> GammaMarket list option) \<Rightarrow> int \<Rightarrow> nat \<Rightarrow> nat \<Rightarrow> nat \<Rightarrow> registry
    \<Rightarrow> (string + nat) \<times> registry" where
  "sync_pages_from fetch ts page 0 upserted tab = (Inr upserted, tab)"
| "sync_pages_from fetch ts page (Suc left) upserted tab =
     (case fetch page of
        None \<Rightarrow> (Inr upserted, tab)
      | Some [] \<Rightarrow> (Inr upserted, tab)
      | Some data \<Rightarrow>
          (case map_rows (\<lambda>m. toRow m ts) data of
             Inl e \<Rightarrow> (Inl e, tab)
           | Inr rows \<Rightarrow>
               let tab' = foldl upsert_row tab rows; n = upserted + length rows
               in if length data < PAGE then (Inr n, tab')
                  else sync_pages_from fetch ts (page + 1) left n tab'))"

definition syncPages :: "(nat \<Rightarrow> GammaMarket list option) \<Rightarrow> nat \<Rightarrow> int \<Rightarrow> registry \<Rightarrow> (string + nat) \<times> registry" where
  "syncPages fetch maxPages ts tab = sync_pages_from fetch ts 0 maxPages 0 tab"

definition syncMarkets :: "(nat \<Rightarrow> GammaMarket list option) \<Rightarrow> (nat \<Rightarrow> GammaMarket list option) \<Rightarrow> int
    \<Rightarrow> registry \<Rightarrow> (string + nat) \<times> registry" where
  "syncMarkets by_volume by_end ts tab =
     (case syncPages by_volume MAX_PAGES ts tab of
        (Inl e, t1) \<Rightarrow> (Inl e, t1)
      | (Inr n1, t1) \<Rightarrow>
          (case syncPages by_end 4 ts t1 of (Inl e, t2) \<Rightarrow> (Inl e, t2) | (Inr n2, t2) \<Rightarrow> (Inr (n1 + n2), t2)))"

definition hex_id :: "string \<Rightarrow> bool" where
  "hex_id cid \<longleftrightarrow> take 2 cid = ''0x'' \<and> length cid = 66 \<and> list_all (\<lambda>c. hex_val c \<noteq> None) (drop 2 cid)"

definition syncOneMarket :: "string \<Rightarrow> (string \<Rightarrow> GammaMarket list option) \<Rightarrow> int \<Rightarrow> registry
    \<Rightarrow> (string + bool) \<times> registry" where
  "syncOneMarket conditionId fetch ts tab =
     (let cid = lower conditionId in
      if \<not> hex_id cid then (Inr False, tab)
      else case fetch cid of
        None \<Rightarrow> (Inr False, tab)
      | Some data \<Rightarrow>
          (case map_rows (\<lambda>m. toRow m ts) data of
             Inl e \<Rightarrow> (Inl e, tab)
           | Inr [] \<Rightarrow> (Inr False, tab)
           | Inr (row # _) \<Rightarrow> (Inr True, upsert_row tab row)))"

record ResolvedToken =
  rt_tokenId :: string
  rt_conditionId :: string

definition resolveToken :: "string \<Rightarrow> nat \<Rightarrow> registry \<Rightarrow> ResolvedToken option" where
  "resolveToken marketIdField outcomeSide tab =
     (case map_of tab (lower marketIdField) of
        None \<Rightarrow> None
      | Some row \<Rightarrow>
          let tokenId = (if outcomeSide = 0 then rr_yes row else rr_no row)
          in if tokenId = '''' then None
             else Some \<lparr>rt_tokenId = tokenId, rt_conditionId = rr_condition_id row\<rparr>)"

definition registryCount :: "registry \<Rightarrow> nat" where
  "registryCount tab = length tab"

definition conditionIdForKey :: "string \<Rightarrow> registry \<Rightarrow> string option" where
  "conditionIdForKey marketIdField tab = map_option rr_condition_id (map_of tab (lower marketIdField))"

definition marketMetaForKey :: "string \<Rightarrow> registry \<Rightarrow> (string \<times> int option) option" where
  "marketMetaForKey marketIdField tab =
     map_option (\<lambda>r. (rr_condition_id r, rr_end_date r)) (map_of tab (lower marketIdField))"

subsection \<open>The relay's catalog row\<close>

text \<open>
  The fields of a catalog row that decide what is shown as side 0 and 1 and where
  a bet on it goes; the descriptive ones (category, tags, volumes) are left out.
\<close>

record CatalogRow =
  cr_condition_id :: string
  cr_field_safe_id :: string
  cr_question :: string
  cr_yes :: string
  cr_no :: string
  cr_labels :: "string \<times> string"
  cr_end_date :: "int option"
  cr_yes_price :: rat

fun binary_pair_indices :: "(string \<times> string) list \<Rightarrow> string list \<Rightarrow> (nat \<times> nat \<times> string \<times> string) option" where
  "binary_pair_indices [] lc = None"
| "binary_pair_indices ((a, b) # ps) lc =
     (case (indexOf lc a, indexOf lc b) of
        (Some y, Some n) \<Rightarrow> Some (y, n, if a = ''yes'' then ''Yes'' else ''Up'', if b = ''no'' then ''No'' else ''Down'')
      | _ \<Rightarrow> binary_pair_indices ps lc)"

definition binaryIndices :: "string list \<Rightarrow> string list \<Rightarrow> (nat \<times> nat \<times> string \<times> string) option" where
  "binaryIndices lc raw =
     (if length lc \<noteq> 2 then None
      else case binary_pair_indices BINARY_PAIRS lc of
             Some r \<Rightarrow> Some r
           | None \<Rightarrow> Some (0, 1, (case elem_at raw 0 of None \<Rightarrow> ''Outcome A'' | Some s \<Rightarrow> s),
                               (case elem_at raw 1 of None \<Rightarrow> ''Outcome B'' | Some s \<Rightarrow> s)))"

definition toCatalogRow :: "GammaMarket \<Rightarrow> rat \<Rightarrow> string + CatalogRow option" where
  "toCatalogRow m ts =
     (let cid = candidate_id m; raw = gm_outcomes m; outcomes = map lower raw in
      if \<not> id_shaped cid then Inr None
      else if \<not> gm_enableOrderBook m then Inr None
      else if gm_acceptingOrders m = Some False \<or> gm_closed m = Some True \<or> gm_active m = Some False then Inr None
      else case binaryIndices outcomes raw of
        None \<Rightarrow> Inr None
      | Some (yesIdx, noIdx, l1, l2) \<Rightarrow>
          let yes = elem_at (gm_tokens m) yesIdx; no = elem_at (gm_tokens m) noIdx;
              endSec = map_option (\<lambda>ms. \<lfloor>ms / 1000\<rfloor>) (gm_end_ms m)
          in if \<not> present yes \<or> \<not> present no then Inr None
             else if (case endSec of None \<Rightarrow> False | Some e \<Rightarrow> e \<le> \<lfloor>ts\<rfloor>) then Inr None
             else case toFieldSafe cid of
               None \<Rightarrow> Inl ''SyntaxError''
             | Some key \<Rightarrow> Inr (Some \<lparr>cr_condition_id = cid, cr_field_safe_id = key,
                 cr_question = (case gm_question m of None \<Rightarrow> ''Untitled market'' | Some q \<Rightarrow> q),
                 cr_yes = the yes, cr_no = the no, cr_labels = (l1, l2), cr_end_date = endSec,
                 cr_yes_price = (case elem_at (gm_prices m) yesIdx of Some (Some p) \<Rightarrow> p | _ \<Rightarrow> 1 / 2)\<rparr>))"

subsection \<open>Lemmas\<close>

lemma registry_sides_binary:
  "registry_sides ps outcomes = (case binary_pair_indices ps outcomes of
     Some (y, n, _) \<Rightarrow> (y, n) | None \<Rightarrow> (0, 1))"
  by (induction ps outcomes rule: registry_sides.induct) (auto split: option.splits)

lemma binaryIndices_sides:
  "binaryIndices lc raw = Some (y, n, l) \<Longrightarrow> registry_sides BINARY_PAIRS lc = (y, n)"
  by (auto simp: binaryIndices_def registry_sides_binary split: if_splits option.splits prod.splits)

lemma map_rows_Inr_set:
  "map_rows f ms = Inr rs \<Longrightarrow> set rs = {x. \<exists>m \<in> set ms. f m = Inr (Some x)}"
proof (induction ms arbitrary: rs)
  case (Cons m ms)
  then obtain r rs1 where r: "f m = Inr r" "map_rows f ms = Inr rs1"
    "rs = (case r of None \<Rightarrow> rs1 | Some x \<Rightarrow> x # rs1)"
    by (auto simp: bind_sum_Inr_iff)
  with Cons.IH [OF r(2)] show ?case by (cases r) auto
qed simp

text \<open>
  What the registry promises: each key is the reduced form of the condition id in
  its row, and both tokens are there.
\<close>

definition registry_ok :: "registry \<Rightarrow> bool" where
  "registry_ok tab \<longleftrightarrow> distinct (map fst tab) \<and>
     (\<forall>k r. map_of tab k = Some r \<longrightarrow>
        toFieldSafe (rr_condition_id r) = Some k \<and> rr_yes r \<noteq> '''' \<and> rr_no r \<noteq> '''')"

definition row_ok :: "string \<times> reg_row \<Rightarrow> bool" where
  "row_ok kr \<longleftrightarrow> toFieldSafe (rr_condition_id (snd kr)) = Some (fst kr) \<and>
     rr_yes (snd kr) \<noteq> '''' \<and> rr_no (snd kr) \<noteq> ''''"

lemma toRow_ok: "toRow m ts = Inr (Some kr) \<Longrightarrow> row_ok kr"
  by (auto simp: toRow_def Let_def row_ok_def present_def split: if_splits option.splits prod.splits)

lemma upsert_row_ok:
  assumes "registry_ok tab" and "row_ok kr"
  shows "registry_ok (upsert_row tab kr) \<and> dom (map_of tab) \<subseteq> dom (map_of (upsert_row tab kr))"
  using assms
  by (cases kr) (auto simp: registry_ok_def row_ok_def upsert_row_def map_of_update intro: distinct_keys_update)

lemma foldl_upsert_ok:
  assumes "registry_ok tab" and "\<forall>kr \<in> set rows. row_ok kr"
  shows "registry_ok (foldl upsert_row tab rows) \<and> dom (map_of tab) \<subseteq> dom (map_of (foldl upsert_row tab rows))"
proof (rule foldl_invariant [where P = "\<lambda>t. registry_ok t \<and> dom (map_of tab) \<subseteq> dom (map_of t)"])
  fix t kr assume kr: "kr \<in> set rows" and t: "registry_ok t \<and> dom (map_of tab) \<subseteq> dom (map_of t)"
  with assms(2) upsert_row_ok [of t kr]
  show "registry_ok (upsert_row t kr) \<and> dom (map_of tab) \<subseteq> dom (map_of (upsert_row t kr))" by blast
qed (use assms(1) in simp)

lemma map_rows_ok: "map_rows (\<lambda>m. toRow m ts) ms = Inr rows \<Longrightarrow> \<forall>kr \<in> set rows. row_ok kr"
  using toRow_ok by (auto dest!: map_rows_Inr_set)

lemma sync_pages_ok:
  assumes "registry_ok tab" and "sync_pages_from fetch ts page left n tab = (res, tab')"
  shows "registry_ok tab' \<and> dom (map_of tab) \<subseteq> dom (map_of tab')"
  using assms
proof (induction fetch ts page left n tab rule: sync_pages_from.induct)
  case (2 fetch ts page left n tab)
  show ?case
  proof (cases "fetch page")
    case (Some data)
    show ?thesis
    proof (cases "data = [] \<or> (\<exists>e. map_rows (\<lambda>m. toRow m ts) data = Inl e)")
      case True
      then show ?thesis using 2 Some by (cases data) auto
    next
      case False
      then obtain rows where rows: "map_rows (\<lambda>m. toRow m ts) data = Inr rows" "data \<noteq> []"
        by (metis obj_sumE)
      obtain x xs where data: "data = x # xs" using rows(2) by (cases data) auto
      note ok = foldl_upsert_ok [OF "2.prems"(1) map_rows_ok [OF rows(1)]]
      show ?thesis
      proof (cases "length data < PAGE")
        case True
        then show ?thesis using ok "2.prems"(2) Some rows(1) data by auto
      next
        case False
        have "sync_pages_from fetch ts (page + 1) left (n + length rows) (foldl upsert_row tab rows) = (res, tab')"
          using "2.prems"(2) Some rows(1) data False by (simp add: Let_def)
        then show ?thesis
          using "2.IH" [OF Some data _ refl refl _ conjunct1 [OF ok]] rows(1) data False ok by blast
      qed
    qed
  qed (use 2 in auto)
qed auto

lemma syncMarkets_ok:
  assumes "registry_ok tab" and "syncMarkets f g ts tab = (res, tab')"
  shows "registry_ok tab' \<and> dom (map_of tab) \<subseteq> dom (map_of tab')"
proof -
  obtain r1 t1 where 1: "syncPages f MAX_PAGES ts tab = (r1, t1)" by fastforce
  have ok1: "registry_ok t1 \<and> dom (map_of tab) \<subseteq> dom (map_of t1)"
    using sync_pages_ok [OF assms(1)] 1 by (simp add: syncPages_def)
  obtain r2 t2 where 2: "syncPages g 4 ts t1 = (r2, t2)" by fastforce
  have ok2: "registry_ok t2 \<and> dom (map_of t1) \<subseteq> dom (map_of t2)"
    using sync_pages_ok [of t1] ok1 2 by (simp add: syncPages_def)
  have "tab' = t1 \<or> tab' = t2" using assms(2) 1 2 by (auto simp: syncMarkets_def split: sum.splits)
  then show ?thesis using ok1 ok2 by auto
qed

lemma syncOneMarket_ok:
  assumes "registry_ok tab" and "syncOneMarket c fetch ts tab = (res, tab')"
  shows "registry_ok tab' \<and> dom (map_of tab) \<subseteq> dom (map_of tab')"
proof -
  have "tab' = tab \<or> (\<exists>data row rows. map_rows (\<lambda>m. toRow m ts) data = Inr (row # rows) \<and> tab' = upsert_row tab row)"
    using assms(2) by (auto simp: syncOneMarket_def Let_def split: if_splits option.splits sum.splits list.splits)
  then show ?thesis using assms(1) map_rows_ok upsert_row_ok by fastforce
qed

lemma resolveToken_ok:
  assumes "registry_ok tab" and "resolveToken k side tab = Some t"
  shows "toFieldSafe (rt_conditionId t) = Some (lower k) \<and> rt_tokenId t \<noteq> ''''"
  using assms by (auto simp: resolveToken_def registry_ok_def Let_def split: option.splits if_splits)

subsection \<open>Claims\<close>

text \<open>
  Which token a market lists for a side, read off the market itself: the
  token at the place of the outcome that names the side (yes or up for side 0, no or
  down for the other), and by position where the outcomes name neither pair.
\<close>

definition listed_token :: "GammaMarket \<Rightarrow> nat \<Rightarrow> string \<Rightarrow> bool" where
  "listed_token m side tok \<longleftrightarrow>
     (let names = map lower (gm_outcomes m);
          at_name = (\<lambda>nm. \<exists>i < length (gm_tokens m). i < length names \<and> names ! i = nm \<and> gm_tokens m ! i = tok)
      in if {''yes'', ''no''} \<subseteq> set names then at_name (if side = 0 then ''yes'' else ''no'')
         else if {''up'', ''down''} \<subseteq> set names then at_name (if side = 0 then ''up'' else ''down'')
         else \<exists>i < length (gm_tokens m). i = (if side = 0 then 0 else 1) \<and> gm_tokens m ! i = tok)"

text \<open>Each row of the registry is that of a market of \<open>S\<close>, side by side.\<close>

definition row_listed :: "GammaMarket set \<Rightarrow> reg_row \<Rightarrow> bool" where
  "row_listed S r \<longleftrightarrow> (\<exists>m \<in> S. gm_conditionId m \<noteq> None \<and> rr_condition_id r = lower (the (gm_conditionId m)) \<and>
     (\<forall>side. listed_token m side (if side = 0 then rr_yes r else rr_no r)))"

definition rows_listed :: "GammaMarket set \<Rightarrow> registry \<Rightarrow> bool" where
  "rows_listed S tab \<longleftrightarrow> (\<forall>k r. map_of tab k = Some r \<longrightarrow> row_listed S r)"

lemma row_listed_end [simp]: "row_listed S (r\<lparr>rr_end_date := e\<rparr>) = row_listed S r"
  by (simp add: row_listed_def)

lemma rows_listed_mono: "rows_listed S tab \<Longrightarrow> S \<subseteq> S' \<Longrightarrow> rows_listed S' tab"
  unfolding rows_listed_def row_listed_def by blast

lemma indexOf_Some: "indexOf xs y = Some i \<Longrightarrow> i < length xs \<and> xs ! i = y"
  by (induction xs arbitrary: i) (auto split: if_splits)

lemma indexOf_None: "indexOf xs y = None \<longleftrightarrow> y \<notin> set xs"
  by (induction xs) auto

lemma sides_listed:
  assumes "registry_sides BINARY_PAIRS (map lower (gm_outcomes m)) = (yi, ni)"
    and "elem_at (gm_tokens m) yi = Some y" and "elem_at (gm_tokens m) ni = Some n"
  shows "listed_token m side (if side = 0 then y else n)"
proof -
  have "{a, b} \<subseteq> set xs \<longleftrightarrow> indexOf xs a \<noteq> None \<and> indexOf xs b \<noteq> None" for a b and xs :: "string list"
    by (simp add: indexOf_None)
  note pair = this
  show ?thesis
    using assms unfolding listed_token_def Let_def pair BINARY_PAIRS_def elem_at_def
    by (auto split: option.splits if_splits dest!: indexOf_Some)
qed

lemma toRow_listed:
  assumes "toRow m ts = Inr (Some (k, r))" and "m \<in> S"
  shows "row_listed S r"
proof -
  obtain yi ni where s: "registry_sides BINARY_PAIRS (map lower (gm_outcomes m)) = (yi, ni)" by fastforce
  have r: "rr_condition_id r = candidate_id m" "id_shaped (candidate_id m)" "elem_at (gm_tokens m) yi = Some (rr_yes r)"
    "elem_at (gm_tokens m) ni = Some (rr_no r)"
    using assms(1) s by (auto simp: toRow_def Let_def present_def split: if_splits option.splits)
  have "gm_conditionId m \<noteq> None"
    using r(2) by (cases "gm_conditionId m") (auto simp: id_shaped_def candidate_id_def lower_def)
  then show ?thesis
    unfolding row_listed_def using assms(2) r(1) sides_listed [OF s r(3,4)]
    by (intro bexI [of _ m] conjI allI) (auto simp: candidate_id_def split del: if_split)
qed

lemma upsert_row_listed:
  assumes "rows_listed S tab" and "row_listed S (snd kr)"
  shows "rows_listed S (upsert_row tab kr)"
  using assms by (cases kr) (auto simp: rows_listed_def upsert_row_def map_of_update)

lemma foldl_upsert_listed:
  assumes "rows_listed S tab" and "map_rows (\<lambda>m. toRow m ts) ms = Inr rows" and "set ms \<subseteq> S"
  shows "rows_listed S (foldl upsert_row tab rows)"
proof (rule foldl_invariant [where P = "rows_listed S"])
  fix t kr assume kr: "kr \<in> set rows" and t: "rows_listed S t"
  obtain m where "m \<in> S" "toRow m ts = Inr (Some (fst kr, snd kr))"
    using kr map_rows_Inr_set [OF assms(2)] assms(3) by auto
  from upsert_row_listed [OF t toRow_listed [OF this(2,1)]] show "rows_listed S (upsert_row t kr)" .
qed (fact assms(1))

text \<open>The markets a source of pages has to offer.\<close>

definition offered :: "(nat \<Rightarrow> GammaMarket list option) \<Rightarrow> GammaMarket set" where
  "offered f = {m. \<exists>p ms. f p = Some ms \<and> m \<in> set ms}"

lemma sync_pages_listed:
  assumes "rows_listed S tab" and "offered fetch \<subseteq> S"
  shows "rows_listed S (snd (sync_pages_from fetch ts page left n tab))"
  using assms
proof (induction fetch ts page left n tab rule: sync_pages_from.induct)
  case (2 fetch ts page left n tab)
  show ?case
  proof (cases "fetch page")
    case (Some data)
    show ?thesis
    proof (cases "map_rows (\<lambda>m. toRow m ts) data")
      case (Inr rows)
      have sub: "set data \<subseteq> S" using Some "2.prems"(2) by (auto simp: offered_def)
      note ls = foldl_upsert_listed [OF "2.prems"(1) Inr sub]
      show ?thesis
      proof (cases data)
        case (Cons x xs)
        show ?thesis
        proof (cases "length data < PAGE")
          case False
          show ?thesis using "2.IH" [OF Some Cons _ refl refl _ ls "2.prems"(2)] False Some Inr Cons
            by (simp add: Let_def)
        qed (use ls Some Inr Cons in \<open>simp add: Let_def\<close>)
      qed (use 2 Some in simp)
    qed (use 2 Some in \<open>cases data; simp\<close>)
  qed (use 2 in simp)
qed simp

lemma syncMarkets_listed:
  assumes "rows_listed S tab" and "offered f \<union> offered g \<subseteq> S"
  shows "rows_listed S (snd (syncMarkets f g ts tab))"
proof -
  obtain r1 t1 where 1: "syncPages f MAX_PAGES ts tab = (r1, t1)" by fastforce
  obtain r2 t2 where 2: "syncPages g 4 ts t1 = (r2, t2)" by fastforce
  have ok1: "rows_listed S t1"
    using sync_pages_listed [OF assms(1), of f ts 0 MAX_PAGES 0] assms(2) 1 by (simp add: syncPages_def)
  have "rows_listed S t2"
    using sync_pages_listed [OF ok1, of g ts 0 4 0] assms(2) 2 by (simp add: syncPages_def)
  then show ?thesis using ok1 1 2 by (auto simp: syncMarkets_def split: sum.splits)
qed

lemma syncOneMarket_listed:
  assumes "rows_listed S tab" and "\<And>ms. h (lower c) = Some ms \<Longrightarrow> set ms \<subseteq> S"
  shows "rows_listed S (snd (syncOneMarket c h ts tab))"
proof -
  let ?t = "snd (syncOneMarket c h ts tab)"
  have "?t = tab \<or> (\<exists>data kr rows. h (lower c) = Some data \<and>
      map_rows (\<lambda>m. toRow m ts) data = Inr (kr # rows) \<and> ?t = upsert_row tab kr)"
    by (auto simp: syncOneMarket_def Let_def split: option.splits sum.splits list.splits)
  moreover have "rows_listed S (upsert_row tab kr)"
    if d: "h (lower c) = Some data" "map_rows (\<lambda>m. toRow m ts) data = Inr (kr # rows)" for data kr rows
  proof -
    obtain m where "m \<in> S" "toRow m ts = Inr (Some (fst kr, snd kr))"
      using map_rows_Inr_set [OF d(2)] assms(2) [OF d(1)] by auto
    from upsert_row_listed [OF assms(1) toRow_listed [OF this(2,1)]] show ?thesis .
  qed
  ultimately show ?thesis using assms(1) by metis
qed

text \<open>
  The registries that synchronisations, in any order, can produce, and the markets
  the exchange offered in them.
\<close>

inductive registry_reach :: "GammaMarket set \<Rightarrow> registry \<Rightarrow> bool" where
  rg_init: "registry_reach {} []"
| rg_sync: "registry_reach S tab \<Longrightarrow>
    registry_reach (S \<union> offered f \<union> offered g) (snd (syncMarkets f g ts tab))"
| rg_one: "registry_reach S tab \<Longrightarrow>
    registry_reach (S \<union> (case h (lower c) of None \<Rightarrow> {} | Some ms \<Rightarrow> set ms)) (snd (syncOneMarket c h ts tab))"

lemma registry_reach_ok: "registry_reach S tab \<Longrightarrow> registry_ok tab \<and> rows_listed S tab"
proof (induction rule: registry_reach.induct)
  case rg_init
  then show ?case by (simp add: registry_ok_def rows_listed_def)
next
  case (rg_sync S tab f g ts)
  then have "registry_ok tab" "rows_listed (S \<union> offered f \<union> offered g) tab"
    by (auto intro: rows_listed_mono)
  then show ?case
    using syncMarkets_ok [of tab, OF _ prod.collapse [symmetric]] syncMarkets_listed by blast
next
  case (rg_one S tab h c ts)
  let ?S = "S \<union> (case h (lower c) of None \<Rightarrow> {} | Some ms \<Rightarrow> set ms)"
  have "registry_ok tab" "rows_listed ?S tab" using rg_one by (auto intro: rows_listed_mono)
  then show ?case
    using syncOneMarket_ok [of tab, OF _ prod.collapse [symmetric]] syncOneMarket_listed [of ?S tab h c ts] by simp
qed

text \<open>
  What is shown is what can be traded.  Every market the relay's catalog shows
  is a market the signing layer's registry accepts, under the same condition id
  and reduced key and with the same tokens for side 0 and side 1; once its row is
  in the registry, a bet on either side resolves to the token the catalog shows
  for that side.
\<close>

lemma catalog_rows_routable:
  assumes "toCatalogRow m now = Inr (Some c)" and "lower (cr_field_safe_id c) = cr_field_safe_id c"
  shows "\<exists>r. toRow m ts = Inr (Some (cr_field_safe_id c, r)) \<and>
    rr_condition_id r = cr_condition_id c \<and> rr_yes r = cr_yes c \<and> rr_no r = cr_no c \<and>
    rr_end_date r = cr_end_date c \<and>
    resolveToken (cr_field_safe_id c) 0 (upsert_row tab (cr_field_safe_id c, r)) =
      Some \<lparr>rt_tokenId = cr_yes c, rt_conditionId = cr_condition_id c\<rparr> \<and>
    resolveToken (cr_field_safe_id c) 1 (upsert_row tab (cr_field_safe_id c, r)) =
      Some \<lparr>rt_tokenId = cr_no c, rt_conditionId = cr_condition_id c\<rparr>"
proof -
  let ?lc = "map lower (gm_outcomes m)"
  obtain yi ni l where bin: "binaryIndices ?lc (gm_outcomes m) = Some (yi, ni, l)"
    using assms(1) by (auto simp: toCatalogRow_def Let_def split: if_splits option.splits prod.splits)
  have two: "length (gm_outcomes m) = 2" using bin by (auto simp: binaryIndices_def split: if_splits)
  have cat: "id_shaped (candidate_id m)" "gm_enableOrderBook m" "present (elem_at (gm_tokens m) yi)"
    "present (elem_at (gm_tokens m) ni)" "toFieldSafe (candidate_id m) = Some (cr_field_safe_id c)"
    "cr_condition_id c = candidate_id m" "cr_yes c = the (elem_at (gm_tokens m) yi)"
    "cr_no c = the (elem_at (gm_tokens m) ni)" "cr_end_date c = parseEndDate (gm_end_ms m)"
    using assms(1) bin
    by (auto simp: toCatalogRow_def Let_def parseEndDate_def split: if_splits option.splits prod.splits)
  let ?r = "\<lparr>rr_condition_id = candidate_id m, rr_yes = cr_yes c, rr_no = cr_no c,
      rr_question = (case gm_question m of None \<Rightarrow> '''' | Some q \<Rightarrow> q),
      rr_end_date = cr_end_date c, rr_updated_at = ts\<rparr>"
  have row: "toRow m ts = Inr (Some (cr_field_safe_id c, ?r))"
    using cat two binaryIndices_sides [OF bin] by (simp add: toRow_def Let_def)
  have "cr_yes c \<noteq> ''''" "cr_no c \<noteq> ''''"
    using cat(3,4,7,8) by (auto simp: present_def split: option.splits)
  then show ?thesis
    using row cat(6) assms(2) by (auto simp: resolveToken_def upsert_row_def map_of_update)
qed

definition demo_market :: GammaMarket where
  "demo_market = \<lparr>gm_conditionId = Some (toHex 5), gm_question = Some ''q'', gm_outcomes = [''Down'', ''Up''],
     gm_tokens = [''d'', ''u''], gm_prices = [], gm_enableOrderBook = True, gm_acceptingOrders = None,
     gm_closed = None, gm_active = None, gm_end_ms = None\<rparr>"

definition demo_row :: CatalogRow where
  "demo_row = \<lparr>cr_condition_id = toHex 5, cr_field_safe_id = toHex 5, cr_question = ''q'', cr_yes = ''u'',
     cr_no = ''d'', cr_labels = (''Up'', ''Down''), cr_end_date = None, cr_yes_price = 1 / 2\<rparr>"

lemma demo_id: "lower (toHex 5) = toHex 5" "id_shaped (toHex 5)" "toFieldSafe (toHex 5) = Some (toHex 5)"
proof -
  have "to_string16 5 = ''5''" by (simp add: to_string16.simps [of 5] hex_char_def) code_simp
  then have h: "toHex 5 = ''0x'' @ replicate 63 (CHR ''0'') @ ''5''" by (simp add: toHex_def pad_start_def)
  have l: "lower_char (CHR ''0'') = CHR ''0''" "lower_char (CHR ''x'') = CHR ''x''" "lower_char (CHR ''5'') = CHR ''5''"
    by code_simp+
  show "lower (toHex 5) = toHex 5" unfolding h by (simp add: lower_def l)
  show "id_shaped (toHex 5)" unfolding h by (simp add: id_shaped_def)
  show "toFieldSafe (toHex 5) = Some (toHex 5)" by (simp add: toFieldSafe_def BigInt_toHex BN254_P_def)
qed

lemma catalog_rows_routable_witness:
  "\<exists>r. toRow demo_market 0 = Inr (Some (toHex 5, r)) \<and> rr_yes r = ''u''"
proof -
  have l: "lower ''Down'' = ''down''" "lower ''Up'' = ''up''" by code_simp+
  have bin: "binaryIndices [''down'', ''up''] [''Down'', ''Up''] = Some (1, 0, ''Up'', ''Down'')" by code_simp
  have "toCatalogRow demo_market 9 = Inr (Some demo_row)"
    by (simp add: toCatalogRow_def demo_market_def demo_row_def candidate_id_def demo_id l bin elem_at_def present_def Let_def)
  from catalog_rows_routable [OF this] show ?thesis by (auto simp: demo_row_def demo_id)
qed

text \<open>
  C33: The registry never misroutes and never forgets.  In every registry the
  synchronisations can produce, a market id that resolves for a side resolves to
  a market the exchange offered in one of them, whose condition id reduces to the
  market id, and to the token that market lists for this side (the one of its
  outcome yes or up for side 0, no or down for side 1, by position for other
  outcomes); a market id resolves for a side exactly when the reverse lookup knows
  its condition; and a market that was resolvable stays resolvable after any later
  synchronisation, also after it left the exchange's active list.
\<close>

theorem registry_routes_soundly:
  assumes "registry_reach S tab"
  shows "(\<forall>t. resolveToken k side tab = Some t \<longrightarrow>
      toFieldSafe (rt_conditionId t) = Some (lower k) \<and> rt_tokenId t \<noteq> '''' \<and>
      conditionIdForKey k tab = Some (rt_conditionId t) \<and>
      (\<exists>m \<in> S. gm_conditionId m \<noteq> None \<and> lower (the (gm_conditionId m)) = rt_conditionId t \<and>
         listed_token m side (rt_tokenId t))) \<and>
    (resolveToken k side tab = None \<longleftrightarrow> conditionIdForKey k tab = None) \<and>
    (resolveToken k side tab \<noteq> None \<longrightarrow>
      resolveToken k side (snd (syncMarkets f g ts tab)) \<noteq> None \<and>
      resolveToken k side (snd (syncOneMarket c h ts tab)) \<noteq> None)"
proof -
  note ok = registry_reach_ok [OF assms, THEN conjunct1]
  note listed = registry_reach_ok [OF assms, THEN conjunct2]
  have some: "resolveToken k side t \<noteq> None \<longleftrightarrow> lower k \<in> dom (map_of t)" if "registry_ok t" for t
    using that by (auto simp: resolveToken_def registry_ok_def Let_def split: option.splits)
  have "conditionIdForKey k tab = Some (rt_conditionId t) \<and>
      (\<exists>m \<in> S. gm_conditionId m \<noteq> None \<and> lower (the (gm_conditionId m)) = rt_conditionId t \<and>
         listed_token m side (rt_tokenId t))" if res: "resolveToken k side tab = Some t" for t
  proof -
    obtain r where m: "map_of tab (lower k) = Some r"
      using res by (cases "map_of tab (lower k)") (auto simp: resolveToken_def)
    have "t = \<lparr>rt_tokenId = (if side = 0 then rr_yes r else rr_no r), rt_conditionId = rr_condition_id r\<rparr>"
      using res m by (auto simp: resolveToken_def Let_def split: if_splits)
    note r = m this
    then obtain m where "m \<in> S" "gm_conditionId m \<noteq> None" "rr_condition_id r = lower (the (gm_conditionId m))"
      "listed_token m side (rt_tokenId t)"
      using listed unfolding rows_listed_def row_listed_def by (metis ResolvedToken.select_convs(1))
    then show ?thesis using r by (auto simp: conditionIdForKey_def)
  qed
  moreover have "resolveToken k side tab = None \<longleftrightarrow> conditionIdForKey k tab = None"
    using some [OF ok] by (auto simp: conditionIdForKey_def domIff)
  moreover have "resolveToken k side tab \<noteq> None \<longrightarrow> resolveToken k side (snd (syncMarkets f g ts tab)) \<noteq> None"
    using some ok syncMarkets_ok [OF ok prod.collapse [symmetric], of f g ts] by blast
  moreover have "resolveToken k side tab \<noteq> None \<longrightarrow> resolveToken k side (snd (syncOneMarket c h ts tab)) \<noteq> None"
    using some ok syncOneMarket_ok [OF ok prod.collapse [symmetric], of c h ts] by blast
  ultimately show ?thesis using resolveToken_ok [OF ok] by blast
qed

text \<open>A market listed as down, up, offered once: side 0 keeps the token of up, side 1 that of down.\<close>

theorem registry_routes_soundly_witness:
  "let tab = snd (syncMarkets (\<lambda>p. if p = 0 then Some [demo_market] else None) (\<lambda>p. None) 0 [])
   in map_option rt_tokenId (resolveToken (toHex 5) 0 tab) = Some ''u'' \<and>
      map_option rt_tokenId (resolveToken (toHex 5) 1 tab) = Some ''d'' \<and>
      resolveToken (toHex 5) 0 (snd (syncMarkets (\<lambda>p. None) (\<lambda>p. None) 1 tab)) \<noteq> None"
proof -
  let ?f = "\<lambda>p :: nat. if p = 0 then Some [demo_market] else None"
  let ?t = "snd (syncMarkets ?f (\<lambda>p. None) 0 [])"
  have l: "lower ''Down'' = ''down''" "lower ''Up'' = ''up''" by code_simp+
  have sides: "registry_sides BINARY_PAIRS [''down'', ''up''] = (1, 0)" by code_simp
  obtain r where row: "toRow demo_market 0 = Inr (Some (toHex 5, r))"
    by (simp add: toRow_def demo_market_def candidate_id_def demo_id l sides elem_at_def present_def parseEndDate_def Let_def)
  have p1: "\<exists>r'. sync_pages_from ?f 0 0 20 0 [] = (Inr 1, [(toHex 5, r')]) \<and> rr_condition_id r' = rr_condition_id r"
    using sync_pages_from.simps(2) [of ?f 0 0 19 0 "[]"] by (simp add: row upsert_row_def PAGE_def)
  have p2: "sync_pages_from (\<lambda>p. None) 0 0 4 0 t = (Inr 0, t)" for t
    using sync_pages_from.simps(2) [of "\<lambda>p. None" 0 0 3 0 t] by simp
  have known: "conditionIdForKey (toHex 5) ?t \<noteq> None"
    using p1 by (auto simp: syncMarkets_def syncPages_def MAX_PAGES_def p2 conditionIdForKey_def demo_id)
  have S: "offered ?f \<union> offered (\<lambda>p. None) = {demo_market}" by (auto simp: offered_def)
  have "registry_reach {demo_market} ?t"
    using rg_sync [OF rg_init, of ?f "\<lambda>p. None" 0] S by simp
  note th = registry_routes_soundly [OF this, of "toHex 5"]
  have only: "listed_token demo_market 0 tok \<longleftrightarrow> tok = ''u''" "listed_token demo_market 1 tok \<longleftrightarrow> tok = ''d''" for tok
    by (auto simp: listed_token_def demo_market_def l less_Suc_eq numeral_2_eq_2)
  have "map_option rt_tokenId (resolveToken (toHex 5) 0 ?t) = Some ''u''"
    by (cases "resolveToken (toHex 5) 0 ?t") (use th [of 0] known only(1) in auto)
  moreover have "map_option rt_tokenId (resolveToken (toHex 5) 1 ?t) = Some ''d''"
    by (cases "resolveToken (toHex 5) 1 ?t") (use th [of 1] known only(2) in auto)
  moreover have "resolveToken (toHex 5) 0 (snd (syncMarkets (\<lambda>p. None) (\<lambda>p. None) 1 ?t)) \<noteq> None"
    using th [of 0 "\<lambda>p. None" "\<lambda>p. None" 1 "''''" "\<lambda>c. None"] known by metis
  ultimately show ?thesis by (simp add: Let_def)
qed

end
