(* ===== verification/Orders_Sell.thy ===== *)
theory Orders_Sell
  imports Orders_Buy Market_Registry
begin

section \<open>Selling: market closes and resting closes\<close>

text \<open>
  The sell side of \<open>signing-layer/src/orderBuilder.ts\<close>: resolving the token of a
  close, the confirmation of an ambiguous fill, \<open>submitMarketSellOrder\<close> and
  \<open>submitLimitSellOrder\<close>.  A market close awaits the exchange between its check
  for a report and the signing of one, so its three parts are definitions of
  their own.
\<close>

record CloseRequest =
  cl_nullifier :: string
  cl_position_id :: string
  cl_sold_shares :: int
  cl_limit_price :: int

text \<open>
  What a sell asks besides \<open>order_env\<close>: the bet's record on chain (market and
  side), the registry (\<open>None\<close> where reading throws), the order book's bids
  (\<open>None\<close> where fetching fails; a price that is no number counts as 0), and what
  the confirmation polls see.
\<close>

record poll_view =
  pv_order :: "(string \<times> rat) option"
  pv_trades :: "((string \<times> rat) \<times> (string \<times> rat) list) list option"

record sell_env =
  se_order :: order_env
  se_bet :: "string \<Rightarrow> string + string \<times> nat"
  se_registry :: "registry option"
  se_bids :: "string \<Rightarrow> rat list option"
  se_polls :: "poll_view list"

definition resolveCloseToken :: "sell_env \<Rightarrow> CloseRequest \<Rightarrow> reject_reason + string \<times> string" where
  "resolveCloseToken env req =
     (let mock = is_mock (se_order env) in
      case se_bet env (cl_nullifier req) of
        Inl e \<Rightarrow> decideCloseToken (cl_position_id req) None None mock
      | Inr (market, side) \<Rightarrow>
          decideCloseToken (cl_position_id req) (Some (Some (of_nat side)))
            (map_option (\<lambda>t. \<lparr>rh_tokenId = rt_tokenId t, rh_conditionId = rt_conditionId t\<rparr>)
               (Option.bind (se_registry env) (resolveToken market side))) mock)"

definition fetchBestBidMicro :: "sell_env \<Rightarrow> string \<Rightarrow> int option" where
  "fetchBestBidMicro env token =
     (case se_bids env token of
        None \<Rightarrow> None
      | Some bids \<Rightarrow>
          let best = foldl max 0 bids in if best > 0 then Some (math_round (best * 1000000)) else None)"

subsection \<open>Confirming an ambiguous fill\<close>

text \<open>
  One poll decides or not; the loop polls until its deadline, which bounds the
  number of polls (\<open>se_polls\<close> has one view per poll).  An order's id is compared
  in lower case; a missing size is 0.
\<close>

definition confirmed_status :: "string \<Rightarrow> bool" where
  "confirmed_status st \<longleftrightarrow> st = ''MATCHED'' \<or> st = ''FILLED''"

definition dead_status :: "string \<Rightarrow> bool" where
  "dead_status st \<longleftrightarrow> st = ''CANCELED'' \<or> st = ''CANCELLED'' \<or> st = ''KILLED'' \<or> st = ''UNMATCHED''"

definition traded :: "string \<Rightarrow> ((string \<times> rat) \<times> (string \<times> rat) list) list \<Rightarrow> rat" where
  "traded oid trades =
     sum_list (map (\<lambda>((taker, sz), makers). (if lower taker = oid then sz else 0) +
       sum_list (map (\<lambda>(mid, amt). if lower mid = oid then amt else 0) makers)) trades)"

definition poll_once :: "string \<Rightarrow> string \<Rightarrow> rat \<Rightarrow> poll_view \<Rightarrow> bool option" where
  "poll_once orderID conditionId tol v =
     (let st = upper (case pv_order v of None \<Rightarrow> '''' | Some (s, m) \<Rightarrow> s);
          by_order = (if orderID = '''' then None
            else case pv_order v of
                   None \<Rightarrow> None
                 | Some (s, matched) \<Rightarrow> if confirmed_status st \<and> matched \<ge> tol then Some True
                     else if dead_status st then Some False else None)
      in case by_order of
           Some b \<Rightarrow> Some b
         | None \<Rightarrow>
             if conditionId = '''' then None
             else case pv_trades v of
                    None \<Rightarrow> None
                  | Some trades \<Rightarrow> if traded (lower orderID) trades \<ge> tol then Some True else None)"

fun confirmSellFilled :: "string \<Rightarrow> string \<Rightarrow> int \<Rightarrow> poll_view list \<Rightarrow> bool" where
  "confirmSellFilled orderID conditionId shares [] = False"
| "confirmSellFilled orderID conditionId shares (v # vs) =
     (case poll_once orderID conditionId (of_int shares / 1000000 * (999 / 1000)) v of
        Some b \<Rightarrow> b
      | None \<Rightarrow> confirmSellFilled orderID conditionId shares vs)"

subsection \<open>Market close\<close>

record sell_ctx =
  sc_filled :: int
  sc_ambiguous :: bool
  sc_client :: bool
  sc_orderID :: string
  sc_conditionId :: string
  sc_tokenId :: string
  sc_price :: int

definition sell_allowed :: "CloseRequest \<Rightarrow> desk \<Rightarrow> bool" where
  "sell_allowed req d \<longleftrightarrow> \<not> desk_isHalted d \<and> getAttestation (cl_nullifier req) (Some SOLD) (desk_atts d) = None"

definition prod_sell :: "string \<Rightarrow> int \<Rightarrow> int \<Rightarrow> post_type \<Rightarrow> int \<Rightarrow> prod_order" where
  "prod_sell token price shares ty expiration =
     \<lparr>po_token = token, po_price = of_int price / 1000000, po_size = of_int shares / 1000000, po_side = SELL,
      po_type = ty, po_expiration = expiration, po_balance = None\<rparr>"

definition mock_sell :: "CloseRequest \<Rightarrow> post_type \<Rightarrow> int \<Rightarrow> mock_order" where
  "mock_sell req ty expiration =
     mock_body (cl_position_id req) (cl_limit_price req) (cl_sold_shares req) SELL ty expiration"

text \<open>A SELL reply's fill: \<open>None\<close> where \<open>BigInt\<close> throws, else the shares and whether it is ambiguous.\<close>

definition sell_fill :: "clob_reply \<Rightarrow> (int \<times> bool) option" where
  "sell_fill r =
     (let killed = (reply_status r = ''unmatched'' \<or> reply_status r = ''killed'' \<or> reply_status r = ''cancelled'' \<or>
                    js_includes ''not_filled'' (lower (reply_error r)))
      in if rp_makingAmount r \<noteq> Absent \<or> rp_takingAmount r \<noteq> Absent
         then map_option (\<lambda>f. (f, False)) (round6 (rp_makingAmount r))
         else case rp_size_matched r of
                Amount x \<Rightarrow> Some (\<lfloor>x * 1000000\<rfloor>, False)
              | NotANumber \<Rightarrow> None
              | Absent \<Rightarrow> Some (0, \<not> killed))"

definition sell_price :: "sell_env \<Rightarrow> CloseRequest \<Rightarrow> string \<Rightarrow> int" where
  "sell_price env req token =
     (case fetchBestBidMicro env token of
        Some bid \<Rightarrow> if bid \<noteq> 0 \<and> bid \<ge> cl_limit_price req then bid else cl_limit_price req
      | None \<Rightarrow> cl_limit_price req)"

text \<open>The job under the limiter.\<close>

definition sell_job :: "sell_env \<Rightarrow> CloseRequest \<Rightarrow> desk \<Rightarrow> sell_ctx option \<times> desk" where
  "sell_job env req d =
     (let oe = se_order env in
      if is_mock oe then
        (let m = mock_sell req PFAK 0; d1 = sent (Mock m) d
         in case oe_mock_post oe m of
              Inl e \<Rightarrow> (None, caught e d1)
            | Inr None \<Rightarrow> (None, d1\<lparr>dk_breaker := checkResponse 403 None (dk_breaker d1)\<rparr>)
            | Inr (Some r) \<Rightarrow>
                (Some \<lparr>sc_filled = (case rp_filledShares r of Some f \<Rightarrow> \<lfloor>f\<rfloor> | None \<Rightarrow> 0), sc_ambiguous = False,
                   sc_client = False, sc_orderID = '''', sc_conditionId = '''', sc_tokenId = cl_position_id req,
                   sc_price = cl_limit_price req\<rparr>, d1))
      else
        (case getOrCreateClobClient oe of
           Inl e \<Rightarrow> (None, caught e d)
         | Inr False \<Rightarrow> (None, d)
         | Inr True \<Rightarrow>
             (case resolveCloseToken env req of
                Inl reason \<Rightarrow> (None, d)
              | Inr (token, condition) \<Rightarrow>
                  let price = sell_price env req token; p = prod_sell token price (cl_sold_shares req) PFAK 0;
                      d1 = sent (Prod p) d
                  in case oe_prod_post oe p of
                       Inl e \<Rightarrow> (None, caught e d1)
                     | Inr r \<Rightarrow>
                         (case sell_fill r of
                            None \<Rightarrow> (None, d1)
                          | Some (f, amb) \<Rightarrow>
                              (Some \<lparr>sc_filled = f, sc_ambiguous = amb, sc_client = True, sc_orderID = string_id r,
                                 sc_conditionId = condition, sc_tokenId = token, sc_price = price\<rparr>, d1)))))"

definition sell_filled :: "sell_env \<Rightarrow> CloseRequest \<Rightarrow> sell_ctx \<Rightarrow> int" where
  "sell_filled env req c =
     (if sc_filled c = 0 \<and> sc_ambiguous c \<and> sc_client c \<and> sc_orderID c \<noteq> '''' \<and>
         confirmSellFilled (sc_orderID c) (sc_conditionId c) (cl_sold_shares req) (se_polls env)
      then cl_sold_shares req else sc_filled c)"

definition sell_proceeds :: "sell_env \<Rightarrow> sell_ctx \<Rightarrow> int \<Rightarrow> int" where
  "sell_proceeds env c filled =
     (let gross = big_div (filled * sc_price c) 1000000;
          frac = of_int (sc_price c) / 1000000;
          fee = clobTakerFeeUsd (se_order env) (sc_client c) (sc_tokenId c) (of_int filled / 1000000 * frac) frac
      in if gross > fee then gross - fee else 0)"

definition sell_finish :: "sell_env \<Rightarrow> CloseRequest \<Rightarrow> sell_ctx \<Rightarrow> desk \<Rightarrow> desk" where
  "sell_finish env req c d =
     (let filled = sell_filled env req c
      in attest_terminal (se_order env) \<lparr>tb_nullifier = cl_nullifier req, tb_expected_shares = cl_sold_shares req,
           tb_bet_amount = 0, tb_side = SELL\<rparr> filled (sell_proceeds env c filled) d)"

definition submitMarketSellOrder :: "sell_env \<Rightarrow> CloseRequest \<Rightarrow> desk \<Rightarrow> desk" where
  "submitMarketSellOrder env req d =
     (if \<not> sell_allowed req d then d
      else case sell_job env req d of
             (None, d1) \<Rightarrow> d1
           | (Some c, d1) \<Rightarrow> sell_finish env req c d1)"

subsection \<open>Resting close\<close>

text \<open>Placing it: an early return, or the reply with the token and the condition traded.\<close>

definition place_limit_sell :: "sell_env \<Rightarrow> CloseRequest \<Rightarrow> post_type \<Rightarrow> int \<Rightarrow> desk
    \<Rightarrow> (clob_reply \<times> string \<times> string) option \<times> desk" where
  "place_limit_sell env req ty expiration d =
     (let oe = se_order env in
      if is_mock oe then
        (let m = mock_sell req ty expiration; d1 = sent (Mock m) d
         in case oe_mock_post oe m of
              Inl e \<Rightarrow> (None, caught e d1)
            | Inr None \<Rightarrow> (None, d1\<lparr>dk_breaker := checkResponse 403 None (dk_breaker d1)\<rparr>)
            | Inr (Some r) \<Rightarrow> (Some (r, cl_position_id req, cl_position_id req), d1))
      else
        (case getOrCreateClobClient oe of
           Inl e \<Rightarrow> (None, caught e d)
         | Inr False \<Rightarrow> (None, d)
         | Inr True \<Rightarrow>
             (case resolveCloseToken env req of
                Inl reason \<Rightarrow> (None, d)
              | Inr (token, condition) \<Rightarrow>
                  let p = prod_sell token (cl_limit_price req) (cl_sold_shares req) ty expiration; d1 = sent (Prod p) d
                  in case oe_prod_post oe p of
                       Inl e \<Rightarrow> (None, caught e d1)
                     | Inr r \<Rightarrow> (Some (r, token, condition), d1))))"

definition submitLimitSellOrder :: "sell_env \<Rightarrow> CloseRequest \<Rightarrow> LimitOrderParams \<Rightarrow> desk \<Rightarrow> desk" where
  "submitLimitSellOrder env req params d =
     (if desk_isHalted d then d
      else if getAttestation (cl_nullifier req) (Some SOLD) (desk_atts d) \<noteq> None then d
      else if isOrderTracked (cl_nullifier req) (dk_tracker d) then d
      else let oe = se_order env; expiration = effective_expiration oe params
        in case place_limit_sell env req (post_of (lp_orderType params)) expiration d of
             (None, d1) \<Rightarrow> d1
           | (Some (r, token, condition), d1) \<Rightarrow>
               (case order_id r of
                  None \<Rightarrow> d1
                | Some oid \<Rightarrow>
                    (case crossing_fee oe token (rp_makingAmount r) (of_int (cl_limit_price req) / 1000000) of
                       Inl e \<Rightarrow> caught e d1
                     | Inr fee \<Rightarrow> track \<lparr>to_nullifier = cl_nullifier req, to_orderID = oid,
                         to_conditionId = condition, to_tokenId = token,
                         to_expected_shares = cl_sold_shares req, to_bet_amount = 0,
                         to_price = 0, to_orderType = lp_orderType params,
                         to_expiration = expiration, to_side = SELL, to_sellLimitPrice = cl_limit_price req,
                         to_takerFeeUsd = fee\<rparr> d1)))"

subsection \<open>Lemmas\<close>

lemma sell_job_frame: "sell_job env req d = (c, d1) \<Longrightarrow> desk_atts d1 = desk_atts d"
  by (auto simp: sell_job_def sent_def Let_def split: if_splits sum.splits option.splits bool.splits)

lemma sell_job_prod:
  assumes "\<not> is_mock (se_order env)" and "sell_job env req d = (Some c, d1)"
  obtains r where "resolveCloseToken env req = Inr (sc_tokenId c, sc_conditionId c)"
    "sc_price c = sell_price env req (sc_tokenId c)"
    "oe_prod_post (se_order env) (prod_sell (sc_tokenId c) (sc_price c) (cl_sold_shares req) PFAK 0) = Inr r"
    "sell_fill r = Some (sc_filled c, sc_ambiguous c)" "sc_client c"
    "dk_sent d1 = dk_sent d @ [Prod (prod_sell (sc_tokenId c) (sc_price c) (cl_sold_shares req) PFAK 0)]"
  using assms by (auto simp: sell_job_def sent_def Let_def split: sum.splits option.splits bool.splits prod.splits)

lemma sell_price_floor: "cl_limit_price req \<le> sell_price env req token"
  by (auto simp: sell_price_def split: option.split)

lemma place_limit_sell_frame:
  "place_limit_sell env req ty x d = (c, d1) \<Longrightarrow> desk_atts d1 = desk_atts d"
  by (auto simp: place_limit_sell_def sent_def Let_def split: if_splits sum.splits option.splits bool.splits)

lemma limit_sell_attests_nothing: "desk_atts (submitLimitSellOrder env req params d) = desk_atts d"
proof -
  obtain c d1 where pl: "place_limit_sell env req (post_of (lp_orderType params))
      (effective_expiration (se_order env) params) d = (c, d1)" by fastforce
  show ?thesis using pl place_limit_sell_frame [OF pl]
    by (auto simp: submitLimitSellOrder_def Let_def split: option.splits sum.splits)
qed

text \<open>The fee is never negative, so what is credited is at most the gross proceeds.\<close>

lemma clobTakerFee_nonneg: "0 \<le> clobTakerFeeUsd env c t n p"
  by (auto simp: clobTakerFeeUsd_def intro!: math_round_nonneg split: option.split)

lemma sell_proceeds_le:
  assumes "0 \<le> filled" "0 \<le> sc_price c"
  shows "0 \<le> sell_proceeds env c filled \<and> sell_proceeds env c filled * 1000000 \<le> filled * sc_price c"
proof -
  have "0 \<le> filled * sc_price c" using assms by simp
  then show ?thesis
    using big_div_mult_le [of "filled * sc_price c" 1000000] clobTakerFee_nonneg
    by (auto simp: sell_proceeds_def Let_def) (smt (verit, best))
qed

text \<open>Where a close adds a report, it is the report of a sale.\<close>

lemma market_sell_new_row:
  assumes "\<not> is_mock (se_order env)" and "map_of (desk_atts d) k = None"
    and "map_of (desk_atts (submitMarketSellOrder env req d)) k = Some row"
  obtains c d1 where "sell_job env req d = (Some c, d1)" "submitMarketSellOrder env req d = sell_finish env req c d1"
    "k = (cl_nullifier req, SOLD)" "0 < sell_filled env req c"
    "at_amount_a row = (if sell_filled env req c + DUST \<ge> cl_sold_shares req then cl_sold_shares req else sell_filled env req c)"
    "at_amount_b row = sell_proceeds env c (sell_filled env req c)"
proof -
  obtain co d1 where job: "sell_job env req d = (co, d1)" by fastforce
  note fr = sell_job_frame [OF job]
  have "sell_allowed req d" using assms(2,3) by (auto simp: submitMarketSellOrder_def split: if_splits)
  moreover obtain c where c: "co = Some c"
    using job fr assms(2,3) calculation by (cases co) (auto simp: submitMarketSellOrder_def)
  ultimately have run: "submitMarketSellOrder env req d = sell_finish env req c d1"
    using job by (simp add: submitMarketSellOrder_def)
  obtain i sig where i: "terminal_input \<lparr>tb_nullifier = cl_nullifier req, tb_expected_shares = cl_sold_shares req,
      tb_bet_amount = 0, tb_side = SELL\<rparr> (sell_filled env req c) (sell_proceeds env c (sell_filled env req c)) = Some i"
    "k = (in_nullifier i, in_type i)" "row = attestation_of i sig"
    using attest_terminal_new_row [of d1 k "se_order env" _ "sell_filled env req c" _ row] assms(2,3) fr
    unfolding run sell_finish_def Let_def by metis
  show ?thesis
    by (rule that [OF job [unfolded c] run]) (use i in \<open>auto simp: terminal_input_def attestation_of_def split: if_splits\<close>)
qed

text \<open>
  What a poll shows as sold of an order: the matched size of an order that is matched or
  filled, or the order's part of the trades of the market.
\<close>

definition shown_sold :: "string \<Rightarrow> string \<Rightarrow> poll_view \<Rightarrow> rat \<Rightarrow> bool" where
  "shown_sold orderID conditionId v q \<longleftrightarrow>
     orderID \<noteq> '''' \<and> (\<exists>s. pv_order v = Some (s, q) \<and> upper s \<in> {''MATCHED'', ''FILLED''}) \<or>
     conditionId \<noteq> '''' \<and> (\<exists>trades. pv_trades v = Some trades \<and> q = traded (lower orderID) trades)"

lemma poll_shown:
  assumes "poll_once orderID conditionId tol v = Some True"
  shows "\<exists>q. shown_sold orderID conditionId v q \<and> tol \<le> q"
  using assms
  by (force simp: poll_once_def shown_sold_def Let_def confirmed_status_def split: if_splits option.splits prod.splits)

lemma confirm_shown:
  "confirmSellFilled orderID conditionId shares vs \<Longrightarrow>
     \<exists>v \<in> set vs. \<exists>q. shown_sold orderID conditionId v q \<and> of_int (shares * 999) \<le> q * 1000000000"
proof (induction vs)
  case (Cons v vs)
  let ?tol = "of_int shares / 1000000 * (999 / 1000) :: rat"
  show ?case
  proof (cases "poll_once orderID conditionId ?tol v")
    case None
    then show ?thesis using Cons by auto
  next
    case (Some b)
    then have "poll_once orderID conditionId ?tol v = Some True" using Cons.prems by simp
    from poll_shown [OF this] obtain q where q: "shown_sold orderID conditionId v q" "?tol \<le> q" by blast
    then have "of_int (shares * 999) \<le> q * 1000000000" by (simp add: field_simps)
    with q(1) show ?thesis by auto
  qed
qed simp

text \<open>
  What a reply says of a sale, apart from the code's reader: the shares it reports as sold, in
  millionths, and whether it reports nothing at all without saying that the order was killed.
\<close>

definition says_sold :: "clob_reply \<Rightarrow> int \<Rightarrow> bool" where
  "says_sold r f \<longleftrightarrow>
     (case (rp_makingAmount r, rp_takingAmount r, rp_size_matched r) of
        (Amount x, _, _) \<Rightarrow> f = math_round (x * 1000000)
      | (Absent, Absent, Amount x) \<Rightarrow> f = \<lfloor>x * 1000000\<rfloor>
      | (NotANumber, _, _) \<Rightarrow> False
      | (Absent, Absent, NotANumber) \<Rightarrow> False
      | _ \<Rightarrow> f = 0)"

definition says_nothing :: "clob_reply \<Rightarrow> bool" where
  "says_nothing r \<longleftrightarrow> rp_makingAmount r = Absent \<and> rp_takingAmount r = Absent \<and> rp_size_matched r = Absent \<and>
     reply_status r \<notin> {''unmatched'', ''killed'', ''cancelled''} \<and> \<not> js_includes ''not_filled'' (lower (reply_error r))"

lemma sell_fill_says: "sell_fill r = Some (f, amb) \<Longrightarrow> says_sold r f \<and> (amb \<longrightarrow> says_nothing r)"
  by (cases "rp_makingAmount r"; cases "rp_takingAmount r"; cases "rp_size_matched r")
    (auto simp: sell_fill_def says_sold_def says_nothing_def Let_def)

lemma sell_proceeds_eq:
  assumes "0 \<le> filled" "0 \<le> sc_price c"
  shows "sell_proceeds env c filled = max 0 (filled * sc_price c div 1000000 - clobTakerFeeUsd (se_order env) (sc_client c) (sc_tokenId c)
     (of_int filled / 1000000 * (of_int (sc_price c) / 1000000)) (of_int (sc_price c) / 1000000))"
  using assms by (simp add: sell_proceeds_def Let_def big_div_nonneg)

subsection \<open>Claims\<close>

text \<open>
  C29: A close never touches a bet's outcome, and credits what the exchange shows as sold, up to
  the tolerances of the code.  On production the only report a market close can add is the
  sale of that bet, a resting close adds none.  A sale is reported for the fill of the reply, or,
  where the reply reports nothing at all without saying that the order was killed, for the
  requested size if a later poll of the order or of its trades shows at least 999 of every 1000
  of the requested shares as sold; it is on the token bound to the bet, at a price not below
  the user's limit.  The shares it reports are that fill, or the requested ones where the fill is
  within a hundredth of a share of them; the proceeds are the fill at that price, rounded down, less the taker
  fee, and never more than the fill at that price.
\<close>

theorem close_reports_sale_only:
  assumes "\<not> is_mock (se_order env)" and "0 < cl_limit_price req"
    and "map_of (desk_atts d) k = None"
  shows "desk_atts (submitLimitSellOrder env req params d) = desk_atts d \<and>
    (\<forall>row. map_of (desk_atts (submitMarketSellOrder env req d)) k = Some row \<longrightarrow>
       k = (cl_nullifier req, SOLD) \<and>
       (\<exists>token condition price r f n. resolveCloseToken env req = Inr (token, condition) \<and>
          oe_prod_post (se_order env) (prod_sell token price (cl_sold_shares req) PFAK 0) = Inr r \<and>
          cl_limit_price req \<le> price \<and> says_sold r f \<and> 0 < n \<and>
          (n = f \<or> f = 0 \<and> says_nothing r \<and> n = cl_sold_shares req \<and>
             (\<exists>v \<in> set (se_polls env). \<exists>q. shown_sold (string_id r) condition v q \<and> of_int (n * 999) \<le> q * 1000000000)) \<and>
          at_amount_a row = (if n + 10000 < cl_sold_shares req then n else cl_sold_shares req) \<and>
          at_amount_b row = max 0 (n * price div 1000000 - clobTakerFeeUsd (se_order env) True token
             (of_int n / 1000000 * (of_int price / 1000000)) (of_int price / 1000000)) \<and>
          at_amount_b row * 1000000 \<le> n * price))"
proof (intro conjI allI impI)
  fix row
  assume row: "map_of (desk_atts (submitMarketSellOrder env req d)) k = Some row"
  obtain c d1 where s: "sell_job env req d = (Some c, d1)" "k = (cl_nullifier req, SOLD)" "0 < sell_filled env req c"
    "at_amount_a row = (if sell_filled env req c + DUST \<ge> cl_sold_shares req then cl_sold_shares req else sell_filled env req c)"
    "at_amount_b row = sell_proceeds env c (sell_filled env req c)"
    by (rule market_sell_new_row [OF assms(1,3) row])
  let ?n = "sell_filled env req c"
  obtain r where r: "resolveCloseToken env req = Inr (sc_tokenId c, sc_conditionId c)"
    "sc_price c = sell_price env req (sc_tokenId c)"
    "oe_prod_post (se_order env) (prod_sell (sc_tokenId c) (sc_price c) (cl_sold_shares req) PFAK 0) = Inr r"
    "sell_fill r = Some (sc_filled c, sc_ambiguous c)" and oid: "sc_orderID c = string_id r" and cl: "sc_client c"
    using s(1) assms(1) by (auto simp: sell_job_def Let_def split: sum.splits option.splits bool.splits prod.splits)
  have price: "cl_limit_price req \<le> sc_price c" using r(2) sell_price_floor by simp
  have proceeds: "at_amount_b row * 1000000 \<le> ?n * sc_price c"
    "at_amount_b row = max 0 (?n * sc_price c div 1000000 - clobTakerFeeUsd (se_order env) True (sc_tokenId c)
       (of_int ?n / 1000000 * (of_int (sc_price c) / 1000000)) (of_int (sc_price c) / 1000000))"
    using sell_proceeds_le [of ?n c env] sell_proceeds_eq [of ?n c env] s(3,5) price assms(2) cl by simp_all
  have shown: "?n = sc_filled c \<or> sc_filled c = 0 \<and> says_nothing r \<and> ?n = cl_sold_shares req \<and>
      (\<exists>v \<in> set (se_polls env). \<exists>q. shown_sold (string_id r) (sc_conditionId c) v q \<and> of_int (?n * 999) \<le> q * 1000000000)"
    unfolding oid [symmetric] using sell_fill_says [OF r(4)]
      confirm_shown [of "sc_orderID c" "sc_conditionId c" "cl_sold_shares req" "se_polls env"]
    by (auto simp: sell_filled_def)
  have shares: "at_amount_a row = (if ?n + 10000 < cl_sold_shares req then ?n else cl_sold_shares req)"
    using s(4) by (simp add: DUST_def)
  show "\<exists>token condition price r f n. resolveCloseToken env req = Inr (token, condition) \<and>
      oe_prod_post (se_order env) (prod_sell token price (cl_sold_shares req) PFAK 0) = Inr r \<and>
      cl_limit_price req \<le> price \<and> says_sold r f \<and> 0 < n \<and>
      (n = f \<or> f = 0 \<and> says_nothing r \<and> n = cl_sold_shares req \<and>
         (\<exists>v \<in> set (se_polls env). \<exists>q. shown_sold (string_id r) condition v q \<and> of_int (n * 999) \<le> q * 1000000000)) \<and>
      at_amount_a row = (if n + 10000 < cl_sold_shares req then n else cl_sold_shares req) \<and>
      at_amount_b row = max 0 (n * price div 1000000 - clobTakerFeeUsd (se_order env) True token
         (of_int n / 1000000 * (of_int price / 1000000)) (of_int price / 1000000)) \<and>
      at_amount_b row * 1000000 \<le> n * price"
    using r(1,3) sell_fill_says [OF r(4)] price s(3) proceeds shown shares by blast
  show "k = (cl_nullifier req, SOLD)" by (rule s(2))
qed (rule limit_sell_attests_nothing)

text \<open>Production, a bet on side 0 of a known market, a bid of 0.50, a reply that sells 4 shares.\<close>

definition demo_sold :: clob_reply where
  "demo_sold = demo_reply\<lparr>rp_makingAmount := Amount 4\<rparr>"

definition demo_sell_env :: sell_env where
  "demo_sell_env = \<lparr>se_order = demo_env\<lparr>oe_prod_post := (\<lambda>p. Inr demo_sold)\<rparr>, se_bet = (\<lambda>nf. Inr (''m'', 0)),
     se_registry = Some [(''m'', \<lparr>rr_condition_id = ''c'', rr_yes = ''y'', rr_no = ''n'', rr_question = ''q'',
       rr_end_date = None, rr_updated_at = 0\<rparr>)],
     se_bids = (\<lambda>t. Some [1 / 2]), se_polls = []\<rparr>"

definition demo_close :: CloseRequest where
  "demo_close = \<lparr>cl_nullifier = ''n'', cl_position_id = ''p'', cl_sold_shares = 5000000, cl_limit_price = 400000\<rparr>"

lemma demo_sell_facts:
  "\<not> is_mock (se_order demo_sell_env)" "getOrCreateClobClient (se_order demo_sell_env) = Inr True"
  "resolveCloseToken demo_sell_env demo_close = Inr (''y'', ''c'')"
  "sell_fill demo_sold = Some (4000000, False)" "string_id demo_sold = ''''"
  "oe_prod_post (se_order demo_sell_env) p = Inr demo_sold"
  "sell_price demo_sell_env demo_close ''y'' = 500000"
proof -
  have l: "lower ''m'' = ''m''" by code_simp
  show m: "\<not> is_mock (se_order demo_sell_env)"
    using demo_host by (simp add: is_mock_def demo_sell_env_def demo_env_def)
  then show "getOrCreateClobClient (se_order demo_sell_env) = Inr True"
    by (simp add: getOrCreateClobClient_def) (simp add: demo_sell_env_def demo_env_def)
  show "resolveCloseToken demo_sell_env demo_close = Inr (''y'', ''c'')"
    using m by (simp add: resolveCloseToken_def Let_def)
      (simp add: demo_sell_env_def resolveToken_def l Let_def decideCloseToken_def usable_hit_def bad_side_def)
  show "sell_fill demo_sold = Some (4000000, False)"
    using math_round_int [of 4000000] by (simp add: sell_fill_def Let_def demo_sold_def demo_reply_def)
  show "string_id demo_sold = ''''" by (simp add: string_id_def demo_sold_def demo_reply_def id_text_def orelse_def)
  show "oe_prod_post (se_order demo_sell_env) p = Inr demo_sold" by (simp add: demo_sell_env_def)
  show "sell_price demo_sell_env demo_close ''y'' = 500000"
    using math_round_int [of 500000]
    by (simp add: sell_price_def fetchBestBidMicro_def Let_def) (simp add: demo_sell_env_def demo_close_def max_def)
qed

lemma demo_sell_job:
  "sell_job demo_sell_env demo_close d = (Some \<lparr>sc_filled = 4000000, sc_ambiguous = False, sc_client = True,
     sc_orderID = '''', sc_conditionId = ''c'', sc_tokenId = ''y'', sc_price = 500000\<rparr>,
     sent (Prod (prod_sell ''y'' 500000 5000000 PFAK 0)) d)"
  by (simp add: sell_job_def Let_def demo_sell_facts) (simp add: demo_close_def)

theorem close_reports_sale_only_witness:
  "\<exists>row. map_of (desk_atts (submitMarketSellOrder demo_sell_env demo_close demo_desk)) (''n'', SOLD) = Some row \<and>
     at_amount_a row = 4000000"
proof -
  have ok: "sell_allowed demo_close demo_desk"
    by (simp add: sell_allowed_def demo_desk_def desk_isHalted_def desk_atts_def getAttestation_def readTypedRow_def)
  have e: "oe_domain (se_order demo_sell_env)" "oe_sign (se_order demo_sell_env) i = Inr ''sig''" for i
    by (simp_all add: demo_sell_env_def demo_env_def)
  have none: "desk_atts (sent p demo_desk) = []" "desk_atts demo_desk = []" for p
    by (simp_all add: sent_def demo_desk_def desk_atts_def)
  have run: "submitMarketSellOrder demo_sell_env demo_close demo_desk = sell_finish demo_sell_env demo_close
      \<lparr>sc_filled = 4000000, sc_ambiguous = False, sc_client = True, sc_orderID = '''', sc_conditionId = ''c'',
        sc_tokenId = ''y'', sc_price = 500000\<rparr> (sent (Prod (prod_sell ''y'' 500000 5000000 PFAK 0)) demo_desk)"
    using ok by (simp add: submitMarketSellOrder_def demo_sell_job)
  have "map_of (desk_atts (submitMarketSellOrder demo_sell_env demo_close demo_desk)) (''n'', SOLD) \<noteq> None"
    unfolding run by (simp add: sell_finish_def attest_terminal_def none
        attestTerminal_def terminal_input_def sell_filled_def e signAndStoreAttestation_def existing_row_def
        isBetOutcome_def readTypedRow_def demo_close_def case_prod_beta map_of_insert_ignore)
  then obtain row where row: "map_of (desk_atts (submitMarketSellOrder demo_sell_env demo_close demo_desk)) (''n'', SOLD) = Some row"
    by blast
  have "0 < cl_limit_price demo_close" "map_of (desk_atts demo_desk) (''n'', SOLD) = None"
    "cl_sold_shares demo_close = 5000000" by (simp_all add: demo_close_def none)
  then obtain p r f n where r: "oe_prod_post (se_order demo_sell_env) p = Inr r" "says_sold r f"
      "n = f \<or> says_nothing r" "at_amount_a row = (if n + 10000 < 5000000 then n else 5000000)"
    using close_reports_sale_only [OF demo_sell_facts(1), of demo_close demo_desk "(''n'', SOLD)"] row by metis
  then have "r = demo_sold" using demo_sell_facts(6) by simp
  then have "f = 4000000" "\<not> says_nothing r"
    using r(2) math_round_int [of 4000000] by (simp_all add: says_sold_def says_nothing_def demo_sold_def demo_reply_def)
  then have "at_amount_a row = 4000000" using r(3,4) by simp
  with row show ?thesis by blast
qed

text \<open>
  Overlapping closes sell twice.  The check for a sale's report stands before
  the order is sent and the report is signed after it: two market closes of the
  same bet whose checks both ran before the first report each send a sell order of
  the requested size, from a wallet whose shares are pooled across bets, and the
  table keeps the report of the first only.
\<close>

lemma overlapping_closes_sell_twice:
  assumes "\<not> is_mock (se_order env)" and "sell_allowed req d"
    and "sell_job env req d = (Some c, d1)" and "\<not> desk_isHalted d1"
    and "sell_job env req d1 = (Some c, d2)"
    and "oe_domain (se_order env)" and "\<And>i. \<exists>sig. oe_sign (se_order env) i = Inr sig" and "0 < sell_filled env req c"
  shows "sell_allowed req d1 \<and>
    (\<exists>p. po_side p = SELL \<and> po_size p = of_int (cl_sold_shares req) / 1000000 \<and>
       dk_sent (sell_finish env req c (sell_finish env req c d2)) = dk_sent d @ [Prod p, Prod p]) \<and>
    desk_atts (sell_finish env req c (sell_finish env req c d2)) = desk_atts (sell_finish env req c d2)"
proof (intro conjI)
  let ?p = "prod_sell (sc_tokenId c) (sc_price c) (cl_sold_shares req) PFAK 0"
  show "sell_allowed req d1" using assms(2,4) sell_job_frame [OF assms(3)] by (simp add: sell_allowed_def)
  have "dk_sent d1 = dk_sent d @ [Prod ?p]" by (rule sell_job_prod [OF assms(1,3)])
  moreover have "dk_sent d2 = dk_sent d1 @ [Prod ?p]" by (rule sell_job_prod [OF assms(1,5)])
  ultimately show "\<exists>p. po_side p = SELL \<and> po_size p = of_int (cl_sold_shares req) / 1000000 \<and>
      dk_sent (sell_finish env req c (sell_finish env req c d2)) = dk_sent d @ [Prod p, Prod p]"
    by (intro exI [of _ ?p]) (simp add: sell_finish_def Let_def prod_sell_def)
  obtain i where i: "terminal_input \<lparr>tb_nullifier = cl_nullifier req, tb_expected_shares = cl_sold_shares req,
      tb_bet_amount = 0, tb_side = SELL\<rparr> (sell_filled env req c) (sell_proceeds env c (sell_filled env req c)) = Some i"
    "in_type i = SOLD"
    using assms(8) by (auto simp: terminal_input_def)
  obtain sig where sig: "oe_sign (se_order env) i = Inr sig" using assms(7) by blast
  have "existing_row i (snd (signAndStoreAttestation (oe_sign (se_order env)) i t)) \<noteq> None" for t
    using i(2) sig by (auto simp: signAndStoreAttestation_def existing_row_def isBetOutcome_def readTypedRow_def
        case_prod_beta map_of_insert_ignore split: option.split)
  then have "snd (signAndStoreAttestation (oe_sign (se_order env)) i (snd (signAndStoreAttestation (oe_sign (se_order env)) i t))) =
      snd (signAndStoreAttestation (oe_sign (se_order env)) i t)" for t
    by (metis (no_types, lifting) option.case_eq_if signAndStoreAttestation_def snd_conv)
  then show "desk_atts (sell_finish env req c (sell_finish env req c d2)) = desk_atts (sell_finish env req c d2)"
    using i(1) assms(6) by (simp add: sell_finish_def Let_def attest_terminal_def attestTerminal_def)
qed

lemma overlapping_closes_sell_twice_witness:
  "\<exists>c d1 d2. sell_job demo_sell_env demo_close demo_desk = (Some c, d1) \<and> sell_job demo_sell_env demo_close d1 = (Some c, d2) \<and>
     (\<exists>p. po_side p = SELL \<and> dk_sent (sell_finish demo_sell_env demo_close c (sell_finish demo_sell_env demo_close c d2)) = [Prod p, Prod p])"
proof -
  let ?c = "\<lparr>sc_filled = 4000000, sc_ambiguous = False, sc_client = True,
     sc_orderID = '''', sc_conditionId = ''c'', sc_tokenId = ''y'', sc_price = 500000\<rparr>"
  let ?p = "Prod (prod_sell ''y'' 500000 5000000 PFAK 0)"
  have ok: "sell_allowed demo_close demo_desk" "\<not> desk_isHalted (sent ?p demo_desk)" "dk_sent demo_desk = []"
    by (simp_all add: sell_allowed_def demo_desk_def desk_isHalted_def desk_atts_def getAttestation_def readTypedRow_def sent_def)
  have e: "oe_domain (se_order demo_sell_env)" "\<And>i. \<exists>sig. oe_sign (se_order demo_sell_env) i = Inr sig"
    "0 < sell_filled demo_sell_env demo_close ?c"
    by (simp_all add: demo_sell_env_def demo_env_def sell_filled_def)
  from overlapping_closes_sell_twice [OF demo_sell_facts(1) ok(1) demo_sell_job ok(2) demo_sell_job e] ok(3)
  have "\<exists>p. po_side p = SELL \<and> dk_sent (sell_finish demo_sell_env demo_close ?c
      (sell_finish demo_sell_env demo_close ?c (sent ?p (sent ?p demo_desk)))) = [Prod p, Prod p]" by auto
  then show ?thesis using demo_sell_job by blast
qed

text \<open>
  The tolerance of the confirmation is a share of the size: a sale of a million
  shares is confirmed in full when a thousand of them did not sell, where the
  report's own tolerance is a hundredth of a share.
\<close>

lemma confirm_overstates:
  "confirmSellFilled ''o'' ''c'' 1000000000000 [\<lparr>pv_order = Some (''MATCHED'', 999000), pv_trades = None\<rparr>]"
proof -
  have "upper ''MATCHED'' = ''MATCHED''" by code_simp
  then show ?thesis by (simp add: poll_once_def Let_def confirmed_status_def)
qed

end
