(* ===== verification/Bet_Listener.thy ===== *)
theory Bet_Listener
  imports Orders_Buy Event_Index Market_Registry
begin

section \<open>The event listener\<close>

text \<open>
  \<open>signing-layer/src/eventListener.ts\<close>: the poll that finds the bets authorised on
  chain and starts an order for each, once per process.  \<open>listener\<close> is the state
  of the module (the in-flight map, the scan guard and the cursor file) with the
  stores it writes; \<open>listener_env\<close> what one scan asks of the relay, the chain and
  the exchange.  One scan is a step of the model; a bet's order function runs
  to its end inside it, as the code awaits it.
\<close>

definition SAFETY_BUFFER :: int where "SAFETY_BUFFER = 100"
definition SCAN_WINDOW :: int where "SCAN_WINDOW = 5000"
definition DEEP_LOOKBACK_BLOCKS :: int where "DEEP_LOOKBACK_BLOCKS = 100000"
definition ACTIVE_SUBMIT_WINDOW_MS :: int where "ACTIVE_SUBMIT_WINDOW_MS = 120000"

definition ZeroHash :: string where "ZeroHash = ''0x'' @ replicate 64 (CHR ''0'')"

record listener =
  ls_inFlight :: "(string \<times> int) list"
  ls_file :: "int option"
  ls_scanning :: bool
  ls_tracked :: tracked_markets
  ls_desk :: desk

text \<open>
  The token registry is \<open>None\<close> where reading it throws.  \<open>le_bet_record\<close> is the
  market id of the bet's record on chain.
\<close>

record listener_env =
  le_deploy :: int
  le_registry :: "registry option"
  le_limits :: limit_orders
  le_order :: "BetAuthorizedRecord \<Rightarrow> order_env"
  le_bet_record :: "string \<Rightarrow> string + string"
  le_url :: bool
  le_head_reply :: "string + (bool \<times> int option)"
  le_chain_head :: "string + int"
  le_relay :: "int \<Rightarrow> int \<Rightarrow> string + IndexedEvent list"
  le_query :: "int \<Rightarrow> int \<Rightarrow> string + vault_log list"

definition isBetInFlight :: "string \<Rightarrow> listener \<Rightarrow> bool" where
  "isBetInFlight nf s \<longleftrightarrow> map_of (ls_inFlight s) nf \<noteq> None"

definition isActivelySubmitting :: "int \<Rightarrow> string \<Rightarrow> listener \<Rightarrow> bool" where
  "isActivelySubmitting now nf s \<longleftrightarrow>
     (case map_of (ls_inFlight s) nf of None \<Rightarrow> False | Some started \<Rightarrow> now - started < ACTIVE_SUBMIT_WINDOW_MS)"

text \<open>The cursor file: a number, or anything else, which reads as 0.\<close>

definition loadLastBlock :: "listener \<Rightarrow> int" where
  "loadLastBlock s = (case ls_file s of Some b \<Rightarrow> b | None \<Rightarrow> 0)"

definition saveLastBlock :: "int \<Rightarrow> listener \<Rightarrow> listener" where
  "saveLastBlock b s = s\<lparr>ls_file := Some b\<rparr>"

subsection \<open>One bet\<close>

definition hit_of :: "ResolvedToken option \<Rightarrow> RegistryHit option" where
  "hit_of = map_option (\<lambda>t. \<lparr>rh_tokenId = rt_tokenId t, rh_conditionId = rt_conditionId t\<rparr>)"

definition buy_decision :: "listener_env \<Rightarrow> BetAuthorizedRecord \<Rightarrow> BuyDecision" where
  "buy_decision env r =
     decideBuyToken (br_market_id r) (br_position_id r) (Some (of_nat (br_outcome_side r)))
       (hit_of (Option.bind (le_registry env) (resolveToken (br_market_id r) (br_outcome_side r))))
       (is_mock (le_order env r))"

definition order_event :: "BetAuthorizedRecord \<Rightarrow> string \<Rightarrow> string \<Rightarrow> BetAuthorizedEvent" where
  "order_event r token condition =
     \<lparr>be_nullifier = br_nullifier r, be_market_id = condition, be_position_id = token,
      be_expected_shares = int (br_expected_shares r), be_bet_amount = int (br_bet_amount r),
      be_price = int (br_price r), be_new_commitment = br_new_commitment r\<rparr>"

definition remember_market :: "listener_env \<Rightarrow> BetAuthorizedRecord \<Rightarrow> string \<Rightarrow> listener \<Rightarrow> listener" where
  "remember_market env r condition s =
     (case le_registry env of
        None \<Rightarrow> s
      | Some reg \<Rightarrow> s\<lparr>ls_tracked := upsertTrackedMarket (br_market_id r) condition
          (Option.bind (marketMetaForKey (br_market_id r) reg) snd) (now_sec (le_order env r)) (ls_tracked s)\<rparr>)"

fun route_order :: "order_env \<Rightarrow> LimitOrderIntent option \<Rightarrow> BetAuthorizedEvent \<Rightarrow> desk \<Rightarrow> desk" where
  "route_order env None ev d = submitFAKOrder env ev d"
| "route_order env (Some i) ev d =
     (case loi_type i of
        I_FAK \<Rightarrow> submitFAKOrder env ev d
      | I_GTC \<Rightarrow> submitLimitOrder env ev \<lparr>lp_orderType = GTC, lp_expiration = loi_expiration i\<rparr> d
      | I_GTD \<Rightarrow> submitLimitOrder env ev \<lparr>lp_orderType = GTD, lp_expiration = loi_expiration i\<rparr> d)"

definition processBetEvent :: "listener_env \<Rightarrow> BetAuthorizedRecord \<Rightarrow> listener \<Rightarrow> listener" where
  "processBetEvent env r s =
     (case buy_decision env r of
        Reject reason \<Rightarrow> s\<lparr>ls_desk := attestFailedFor (le_order env r) (br_nullifier r) (ls_desk s)\<rparr>
      | Trade token condition source \<Rightarrow>
          let s1 = remember_market env r condition s
          in s1\<lparr>ls_desk := route_order (le_order env r) (getLimitOrder (br_nullifier r) (le_limits env))
                  (order_event r token condition) (ls_desk s1)\<rparr>)"

definition handleBetRecord :: "listener_env \<Rightarrow> BetAuthorizedRecord \<Rightarrow> listener \<Rightarrow> listener" where
  "handleBetRecord env r s =
     (let nf = br_nullifier r in
      if getAttestation nf None (desk_atts (ls_desk s)) \<noteq> None then s
      else if isBetInFlight nf s then s
      else if isOrderTracked nf (dk_tracker (ls_desk s)) then s
      else case le_bet_record env nf of
        Inl e \<Rightarrow> s
      | Inr market \<Rightarrow>
          if market = '''' \<or> market = ZeroHash then s
          else processBetEvent env r
                 (s\<lparr>ls_inFlight := AList.update nf (oe_now_ms (le_order env r)) (ls_inFlight s)\<rparr>))"

subsection \<open>A scan\<close>

definition fetch_bets :: "listener_env \<Rightarrow> int \<Rightarrow> int \<Rightarrow> event_source \<Rightarrow> string + BetAuthorizedRecord list" where
  "fetch_bets env a b src =
     bind_sum (fetchBetAuthorized (le_url env) (le_relay env) (le_query env) a b (src = FromIndex)) (\<lambda>(rs, _). Inr rs)"

definition scan_window :: "listener_env \<Rightarrow> bool \<Rightarrow> int \<Rightarrow> BetAuthorizedRecord list \<Rightarrow> listener \<Rightarrow> listener" where
  "scan_window env save windowEnd records s =
     (let s1 = foldl (\<lambda>u x. handleBetRecord env x u) s records
      in if save then saveLastBlock windowEnd s1 else s1)"

function scan_bets :: "listener_env \<Rightarrow> bool \<Rightarrow> event_source \<Rightarrow> int \<Rightarrow> int \<Rightarrow> listener \<Rightarrow> listener" where
  "scan_bets env save src head cursor s =
     (if cursor > head then s
      else let windowEnd = min (cursor + SCAN_WINDOW - 1) head
           in case fetch_bets env cursor windowEnd src of
                Inl e \<Rightarrow> s
              | Inr records \<Rightarrow>
                  scan_bets env save src head (windowEnd + 1) (scan_window env save windowEnd records s))"
  by pat_completeness auto
termination
  by (relation "measure (\<lambda>(env, save, src, head, cursor, s). nat (head + 1 - cursor))") (auto simp: SCAN_WINDOW_def)

declare scan_bets.simps [simp del]

definition scan_from :: "listener_env \<Rightarrow> int option \<Rightarrow> int \<Rightarrow> listener \<Rightarrow> int" where
  "scan_from env fromOverride head s =
     (case fromOverride of
        Some f \<Rightarrow> max (le_deploy env) (min f head)
      | None \<Rightarrow> max (le_deploy env) (min (max 0 (loadLastBlock s)) head - SAFETY_BUFFER))"

definition catchUpMissedBets :: "listener_env \<Rightarrow> int option \<Rightarrow> bool \<Rightarrow> listener \<Rightarrow> listener" where
  "catchUpMissedBets env fromOverride save s =
     (case scanHead (le_url env) (le_head_reply env) (le_chain_head env) of
        Inl e \<Rightarrow> s
      | Inr (head, src) \<Rightarrow> scan_bets env save src head (scan_from env fromOverride head s) s)"

definition runScan :: "listener_env \<Rightarrow> int option \<Rightarrow> bool \<Rightarrow> listener \<Rightarrow> listener" where
  "runScan env fromOverride save s =
     (if ls_scanning s then s
      else (catchUpMissedBets env fromOverride save (s\<lparr>ls_scanning := True\<rparr>))\<lparr>ls_scanning := False\<rparr>)"

definition deepSweep :: "listener_env \<Rightarrow> int option \<Rightarrow> listener \<Rightarrow> listener" where
  "deepSweep env blockNumber s =
     (case blockNumber of
        None \<Rightarrow> s
      | Some current \<Rightarrow> if current = 0 then s else runScan env (Some (current - DEEP_LOOKBACK_BLOCKS)) False s)"

subsection \<open>Lemmas\<close>

definition attested :: "string \<Rightarrow> listener \<Rightarrow> bool" where
  "attested nf s \<longleftrightarrow> getAttestation nf None (desk_atts (ls_desk s)) \<noteq> None"

definition resting :: "string \<Rightarrow> listener \<Rightarrow> bool" where
  "resting nf s \<longleftrightarrow> isOrderTracked nf (dk_tracker (ls_desk s))"

text \<open>What a desk step may do: add rows, send at most one order, track at most the bet's own order.\<close>

definition desk_grows :: "string \<Rightarrow> desk \<Rightarrow> desk \<Rightarrow> bool" where
  "desk_grows nf d d' \<longleftrightarrow>
     (\<forall>k row. map_of (desk_atts d) k = Some row \<longrightarrow> map_of (desk_atts d') k = Some row) \<and>
     length (dk_sent d') \<le> Suc (length (dk_sent d)) \<and>
     (\<forall>n. isOrderTracked n (dk_tracker d') \<longrightarrow> n = nf \<or> isOrderTracked n (dk_tracker d))"

lemma attest_keeps:
  "map_of (desk_atts d) k = Some row \<Longrightarrow> map_of (desk_atts (attest env nf r a b d)) k = Some row"
  by (simp add: attest_def signAndStore_keeps)

lemma attest_terminal_keeps:
  "map_of (desk_atts d) k = Some row \<Longrightarrow> map_of (desk_atts (attest_terminal env bet f s d)) k = Some row"
  by (simp add: attest_terminal_def attestTerminal_keeps)

lemma tracked_frames [simp]:
  "isOrderTracked n (dk_tracker (attest env nf r a b d)) \<longleftrightarrow> isOrderTracked n (dk_tracker d)"
  "isOrderTracked n (dk_tracker (attest_terminal env bet f s d)) \<longleftrightarrow> isOrderTracked n (dk_tracker d)"
  "isOrderTracked n (dk_tracker (record_order_id m oid d)) \<longleftrightarrow> isOrderTracked n (dk_tracker d)"
  "isOrderTracked n (dk_tracker (mark_submitting env ev d)) \<longleftrightarrow> isOrderTracked n (dk_tracker d)"
  by (auto simp: attest_def attest_terminal_def set_atts_def isOrderTracked_def record_order_id_def mark_submitting_def)

lemma tracked_track:
  assumes "isOrderTracked n (dk_tracker (track ord d))"
  shows "n = to_nullifier ord \<or> isOrderTracked n (dk_tracker d)"
proof -
  have "set (map snd (by_order_id (snd (trackOrder ord t)))) \<subseteq> insert ord (set (map snd (by_order_id t)))" for t
    using values_update_subset [of "to_orderID ord" ord "by_order_id t"]
    by (auto simp: trackOrder_def persist_def Let_def simp del: set_map)
  moreover have "finalized (snd (trackOrder ord t)) = finalized t" for t
    by (simp add: trackOrder_def persist_def Let_def)
  ultimately show ?thesis using assms unfolding isOrderTracked_def track_def
    by (simp del: set_map) blast
qed

lemma place_buy_grows:
  assumes "place_buy env ev ty x d = (r, d1)"
  shows "desk_atts d1 = desk_atts d" "length (dk_sent d1) \<le> Suc (length (dk_sent d))" "dk_tracker d1 = dk_tracker d"
  using assms by (auto simp: place_buy_def sent_def desk_atts_def Let_def split: if_splits sum.splits option.splits bool.splits)

lemma fak_grows: "desk_grows (be_nullifier ev) d (submitFAKOrder env ev d)"
proof -
  obtain r d1 where pl: "place_buy env ev PFAK 0 (mark_submitting env ev d) = (r, d1)" by fastforce
  note g = place_buy_grows [OF pl, simplified]
  have k: "map_of (desk_atts d) k = Some row \<Longrightarrow> map_of (desk_atts (submitFAKOrder env ev d)) k = Some row" for k row
    using pl g(1) by (auto simp: submitFAKOrder_def reportFOKFailureSafe_def attest_keeps Let_def
        intro!: attest_terminal_keeps split: sum.splits option.splits)
  have l: "length (dk_sent (submitFAKOrder env ev d)) \<le> Suc (length (dk_sent d))"
    using pl g(2) by (auto simp: submitFAKOrder_def reportFOKFailureSafe_def Let_def split: sum.splits option.splits)
  have t: "isOrderTracked n (dk_tracker (submitFAKOrder env ev d)) \<longleftrightarrow> isOrderTracked n (dk_tracker d)" for n
    using pl arg_cong [OF g(3), of "isOrderTracked n"]
    by (auto simp: submitFAKOrder_def reportFOKFailureSafe_def Let_def split: sum.splits option.splits)
  show ?thesis unfolding desk_grows_def using k l t by blast
qed

lemma limit_grows: "desk_grows (be_nullifier ev) d (submitLimitOrder env ev params d)"
proof -
  obtain r d1 where pl: "place_buy env ev (post_of (lp_orderType params)) (effective_expiration env params) d = (r, d1)"
    by fastforce
  note g = place_buy_grows [OF pl]
  have k: "map_of (desk_atts d) k = Some row \<Longrightarrow> map_of (desk_atts (submitLimitOrder env ev params d)) k = Some row" for k row
    using pl g(1) by (auto simp: submitLimitOrder_def reportFOKFailureSafe_def attest_keeps Let_def
        split: sum.splits option.splits)
  have l: "length (dk_sent (submitLimitOrder env ev params d)) \<le> Suc (length (dk_sent d))"
    using pl g(2) by (auto simp: submitLimitOrder_def reportFOKFailureSafe_def Let_def split: sum.splits option.splits)
  have t: "isOrderTracked n (dk_tracker (submitLimitOrder env ev params d)) \<Longrightarrow>
      n = be_nullifier ev \<or> isOrderTracked n (dk_tracker d)" for n
    using pl arg_cong [OF g(3), of "isOrderTracked n"]
    by (auto simp: submitLimitOrder_def reportFOKFailureSafe_def Let_def split: sum.splits option.splits if_splits
        dest!: tracked_track)
  show ?thesis unfolding desk_grows_def using k l t by blast
qed

lemma failed_grows: "desk_grows nf d (attestFailedFor env m d)"
  by (simp add: desk_grows_def attestFailedFor_def attest_keeps)

lemma route_grows: "desk_grows (be_nullifier ev) d (route_order env i ev d)"
  by (cases i) (auto simp: fak_grows limit_grows split: LimitOrderType.split)

text \<open>What a part of a scan may do to the listener.\<close>

definition listener_grows :: "listener \<Rightarrow> listener \<Rightarrow> bool" where
  "listener_grows s s' \<longleftrightarrow>
     (\<forall>nf. isBetInFlight nf s \<longrightarrow> isBetInFlight nf s') \<and>
     (\<forall>nf. attested nf s \<longrightarrow> attested nf s') \<and>
     (\<forall>nf. resting nf s' \<longrightarrow> resting nf s \<or> isBetInFlight nf s') \<and>
     (distinct (map fst (ls_inFlight s)) \<longrightarrow> distinct (map fst (ls_inFlight s'))) \<and>
     length (dk_sent (ls_desk s')) + length (ls_inFlight s) \<le> length (dk_sent (ls_desk s)) + length (ls_inFlight s')"

lemma listener_grows_refl [simp]: "listener_grows s s"
  by (simp add: listener_grows_def)

lemma listener_grows_trans:
  assumes "listener_grows s t" and "listener_grows t u"
  shows "listener_grows s u"
proof -
  have "length (dk_sent (ls_desk u)) + length (ls_inFlight s) \<le> length (dk_sent (ls_desk s)) + length (ls_inFlight u)"
    using assms unfolding listener_grows_def by linarith
  then show ?thesis using assms unfolding listener_grows_def by blast
qed

lemma grows_frame:
  assumes "ls_inFlight s = ls_inFlight t" "ls_desk s = ls_desk t"
  shows "listener_grows s u \<longleftrightarrow> listener_grows t u" "listener_grows u s \<longleftrightarrow> listener_grows u t"
  using assms by (simp_all add: listener_grows_def isBetInFlight_def attested_def resting_def)

lemma desk_grows_attested:
  "desk_grows nf d d' \<Longrightarrow> getAttestation n None (desk_atts d) \<noteq> None \<Longrightarrow> getAttestation n None (desk_atts d') \<noteq> None"
proof -
  assume g: "desk_grows nf d d'" and a: "getAttestation n None (desk_atts d) \<noteq> None"
  from a obtain r row where r: "isBetOutcome r" "map_of (desk_atts d) (n, r) = Some row"
    by (auto simp: getAttestation_def find_outcome_iff)
  then have "map_of (desk_atts d') (n, r) = Some row" using g by (simp add: desk_grows_def)
  with r(1) show ?thesis by (auto simp: getAttestation_def find_outcome_iff)
qed

lemma start_grows:
  assumes "map_of (ls_inFlight s) nf = None" and "desk_grows nf (ls_desk s) d'"
  shows "listener_grows s (s\<lparr>ls_inFlight := AList.update nf t (ls_inFlight s), ls_tracked := m, ls_desk := d'\<rparr>)"
  using assms desk_grows_attested [OF assms(2)] distinct_keys_update [of "ls_inFlight s" nf t]
  by (auto simp: listener_grows_def isBetInFlight_def attested_def resting_def update_fresh map_of_update desk_grows_def)

lemma remember_shape: "\<exists>m. remember_market env r c s = s\<lparr>ls_tracked := m\<rparr>"
proof (cases "le_registry env")
  case None
  then have "remember_market env r c s = s\<lparr>ls_tracked := ls_tracked s\<rparr>" by (simp add: remember_market_def)
  then show ?thesis ..
qed (auto simp: remember_market_def)

lemma process_shape:
  "\<exists>m d'. processBetEvent env r s = s\<lparr>ls_tracked := m, ls_desk := d'\<rparr> \<and> desk_grows (br_nullifier r) (ls_desk s) d'"
proof (cases "buy_decision env r")
  case (Trade token condition source)
  obtain m where m: "remember_market env r condition s = s\<lparr>ls_tracked := m\<rparr>" using remember_shape by blast
  let ?d = "route_order (le_order env r) (getLimitOrder (br_nullifier r) (le_limits env))
      (order_event r token condition) (ls_desk s)"
  have "processBetEvent env r s = s\<lparr>ls_tracked := m, ls_desk := ?d\<rparr>"
    using Trade m by (simp add: processBetEvent_def)
  moreover have "desk_grows (br_nullifier r) (ls_desk s) ?d"
    using route_grows [of "order_event r token condition"] by (simp add: order_event_def)
  ultimately show ?thesis by blast
next
  case (Reject reason)
  let ?d = "attestFailedFor (le_order env r) (br_nullifier r) (ls_desk s)"
  have "processBetEvent env r s = s\<lparr>ls_tracked := ls_tracked s, ls_desk := ?d\<rparr>"
    using Reject by (simp add: processBetEvent_def)
  then show ?thesis using failed_grows by blast
qed

lemma handle_grows: "listener_grows s (handleBetRecord env r s)"
proof -
  let ?nf = "br_nullifier r"
  let ?s1 = "s\<lparr>ls_inFlight := AList.update ?nf (oe_now_ms (le_order env r)) (ls_inFlight s)\<rparr>"
  have "listener_grows s (processBetEvent env r ?s1)" if "map_of (ls_inFlight s) ?nf = None"
    using process_shape [of env r ?s1] start_grows [OF that] by auto
  then show ?thesis by (auto simp: handleBetRecord_def Let_def isBetInFlight_def split: sum.split)
qed

lemma process_inFlight [simp]:
  "ls_inFlight (processBetEvent env r s) = ls_inFlight s" "ls_file (processBetEvent env r s) = ls_file s"
  "ls_scanning (processBetEvent env r s) = ls_scanning s"
  using process_shape [of env r s] by auto

lemma handle_frame [simp]:
  "ls_file (handleBetRecord env r s) = ls_file s" "ls_scanning (handleBetRecord env r s) = ls_scanning s"
  by (auto simp: handleBetRecord_def Let_def split: sum.split)

lemma handle_handles:
  assumes "le_bet_record env (br_nullifier r) = Inr m" "m \<noteq> ''''" "m \<noteq> ZeroHash"
  shows "attested (br_nullifier r) (handleBetRecord env r s) \<or> isBetInFlight (br_nullifier r) (handleBetRecord env r s) \<or>
    resting (br_nullifier r) s"
  using assms by (auto simp: handleBetRecord_def Let_def attested_def resting_def isBetInFlight_def map_of_update)

lemma fold_handle:
  "listener_grows s (foldl (\<lambda>u x. handleBetRecord env x u) s rs)"
  "ls_file (foldl (\<lambda>u x. handleBetRecord env x u) s rs) = ls_file s"
  "ls_scanning (foldl (\<lambda>u x. handleBetRecord env x u) s rs) = ls_scanning s"
  by (induction rs arbitrary: s) (auto intro: listener_grows_trans [OF handle_grows])

lemma window_grows: "listener_grows s (scan_window env save w rs s)"
  using fold_handle(1) [of s env rs]
    grows_frame(2) [of "saveLastBlock w (foldl (\<lambda>u x. handleBetRecord env x u) s rs)" "foldl (\<lambda>u x. handleBetRecord env x u) s rs" s]
  by (simp add: scan_window_def Let_def saveLastBlock_def)

text \<open>A scan ends before, at or after a window; induction over the windows.\<close>

lemma scan_cases:
  obtains (finished) "cursor > head" "scan_bets env save src head cursor s = s"
  | (failed) e where "cursor \<le> head" "fetch_bets env cursor (min (cursor + SCAN_WINDOW - 1) head) src = Inl e"
      "scan_bets env save src head cursor s = s"
  | (window) rs where "cursor \<le> head" "fetch_bets env cursor (min (cursor + SCAN_WINDOW - 1) head) src = Inr rs"
      "scan_bets env save src head cursor s = scan_bets env save src head (min (cursor + SCAN_WINDOW - 1) head + 1)
         (scan_window env save (min (cursor + SCAN_WINDOW - 1) head) rs s)"
proof (cases "cursor > head")
  case True
  then show ?thesis by (intro that(1)) (simp_all add: scan_bets.simps [of env save src head cursor s])
next
  case False
  note unf = scan_bets.simps [of env save src head cursor s, unfolded Let_def]
  show ?thesis
  proof (cases "fetch_bets env cursor (min (cursor + SCAN_WINDOW - 1) head) src")
    case (Inl e)
    show ?thesis by (rule that(2) [of e]) (use False Inl unf in auto)
  next
    case (Inr rs)
    show ?thesis by (rule that(3) [of rs]) (use False Inr unf in auto)
  qed
qed

lemma scan_induct:
  assumes "P cursor s"
    and step: "\<And>c u rs. P c u \<Longrightarrow> c \<le> head \<Longrightarrow> fetch_bets env c (min (c + SCAN_WINDOW - 1) head) src = Inr rs \<Longrightarrow>
      P (min (c + SCAN_WINDOW - 1) head + 1) (scan_window env save (min (c + SCAN_WINDOW - 1) head) rs u)"
  shows "\<exists>c. P c (scan_bets env save src head cursor s)"
  using assms(1)
proof (induction "nat (head + 1 - cursor)" arbitrary: cursor s rule: less_induct)
  case less
  show ?case
  proof (cases rule: scan_cases [of head cursor env save src s])
    case (window rs)
    have "nat (head + 1 - (min (cursor + SCAN_WINDOW - 1) head + 1)) < nat (head + 1 - cursor)"
      using window(1) by (auto simp: SCAN_WINDOW_def min_def)
    from less(1) [OF this step [OF less(2) window(1,2)]] window(3) show ?thesis by simp
  qed (use less(2) in auto)
qed

lemma scan_grows: "listener_grows s (scan_bets env save src head cursor s)"
  using scan_induct [of "\<lambda>c u. listener_grows s u" cursor s head env src save]
    listener_grows_trans [OF _ window_grows] by auto

lemma runScan_grows: "listener_grows s (runScan env f save s)"
proof -
  let ?s = "s\<lparr>ls_scanning := True\<rparr>"
  have "listener_grows ?s (catchUpMissedBets env f save ?s)"
    by (simp add: catchUpMissedBets_def scan_grows split: sum.split)
  then have "listener_grows s (catchUpMissedBets env f save ?s)" using grows_frame(1) [of ?s s] by simp
  then show ?thesis
    using grows_frame(2) [of "(catchUpMissedBets env f save ?s)\<lparr>ls_scanning := False\<rparr>" "catchUpMissedBets env f save ?s" s]
    by (simp add: runScan_def)
qed

subsection \<open>Delivery\<close>

text \<open>A bet is accounted for: reported, started in this process, or resting since before \<open>s0\<close>.\<close>

definition accounted :: "listener \<Rightarrow> listener \<Rightarrow> string \<Rightarrow> bool" where
  "accounted s0 s nf \<longleftrightarrow> attested nf s \<or> isBetInFlight nf s \<or> resting nf s0"

text \<open>
  What the relay and the chain owe the listener about a set of confirmed bets: a range is
  answered with at least the bets in it, unless the fetch fails.  The read of a bet's record may
  fail as well; \<open>record_read\<close> says that it did not.
\<close>

definition answers_ranges :: "BetAuthorizedRecord set \<Rightarrow> listener_env \<Rightarrow> bool" where
  "answers_ranges bets env \<longleftrightarrow> 0 \<le> le_deploy env \<and>
     (\<forall>a b src rs. fetch_bets env a b src = Inr rs \<longrightarrow> {r \<in> bets. a \<le> br_block r \<and> br_block r \<le> b} \<subseteq> set rs) \<and>
     (\<forall>r \<in> bets. le_deploy env \<le> br_block r)"

definition record_read :: "listener_env \<Rightarrow> string \<Rightarrow> bool" where
  "record_read env nf \<longleftrightarrow> (\<exists>m. le_bet_record env nf = Inr m \<and> m \<noteq> '''' \<and> m \<noteq> ZeroHash)"

definition truthful_env :: "BetAuthorizedRecord set \<Rightarrow> listener_env \<Rightarrow> bool" where
  "truthful_env bets env \<longleftrightarrow> 0 \<le> le_deploy env \<and>
     (\<forall>a b src rs. fetch_bets env a b src = Inr rs \<longrightarrow> {r \<in> bets. a \<le> br_block r \<and> br_block r \<le> b} \<subseteq> set rs) \<and>
     (\<forall>r \<in> bets. le_deploy env \<le> br_block r \<and>
        (\<exists>m. le_bet_record env (br_nullifier r) = Inr m \<and> m \<noteq> '''' \<and> m \<noteq> ZeroHash))"

lemma truthful_single:
  "answers_ranges bets env \<Longrightarrow> r \<in> bets \<Longrightarrow> record_read env (br_nullifier r) \<Longrightarrow> truthful_env {r} env"
  unfolding answers_ranges_def record_read_def truthful_env_def by blast

text \<open>A bet whose record cannot be read is passed over.\<close>

lemma unread_is_skipped: "\<not> record_read env (br_nullifier r) \<Longrightarrow> handleBetRecord env r s = s"
  by (auto simp: handleBetRecord_def record_read_def Let_def split: sum.split)

lemma accounted_mono: "accounted s0 u nf \<Longrightarrow> listener_grows u v \<Longrightarrow> accounted s0 v nf"
  unfolding accounted_def listener_grows_def by blast

lemma accounted_earlier: "accounted u v nf \<Longrightarrow> listener_grows s0 u \<Longrightarrow> listener_grows u v \<Longrightarrow> accounted s0 v nf"
  unfolding accounted_def listener_grows_def by blast

lemma fold_accounts:
  assumes "r \<in> set rs" and "le_bet_record env (br_nullifier r) = Inr m" "m \<noteq> ''''" "m \<noteq> ZeroHash"
  shows "accounted s (foldl (\<lambda>u x. handleBetRecord env x u) s rs) (br_nullifier r)"
  using assms(1)
proof (induction rs arbitrary: s)
  case (Cons x xs)
  let ?u = "handleBetRecord env x s"
  note g = fold_handle(1) [of ?u env xs]
  show ?case
  proof (cases "x = r")
    case True
    have "accounted s ?u (br_nullifier r)" using handle_handles [OF assms(2-4), of s] True by (auto simp: accounted_def)
    then show ?thesis using accounted_mono [OF _ g] by simp
  next
    case False
    then have "accounted ?u (foldl (\<lambda>u x. handleBetRecord env x u) ?u xs) (br_nullifier r)" using Cons by simp
    then show ?thesis using accounted_earlier [OF _ handle_grows g] by simp
  qed
qed simp

lemma accounted_frame: "ls_inFlight u = ls_inFlight v \<Longrightarrow> ls_desk u = ls_desk v \<Longrightarrow> accounted s u nf = accounted s v nf"
  by (simp add: accounted_def attested_def isBetInFlight_def)

lemma window_accounts:
  assumes "truthful_env bets env" and "fetch_bets env a b src = Inr rs"
    and "r \<in> bets" "a \<le> br_block r" "br_block r \<le> b"
  shows "accounted s (scan_window env save b rs s) (br_nullifier r)"
proof -
  have "r \<in> set rs" using assms unfolding truthful_env_def by blast
  moreover obtain m where "le_bet_record env (br_nullifier r) = Inr m" "m \<noteq> ''''" "m \<noteq> ZeroHash"
    using assms(1,3) unfolding truthful_env_def by blast
  ultimately have "accounted s (foldl (\<lambda>u x. handleBetRecord env x u) s rs) (br_nullifier r)"
    by (rule fold_accounts)
  then show ?thesis
    using accounted_frame [of "scan_window env save b rs s" "foldl (\<lambda>u x. handleBetRecord env x u) s rs"]
    by (simp add: scan_window_def Let_def saveLastBlock_def)
qed

text \<open>A scan from \<open>from\<close> stops before some block \<open>c\<close>; every bet before it is accounted for.\<close>

lemma scan_accounts:
  assumes "truthful_env bets env"
  shows "\<exists>c. from \<le> c \<and> (\<forall>r \<in> bets. from \<le> br_block r \<longrightarrow> br_block r < c \<longrightarrow>
      accounted s (scan_bets env save src head from s) (br_nullifier r)) \<and>
    ls_file (scan_bets env save src head from s) = (if save \<and> from < c then Some (c - 1) else ls_file s)"
proof -
  let ?P = "\<lambda>c u. listener_grows s u \<and> from \<le> c \<and>
    (\<forall>r \<in> bets. from \<le> br_block r \<longrightarrow> br_block r < c \<longrightarrow> accounted s u (br_nullifier r)) \<and>
    ls_file u = (if save \<and> from < c then Some (c - 1) else ls_file s)"
  have "\<exists>c. ?P c (scan_bets env save src head from s)"
  proof (rule scan_induct)
    fix c u rs
    let ?w = "min (c + SCAN_WINDOW - 1) head" and ?v = "scan_window env save (min (c + SCAN_WINDOW - 1) head) rs u"
    assume P: "?P c u" and c: "c \<le> head" and rs: "fetch_bets env c ?w src = Inr rs"
    have w: "c \<le> ?w" using c by (simp add: SCAN_WINDOW_def)
    have g: "listener_grows u ?v" by (rule window_grows)
    have "accounted s ?v (br_nullifier r)" if r: "r \<in> bets" "from \<le> br_block r" "br_block r < ?w + 1" for r
    proof (cases "br_block r < c")
      case True
      then show ?thesis using P r accounted_mono [OF _ g] by blast
    next
      case False
      then have "accounted u ?v (br_nullifier r)" using window_accounts [OF assms rs r(1)] r(3) by auto
      then show ?thesis using accounted_earlier [OF _ _ g] P by blast
    qed
    moreover have "ls_file ?v = (if save \<and> from < ?w + 1 then Some (?w + 1 - 1) else ls_file s)"
      using P w fold_handle(2) [of env u rs] by (simp add: scan_window_def Let_def saveLastBlock_def)
    moreover have "listener_grows s ?v" using P g listener_grows_trans by blast
    ultimately show "?P (?w + 1) ?v" using P w by auto
  qed simp
  then show ?thesis by blast
qed

lemma scan_accounts_all:
  assumes t: "truthful_env bets env" and ok: "\<And>a b. \<exists>rs. fetch_bets env a b src = Inr rs"
    and r: "r \<in> bets" "cursor \<le> br_block r" "br_block r \<le> head"
  shows "accounted s (scan_bets env save src head cursor s) (br_nullifier r)"
  using r(2)
proof (induction "nat (head + 1 - cursor)" arbitrary: cursor s rule: less_induct)
  case less
  let ?w = "min (cursor + SCAN_WINDOW - 1) head"
  show ?case
  proof (cases rule: scan_cases [of head cursor env save src s])
    case (window rs)
    let ?v = "scan_window env save ?w rs s"
    have g: "listener_grows s ?v" by (rule window_grows)
    have g2: "listener_grows ?v (scan_bets env save src head (?w + 1) ?v)" by (rule scan_grows)
    show ?thesis
    proof (cases "br_block r \<le> ?w")
      case True
      then have "accounted s ?v (br_nullifier r)" using window_accounts [OF t window(2) r(1) less(2)] by simp
      then show ?thesis unfolding window(3) by (rule accounted_mono [OF _ g2])
    next
      case False
      have "nat (head + 1 - (?w + 1)) < nat (head + 1 - cursor)" using window(1) by (auto simp: SCAN_WINDOW_def min_def)
      moreover have "?w + 1 \<le> br_block r" using False by linarith
      ultimately have "accounted ?v (scan_bets env save src head (?w + 1) ?v) (br_nullifier r)" by (rule less(1))
      then show ?thesis unfolding window(3) by (rule accounted_earlier [OF _ g g2])
    qed
  next
    case (failed e)
    then show ?thesis using ok by (metis sum.distinct(1))
  qed (use less(2) r(3) in simp)
qed

lemma scan_completes:
  assumes "\<And>a b. \<exists>rs. fetch_bets env a b src = Inr rs" and "cursor \<le> head"
  shows "ls_file (scan_bets env True src head cursor s) = Some head"
  using assms(2)
proof (induction "nat (head + 1 - cursor)" arbitrary: cursor s rule: less_induct)
  case less
  let ?w = "min (cursor + SCAN_WINDOW - 1) head"
  show ?case
  proof (cases rule: scan_cases [of head cursor env True src s])
    case (window rs)
    show ?thesis
    proof (cases "?w + 1 \<le> head")
      case True
      moreover have "nat (head + 1 - (?w + 1)) < nat (head + 1 - cursor)"
        using window(1) by (auto simp: SCAN_WINDOW_def min_def)
      ultimately show ?thesis using less(1) window(3) by simp
    next
      case False
      then have "?w = head" by simp
      then show ?thesis using window(3) scan_bets.simps [of env True src head "head + 1"]
        by (simp add: scan_window_def saveLastBlock_def)
    qed
  next
    case (failed e)
    then show ?thesis using assms(1) by (metis sum.distinct(1))
  qed (use less(2) in simp)
qed

text \<open>A run of the process: forward polls and deep sweeps, each with what it asks and is told.\<close>

datatype scan_op = Forward listener_env | Deep listener_env "int option"

fun op_env :: "scan_op \<Rightarrow> listener_env" where
  "op_env (Forward env) = env"
| "op_env (Deep env bn) = env"

fun run_op :: "listener \<Rightarrow> scan_op \<Rightarrow> listener" where
  "run_op s (Forward env) = runScan env None True s"
| "run_op s (Deep env bn) = deepSweep env bn s"

definition run_scans :: "scan_op list \<Rightarrow> listener \<Rightarrow> listener" where
  "run_scans ops s = foldl run_op s ops"

definition covered :: "BetAuthorizedRecord set \<Rightarrow> int \<Rightarrow> listener \<Rightarrow> listener \<Rightarrow> bool" where
  "covered bets lo s0 s \<longleftrightarrow>
     (\<forall>r \<in> bets. lo \<le> br_block r \<longrightarrow> br_block r \<le> loadLastBlock s \<longrightarrow> accounted s0 s (br_nullifier r))"

lemma run_op_grows: "listener_grows s (run_op s op)"
  by (cases op) (auto simp: deepSweep_def runScan_grows split: option.split)

lemma run_scans_grows: "listener_grows s (run_scans ops s)"
  unfolding run_scans_def by (induction ops arbitrary: s) (auto intro: listener_grows_trans [OF run_op_grows])

lemma covered_same_file: "covered bets lo s0 s \<Longrightarrow> listener_grows s u \<Longrightarrow> ls_file u = ls_file s \<Longrightarrow> covered bets lo s0 u"
  unfolding covered_def loadLastBlock_def using accounted_mono by auto

lemma forward_covers:
  assumes t: "truthful_env bets env" and c: "covered bets lo s0 s" and g: "listener_grows s0 s"
  shows "covered bets lo s0 (catchUpMissedBets env None True s)"
proof (cases "scanHead (le_url env) (le_head_reply env) (le_chain_head env)")
  case (Inl e)
  then show ?thesis using c by (simp add: catchUpMissedBets_def)
next
  case (Inr hs)
  obtain head src where hs: "hs = (head, src)" by fastforce
  let ?from = "scan_from env None head s" and ?s' = "catchUpMissedBets env None True s"
  have eq: "?s' = scan_bets env True src head ?from s" by (simp add: catchUpMissedBets_def Inr hs)
  obtain b where b: "?from \<le> b"
    "\<And>r. r \<in> bets \<Longrightarrow> ?from \<le> br_block r \<Longrightarrow> br_block r < b \<Longrightarrow> accounted s ?s' (br_nullifier r)"
    "ls_file ?s' = (if ?from < b then Some (b - 1) else ls_file s)"
    using scan_accounts [OF t, of ?from s True src head] unfolding eq by auto
  have g': "listener_grows s ?s'" unfolding eq by (rule scan_grows)
  show ?thesis
  proof (cases "?from < b")
    case False
    then show ?thesis using covered_same_file [OF c g'] b(3) by simp
  next
    case True
    have "accounted s0 ?s' (br_nullifier r)" if r: "r \<in> bets" "lo \<le> br_block r" "br_block r \<le> b - 1" for r
    proof (cases "?from \<le> br_block r")
      case scanned: True
      then show ?thesis using accounted_earlier [OF b(2) g g'] r by simp
    next
      case False
      have "le_deploy env \<le> br_block r" "0 \<le> le_deploy env" using t r(1) by (auto simp: truthful_env_def)
      then have "br_block r \<le> loadLastBlock s" using False by (auto simp: scan_from_def SAFETY_BUFFER_def)
      then show ?thesis using c r accounted_mono [OF _ g'] by (auto simp: covered_def)
    qed
    then show ?thesis using True b(3) by (simp add: covered_def loadLastBlock_def)
  qed
qed

lemma deep_file: "ls_file (catchUpMissedBets env f False s) = ls_file s"
proof (cases "scanHead (le_url env) (le_head_reply env) (le_chain_head env)")
  case (Inr hs)
  have "\<exists>c :: int. ls_file (scan_bets env False (snd hs) (fst hs) (scan_from env f (fst hs) s) s) = ls_file s"
    by (rule scan_induct [where P = "\<lambda>c u. ls_file u = ls_file s"]) (simp_all add: scan_window_def fold_handle)
  then show ?thesis using Inr by (cases hs) (simp add: catchUpMissedBets_def)
qed (simp add: catchUpMissedBets_def)

lemma covered_scanning: "covered bets lo s0 (s\<lparr>ls_scanning := x\<rparr>) = covered bets lo s0 s"
  by (simp add: covered_def accounted_def attested_def isBetInFlight_def loadLastBlock_def)

lemma run_op_covers:
  assumes "truthful_env bets (op_env op)" and "covered bets lo s0 s" and "listener_grows s0 s"
  shows "covered bets lo s0 (run_op s op)"
proof (cases op)
  case (Forward env)
  have "listener_grows s0 (s\<lparr>ls_scanning := True\<rparr>)" using assms(3) grows_frame(2) [of "s\<lparr>ls_scanning := True\<rparr>" s s0] by simp
  with assms Forward show ?thesis
    by (simp add: runScan_def covered_scanning forward_covers)
next
  case (Deep env bn)
  have "ls_file (run_op s op) = ls_file s" using Deep
    by (auto simp: deepSweep_def runScan_def deep_file split: option.split)
  then show ?thesis using covered_same_file [OF assms(2) run_op_grows] by simp
qed

lemma run_scans_covers:
  assumes "\<forall>op \<in> set ops. truthful_env bets (op_env op)" and "covered bets lo s0 s" and "listener_grows s0 s"
  shows "covered bets lo s0 (run_scans ops s)"
  using assms unfolding run_scans_def
proof (induction ops arbitrary: s)
  case (Cons op ops)
  then show ?case using run_op_covers [of bets op lo s0 s] listener_grows_trans [OF _ run_op_grows, of s0 s op] by simp
qed simp

text \<open>A deep sweep whose fetches succeed takes up every bet of the last 100000 blocks whose record it reads.\<close>

lemma sweep_accounts:
  assumes a: "answers_ranges bets env" "r \<in> bets" "record_read env (br_nullifier r)"
    and h: "scanHead (le_url env) (le_head_reply env) (le_chain_head env) = Inr (head, src)"
    and ok: "\<forall>a b. \<exists>rs. fetch_bets env a b src = Inr rs"
    and b: "current - 100000 \<le> br_block r" "br_block r \<le> head" "current \<noteq> 0" "\<not> ls_scanning s"
  shows "accounted s (deepSweep env (Some current) s) (br_nullifier r)"
proof -
  let ?s = "s\<lparr>ls_scanning := True\<rparr>"
  have "scan_from env (Some (current - DEEP_LOOKBACK_BLOCKS)) head ?s \<le> br_block r"
    using a(1,2) b(1) by (auto simp: scan_from_def DEEP_LOOKBACK_BLOCKS_def answers_ranges_def)
  from scan_accounts_all [OF truthful_single [OF a] _ _ this b(2), of src ?s False] ok
  have "accounted ?s (catchUpMissedBets env (Some (current - DEEP_LOOKBACK_BLOCKS)) False ?s) (br_nullifier r)"
    by (simp add: catchUpMissedBets_def h)
  then have "accounted s ((catchUpMissedBets env (Some (current - DEEP_LOOKBACK_BLOCKS)) False ?s)\<lparr>ls_scanning := False\<rparr>) (br_nullifier r)"
    by (simp add: accounted_def attested_def isBetInFlight_def resting_def)
  then show ?thesis using b(3,4) by (simp add: deepSweep_def runScan_def)
qed

subsection \<open>Claims\<close>

text \<open>
  C16: Every bet gets its order once, and none is lost for longer than a sweep.  Over any run of
  polls and deep sweeps, with failing fetches and failing reads of records in between: the process
  sends at most one order per bet it newly takes in hand; a bet it has in hand is never
  handled again; and every confirmed bet between the first block not yet scanned and the
  cursor has its report, has been started, or was already resting, unless a read of its
  record failed or answered zero in one of the scans: such a bet is passed over while the cursor
  moves on.  A later deep sweep whose fetches succeed takes up every bet of the last
  100000 blocks whose record it reads, the passed over ones included.  A poll whose fetches
  succeed moves the cursor to the head.  The relay and the chain are assumed to answer a range
  with at least the bets in it.
\<close>

theorem bets_ordered_once_and_delivered:
  assumes "\<forall>op \<in> set ops. answers_ranges bets (op_env op)" and "loadLastBlock s < lo"
    and "distinct (map fst (ls_inFlight s))"
  shows "distinct (map fst (ls_inFlight (run_scans ops s))) \<and>
    length (dk_sent (ls_desk (run_scans ops s))) + length (ls_inFlight s)
      \<le> length (dk_sent (ls_desk s)) + length (ls_inFlight (run_scans ops s)) \<and>
    (\<forall>env r. isBetInFlight (br_nullifier r) s \<longrightarrow> handleBetRecord env r (run_scans ops s) = run_scans ops s) \<and>
    (\<forall>r \<in> bets. lo \<le> br_block r \<longrightarrow> br_block r \<le> loadLastBlock (run_scans ops s) \<longrightarrow>
       accounted s (run_scans ops s) (br_nullifier r) \<or>
       (\<exists>op \<in> set ops. \<not> record_read (op_env op) (br_nullifier r))) \<and>
    (\<forall>env r u. \<not> record_read env (br_nullifier r) \<longrightarrow> handleBetRecord env r u = u) \<and>
    (\<forall>env r u head src current. answers_ranges bets env \<longrightarrow> r \<in> bets \<longrightarrow> record_read env (br_nullifier r) \<longrightarrow>
       scanHead (le_url env) (le_head_reply env) (le_chain_head env) = Inr (head, src) \<longrightarrow>
       (\<forall>a b. \<exists>rs. fetch_bets env a b src = Inr rs) \<longrightarrow>
       current - 100000 \<le> br_block r \<longrightarrow> br_block r \<le> head \<longrightarrow> current \<noteq> 0 \<longrightarrow> \<not> ls_scanning u \<longrightarrow>
       accounted u (deepSweep env (Some current) u) (br_nullifier r)) \<and>
    (\<forall>env head src. scanHead (le_url env) (le_head_reply env) (le_chain_head env) = Inr (head, src) \<longrightarrow>
       (\<forall>a b. \<exists>rs. fetch_bets env a b src = Inr rs) \<longrightarrow> le_deploy env \<le> head \<longrightarrow> \<not> ls_scanning s \<longrightarrow>
       loadLastBlock (run_op s (Forward env)) = head)"
proof (intro conjI allI impI ballI)
  note g = run_scans_grows [of s ops]
  show "distinct (map fst (ls_inFlight (run_scans ops s)))"
    using g assms(3) unfolding listener_grows_def by blast
  show "length (dk_sent (ls_desk (run_scans ops s))) + length (ls_inFlight s)
      \<le> length (dk_sent (ls_desk s)) + length (ls_inFlight (run_scans ops s))"
    using g unfolding listener_grows_def by blast
  show "handleBetRecord env r (run_scans ops s) = run_scans ops s" if "isBetInFlight (br_nullifier r) s" for env r
    using that g by (simp add: handleBetRecord_def Let_def listener_grows_def)
  show "accounted s (run_scans ops s) (br_nullifier r) \<or> (\<exists>op \<in> set ops. \<not> record_read (op_env op) (br_nullifier r))"
    if r: "r \<in> bets" "lo \<le> br_block r" "br_block r \<le> loadLastBlock (run_scans ops s)" for r
  proof (cases "\<forall>op \<in> set ops. record_read (op_env op) (br_nullifier r)")
    case True
    have "covered {r} lo s s" using assms(2) by (auto simp: covered_def)
    with True have "covered {r} lo s (run_scans ops s)"
      using assms(1) r(1) truthful_single by (intro run_scans_covers listener_grows_refl) blast+
    then show ?thesis using r by (simp add: covered_def)
  qed blast
  show "handleBetRecord env r u = u" if "\<not> record_read env (br_nullifier r)" for env r u
    by (rule unread_is_skipped [OF that])
  show "accounted u (deepSweep env (Some current) u) (br_nullifier r)"
    if "answers_ranges bets env" "r \<in> bets" "record_read env (br_nullifier r)"
      "scanHead (le_url env) (le_head_reply env) (le_chain_head env) = Inr (head, src)"
      "\<forall>a b. \<exists>rs. fetch_bets env a b src = Inr rs"
      "current - 100000 \<le> br_block r" "br_block r \<le> head" "current \<noteq> 0" "\<not> ls_scanning u" for env r u head src current
    by (rule sweep_accounts [OF that])
  fix env head src
  assume h: "scanHead (le_url env) (le_head_reply env) (le_chain_head env) = Inr (head, src)"
    "\<forall>a b. \<exists>rs. fetch_bets env a b src = Inr rs" "le_deploy env \<le> head" "\<not> ls_scanning s"
  have "scan_from env None head (s\<lparr>ls_scanning := True\<rparr>) \<le> head" using h(3) by (simp add: scan_from_def SAFETY_BUFFER_def)
  from scan_completes [OF _ this, of env src] h(2)
  have "ls_file (scan_bets env True src head (scan_from env None head (s\<lparr>ls_scanning := True\<rparr>)) (s\<lparr>ls_scanning := True\<rparr>)) = Some head"
    by blast
  then show "loadLastBlock (run_op s (Forward env)) = head"
    using h by (simp add: runScan_def catchUpMissedBets_def loadLastBlock_def)
qed

text \<open>A chain with one bet in block 7, on a market the registry does not know.\<close>

definition demo_record :: BetAuthorizedRecord where
  "demo_record = \<lparr>br_nullifier = ''n'', br_market_id = ''m'', br_position_id = ''p'', br_expected_shares = 5,
     br_bet_amount = 3, br_price = 2, br_outcome_side = 0, br_new_commitment = ''c'', br_block = 7, br_tx = ''t''\<rparr>"

definition demo_bet_log :: vault_log where
  "demo_bet_log = \<lparr>vl_address = ''v'', vl_topic0 = ''b'', vl_block = 7, vl_index = 0, vl_tx = ''t'', vl_args = Some [(''nullifier'', SStr ''n''),
     (''market_id'', SStr ''m''), (''position_id'', SStr ''p''), (''expected_shares'', SNum 5), (''bet_amount'', SNum 3),
     (''price'', SNum 2), (''outcome_side'', SNum 0), (''new_commitment'', SStr ''c'')]\<rparr>"

definition demo_listener_env :: listener_env where
  "demo_listener_env = \<lparr>le_deploy = 1, le_registry = Some [], le_limits = [], le_order = (\<lambda>r. demo_env),
     le_bet_record = (\<lambda>nf. Inr ''m''), le_url = False, le_head_reply = Inl ''off'', le_chain_head = Inr 20,
     le_relay = (\<lambda>a b. Inl ''off''), le_query = (\<lambda>a b. Inr (if a \<le> 7 \<and> 7 \<le> b then [demo_bet_log] else []))\<rparr>"

definition demo_listener :: listener where
  "demo_listener = \<lparr>ls_inFlight = [], ls_file = None, ls_scanning = False, ls_tracked = [], ls_desk = demo_desk\<rparr>"

lemma demo_fetch: "fetch_bets demo_listener_env a b src = Inr (if a \<le> 7 \<and> 7 \<le> b then [demo_record] else [])"
  by (simp add: fetch_bets_def fetchBetAuthorized_def demo_listener_env_def recordFromChainLog_def demo_bet_log_def
      demo_record_def List.map_filter_def)

theorem bets_ordered_once_and_delivered_witness:
  "loadLastBlock (run_scans [Forward demo_listener_env] demo_listener) = 20 \<and>
   accounted demo_listener (run_scans [Forward demo_listener_env] demo_listener) ''n''"
proof -
  have "answers_ranges {demo_record} demo_listener_env"
    by (auto simp: answers_ranges_def demo_fetch) (auto simp: demo_listener_env_def demo_record_def)
  then have t: "\<forall>op \<in> set [Forward demo_listener_env]. answers_ranges {demo_record} (op_env op)" by simp
  have rd: "record_read demo_listener_env ''n''" by (simp add: record_read_def demo_listener_env_def ZeroHash_def)
  have e: "scanHead (le_url demo_listener_env) (le_head_reply demo_listener_env) (le_chain_head demo_listener_env) = Inr (20, FromChain)"
    "le_deploy demo_listener_env \<le> 20" "\<not> ls_scanning demo_listener" "loadLastBlock demo_listener < 1"
    "distinct (map fst (ls_inFlight demo_listener))" "br_block demo_record = 7" "br_nullifier demo_record = ''n''"
    by (simp_all add: demo_listener_env_def scanHead_def indexHead_def demo_listener_def loadLastBlock_def demo_record_def)
  have f: "\<forall>a b. \<exists>rs. fetch_bets demo_listener_env a b FromChain = Inr rs" by (simp add: demo_fetch)
  note th = bets_ordered_once_and_delivered [OF t e(4,5)]
  have head: "loadLastBlock (run_op demo_listener (Forward demo_listener_env)) = 20"
    using conjunct2 [OF conjunct2 [OF conjunct2 [OF conjunct2 [OF conjunct2 [OF conjunct2 [OF th]]]]]] e(1-3) f by blast
  then have h: "loadLastBlock (run_scans [Forward demo_listener_env] demo_listener) = 20" by (simp add: run_scans_def)
  then have "accounted demo_listener (run_scans [Forward demo_listener_env] demo_listener) (br_nullifier demo_record)"
    using conjunct1 [OF conjunct2 [OF conjunct2 [OF conjunct2 [OF th]]]] e(6,7) rd by simp
  with h e(7) show ?thesis by simp
qed

end
