(* ===== verification/Settlement.thy ===== *)
theory Settlement
  imports Market_Registry Operator_Policy Event_Index Fill_Tracker
begin

section \<open>Settlement: resolved markets and redemption\<close>

text \<open>
  \<open>signing-layer/src/settlementResolver.ts\<close>, \<open>redemptionPipeline.ts\<close> and the
  batched reads of \<open>multicall.ts\<close>: the poll over the tracked markets, and what is
  done for one that resolved.  \<open>st_log\<close> is no variable of the program: it lists the
  calls sent to the vault and to the deposit wallet, in order.  What the chain
  answers is a parameter and may depend on the calls made so far.
\<close>

subsection \<open>Batched reads\<close>

text \<open>
  \<open>mc\<close> is what the multicall answers: unavailable, or one result per call, empty
  where the call failed or its data does not decode; \<open>single\<close> an individual call.
\<close>

definition batchUint :: "int option list option \<Rightarrow> ('a \<Rightarrow> string + int) \<Rightarrow> 'a list \<Rightarrow> int option list" where
  "batchUint mc single args =
     (if args = [] then []
      else case mc of Some vals \<Rightarrow> vals | None \<Rightarrow> map (\<lambda>a. the_right (single a)) args)"

subsection \<open>The redemption pipeline\<close>

datatype settle_call =
    RegisterCondition string
  | ResolveMarket string
  | RedeemPositions string "nat list"
  | OfframpUnwrap int
  | AcknowledgeReturn int

record settle_env =
  sv_now_ms :: int
  sv_block :: "string + int"
  sv_registry :: registry
  sv_slots :: "string \<Rightarrow> string + int"
  sv_numerator :: "string \<Rightarrow> nat \<Rightarrow> int option"
  sv_denominator :: "string \<Rightarrow> string + int"
  sv_denominator_batch :: "string \<Rightarrow> int option"
  sv_resolved_at :: "settle_call list \<Rightarrow> string \<Rightarrow> string + int"
  sv_resolved_at_batch :: "string \<Rightarrow> int option"
  sv_bets :: "string + BetAuthorizedRecord list"
  sv_share_balance :: "string \<Rightarrow> int option"
  sv_pusd :: "settle_call list \<Rightarrow> string + int"
  sv_usdc :: "settle_call list \<Rightarrow> string + int"
  sv_deployed :: "settle_call list \<Rightarrow> string + int"
  sv_ok :: "settle_call list \<Rightarrow> settle_call \<Rightarrow> bool"
  sv_wallet :: string
  sv_pusd_address :: string
  sv_offramp :: string
  sv_sign :: "att_input \<Rightarrow> string + string"
  sv_domain :: bool

definition readNumerators :: "settle_env \<Rightarrow> string \<Rightarrow> string + int list" where
  "readNumerators env cid =
     bind_sum (sv_slots env cid) (\<lambda>n. Inr (if n \<le> 0 then []
       else map (\<lambda>i. case sv_numerator env cid i of Some v \<Rightarrow> v | None \<Rightarrow> 0) [0..<nat n]))"

definition betsForMarket :: "settle_env \<Rightarrow> string \<Rightarrow> string + BetAuthorizedRecord list" where
  "betsForMarket env cid =
     bind_sum (sv_bets env) (\<lambda>rs. Inr (filter (\<lambda>r. sameMarket (br_market_id r) cid) rs))"

definition collectPositionIds :: "settle_env \<Rightarrow> string \<Rightarrow> string + string list" where
  "collectPositionIds env cid =
     bind_sum (betsForMarket env cid) (\<lambda>rs. Inr (foldl (\<lambda>ids r. set_add (br_position_id r) ids) [] rs))"

definition hasVaultShares :: "settle_env \<Rightarrow> string list \<Rightarrow> bool" where
  "hasVaultShares env ids \<longleftrightarrow>
     sv_wallet env \<noteq> '''' \<and> ids \<noteq> [] \<and>
     (\<exists>i \<in> set ids. (case sv_share_balance env i of Some b \<Rightarrow> b > 0 | None \<Rightarrow> False))"

text \<open>A call that may fail is in the log in either case.\<close>

definition call :: "settle_env \<Rightarrow> settle_call \<Rightarrow> settle_call list \<Rightarrow> (string + unit) \<times> settle_call list" where
  "call env c lg = (if sv_ok env lg c then Inr () else Inl ''failed'', lg @ [c])"

definition offrampPusdToVault :: "settle_env \<Rightarrow> int \<Rightarrow> settle_call list \<Rightarrow> (string + unit) \<times> settle_call list" where
  "offrampPusdToVault env amt lg =
     (if sv_offramp env = '''' \<or> sv_offramp env = ''0x'' @ replicate 40 (CHR ''0'') then (Inr (), lg)
      else if amt = 0 then (Inr (), lg)
      else if sv_wallet env = '''' then (Inr (), lg)
      else call env (OfframpUnwrap amt) lg)"

definition redeemViaExecutor :: "settle_env \<Rightarrow> string \<Rightarrow> int list \<Rightarrow> settle_call list \<Rightarrow> bool \<times> settle_call list" where
  "redeemViaExecutor env cid nums lg =
     (if sv_wallet env = '''' \<or> sv_pusd_address env = '''' then (False, lg)
      else case call env (RedeemPositions cid (map (\<lambda>i. 2 ^ i) [0..<length nums])) lg of
             (Inr _, lg') \<Rightarrow> (True, lg') | (Inl _, lg') \<Rightarrow> (False, lg'))"

text \<open>Redeeming what the wallet holds: the pUSD it gained, sent to the vault.\<close>

definition redeem_shares :: "settle_env \<Rightarrow> string \<Rightarrow> int list \<Rightarrow> settle_call list
    \<Rightarrow> (string + int) \<times> settle_call list" where
  "redeem_shares env cid nums lg =
     (case sv_pusd env lg of
        Inl e \<Rightarrow> (Inl e, lg)
      | Inr before \<Rightarrow>
          (let (_, lg1) = redeemViaExecutor env cid nums lg
           in case sv_pusd env lg1 of
                Inl e \<Rightarrow> (Inl e, lg1)
              | Inr after \<Rightarrow>
                  let redeemed = (if after > before then after - before else 0)
                  in if redeemed > 0 then
                       (case offrampPusdToVault env redeemed lg1 of
                          (Inl e, lg2) \<Rightarrow> (Inl e, lg2) | (Inr _, lg2) \<Rightarrow> (Inr redeemed, lg2))
                     else (Inr 0, lg1)))"

definition acknowledge :: "settle_env \<Rightarrow> int \<Rightarrow> int \<Rightarrow> settle_call list \<Rightarrow> (string + unit) \<times> settle_call list" where
  "acknowledge env redeemed usdcBefore lg =
     (case sv_usdc env lg of
        Inl e \<Rightarrow> (Inl e, lg)
      | Inr usdcAfter \<Rightarrow>
          if redeemed > 0 \<and> usdcAfter \<le> usdcBefore then (Inl ''Vault USDC did not increase after redemption'', lg)
          else let returned = usdcAfter - usdcBefore
               in if returned > 0 then
                    (case sv_deployed env lg of
                       Inl e \<Rightarrow> (Inl e, lg)
                     | Inr deployed \<Rightarrow>
                         let ack = (if returned < deployed then returned else deployed)
                         in if ack > 0 then call env (AcknowledgeReturn ack) lg else (Inr (), lg))
                  else (Inr (), lg))"

definition redeem_block :: "settle_env \<Rightarrow> string \<Rightarrow> int list \<Rightarrow> bool \<Rightarrow> int \<Rightarrow> settle_call list \<Rightarrow> settle_call list" where
  "redeem_block env cid nums hasShares usdcBefore lg =
     (case (if hasShares then redeem_shares env cid nums lg else (Inr 0, lg)) of
        (Inl e, lg1) \<Rightarrow> lg1
      | (Inr redeemed, lg1) \<Rightarrow> snd (acknowledge env redeemed usdcBefore lg1))"

definition resolve_step :: "settle_env \<Rightarrow> string \<Rightarrow> int \<Rightarrow> settle_call list \<Rightarrow> settle_call list" where
  "resolve_step env cid resolvedAt lg =
     (if resolvedAt > 0 then lg else snd (call env (ResolveMarket cid) lg))"

definition runRedemptionPipeline :: "settle_env \<Rightarrow> string \<Rightarrow> settle_call list \<Rightarrow> (string + unit) \<times> settle_call list" where
  "runRedemptionPipeline env cid lg =
     (case toFieldSafe cid of
        None \<Rightarrow> (Inl ''SyntaxError'', lg)
      | Some key \<Rightarrow>
     (case sv_resolved_at env lg key of
        Inl e \<Rightarrow> (Inl e, lg)
      | Inr resolvedAt \<Rightarrow>
     (case readNumerators env cid of
        Inl e \<Rightarrow> (Inl e, lg)
      | Inr nums \<Rightarrow>
     (case sv_denominator env cid of
        Inl e \<Rightarrow> (Inl e, lg)
      | Inr denominator \<Rightarrow>
          if denominator = 0 then (Inr (), lg)
          else if list_all (\<lambda>n. n = 0) nums then (Inr (), lg)
          else let lg1 = resolve_step env cid resolvedAt lg
               in case sv_usdc env lg1 of
                    Inl e \<Rightarrow> (Inl e, lg1)
                  | Inr usdcBefore \<Rightarrow>
                      (case collectPositionIds env cid of
                         Inl e \<Rightarrow> (Inl e, lg1)
                       | Inr ids \<Rightarrow> (Inr (), redeem_block env cid nums (hasVaultShares env ids) usdcBefore lg1))))))"

subsection \<open>One resolved market\<close>

record settler =
  st_resolved :: "string list"
  st_seeded_at :: int
  st_backoff :: "(string \<times> nat \<times> int) list"
  st_tracked :: tracked_markets
  st_tracker :: tracker
  st_log :: "settle_call list"

definition handleResolution :: "settle_env \<Rightarrow> string \<Rightarrow> settler \<Rightarrow> (string + unit) \<times> settler" where
  "handleResolution env cid s =
     (let s1 = s\<lparr>st_tracker := cancelOrdersForMarket (sv_sign env) (sv_domain env) cid (st_tracker s)\<rparr>
      in case readNumerators env cid of
           Inl e \<Rightarrow> (Inl e, s1)
         | Inr nums \<Rightarrow>
             if nums \<noteq> [] \<and> list_all (\<lambda>n. n = 0) nums
             then (Inr (), s1\<lparr>st_log := snd (call env (RegisterCondition cid) (st_log s1))\<rparr>)
             else let (r, lg) = runRedemptionPipeline env cid (st_log s1) in (r, s1\<lparr>st_log := lg\<rparr>))"

subsection \<open>The poll\<close>

definition SETTLE_BACKOFF_BASE_MS :: int where "SETTLE_BACKOFF_BASE_MS = 60000"
definition SETTLE_BACKOFF_MAX_MS :: int where "SETTLE_BACKOFF_MAX_MS = 1800000"
definition RESOLVED_REFRESH_MS :: int where "RESOLVED_REFRESH_MS = 300000"
definition SEED_FRESH_MS :: int where "SEED_FRESH_MS = RESOLVED_REFRESH_MS * 3"

definition backoffMarket :: "string \<Rightarrow> int \<Rightarrow> settler \<Rightarrow> settler" where
  "backoffMarket key now s =
     (let misses = (case map_of (st_backoff s) key of Some (m, _) \<Rightarrow> m | None \<Rightarrow> 0) + 1;
          delay = min SETTLE_BACKOFF_MAX_MS (SETTLE_BACKOFF_BASE_MS * 2 ^ (misses - 1))
      in s\<lparr>st_backoff := AList.update key (misses, now + delay) (st_backoff s)\<rparr>)"

definition mark_resolved :: "string \<Rightarrow> settler \<Rightarrow> settler" where
  "mark_resolved key s = s\<lparr>st_resolved := set_add key (st_resolved s), st_backoff := AList.delete key (st_backoff s)\<rparr>"

text \<open>The seed from the relay's index: \<open>None\<close> is an unavailable relay; an id that is no number throws midway.\<close>

fun add_resolved :: "string list \<Rightarrow> string list \<Rightarrow> bool \<times> string list" where
  "add_resolved [] keys = (True, keys)"
| "add_resolved (i # is) keys =
     (case toFieldSafe i of None \<Rightarrow> (False, keys) | Some k \<Rightarrow> add_resolved is (set_add k keys))"

definition refreshResolvedFromIndex :: "string list option \<Rightarrow> int \<Rightarrow> settler \<Rightarrow> settler" where
  "refreshResolvedFromIndex ids now s =
     (case ids of
        None \<Rightarrow> s
      | Some xs \<Rightarrow>
          let (ok, keys) = add_resolved xs (st_resolved s)
          in if ok then s\<lparr>st_resolved := keys, st_seeded_at := now\<rparr> else s\<lparr>st_resolved := keys\<rparr>)"

definition seedTrackedMarkets :: "registry \<Rightarrow> string list \<Rightarrow> int \<Rightarrow> settler \<Rightarrow> settler" where
  "seedTrackedMarkets reg keys now s =
     foldl (\<lambda>u k. case marketMetaForKey k reg of
                    None \<Rightarrow> u
                  | Some (cid, e) \<Rightarrow> u\<lparr>st_tracked := upsertTrackedMarket k cid e now (st_tracked u)\<rparr>) s keys"

definition eligible :: "settle_env \<Rightarrow> settler \<Rightarrow> TrackedMarket \<Rightarrow> bool" where
  "eligible env s m \<longleftrightarrow>
     tm_reducedKey m \<notin> set (st_resolved s) \<and>
     \<not> (case tm_endDate m of Some e \<Rightarrow> e \<noteq> 0 \<and> sv_now_ms env div 1000 < e | None \<Rightarrow> False) \<and>
     \<not> (case map_of (st_backoff s) (tm_reducedKey m) of Some (_, nextAt) \<Rightarrow> sv_now_ms env < nextAt | None \<Rightarrow> False)"

definition seed_fresh :: "settle_env \<Rightarrow> settler \<Rightarrow> bool" where
  "seed_fresh env s \<longleftrightarrow> st_seeded_at s > 0 \<and> sv_now_ms env - st_seeded_at s < SEED_FRESH_MS"

definition known_resolved :: "settle_env \<Rightarrow> TrackedMarket \<Rightarrow> bool" where
  "known_resolved env m \<longleftrightarrow>
     (case sv_resolved_at_batch env (tm_reducedKey m) of Some t \<Rightarrow> t > 0 | None \<Rightarrow> False)"

definition drop_resolved :: "settle_env \<Rightarrow> TrackedMarket list \<Rightarrow> settler \<Rightarrow> TrackedMarket list \<times> settler" where
  "drop_resolved env ms s =
     (if seed_fresh env s then (ms, s)
      else (filter (\<lambda>m. \<not> known_resolved env m) ms,
            foldl (\<lambda>u m. mark_resolved (tm_reducedKey m) u) s (filter (known_resolved env) ms)))"

definition raw_condition :: "registry \<Rightarrow> TrackedMarket \<Rightarrow> string" where
  "raw_condition reg m =
     (if tm_rawConditionId m \<noteq> '''' \<and> tm_rawConditionId m \<noteq> tm_reducedKey m then tm_rawConditionId m
      else case conditionIdForKey (tm_reducedKey m) reg of Some c \<Rightarrow> c | None \<Rightarrow> tm_rawConditionId m)"

definition usable_raw :: "registry \<Rightarrow> TrackedMarket \<Rightarrow> bool" where
  "usable_raw reg m \<longleftrightarrow> raw_condition reg m \<noteq> '''' \<and> raw_condition reg m \<noteq> tm_reducedKey m"

definition checkable :: "settle_env \<Rightarrow> TrackedMarket list \<Rightarrow> settler \<Rightarrow> (string \<times> string) list \<times> settler" where
  "checkable env ms s =
     (map (\<lambda>m. (tm_reducedKey m, raw_condition (sv_registry env) m)) (filter (usable_raw (sv_registry env)) ms),
      foldl (\<lambda>u m. if usable_raw (sv_registry env) m then u else backoffMarket (tm_reducedKey m) (sv_now_ms env) u) s ms)"

definition drive :: "settle_env \<Rightarrow> settler \<Rightarrow> string \<times> string \<Rightarrow> settler" where
  "drive env s kr =
     (case kr of (key, raw) \<Rightarrow>
        (case sv_denominator_batch env raw of
           None \<Rightarrow> backoffMarket key (sv_now_ms env) s
         | Some d \<Rightarrow>
             if d = 0 then backoffMarket key (sv_now_ms env) s
             else case sv_block env of
               Inl e \<Rightarrow> backoffMarket key (sv_now_ms env) s
             | Inr b \<Rightarrow>
                 (case handleResolution env raw s of
                    (Inl e, s1) \<Rightarrow> backoffMarket key (sv_now_ms env) s1
                  | (Inr _, s1) \<Rightarrow> mark_resolved key s1)))"

definition settlement_tick :: "settle_env \<Rightarrow> settler \<Rightarrow> settler" where
  "settlement_tick env s =
     (let ms = filter (eligible env s) (getTrackedMarkets (st_tracked s))
      in if ms = [] then s
         else let (ms1, s1) = drop_resolved env ms s
              in if ms1 = [] then s1
                 else let (cs, s2) = checkable env ms1 s1 in foldl (drive env) s2 cs)"

definition resolveMarketManually :: "settle_env \<Rightarrow> string \<Rightarrow> settler \<Rightarrow> (string + unit) \<times> settler" where
  "resolveMarketManually env market s =
     (case toFieldSafe market of
        None \<Rightarrow> (Inl ''SyntaxError'', s)
      | Some key \<Rightarrow>
          (case sv_resolved_at env (st_log s) key of
             Inl e \<Rightarrow> (Inl e, s)
           | Inr t \<Rightarrow>
               if t > 0 then (Inr (), s)
               else case sv_block env of
                 Inl e \<Rightarrow> (Inl e, s)
               | Inr b \<Rightarrow> handleResolution env
                   (case conditionIdForKey key (sv_registry env) of Some c \<Rightarrow> c | None \<Rightarrow> market) s))"

subsection \<open>Which calls are made\<close>

fun call_condition :: "settle_call \<Rightarrow> string option" where
  "call_condition (RegisterCondition c) = Some c"
| "call_condition (ResolveMarket c) = Some c"
| "call_condition (RedeemPositions c ns) = Some c"
| "call_condition (OfframpUnwrap a) = None"
| "call_condition (AcknowledgeReturn a) = None"

definition log_ext :: "(settle_call \<Rightarrow> bool) \<Rightarrow> settle_call list \<Rightarrow> settle_call list \<Rightarrow> bool" where
  "log_ext P l l' \<longleftrightarrow> (\<exists>new. l' = l @ new \<and> (\<forall>c \<in> set new. P c))"

lemma log_ext_refl [simp, intro]: "log_ext P l l"
  by (simp add: log_ext_def)

lemma log_ext_snoc [simp]: "log_ext P l (l @ [c]) \<longleftrightarrow> P c"
  by (simp add: log_ext_def)

lemma log_ext_trans: "log_ext P a b \<Longrightarrow> log_ext P b c \<Longrightarrow> log_ext P a c"
  unfolding log_ext_def by (metis Un_iff append.assoc set_append)

lemma log_ext_mono: "log_ext P a b \<Longrightarrow> (\<And>c. P c \<Longrightarrow> Q c) \<Longrightarrow> log_ext Q a b"
  unfolding log_ext_def by blast

lemma call_ext: "log_ext P l (snd (call env c l)) \<longleftrightarrow> P c"
  by (simp add: call_def)

text \<open>Calls of a redemption: all about its condition, the transfers apart.\<close>

abbreviation about :: "string \<Rightarrow> settle_call \<Rightarrow> bool" where
  "about cid c \<equiv> call_condition c = None \<or> call_condition c = Some cid"

lemma redeem_via_ext: "log_ext (about cid) l (snd (redeemViaExecutor env cid nums l))"
  using call_ext [of "about cid" l env "RedeemPositions cid (map (\<lambda>i. 2 ^ i) [0..<length nums])"]
  by (auto simp: redeemViaExecutor_def split: prod.split sum.split)

lemma offramp_ext: "log_ext (\<lambda>c. call_condition c = None) l (snd (offrampPusdToVault env a l))"
  by (simp add: offrampPusdToVault_def call_ext)

lemma acknowledge_ext: "log_ext (\<lambda>c. call_condition c = None) l (snd (acknowledge env r b l))"
  by (auto simp: acknowledge_def Let_def call_ext split: sum.split)

lemma redeem_shares_ext: "log_ext (about cid) l (snd (redeem_shares env cid nums l))"
proof -
  let ?l1 = "snd (redeemViaExecutor env cid nums l)"
  have off: "log_ext (about cid) ?l1 (snd (offrampPusdToVault env a ?l1))" for a
    by (rule log_ext_mono [OF offramp_ext]) simp
  show ?thesis
    using redeem_via_ext [of cid l env nums] log_ext_trans [OF redeem_via_ext [of cid l env nums] off]
    by (auto simp: redeem_shares_def Let_def case_prod_beta split: sum.split)
qed

lemma redeem_block_ext: "log_ext (about cid) l (redeem_block env cid nums h b l)"
proof (cases h)
  case True
  obtain r l1 where rs: "redeem_shares env cid nums l = (r, l1)" by fastforce
  have "log_ext (about cid) l l1" using redeem_shares_ext [of cid l env nums] rs by simp
  moreover have "log_ext (about cid) l1 (snd (acknowledge env x b l1))" for x
    by (rule log_ext_mono [OF acknowledge_ext]) simp
  ultimately show ?thesis using True rs log_ext_trans
    by (auto simp: redeem_block_def split: sum.split)
next
  case False
  show ?thesis using False log_ext_mono [OF acknowledge_ext, of "about cid" l env 0 b] by (simp add: redeem_block_def)
qed

lemma resolve_step_ext: "log_ext (about cid) l (resolve_step env cid t l)"
  by (simp add: resolve_step_def call_ext)

lemma pipeline_ext: "log_ext (about cid) l (snd (runRedemptionPipeline env cid l))"
  using resolve_step_ext [of cid l env] log_ext_trans [OF resolve_step_ext redeem_block_ext, of cid l env]
  by (auto simp: runRedemptionPipeline_def Let_def split: sum.split option.split)

lemma handle_shape:
  "\<exists>r t l. handleResolution env cid s = (r, s\<lparr>st_tracker := t, st_log := l\<rparr>) \<and> log_ext (about cid) (st_log s) l"
proof (cases "readNumerators env cid")
  case (Inl e)
  then have "handleResolution env cid s = (Inl e, s\<lparr>st_tracker := cancelOrdersForMarket (sv_sign env) (sv_domain env) cid (st_tracker s),
      st_log := st_log s\<rparr>)" by (simp add: handleResolution_def Let_def)
  then show ?thesis by blast
next
  case (Inr nums)
  obtain r l where p: "runRedemptionPipeline env cid (st_log s) = (r, l)" by fastforce
  show ?thesis
  proof (cases "nums \<noteq> [] \<and> list_all (\<lambda>n. n = 0) nums")
    case True
    then show ?thesis using Inr call_ext [of "about cid" "st_log s" env "RegisterCondition cid"]
      by (auto simp: handleResolution_def Let_def)
  next
    case False
    then have "handleResolution env cid s =
        (r, s\<lparr>st_tracker := cancelOrdersForMarket (sv_sign env) (sv_domain env) cid (st_tracker s), st_log := l\<rparr>)"
      using Inr p by (auto simp: handleResolution_def Let_def)
    moreover have "log_ext (about cid) (st_log s) l" using pipeline_ext [of cid "st_log s" env] p by simp
    ultimately show ?thesis by blast
  qed
qed

subsection \<open>The tick\<close>

text \<open>
  When a market is due, written out apart from the poll's filters.  The
  condition id of a market is known where its row carries one that differs from
  the reduced market id or, failing that, the registry has one that does.
\<close>

definition condition_known :: "registry \<Rightarrow> TrackedMarket \<Rightarrow> string \<Rightarrow> bool" where
  "condition_known reg m cid \<longleftrightarrow> cid \<noteq> '''' \<and> cid \<noteq> tm_reducedKey m \<and>
     (if tm_rawConditionId m = '''' \<or> tm_rawConditionId m = tm_reducedKey m
      then \<exists>r. map_of reg (lower (tm_reducedKey m)) = Some r \<and> rr_condition_id r = cid
      else tm_rawConditionId m = cid)"

definition due :: "settle_env \<Rightarrow> settler \<Rightarrow> TrackedMarket \<Rightarrow> bool" where
  "due env s m \<longleftrightarrow>
     (\<exists>row. (tm_reducedKey m, row) \<in> set (st_tracked s) \<and> tm_rawConditionId m = tr_raw row \<and> tm_endDate m = tr_end row) \<and>
     tm_reducedKey m \<notin> set (st_resolved s) \<and>
     (\<forall>e. tm_endDate m = Some e \<longrightarrow> e \<noteq> 0 \<longrightarrow> e * 1000 \<le> sv_now_ms env) \<and>
     (\<forall>n t. map_of (st_backoff s) (tm_reducedKey m) = Some (n, t) \<longrightarrow> t \<le> sv_now_ms env) \<and>
     (0 < st_seeded_at s \<and> sv_now_ms env < st_seeded_at s + 900000 \<or>
      \<not> (\<exists>t > 0. sv_resolved_at_batch env (tm_reducedKey m) = Some t)) \<and>
     (\<exists>cid. condition_known (sv_registry env) m cid)"

definition finalised :: "settle_env \<Rightarrow> string \<Rightarrow> bool" where
  "finalised env cid \<longleftrightarrow> (\<exists>d. sv_denominator_batch env cid = Some d \<and> d \<noteq> 0)"

lemma tracked_iff:
  "m \<in> set (getTrackedMarkets tab) \<longleftrightarrow>
     (\<exists>row. (tm_reducedKey m, row) \<in> set tab \<and> tm_rawConditionId m = tr_raw row \<and> tm_endDate m = tr_end row)"
  by (cases m) (force simp: getTrackedMarkets_def)

lemma condition_known_code:
  "condition_known reg m cid \<longleftrightarrow> usable_raw reg m \<and> raw_condition reg m = cid"
  by (auto simp: condition_known_def usable_raw_def raw_condition_def conditionIdForKey_def split: option.splits)

text \<open>The poll's filters decide it.\<close>

lemma due_code:
  "due env s m \<longleftrightarrow> m \<in> set (getTrackedMarkets (st_tracked s)) \<and> eligible env s m \<and>
     (seed_fresh env s \<or> \<not> known_resolved env m) \<and> usable_raw (sv_registry env) m"
proof -
  have sec: "e * 1000 \<le> t \<longleftrightarrow> \<not> t div 1000 < e" for e t :: int by linarith
  have ended: "(\<forall>e. tm_endDate m = Some e \<longrightarrow> e \<noteq> 0 \<longrightarrow> e * 1000 \<le> sv_now_ms env) \<longleftrightarrow>
      \<not> (case tm_endDate m of Some e \<Rightarrow> e \<noteq> 0 \<and> sv_now_ms env div 1000 < e | None \<Rightarrow> False)"
    by (cases "tm_endDate m") (auto simp: sec)
  have waited: "(\<forall>n t. map_of (st_backoff s) (tm_reducedKey m) = Some (n, t) \<longrightarrow> t \<le> sv_now_ms env) \<longleftrightarrow>
      \<not> (case map_of (st_backoff s) (tm_reducedKey m) of Some (_, nextAt) \<Rightarrow> sv_now_ms env < nextAt | None \<Rightarrow> False)"
    by (cases "map_of (st_backoff s) (tm_reducedKey m)") auto
  have fresh: "seed_fresh env s \<longleftrightarrow> 0 < st_seeded_at s \<and> sv_now_ms env < st_seeded_at s + 900000"
    unfolding seed_fresh_def SEED_FRESH_MS_def RESOLVED_REFRESH_MS_def by linarith
  have known: "known_resolved env m \<longleftrightarrow> (\<exists>t > 0. sv_resolved_at_batch env (tm_reducedKey m) = Some t)"
    by (auto simp: known_resolved_def split: option.splits)
  show ?thesis
    unfolding due_def tracked_iff condition_known_code eligible_def ended waited fresh known by blast
qed

lemma backoff_frame [simp]:
  "st_log (backoffMarket k now s) = st_log s" "st_tracked (backoffMarket k now s) = st_tracked s"
  "st_resolved (backoffMarket k now s) = st_resolved s"
  by (simp_all add: backoffMarket_def Let_def)

lemma mark_resolved_frame [simp]:
  "st_log (mark_resolved k s) = st_log s" "st_tracked (mark_resolved k s) = st_tracked s"
  "set (st_resolved (mark_resolved k s)) = insert k (set (st_resolved s))"
  by (simp_all add: mark_resolved_def)

lemma drive_frame:
  "st_tracked (drive env s kr) = st_tracked s" "set (st_resolved s) \<subseteq> set (st_resolved (drive env s kr))"
  "set (st_resolved (drive env s kr)) \<subseteq> insert (fst kr) (set (st_resolved s))"
proof -
  obtain r t l where h: "handleResolution env (snd kr) s = (r, s\<lparr>st_tracker := t, st_log := l\<rparr>)"
    using handle_shape by blast
  show "st_tracked (drive env s kr) = st_tracked s" "set (st_resolved s) \<subseteq> set (st_resolved (drive env s kr))"
    "set (st_resolved (drive env s kr)) \<subseteq> insert (fst kr) (set (st_resolved s))"
    using h by (auto simp: drive_def split: prod.split option.split sum.split)
qed

lemma drive_log:
  "log_ext (\<lambda>c. about (snd kr) c \<and> (\<exists>d. sv_denominator_batch env (snd kr) = Some d \<and> d \<noteq> 0)) (st_log s) (st_log (drive env s kr))"
proof -
  obtain r t l where h: "handleResolution env (snd kr) s = (r, s\<lparr>st_tracker := t, st_log := l\<rparr>)"
    "log_ext (about (snd kr)) (st_log s) l" using handle_shape by blast
  show ?thesis
  proof (cases "\<exists>d. sv_denominator_batch env (snd kr) = Some d \<and> d \<noteq> 0")
    case True
    have "log_ext (\<lambda>c. about (snd kr) c \<and> (\<exists>d. sv_denominator_batch env (snd kr) = Some d \<and> d \<noteq> 0)) (st_log s) l"
      by (rule log_ext_mono [OF h(2)]) (use True in simp)
    then show ?thesis using h(1) by (auto simp: drive_def split: prod.split option.split sum.split)
  next
    case False
    then show ?thesis by (auto simp: drive_def split: prod.split option.split)
  qed
qed

lemma fold_backoff_frame:
  "st_log (foldl (\<lambda>u m. if P m then u else backoffMarket (key m) now u) s ms) = st_log s"
  "st_tracked (foldl (\<lambda>u m. if P m then u else backoffMarket (key m) now u) s ms) = st_tracked s"
  "st_resolved (foldl (\<lambda>u m. if P m then u else backoffMarket (key m) now u) s ms) = st_resolved s"
  by (induction ms arbitrary: s) auto

lemma fold_mark_frame:
  "st_log (foldl (\<lambda>u m. mark_resolved (key m) u) s ms) = st_log s"
  "st_tracked (foldl (\<lambda>u m. mark_resolved (key m) u) s ms) = st_tracked s"
  "set (st_resolved (foldl (\<lambda>u m. mark_resolved (key m) u) s ms)) = key ` set ms \<union> set (st_resolved s)"
  by (induction ms arbitrary: s) auto

lemma fold_drive:
  "log_ext (\<lambda>c. \<exists>kr \<in> set krs. about (snd kr) c \<and> (\<exists>d. sv_denominator_batch env (snd kr) = Some d \<and> d \<noteq> 0))
     (st_log s) (st_log (foldl (drive env) s krs))"
  "st_tracked (foldl (drive env) s krs) = st_tracked s"
  "set (st_resolved s) \<subseteq> set (st_resolved (foldl (drive env) s krs))"
proof (induction krs arbitrary: s)
  case (Cons kr krs)
  { case 1
    show ?case unfolding foldl_Cons
      by (rule log_ext_trans [OF log_ext_mono [OF drive_log [of kr env s]] log_ext_mono [OF Cons.IH(1)]]) auto }
  { case 2 show ?case by (simp add: Cons.IH drive_frame) }
  { case 3 show ?case using Cons.IH(3) [of "drive env s kr"] drive_frame(2) [of s env kr] by auto }
qed auto

text \<open>The tick as one fold over the due markets.\<close>

lemma tick_unfold:
  obtains krs s2 where "settlement_tick env s = foldl (drive env) s2 krs" "st_log s2 = st_log s" "st_tracked s2 = st_tracked s"
      "set (st_resolved s) \<subseteq> set (st_resolved s2)"
      "set krs = {(tm_reducedKey m, raw_condition (sv_registry env) m) | m. due env s m}"
proof -
  let ?ms = "filter (eligible env s) (getTrackedMarkets (st_tracked s))"
  obtain ms1 s1 where d: "drop_resolved env ?ms s = (ms1, s1)" by fastforce
  obtain krs s2 where c: "checkable env ms1 s1 = (krs, s2)" by fastforce
  have s1: "st_log s1 = st_log s" "st_tracked s1 = st_tracked s" "set (st_resolved s) \<subseteq> set (st_resolved s1)"
    using d by (auto simp: drop_resolved_def fold_mark_frame split: if_splits)
  have s2: "st_log s2 = st_log s1" "st_tracked s2 = st_tracked s1" "st_resolved s2 = st_resolved s1"
    using c by (auto simp: checkable_def fold_backoff_frame)
  have m1: "set ms1 = {m \<in> set ?ms. seed_fresh env s \<or> \<not> known_resolved env m}"
    using d by (auto simp: drop_resolved_def split: if_splits)
  have krs: "set krs = {(tm_reducedKey m, raw_condition (sv_registry env) m) | m. due env s m}"
    using c m1 by (auto simp: checkable_def due_code)
  show ?thesis
  proof (cases "?ms = []")
    case True
    then have "\<not> due env s m" for m by (auto simp: due_code filter_empty_conv)
    then show ?thesis using True by (intro that [of s "[]"]) (simp_all add: settlement_tick_def)
  next
    case False
    show ?thesis
    proof (cases "ms1 = []")
      case True
      then have "krs = []" using c by (simp add: checkable_def)
      moreover have "settlement_tick env s = s1" using False d True by (simp add: settlement_tick_def)
      ultimately show ?thesis using s1 krs by (intro that [of s1 "[]"]) auto
    next
      case nonempty: False
      have "settlement_tick env s = foldl (drive env) s2 krs"
        using False d c nonempty by (simp add: settlement_tick_def)
      then show ?thesis using s1 s2 krs by (intro that [of s2 krs]) auto
    qed
  qed
qed

lemma tick_log:
  "log_ext (\<lambda>c. \<exists>m. due env s m \<and> finalised env (raw_condition (sv_registry env) m) \<and> about (raw_condition (sv_registry env) m) c)
     (st_log s) (st_log (settlement_tick env s))"
proof (rule tick_unfold [of env s])
  fix krs s2
  assume t: "settlement_tick env s = foldl (drive env) s2 krs" "st_log s2 = st_log s"
    and krs: "set krs = {(tm_reducedKey m, raw_condition (sv_registry env) m) | m. due env s m}"
  show ?thesis unfolding t(1) t(2) [symmetric]
    by (rule log_ext_mono [OF fold_drive(1)]) (use krs in \<open>auto simp: finalised_def\<close>)
qed

lemma tick_keeps:
  "st_tracked (settlement_tick env s) = st_tracked s" "set (st_resolved s) \<subseteq> set (st_resolved (settlement_tick env s))"
  by (rule tick_unfold [of env s], use fold_drive(2,3) in force)+

lemma fold_drive_resolves:
  assumes "(key, raw) \<in> set krs" and "sv_denominator_batch env raw = Some d" "d \<noteq> 0" "sv_block env = Inr b"
    and "\<And>u. fst (handleResolution env raw u) = Inr ()"
  shows "key \<in> set (st_resolved (foldl (drive env) s krs))"
  using assms(1)
proof (induction krs arbitrary: s)
  case (Cons kr krs)
  show ?case
  proof (cases "kr = (key, raw)")
    case True
    obtain s1 where "handleResolution env raw s = (Inr (), s1)" using assms(5) [of s] by (metis fst_conv surj_pair)
    then have "key \<in> set (st_resolved (drive env s kr))" using True assms(2-4) by (simp add: drive_def)
    then show ?thesis using fold_drive(3) [of "drive env s kr" env krs] by auto
  qed (use Cons in auto)
qed simp

text \<open>A market in the fold has its handling in the log, whatever happens to the others.\<close>

lemma handle_in_drive:
  assumes "finalised env raw" and "sv_block env = Inr b"
  shows "st_log (drive env s (key, raw)) = st_log (snd (handleResolution env raw s))"
  using assms by (auto simp: drive_def finalised_def split: sum.split prod.split)

lemma fold_drive_calls:
  assumes "(key, raw) \<in> set krs" and "finalised env raw" and "sv_block env = Inr b"
    and "\<And>u. \<exists>new. st_log (snd (handleResolution env raw u)) = st_log u @ new \<and> c \<in> set new"
  shows "\<exists>new. st_log (foldl (drive env) s krs) = st_log s @ new \<and> c \<in> set new"
  using assms(1)
proof (induction krs arbitrary: s)
  case (Cons kr krs)
  have ext: "\<exists>new. st_log (foldl (drive env) u krs) = st_log u @ new" for u
    using fold_drive(1) [of krs env u] by (auto simp: log_ext_def)
  show ?case
  proof (cases "kr = (key, raw)")
    case True
    obtain new where "st_log (drive env s kr) = st_log s @ new" "c \<in> set new"
      using assms(4) [of s] handle_in_drive [OF assms(2,3), of s key] True by auto
    then show ?thesis using ext [of "drive env s kr"] by fastforce
  next
    case False
    then obtain new where "st_log (foldl (drive env) (drive env s kr) krs) = st_log (drive env s kr) @ new" "c \<in> set new"
      using Cons by fastforce
    moreover obtain new1 where "st_log (drive env s kr) = st_log s @ new1"
      using drive_log [of kr env s] by (auto simp: log_ext_def)
    ultimately show ?thesis by auto
  qed
qed simp

text \<open>A finalised condition with a payout that the vault has not resolved is resolved first thing.\<close>

lemma handle_resolves:
  assumes "toFieldSafe raw = Some k" and "\<And>l. \<exists>t \<le> 0. sv_resolved_at env l k = Inr t"
    and "readNumerators env raw = Inr nums" and "\<exists>n \<in> set nums. n \<noteq> 0"
    and "sv_denominator env raw = Inr d" and "d \<noteq> 0"
  shows "\<exists>new. st_log (snd (handleResolution env raw u)) = st_log u @ new \<and> ResolveMarket raw \<in> set new"
proof -
  obtain t where t: "sv_resolved_at env (st_log u) k = Inr t" "t \<le> 0" using assms(2) by blast
  have nz: "\<not> list_all (\<lambda>n. n = 0) nums" using assms(4) by (auto simp: list_all_iff)
  let ?l = "resolve_step env raw t (st_log u)"
  have l: "?l = st_log u @ [ResolveMarket raw]" using t(2) by (simp add: resolve_step_def call_def)
  have "\<exists>new. redeem_block env raw nums h b ?l = ?l @ new" for h b
    using redeem_block_ext [of raw ?l env nums h b] by (auto simp: log_ext_def)
  note block = this
  have "\<exists>new. snd (runRedemptionPipeline env raw (st_log u)) = ?l @ new"
    using assms(1,3,5,6) t nz by (auto simp: runRedemptionPipeline_def Let_def block split: sum.split)
  then obtain new where "snd (runRedemptionPipeline env raw (st_log u)) = st_log u @ ResolveMarket raw # new"
    using l by auto
  then show ?thesis using assms(3) nz by (auto simp: handleResolution_def Let_def case_prod_beta)
qed

lemma due_driven:
  assumes "due env s m" and "condition_known (sv_registry env) m cid"
  obtains krs s2 where "settlement_tick env s = foldl (drive env) s2 krs" "st_log s2 = st_log s"
    "(tm_reducedKey m, cid) \<in> set krs"
proof (rule tick_unfold [of env s])
  fix krs s2
  assume t: "settlement_tick env s = foldl (drive env) s2 krs" "st_log s2 = st_log s"
    "set krs = {(tm_reducedKey m, raw_condition (sv_registry env) m) | m. due env s m}"
  have "(tm_reducedKey m, cid) \<in> set krs" using assms t(3) by (auto simp: condition_known_code)
  then show thesis using that t by blast
qed

lemma backoff_entry:
  "map_of (st_backoff (backoffMarket key now s)) key =
     (let n = (case map_of (st_backoff s) key of Some (n, _) \<Rightarrow> n | None \<Rightarrow> 0)
      in Some (n + 1, now + min 1800000 (60000 * 2 ^ n)))"
  by (simp add: backoffMarket_def Let_def map_of_update SETTLE_BACKOFF_BASE_MS_def SETTLE_BACKOFF_MAX_MS_def)

text \<open>Each tracked market carries a condition id that reduces to its key.\<close>

definition tracked_wf :: "tracked_markets \<Rightarrow> bool" where
  "tracked_wf tab \<longleftrightarrow> (\<forall>(k, row) \<in> set tab. lower k = k \<and> toFieldSafe (tr_raw row) = Some k)"

lemma raw_reduces:
  assumes "registry_ok reg" and "tracked_wf tab" and "m \<in> set (getTrackedMarkets tab)"
  shows "toFieldSafe (raw_condition reg m) = Some (tm_reducedKey m)"
proof -
  have m: "lower (tm_reducedKey m) = tm_reducedKey m" "toFieldSafe (tm_rawConditionId m) = Some (tm_reducedKey m)"
    using assms(2,3) by (auto simp: tracked_wf_def getTrackedMarkets_def)
  show ?thesis using m assms(1)
    by (auto simp: raw_condition_def conditionIdForKey_def registry_ok_def split: option.splits)
qed

lemma small_not_due:
  assumes "registry_ok (sv_registry env)" and "tracked_wf (st_tracked s)" and "toFieldSafe c = Some c"
    and "due env s m"
  shows "raw_condition (sv_registry env) m \<noteq> c"
proof
  assume "raw_condition (sv_registry env) m = c"
  then have "tm_reducedKey m = c" using raw_reduces [OF assms(1,2)] assms(3,4) by (auto simp: due_code)
  with \<open>raw_condition (sv_registry env) m = c\<close> assms(4) show False by (simp add: due_code usable_raw_def)
qed

text \<open>A chain on which every condition is finalised with the payout of side 0.\<close>

definition demo_settle_env :: settle_env where
  "demo_settle_env = \<lparr>sv_now_ms = 5000000, sv_block = Inr 9, sv_registry = [], sv_slots = (\<lambda>c. Inr 2),
     sv_numerator = (\<lambda>c i. Some (if i = 0 then 1 else 0)), sv_denominator = (\<lambda>c. Inr 1),
     sv_denominator_batch = (\<lambda>c. Some 1), sv_resolved_at = (\<lambda>l k. Inr 0), sv_resolved_at_batch = (\<lambda>k. None),
     sv_bets = Inr [], sv_share_balance = (\<lambda>i. None), sv_pusd = (\<lambda>l. Inr 0), sv_usdc = (\<lambda>l. Inr 0),
     sv_deployed = (\<lambda>l. Inr 0), sv_ok = (\<lambda>l c. True), sv_wallet = ''w'', sv_pusd_address = ''u'', sv_offramp = ''o'',
     sv_sign = (\<lambda>i. Inr ''sig''), sv_domain = True\<rparr>"

lemma demo_settle_facts:
  "sv_denominator_batch demo_settle_env c = Some 1" "sv_block demo_settle_env = Inr 9"
  "sv_resolved_at demo_settle_env l k = Inr 0" "sv_denominator demo_settle_env c = Inr 1"
  "sv_usdc demo_settle_env l = Inr 0" "betsForMarket demo_settle_env c = Inr []"
  "readNumerators demo_settle_env c = Inr [1, 0]" "collectPositionIds demo_settle_env c = Inr []"
  "toFieldSafe (toHex (5 + BN254_P)) = Some (toHex 5)"
  by (simp_all add: demo_settle_env_def betsForMarket_def collectPositionIds_def readNumerators_def numeral_2_eq_2
      toFieldSafe_def BigInt_toHex BN254_P_def)

definition demo_settler :: settler where
  "demo_settler = \<lparr>st_resolved = [], st_seeded_at = 0, st_backoff = [],
     st_tracked = [(toHex 5, \<lparr>tr_raw = toHex 5, tr_end = None, tr_created = 0\<rparr>)],
     st_tracker = \<lparr>by_order_id = [], finalized = [], tracked_rows = [], attestations = [], has_wallet = True\<rparr>, st_log = []\<rparr>"

subsection \<open>Claims\<close>

text \<open>
  C28: The settlement poll drives exactly the markets that are due.  A market is
  due when it is tracked and not known resolved (by the index or, while that seed
  is older than fifteen minutes, by the vault's own answer), its end date, if it has
  one, and its backoff have passed, and its condition id is known and differs from
  its reduced market id; the last leaves out every market whose condition id is
  itself below the field modulus, about one in five.  Every call a tick makes for a
  market is for a due one whose condition is finalised on the conditional-tokens
  contract.  A due and finalised market with a payout that the vault has not
  resolved has its resolution sent by the tick; one whose handling returns is
  known resolved afterwards and not due again; and a market put off waits one minute
  the first time, doubling to at most thirty.
\<close>

theorem settlement_drives_due_markets:
  shows "log_ext (\<lambda>c. \<exists>m cid. due env s m \<and> condition_known (sv_registry env) m cid \<and> finalised env cid \<and>
      (call_condition c = None \<or> call_condition c = Some cid))
      (st_log s) (st_log (settlement_tick env s)) \<and>
    (\<forall>m cid b. due env s m \<longrightarrow> condition_known (sv_registry env) m cid \<longrightarrow> finalised env cid \<longrightarrow> sv_block env = Inr b \<longrightarrow>
       (\<forall>k nums d. toFieldSafe cid = Some k \<longrightarrow> (\<forall>l. \<exists>t \<le> 0. sv_resolved_at env l k = Inr t) \<longrightarrow>
          readNumerators env cid = Inr nums \<longrightarrow> (\<exists>n \<in> set nums. n \<noteq> 0) \<longrightarrow> sv_denominator env cid = Inr d \<longrightarrow> d \<noteq> 0 \<longrightarrow>
          (\<exists>new. st_log (settlement_tick env s) = st_log s @ new \<and> ResolveMarket cid \<in> set new)) \<and>
       ((\<forall>u. fst (handleResolution env cid u) = Inr ()) \<longrightarrow>
          tm_reducedKey m \<in> set (st_resolved (settlement_tick env s)))) \<and>
    (\<forall>env' m. tm_reducedKey m \<in> set (st_resolved s) \<longrightarrow>
       \<not> due env' s m \<and> tm_reducedKey m \<in> set (st_resolved (settlement_tick env s))) \<and>
    map_of (st_backoff (backoffMarket key now s)) key =
      (let n = (case map_of (st_backoff s) key of Some (n, _) \<Rightarrow> n | None \<Rightarrow> 0)
       in Some (n + 1, now + min 1800000 (60000 * 2 ^ n)))"
proof (intro conjI allI impI)
  show "log_ext (\<lambda>c. \<exists>m cid. due env s m \<and> condition_known (sv_registry env) m cid \<and> finalised env cid \<and>
      (call_condition c = None \<or> call_condition c = Some cid)) (st_log s) (st_log (settlement_tick env s))"
    by (rule log_ext_mono [OF tick_log]) (auto simp: condition_known_code due_code)
next
  fix m cid b k nums d
  assume m: "due env s m" "condition_known (sv_registry env) m cid" "finalised env cid" "sv_block env = Inr b"
    and h: "toFieldSafe cid = Some k" "\<forall>l. \<exists>t \<le> 0. sv_resolved_at env l k = Inr t" "readNumerators env cid = Inr nums"
      "\<exists>n \<in> set nums. n \<noteq> 0" "sv_denominator env cid = Inr d" "d \<noteq> 0"
  obtain krs s2 where t: "settlement_tick env s = foldl (drive env) s2 krs" "st_log s2 = st_log s"
    "(tm_reducedKey m, cid) \<in> set krs" by (rule due_driven [OF m(1,2)])
  show "\<exists>new. st_log (settlement_tick env s) = st_log s @ new \<and> ResolveMarket cid \<in> set new"
    using fold_drive_calls [OF t(3) m(3,4) handle_resolves [OF h(1) h(2) [rule_format] h(3-6)], of s2] t(1,2) by simp
next
  fix m cid b
  assume m: "due env s m" "condition_known (sv_registry env) m cid" "finalised env cid" "sv_block env = Inr b"
    and h: "\<forall>u. fst (handleResolution env cid u) = Inr ()"
  obtain krs s2 where t: "settlement_tick env s = foldl (drive env) s2 krs" "(tm_reducedKey m, cid) \<in> set krs"
    by (rule due_driven [OF m(1,2)])
  obtain d where "sv_denominator_batch env cid = Some d" "d \<noteq> 0" using m(3) by (auto simp: finalised_def)
  then show "tm_reducedKey m \<in> set (st_resolved (settlement_tick env s))"
    using fold_drive_resolves [OF t(2) _ _ m(4) h [rule_format], of d s2] t(1) by simp
qed (use tick_keeps(2) [of s env] backoff_entry [of key now s] in \<open>auto simp: due_def\<close>)

theorem settlement_drives_due_markets_witness:
  "let s = demo_settler\<lparr>st_tracked := [(toHex 5, \<lparr>tr_raw = toHex (5 + BN254_P), tr_end = Some 5000, tr_created = 0\<rparr>)],
         st_backoff := [(toHex 5, 3, 5000000)]\<rparr>
   in toHex 5 \<in> set (st_resolved (settlement_tick demo_settle_env s)) \<and>
      ResolveMarket (toHex (5 + BN254_P)) \<in> set (st_log (settlement_tick demo_settle_env s))"
proof -
  let ?c = "toHex (5 + BN254_P)"
  let ?s = "demo_settler\<lparr>st_tracked := [(toHex 5, \<lparr>tr_raw = ?c, tr_end = Some 5000, tr_created = 0\<rparr>)],
         st_backoff := [(toHex 5, 3, 5000000)]\<rparr>"
  let ?m = "\<lparr>tm_reducedKey = toHex 5, tm_rawConditionId = ?c, tm_endDate = Some 5000\<rparr>"
  have ne: "?c \<noteq> toHex 5" "?c \<noteq> ''''"
    by (simp_all add: toHex_inject BN254_P_def) (simp add: toHex_def)
  have raw: "condition_known (sv_registry demo_settle_env) ?m ?c" using ne by (simp add: condition_known_def)
  have due: "due demo_settle_env ?s ?m"
    using raw by (auto simp: due_def demo_settler_def) (simp_all add: demo_settle_env_def)
  have fin: "finalised demo_settle_env ?c" "sv_block demo_settle_env = Inr 9"
    by (simp_all add: finalised_def demo_settle_env_def)
  have h: "fst (handleResolution demo_settle_env ?c u) = Inr ()" for u
    by (simp add: handleResolution_def Let_def runRedemptionPipeline_def demo_settle_facts case_prod_beta)
  note th = conjunct1 [OF conjunct2 [OF settlement_drives_due_markets [of demo_settle_env ?s "''k''" 0]],
      rule_format, OF due raw fin]
  have "tm_reducedKey ?m \<in> set (st_resolved (settlement_tick demo_settle_env ?s))"
    by (rule conjunct2 [OF th, rule_format]) (simp only: h)
  moreover have "\<exists>new. st_log (settlement_tick demo_settle_env ?s) = st_log ?s @ new \<and> ResolveMarket ?c \<in> set new"
    by (rule conjunct1 [OF th, rule_format, of "toHex 5" "[1, 0]" 1]) (auto simp: demo_settle_facts)
  ultimately show ?thesis by (auto simp: Let_def)
qed

text \<open>
  A market whose condition id is itself below the field modulus is never
  settled.  The poll takes a condition id equal to the reduced market id for a
  missing one; for such a market the two are equal by definition.  No tick, whatever
  the chain answers, ever sends a call for it, although more than 18 in 100 of
  the 256-bit ids are below the modulus.
\<close>

lemma small_condition_never_settled:
  assumes "\<forall>env \<in> set envs. registry_ok (sv_registry env)" and "tracked_wf (st_tracked s)"
    and "n < BN254_P"
  shows "log_ext (\<lambda>c. call_condition c \<noteq> Some (toHex n)) (st_log s) (st_log (foldl (\<lambda>u env. settlement_tick env u) s envs)) \<and>
    18 * 2 ^ 256 < 100 * BN254_P"
proof
  have c: "toFieldSafe (toHex n) = Some (toHex n)" using assms(3) by (simp add: toFieldSafe_def BigInt_toHex)
  show "log_ext (\<lambda>c. call_condition c \<noteq> Some (toHex n)) (st_log s) (st_log (foldl (\<lambda>u env. settlement_tick env u) s envs))"
    using assms(1,2)
  proof (induction envs arbitrary: s)
    case (Cons env envs)
    have "log_ext (\<lambda>c. call_condition c \<noteq> Some (toHex n)) (st_log s) (st_log (settlement_tick env s))"
      by (rule log_ext_mono [OF tick_log]) (use small_not_due [OF _ Cons.prems(2) c] Cons.prems(1) in auto)
    moreover have "log_ext (\<lambda>c. call_condition c \<noteq> Some (toHex n)) (st_log (settlement_tick env s))
        (st_log (foldl (\<lambda>u env. settlement_tick env u) (settlement_tick env s) envs))"
      by (rule Cons.IH) (use Cons.prems in \<open>simp_all add: tick_keeps\<close>)
    ultimately show ?case by (simp add: log_ext_trans)
  qed simp
qed (simp add: BN254_P_def)

lemma small_condition_never_settled_witness:
  "ResolveMarket (toHex 5) \<notin> set (st_log (settlement_tick demo_settle_env demo_settler))"
proof -
  have "registry_ok (sv_registry demo_settle_env)" "tracked_wf (st_tracked demo_settler)" "5 < BN254_P"
    by (simp_all add: registry_ok_def demo_settle_env_def tracked_wf_def demo_settler_def demo_id BN254_P_def)
  then show ?thesis using small_condition_never_settled [of "[demo_settle_env]" demo_settler 5]
    by (auto simp: log_ext_def demo_settler_def)
qed

text \<open>
  C40: The redemption looks for shares under the wrong ids, and a settlement that
  failed is not tried again.  The wallet's shares are looked up under the position
  ids of the bets, which the frontend derives by a hash and which the exchange does
  not know; where the wallet holds nothing under those ids nothing is redeemed,
  whatever it holds under the exchange's token ids.  Such a market, one whose
  resolving transaction failed and one whose registration as void failed are all
  taken for resolved, and no later tick drives them.
\<close>

theorem unredeemed_market_taken_for_settled:
  assumes "sv_denominator_batch env raw = Some d" "d \<noteq> 0" "sv_block env = Inr b"
    and "toFieldSafe raw = Some k" and "\<And>l. \<exists>t. sv_resolved_at env l k = Inr t" and "readNumerators env raw = Inr nums"
    and "sv_denominator env raw = Inr d'" and "\<And>l. \<exists>u. sv_usdc env l = Inr u" and "betsForMarket env raw = Inr bets"
    and "\<And>r. r \<in> set bets \<Longrightarrow> \<not> (\<exists>v > 0. sv_share_balance env (br_position_id r) = Some v)"
  shows "log_ext (\<lambda>c. \<forall>cid ns. c \<noteq> RedeemPositions cid ns) (st_log s) (st_log (drive env s (key, raw))) \<and>
    (\<forall>envs m. tm_reducedKey m = key \<longrightarrow>
       \<not> due env' (foldl (\<lambda>u e. settlement_tick e u) (drive env s (key, raw)) envs) m)"
proof -
  let ?s' = "drive env s (key, raw)"
  have ids: "\<exists>ids. collectPositionIds env raw = Inr ids \<and> set ids \<subseteq> br_position_id ` set bets"
  proof -
    have "set (foldl (\<lambda>ids r. set_add (br_position_id r) ids) acc rs) = br_position_id ` set rs \<union> set acc" for acc and rs :: "BetAuthorizedRecord list"
      by (induction rs arbitrary: acc) auto
    then show ?thesis using assms(9) by (simp add: collectPositionIds_def)
  qed
  then obtain ids where ids: "collectPositionIds env raw = Inr ids" "set ids \<subseteq> br_position_id ` set bets" by blast
  have none: "\<not> hasVaultShares env ids"
    using ids(2) assms(10) by (force simp: hasVaultShares_def split: option.splits)
  let ?P = "\<lambda>c. \<forall>cid ns. c \<noteq> RedeemPositions cid ns"
  have ack: "log_ext ?P l (snd (acknowledge env r u l))" for l r u
    by (rule log_ext_mono [OF acknowledge_ext]) auto
  have pipe: "fst (runRedemptionPipeline env raw l) = Inr () \<and> log_ext ?P l (snd (runRedemptionPipeline env raw l))" for l
  proof -
    obtain t where t: "sv_resolved_at env l k = Inr t" using assms(5) by blast
    obtain u where u: "sv_usdc env (resolve_step env raw t l) = Inr u" using assms(8) by blast
    have "log_ext ?P l (resolve_step env raw t l)" by (simp add: resolve_step_def call_ext)
    from log_ext_trans [OF this ack]
    show ?thesis using t u none assms(4,6,7) ids(1)
      by (simp add: runRedemptionPipeline_def redeem_block_def Let_def)
  qed
  have "fst (handleResolution env raw s) = Inr () \<and> log_ext ?P (st_log s) (st_log (snd (handleResolution env raw s)))"
    using pipe [of "st_log s"] assms(6) by (simp add: handleResolution_def Let_def call_ext case_prod_beta)
  then obtain s1 where "handleResolution env raw s = (Inr (), s1)" "log_ext ?P (st_log s) (st_log s1)"
    by (metis fst_conv snd_conv surj_pair)
  then have d: "log_ext ?P (st_log s) (st_log ?s')" "key \<in> set (st_resolved ?s')"
    using assms(1-3) by (simp_all add: drive_def)
  have "key \<in> set (st_resolved (foldl (\<lambda>u e. settlement_tick e u) v envs))" if "key \<in> set (st_resolved v)" for v envs
    using that by (induction envs arbitrary: v) (use tick_keeps(2) in force)+
  then show ?thesis using d by (auto simp: due_def)
qed

theorem unredeemed_market_taken_for_settled_witness:
  "\<not> due demo_settle_env (drive demo_settle_env demo_settler (toHex 5, toHex (5 + BN254_P)))
     \<lparr>tm_reducedKey = toHex 5, tm_rawConditionId = ''x'', tm_endDate = None\<rparr>"
proof -
  note e = demo_settle_facts
  show ?thesis
    using unredeemed_market_taken_for_settled [OF e(1) _ e(2,9) _ e(7,4) _ e(6), of demo_settler "toHex 5" demo_settle_env] e
    by (auto dest: spec [of _ "[]"])
qed

end
