(* ===== verification/Order_Api.thy ===== *)
theory Order_Api
  imports Orders_Sell Bet_Listener Settlement
begin

section \<open>The signing layer's HTTP interface\<close>

text \<open>
  \<open>signing-layer/src/autoSettlement.ts\<close>: the routes the frontend and the relay call
  to settle, close, cancel and register.  A handler maps a request (the fields of
  its body, absent ones \<open>None\<close>) and the state to a response and a state; work the
  code starts without awaiting it runs as part of the handler.
\<close>

record close_row =
  cq_nullifier :: string
  cq_position_id :: string
  cq_sold_shares :: string
  cq_limit_price :: string
  cq_requested_at :: int
  cq_order_type :: string
  cq_expiration :: int

record api_state =
  as_claims :: "((string \<times> string) \<times> int) list"
  as_closes :: "close_row list"
  as_limits :: limit_orders
  as_registry :: registry
  as_listener :: listener
  as_settler :: settler

datatype response =
    Unauthorized
  | BadRequest string
  | NotFound
  | BadGateway
  | Done
  | Outcome string
  | Registered bool
  | Attested attestation

subsection \<open>Validation and authorisation\<close>

definition HEX32 :: "string \<Rightarrow> bool" where
  "HEX32 s \<longleftrightarrow> hex_id s"

definition all_digits :: "string \<Rightarrow> bool" where
  "all_digits s \<longleftrightarrow> s \<noteq> '''' \<and> list_all (\<lambda>c. c \<in> set ''0123456789'') s"

text \<open>\<open>sha\<close> is SHA-256; the comparison is of the two digests.\<close>

definition operatorAuth :: "(string \<Rightarrow> 'h) \<Rightarrow> string option \<Rightarrow> string option \<Rightarrow> bool" where
  "operatorAuth sha expected header \<longleftrightarrow>
     (case expected of
        None \<Rightarrow> False
      | Some t \<Rightarrow>
          if t = '''' then False
          else let presented = (case header of
                     Some h \<Rightarrow> if take 7 h = ''Bearer '' then drop 7 h else ''''
                   | None \<Rightarrow> '''')
               in sha presented = sha t)"

definition guarded :: "bool \<Rightarrow> response \<times> api_state \<Rightarrow> api_state \<Rightarrow> response \<times> api_state" where
  "guarded auth handled s = (if auth then handled else (Unauthorized, s))"

subsection \<open>Claims and closes\<close>

definition claim_permission :: "settle_env \<Rightarrow> string option \<Rightarrow> string option \<Rightarrow> api_state \<Rightarrow> response \<times> api_state" where
  "claim_permission env market nf s =
     (case (market, nf) of
        (Some m, Some n) \<Rightarrow>
          if \<not> HEX32 m \<or> \<not> HEX32 n then (BadRequest ''invalid inputs'', s)
          else (Done, s\<lparr>as_claims := insert_ignore (m, n) (sv_now_ms env div 1000) (as_claims s),
                        as_settler := snd (resolveMarketManually env m (as_settler s))\<rparr>)
      | _ \<Rightarrow> (BadRequest ''invalid inputs'', s))"

datatype close_type = CloseFAK | CloseGTC | CloseGTD

fun close_text :: "close_type \<Rightarrow> string" where
  "close_text CloseFAK = ''FAK''"
| "close_text CloseGTC = ''GTC''"
| "close_text CloseGTD = ''GTD''"

record close_body =
  cb_nullifier :: string
  cb_position_id :: string
  cb_sold_shares :: string
  cb_limit_price :: string
  cb_order_type :: "close_type option"
  cb_expiration :: "nat option"

definition close_valid :: "close_body \<Rightarrow> bool" where
  "close_valid b \<longleftrightarrow>
     HEX32 (cb_nullifier b) \<and> HEX32 (cb_position_id b) \<and> all_digits (cb_sold_shares b) \<and> all_digits (cb_limit_price b)"

definition close_submit :: "sell_env \<Rightarrow> close_type \<Rightarrow> nat \<Rightarrow> CloseRequest \<Rightarrow> desk \<Rightarrow> desk" where
  "close_submit env ty e req d =
     (case ty of
        CloseFAK \<Rightarrow> submitMarketSellOrder env req d
      | CloseGTC \<Rightarrow> submitLimitSellOrder env req \<lparr>lp_orderType = GTC, lp_expiration = int e\<rparr> d
      | CloseGTD \<Rightarrow> submitLimitSellOrder env req \<lparr>lp_orderType = GTD, lp_expiration = int e\<rparr> d)"

definition on_desk :: "(desk \<Rightarrow> desk) \<Rightarrow> api_state \<Rightarrow> api_state" where
  "on_desk f s = s\<lparr>as_listener := (as_listener s)\<lparr>ls_desk := f (ls_desk (as_listener s))\<rparr>\<rparr>"

definition close_request :: "sell_env \<Rightarrow> close_body \<Rightarrow> api_state \<Rightarrow> response \<times> api_state" where
  "close_request env b s =
     (if \<not> close_valid b then (BadRequest ''invalid inputs'', s)
      else case (BigInt (cb_sold_shares b), BigInt (cb_limit_price b)) of
        (Some sold, Some price) \<Rightarrow>
          if sold \<le> 0 \<or> price \<le> 0 \<or> price > 1000000
          then (BadRequest ''invalid sold_shares or limit_price (limit_price must be 1..1e6)'', s)
          else let ty = (case cb_order_type b of None \<Rightarrow> CloseFAK | Some t \<Rightarrow> t);
                   e = (case cb_expiration b of None \<Rightarrow> 0 | Some n \<Rightarrow> n);
                   row = \<lparr>cq_nullifier = cb_nullifier b, cq_position_id = cb_position_id b,
                     cq_sold_shares = cb_sold_shares b, cq_limit_price = cb_limit_price b,
                     cq_requested_at = now_sec (se_order env), cq_order_type = close_text ty, cq_expiration = int e\<rparr>;
                   req = \<lparr>cl_nullifier = cb_nullifier b, cl_position_id = cb_position_id b,
                     cl_sold_shares = int sold, cl_limit_price = int price\<rparr>
               in (Done, on_desk (close_submit env ty e req) (s\<lparr>as_closes := as_closes s @ [row]\<rparr>))
      | _ \<Rightarrow> (BadRequest ''sold_shares and limit_price must be integer strings (1e6-scaled)'', s))"

subsection \<open>Cancelling\<close>

text \<open>
  \<open>cc\<close> is what the exchange client sees of a tracked order, \<open>clob\<close> what the closing
  reconcile sees, \<open>rec\<close> and \<open>od\<close> the reads of \<open>reconcileMarketSubmission\<close>.
\<close>

record cancel_env =
  ce_order :: order_env
  ce_cc :: clob_client
  ce_clob :: clob_side
  ce_record :: "(int \<times> int) option"
  ce_getOrder :: "string \<Rightarrow> string + clob_order option"

definition client_or_null :: "order_env \<Rightarrow> bool" where
  "client_or_null env \<longleftrightarrow> getOrCreateClobClient env = Inr True"

definition cancel_desk :: "cancel_env \<Rightarrow> bool \<Rightarrow> string \<Rightarrow> desk \<Rightarrow> string \<times> desk" where
  "cancel_desk env active nf d =
     (let oe = ce_order env in
      if getAttestation nf None (desk_atts d) \<noteq> None then (''already-finalized'', d)
      else if getTrackedOrder nf (dk_tracker d) \<noteq> None then
        (case cancelTrackedOrder (oe_sign oe) (oe_domain oe) nf
                (if client_or_null oe then Some (ce_cc env) else None) (ce_clob env) (dk_tracker d) of
           (Finalized, t) \<Rightarrow> (''finalized'', d\<lparr>dk_tracker := t\<rparr>)
         | (CancelRequested, t) \<Rightarrow> (''cancel-requested'', d\<lparr>dk_tracker := t\<rparr>))
      else if active then (''processing'', d)
      else case getMarketSubmission nf (dk_submissions d) of
        Some sub \<Rightarrow>
          (case reconcileMarketSubmission oe (client_or_null oe) (ce_record env) (ce_getOrder env) nf sub d of
             (R_Finalized, d1) \<Rightarrow> (''finalized'', d1) | (R_Processing, d1) \<Rightarrow> (''processing'', d1))
      | None \<Rightarrow> (''failed'', attestFailedFor oe nf d))"

definition cancel_bet :: "cancel_env \<Rightarrow> string option \<Rightarrow> api_state \<Rightarrow> response \<times> api_state" where
  "cancel_bet env nf s =
     (case nf of
        None \<Rightarrow> (BadRequest ''invalid inputs'', s)
      | Some n \<Rightarrow>
          if \<not> HEX32 n then (BadRequest ''invalid inputs'', s)
          else let active = isActivelySubmitting (oe_now_ms (ce_order env)) n (as_listener s);
                   (out, d) = cancel_desk env active n (ls_desk (as_listener s))
               in (Outcome out, on_desk (\<lambda>_. d) s))"

subsection \<open>Intents, registration, reports\<close>

definition limit_order :: "int \<Rightarrow> string \<Rightarrow> LimitOrderType option \<Rightarrow> nat option \<Rightarrow> api_state \<Rightarrow> response \<times> api_state" where
  "limit_order now nf ty e s =
     (case ty of
        None \<Rightarrow> (BadRequest ''invalid inputs'', s)
      | Some t \<Rightarrow>
          if \<not> HEX32 nf then (BadRequest ''invalid inputs'', s)
          else (Done, s\<lparr>as_limits := recordLimitOrder \<lparr>loi_nullifier = nf, loi_type = t,
                  loi_expiration = (case e of None \<Rightarrow> 0 | Some n \<Rightarrow> int n)\<rparr> now (as_limits s)\<rparr>))"

definition register_market :: "(string \<Rightarrow> GammaMarket list option) \<Rightarrow> int \<Rightarrow> string option \<Rightarrow> api_state \<Rightarrow> response \<times> api_state" where
  "register_market fetch now cid s =
     (case cid of
        None \<Rightarrow> (BadRequest ''invalid inputs'', s)
      | Some c \<Rightarrow>
          if \<not> HEX32 c then (BadRequest ''invalid inputs'', s)
          else (case syncOneMarket c fetch now (as_registry s) of
                  (Inl e, reg) \<Rightarrow> (BadGateway, s\<lparr>as_registry := reg\<rparr>)
                | (Inr ok, reg) \<Rightarrow> (Registered ok, s\<lparr>as_registry := reg\<rparr>)))"

text \<open>\<open>GET /attestation/:nullifier\<close>: the query's report type, \<open>Inl\<close> where it is no integer from 1 to 4.\<close>

definition get_attestation :: "string \<Rightarrow> (unit + ReportType) option \<Rightarrow> api_state \<Rightarrow> response" where
  "get_attestation nf rt s =
     (if \<not> HEX32 nf then BadRequest ''invalid nullifier''
      else case rt of
        Some (Inl _) \<Rightarrow> BadRequest ''reportType must be an integer 1..4''
      | _ \<Rightarrow>
          (case getAttestation nf (case rt of Some (Inr r) \<Rightarrow> Some r | _ \<Rightarrow> None) (desk_atts (ls_desk (as_listener s))) of
             None \<Rightarrow> NotFound
           | Some a \<Rightarrow> Attested a))"

subsection \<open>Lemmas\<close>

lemma attestFailedFor_stores:
  assumes "oe_domain env" and "getAttestation nf None (desk_atts d) = None"
    and "oe_sign env \<lparr>in_nullifier = nf, in_type = FAILED, in_amount_a = 0, in_amount_b = 0\<rparr> = Inr sig"
  shows "map_of (desk_atts (attestFailedFor env nf d)) (nf, FAILED) \<noteq> None"
proof -
  have "\<forall>r. isBetOutcome r \<longrightarrow> map_of (desk_atts d) (nf, r) = None"
    using assms(2) by (simp add: getAttestation_def find_outcome_iff)
  then show ?thesis
    using assms by (simp add: attestFailedFor_def attest_def signAndStoreAttestation_def existing_row_def
        store_signed_def getAttestation_def map_of_insert_ignore isBetOutcome_def Let_def)
qed

lemma on_desk_desk [simp]: "ls_desk (as_listener (on_desk f s)) = f (ls_desk (as_listener s))"
  by (simp add: on_desk_def)

lemma cancel_bet_desk:
  "HEX32 nf \<Longrightarrow> ls_desk (as_listener (snd (cancel_bet env (Some nf) s))) =
     snd (cancel_desk env (isActivelySubmitting (oe_now_ms (ce_order env)) nf (as_listener s)) nf
       (ls_desk (as_listener s)))"
  by (simp add: cancel_bet_def case_prod_beta Let_def)

lemma reconcile_failed_row:
  assumes "map_of (desk_atts d) k = None"
    and "map_of (desk_atts (snd (reconcileMarketSubmission env client rec od nf sub d))) k = Some row"
    and "snd k = FAILED"
  shows "k = (nf, FAILED) \<and>
    (ms_order_id sub = None \<and> now_sec env - ms_submitted_at sub > STALE_SUBMISSION_SEC \<or>
     (\<exists>oid x. ms_order_id sub = Some oid \<and> od oid = Inr (Some x) \<and> co_status x \<noteq> '''' \<and>
        \<not> live_status (upper (co_status x)) \<and> math_round (co_size_matched x * 1000000) \<le> 0))"
proof (cases "ms_order_id sub")
  case None
  then show ?thesis
    using assms attest_new_row [of d k env nf FAILED 0 0 row]
    by (auto simp: reconcileMarketSubmission_def attestFailedFor_def split: if_splits)
next
  case (Some oid)
  then obtain e st x where x: "client" "rec = Some (e, st)" "od oid = Inr (Some x)" "upper (co_status x) \<noteq> ''''"
    "\<not> live_status (upper (co_status x))"
    using assms by (auto simp: reconcileMarketSubmission_def Let_def split: if_splits option.splits sum.splits prod.splits)
  let ?b = "\<lparr>tb_nullifier = nf, tb_expected_shares = e, tb_bet_amount = st, tb_side = BUY\<rparr>"
  let ?f = "math_round (co_size_matched x * 1000000)"
  let ?s = "math_round (co_size_matched x * co_price x * 1000000)"
  have "map_of (desk_atts (attest_terminal env ?b ?f ?s d)) k = Some row"
    using assms Some x by (auto simp: reconcileMarketSubmission_def Let_def split: if_splits)
  then obtain i sig where i: "terminal_input ?b ?f ?s = Some i" "k = (in_nullifier i, in_type i)"
    using attest_terminal_new_row [OF assms(1)] by blast
  have "in_nullifier i = nf \<and> (in_type i = FAILED \<longleftrightarrow> ?f \<le> 0)" using terminal_buy [OF _ i(1)] by simp
  moreover have "co_status x \<noteq> ''''" using x(4) by (auto simp: upper_def)
  ultimately show ?thesis using i(2) assms(3) Some x by simp
qed

subsection \<open>Claims\<close>

lemma cancel_failure_cases:
  assumes before: "map_of (desk_atts (ls_desk (as_listener s))) (k, FAILED) = None"
    and after: "map_of (desk_atts (ls_desk (as_listener (snd (cancel_bet env (Some nf) s))))) (k, FAILED) = Some row"
  shows "HEX32 nf \<and> getAttestation nf None (desk_atts (ls_desk (as_listener s))) = None \<and>
    (getTrackedOrder nf (dk_tracker (ls_desk (as_listener s))) \<noteq> None \<or>
     k = nf \<and> \<not> isActivelySubmitting (oe_now_ms (ce_order env)) nf (as_listener s) \<and>
     (case getMarketSubmission nf (dk_submissions (ls_desk (as_listener s))) of
        None \<Rightarrow> True
      | Some sub \<Rightarrow>
          ms_order_id sub = None \<and> now_sec (ce_order env) - ms_submitted_at sub > STALE_SUBMISSION_SEC \<or>
          (\<exists>oid x. ms_order_id sub = Some oid \<and> ce_getOrder env oid = Inr (Some x) \<and> co_status x \<noteq> '''' \<and>
             \<not> live_status (upper (co_status x)) \<and> math_round (co_size_matched x * 1000000) \<le> 0)))"
proof -
  let ?d = "ls_desk (as_listener s)"
  let ?act = "isActivelySubmitting (oe_now_ms (ce_order env)) nf (as_listener s)"
  have hex: "HEX32 nf" using before after by (auto simp: cancel_bet_def split: if_splits)
  define d' where "d' = snd (cancel_desk env ?act nf ?d)"
  have row: "map_of (desk_atts d') (k, FAILED) = Some row"
    using after by (simp add: cancel_bet_desk [OF hex] d'_def)
  have new: "d' \<noteq> ?d" using row before by auto
  have none: "getAttestation nf None (desk_atts ?d) = None"
    using new by (cases "getAttestation nf None (desk_atts ?d)") (simp_all add: d'_def cancel_desk_def Let_def)
  show ?thesis
  proof (cases "getTrackedOrder nf (dk_tracker ?d)")
    case (Some ord)
    then show ?thesis using hex none by simp
  next
    case untracked: None
    have act: "\<not> ?act" using new none untracked by (cases ?act) (simp_all add: d'_def cancel_desk_def Let_def)
    show ?thesis
    proof (cases "getMarketSubmission nf (dk_submissions ?d)")
      case None
      then have "d' = attestFailedFor (ce_order env) nf ?d"
        using none untracked act by (simp add: d'_def cancel_desk_def Let_def)
      then have "k = nf" using attest_new_row [OF before, of "ce_order env" nf FAILED 0 0 row] row
        by (simp add: attestFailedFor_def)
      then show ?thesis using None hex none act by simp
    next
      case (Some sub)
      then have "d' = snd (reconcileMarketSubmission (ce_order env) (client_or_null (ce_order env)) (ce_record env)
          (ce_getOrder env) nf sub ?d)"
        using none untracked act
        by (simp add: d'_def cancel_desk_def Let_def split: prod.split reconcile_answer.split)
      then show ?thesis
        using reconcile_failed_row [OF before, of "ce_order env" "client_or_null (ce_order env)" "ce_record env"
            "ce_getOrder env" nf sub row] row Some hex none act by auto
    qed
  qed
qed

definition demo_nf :: string where "demo_nf = ''0x'' @ replicate 64 (CHR ''a'')"

definition demo_cancel :: cancel_env where
  "demo_cancel = \<lparr>ce_order = demo_env, ce_cc = \<lparr>cc_get_order = None, cc_trades = None\<rparr>,
     ce_clob = ProdClob None, ce_record = None, ce_getOrder = (\<lambda>x. Inl ''down'')\<rparr>"

definition demo_api :: api_state where
  "demo_api = \<lparr>as_claims = [], as_closes = [], as_limits = [], as_registry = [],
     as_listener = \<lparr>ls_inFlight = [], ls_file = None, ls_scanning = False, ls_tracked = [], ls_desk = demo_desk\<rparr>,
     as_settler = demo_settler\<rparr>"

lemma demo_nf_hex: "HEX32 demo_nf"
  by (simp add: HEX32_def hex_id_def demo_nf_def hex_val_def numeral_eq_Suc)

text \<open>A cancel of a bet the desk knows nothing of.\<close>

lemma cancel_unknown_fails:
  assumes "HEX32 nf" and "d = ls_desk (as_listener s)" and "getAttestation nf None (desk_atts d) = None"
    and "getTrackedOrder nf (dk_tracker d) = None" and "getMarketSubmission nf (dk_submissions d) = None"
    and "\<not> isActivelySubmitting (oe_now_ms (ce_order env)) nf (as_listener s)" and "oe_domain (ce_order env)"
    and "oe_sign (ce_order env) \<lparr>in_nullifier = nf, in_type = FAILED, in_amount_a = 0, in_amount_b = 0\<rparr> = Inr sig"
  shows "fst (cancel_bet env (Some nf) s) = Outcome ''failed'' \<and>
    map_of (desk_atts (ls_desk (as_listener (snd (cancel_bet env (Some nf) s))))) (nf, FAILED) \<noteq> None"
  using assms attestFailedFor_stores [OF assms(7) assms(3) assms(8)]
  by (simp add: cancel_bet_def cancel_desk_def Let_def)

text \<open>
  C15: The cancel route adds a FAILED report, which lets the depositor reclaim the
  stake, only in these cases: an order of the bet is tracked (then the cancel path
  decides), or the reported bet is the requested one, no submission of it was
  begun in the last two minutes, and either no market order was ever marked, or the marked one has no id
  and is more than 300 s old, or the exchange answers that it is off the book with
  a matched size that rounds to nothing.  A bet that has an outcome report already
  gets no other.
\<close>

theorem cancel_bet_failure_justified:
  assumes before: "map_of (desk_atts (ls_desk (as_listener s))) (k, FAILED) = None"
    and after: "map_of (desk_atts (ls_desk (as_listener (snd (cancel_bet env (Some nf) s))))) (k, FAILED) = Some row"
  shows "HEX32 nf \<and> getAttestation nf None (desk_atts (ls_desk (as_listener s))) = None \<and>
    (getTrackedOrder nf (dk_tracker (ls_desk (as_listener s))) \<noteq> None \<or>
     k = nf \<and> \<not> (\<exists>t. map_of (ls_inFlight (as_listener s)) nf = Some t \<and> oe_now_ms (ce_order env) < t + 120000) \<and>
     (case map_of (dk_submissions (ls_desk (as_listener s))) nf of
        None \<Rightarrow> True
      | Some sub \<Rightarrow>
          ms_order_id sub = None \<and> oe_now_ms (ce_order env) div 1000 - ms_submitted_at sub > 300 \<or>
          (\<exists>oid x. ms_order_id sub = Some oid \<and> ce_getOrder env oid = Inr (Some x) \<and> co_status x \<noteq> '''' \<and>
             upper (co_status x) \<notin> {''LIVE'', ''DELAYED'', ''OPEN''} \<and> math_round (co_size_matched x * 1000000) \<le> 0)))"
proof -
  have active: "isActivelySubmitting now nf l \<longleftrightarrow> (\<exists>t. map_of (ls_inFlight l) nf = Some t \<and> now < t + 120000)" for now l
    by (auto simp: isActivelySubmitting_def ACTIVE_SUBMIT_WINDOW_MS_def split: option.splits)
  have live: "live_status st \<longleftrightarrow> st \<in> {''LIVE'', ''DELAYED'', ''OPEN''}" for st by (simp add: live_status_def)
  show ?thesis
    using cancel_failure_cases [OF assms]
    unfolding active live getMarketSubmission_def now_sec_def STALE_SUBMISSION_SEC_def .
qed

theorem cancel_bet_failure_justified_witness:
  "HEX32 demo_nf \<and> getMarketSubmission demo_nf (dk_submissions (ls_desk (as_listener demo_api))) = None \<and>
   \<not> (\<exists>t. map_of (ls_inFlight (as_listener demo_api)) demo_nf = Some t \<and> 1000000 < t + 120000)"
proof -
  have d: "ls_desk (as_listener demo_api) = demo_desk" by (simp add: demo_api_def)
  have none: "map_of (desk_atts (ls_desk (as_listener demo_api))) (demo_nf, FAILED) = None"
    by (simp add: d demo_desk_def desk_atts_def)
  have t: "getTrackedOrder demo_nf (dk_tracker (ls_desk (as_listener demo_api))) = None"
    by (simp add: d demo_desk_def getTrackedOrder_def)
  have m: "getMarketSubmission demo_nf (dk_submissions (ls_desk (as_listener demo_api))) = None"
    by (simp add: d demo_desk_def getMarketSubmission_def)
  have "map_of (desk_atts (ls_desk (as_listener (snd (cancel_bet demo_cancel (Some demo_nf) demo_api)))))
      (demo_nf, FAILED) \<noteq> None"
    by (rule conjunct2 [OF cancel_unknown_fails [OF demo_nf_hex refl _ t m, of demo_cancel "''sig''"]])
      (simp_all add: d demo_desk_def demo_cancel_def demo_env_def demo_api_def desk_atts_def getAttestation_def
        readOutcomeRow_def isActivelySubmitting_def)
  then obtain row where "map_of (desk_atts (ls_desk (as_listener
      (snd (cancel_bet demo_cancel (Some demo_nf) demo_api))))) (demo_nf, FAILED) = Some row" by blast
  from cancel_bet_failure_justified [OF none this] t m show ?thesis
    by (simp add: demo_cancel_def demo_env_def)
qed

text \<open>
  A resting order the exchange accepted as live, in a reply without an order
  id the code can read, is kept nowhere: it is not tracked and has no marker.  A
  later cancel by the depositor then answers "failed" and signs the FAILED report
  although the order is on the book and can still fill.  The comment of
  \<open>submitLimitOrder\<close> says that cancel and reconcile recover such an order.
\<close>

lemma accepted_order_reclaimable:
  assumes prod: "\<not> is_mock oe" and run: "\<not> desk_isHalted d" "oe_funded oe (be_bet_amount ev)" "oe_client oe = None"
    and reply: "\<And>p. oe_prod_post oe p = Inr r" "reply_status r = ''live''" "order_id r = None"
    and fresh: "getAttestation (be_nullifier ev) None (desk_atts d) = None"
      "getTrackedOrder (be_nullifier ev) (dk_tracker d) = None"
      "getMarketSubmission (be_nullifier ev) (dk_submissions d) = None"
    and hex: "HEX32 (be_nullifier ev)"
    and later: "ls_desk (as_listener s) = submitLimitOrder oe ev params d"
      "\<not> isActivelySubmitting (oe_now_ms (ce_order env)) (be_nullifier ev) (as_listener s)"
    and sign: "oe_domain (ce_order env)" "oe_sign (ce_order env)
      \<lparr>in_nullifier = be_nullifier ev, in_type = FAILED, in_amount_a = 0, in_amount_b = 0\<rparr> = Inr sig"
  shows "(\<exists>p. dk_sent (submitLimitOrder oe ev params d) = dk_sent d @ [Prod p]) \<and>
    fst (cancel_bet env (Some (be_nullifier ev)) s) = Outcome ''failed'' \<and>
    map_of (desk_atts (ls_desk (as_listener (snd (cancel_bet env (Some (be_nullifier ev)) s)))))
      (be_nullifier ev, FAILED) \<noteq> None"
proof -
  let ?x = "effective_expiration oe params" and ?ty = "post_of (lp_orderType params)"
  let ?p = "prod_buy ev (budgetedBuyOrder oe ev) ?ty ?x"
  let ?d1 = "sent (Prod ?p) d"
  let ?d2 = "?d1\<lparr>dk_resting := markResting (be_nullifier ev) (now_sec oe) (dk_resting ?d1)\<rparr>"
  have "place_buy oe ev ?ty ?x d = (Inr (Some (r, Some (budgetedBuyOrder oe ev))), ?d1)"
    using prod run reply(1) by (simp add: place_buy_def getOrCreateClobClient_def Let_def)
  then have eq: "submitLimitOrder oe ev params d = ?d2"
    using run reply(2,3) by (simp add: submitLimitOrder_def Let_def accepted_status_def)
  have same: "desk_atts ?d2 = desk_atts d" "dk_tracker ?d2 = dk_tracker d" "dk_submissions ?d2 = dk_submissions d"
    "dk_sent ?d2 = dk_sent d @ [Prod ?p]"
    by (simp_all add: sent_def)
  have "fst (cancel_bet env (Some (be_nullifier ev)) s) = Outcome ''failed'' \<and>
    map_of (desk_atts (ls_desk (as_listener (snd (cancel_bet env (Some (be_nullifier ev)) s)))))
      (be_nullifier ev, FAILED) \<noteq> None"
    by (rule cancel_unknown_fails [OF hex refl _ _ _ later(2) sign]) (use later(1) eq same fresh in simp_all)
  then show ?thesis using eq same(4) by auto
qed

definition demo_live :: clob_reply where
  "demo_live = demo_reply\<lparr>rp_status := Some ''live''\<rparr>"

definition demo_live_env :: order_env where
  "demo_live_env = demo_env\<lparr>oe_prod_post := (\<lambda>p. Inr demo_live)\<rparr>"

definition demo_limit_bet :: BetAuthorizedEvent where
  "demo_limit_bet = demo_bet\<lparr>be_nullifier := demo_nf\<rparr>"

definition demo_after :: api_state where
  "demo_after = on_desk (submitLimitOrder demo_live_env demo_limit_bet \<lparr>lp_orderType = GTC, lp_expiration = 0\<rparr>) demo_api"

lemma accepted_order_reclaimable_witness:
  "reply_status demo_live = ''live'' \<and>
   fst (cancel_bet demo_cancel (Some demo_nf) demo_after) = Outcome ''failed''"
proof -
  have st: "reply_status demo_live = ''live''" unfolding demo_live_def demo_reply_def reply_status_def by code_simp
  have oid: "order_id demo_live = None" unfolding demo_live_def demo_reply_def by code_simp
  have mock: "\<not> is_mock demo_live_env" using demo_host by (simp add: is_mock_def demo_live_env_def)
  have nf: "be_nullifier demo_limit_bet = demo_nf" by (simp add: demo_limit_bet_def)
  have "fst (cancel_bet demo_cancel (Some (be_nullifier demo_limit_bet)) demo_after) = Outcome ''failed''"
    by (rule conjunct1 [OF conjunct2 [OF accepted_order_reclaimable [OF mock _ _ _ _ st oid,
          of demo_desk demo_limit_bet demo_after "\<lparr>lp_orderType = GTC, lp_expiration = 0\<rparr>" demo_cancel "''sig''"]]])
      (simp_all add: nf demo_nf_hex demo_after_def demo_api_def demo_live_env_def demo_env_def demo_cancel_def demo_desk_def
        desk_isHalted_def getAttestation_def desk_atts_def readOutcomeRow_def getTrackedOrder_def getMarketSubmission_def
        isActivelySubmitting_def on_desk_def)
  then show ?thesis using st nf by simp
qed

text \<open>
  The same for a fill-and-kill order whose reply was lost: it keeps a marker
  without an id, and 300 s later the reconcile signs FAILED, whatever was filled.
\<close>

lemma lost_reply_marker:
  assumes "\<not> is_mock oe" "\<not> desk_isHalted d" "oe_funded oe (be_bet_amount ev)" "oe_client oe = None"
    and "\<And>p. oe_prod_post oe p = Inl e" and "getMarketSubmission (be_nullifier ev) (dk_submissions d) = None"
  shows "(\<exists>p. dk_sent (submitFAKOrder oe ev d) = dk_sent d @ [Prod p]) \<and>
    getMarketSubmission (be_nullifier ev) (dk_submissions (submitFAKOrder oe ev d)) =
      Some \<lparr>ms_condition = be_market_id ev, ms_order_id = None, ms_submitted_at = now_sec oe\<rparr> \<and>
    desk_atts (submitFAKOrder oe ev d) = desk_atts d"
  using assms
  by (auto simp: submitFAKOrder_def place_buy_def getOrCreateClobClient_def Let_def sent_def mark_submitting_def
      getMarketSubmission_mark)

lemma lost_reply_reclaimed:
  assumes "ms_order_id sub = None" and "now_sec env - ms_submitted_at sub > STALE_SUBMISSION_SEC"
    and "getAttestation nf None (desk_atts d) = None" and "oe_domain env"
    and "oe_sign env \<lparr>in_nullifier = nf, in_type = FAILED, in_amount_a = 0, in_amount_b = 0\<rparr> = Inr sig"
  shows "map_of (desk_atts (snd (reconcileMarketSubmission env client rec od nf sub d))) (nf, FAILED) \<noteq> None"
  using assms attestFailedFor_stores [OF assms(4) assms(3) assms(5)] by (simp add: reconcileMarketSubmission_def)

end
