(* ===== verification/Pricing.thy ===== *)
theory Pricing
  imports Prelude
begin

section \<open>Prices and order previews of the frontend\<close>

text \<open>
  \<open>frontend/src/lib/pricing.ts\<close> and \<open>positionPricing.ts\<close>: snapping a price to the
  tick of its market, the ceiling of a market buy from the order book, the preview of
  an order, and the value of a held position.  Prices are exact rationals; amounts and
  shares are \<open>bigint\<close> values in units of one millionth.
\<close>

subsection \<open>Ticks\<close>

definition DEFAULT_TICK :: rat where "DEFAULT_TICK = 1 / 1000"

definition safeTick :: "rat option \<Rightarrow> rat" where
  "safeTick tick = (case tick of Some t \<Rightarrow> if t > 0 then t else DEFAULT_TICK | None \<Rightarrow> DEFAULT_TICK)"

text \<open>\<open>Number(p.toFixed(6))\<close>.\<close>

definition clean :: "rat \<Rightarrow> rat" where
  "clean p = of_int (math_round (p * 1000000)) / 1000000"

definition ceilToTick :: "rat \<Rightarrow> rat option \<Rightarrow> rat" where
  "ceilToTick price tick = (let t = safeTick tick in clean (of_int \<lceil>price / t - 1 / 1000000000\<rceil> * t))"

definition roundToTick :: "rat \<Rightarrow> rat option \<Rightarrow> rat" where
  "roundToTick price tick = (let t = safeTick tick in clean (of_int (math_round (price / t)) * t))"

subsection \<open>The ceiling of a market buy\<close>

definition pad_and_snap :: "rat \<Rightarrow> rat \<Rightarrow> rat \<Rightarrow> rat" where
  "pad_and_snap t bps p =
     (let snapped = ceilToTick (p * (1 + bps / 10000)) (Some t) in clean (min (1 - t) (max t snapped)))"

definition marketBuyCeiling :: "rat \<Rightarrow> rat option \<Rightarrow> rat \<Rightarrow> rat" where
  "marketBuyCeiling ask tick bps =
     (let t = safeTick tick in pad_and_snap t bps (if ask > 0 then ask else 1 / 2))"

record BookLevel =
  bk_price :: rat
  bk_size :: rat

definition usable_levels :: "BookLevel list \<Rightarrow> BookLevel list" where
  "usable_levels ls = sort_key bk_price (filter (\<lambda>l. bk_price l > 0 \<and> bk_size l > 0) ls)"

text \<open>The walk: the price of the last level touched; \<open>c\<close> is the price so far.\<close>

fun walk_book :: "rat \<Rightarrow> rat \<Rightarrow> rat \<Rightarrow> BookLevel list \<Rightarrow> rat" where
  "walk_book notional cost c [] = c"
| "walk_book notional cost c (l # ls) =
     (let cost' = cost + bk_price l * bk_size l
      in if cost' \<ge> notional then bk_price l else walk_book notional cost' (bk_price l) ls)"

definition marketBuyCeilingFromBook :: "BookLevel list \<Rightarrow> rat \<Rightarrow> rat option \<Rightarrow> rat option \<Rightarrow> rat \<Rightarrow> rat" where
  "marketBuyCeilingFromBook levels notional tick fallbackAsk bps =
     (let t = safeTick tick in
      case usable_levels levels of
        [] \<Rightarrow> marketBuyCeiling (case fallbackAsk of Some a \<Rightarrow> a | None \<Rightarrow> 1 / 2) (Some t) bps
      | l # ls \<Rightarrow> pad_and_snap t bps
          (if notional > 0 then walk_book notional 0 (bk_price l) (l # ls) else bk_price l))"

subsection \<open>The preview of an order\<close>

definition POLY_MIN_ORDER_USDC :: int where "POLY_MIN_ORDER_USDC = 1000000"
definition ORDER_FEE_HEADROOM_BPS :: int where "ORDER_FEE_HEADROOM_BPS = 2000"
definition POLY_MIN_ORDER_BET :: int where
  "POLY_MIN_ORDER_BET = big_div (POLY_MIN_ORDER_USDC * 10000) (10000 - ORDER_FEE_HEADROOM_BPS)"
definition MIN_SHARES :: int where "MIN_SHARES = 5000000"

record OrderPreviewInput =
  oi_amount :: int
  oi_price :: rat
  oi_protocolFeeBps :: int
  oi_relayGas :: int
  oi_takerFeeBps :: int
  oi_minBet :: int

record OrderPreview =
  op_shares :: int
  op_sharesAfterTakerFee :: int
  op_protocolFee :: int
  op_relayFee :: int
  op_totalFee :: int
  op_totalDeducted :: int
  op_belowMin :: bool
  op_effectiveMinBet :: int
  op_belowMinShares :: bool

text \<open>A positive price that rounds to 0 at eight decimals makes the division throw.\<close>

definition computeOrderPreview :: "OrderPreviewInput \<Rightarrow> string + OrderPreview" where
  "computeOrderPreview i =
     (let effMin = (if oi_minBet i > POLY_MIN_ORDER_BET then oi_minBet i else POLY_MIN_ORDER_BET);
          positive = (oi_amount i > 0);
          price8 = math_round (oi_price i * 100000000);
          priced = (positive \<and> oi_price i > 0)
      in if priced \<and> price8 = 0 then Inl ''RangeError: Division by zero''
         else
           let shares = (if priced then big_div (oi_amount i * 100000000) price8 else 0);
               protocolFee = (if positive then big_div (oi_amount i * oi_protocolFeeBps i) 10000 else 0);
               relayFee = (if positive then oi_relayGas i else 0)
           in Inr \<lparr>op_shares = shares, op_sharesAfterTakerFee = big_div (shares * (10000 - oi_takerFeeBps i)) 10000,
                op_protocolFee = protocolFee, op_relayFee = relayFee, op_totalFee = protocolFee + relayFee,
                op_totalDeducted = oi_amount i + (protocolFee + relayFee),
                op_belowMin = (positive \<and> oi_amount i < effMin), op_effectiveMinBet = effMin,
                op_belowMinShares = (shares > 0 \<and> shares < MIN_SHARES)\<rparr>)"

subsection \<open>The value of a position\<close>

record PositionPricing =
  pp_shares :: rat
  pp_stake :: rat
  pp_entryPrice :: "rat option"
  pp_markPrice :: "rat option"
  pp_value :: "rat option"
  pp_pnl :: "rat option"
  pp_pnlPct :: "rat option"

definition positionValue :: "int \<Rightarrow> int \<Rightarrow> bool \<Rightarrow> rat option \<Rightarrow> bool \<Rightarrow> rat option \<Rightarrow> PositionPricing" where
  "positionValue stakeMicro sharesMicro yes yesMid resolved payout =
     (let shares = of_int sharesMicro / 1000000; stake = of_int stakeMicro / 1000000;
          mark = (if resolved then payout
                  else map_option (\<lambda>m. let y = min 1 (max 0 m) in if yes then y else 1 - y) yesMid);
          value = map_option (\<lambda>m. shares * m) mark;
          pnl = map_option (\<lambda>v. v - stake) value
      in \<lparr>pp_shares = shares, pp_stake = stake, pp_entryPrice = (if shares > 0 then Some (stake / shares) else None),
          pp_markPrice = mark, pp_value = value, pp_pnl = pnl,
          pp_pnlPct = (if stake \<le> 0 then None else map_option (\<lambda>p. p / stake) pnl)\<rparr>)"

subsection \<open>The ceiling bounds the sweep\<close>

text \<open>The levels an order of a notional takes, and the shares it gets from them.\<close>

fun swept :: "rat \<Rightarrow> rat \<Rightarrow> BookLevel list \<Rightarrow> BookLevel list" where
  "swept notional cost [] = []"
| "swept notional cost (l # ls) =
     (let cost' = cost + bk_price l * bk_size l in l # (if cost' \<ge> notional then [] else swept notional cost' ls))"

fun sweep_shares :: "rat \<Rightarrow> BookLevel list \<Rightarrow> rat" where
  "sweep_shares notional [] = 0"
| "sweep_shares notional (l # ls) =
     (if notional \<le> bk_price l * bk_size l then notional / bk_price l
      else bk_size l + sweep_shares (notional - bk_price l * bk_size l) ls)"

definition book_value :: "BookLevel list \<Rightarrow> rat" where
  "book_value ls = sum_list (map (\<lambda>l. bk_price l * bk_size l) ls)"

lemma clean_exact: "x * 1000000 = of_int n \<Longrightarrow> clean x = x"
  by (simp add: clean_def)

lemma ceilToTick_eq:
  assumes "t * 1000000 = of_int k" and "0 < t"
  shows "ceilToTick p (Some t) = of_int \<lceil>p / t - 1 / 1000000000\<rceil> * t"
proof -
  have "of_int \<lceil>p / t - 1 / 1000000000\<rceil> * t * 1000000 = of_int (\<lceil>p / t - 1 / 1000000000\<rceil> * k)"
    using assms by simp
  from clean_exact [OF this] show ?thesis using assms(2) by (simp add: ceilToTick_def safeTick_def Let_def)
qed

lemma ceilToTick_ge:
  assumes "t * 1000000 = of_int k" and "0 < t"
  shows "p - t / 1000000000 \<le> ceilToTick p (Some t)"
proof -
  have "(p / t - 1 / 1000000000) * t \<le> of_int \<lceil>p / t - 1 / 1000000000\<rceil> * t"
    using assms(2) by (intro mult_right_mono) simp_all
  then show ?thesis using assms(2) by (simp add: ceilToTick_eq [OF assms] left_diff_distrib)
qed

text \<open>Padding by at least a basis point outweighs the tolerance of the rounding.\<close>

lemma pad_and_snap_bounds:
  assumes t: "t * 1000000 = of_int k" "0 < t" and p: "t \<le> p" "p \<le> 1 - t" and bps: "1 \<le> bps"
  shows "p \<le> pad_and_snap t bps p" and "pad_and_snap t bps p \<le> 1 - t"
proof -
  define c where "c = ceilToTick (p * (1 + bps / 10000)) (Some t)"
  have "p * 1 \<le> p * bps" using p t bps by (intro mult_left_mono) simp_all
  then have "p + p / 10000 \<le> p * (1 + bps / 10000)" by (simp add: distrib_left)
  moreover have "t / 1000000000 \<le> p / 10000" using p t by simp
  ultimately have pc: "p \<le> c" using ceilToTick_ge [OF t, of "p * (1 + bps / 10000)"] unfolding c_def by linarith
  have "c * 1000000 = of_int (\<lceil>p * (1 + bps / 10000) / t - 1 / 1000000000\<rceil> * k)"
    using t by (simp add: c_def ceilToTick_eq [OF t])
  then have cl: "clean c = c" by (rule clean_exact)
  have "(1 - t) * 1000000 = of_int (1000000 - k)" using t(1) by (simp add: left_diff_distrib)
  then have cu: "clean (1 - t) = 1 - t" by (rule clean_exact)
  have "clean (min (1 - t) (max t c)) = min (1 - t) (max t c)"
    using cl cu clean_exact [OF t(1)] by (simp add: min_def max_def)
  then have eq: "pad_and_snap t bps p = min (1 - t) (max t c)" by (simp add: pad_and_snap_def c_def Let_def)
  show "p \<le> pad_and_snap t bps p" using p pc by (simp add: eq)
  show "pad_and_snap t bps p \<le> 1 - t" by (simp add: eq)
qed

lemma walk_book_max:
  assumes "sorted (map bk_price ls)" and "l \<in> set (swept notional cost ls)"
  shows "bk_price l \<le> walk_book notional cost c ls"
  using assms
proof (induction ls arbitrary: cost c)
  case (Cons m ls)
  have first: "bk_price m \<le> walk_book notional cost' (bk_price m) ls" for cost'
    using Cons.prems(1)
  proof (induction ls arbitrary: cost' m)
    case (Cons q qs)
    have "bk_price m \<le> bk_price q" "sorted (map bk_price (q # qs))" using Cons.prems by auto
    with Cons.IH [of q "cost' + bk_price q * bk_size q"] show ?case by (simp add: Let_def)
  qed simp
  show ?case using Cons.prems Cons.IH [of "cost + bk_price m * bk_size m" "bk_price m"] first
    by (auto simp: Let_def split: if_splits)
qed simp

lemma walk_book_mem: "c \<in> P \<Longrightarrow> \<forall>l \<in> set ls. bk_price l \<in> P \<Longrightarrow> walk_book notional cost c ls \<in> P"
  by (induction ls arbitrary: cost c) (auto simp: Let_def)

lemma usable_levels_facts:
  "sorted (map bk_price (usable_levels ls))" "l \<in> set (usable_levels ls) \<Longrightarrow> 0 < bk_price l \<and> 0 < bk_size l"
  by (auto simp: usable_levels_def)

lemma sweep_shares_ge:
  assumes "\<forall>l \<in> set (swept notional cost ls). bk_price l \<le> c" and "\<forall>l \<in> set ls. 0 < bk_price l \<and> 0 < bk_size l"
    and "0 < c" and "cost < notional" and "notional - cost \<le> book_value ls"
  shows "notional - cost \<le> sweep_shares (notional - cost) ls * c"
  using assms
proof (induction ls arbitrary: cost)
  case (Cons l ls)
  let ?v = "bk_price l * bk_size l"
  have pl: "0 < bk_price l" "0 < bk_size l" "bk_price l \<le> c" using Cons.prems(1,2) by (auto simp: Let_def)
  show ?case
  proof (cases "notional \<le> cost + ?v")
    case True
    have "(notional - cost) * 1 \<le> (notional - cost) * (c / bk_price l)"
      using Cons.prems(4) pl by (intro mult_left_mono) (simp_all add: pos_le_divide_eq)
    then show ?thesis using True by (simp add: algebra_simps)
  next
    case False
    have "?v \<le> bk_size l * c" using pl by (simp add: mult.commute)
    moreover have "notional - (cost + ?v) \<le> sweep_shares (notional - (cost + ?v)) ls * c"
      by (rule Cons.IH) (use Cons.prems False in \<open>auto simp: Let_def book_value_def\<close>)
    ultimately show ?thesis using False by (simp add: distrib_right diff_diff_eq)
  qed
qed (simp add: book_value_def)

lemma swept_subset: "set (swept notional cost ls) \<subseteq> set ls"
  by (induction ls arbitrary: cost) (auto simp: Let_def split: if_splits)

text \<open>
  The price a market buy commits to bounds every level it sweeps.  With a tick of
  whole micro-units, a ladder inside the price band and at least one basis point of
  padding, the ceiling is inside the band, no level taken for the notional is dearer,
  and where the ladder covers the notional the order gets at least the committed
  shares (the notional divided by the ceiling), so the pool is never over-credited.
\<close>
lemma ceiling_bounds_sweep:
  assumes "t * 1000000 = of_int k" and "0 < t" and "1 \<le> bps" and "0 < notional"
    and "usable_levels levels \<noteq> []" and "\<forall>l \<in> set (usable_levels levels). t \<le> bk_price l \<and> bk_price l \<le> 1 - t"
  shows "(\<forall>l \<in> set (swept notional 0 (usable_levels levels)).
      bk_price l \<le> marketBuyCeilingFromBook levels notional (Some t) fallback bps) \<and>
    marketBuyCeilingFromBook levels notional (Some t) fallback bps \<le> 1 - t \<and>
    (notional \<le> book_value (usable_levels levels) \<longrightarrow>
      notional / marketBuyCeilingFromBook levels notional (Some t) fallback bps
        \<le> sweep_shares notional (usable_levels levels))"
proof -
  obtain m ls where ls: "usable_levels levels = m # ls" using assms(5) by (cases "usable_levels levels") auto
  let ?w = "walk_book notional 0 (bk_price m) (m # ls)" and ?c = "marketBuyCeilingFromBook levels notional (Some t) fallback bps"
  have c: "?c = pad_and_snap t bps ?w"
    using assms(2,4) ls by (simp add: marketBuyCeilingFromBook_def safeTick_def Let_def)
  have "?w \<in> {t..1 - t}" by (rule walk_book_mem) (use assms(6) ls in auto)
  then have wc: "?w \<le> ?c" "?c \<le> 1 - t" and tc: "t \<le> ?w"
    using pad_and_snap_bounds [OF assms(1,2) _ _ assms(3), of ?w] c by auto
  have le: "\<forall>l \<in> set (swept notional 0 (usable_levels levels)). bk_price l \<le> ?c"
  proof
    fix l assume "l \<in> set (swept notional 0 (usable_levels levels))"
    from walk_book_max [OF usable_levels_facts(1) this, of "bk_price m"] show "bk_price l \<le> ?c"
      using wc unfolding ls by linarith
  qed
  have cp: "0 < ?c" using wc tc assms(2) by linarith
  have "notional / ?c \<le> sweep_shares notional (usable_levels levels)" if "notional \<le> book_value (usable_levels levels)"
    using sweep_shares_ge [OF le _ cp assms(4)] that usable_levels_facts(2) cp by (simp add: pos_divide_le_eq)
  with le wc(2) show ?thesis by blast
qed

lemma ceiling_bounds_sweep_witness:
  "marketBuyCeilingFromBook [\<lparr>bk_price = 3 / 5, bk_size = 10\<rparr>, \<lparr>bk_price = 1 / 2, bk_size = 10\<rparr>] 8 (Some (1 / 100)) None 200
     \<le> 1 - 1 / 100 \<and>
   8 / marketBuyCeilingFromBook [\<lparr>bk_price = 3 / 5, bk_size = 10\<rparr>, \<lparr>bk_price = 1 / 2, bk_size = 10\<rparr>] 8 (Some (1 / 100)) None 200
     \<le> 15"
proof -
  let ?ls = "[\<lparr>bk_price = 3 / 5, bk_size = 10\<rparr>, \<lparr>bk_price = 1 / 2, bk_size = 10\<rparr>]"
  have u: "usable_levels ?ls = [\<lparr>bk_price = 1 / 2, bk_size = 10\<rparr>, \<lparr>bk_price = 3 / 5, bk_size = 10\<rparr>]"
    by (simp add: usable_levels_def)
  have s: "sweep_shares 8 (usable_levels ?ls) = 15" by (simp add: u)
  have v: "8 \<le> book_value (usable_levels ?ls)" by (simp add: u book_value_def)
  have t: "(1 / 100 :: rat) * 1000000 = of_int 10000" by simp
  show ?thesis
    using ceiling_bounds_sweep [OF t, where bps = 200 and notional = 8 and levels = ?ls and fallback = None] s v
    by (simp add: u)
qed

text \<open>
  The preview of an order: what is deducted is the stake plus the fees the vault
  injects (the protocol fee rounded down and the flat relay fee), the committed shares
  never cost more than the stake at the committed price, and a stake that is not
  flagged as too small still clears the exchange's minimum of one dollar after a taker
  fee of up to 20 percent.
\<close>
lemma preview_sound:
  assumes "computeOrderPreview i = Inr p" and "0 < oi_amount i" and "0 < oi_price i" and "0 \<le> oi_protocolFeeBps i"
  shows "op_totalDeducted p = oi_amount i + (oi_amount i * oi_protocolFeeBps i div 10000 + oi_relayGas i) \<and>
    op_shares p * math_round (oi_price i * 100000000) \<le> oi_amount i * 100000000 \<and> 0 \<le> op_shares p \<and>
    (\<not> op_belowMin p \<longrightarrow> fee \<le> 2000 \<longrightarrow> 1000000 * 10000 \<le> oi_amount i * (10000 - fee))"
proof -
  let ?q = "math_round (oi_price i * 100000000)"
  have q: "0 < ?q" using assms math_round_nonneg [of "oi_price i * 100000000"]
    by (auto simp: computeOrderPreview_def Let_def split: if_splits)
  have p: "p = the (the_right (computeOrderPreview i))" using assms(1) by simp
  have fee: "big_div (oi_amount i * oi_protocolFeeBps i) 10000 = oi_amount i * oi_protocolFeeBps i div 10000"
    using assms by (simp add: js_simps)
  have "op_totalDeducted p = oi_amount i + (oi_amount i * oi_protocolFeeBps i div 10000 + oi_relayGas i)"
    using assms q fee by (auto simp: computeOrderPreview_def Let_def)
  moreover have sh: "op_shares p = big_div (oi_amount i * 100000000) ?q"
    using assms q by (auto simp: computeOrderPreview_def Let_def)
  moreover have "op_shares p * ?q \<le> oi_amount i * 100000000" "0 \<le> op_shares p"
    unfolding sh using assms(2) q by (auto intro: big_div_mult_le)
  moreover have "1000000 * 10000 \<le> oi_amount i * (10000 - fee)" if big: "\<not> op_belowMin p" and le: "fee \<le> 2000"
  proof -
    have "POLY_MIN_ORDER_BET \<le> oi_amount i"
      using big assms q by (auto simp: computeOrderPreview_def Let_def split: if_splits)
    moreover have "POLY_MIN_ORDER_BET = 1250000"
      by (simp add: POLY_MIN_ORDER_BET_def POLY_MIN_ORDER_USDC_def ORDER_FEE_HEADROOM_BPS_def big_div_nonneg)
    ultimately have "1250000 * 8000 \<le> oi_amount i * (10000 - fee)" using le by (intro mult_mono) simp_all
    then show ?thesis by simp
  qed
  ultimately show ?thesis by blast
qed

lemma preview_sound_witness:
  "op_totalDeducted (the (the_right (computeOrderPreview \<lparr>oi_amount = 2000000, oi_price = 1 / 2, oi_protocolFeeBps = 50,
     oi_relayGas = 1000, oi_takerFeeBps = 0, oi_minBet = 0\<rparr>))) = 2011000"
proof -
  let ?i = "\<lparr>oi_amount = 2000000, oi_price = 1 / 2, oi_protocolFeeBps = 50, oi_relayGas = 1000, oi_takerFeeBps = 0,
    oi_minBet = 0\<rparr> :: OrderPreviewInput"
  have r: "math_round (50000000 :: rat) = 50000000" using math_round_int [of 50000000] by simp
  obtain p where "computeOrderPreview ?i = Inr p" by (simp add: computeOrderPreview_def Let_def r)
  with preview_sound [OF this, of 0] show ?thesis by simp
qed

text \<open>A price that is positive but below half of the eighth decimal makes the preview throw.\<close>

lemma preview_throws:
  assumes "0 < oi_amount i" and "0 < oi_price i" and "oi_price i * 100000000 < 1 / 2"
  shows "computeOrderPreview i = Inl ''RangeError: Division by zero''"
proof -
  have "math_round (oi_price i * 100000000) = 0"
    using assms by (simp add: math_round_def floor_eq_iff)
  then show ?thesis using assms by (simp add: computeOrderPreview_def Let_def)
qed

text \<open>
  The value of a position is between 0 and its shares, and the values of the two
  sides of a market add up to the shares.
\<close>

lemma position_values_complement:
  assumes "0 \<le> sh"
  shows "\<exists>v w. pp_value (positionValue st sh True (Some m) False po) = Some v \<and>
      pp_value (positionValue st sh False (Some m) False po) = Some w \<and> 0 \<le> v \<and> 0 \<le> w \<and> v + w = of_int sh / 1000000"
proof -
  define y where "y = min 1 (max 0 m)"
  have y: "0 \<le> y" "y \<le> 1" by (auto simp: y_def)
  have "pp_value (positionValue st sh True (Some m) False po) = Some (of_int sh / 1000000 * y)"
    and "pp_value (positionValue st sh False (Some m) False po) = Some (of_int sh / 1000000 * (1 - y))"
    by (simp_all add: positionValue_def Let_def y_def)
  moreover have "of_int sh / 1000000 * y + of_int sh / 1000000 * (1 - y) = (of_int sh / 1000000 :: rat)"
    by (simp add: right_diff_distrib)
  moreover have "0 \<le> of_int sh / 1000000 * y" "0 \<le> of_int sh / 1000000 * (1 - y)" using y assms by simp_all
  ultimately show ?thesis by blast
qed

end
