(* ===== verification/Note_Store.thy ===== *)
theory Note_Store
  imports Hex "HOL-Library.Multiset"
begin

section \<open>The frontend's note store\<close>

text \<open>
  \<open>frontend/src/lib/notes.ts\<close>, without the recovery: the note and activity
  records, the cache with its encrypted copy, the choice of the notes to merge, the
  reconciliation with the chain, deposit indices and the derived values.  \<open>browser\<close>
  holds the module's variables and the browser's stores; a write that the code does
  not await happens at once, or never where \<open>bw_writable\<close> is false.
\<close>

subsection \<open>Notes and activity\<close>

datatype NoteKind = DEPOSIT | BET_OUTPUT | SETTLE_CREDIT | CANCEL_CREDIT | BET_RECEIPT

datatype outcome = YES | NO

text \<open>The fields of a note; \<open>'i\<close> is the type of its amounts, a number or its text.\<close>

record 'i note_fields =
  nt_id :: string
  nt_kind :: NoteKind
  nt_owner :: string
  nt_depositIndex :: nat
  nt_balance :: 'i
  nt_nonce :: 'i
  nt_commitment :: string
  nt_nullifier :: string
  nt_spent :: bool
  nt_createdAt :: int
  nt_leafIndex :: "nat option"
  nt_txHash :: "string option"
  nt_marketId :: "string option"
  nt_marketName :: "string option"
  nt_side :: "outcome option"
  nt_sideLabel :: "string option"
  nt_expectedShares :: "'i option"
  nt_nullifier_of_bet :: "string option"
  nt_position_id :: "string option"
  nt_condition_id :: "string option"
  nt_raw_condition_id :: "string option"
  nt_bet_amount :: "'i option"
  nt_protocolFee :: "'i option"
  nt_version :: "nat option"

type_synonym Note = "int note_fields"

datatype activity_kind = A_deposit | A_withdrawal | A_bet | A_settlement | A_refund

record WalletActivityEvent =
  wa_id :: string
  wa_wallet :: string
  wa_kind :: activity_kind
  wa_amount :: int
  wa_createdAt :: int
  wa_txHash :: "string option"
  wa_marketId :: "string option"
  wa_receiptId :: "string option"
  wa_receiptNullifier :: "string option"
  wa_payout :: "int option"

text \<open>A note without the optional fields.\<close>

definition plain_note :: "string \<Rightarrow> NoteKind \<Rightarrow> string \<Rightarrow> nat \<Rightarrow> int \<Rightarrow> int \<Rightarrow> string \<Rightarrow> string \<Rightarrow> bool \<Rightarrow> int
    \<Rightarrow> string option \<Rightarrow> nat option \<Rightarrow> Note" where
  "plain_note i k own ix bal nonce c nf sp ts tx v =
     \<lparr>nt_id = i, nt_kind = k, nt_owner = own, nt_depositIndex = ix, nt_balance = bal, nt_nonce = nonce,
      nt_commitment = c, nt_nullifier = nf, nt_spent = sp, nt_createdAt = ts, nt_leafIndex = None, nt_txHash = tx, nt_marketId = None,
      nt_marketName = None, nt_side = None, nt_sideLabel = None, nt_expectedShares = None,
      nt_nullifier_of_bet = None, nt_position_id = None, nt_condition_id = None, nt_raw_condition_id = None,
      nt_bet_amount = None, nt_protocolFee = None, nt_version = v\<rparr>"

subsection \<open>Serialisation\<close>

definition int_text :: "int \<Rightarrow> string" where
  "int_text i = (if i < 0 then CHR ''-'' # to_string10 (nat (- i)) else to_string10 (nat i))"

definition text_int :: "string \<Rightarrow> int option" where
  "text_int s =
     (case s of
        [] \<Rightarrow> Some 0
      | c # cs \<Rightarrow> if c = CHR ''-'' then map_option (\<lambda>n. - int n) (if cs = [] then None else parse_digits 10 0 cs)
                  else map_option int (BigInt s))"

definition serializeNotes :: "Note list \<Rightarrow> string note_fields list" where
  "serializeNotes = map (\<lambda>n.
     \<lparr>nt_id = nt_id n, nt_kind = nt_kind n, nt_owner = nt_owner n, nt_depositIndex = nt_depositIndex n,
      nt_balance = int_text (nt_balance n), nt_nonce = int_text (nt_nonce n), nt_commitment = nt_commitment n,
      nt_nullifier = nt_nullifier n, nt_spent = nt_spent n, nt_createdAt = nt_createdAt n, nt_leafIndex = nt_leafIndex n, nt_txHash = nt_txHash n,
      nt_marketId = nt_marketId n, nt_marketName = nt_marketName n, nt_side = nt_side n,
      nt_sideLabel = nt_sideLabel n, nt_expectedShares = map_option int_text (nt_expectedShares n),
      nt_nullifier_of_bet = nt_nullifier_of_bet n, nt_position_id = nt_position_id n,
      nt_condition_id = nt_condition_id n, nt_raw_condition_id = nt_raw_condition_id n,
      nt_bet_amount = map_option int_text (nt_bet_amount n),
      nt_protocolFee = map_option int_text (nt_protocolFee n), nt_version = nt_version n\<rparr>)"

text \<open>An optional amount: \<open>None\<close> where the field is there and is no number.\<close>

definition opt_int :: "string option \<Rightarrow> int option option" where
  "opt_int x = (case x of None \<Rightarrow> Some None | Some s \<Rightarrow> map_option Some (text_int s))"

definition note_of_json :: "string note_fields \<Rightarrow> Note option" where
  "note_of_json j =
     Option.bind (text_int (nt_balance j)) (\<lambda>bal. Option.bind (text_int (nt_nonce j)) (\<lambda>nonce.
     Option.bind (opt_int (nt_expectedShares j)) (\<lambda>es. Option.bind (opt_int (nt_bet_amount j)) (\<lambda>ba.
     Option.bind (opt_int (nt_protocolFee j)) (\<lambda>pf. Some
     \<lparr>nt_id = nt_id j, nt_kind = nt_kind j, nt_owner = nt_owner j, nt_depositIndex = nt_depositIndex j,
      nt_balance = bal, nt_nonce = nonce, nt_commitment = nt_commitment j,
      nt_nullifier = nt_nullifier j, nt_spent = nt_spent j, nt_createdAt = nt_createdAt j, nt_leafIndex = nt_leafIndex j, nt_txHash = nt_txHash j,
      nt_marketId = nt_marketId j, nt_marketName = nt_marketName j, nt_side = nt_side j,
      nt_sideLabel = nt_sideLabel j, nt_expectedShares = es,
      nt_nullifier_of_bet = nt_nullifier_of_bet j, nt_position_id = nt_position_id j,
      nt_condition_id = nt_condition_id j, nt_raw_condition_id = nt_raw_condition_id j,
      nt_bet_amount = ba, nt_protocolFee = pf, nt_version = nt_version j\<rparr>)))))"

fun deserializeNotes :: "string note_fields list \<Rightarrow> Note list option" where
  "deserializeNotes [] = Some []"
| "deserializeNotes (j # js) =
     (case (note_of_json j, deserializeNotes js) of (Some n, Some ns) \<Rightarrow> Some (n # ns) | _ \<Rightarrow> None)"

subsection \<open>The cache\<close>

record browser =
  bw_notes :: "Note list option"
  bw_activity :: "WalletActivityEvent list option"
  bw_hydrated :: bool
  bw_writable :: bool
  bw_db_notes :: "string note_fields list option"
  bw_db_activity :: "WalletActivityEvent list option"
  bw_plain_notes :: "string note_fields list option"
  bw_plain_activity :: "WalletActivityEvent list option"
  bw_index :: "(string \<times> nat) list"
  bw_hidden :: "string list"
  bw_healed :: "string list"

definition loadAll :: "browser \<Rightarrow> Note list" where
  "loadAll b = (case bw_notes b of Some ns \<Rightarrow> ns | None \<Rightarrow> [])"

definition saveAll :: "Note list \<Rightarrow> browser \<Rightarrow> browser" where
  "saveAll ns b = b\<lparr>bw_notes := Some ns, bw_hydrated := True,
     bw_db_notes := (if bw_writable b then Some (serializeNotes ns) else bw_db_notes b)\<rparr>"

definition loadActivity :: "browser \<Rightarrow> WalletActivityEvent list" where
  "loadActivity b = (case bw_activity b of Some es \<Rightarrow> es | None \<Rightarrow> [])"

definition saveActivity :: "WalletActivityEvent list \<Rightarrow> browser \<Rightarrow> browser" where
  "saveActivity es b = b\<lparr>bw_activity := Some es, bw_hydrated := True,
     bw_db_activity := (if bw_writable b then Some es else bw_db_activity b)\<rparr>"

text \<open>A legacy plain-text entry moves to the encrypted store, and is dropped once it is there.\<close>

definition migrateKey :: "bool \<Rightarrow> 'a option \<Rightarrow> 'a option \<Rightarrow> 'a option \<times> 'a option" where
  "migrateKey writable plain enc =
     (case plain of
        None \<Rightarrow> (None, enc)
      | Some l \<Rightarrow>
          let enc1 = (if enc = None \<and> writable then Some l else enc)
          in (if enc1 \<noteq> None then None else Some l, enc1))"

definition migrateLegacyLocalStorage :: "browser \<Rightarrow> browser" where
  "migrateLegacyLocalStorage b =
     (let (pn, dn) = migrateKey (bw_writable b) (bw_plain_notes b) (bw_db_notes b);
          (pa, da) = migrateKey (bw_writable b) (bw_plain_activity b) (bw_db_activity b)
      in b\<lparr>bw_plain_notes := pn, bw_db_notes := dn, bw_plain_activity := pa, bw_db_activity := da\<rparr>)"

definition hydrateCache :: "browser \<Rightarrow> browser" where
  "hydrateCache b =
     (if bw_notes b \<noteq> None then b\<lparr>bw_hydrated := True\<rparr>
      else let b1 = migrateLegacyLocalStorage b
           in b1\<lparr>bw_notes := Some (case Option.bind (bw_db_notes b1) deserializeNotes of Some ns \<Rightarrow> ns | None \<Rightarrow> []),
                 bw_activity := Some (case bw_db_activity b1 of Some es \<Rightarrow> es | None \<Rightarrow> []),
                 bw_hydrated := True\<rparr>)"

definition isHydrated :: "browser \<Rightarrow> bool" where
  "isHydrated b \<longleftrightarrow> bw_hydrated b \<or> bw_notes b \<noteq> None"

definition clearNoteCache :: "browser \<Rightarrow> browser" where
  "clearNoteCache b = b\<lparr>bw_notes := None, bw_activity := None, bw_hydrated := False\<rparr>"

definition clearAllNotes :: "browser \<Rightarrow> browser" where
  "clearAllNotes b = saveAll [] (clearNoteCache b)"

definition recordWalletActivity :: "WalletActivityEvent \<Rightarrow> browser \<Rightarrow> browser" where
  "recordWalletActivity e b = saveActivity (loadActivity b @ [e]) b"

definition resetAllLocalState :: "browser \<Rightarrow> browser" where
  "resetAllLocalState b = b\<lparr>bw_notes := None, bw_activity := None, bw_hydrated := False, bw_db_notes := None,
     bw_db_activity := None, bw_plain_notes := None, bw_plain_activity := None, bw_index := []\<rparr>"

subsection \<open>Reading the store\<close>

definition sameAddress :: "string \<Rightarrow> string \<Rightarrow> bool" where
  "sameAddress a c \<longleftrightarrow> a \<noteq> '''' \<and> c \<noteq> '''' \<and> lower a = lower c"

definition getWalletNotes :: "string \<Rightarrow> browser \<Rightarrow> Note list" where
  "getWalletNotes wallet b = filter (\<lambda>n. sameAddress (nt_owner n) wallet) (loadAll b)"

definition getFreeNotes :: "string \<Rightarrow> browser \<Rightarrow> Note list" where
  "getFreeNotes wallet b =
     filter (\<lambda>n. \<not> nt_spent n \<and> nt_kind n \<noteq> BET_RECEIPT \<and> (wallet = '''' \<or> sameAddress (nt_owner n) wallet)) (loadAll b)"

definition total_balance :: "Note list \<Rightarrow> int" where
  "total_balance ns = sum_list (map nt_balance ns)"

definition getCashBalance :: "string \<Rightarrow> browser \<Rightarrow> int" where
  "getCashBalance wallet b = total_balance (getFreeNotes wallet b)"

text \<open>
  The comparators return 1 for equal keys; the engine's sort tests only for a
  negative result, so equal elements keep their order: a stable descending sort.
\<close>

definition by_balance :: "Note list \<Rightarrow> Note list" where
  "by_balance = sort_key (\<lambda>n. - nt_balance n)"

definition getCurrentCashNote :: "string \<Rightarrow> browser \<Rightarrow> Note option" where
  "getCurrentCashNote wallet b = (case by_balance (getFreeNotes wallet b) of [] \<Rightarrow> None | n # ns \<Rightarrow> Some n)"

definition getFreeNoteForDeposit :: "string \<Rightarrow> nat \<Rightarrow> browser \<Rightarrow> Note option" where
  "getFreeNoteForDeposit wallet ix b =
     (case sort_key (\<lambda>n. - nt_nonce n) (filter (\<lambda>n. nt_depositIndex n = ix) (getFreeNotes wallet b)) of
        [] \<Rightarrow> None | n # ns \<Rightarrow> Some n)"

definition bet_key :: "Note \<Rightarrow> string" where
  "bet_key n = (case nt_nullifier_of_bet n of Some x \<Rightarrow> x | None \<Rightarrow> nt_nullifier n)"

definition hideReceipt :: "string \<Rightarrow> browser \<Rightarrow> browser" where
  "hideReceipt nf b = b\<lparr>bw_hidden := set_add (lower nf) (bw_hidden b)\<rparr>"

definition unhideReceipt :: "string \<Rightarrow> browser \<Rightarrow> browser" where
  "unhideReceipt nf b = b\<lparr>bw_hidden := set_del (lower nf) (bw_hidden b)\<rparr>"

definition getOpenBetReceipts :: "string \<Rightarrow> browser \<Rightarrow> Note list" where
  "getOpenBetReceipts wallet b =
     filter (\<lambda>n. \<not> nt_spent n \<and> nt_kind n = BET_RECEIPT \<and> sameAddress (nt_owner n) wallet \<and>
                 lower (bet_key n) \<notin> set (map lower (bw_hidden b))) (loadAll b)"

definition getWalletActivity :: "string \<Rightarrow> browser \<Rightarrow> WalletActivityEvent list" where
  "getWalletActivity wallet b = sort_key wa_createdAt (filter (\<lambda>e. sameAddress (wa_wallet e) wallet) (loadActivity b))"

subsection \<open>Choosing notes to merge\<close>

definition MAX_CONSOLIDATE_INPUTS :: nat where "MAX_CONSOLIDATE_INPUTS = 4"

fun tryAdd :: "int \<Rightarrow> Note list \<times> int \<Rightarrow> Note \<Rightarrow> Note list \<times> int" where
  "tryAdd amount (picked, tot) n =
     (if tot \<ge> amount \<or> length picked \<ge> MAX_CONSOLIDATE_INPUTS then (picked, tot)
      else (picked @ [n], tot + nt_balance n))"

datatype select_error = NoSpendableNotes | CannotCombine int int

definition selection_pool :: "nat list \<Rightarrow> int \<Rightarrow> Note list \<Rightarrow> Note list" where
  "selection_pool openDeposits amount all =
     (let clear = filter (\<lambda>n. nt_depositIndex n \<notin> set openDeposits) all;
          opn = filter (\<lambda>n. nt_depositIndex n \<in> set openDeposits) all;
          clearCovers = total_balance (take MAX_CONSOLIDATE_INPUTS clear) \<ge> amount
      in case opn of
           [] \<Rightarrow> clear
         | o1 # os \<Rightarrow> if clearCovers then clear else by_balance (clear @ [o1]))"

text \<open>\<open>picked.unshift(picked.splice(idx, 1)[0])\<close> for the first note of the deposit, if it is not in front already.\<close>

definition to_front :: "nat \<Rightarrow> Note list \<Rightarrow> Note list" where
  "to_front ix picked =
     (case List.extract (\<lambda>n. nt_depositIndex n = ix) picked of
        None \<Rightarrow> picked
      | Some (xs, n, ys) \<Rightarrow> n # xs @ ys)"

definition openBetDeposits :: "string \<Rightarrow> browser \<Rightarrow> nat list" where
  "openBetDeposits wallet b = map nt_depositIndex (getOpenBetReceipts wallet b)"

definition selectNotesForAmount :: "string \<Rightarrow> int \<Rightarrow> nat list option \<Rightarrow> nat option \<Rightarrow> browser
    \<Rightarrow> select_error + Note list \<times> int" where
  "selectNotesForAmount wallet amount openOpt preferred b =
     (let all = by_balance (getFreeNotes wallet b) in
      if all = [] then Inl NoSpendableNotes
      else
        let openDeposits = (case openOpt of Some ds \<Rightarrow> ds | None \<Rightarrow> openBetDeposits wallet b);
            pool = (if openDeposits \<noteq> [] then selection_pool openDeposits amount all else all);
            (picked, tot) = foldl (tryAdd amount) ([], 0) pool;
            slot0 = (if openDeposits \<noteq> [] then
                       (case List.find (\<lambda>n. nt_depositIndex n \<in> set openDeposits) picked of
                          Some n \<Rightarrow> Some (nt_depositIndex n) | None \<Rightarrow> preferred)
                     else preferred)
        in if tot < amount then
             Inl (CannotCombine (if openDeposits \<noteq> [] then tot
                                 else total_balance (take MAX_CONSOLIDATE_INPUTS all)) amount)
           else Inr (case slot0 of Some ix \<Rightarrow> to_front ix picked | None \<Rightarrow> picked, tot))"

subsection \<open>Changing the store\<close>

text \<open>Applying \<open>f\<close> to the first element that satisfies \<open>P\<close>, where there is one.\<close>

fun update_first :: "('a \<Rightarrow> bool) \<Rightarrow> ('a \<Rightarrow> 'a) \<Rightarrow> 'a list \<Rightarrow> 'a list" where
  "update_first P f [] = []"
| "update_first P f (x # xs) = (if P x then f x # xs else x # update_first P f xs)"

definition markNoteSpent :: "string \<Rightarrow> browser \<Rightarrow> browser" where
  "markNoteSpent c b =
     (let P = (\<lambda>n. nt_commitment n = c \<or> nt_id n = c) in
      if list_ex P (loadAll b) then saveAll (update_first P (\<lambda>n. n\<lparr>nt_spent := True\<rparr>) (loadAll b)) b else b)"

definition markBetReceiptSpent :: "string \<Rightarrow> browser \<Rightarrow> browser" where
  "markBetReceiptSpent nf b =
     (let P = (\<lambda>n. nt_kind n = BET_RECEIPT \<and> (nt_nullifier_of_bet n = Some nf \<or> nt_nullifier n = nf)) in
      if list_ex P (loadAll b) then saveAll (update_first P (\<lambda>n. n\<lparr>nt_spent := True\<rparr>) (loadAll b)) b else b)"

definition addNote :: "Note \<Rightarrow> browser \<Rightarrow> browser" where
  "addNote n b = saveAll (loadAll b @ [n]) b"

definition replaceNote :: "string \<Rightarrow> Note \<Rightarrow> browser \<Rightarrow> browser" where
  "replaceNote i next b =
     (let P = (\<lambda>n. nt_id n = i \<or> nt_commitment n = i) in
      saveAll (if list_ex P (loadAll b) then update_first P (\<lambda>_. next) (loadAll b) else loadAll b @ [next]) b)"

subsection \<open>Reconciling with the chain\<close>

text \<open>
  \<open>ch_isSpent\<close> is the nullifier registry (\<open>None\<close>: the read failed, or the
  registry is unknown), \<open>ch_betStatus\<close> the status of a bet.
\<close>

record chain_reads =
  ch_vault :: bool
  ch_isSpent :: "string \<Rightarrow> bool option"
  ch_betStatus :: "string \<Rightarrow> int option"

definition BET_CREDITED :: int where "BET_CREDITED = 3"
definition BET_CANCELLED_CREDITED :: int where "BET_CANCELLED_CREDITED = 4"
definition BET_CLOSED_CREDITED :: int where "BET_CLOSED_CREDITED = 6"

definition isNonZero :: "string \<Rightarrow> bool" where
  "isNonZero h \<longleftrightarrow> h \<noteq> '''' \<and> (case BigInt h of Some n \<Rightarrow> n \<noteq> 0 | None \<Rightarrow> False)"

definition fetchSpentNullifiers :: "chain_reads \<Rightarrow> string list \<Rightarrow> string list" where
  "fetchSpentNullifiers ch nfs = map lower (filter (\<lambda>n. ch_isSpent ch n = Some True) nfs)"

definition mark_spent :: "string list \<Rightarrow> Note \<Rightarrow> Note" where
  "mark_spent spentSet n =
     (if \<not> nt_spent n \<and> nt_kind n \<noteq> BET_RECEIPT \<and> nt_nullifier n \<noteq> '''' \<and> lower (nt_nullifier n) \<in> set spentSet
      then n\<lparr>nt_spent := True\<rparr> else n)"

definition heal_receipt :: "chain_reads \<Rightarrow> string \<Rightarrow> Note \<Rightarrow> Note" where
  "heal_receipt ch wallet n =
     (if nt_spent n \<and> nt_kind n = BET_RECEIPT \<and> sameAddress (nt_owner n) wallet \<and>
         (case nt_nullifier_of_bet n of
            None \<Rightarrow> False
          | Some nf \<Rightarrow> isNonZero nf \<and>
              (case ch_betStatus ch nf of
                 None \<Rightarrow> False
               | Some st \<Rightarrow> st \<ge> 0 \<and> st \<notin> {BET_CREDITED, BET_CANCELLED_CREDITED, BET_CLOSED_CREDITED}))
      then n\<lparr>nt_spent := False\<rparr> else n)"

definition reconcileSpentStatus :: "chain_reads \<Rightarrow> string \<Rightarrow> browser \<Rightarrow> bool \<times> browser" where
  "reconcileSpentStatus ch wallet b =
     (if \<not> ch_vault ch then (False, b)
      else
        let notes = loadAll b;
            candidates = filter (\<lambda>n. \<not> nt_spent n \<and> nt_kind n \<noteq> BET_RECEIPT \<and> sameAddress (nt_owner n) wallet \<and>
                                     isNonZero (nt_nullifier n)) notes;
            notes1 = map (mark_spent (fetchSpentNullifiers ch (map nt_nullifier candidates))) notes;
            fresh = (lower wallet \<notin> set (bw_healed b));
            notes2 = (if fresh then map (heal_receipt ch wallet) notes1 else notes1);
            b1 = (if fresh then b\<lparr>bw_healed := set_add (lower wallet) (bw_healed b)\<rparr> else b);
            changed = (notes2 \<noteq> notes)
        in (changed, if changed then saveAll notes2 b1 else b1))"

subsection \<open>Deposit indices\<close>

definition getNextDepositIndex :: "string \<Rightarrow> browser \<Rightarrow> nat" where
  "getNextDepositIndex a b = (case map_of (bw_index b) (lower a) of Some n \<Rightarrow> n | None \<Rightarrow> 0)"

definition incrementDepositIndex :: "string \<Rightarrow> browser \<Rightarrow> browser" where
  "incrementDepositIndex a b = b\<lparr>bw_index := AList.update (lower a) (getNextDepositIndex a b + 1) (bw_index b)\<rparr>"

definition recordDepositIndexUsed :: "string \<Rightarrow> nat \<Rightarrow> browser \<Rightarrow> browser" where
  "recordDepositIndexUsed a used b =
     b\<lparr>bw_index := AList.update (lower a) (max (getNextDepositIndex a b) (used + 1)) (bw_index b)\<rparr>"

text \<open>\<open>deposits\<close>: how many deposits the relay's index has for the wallet, where it answers.\<close>

definition getSafeNextDepositIndex :: "nat option \<Rightarrow> string \<Rightarrow> browser \<Rightarrow> nat" where
  "getSafeNextDepositIndex deposits a b =
     (case deposits of Some k \<Rightarrow> max (getNextDepositIndex a b) k | None \<Rightarrow> getNextDepositIndex a b)"

subsection \<open>Derived values\<close>

text \<open>
  The hash functions come from packages.  \<open>field_num\<close> reads the 32-byte hex strings
  that the code computes itself; for another string \<open>BigInt\<close> would throw.
\<close>

record crypto =
  cx_keccak_hex :: "string \<Rightarrow> nat"
  cx_keccak_text :: "string \<Rightarrow> nat"
  cx_poseidon2 :: "nat \<Rightarrow> int \<Rightarrow> nat"
  cx_poseidon4 :: "nat \<Rightarrow> int \<Rightarrow> int \<Rightarrow> nat \<Rightarrow> nat"

definition field_num :: "string \<Rightarrow> nat" where
  "field_num s = (case BigInt s of Some n \<Rightarrow> n | None \<Rightarrow> 0)"

definition secret_of_hash :: "nat \<Rightarrow> string" where
  "secret_of_hash h = toHex (if h mod BN254_P = 0 then 1 else h mod BN254_P)"

definition derivationMessage :: "string \<Rightarrow> nat \<Rightarrow> string" where
  "derivationMessage a ix = ''PolyShield deposit derivation'' @ [CHR 0x0A] @ ''Address: '' @ a @ [CHR 0x0A] @
     ''Index: '' @ to_string10 ix @ [CHR 0x0A] @ ''Version: 1''"

definition masterSeedMessageV2 :: "string \<Rightarrow> string" where
  "masterSeedMessageV2 a = ''PolyShield master seed'' @ [CHR 0x0A] @ ''Address: '' @ a @ [CHR 0x0A] @ ''Version: 2''"

text \<open>\<open>sign\<close> is the wallet: the signature, or nothing where the user refuses.\<close>

definition deriveSecret :: "crypto \<Rightarrow> (string \<Rightarrow> string option) \<Rightarrow> string \<Rightarrow> nat \<Rightarrow> string option" where
  "deriveSecret cx sign a ix = map_option (\<lambda>sig. secret_of_hash (cx_keccak_text cx sig)) (sign (derivationMessage a ix))"

definition deriveMasterSeed :: "crypto \<Rightarrow> (string \<Rightarrow> string option) \<Rightarrow> string \<Rightarrow> string option" where
  "deriveMasterSeed cx sign a = map_option (\<lambda>sig. toHex (cx_keccak_text cx sig)) (sign (masterSeedMessageV2 a))"

definition deriveSecretV2 :: "crypto \<Rightarrow> string \<Rightarrow> nat \<Rightarrow> string" where
  "deriveSecretV2 cx seed ix =
     secret_of_hash (cx_keccak_hex cx (''0x'' @ drop 2 seed @ pad_start 8 (CHR ''0'') (to_string16 (ix mod 2 ^ 32))))"

definition computeCommitment :: "crypto \<Rightarrow> string \<Rightarrow> int \<Rightarrow> int \<Rightarrow> string \<Rightarrow> string" where
  "computeCommitment cx secret balance nonce own =
     toHex (cx_poseidon4 cx (field_num secret) balance nonce (field_num own))"

definition computeNullifier :: "crypto \<Rightarrow> string \<Rightarrow> int \<Rightarrow> string" where
  "computeNullifier cx secret nonce = toHex (cx_poseidon2 cx (field_num secret) nonce)"

definition computeRecipientHash :: "crypto \<Rightarrow> string \<Rightarrow> string" where
  "computeRecipientHash cx a = toHex (cx_poseidon2 cx (field_num a) 0)"

text \<open>The hash of a market label and of a position, over the bytes of the text.\<close>

definition djb2 :: "string \<Rightarrow> nat" where
  "djb2 s = foldl (\<lambda>h c. (h * 32 + h + of_char c) mod 2 ^ 256) 5381 s"

definition marketToField :: "string \<Rightarrow> string" where
  "marketToField label = toHex (djb2 label mod BN254_P)"

fun outcome_text :: "outcome \<Rightarrow> string" where
  "outcome_text YES = ''YES''"
| "outcome_text NO = ''NO''"

definition positionToField :: "string \<Rightarrow> outcome \<Rightarrow> string" where
  "positionToField condition sd = toHex (djb2 (condition @ '':'' @ outcome_text sd) mod BN254_P)"

text \<open>The vault's key of a receipt's market; \<open>Inl\<close> where \<open>BigInt\<close> throws.\<close>

definition field_safe :: "string \<Rightarrow> string + string option" where
  "field_safe h = (case toFieldSafe h of Some k \<Rightarrow> Inr (Some k) | None \<Rightarrow> Inl ''SyntaxError'')"

definition given :: "string option \<Rightarrow> bool" where
  "given x \<longleftrightarrow> x \<noteq> None \<and> x \<noteq> Some ''''"

definition receiptCircuitKey :: "crypto \<Rightarrow> Note \<Rightarrow> string + string option" where
  "receiptCircuitKey cx n =
     (if given (nt_raw_condition_id n) then field_safe (the (nt_raw_condition_id n))
      else if given (nt_marketId n) \<and> take 2 (the (nt_marketId n)) \<noteq> ''0x''
      then field_safe (toHex (cx_keccak_text cx (the (nt_marketId n))))
      else if given (nt_condition_id n) then field_safe (the (nt_condition_id n))
      else Inr None)"

subsection \<open>Lemmas\<close>

lemma total_balance_simps [simp]:
  "total_balance [] = 0" "total_balance (n # ns) = nt_balance n + total_balance ns"
  "total_balance (ms @ ns) = total_balance ms + total_balance ns"
  by (simp_all add: total_balance_def)

lemma total_balance_mset: "total_balance ns = (\<Sum>n\<in>#mset ns. nt_balance n)"
  by (simp add: total_balance_def sum_mset_sum_list flip: mset_map)

lemma mset_by_balance [simp]: "mset (by_balance ns) = mset ns" "set (by_balance ns) = set ns"
  "by_balance ns = [] \<longleftrightarrow> ns = []"
  by (simp_all add: by_balance_def flip: set_mset_mset) (metis mset_sort mset_zero_iff)

lemma sorted_by_balance: "sorted (map (\<lambda>n. - nt_balance n) (by_balance ns))"
  by (simp add: by_balance_def)

text \<open>The first \<open>k\<close> notes in descending order are worth the most among all choices of \<open>k\<close> notes.\<close>

lemma top_notes_best:
  assumes "sorted (map (\<lambda>n. - nt_balance n) xs)" and "\<forall>n \<in> set xs. 0 \<le> nt_balance n"
    and "M \<subseteq># mset xs" and "size M \<le> k"
  shows "(\<Sum>n\<in>#M. nt_balance n) \<le> total_balance (take k xs)"
  using assms
proof (induction xs arbitrary: M k)
  case Nil
  then show ?case by simp
next
  case (Cons x xs)
  show ?case
  proof (cases k)
    case 0
    then show ?thesis using Cons.prems(4) by simp
  next
    case (Suc j)
    have srt: "sorted (map (\<lambda>n. - nt_balance n) xs)" and nn: "\<forall>n \<in> set xs. 0 \<le> nt_balance n"
      using Cons.prems by simp_all
    show ?thesis
    proof (cases "x \<in># M")
      case True
      then obtain N where M: "M = add_mset x N" by (meson multi_member_split)
      then have "N \<subseteq># mset xs" "size N \<le> j" using Cons.prems(3,4) Suc by simp_all
      from Cons.IH [OF srt nn this] show ?thesis using M Suc by simp
    next
      case False
      then have sub: "M \<subseteq># mset xs"
        using Cons.prems(3) by (metis add_mset_remove_trivial diff_subset_eq_self mset.simps(2) subset_mset.dual_order.trans
            insert_noteq_member minus_add_mset_if_not_in_lhs mset_subset_eq_add_mset_cancel
            subset_eq_diff_conv add_mset_add_single diff_single_trivial)
      have le: "(\<Sum>n\<in>#M. nt_balance n) \<le> total_balance (take k xs)" by (rule Cons.IH [OF srt nn sub Cons.prems(4)])
      show ?thesis
      proof (cases "j < length xs")
        case True
        then have "take k xs = take j xs @ [xs ! j]" using Suc by (simp add: take_Suc_conv_app_nth)
        moreover have "nt_balance (xs ! j) \<le> nt_balance x" using Cons.prems(1) True by simp
        ultimately show ?thesis using le Suc by simp
      next
        case False
        then have "take k xs = xs" "take j xs = xs" using Suc by simp_all
        then show ?thesis using le Suc Cons.prems(2) by simp
      qed
    qed
  qed
qed

lemma tryAdd_fold:
  assumes "t = total_balance p" and "length p \<le> MAX_CONSOLIDATE_INPUTS"
  shows "\<exists>j. foldl (tryAdd amount) (p, t) pool = (p @ take j pool, total_balance (p @ take j pool)) \<and>
    length (p @ take j pool) \<le> MAX_CONSOLIDATE_INPUTS \<and>
    (total_balance (p @ take j pool) < amount \<longrightarrow> p @ take j pool = take MAX_CONSOLIDATE_INPUTS (p @ pool))"
  using assms
proof (induction pool arbitrary: p t)
  case Nil
  then show ?case by simp
next
  case (Cons n ns)
  show ?case
  proof (cases "t \<ge> amount \<or> length p \<ge> MAX_CONSOLIDATE_INPUTS")
    case True
    have "foldl (tryAdd amount) (p, t) ns = (p, t)" for ns using True by (induction ns) simp_all
    then show ?thesis using True Cons.prems by (intro exI [of _ 0]) auto
  next
    case False
    then obtain j where j: "foldl (tryAdd amount) (p @ [n], t + nt_balance n) ns =
        ((p @ [n]) @ take j ns, total_balance ((p @ [n]) @ take j ns))"
      "length ((p @ [n]) @ take j ns) \<le> MAX_CONSOLIDATE_INPUTS"
      "total_balance ((p @ [n]) @ take j ns) < amount \<longrightarrow>
         (p @ [n]) @ take j ns = take MAX_CONSOLIDATE_INPUTS ((p @ [n]) @ ns)"
      using Cons.IH [of "t + nt_balance n" "p @ [n]"] Cons.prems by auto
    have "foldl (tryAdd amount) (p, t) (n # ns) = foldl (tryAdd amount) (p @ [n], t + nt_balance n) ns"
      using False by simp
    then show ?thesis using j by (intro exI [of _ "Suc j"]) simp
  qed
qed

lemma to_front_mset: "mset (to_front ix ns) = mset ns" "set (to_front ix ns) = set ns"
  "length (to_front ix ns) = length ns" "total_balance (to_front ix ns) = total_balance ns"
proof -
  show m: "mset (to_front ix ns) = mset ns"
    by (auto simp: to_front_def extract_Some_iff split: option.splits)
  then show "set (to_front ix ns) = set ns" by (metis set_mset_mset)
  show "length (to_front ix ns) = length ns" using m by (metis size_mset)
  show "total_balance (to_front ix ns) = total_balance ns" by (simp add: total_balance_mset m)
qed

text \<open>The pool: part of what is free, with at most one note of an open deposit.\<close>

lemma selection_pool_sub:
  "mset (selection_pool D amount xs) \<subseteq># mset xs \<and>
   length (filter (\<lambda>n. nt_depositIndex n \<in> set D) (selection_pool D amount xs)) \<le> 1"
proof (cases "filter (\<lambda>n. nt_depositIndex n \<in> set D) xs")
  case Nil
  then show ?thesis by (simp add: selection_pool_def Let_def multiset_filter_subset filter_empty_conv)
next
  case (Cons o1 os)
  let ?P = "\<lambda>n. nt_depositIndex n \<in> set D"
  let ?c = "filter (\<lambda>n. \<not> ?P n) xs"
  have "mset xs = mset ?c + mset (filter ?P xs)"
    unfolding mset_filter by (subst add.commute) (rule multiset_partition)
  then have "mset xs = mset (?c @ [o1]) + mset os" unfolding Cons by simp
  then have sub: "mset (?c @ [o1]) \<subseteq># mset xs" by (metis mset_subset_eq_add_left)
  have "length (filter ?P (by_balance (?c @ [o1]))) = size (filter_mset ?P (mset (by_balance (?c @ [o1]))))"
    by (simp only: mset_filter [symmetric] size_mset)
  also have "\<dots> = length (filter ?P (?c @ [o1]))" unfolding mset_by_balance by (simp only: mset_filter [symmetric] size_mset)
  finally have "length (filter ?P (by_balance (?c @ [o1]))) \<le> 1" by simp
  then show ?thesis using sub Cons by (simp add: selection_pool_def Let_def multiset_filter_subset)
qed

lemma selection_pool_best:
  assumes srt: "sorted (map (\<lambda>n. - nt_balance n) xs)" and nn: "\<forall>n \<in> set xs. 0 \<le> nt_balance n"
    and low: "total_balance (take MAX_CONSOLIDATE_INPUTS (selection_pool D amount xs)) < amount"
    and M: "mset ns \<subseteq># mset xs" and few: "length ns \<le> MAX_CONSOLIDATE_INPUTS"
    and one: "length (filter (\<lambda>n. nt_depositIndex n \<in> set D) ns) \<le> 1"
  shows "total_balance ns < amount"
proof -
  let ?P = "\<lambda>n. nt_depositIndex n \<in> set D" and ?k = MAX_CONSOLIDATE_INPUTS
  let ?c = "filter (\<lambda>n. \<not> ?P n) xs"
  have csrt: "sorted (map (\<lambda>n. - nt_balance n) ?c)" using srt by (rule sorted_filter)
  have cnn: "\<forall>n \<in> set ?c. 0 \<le> nt_balance n" using nn by simp
  have split: "mset ns = filter_mset (\<lambda>n. \<not> ?P n) (mset ns) + filter_mset ?P (mset ns)"
    by (subst add.commute) (rule multiset_partition)
  have csub: "filter_mset (\<lambda>n. \<not> ?P n) (mset ns) \<subseteq># mset ?c"
    using M by (simp add: multiset_filter_mono)
  show ?thesis
  proof (cases "filter ?P xs")
    case Nil
    then have "?c = xs" by (simp add: filter_empty_conv)
    then have "selection_pool D amount xs = xs" using Nil by (simp add: selection_pool_def Let_def)
    then show ?thesis
      using top_notes_best [OF srt nn M, of ?k] few low by (simp add: total_balance_mset)
  next
    case (Cons o1 os)
    have pool: "selection_pool D amount xs = by_balance (?c @ [o1])"
      using low Cons by (auto simp: selection_pool_def Let_def split: if_splits)
    let ?q = "by_balance (?c @ [o1])"
    have "o1 \<in> set (filter ?P xs)" unfolding Cons by simp
    then have qnn: "\<forall>n \<in> set ?q. 0 \<le> nt_balance n" using nn by auto
    have o1_top: "nt_balance n \<le> nt_balance o1" if "n \<in> set (filter ?P xs)" for n
      using that sorted_filter [OF srt, of ?P] unfolding Cons by auto
    have best: "(\<Sum>n\<in>#N. nt_balance n) < amount" if "N \<subseteq># mset ?q" "size N \<le> ?k" for N
      using top_notes_best [OF sorted_by_balance qnn that] low pool by simp
    let ?N = "filter_mset (\<lambda>n. \<not> ?P n) (mset ns)"
    show ?thesis
    proof (cases "filter ?P ns")
      case Nil
      then have "mset ns = ?N" by (metis (no_types, lifting) filter_False filter_True filter_empty_conv mset_filter)
      moreover have "mset ?c \<subseteq># mset ?q" by simp
      then have "?N \<subseteq># mset ?q" by (rule subset_mset.trans [OF csub])
      ultimately show ?thesis using best [of "mset ns"] few by (simp add: total_balance_mset)
    next
      case (Cons w ws)
      then have w: "filter ?P ns = [w]" using one by simp
      then have "w \<in> set (filter ?P ns)" by simp
      moreover have "set ns \<subseteq> set xs" using set_mset_mono [OF M] by simp
      ultimately have le: "nt_balance w \<le> nt_balance o1" using o1_top by auto
      have "filter_mset ?P (mset ns) = mset [w]" by (simp only: mset_filter [symmetric] w)
      then have ns: "mset ns = add_mset w ?N" using split by simp
      have "add_mset o1 ?N \<subseteq># mset ?q" using csub by simp
      moreover have "size (add_mset o1 ?N) \<le> ?k" using few ns by (metis size_add_mset size_mset)
      ultimately have "nt_balance o1 + (\<Sum>n\<in>#?N. nt_balance n) < amount" using best [of "add_mset o1 ?N"] by simp
      moreover have "total_balance ns = nt_balance w + (\<Sum>n\<in>#?N. nt_balance n)"
        using arg_cong [OF ns, of "\<lambda>M. \<Sum>n\<in>#M. nt_balance n"]
        by (simp only: total_balance_mset image_mset_add_mset sum_mset.add_mset)
      ultimately show ?thesis using le by simp
    qed
  qed
qed

lemma to_front_head:
  assumes "List.find (\<lambda>n. nt_depositIndex n \<in> set D) ns = Some n"
    and "length (filter (\<lambda>n. nt_depositIndex n \<in> set D) ns) \<le> 1"
  shows "\<forall>m \<in> set (tl (to_front (nt_depositIndex n) ns)). nt_depositIndex m \<notin> set D"
proof -
  let ?P = "\<lambda>n. nt_depositIndex n \<in> set D"
  have n: "n \<in> set ns" "?P n" using assms(1) by (auto simp: find_Some_iff)
  then obtain xs w ys where ex: "List.extract (\<lambda>m. nt_depositIndex m = nt_depositIndex n) ns = Some (xs, w, ys)"
    by (cases "List.extract (\<lambda>m. nt_depositIndex m = nt_depositIndex n) ns") (auto simp: extract_None_iff)
  then have parts: "ns = xs @ w # ys" "?P w" using n by (auto simp: extract_Some_iff)
  then have "filter ?P xs = []" "filter ?P ys = []" using assms(2) by simp_all
  then have "filter ?P (xs @ ys) = []" by simp
  then show ?thesis using ex by (auto simp: to_front_def filter_empty_conv)
qed

subsection \<open>Claims\<close>

lemma selection_cases:
  fixes openOpt wallet b
  defines "D \<equiv> (case openOpt of Some ds \<Rightarrow> ds | None \<Rightarrow> openBetDeposits wallet b)"
    and "free \<equiv> getFreeNotes wallet b"
  assumes pos: "0 < amount" and nn: "\<forall>n \<in> set free. 0 \<le> nt_balance n"
  shows "(case selectNotesForAmount wallet amount openOpt preferred b of
      Inr (ns, tot) \<Rightarrow> mset ns \<subseteq># mset free \<and> length ns \<le> MAX_CONSOLIDATE_INPUTS \<and>
        tot = total_balance ns \<and> amount \<le> tot \<and> (\<forall>n \<in> set (tl ns). nt_depositIndex n \<notin> set D)
    | Inl e \<Rightarrow> \<forall>ns. mset ns \<subseteq># mset free \<longrightarrow> length ns \<le> MAX_CONSOLIDATE_INPUTS \<longrightarrow>
        length (filter (\<lambda>n. nt_depositIndex n \<in> set D) ns) \<le> 1 \<longrightarrow> total_balance ns < amount)"
proof (cases "free = []")
  case True
  then show ?thesis using pos by (simp add: selectNotesForAmount_def free_def)
next
  case False
  let ?all = "by_balance free"
  define pool where "pool = (if D \<noteq> [] then selection_pool D amount ?all else ?all)"
  obtain j where j: "foldl (tryAdd amount) ([], 0) pool = (take j pool, total_balance (take j pool))"
    "length (take j pool) \<le> MAX_CONSOLIDATE_INPUTS"
    "total_balance (take j pool) < amount \<longrightarrow> take j pool = take MAX_CONSOLIDATE_INPUTS pool"
    using tryAdd_fold [of 0 "[]" amount pool] by auto
  define slot0 where "slot0 = (if D \<noteq> [] then
      (case List.find (\<lambda>n. nt_depositIndex n \<in> set D) (take j pool) of
         Some n \<Rightarrow> Some (nt_depositIndex n) | None \<Rightarrow> preferred) else preferred)"
  let ?res = "case slot0 of Some ix \<Rightarrow> to_front ix (take j pool) | None \<Rightarrow> take j pool"
  have psub: "mset pool \<subseteq># mset free"
    using selection_pool_sub [of D amount ?all] by (simp add: pool_def)
  have one: "length (filter (\<lambda>n. nt_depositIndex n \<in> set D) pool) \<le> 1"
    using selection_pool_sub [of D amount ?all] by (simp add: pool_def)
  show ?thesis
  proof (cases "total_balance (take j pool) < amount")
    case True
    then obtain e where err: "selectNotesForAmount wallet amount openOpt preferred b = Inl e"
      using False j(1) by (simp add: selectNotesForAmount_def D_def [symmetric] free_def [symmetric] pool_def [symmetric] Let_def)
    have low: "total_balance (take MAX_CONSOLIDATE_INPUTS pool) < amount" using True j(3) by simp
    have nn': "\<forall>n \<in> set ?all. 0 \<le> nt_balance n" using nn by simp
    have "total_balance ns < amount"
      if "mset ns \<subseteq># mset free" "length ns \<le> MAX_CONSOLIDATE_INPUTS"
        "length (filter (\<lambda>n. nt_depositIndex n \<in> set D) ns) \<le> 1" for ns
    proof (cases "D = []")
      case True
      then show ?thesis
        using top_notes_best [OF sorted_by_balance nn', of "mset ns" MAX_CONSOLIDATE_INPUTS] that low
        by (simp add: pool_def total_balance_mset)
    next
      case False
      then show ?thesis
        using selection_pool_best [OF sorted_by_balance nn', of D amount ns] that low by (simp add: pool_def)
    qed
    then show ?thesis by (simp add: err)
  next
    case ok: False
    then have res: "selectNotesForAmount wallet amount openOpt preferred b = Inr (?res, total_balance (take j pool))"
      using False j(1)
      by (simp add: selectNotesForAmount_def D_def [symmetric] free_def [symmetric] pool_def [symmetric]
          slot0_def [symmetric] Let_def)
    have same: "mset ?res = mset (take j pool)" "length ?res = length (take j pool)"
      "total_balance ?res = total_balance (take j pool)"
      by (simp_all add: to_front_mset split: option.split)
    have "mset (take j pool) \<subseteq># mset pool" by (metis append_take_drop_id mset_append mset_subset_eq_add_left)
    then have sub: "mset ?res \<subseteq># mset free" using same psub by (metis subset_mset.trans)
    have one_t: "length (filter (\<lambda>n. nt_depositIndex n \<in> set D) (take j pool)) \<le> 1"
      using one by (metis append_take_drop_id filter_append le_add1 le_trans length_append)
    have tl_clear: "\<forall>n \<in> set (tl ?res). nt_depositIndex n \<notin> set D"
    proof (cases "List.find (\<lambda>n. nt_depositIndex n \<in> set D) (take j pool)")
      case None
      then have clear: "\<forall>n \<in> set (take j pool). nt_depositIndex n \<notin> set D" by (simp add: find_None_iff)
      moreover have "set ?res = set (take j pool)" using same(1) by (metis set_mset_mset)
      ultimately show ?thesis by (metis list.set_sel(2) tl_Nil)
    next
      case (Some n)
      then have "D \<noteq> []" by (auto simp: find_Some_iff)
      then have "slot0 = Some (nt_depositIndex n)" using Some by (simp add: slot0_def)
      then show ?thesis using to_front_head [OF Some one_t] by simp
    qed
    show ?thesis unfolding res using ok j(2) same sub tl_clear by simp
  qed
qed

text \<open>A wallet with a position open on the larger of its two notes.\<close>

definition demo_note :: "string \<Rightarrow> nat \<Rightarrow> int \<Rightarrow> Note" where
  "demo_note c ix bal = plain_note c DEPOSIT ''0xA'' ix bal 0 c c False 0 None (Some 2)"

definition demo_receipt :: Note where
  "demo_receipt = (plain_note ''r'' BET_RECEIPT ''0xA'' 1 2 0 ''r'' ''0x9'' False 0 None (Some 2))
     \<lparr>nt_nullifier_of_bet := Some ''0x9'', nt_bet_amount := Some 2\<rparr>"

definition demo_browser :: browser where
  "demo_browser = \<lparr>bw_notes = Some [demo_note ''0x1'' 0 3, demo_note ''0x2'' 1 4, demo_receipt],
     bw_activity = Some [], bw_hydrated = True, bw_writable = True, bw_db_notes = None, bw_db_activity = None,
     bw_plain_notes = None, bw_plain_activity = None, bw_index = [], bw_hidden = [], bw_healed = []\<rparr>"

lemma demo_free: "getFreeNotes ''0xA'' demo_browser = [demo_note ''0x1'' 0 3, demo_note ''0x2'' 1 4]"
  by code_simp

lemma demo_open: "openBetDeposits ''0xA'' demo_browser = [1]"
  by code_simp

text \<open>A free note of a wallet, and an open position of one of its deposits, read off the stored notes.\<close>

definition is_free :: "string \<Rightarrow> Note \<Rightarrow> bool" where
  "is_free wallet n \<longleftrightarrow> \<not> nt_spent n \<and> nt_kind n \<noteq> BET_RECEIPT \<and> (wallet = '''' \<or> sameAddress (nt_owner n) wallet)"

definition open_position :: "string \<Rightarrow> browser \<Rightarrow> nat \<Rightarrow> bool" where
  "open_position wallet b ix \<longleftrightarrow>
     (\<exists>r \<in> set (loadAll b). nt_kind r = BET_RECEIPT \<and> \<not> nt_spent r \<and> sameAddress (nt_owner r) wallet \<and>
        nt_depositIndex r = ix \<and> lower (bet_key r) \<notin> lower ` set (bw_hidden b))"

lemma free_notes_spec: "getFreeNotes wallet b = filter (is_free wallet) (loadAll b)"
  by (simp add: getFreeNotes_def is_free_def [abs_def])

lemma open_deposits_spec: "set (openBetDeposits wallet b) = {ix. open_position wallet b ix}"
  by (auto simp: openBetDeposits_def getOpenBetReceipts_def open_position_def)

text \<open>
  C11: The notes chosen for a merge are free notes of the wallet, each at most once,
  at most four, and cover the amount; only the first of them may belong to a deposit
  with an open position (an unspent receipt that is not hidden), so the merge, which continues the first note's lineage,
  strands no payout.  When the choice fails, no choice with these restrictions
  covers the amount.
\<close>

theorem selection_safe_and_complete:
  fixes openOpt wallet b
  defines "D \<equiv> (case openOpt of Some ds \<Rightarrow> set ds | None \<Rightarrow> {ix. open_position wallet b ix})"
    and "free \<equiv> filter (is_free wallet) (loadAll b)"
  assumes pos: "0 < amount" and nn: "\<forall>n \<in> set free. 0 \<le> nt_balance n"
  shows "(case selectNotesForAmount wallet amount openOpt preferred b of
      Inr (ns, tot) \<Rightarrow> mset ns \<subseteq># mset free \<and> length ns \<le> 4 \<and>
        tot = sum_list (map nt_balance ns) \<and> amount \<le> tot \<and> (\<forall>n \<in> set (tl ns). nt_depositIndex n \<notin> D)
    | Inl e \<Rightarrow> \<forall>ns. mset ns \<subseteq># mset free \<longrightarrow> length ns \<le> 4 \<longrightarrow>
        length (filter (\<lambda>n. nt_depositIndex n \<in> D) ns) \<le> 1 \<longrightarrow> sum_list (map nt_balance ns) < amount)"
proof -
  have D: "D = set (case openOpt of Some ds \<Rightarrow> ds | None \<Rightarrow> openBetDeposits wallet b)"
    by (simp add: D_def open_deposits_spec split: option.split)
  have free: "free = getFreeNotes wallet b" by (simp add: free_def free_notes_spec)
  show ?thesis
    using selection_cases [where openOpt = openOpt and wallet = wallet and b = b and preferred = preferred, OF pos] nn
    unfolding D free MAX_CONSOLIDATE_INPUTS_def total_balance_def by blast
qed

theorem selection_safe_and_complete_witness:
  "\<exists>ns. selectNotesForAmount ''0xA'' 5 None None demo_browser = Inr (ns, 7) \<and>
     filter (\<lambda>n. nt_depositIndex n = 1) (tl ns) = []"
proof -
  have run: "selectNotesForAmount ''0xA'' 5 None None demo_browser =
      Inr ([demo_note ''0x2'' 1 4, demo_note ''0x1'' 0 3], 7)"
    by code_simp
  have "\<forall>n \<in> set (filter (is_free ''0xA'') (loadAll demo_browser)). 0 \<le> nt_balance n"
    unfolding free_notes_spec [symmetric] by (simp add: demo_free demo_note_def plain_note_def)
  moreover have "{ix. open_position ''0xA'' demo_browser ix} = {1}"
    unfolding open_deposits_spec [symmetric] by (simp add: demo_open)
  ultimately show ?thesis
    using selection_safe_and_complete [of 5 "''0xA''" demo_browser None None] by (simp add: run filter_empty_conv)
qed

lemma to_string10_head: "to_string10 n \<noteq> '''' \<and> hd (to_string10 n) \<noteq> CHR ''-''"
proof (induction n rule: to_string10.induct)
  case (1 n)
  have dash: "hex_char d \<noteq> CHR ''-''" if "d < 10" for d
  proof
    assume "hex_char d = CHR ''-''"
    then have "hex_val (CHR ''-'') = Some d" using hex_val_hex_char [of d] that by simp
    then show False by (simp add: hex_val_def)
  qed
  show ?case
  proof (cases "n < 10")
    case True
    then show ?thesis using dash by (simp add: to_string10.simps [of n])
  next
    case False
    then show ?thesis using 1 by (simp add: to_string10.simps [of n])
  qed
qed

lemma text_int_text [simp]: "text_int (int_text i) = Some i"
proof (cases "i < 0")
  case True
  then show ?thesis using to_string10_head [of "nat (- i)"] parse_to_string10 [of "nat (- i)"]
    by (simp add: text_int_def int_text_def)
next
  case False
  then show ?thesis using to_string10_head [of "nat i"] BigInt_to_string10 [of "nat i"]
    by (cases "to_string10 (nat i)") (simp_all add: text_int_def int_text_def)
qed

lemma opt_int_text [simp]: "opt_int (map_option int_text x) = Some x"
  by (cases x) (simp_all add: opt_int_def)

lemma deserialize_serialize [simp]: "deserializeNotes (serializeNotes ns) = Some ns"
  by (induction ns) (simp_all add: serializeNotes_def note_of_json_def)

text \<open>
  C37: The notes survive a reload: what was saved is read back from the encrypted
  copy, field by field, whenever it could be written.  A plain-text copy of an older
  version is taken over the same way, and is deleted only once the encrypted copy is
  there.
\<close>

theorem cache_survives_reload:
  shows "(bw_writable b \<longrightarrow> loadAll (hydrateCache (clearNoteCache (saveAll ns b))) = ns) \<and>
    (bw_notes b = None \<longrightarrow> bw_db_notes b = None \<longrightarrow> bw_plain_notes b = Some (serializeNotes ns) \<longrightarrow>
       (if bw_writable b
        then loadAll (hydrateCache b) = ns \<and> bw_db_notes (hydrateCache b) = Some (serializeNotes ns) \<and>
             bw_plain_notes (hydrateCache b) = None
        else bw_plain_notes (hydrateCache b) = Some (serializeNotes ns)))"
  by (auto simp: hydrateCache_def clearNoteCache_def saveAll_def migrateLegacyLocalStorage_def migrateKey_def
      loadAll_def Let_def case_prod_beta split: option.splits)

theorem cache_survives_reload_witness:
  "loadAll (hydrateCache (clearNoteCache (saveAll [demo_receipt] demo_browser))) = [demo_receipt]"
  using conjunct1 [OF cache_survives_reload [of demo_browser "[demo_receipt]"]] by (simp add: demo_browser_def)

definition spent_candidates :: "chain_reads \<Rightarrow> string \<Rightarrow> browser \<Rightarrow> string list" where
  "spent_candidates ch wallet b = fetchSpentNullifiers ch (map nt_nullifier
     (filter (\<lambda>n. \<not> nt_spent n \<and> nt_kind n \<noteq> BET_RECEIPT \<and> sameAddress (nt_owner n) wallet \<and>
                  isNonZero (nt_nullifier n)) (loadAll b)))"

lemma loadAll_save [simp]: "loadAll (saveAll ns b) = ns" "loadAll (b\<lparr>bw_healed := h\<rparr>) = loadAll b"
  by (simp_all add: loadAll_def saveAll_def)

lemma reconcile_notes:
  assumes "ch_vault ch"
  shows "loadAll (snd (reconcileSpentStatus ch wallet b)) =
    map (\<lambda>n. if lower wallet \<notin> set (bw_healed b) then heal_receipt ch wallet (mark_spent (spent_candidates ch wallet b) n)
             else mark_spent (spent_candidates ch wallet b) n) (loadAll b)"
  using assms
  by (auto simp: reconcileSpentStatus_def spent_candidates_def Let_def comp_def)

lemma spent_candidates_iff:
  "x \<in> set (spent_candidates ch wallet b) \<longleftrightarrow>
     (\<exists>n \<in> set (loadAll b). \<not> nt_spent n \<and> nt_kind n \<noteq> BET_RECEIPT \<and> sameAddress (nt_owner n) wallet \<and>
        isNonZero (nt_nullifier n) \<and> ch_isSpent ch (nt_nullifier n) = Some True \<and> x = lower (nt_nullifier n))"
  by (auto simp: spent_candidates_def fetchSpentNullifiers_def)

lemma mark_heal_frame [simp]:
  "nt_kind (mark_spent S n) = nt_kind n" "nt_nullifier (mark_spent S n) = nt_nullifier n"
  "nt_owner (mark_spent S n) = nt_owner n" "(mark_spent S n)\<lparr>nt_spent := x\<rparr> = n\<lparr>nt_spent := x\<rparr>"
  "nt_kind (heal_receipt ch w n) = nt_kind n" "nt_nullifier (heal_receipt ch w n) = nt_nullifier n"
  "nt_owner (heal_receipt ch w n) = nt_owner n" "(heal_receipt ch w n)\<lparr>nt_spent := x\<rparr> = n\<lparr>nt_spent := x\<rparr>"
  by (simp_all add: mark_spent_def heal_receipt_def)

lemma heal_cash: "nt_kind n \<noteq> BET_RECEIPT \<Longrightarrow> heal_receipt ch w n = n"
  by (simp add: heal_receipt_def)

lemma mark_marks:
  "nt_spent (mark_spent S n) \<noteq> nt_spent n \<Longrightarrow> \<not> nt_spent n \<and> lower (nt_nullifier n) \<in> set S"
  by (cases "nt_spent n") (simp_all add: mark_spent_def split: if_splits)

lemma heal_reopens:
  assumes "nt_spent (heal_receipt ch w n) \<noteq> nt_spent n"
  shows "nt_spent n \<and> (\<exists>nf st. nt_nullifier_of_bet n = Some nf \<and> ch_betStatus ch nf = Some st \<and> 0 \<le> st \<and>
    st \<notin> {BET_CREDITED, BET_CANCELLED_CREDITED, BET_CLOSED_CREDITED})"
proof (cases "nt_nullifier_of_bet n")
  case None
  then show ?thesis using assms by (simp add: heal_receipt_def)
next
  case (Some nf)
  then show ?thesis using assms
    by (cases "ch_betStatus ch nf") (simp_all add: heal_receipt_def split: if_splits)
qed

lemma mark_receipt: "nt_kind n = BET_RECEIPT \<Longrightarrow> mark_spent S n = n"
  by (simp add: mark_spent_def)

text \<open>
  Reconciling with the chain changes nothing but \<open>spent\<close> flags, and only in
  this way: a cash note becomes spent only if the registry reports its nullifier (up
  to case) spent, never because a read failed; afterwards no free note of the wallet
  is one the registry reports spent, so none is chosen for a payment; a bet receipt
  is never marked spent, and is reopened only if the chain reports its bet open.
\<close>

lemma reconcile_follows_chain:
  fixes ch wallet b
  defines "b' \<equiv> snd (reconcileSpentStatus ch wallet b)"
  assumes vault: "ch_vault ch" and wallet: "wallet \<noteq> ''''"
  shows "map (\<lambda>n. n\<lparr>nt_spent := False\<rparr>) (loadAll b') = map (\<lambda>n. n\<lparr>nt_spent := False\<rparr>) (loadAll b) \<and>
    (\<forall>n \<in> set (getFreeNotes wallet b'). isNonZero (nt_nullifier n) \<longrightarrow> ch_isSpent ch (nt_nullifier n) \<noteq> Some True) \<and>
    (\<forall>i < length (loadAll b). nt_spent (loadAll b ! i) \<noteq> nt_spent (loadAll b' ! i) \<longrightarrow>
       (if nt_kind (loadAll b ! i) = BET_RECEIPT
        then nt_spent (loadAll b ! i) \<and>
          (\<exists>nf st. nt_nullifier_of_bet (loadAll b ! i) = Some nf \<and> ch_betStatus ch nf = Some st \<and> 0 \<le> st \<and>
             st \<notin> {BET_CREDITED, BET_CANCELLED_CREDITED, BET_CLOSED_CREDITED})
        else \<not> nt_spent (loadAll b ! i) \<and>
          (\<exists>n \<in> set (loadAll b). ch_isSpent ch (nt_nullifier n) = Some True \<and>
             lower (nt_nullifier n) = lower (nt_nullifier (loadAll b ! i)))))"
proof (intro conjI allI impI ballI)
  let ?S = "spent_candidates ch wallet b"
  define f where "f = (\<lambda>n. if lower wallet \<notin> set (bw_healed b) then heal_receipt ch wallet (mark_spent ?S n)
    else mark_spent ?S n)"
  have all: "loadAll b' = map f (loadAll b)"
    unfolding b'_def f_def by (rule reconcile_notes [OF vault])
  show "map (\<lambda>n. n\<lparr>nt_spent := False\<rparr>) (loadAll b') = map (\<lambda>n. n\<lparr>nt_spent := False\<rparr>) (loadAll b)"
    by (simp add: all f_def)
  show "ch_isSpent ch (nt_nullifier n) \<noteq> Some True"
    if n: "n \<in> set (getFreeNotes wallet b')" and nz: "isNonZero (nt_nullifier n)" for n
  proof
    assume sp: "ch_isSpent ch (nt_nullifier n) = Some True"
    obtain m where m: "m \<in> set (loadAll b)" "n = f m" using n by (auto simp: getFreeNotes_def all)
    have own: "\<not> nt_spent n" "nt_kind n \<noteq> BET_RECEIPT" "sameAddress (nt_owner n) wallet"
      using n wallet by (auto simp: getFreeNotes_def)
    have cash: "nt_kind m \<noteq> BET_RECEIPT" using own(2) m(2) by (auto simp: f_def split: if_splits)
    then have nm: "n = mark_spent ?S m" using m(2) by (simp add: f_def heal_cash)
    then have "\<not> nt_spent m" using own(1) by (auto simp: mark_spent_def split: if_splits)
    then have "lower (nt_nullifier m) \<in> set ?S"
      unfolding spent_candidates_iff using m(1) own(3) cash nz sp nm by auto
    then have "nt_spent n" using nm cash nz by (auto simp: mark_spent_def isNonZero_def)
    with own(1) show False by simp
  qed
  fix i assume i: "i < length (loadAll b)" and ch: "nt_spent (loadAll b ! i) \<noteq> nt_spent (loadAll b' ! i)"
  let ?n = "loadAll b ! i"
  have fi: "loadAll b' ! i = f ?n" using i by (simp add: all)
  show "(if nt_kind ?n = BET_RECEIPT
        then nt_spent ?n \<and>
          (\<exists>nf st. nt_nullifier_of_bet ?n = Some nf \<and> ch_betStatus ch nf = Some st \<and> 0 \<le> st \<and>
             st \<notin> {BET_CREDITED, BET_CANCELLED_CREDITED, BET_CLOSED_CREDITED})
        else \<not> nt_spent ?n \<and>
          (\<exists>n \<in> set (loadAll b). ch_isSpent ch (nt_nullifier n) = Some True \<and>
             lower (nt_nullifier n) = lower (nt_nullifier ?n)))"
  proof (cases "nt_kind ?n = BET_RECEIPT")
    case True
    then have "f ?n = heal_receipt ch wallet ?n \<or> f ?n = ?n" by (simp add: f_def mark_receipt)
    then have "nt_spent (heal_receipt ch wallet ?n) \<noteq> nt_spent ?n" using ch unfolding fi by metis
    from heal_reopens [OF this] True show ?thesis by simp
  next
    case False
    then have "f ?n = mark_spent ?S ?n" using heal_cash [of "mark_spent ?S ?n"] by (simp add: f_def)
    then have "nt_spent (mark_spent ?S ?n) \<noteq> nt_spent ?n" using ch unfolding fi by metis
    from mark_marks [OF this] have sp: "\<not> nt_spent ?n" and mem: "lower (nt_nullifier ?n) \<in> set ?S" by simp_all
    obtain m where "m \<in> set (loadAll b)" "ch_isSpent ch (nt_nullifier m) = Some True"
      "lower (nt_nullifier ?n) = lower (nt_nullifier m)"
      using mem unfolding spent_candidates_iff by blast
    then have "\<exists>m \<in> set (loadAll b). ch_isSpent ch (nt_nullifier m) = Some True \<and>
        lower (nt_nullifier m) = lower (nt_nullifier ?n)"
      by (intro bexI [of _ m] conjI) simp_all
    then show ?thesis using False sp by simp
  qed
qed

definition demo_reads :: chain_reads where
  "demo_reads = \<lparr>ch_vault = True, ch_isSpent = (\<lambda>n. Some (n = ''0x2'')), ch_betStatus = (\<lambda>n. Some 0)\<rparr>"

lemma reconcile_follows_chain_witness:
  "filter (\<lambda>n. isNonZero (nt_nullifier n) \<and> nt_nullifier n = ''0x2'')
     (getFreeNotes ''0xA'' (snd (reconcileSpentStatus demo_reads ''0xA'' demo_browser))) = []"
  using conjunct1 [OF conjunct2 [OF reconcile_follows_chain [of demo_reads "''0xA''" demo_browser]]]
  by (auto simp: demo_reads_def filter_empty_conv)

end
