(* ===== verification/Account_State.thy ===== *)
theory Account_State
  imports Note_Store
begin

section \<open>What the portfolio shows\<close>

text \<open>
  \<open>frontend/src/lib/betClassify.ts\<close> and \<open>accountState.ts\<close>: how an open bet is
  classified from the vault's record and the operator's report, which bets can be
  settled, what needs a proof of the user, and the totals of the portfolio.
\<close>

subsection \<open>Reads\<close>

definition ST_ACTIVE :: int where "ST_ACTIVE = 0"
definition ST_FILLED :: int where "ST_FILLED = 1"
definition ST_FAILED :: int where "ST_FAILED = 2"
definition ST_CLOSING :: int where "ST_CLOSING = 5"
definition ST_PARTIAL_FILLED :: int where "ST_PARTIAL_FILLED = 7"
definition ST_RESTING :: int where "ST_RESTING = 8"

definition REPORT_FILLED :: int where "REPORT_FILLED = 1"
definition REPORT_FAILED :: int where "REPORT_FAILED = 2"
definition REPORT_PARTIAL :: int where "REPORT_PARTIAL = 3"
definition REPORT_SOLD :: int where "REPORT_SOLD = 4"

lemmas status_defs = ST_ACTIVE_def ST_FILLED_def ST_FAILED_def ST_CLOSING_def ST_PARTIAL_FILLED_def ST_RESTING_def
  BET_CREDITED_def BET_CANCELLED_CREDITED_def BET_CLOSED_CREDITED_def

lemmas report_defs = REPORT_FILLED_def REPORT_FAILED_def REPORT_PARTIAL_def REPORT_SOLD_def

record BetRecordView =
  br_status :: int
  br_expectedShares :: int
  br_betAmount :: int
  br_soldShares :: int
  br_sellProceeds :: int

record SignedAttestation =
  sa_type :: int
  sa_amountA :: int
  sa_amountB :: int

text \<open>
  The reads of the frontend.  \<open>None\<close> is a call that throws, except for the
  reports: their client answers \<open>null\<close> for every failure.
\<close>

record vault_reads =
  vr_chain :: chain_reads
  vr_record :: "string \<Rightarrow> BetRecordView option"
  vr_att :: "string \<Rightarrow> int option \<Rightarrow> SignedAttestation option"
  vr_fee :: "string \<Rightarrow> int option"
  vr_payout :: "string \<Rightarrow> nat \<Rightarrow> int option"
  vr_resolvedAt :: "string \<Rightarrow> int option"

definition fetchBetStatus :: "vault_reads \<Rightarrow> string \<Rightarrow> int option" where
  "fetchBetStatus vr nf = map_option br_status (vr_record vr nf)"

subsection \<open>Classification\<close>

record ReceiptClass =
  rc_ready :: bool
  rc_isPartial :: bool
  rc_isFailed :: bool
  rc_isFilled :: bool
  rc_isResting :: bool
  rc_isPending :: bool
  rc_isPosition :: bool

definition classifyReceipt :: "bool \<Rightarrow> int \<Rightarrow> int \<Rightarrow> int \<Rightarrow> (int \<times> int) option \<Rightarrow> ReceiptClass" where
  "classifyReceipt ready status outcome betAmount fill =
     (let onchainFilled = (status = ST_FILLED);
          isPartialAttest = (outcome = REPORT_PARTIAL \<and> \<not> onchainFilled);
          feeOnlyFill = (isPartialAttest \<and> betAmount > 0 \<and>
            (case fill of Some (filled, spent) \<Rightarrow> spent \<ge> betAmount | None \<Rightarrow> False));
          isPartial = (isPartialAttest \<and> \<not> feeOnlyFill);
          isFailed = (outcome = REPORT_FAILED);
          isFilled = (outcome = REPORT_FILLED \<or> onchainFilled \<or> feeOnlyFill);
          isResting = (status = ST_RESTING);
          isPosition = (ready \<or> isFilled \<or> isPartial)
      in \<lparr>rc_ready = ready, rc_isPartial = isPartial, rc_isFailed = isFailed, rc_isFilled = isFilled,
          rc_isResting = isResting, rc_isPending = (\<not> isPosition \<and> \<not> isFailed \<and> \<not> isResting),
          rc_isPosition = isPosition\<rparr>)"

subsection \<open>Settlement\<close>

datatype SettlementStatus = S_ready int int | S_lost | S_pending | S_unfilled_resolved

definition betDidFill :: "vault_reads \<Rightarrow> string \<Rightarrow> bool" where
  "betDidFill vr nf =
     (case fetchBetStatus vr nf of
        None \<Rightarrow> False
      | Some st \<Rightarrow> st = ST_FILLED \<or> (case vr_att vr nf None of Some a \<Rightarrow> sa_type a = REPORT_FILLED | None \<Rightarrow> False))"

definition settleable :: "int \<Rightarrow> bool" where
  "settleable st \<longleftrightarrow> st = ST_FILLED \<or> st = ST_PARTIAL_FILLED \<or> st = ST_ACTIVE"

definition remaining_shares :: "BetRecordView \<Rightarrow> int" where
  "remaining_shares r = (if br_expectedShares r > br_soldShares r then br_expectedShares r - br_soldShares r else 0)"

text \<open>A key that cannot be read makes the whole call throw; a read that fails is \<open>pending\<close>.\<close>

definition checkSettlementStatus :: "crypto \<Rightarrow> vault_reads \<Rightarrow> Note \<Rightarrow> string + SettlementStatus" where
  "checkSettlementStatus cx vr receipt =
     (if nt_expectedShares receipt = None \<or> nt_expectedShares receipt = Some 0 then Inr S_pending
      else bind_sum (receiptCircuitKey cx receipt) (\<lambda>k. Inr
        (case k of None \<Rightarrow> S_pending
         | Some key \<Rightarrow>
           let nob = bet_key receipt in
           if \<not> betDidFill vr nob then
             (case vr_resolvedAt vr key of
                None \<Rightarrow> S_pending
              | Some t \<Rightarrow> if t > 0 then S_unfilled_resolved else S_pending)
           else (case vr_record vr nob of
                None \<Rightarrow> S_pending
              | Some rec \<Rightarrow>
                  if \<not> settleable (br_status rec) \<or> remaining_shares rec \<le> 0 then S_pending
                  else (case vr_payout vr key (if nt_side receipt = Some NO then 1 else 0) of
                      None \<Rightarrow> S_pending
                    | Some p \<Rightarrow>
                        if p > 0 then S_ready p (remaining_shares rec * p)
                        else (case vr_resolvedAt vr key of
                            None \<Rightarrow> S_pending
                          | Some t \<Rightarrow> if t > 0 then S_lost else S_pending))))))"

record ReadyToSettleBet =
  rs_receipt :: Note
  rs_payoutPerShare :: int
  rs_claimAmount :: int

fun settlement_lists :: "(Note \<times> SettlementStatus) list \<Rightarrow> ReadyToSettleBet list \<times> Note list \<times> Note list" where
  "settlement_lists [] = ([], [], [])"
| "settlement_lists ((r, st) # rs) =
     (let (ready, lost, unfilled) = settlement_lists rs in
      case st of
        S_ready p c \<Rightarrow> (\<lparr>rs_receipt = r, rs_payoutPerShare = p, rs_claimAmount = c\<rparr> # ready, lost, unfilled)
      | S_lost \<Rightarrow> (ready, r # lost, unfilled)
      | S_unfilled_resolved \<Rightarrow> (ready, lost, r # unfilled)
      | S_pending \<Rightarrow> (ready, lost, unfilled))"

text \<open>\<open>Promise.all\<close>: one receipt that throws makes the whole call throw.\<close>

fun all_inr :: "('a \<times> (string + 'b)) list \<Rightarrow> string + ('a \<times> 'b) list" where
  "all_inr [] = Inr []"
| "all_inr ((a, Inl e) # xs) = Inl e"
| "all_inr ((a, Inr b) # xs) = bind_sum (all_inr xs) (\<lambda>ys. Inr ((a, b) # ys))"

definition buildReadyToSettle :: "crypto \<Rightarrow> vault_reads \<Rightarrow> Note list
    \<Rightarrow> string + ReadyToSettleBet list \<times> Note list \<times> Note list" where
  "buildReadyToSettle cx vr receipts =
     bind_sum (all_inr (map (\<lambda>r. (r, checkSettlementStatus cx vr r)) receipts)) (\<lambda>rs. Inr (settlement_lists rs))"

subsection \<open>What needs a proof\<close>

definition terminal_status :: "int \<Rightarrow> bool" where
  "terminal_status st \<longleftrightarrow>
     st = BET_CREDITED \<or> st = BET_CANCELLED_CREDITED \<or> st = BET_CLOSED_CREDITED \<or> st = ST_FAILED"

definition action_needed :: "vault_reads \<Rightarrow> string list \<Rightarrow> Note \<Rightarrow> int" where
  "action_needed vr unfilledIds receipt =
     (let nf = bet_key receipt;
          status = (case fetchBetStatus vr nf of Some st \<Rightarrow> st | None \<Rightarrow> -1)
      in if terminal_status status then 0
         else case vr_att vr nf (Some REPORT_SOLD) of
                Some sold \<Rightarrow> sa_amountB sold
              | None \<Rightarrow>
                  let att = (if status = ST_ACTIVE \<or> status = ST_RESTING then vr_att vr nf None else None);
                      outcome = (case att of Some a \<Rightarrow> sa_type a | None \<Rightarrow> 0);
                      fill = (case att of
                                Some a \<Rightarrow> if sa_type a = REPORT_PARTIAL then Some (sa_amountA a, sa_amountB a) else None
                              | None \<Rightarrow> None);
                      betAmount = (case nt_bet_amount receipt of Some x \<Rightarrow> x | None \<Rightarrow> nt_balance receipt);
                      cls = classifyReceipt False status outcome betAmount fill
                  in if rc_isFailed cls \<or> nt_id receipt \<in> set unfilledIds then betAmount
                     else (case fill of
                             Some (filled, spent) \<Rightarrow>
                               if rc_isPartial cls then (if betAmount > spent then betAmount - spent else 0) else 0
                           | None \<Rightarrow> 0))"

definition buildActionNeeded :: "vault_reads \<Rightarrow> Note list \<Rightarrow> Note list \<Rightarrow> int \<times> nat" where
  "buildActionNeeded vr receipts unfilledResolved =
     (let per = filter (\<lambda>v. v > 0) (map (action_needed vr (map nt_id unfilledResolved)) receipts)
      in (sum_list per, length per))"

subsection \<open>The portfolio\<close>

record ClosedBet =
  cb_event :: WalletActivityEvent
  cb_betAmount :: int
  cb_pnl :: int
  cb_marketId :: "string option"

record PortfolioState =
  pf_notes :: "Note list"
  pf_cashNote :: "Note option"
  pf_cashBalance :: int
  pf_openReceipts :: "Note list"
  pf_readyToSettle :: "ReadyToSettleBet list"
  pf_lostBets :: "Note list"
  pf_unfilledResolved :: "Note list"
  pf_totalBalance :: int
  pf_totalOpenExposure :: int
  pf_totalDeposited :: int
  pf_totalWithdrawn :: int
  pf_totalPnL :: int
  pf_actionNeededTotal :: int
  pf_actionNeededCount :: nat
  pf_depositHistory :: "WalletActivityEvent list"
  pf_withdrawalHistory :: "WalletActivityEvent list"
  pf_closedBetHistory :: "ClosedBet list"

definition of_kind :: "activity_kind \<Rightarrow> WalletActivityEvent list \<Rightarrow> WalletActivityEvent list" where
  "of_kind k es = filter (\<lambda>e. wa_kind e = k) es"

definition total_amount :: "WalletActivityEvent list \<Rightarrow> int" where
  "total_amount es = sum_list (map wa_amount es)"

definition betFor :: "WalletActivityEvent list \<Rightarrow> string option \<Rightarrow> WalletActivityEvent option" where
  "betFor bets rid = (if given rid then List.find (\<lambda>e. wa_receiptId e = rid) bets else None)"

definition committed_stake :: "WalletActivityEvent list \<Rightarrow> WalletActivityEvent \<Rightarrow> int" where
  "committed_stake bets e = (case betFor bets (wa_receiptId e) of Some b \<Rightarrow> wa_amount b | None \<Rightarrow> 0)"

definition bet_market :: "WalletActivityEvent list \<Rightarrow> WalletActivityEvent \<Rightarrow> string option" where
  "bet_market bets e = orelse (Option.bind (betFor bets (wa_receiptId e)) wa_marketId) (wa_marketId e)"

definition settled_row :: "WalletActivityEvent list \<Rightarrow> WalletActivityEvent list \<Rightarrow> WalletActivityEvent \<Rightarrow> ClosedBet" where
  "settled_row bets refunds e =
     (let committed = committed_stake bets e;
          refunded = total_amount (filter (\<lambda>r. given (wa_receiptId r) \<and> wa_receiptId r = wa_receiptId e) refunds);
          betAmount = (if committed > refunded then committed - refunded else committed)
      in \<lparr>cb_event = e, cb_betAmount = betAmount, cb_pnl = wa_amount e - betAmount, cb_marketId = bet_market bets e\<rparr>)"

definition refund_row :: "WalletActivityEvent list \<Rightarrow> WalletActivityEvent \<Rightarrow> ClosedBet" where
  "refund_row bets e =
     \<lparr>cb_event = e, cb_betAmount = committed_stake bets e, cb_pnl = 0, cb_marketId = bet_market bets e\<rparr>"

definition closed_bets :: "WalletActivityEvent list \<Rightarrow> ClosedBet list" where
  "closed_bets acts =
     (let bets = of_kind A_bet acts; refunds = of_kind A_refund acts
      in map (settled_row bets refunds) (of_kind A_settlement acts) @ map (refund_row bets) refunds)"

definition stake_of :: "Note \<Rightarrow> int" where
  "stake_of n = (case nt_bet_amount n of Some x \<Rightarrow> x | None \<Rightarrow> nt_balance n)"

definition loadPortfolioState :: "crypto \<Rightarrow> vault_reads \<Rightarrow> string \<Rightarrow> browser \<Rightarrow> (string + PortfolioState) \<times> browser" where
  "loadPortfolioState cx vr wallet b =
     (let b1 = snd (reconcileSpentStatus (vr_chain vr) wallet b);
          openReceipts = getOpenBetReceipts wallet b1;
          acts = getWalletActivity wallet b1
      in (bind_sum (buildReadyToSettle cx vr openReceipts) (\<lambda>(ready, lost, unfilled). Inr
           (let (actTotal, actCount) = buildActionNeeded vr openReceipts unfilled;
                exposure = sum_list (map stake_of (filter (\<lambda>n. nt_id n \<notin> set (map nt_id lost)) openReceipts));
                closed = closed_bets acts
            in \<lparr>pf_notes = getWalletNotes wallet b1, pf_cashNote = getCurrentCashNote wallet b1,
                pf_cashBalance = getCashBalance wallet b1, pf_openReceipts = openReceipts, pf_readyToSettle = ready,
                pf_lostBets = lost, pf_unfilledResolved = unfilled,
                pf_totalBalance = getCashBalance wallet b1 + exposure, pf_totalOpenExposure = exposure,
                pf_totalDeposited = total_amount (of_kind A_deposit acts),
                pf_totalWithdrawn = total_amount (of_kind A_withdrawal acts),
                pf_totalPnL = sum_list (map cb_pnl closed) - sum_list (map stake_of lost),
                pf_actionNeededTotal = actTotal, pf_actionNeededCount = actCount,
                pf_depositHistory = of_kind A_deposit acts, pf_withdrawalHistory = of_kind A_withdrawal acts,
                pf_closedBetHistory = closed\<rparr>)), b1))"

end
