(* ===== verification/Note_Flows.thy ===== *)
theory Note_Flows
  imports Account_State
begin

section \<open>Spending notes: the flows over the vault\<close>

text \<open>
  \<open>settlePosition.ts\<close>, \<open>finalizeClose.ts\<close>, \<open>finalizePartial.ts\<close>,
  \<open>cancelAndReclaim.ts\<close>, \<open>consolidate.ts\<close>, \<open>submitMarketClose.ts\<close> and
  \<open>settleCloseAndWithdraw.ts\<close> of the frontend.  A flow reads the chain, asks the
  prover for a proof, hands it to the relay, waits for the transaction, and only then
  changes the notes.  The session keeps the browser, the requests that were sent, and
  the markers of closes, deposits and withdrawals under way.
\<close>

subsection \<open>Requests and the session\<close>

datatype circuit = C_settlement | C_position_close | C_partial_credit | C_bet_cancel

text \<open>The inputs of the four circuits that credit a bet; \<open>ci_leaf\<close> is the commitment whose path is proved.\<close>

record credit_inputs =
  ci_circuit :: circuit
  ci_secret :: string
  ci_balance :: int
  ci_nonce :: int
  ci_bet_nonce :: int
  ci_leaf :: string
  ci_owner :: string
  ci_root :: string
  ci_nullifier :: string
  ci_new_commitment :: string
  ci_nullifier_of_bet :: string
  ci_amount :: int

record withdrawal_inputs =
  wi_secret :: string
  wi_balance :: int
  wi_nonce :: int
  wi_leaf :: string
  wi_owner :: string
  wi_root :: string
  wi_nullifier :: string
  wi_amount :: int
  wi_recipient_hash :: string
  wi_new_commitment :: string

text \<open>A slot of a merge: the secret, the balance, the nonce and the leaf, or padding.\<close>

type_synonym slot = "(string \<times> int \<times> int \<times> string) option"

record consolidate_inputs =
  co_slots :: "slot list"
  co_owner :: string
  co_root :: string
  co_nullifiers :: "string list"
  co_new_commitment :: string

record bet_inputs =
  bi_secret :: string
  bi_balance :: int
  bi_nonce :: int
  bi_leaf :: string
  bi_owner :: string
  bi_root :: string
  bi_nullifier :: string
  bi_new_commitment :: string
  bi_amount :: int
  bi_price :: int
  bi_shares :: int
  bi_remainder :: int
  bi_market :: string
  bi_side :: nat
  bi_position :: string
  bi_fee :: int

record deposit_inputs =
  di_secret :: string
  di_commitment :: string
  di_amount :: int
  di_owner :: string

datatype request = R_credit credit_inputs | R_withdrawal withdrawal_inputs | R_consolidate consolidate_inputs
  | R_bet bet_inputs | R_deposit deposit_inputs

text \<open>The intent of a limit order: the bet, and the lifetime where it expires.\<close>

record limit_intent =
  li_nullifier :: string
  li_expiration :: "int option"

record close_order =
  ko_nullifier :: string
  ko_position_id :: string
  ko_sold_shares :: int
  ko_limit_price :: int
  ko_order_type :: string
  ko_expiration :: "int option"

text \<open>The marker of a close under way.\<close>

datatype CloseOrderKind = CK_MARKET | CK_LIMIT

record CloseMarker =
  cm_nullifierOfBet :: string
  cm_depositIndex :: nat
  cm_orderKind :: CloseOrderKind
  cm_priceCents :: rat
  cm_expiration :: int
  cm_submittedAt :: int

text \<open>
  What a flow depends on: the hashes, the secret of a deposit index and version, the
  root that the relay serves with the path of a commitment, whether the prover
  produces a proof, the transaction the relay answers with, whether it confirms,
  whether the signing layer takes a close order and the intent of a limit order, and the
  time.
\<close>

record flow_env =
  fl_crypto :: crypto
  fl_secret :: "nat \<Rightarrow> nat \<Rightarrow> string option"
  fl_root :: "string \<Rightarrow> string option"
  fl_proves :: "request \<Rightarrow> bool"
  fl_relay :: "request \<Rightarrow> string option"
  fl_confirms :: "string \<Rightarrow> bool"
  fl_close :: "close_order \<Rightarrow> bool"
  fl_intent :: "limit_intent \<Rightarrow> bool"
  fl_reads :: vault_reads
  fl_now :: int

record session =
  sn_browser :: browser
  sn_sent :: "request list"
  sn_closes :: "close_order list"
  sn_markers :: "((string \<times> string) \<times> CloseMarker) list"
  sn_intents :: "limit_intent list"
  sn_deposits :: "(string \<times> string) list"
  sn_withdraws :: "(string \<times> string) list"

datatype flow_result = FDone int | FOpen string

definition on_browser :: "(browser \<Rightarrow> browser) \<Rightarrow> session \<Rightarrow> session" where
  "on_browser f s = s\<lparr>sn_browser := f (sn_browser s)\<rparr>"

text \<open>The relay and the wait for the transaction.\<close>

definition relay_and_wait :: "flow_env \<Rightarrow> request \<Rightarrow> session \<Rightarrow> (string + string) \<times> session" where
  "relay_and_wait env r s =
     (let s1 = s\<lparr>sn_sent := sn_sent s @ [r]\<rparr> in
      case fl_relay env r of
        None \<Rightarrow> (Inl ''relay'', s1)
      | Some tx \<Rightarrow> if fl_confirms env tx then (Inr tx, s1) else (Inl ''not confirmed'', s1))"

definition prove_and_relay :: "flow_env \<Rightarrow> request \<Rightarrow> session \<Rightarrow> (string + string) \<times> session" where
  "prove_and_relay env r s = (if fl_proves env r then relay_and_wait env r s else (Inl ''proof'', s))"

definition version_of :: "Note \<Rightarrow> nat" where
  "version_of n = (case nt_version n of Some v \<Rightarrow> v | None \<Rightarrow> 1)"

text \<open>The secret and the path of the note to spend.\<close>

definition open_note :: "flow_env \<Rightarrow> Note \<Rightarrow> string + string \<times> string" where
  "open_note env n =
     (case fl_secret env (nt_depositIndex n) (version_of n) of
        None \<Rightarrow> Inl ''signature''
      | Some sec \<Rightarrow> (case fl_root env (nt_commitment n) of None \<Rightarrow> Inl ''path'' | Some rt \<Rightarrow> Inr (sec, rt)))"

definition credit_request :: "flow_env \<Rightarrow> circuit \<Rightarrow> string \<Rightarrow> Note \<Rightarrow> string \<Rightarrow> string \<Rightarrow> Note \<Rightarrow> int \<Rightarrow> credit_inputs" where
  "credit_request env circ wallet free sec rt receipt amount =
     \<lparr>ci_circuit = circ, ci_secret = sec, ci_balance = nt_balance free, ci_nonce = nt_nonce free,
      ci_bet_nonce = nt_nonce receipt, ci_leaf = nt_commitment free, ci_owner = wallet, ci_root = rt,
      ci_nullifier = nt_nullifier free,
      ci_new_commitment = computeCommitment (fl_crypto env) sec (nt_balance free + amount) (nt_nonce free + 1) wallet,
      ci_nullifier_of_bet = bet_key receipt, ci_amount = amount\<rparr>"

text \<open>The note that continues a lineage.\<close>

definition next_note :: "flow_env \<Rightarrow> NoteKind \<Rightarrow> string \<Rightarrow> Note \<Rightarrow> string \<Rightarrow> int \<Rightarrow> string \<Rightarrow> Note" where
  "next_note env k wallet free sec bal tx =
     (let nonce = nt_nonce free + 1; c = computeCommitment (fl_crypto env) sec bal nonce wallet in
      plain_note c k wallet (nt_depositIndex free) bal nonce c (computeNullifier (fl_crypto env) sec nonce) False
        (fl_now env) (Some tx) (Some (version_of free)))"

definition activity_event :: "flow_env \<Rightarrow> string \<Rightarrow> string \<Rightarrow> activity_kind \<Rightarrow> int \<Rightarrow> string \<Rightarrow> Note \<Rightarrow> WalletActivityEvent" where
  "activity_event env i wallet k amount tx receipt =
     \<lparr>wa_id = i @ ''-'' @ tx @ ''-'' @ nt_id receipt, wa_wallet = wallet, wa_kind = k, wa_amount = amount,
      wa_createdAt = fl_now env, wa_txHash = Some tx, wa_marketId = nt_marketId receipt,
      wa_receiptId = Some (nt_id receipt), wa_receiptNullifier = Some (bet_key receipt), wa_payout = Some amount\<rparr>"

subsection \<open>Settling a resolved bet\<close>

definition settlePosition :: "flow_env \<Rightarrow> string \<Rightarrow> Note \<Rightarrow> int \<Rightarrow> session \<Rightarrow> (string + flow_result) \<times> session" where
  "settlePosition env wallet receipt claim s =
     (let nob = bet_key receipt in
      case vr_record (fl_reads env) nob of
        None \<Rightarrow> (Inl ''rpc'', s)
      | Some rec \<Rightarrow>
          if br_status rec = BET_CREDITED then (Inr (FDone 0), on_browser (markBetReceiptSpent nob) s)
          else (case getFreeNoteForDeposit wallet (nt_depositIndex receipt) (sn_browser s) of
              None \<Rightarrow> (Inr (FOpen ''no-free-note''), s)
            | Some free \<Rightarrow>
                (case open_note env free of
                   Inl e \<Rightarrow> (Inl e, s)
                 | Inr (sec, rt) \<Rightarrow>
                     let r = R_credit (credit_request env C_settlement wallet free sec rt receipt claim) in
                     (case prove_and_relay env r s of
                        (Inl e, s1) \<Rightarrow> (Inl e, s1)
                      | (Inr tx, s1) \<Rightarrow>
                          (Inr (FDone claim),
                           on_browser (addNote ((next_note env SETTLE_CREDIT wallet free sec (nt_balance free + claim) tx)
                                          \<lparr>nt_marketId := nt_marketId receipt,
                                           nt_condition_id := Some (case nt_condition_id receipt of Some c \<Rightarrow> c
                                             | None \<Rightarrow> ''0x'' @ replicate 64 (CHR ''0''))\<rparr>) \<circ>
                                       recordWalletActivity (activity_event env ''settlement'' wallet A_settlement claim tx receipt) \<circ>
                                       markBetReceiptSpent nob \<circ> markNoteSpent (nt_commitment free)) s1)))))"

subsection \<open>Crediting the proceeds of a close\<close>

definition finalizeClose :: "flow_env \<Rightarrow> string \<Rightarrow> Note \<Rightarrow> session \<Rightarrow> (string + flow_result) \<times> session" where
  "finalizeClose env wallet receipt s =
     (let nob = bet_key receipt in
      case vr_record (fl_reads env) nob of
        None \<Rightarrow> (Inl ''rpc'', s)
      | Some rec \<Rightarrow>
          if br_status rec = BET_CLOSED_CREDITED
          then (Inr (FDone (br_sellProceeds rec)), on_browser (markBetReceiptSpent nob) s)
          else (case vr_att (fl_reads env) nob (Some REPORT_SOLD) of
              None \<Rightarrow> (Inr (FOpen ''no-sold''), s)
            | Some att \<Rightarrow>
                if sa_type att \<noteq> REPORT_SOLD then (Inr (FOpen ''no-sold''), s)
                else (case getFreeNoteForDeposit wallet (nt_depositIndex receipt) (sn_browser s) of
                    None \<Rightarrow> (Inr (FOpen ''no-free-note''), s)
                  | Some free \<Rightarrow>
                      (case open_note env free of
                         Inl e \<Rightarrow> (Inl e, s)
                       | Inr (sec, rt) \<Rightarrow>
                           let proceeds = sa_amountB att;
                               r = R_credit (credit_request env C_position_close wallet free sec rt receipt proceeds) in
                           (case prove_and_relay env r s of
                              (Inl e, s1) \<Rightarrow> (Inl e, s1)
                            | (Inr tx, s1) \<Rightarrow>
                                (Inr (FDone proceeds),
                                 on_browser (addNote ((next_note env SETTLE_CREDIT wallet free sec (nt_balance free + proceeds) tx)
                                                \<lparr>nt_marketId := nt_marketId receipt, nt_condition_id := nt_condition_id receipt\<rparr>) \<circ>
                                             recordWalletActivity (activity_event env ''close'' wallet A_settlement proceeds tx receipt) \<circ>
                                             (if sa_amountA att \<ge> br_expectedShares rec then markBetReceiptSpent nob else id) \<circ>
                                             markNoteSpent (nt_commitment free)) s1))))))"

subsection \<open>Normalising a partial fill\<close>

definition partial_fill_refund :: "int \<Rightarrow> int \<Rightarrow> int \<Rightarrow> int" where
  "partial_fill_refund betAmount spent fee =
     (let unexec = (if betAmount > spent then betAmount - spent else 0)
      in if unexec > 0 \<and> betAmount > 0 then unexec + big_div (fee * unexec) betAmount else 0)"

definition finalizePartialFill :: "flow_env \<Rightarrow> string \<Rightarrow> Note \<Rightarrow> session \<Rightarrow> (string + bool) \<times> session" where
  "finalizePartialFill env wallet receipt s =
     (let nob = bet_key receipt in
      case vr_att (fl_reads env) nob None of
        None \<Rightarrow> (Inr False, s)
      | Some att \<Rightarrow>
          if sa_type att \<noteq> REPORT_PARTIAL then (Inr False, s)
          else (case vr_record (fl_reads env) nob of
              None \<Rightarrow> (Inl ''rpc'', s)
            | Some rec \<Rightarrow>
                if br_status rec \<noteq> ST_ACTIVE then (Inr False, s)
                else (case getFreeNoteForDeposit wallet (nt_depositIndex receipt) (sn_browser s) of
                    None \<Rightarrow> (Inr False, s)
                  | Some free \<Rightarrow>
                      (case vr_fee (fl_reads env) nob of
                         None \<Rightarrow> (Inl ''rpc'', s)
                       | Some fee \<Rightarrow>
                           (case open_note env free of
                              Inl e \<Rightarrow> (Inl e, s)
                            | Inr (sec, rt) \<Rightarrow>
                                let refund = partial_fill_refund (br_betAmount rec) (sa_amountB att) fee;
                                    r = R_credit (credit_request env C_partial_credit wallet free sec rt receipt refund) in
                                (case prove_and_relay env r s of
                                   (Inl e, s1) \<Rightarrow> (Inl e, s1)
                                 | (Inr tx, s1) \<Rightarrow>
                                     (Inr True,
                                      on_browser ((if refund > 0 then recordWalletActivity
                                                     (activity_event env ''partial'' wallet A_refund refund tx receipt) else id) \<circ>
                                                  replaceNote (nt_id receipt) (receipt\<lparr>nt_bet_amount := Some (sa_amountB att),
                                                     nt_expectedShares := Some (sa_amountA att)\<rparr>) \<circ>
                                                  addNote ((next_note env CANCEL_CREDIT wallet free sec (nt_balance free + refund) tx)
                                                     \<lparr>nt_marketId := nt_marketId receipt, nt_condition_id := nt_condition_id receipt\<rparr>) \<circ>
                                                  markNoteSpent (nt_commitment free)) s1)))))))"

subsection \<open>Reclaiming a stake\<close>

definition creditFailedReclaim :: "flow_env \<Rightarrow> string \<Rightarrow> Note \<Rightarrow> session \<Rightarrow> (string + flow_result) \<times> session" where
  "creditFailedReclaim env wallet receipt s =
     (let nob = bet_key receipt in
      case getFreeNoteForDeposit wallet (nt_depositIndex receipt) (sn_browser s) of
        None \<Rightarrow> (Inr (FOpen ''no-free-note''), s)
      | Some free \<Rightarrow>
          (case vr_record (fl_reads env) nob of
             None \<Rightarrow> (Inl ''rpc'', s)
           | Some rec \<Rightarrow>
               if br_betAmount rec \<le> 0 then (Inr (FDone 0), on_browser (markBetReceiptSpent nob) s)
               else (case vr_fee (fl_reads env) nob of
                   None \<Rightarrow> (Inl ''rpc'', s)
                 | Some fee \<Rightarrow>
                     (case open_note env free of
                        Inl e \<Rightarrow> (Inl e, s)
                      | Inr (sec, rt) \<Rightarrow>
                          let refund = br_betAmount rec + fee;
                              r = R_credit (credit_request env C_bet_cancel wallet free sec rt receipt refund) in
                          (case prove_and_relay env r s of
                             (Inl e, s1) \<Rightarrow> (Inl e, s1)
                           | (Inr tx, s1) \<Rightarrow>
                               (Inr (FDone refund),
                                on_browser (recordWalletActivity (activity_event env ''betcancel'' wallet A_refund refund tx receipt) \<circ>
                                            addNote ((next_note env CANCEL_CREDIT wallet free sec (nt_balance free + refund) tx)
                                               \<lparr>nt_marketId := nt_marketId receipt, nt_condition_id := nt_condition_id receipt\<rparr>) \<circ>
                                            markBetReceiptSpent nob \<circ> markNoteSpent (nt_commitment free)) s1))))))"

text \<open>\<open>None\<close>: there is no terminal report yet.\<close>

definition tryCreditFromAttestation :: "flow_env \<Rightarrow> string \<Rightarrow> Note \<Rightarrow> session \<Rightarrow> (string + flow_result option) \<times> session" where
  "tryCreditFromAttestation env wallet receipt s =
     (case vr_att (fl_reads env) (bet_key receipt) None of
        None \<Rightarrow> (Inr None, s)
      | Some att \<Rightarrow>
          if sa_type att = REPORT_FAILED then
            (case creditFailedReclaim env wallet receipt s of
               (Inl e, s1) \<Rightarrow> (Inl e, s1) | (Inr r, s1) \<Rightarrow> (Inr (Some r), s1))
          else if sa_type att = REPORT_PARTIAL then
            (case finalizePartialFill env wallet receipt s of
               (Inl e, s1) \<Rightarrow> (Inl e, s1) | (Inr d, s1) \<Rightarrow> (Inr (Some (FOpen ''partial-normalized'')), s1))
          else (Inr None, s))"

text \<open>The polls after the cancel; \<open>envs\<close> gives what each poll finds.\<close>

fun reclaim_polls :: "flow_env list \<Rightarrow> string \<Rightarrow> Note \<Rightarrow> session \<Rightarrow> (string + flow_result) \<times> session" where
  "reclaim_polls [] wallet receipt s = (Inr (FOpen ''still-resting''), s)"
| "reclaim_polls (env # envs) wallet receipt s =
     (case tryCreditFromAttestation env wallet receipt s of
        (Inl e, s1) \<Rightarrow> (Inl e, s1)
      | (Inr (Some r), s1) \<Rightarrow> (Inr r, s1)
      | (Inr None, s1) \<Rightarrow> reclaim_polls envs wallet receipt s1)"

definition RECLAIM_POLLS :: nat where "RECLAIM_POLLS = 6"

definition credited_status :: "int \<Rightarrow> bool" where
  "credited_status st \<longleftrightarrow> st = BET_CANCELLED_CREDITED \<or> st = BET_CREDITED \<or> st = BET_CLOSED_CREDITED"

definition reclaimBet :: "(nat \<Rightarrow> flow_env) \<Rightarrow> string \<Rightarrow> Note \<Rightarrow> session \<Rightarrow> (string + flow_result) \<times> session" where
  "reclaimBet envs wallet receipt s =
     (let nob = bet_key receipt in
      case vr_record (fl_reads (envs 0)) nob of
        None \<Rightarrow> (Inl ''rpc'', s)
      | Some rec \<Rightarrow>
          if credited_status (br_status rec) then (Inr (FDone 0), on_browser (markBetReceiptSpent nob) s)
          else (case tryCreditFromAttestation (envs 0) wallet receipt s of
              (Inl e, s1) \<Rightarrow> (Inl e, s1)
            | (Inr (Some r), s1) \<Rightarrow> (Inr r, s1)
            | (Inr None, s1) \<Rightarrow> reclaim_polls (map (\<lambda>i. envs (i + 1)) [0..<RECLAIM_POLLS]) wallet receipt s1))"

end
