(* ===== verification/Liquidation.thy ===== *)
theory Liquidation
  imports Note_Flows
begin

section \<open>Closing everything and withdrawing\<close>

text \<open>
  \<open>consolidate.ts\<close>, \<open>submitMarketClose.ts\<close> (with \<open>closeMarker.ts\<close>) and
  \<open>settleCloseAndWithdraw.ts\<close> of the frontend: the merge of notes, the sale of a
  position, and the run that settles, reclaims and closes what it can and then
  withdraws the lineages that have no open position.  The environment is a function of
  the time, since a run waits for the operator and the chain between its steps.
\<close>

subsection \<open>Merging notes\<close>

fun open_notes :: "flow_env \<Rightarrow> Note list \<Rightarrow> string + (string \<times> string) list" where
  "open_notes env [] = Inr []"
| "open_notes env (n # ns) =
     bind_sum (open_note env n) (\<lambda>x. bind_sum (open_notes env ns) (\<lambda>xs. Inr (x # xs)))"

definition slot_of :: "Note \<times> string \<Rightarrow> slot" where
  "slot_of p = (case p of (n, sec) \<Rightarrow> Some (sec, nt_balance n, nt_nonce n, nt_commitment n))"

definition slot_nullifier :: "crypto \<Rightarrow> slot \<Rightarrow> string" where
  "slot_nullifier cx sl = (case sl of Some (sec, bal, nonce, leaf) \<Rightarrow> computeNullifier cx sec nonce
     | None \<Rightarrow> ''0x'' @ replicate 64 (CHR ''0''))"

definition padded_slots :: "(Note \<times> string) list \<Rightarrow> slot list" where
  "padded_slots ps = map slot_of ps @ replicate (MAX_CONSOLIDATE_INPUTS - length ps) None"

definition consolidate_request :: "flow_env \<Rightarrow> string \<Rightarrow> Note list \<Rightarrow> (string \<times> string) list \<Rightarrow> consolidate_inputs" where
  "consolidate_request env wallet notes opened =
     (let slots = padded_slots (zip notes (map fst opened)) in
      \<lparr>co_slots = slots, co_owner = wallet, co_root = snd (hd opened),
       co_nullifiers = map (slot_nullifier (fl_crypto env)) slots,
       co_new_commitment = computeCommitment (fl_crypto env) (fst (hd opened)) (total_balance notes)
         (nt_nonce (hd notes) + 1) wallet\<rparr>)"

definition consolidateNotes :: "flow_env \<Rightarrow> string \<Rightarrow> Note list \<Rightarrow> session \<Rightarrow> (string + Note) \<times> session" where
  "consolidateNotes env wallet notes s =
     (if length notes < 2 then (Inl ''consolidateNotes requires at least 2 notes'', s)
      else if length notes > MAX_CONSOLIDATE_INPUTS then (Inl ''consolidateNotes accepts at most 4 notes'', s)
      else case open_notes env notes of
             Inl e \<Rightarrow> (Inl e, s)
           | Inr opened \<Rightarrow>
               (case prove_and_relay env (R_consolidate (consolidate_request env wallet notes opened)) s of
                  (Inl e, s1) \<Rightarrow> (Inl e, s1)
                | (Inr tx, s1) \<Rightarrow>
                    let merged = next_note env BET_OUTPUT wallet (hd notes) (fst (hd opened)) (total_balance notes) tx
                    in (Inr merged,
                        on_browser (addNote merged \<circ> (\<lambda>b. foldl (\<lambda>b n. markNoteSpent (nt_commitment n) b) b notes)) s1)))"

subsection \<open>Selling a position\<close>

definition marker_key :: "string \<Rightarrow> string \<Rightarrow> string \<times> string" where
  "marker_key wallet nf = (lower wallet, lower nf)"

definition markCloseSubmitted :: "string \<Rightarrow> CloseMarker \<Rightarrow> session \<Rightarrow> session" where
  "markCloseSubmitted wallet m s =
     s\<lparr>sn_markers := AList.update (marker_key wallet (cm_nullifierOfBet m)) m (sn_markers s)\<rparr>"

definition getCloseMarker :: "string \<Rightarrow> string \<Rightarrow> session \<Rightarrow> CloseMarker option" where
  "getCloseMarker wallet nf s = map_of (sn_markers s) (marker_key wallet nf)"

definition clearCloseMarker :: "string \<Rightarrow> string \<Rightarrow> session \<Rightarrow> session" where
  "clearCloseMarker wallet nf s = s\<lparr>sn_markers := AList.delete (marker_key wallet nf) (sn_markers s)\<rparr>"

definition submitMarketClose :: "flow_env \<Rightarrow> string \<Rightarrow> Note \<Rightarrow> session \<Rightarrow> (string + bool) \<times> session" where
  "submitMarketClose env wallet receipt s =
     (let nob = bet_key receipt in
      if \<not> given (nt_position_id receipt) then (Inr False, s)
      else if getCloseMarker wallet nob s \<noteq> None then (Inr False, s)
      else case fetchBetStatus (fl_reads env) nob of
             None \<Rightarrow> (Inl ''rpc'', s)
           | Some st \<Rightarrow>
               if st = ST_CLOSING \<or> st = BET_CLOSED_CREDITED then (Inr False, s)
               else (case vr_record (fl_reads env) nob of
                   None \<Rightarrow> (Inl ''rpc'', s)
                 | Some rec \<Rightarrow>
                     if br_expectedShares rec \<le> 0 then (Inr False, s)
                     else let k = \<lparr>ko_nullifier = nob, ko_position_id = the (nt_position_id receipt),
                                   ko_sold_shares = br_expectedShares rec, ko_limit_price = 1,
                                   ko_order_type = ''FAK'', ko_expiration = None\<rparr>;
                              m = \<lparr>cm_nullifierOfBet = nob, cm_depositIndex = nt_depositIndex receipt,
                                   cm_orderKind = CK_MARKET, cm_priceCents = 0, cm_expiration = 0, cm_submittedAt = fl_now env\<rparr>;
                              s1 = s\<lparr>sn_closes := sn_closes s @ [k]\<rparr>
                          in if fl_close env k then (Inr True, markCloseSubmitted wallet m s1)
                             else (Inl ''close-request'', s1)))"

definition SOLD_POLL_MAX :: nat where "SOLD_POLL_MAX = 22"

text \<open>The result of a close: \<open>FDone\<close>, or the reason why the position stays open.\<close>

fun close_polls :: "flow_env list \<Rightarrow> string \<Rightarrow> Note \<Rightarrow> session \<Rightarrow> (string + flow_result) \<times> session" where
  "close_polls [] wallet receipt s =
     (Inr (FOpen ''close-timeout''), clearCloseMarker wallet (bet_key receipt) s)"
| "close_polls (env # envs) wallet receipt s =
     (case finalizeClose env wallet receipt s of
        (Inl e, s1) \<Rightarrow> (Inl e, s1)
      | (Inr (FDone p), s1) \<Rightarrow> (Inr (FDone p), s1)
      | (Inr (FOpen r), s1) \<Rightarrow>
          if r = ''no-free-note'' then (Inr (FOpen r), s1) else close_polls envs wallet receipt s1)"

definition closePositionFull :: "(nat \<Rightarrow> flow_env) \<Rightarrow> string \<Rightarrow> Note \<Rightarrow> session \<Rightarrow> (string + flow_result) \<times> session" where
  "closePositionFull envs wallet receipt s =
     (case finalizeClose (envs 0) wallet receipt s of
        (Inl e, s1) \<Rightarrow> (Inl e, s1)
      | (Inr (FDone p), s1) \<Rightarrow> (Inr (FDone p), s1)
      | (Inr (FOpen r), s1) \<Rightarrow>
          if r = ''no-free-note'' then (Inr (FOpen r), s1)
          else (case submitMarketClose (envs 1) wallet receipt s1 of
              (Inl e, s2) \<Rightarrow> (Inl e, s2)
            | (Inr sub, s2) \<Rightarrow> close_polls (map (\<lambda>i. envs (i + 2)) [0..<SOLD_POLL_MAX]) wallet receipt s2))"

subsection \<open>Withdrawing\<close>

definition ZERO_COMMITMENT :: string where "ZERO_COMMITMENT = ''0x'' @ replicate 64 (CHR ''0'')"

text \<open>\<open>False\<close> stands for every failure: the code catches all of them.\<close>

definition withdrawOneNote :: "flow_env \<Rightarrow> string \<Rightarrow> Note \<Rightarrow> int \<Rightarrow> session \<Rightarrow> bool \<times> session" where
  "withdrawOneNote env wallet note amount s =
     (if amount \<le> 0 then (False, s)
      else case open_note env note of
             Inl e \<Rightarrow> (False, s)
           | Inr (sec, rt) \<Rightarrow>
               let left = nt_balance note - amount;
                   newc = (if left > 0 then computeCommitment (fl_crypto env) sec left (nt_nonce note + 1) wallet
                           else ZERO_COMMITMENT);
                   r = R_withdrawal \<lparr>wi_secret = sec, wi_balance = nt_balance note, wi_nonce = nt_nonce note,
                         wi_leaf = nt_commitment note, wi_owner = wallet, wi_root = rt, wi_nullifier = nt_nullifier note,
                         wi_amount = amount, wi_recipient_hash = computeRecipientHash (fl_crypto env) wallet,
                         wi_new_commitment = newc\<rparr>
               in (case prove_and_relay env r s of
                     (Inl e, s1) \<Rightarrow> (False, s1)
                   | (Inr tx, s1) \<Rightarrow>
                       (True,
                        on_browser ((if left > 0 then addNote (next_note env BET_OUTPUT wallet note sec left tx) else id) \<circ>
                          recordWalletActivity \<lparr>wa_id = ''withdrawal-'' @ tx, wa_wallet = wallet, wa_kind = A_withdrawal,
                            wa_amount = amount, wa_createdAt = fl_now env, wa_txHash = Some tx, wa_marketId = None,
                            wa_receiptId = None, wa_receiptNullifier = None, wa_payout = None\<rparr> \<circ>
                          markNoteSpent (nt_commitment note)) s1)))"

definition open_deposits :: "string \<Rightarrow> browser \<Rightarrow> nat list" where
  "open_deposits wallet b = map nt_depositIndex (getOpenBetReceipts wallet b)"

definition clear_notes :: "string \<Rightarrow> browser \<Rightarrow> Note list" where
  "clear_notes wallet b = filter (\<lambda>n. nt_depositIndex n \<notin> set (open_deposits wallet b)) (getFreeNotes wallet b)"

text \<open>The note an iteration spends: the largest clear note, or the merge of up to four of them.\<close>

definition note_to_withdraw :: "flow_env \<Rightarrow> string \<Rightarrow> session \<Rightarrow> Note \<times> session" where
  "note_to_withdraw env wallet s =
     (let b = sn_browser s; sorted_notes = by_balance (clear_notes wallet b);
          target = total_balance (take MAX_CONSOLIDATE_INPUTS sorted_notes);
          largest = hd sorted_notes
      in if target > nt_balance largest then
           (case selectNotesForAmount wallet target (Some (open_deposits wallet b)) (Some (nt_depositIndex largest)) b of
              Inl e \<Rightarrow> (largest, s)
            | Inr (ns, tot) \<Rightarrow>
                (case consolidateNotes env wallet ns s of
                   (Inl e, s1) \<Rightarrow> (largest, s1)
                 | (Inr merged, s1) \<Rightarrow> (merged, s1)))
         else (largest, s))"

definition MAX_WITHDRAWALS :: nat where "MAX_WITHDRAWALS = 16"

fun withdraw_rounds :: "flow_env list \<Rightarrow> string \<Rightarrow> int \<Rightarrow> session \<Rightarrow> int \<times> session" where
  "withdraw_rounds [] wallet acc s = (acc, s)"
| "withdraw_rounds (env # envs) wallet acc s =
     (let s0 = on_browser (\<lambda>b. snd (reconcileSpentStatus (vr_chain (fl_reads env)) wallet b)) s;
          clear = clear_notes wallet (sn_browser s0)
      in if clear = [] \<or> total_balance (take MAX_CONSOLIDATE_INPUTS (by_balance clear)) \<le> 0 then (acc, s0)
         else let (note, s1) = note_to_withdraw env wallet s0;
                  (ok, s2) = withdrawOneNote env wallet note (nt_balance note) s1
              in if ok then withdraw_rounds envs wallet (acc + nt_balance note) s2 else (acc, s2))"

definition withdrawClearLineages :: "(nat \<Rightarrow> flow_env) \<Rightarrow> string \<Rightarrow> session \<Rightarrow> int \<times> session" where
  "withdrawClearLineages envs wallet s = withdraw_rounds (map envs [0..<MAX_WITHDRAWALS]) wallet 0 s"

subsection \<open>The whole run\<close>

record liquidation =
  lq_withdrawn :: int
  lq_settled :: nat
  lq_closed :: nat
  lq_reclaimed :: nat
  lq_skipped :: "(Note \<times> string) list"
  lq_errors :: "(Note option \<times> string) list"

definition empty_liquidation :: liquidation where
  "empty_liquidation = \<lparr>lq_withdrawn = 0, lq_settled = 0, lq_closed = 0, lq_reclaimed = 0, lq_skipped = [], lq_errors = []\<rparr>"

datatype counter = N_settled | N_closed | N_reclaimed

fun counted :: "counter \<Rightarrow> liquidation \<Rightarrow> liquidation" where
  "counted N_settled q = q\<lparr>lq_settled := lq_settled q + 1\<rparr>"
| "counted N_closed q = q\<lparr>lq_closed := lq_closed q + 1\<rparr>"
| "counted N_reclaimed q = q\<lparr>lq_reclaimed := lq_reclaimed q + 1\<rparr>"

text \<open>Booking the outcome of one step: done, left open for a reason, or an exception.\<close>

fun book :: "counter \<Rightarrow> Note \<Rightarrow> string + flow_result \<Rightarrow> liquidation \<Rightarrow> liquidation" where
  "book k receipt (Inr (FDone c)) q = counted k q"
| "book k receipt (Inr (FOpen r)) q = q\<lparr>lq_skipped := lq_skipped q @ [(receipt, r)]\<rparr>"
| "book k receipt (Inl e) q = q\<lparr>lq_errors := lq_errors q @ [(Some receipt, e)]\<rparr>"

type_synonym times = "nat \<Rightarrow> nat \<Rightarrow> flow_env"

fun settle_all :: "times \<Rightarrow> string \<Rightarrow> nat \<Rightarrow> ReadyToSettleBet list \<Rightarrow> liquidation \<times> session \<Rightarrow> liquidation \<times> session" where
  "settle_all envs wallet i [] qs = qs"
| "settle_all envs wallet i (r # rs) (q, s) =
     (let (out, s1) = settlePosition (envs i 0) wallet (rs_receipt r) (rs_claimAmount r) s
      in settle_all envs wallet (i + 1) rs (book N_settled (rs_receipt r) out q, s1))"

fun reclaim_all :: "times \<Rightarrow> string \<Rightarrow> nat \<Rightarrow> Note list \<Rightarrow> liquidation \<times> session \<Rightarrow> liquidation \<times> session" where
  "reclaim_all envs wallet i [] qs = qs"
| "reclaim_all envs wallet i (r # rs) (q, s) =
     (let (out, s1) = reclaimBet (envs i) wallet r s
      in reclaim_all envs wallet (i + 1) rs (book N_reclaimed r out q, s1))"

text \<open>What becomes of one open position, by the record of the vault.\<close>

definition liquidate_one :: "(nat \<Rightarrow> flow_env) \<Rightarrow> string \<Rightarrow> Note \<Rightarrow> liquidation \<times> session \<Rightarrow> liquidation \<times> session" where
  "liquidate_one envs wallet receipt qs =
     (case qs of (q, s) \<Rightarrow>
        let nob = bet_key receipt in
        case vr_record (fl_reads (envs 0)) nob of
          None \<Rightarrow> (book N_closed receipt (Inl ''rpc'') q, s)
        | Some rec \<Rightarrow>
            if credited_status (br_status rec) then (q, on_browser (markBetReceiptSpent nob) s)
            else if br_status rec = ST_RESTING then
              (let (out, s1) = reclaimBet (\<lambda>i. envs (i + 1)) wallet receipt s in (book N_reclaimed receipt out q, s1))
            else if given (nt_position_id receipt) \<and> br_expectedShares rec > br_soldShares rec \<and> br_expectedShares rec > 0 then
              (let (out, s1) = closePositionFull (\<lambda>i. envs (i + 1)) wallet receipt s in (book N_closed receipt out q, s1))
            else
              (let (out, s1) = reclaimBet (\<lambda>i. envs (i + 1)) wallet receipt s in (book N_reclaimed receipt out q, s1)))"

fun liquidate_all :: "times \<Rightarrow> string \<Rightarrow> nat \<Rightarrow> Note list \<Rightarrow> liquidation \<times> session \<Rightarrow> liquidation \<times> session" where
  "liquidate_all envs wallet i [] qs = qs"
| "liquidate_all envs wallet i (r # rs) qs = liquidate_all envs wallet (i + 1) rs (liquidate_one (envs i) wallet r qs)"

definition retire_lost :: "Note list \<Rightarrow> session \<Rightarrow> session" where
  "retire_lost ns s = on_browser (\<lambda>b. foldl (\<lambda>b n. markBetReceiptSpent (bet_key n) b) b ns) s"

definition reload :: "flow_env \<Rightarrow> string \<Rightarrow> session \<Rightarrow> (string + PortfolioState) \<times> session" where
  "reload env wallet s =
     (let b1 = snd (reconcileSpentStatus (vr_chain (fl_reads env)) wallet (sn_browser s));
          (st, b2) = loadPortfolioState (fl_crypto env) (fl_reads env) wallet b1
      in (st, s\<lparr>sn_browser := b2\<rparr>))"

text \<open>
  \<open>envs p i k\<close> is the world in phase \<open>p\<close> at item \<open>i\<close>, step \<open>k\<close>.  A portfolio that
  cannot be loaded ends the run; a step that fails is booked and the run goes on.
\<close>

definition settleCloseAndWithdraw :: "(nat \<Rightarrow> times) \<Rightarrow> string \<Rightarrow> session \<Rightarrow> (string + liquidation) \<times> session" where
  "settleCloseAndWithdraw envs wallet s =
     (case reload (envs 0 0 0) wallet s of
        (Inl e, s0) \<Rightarrow> (Inl e, s0)
      | (Inr p1, s0) \<Rightarrow>
          let (q1, s1) = settle_all (envs 1) wallet 0 (pf_readyToSettle p1) (empty_liquidation, s0) in
          (case reload (envs 2 0 0) wallet s1 of
             (Inl e, s2) \<Rightarrow> (Inl e, s2)
           | (Inr p2, s2) \<Rightarrow>
               let (q3, s3) = reclaim_all (envs 3) wallet 0 (pf_unfilledResolved p2) (q1, retire_lost (pf_lostBets p2) s2) in
               (case reload (envs 4 0 0) wallet s3 of
                  (Inl e, s4) \<Rightarrow> (Inl e, s4)
                | (Inr p4, s4) \<Rightarrow>
                    let open_rs = filter (\<lambda>r. nt_id r \<notin> set (map nt_id (pf_lostBets p4))) (pf_openReceipts p4);
                        (q5, s5) = liquidate_all (envs 5) wallet 0 open_rs (q3, retire_lost (pf_lostBets p4) s4);
                        (w, s6) = withdrawClearLineages (envs 6 0) wallet s5
                    in (Inr (q5\<lparr>lq_withdrawn := w\<rparr>), s6))))"

end
