(* ===== verification/Note_Recovery.thy ===== *)
theory Note_Recovery
  imports Note_Store "HOL-Library.Product_Lexorder"
begin

section \<open>Recovering a wallet's notes from the chain\<close>

text \<open>
  The recovery of \<open>frontend/src/lib/notes.ts\<close>: the vault's events are read, the
  wallet's deposits are matched to secrets, and each deposit's lineage is replayed.
  The code mutates a receipt after it pushed it on the result; the model keeps the
  position of each receipt in the result and updates it there.
\<close>

subsection \<open>Events\<close>

record bet_log =
  bl_nullifier :: string
  bl_market_id :: string
  bl_position_id :: "string option"
  bl_expected_shares :: int
  bl_bet_amount :: int
  bl_outcome_side :: nat
  bl_new_commitment :: string
  bl_protocolFee :: "int option"
  bl_relayFee :: "int option"

text \<open>The spending events: nullifier, nullifier of the bet, new commitment.\<close>

datatype chain_event =
    EvBet bet_log
  | EvSettle string string string
  | EvBetCancel string string string
  | EvNaCancel string string string
  | EvPartial string string string
  | EvClose string string string bool
  | EvConsolidate "string list" string
  | EvWithdraw string string int string

record log_entry =
  lg_block :: int
  lg_idx :: int
  lg_tx :: string
  lg_event :: chain_event

record deposit_log =
  dl_commitment :: string
  dl_amount :: int
  dl_block :: int
  dl_tx :: string

record sold_log =
  so_bet :: string
  so_shares :: int
  so_proceeds :: int
  so_block :: int
  so_idx :: int

text \<open>What the paged reads return, by kind.\<close>

record vault_logs =
  vl_deposits :: "deposit_log list"
  vl_bets :: "log_entry list"
  vl_settlements :: "log_entry list"
  vl_betCancels :: "log_entry list"
  vl_naCancels :: "log_entry list"
  vl_partials :: "log_entry list"
  vl_withdrawals :: "log_entry list"
  vl_closes :: "log_entry list"
  vl_consolidations :: "log_entry list"
  vl_sold :: "sold_log list"

subsection \<open>Paged reads\<close>

text \<open>
  \<open>fetch\<close> answers one range; a failure halves the window, and a single block that
  fails ends the read.  The window is not widened again.
\<close>

function getLogsPaged :: "(int \<Rightarrow> int \<Rightarrow> string + 'a list) \<Rightarrow> int \<Rightarrow> int \<Rightarrow> nat \<Rightarrow> string + 'a list" where
  "getLogsPaged fetch a toBlock width =
     (if a > toBlock \<or> width = 0 then Inr []
      else let b = (if a + int width - 1 > toBlock then toBlock else a + int width - 1)
           in case fetch a b of
                Inr xs \<Rightarrow> bind_sum (getLogsPaged fetch (b + 1) toBlock width) (\<lambda>ys. Inr (xs @ ys))
              | Inl e \<Rightarrow>
                  if b = a then Inl e
                  else getLogsPaged fetch a toBlock (if width div 2 > 0 then width div 2 else 1))"
  by pat_completeness auto
termination
  by (relation "measures [\<lambda>(fetch, a, t, width). nat (t + 1 - a), \<lambda>(fetch, a, t, width). width]")
    (auto split: if_splits)

declare getLogsPaged.simps [simp del]

text \<open>What the relay serves: the recorded events of a name and a range.\<close>

definition shim_getLogs :: "('e \<Rightarrow> string) \<Rightarrow> ('e \<Rightarrow> int) \<Rightarrow> 'e list \<Rightarrow> string \<Rightarrow> int \<Rightarrow> int \<Rightarrow> string + 'e list" where
  "shim_getLogs name_of block_of evs name a b =
     Inr (filter (\<lambda>e. block_of e \<le> b) (filter (\<lambda>e. block_of e \<ge> a) (filter (\<lambda>e. name_of e = name) evs)))"

subsection \<open>Replaying one lineage\<close>

text \<open>
  The reads of the replay: block times in seconds, the vault's fee settings, its
  credit per share of a market and outcome, and the shares and stake of a bet's
  record; \<open>None\<close> where the read fails.
\<close>

record recovery_env =
  re_now :: int
  re_time :: "int \<Rightarrow> int option"
  re_fee :: "(int \<times> int) option"
  re_pendingCredit :: "string \<Rightarrow> nat \<Rightarrow> int option"
  re_betRecord :: "string \<Rightarrow> (int \<times> int) option"

record lineage =
  ln_balance :: int
  ln_nonce :: int
  ln_commitment :: string
  ln_nullifier :: string
  ln_kind :: NoteKind
  ln_spent :: bool
  ln_createdAt :: int

text \<open>What a replay is given: the lineage's index, secret and version, and which pass it is.\<close>

record replay_ctx =
  rx_crypto :: crypto
  rx_env :: recovery_env
  rx_address :: string
  rx_index :: nat
  rx_secret :: string
  rx_version :: nat
  rx_final :: bool

record replay =
  rp_ln :: lineage
  rp_notes :: "Note list"
  rp_activity :: "WalletActivityEvent list"
  rp_receipts :: "(string \<times> nat) list"
  rp_sold :: "(string \<times> (int \<times> int) list) list"
  rp_balances :: "(string \<times> int) list"

definition ZERO_NULL :: string where "ZERO_NULL = ''0x'' @ replicate 64 (CHR ''0'')"

definition tsOf :: "recovery_env \<Rightarrow> int \<Rightarrow> int" where
  "tsOf env blk = (case re_time env blk of Some t \<Rightarrow> t * 1000 | None \<Rightarrow> re_now env)"

definition spends :: "string \<Rightarrow> replay \<Rightarrow> bool" where
  "spends nf rp \<longleftrightarrow> lower nf = lower (ln_nullifier (rp_ln rp)) \<and> \<not> ln_spent (rp_ln rp)"

definition pushFree :: "replay_ctx \<Rightarrow> string option \<Rightarrow> replay \<Rightarrow> replay" where
  "pushFree c tx rp =
     (let s = rp_ln rp in
      rp\<lparr>rp_notes := rp_notes rp @ [plain_note (ln_commitment s) (ln_kind s) (rx_address c) (rx_index c) (ln_balance s)
           (ln_nonce s) (ln_commitment s) (ln_nullifier s) (ln_spent s) (ln_createdAt s) tx (Some (rx_version c))]\<rparr>)"

text \<open>\<open>state.spent = true; pushFree(state, ev.tx)\<close>.\<close>

definition retire :: "replay_ctx \<Rightarrow> string \<Rightarrow> replay \<Rightarrow> replay" where
  "retire c tx rp = pushFree c (Some tx) (rp\<lparr>rp_ln := (rp_ln rp)\<lparr>ln_spent := True\<rparr>\<rparr>)"

definition next_state :: "replay_ctx \<Rightarrow> int \<Rightarrow> string \<Rightarrow> NoteKind \<Rightarrow> int \<Rightarrow> replay \<Rightarrow> replay" where
  "next_state c bal newc k ts rp =
     (let nonce = ln_nonce (rp_ln rp) + 1 in
      rp\<lparr>rp_ln := \<lparr>ln_balance = bal, ln_nonce = nonce, ln_commitment = newc,
          ln_nullifier = computeNullifier (rx_crypto c) (rx_secret c) nonce, ln_kind = k, ln_spent = False,
          ln_createdAt = ts\<rparr>\<rparr>)"

definition receipt_at :: "string \<Rightarrow> replay \<Rightarrow> Note option" where
  "receipt_at nob rp = map_option (\<lambda>i. rp_notes rp ! i) (map_of (rp_receipts rp) (lower nob))"

definition update_receipt :: "string \<Rightarrow> (Note \<Rightarrow> Note) \<Rightarrow> replay \<Rightarrow> replay" where
  "update_receipt nob f rp =
     (case map_of (rp_receipts rp) (lower nob) of
        None \<Rightarrow> rp
      | Some i \<Rightarrow> rp\<lparr>rp_notes := (rp_notes rp)[i := f (rp_notes rp ! i)]\<rparr>)"

definition log_activity :: "replay_ctx \<Rightarrow> string \<Rightarrow> activity_kind \<Rightarrow> int \<Rightarrow> int \<Rightarrow> string \<Rightarrow> string option \<Rightarrow> string option
    \<Rightarrow> string option \<Rightarrow> int option \<Rightarrow> replay \<Rightarrow> replay" where
  "log_activity c i k amt ts tx market rid rnf pay rp =
     rp\<lparr>rp_activity := rp_activity rp @ [\<lparr>wa_id = i, wa_wallet = rx_address c, wa_kind = k, wa_amount = amt,
        wa_createdAt = ts, wa_txHash = Some tx, wa_marketId = market, wa_receiptId = rid,
        wa_receiptNullifier = rnf, wa_payout = pay\<rparr>]\<rparr>"

definition zero_or :: "int option \<Rightarrow> int" where
  "zero_or x = (case x of Some v \<Rightarrow> v | None \<Rightarrow> 0)"

subsubsection \<open>Bets\<close>

definition post_bet_balance :: "replay_ctx \<Rightarrow> bet_log \<Rightarrow> lineage \<Rightarrow> int" where
  "post_bet_balance c b s =
     (case bl_protocolFee b of
        Some pf \<Rightarrow> ln_balance s - bl_bet_amount b - pf - zero_or (bl_relayFee b)
      | None \<Rightarrow>
          let (bps, gas) = (case re_fee (rx_env c) of Some f \<Rightarrow> f | None \<Rightarrow> (0, 0));
              fee = big_div (bl_bet_amount b * bps) 10000 + gas;
              nb = ln_balance s - bl_bet_amount b - fee
          in if fee > 0 \<and> lower (computeCommitment (rx_crypto c) (rx_secret c) nb (ln_nonce s + 1) (rx_address c))
                          \<noteq> lower (bl_new_commitment b)
             then ln_balance s - bl_bet_amount b else nb)"

definition receipt_id :: "string \<Rightarrow> string" where
  "receipt_id nf = ''receipt-'' @ nf"

definition bet_receipt :: "replay_ctx \<Rightarrow> bet_log \<Rightarrow> int \<Rightarrow> string \<Rightarrow> lineage \<Rightarrow> Note" where
  "bet_receipt c b ts tx s =
     (plain_note (receipt_id (bl_nullifier b)) BET_RECEIPT (rx_address c) (rx_index c) (bl_bet_amount b) (ln_nonce s)
        (receipt_id (bl_nullifier b)) (bl_nullifier b) False ts (Some tx) (Some (rx_version c)))
     \<lparr>nt_nullifier_of_bet := Some (bl_nullifier b), nt_position_id := bl_position_id b,
      nt_condition_id := Some (bl_market_id b), nt_marketId := Some (bl_market_id b),
      nt_bet_amount := Some (bl_bet_amount b), nt_expectedShares := Some (bl_expected_shares b),
      nt_protocolFee := bl_protocolFee b\<rparr>"

definition replay_bet :: "replay_ctx \<Rightarrow> log_entry \<Rightarrow> bet_log \<Rightarrow> replay \<Rightarrow> replay" where
  "replay_bet c e b rp =
     (if \<not> spends (bl_nullifier b) rp then rp
      else let ts = tsOf (rx_env c) (lg_block e); s = rp_ln rp; nb = post_bet_balance c b s;
               rp1 = retire c (lg_tx e) rp;
               rp2 = rp1\<lparr>rp_notes := rp_notes rp1 @ [bet_receipt c b ts (lg_tx e) s],
                         rp_receipts := AList.update (lower (bl_nullifier b)) (length (rp_notes rp1)) (rp_receipts rp1)\<rparr>;
               rp3 = log_activity c (''bet-'' @ lg_tx e @ ''-'' @ bl_nullifier b) A_bet (bl_bet_amount b) ts (lg_tx e)
                       (Some (bl_market_id b)) (Some (receipt_id (bl_nullifier b))) (Some (bl_nullifier b)) None rp2
           in next_state c nb (bl_new_commitment b) BET_OUTPUT ts rp3)"

subsubsection \<open>Credits\<close>

datatype credit_kind = CSettle | CBetCancel | CNaCancel

fun credit_text :: "credit_kind \<Rightarrow> string" where
  "credit_text CSettle = ''settle''"
| "credit_text CBetCancel = ''betCancel''"
| "credit_text CNaCancel = ''naCancel''"

text \<open>A number that is there and not zero: the code's test of an optional amount.\<close>

definition truthy :: "int option \<Rightarrow> bool" where
  "truthy x \<longleftrightarrow> x \<noteq> None \<and> x \<noteq> Some 0"

definition credited_balance :: "replay_ctx \<Rightarrow> credit_kind \<Rightarrow> Note option \<Rightarrow> int \<Rightarrow> int" where
  "credited_balance c k receipt old =
     (case receipt of
        None \<Rightarrow> old
      | Some r \<Rightarrow>
          if k = CSettle \<and> truthy (nt_expectedShares r) then
            (case Option.bind (nt_condition_id r)
                    (\<lambda>m. re_pendingCredit (rx_env c) m (if nt_side r = Some NO then 1 else 0)) of
               Some payout \<Rightarrow> old + zero_or (nt_expectedShares r) * payout
             | None \<Rightarrow> old)
          else if truthy (nt_bet_amount r) then
            old + zero_or (nt_bet_amount r) + (if k = CBetCancel then zero_or (nt_protocolFee r) else 0)
          else old)"

definition replay_credit :: "replay_ctx \<Rightarrow> log_entry \<Rightarrow> credit_kind \<Rightarrow> string \<Rightarrow> string \<Rightarrow> string \<Rightarrow> replay \<Rightarrow> replay" where
  "replay_credit c e k nf nob newc rp =
     (if \<not> spends nf rp then rp
      else let ts = tsOf (rx_env c) (lg_block e);
               rp1 = update_receipt nob (\<lambda>r. r\<lparr>nt_spent := True\<rparr>) rp;
               receipt = receipt_at nob rp1; old = ln_balance (rp_ln rp1);
               nb = credited_balance c k receipt old;
               rp2 = log_activity c (credit_text k @ ''-'' @ lg_tx e @ ''-'' @ nob)
                       (if k = CSettle then A_settlement else A_refund) (nb - old) ts (lg_tx e)
                       (Option.bind receipt nt_marketId) (map_option nt_id receipt) (Some nob) (Some (nb - old))
                       (retire c (lg_tx e) rp1)
           in next_state c nb newc (if k = CSettle then SETTLE_CREDIT else CANCEL_CREDIT) ts rp2)"

definition partial_refund :: "Note option \<Rightarrow> (int \<times> int) option \<Rightarrow> int" where
  "partial_refund receipt filled_spent =
     (let committed = zero_or (Option.bind receipt nt_bet_amount) in
      case filled_spent of
        None \<Rightarrow> 0
      | Some (filled, spent) \<Rightarrow>
          if committed > spent then
            (let unexec = committed - spent;
                 fee = zero_or (Option.bind receipt nt_protocolFee)
             in unexec + (if committed > 0 then big_div (fee * unexec) committed else 0))
          else 0)"

definition normalize :: "(int \<times> int) option \<Rightarrow> Note \<Rightarrow> Note" where
  "normalize filled_spent r =
     (case filled_spent of None \<Rightarrow> r
      | Some (filled, spent) \<Rightarrow> r\<lparr>nt_expectedShares := Some filled, nt_bet_amount := Some spent\<rparr>)"

definition replay_partial :: "replay_ctx \<Rightarrow> log_entry \<Rightarrow> string \<Rightarrow> string \<Rightarrow> string \<Rightarrow> replay \<Rightarrow> replay" where
  "replay_partial c e nf nob newc rp =
     (if \<not> spends nf rp then rp
      else let ts = tsOf (rx_env c) (lg_block e);
               receipt = receipt_at nob rp; filled_spent = re_betRecord (rx_env c) nob;
               refund = partial_refund receipt filled_spent; old = ln_balance (rp_ln rp);
               rp1 = update_receipt nob (normalize filled_spent) (retire c (lg_tx e) rp);
               rp2 = (if refund > 0
                      then log_activity c (''partial-'' @ lg_tx e @ ''-'' @ nob) A_refund refund ts (lg_tx e)
                             (Option.bind receipt nt_marketId) (map_option nt_id receipt) (Some nob) (Some refund) rp1
                      else rp1)
           in next_state c (old + refund) newc CANCEL_CREDIT ts rp2)"

text \<open>The first sale reported for the bet and not used yet.\<close>

definition first_sale :: "string \<Rightarrow> (string \<times> (int \<times> int) list) list \<Rightarrow> (int \<times> int) option" where
  "first_sale nob tab = (case map_of tab (lower nob) of Some (x # xs) \<Rightarrow> Some x | _ \<Rightarrow> None)"

definition shift_sale :: "string \<Rightarrow> (string \<times> (int \<times> int) list) list \<Rightarrow> (string \<times> (int \<times> int) list) list" where
  "shift_sale nob tab = (case map_of tab (lower nob) of Some (x # xs) \<Rightarrow> AList.update (lower nob) xs tab | _ \<Rightarrow> tab)"

definition close_receipt :: "bool \<Rightarrow> (int \<times> int) option \<Rightarrow> Note \<Rightarrow> Note" where
  "close_receipt fullClose sale r =
     (if fullClose then r\<lparr>nt_spent := True\<rparr>
      else case (sale, nt_expectedShares r) of
             (Some (proceeds, sold), Some es) \<Rightarrow> r\<lparr>nt_expectedShares := Some (es - sold)\<rparr>
           | _ \<Rightarrow> r)"

definition replay_close :: "replay_ctx \<Rightarrow> log_entry \<Rightarrow> string \<Rightarrow> string \<Rightarrow> string \<Rightarrow> bool \<Rightarrow> replay \<Rightarrow> replay" where
  "replay_close c e nf nob newc fullClose rp =
     (if \<not> spends nf rp then rp
      else let ts = tsOf (rx_env c) (lg_block e);
               sale = first_sale nob (rp_sold rp);
               proceeds = (case sale of Some (p, s) \<Rightarrow> p | None \<Rightarrow> 0);
               rp1 = update_receipt nob (close_receipt fullClose sale) (rp\<lparr>rp_sold := shift_sale nob (rp_sold rp)\<rparr>);
               receipt = receipt_at nob rp1; old = ln_balance (rp_ln rp1);
               rp2 = log_activity c (''close-'' @ lg_tx e @ ''-'' @ nob) A_settlement proceeds ts (lg_tx e)
                       (Option.bind receipt nt_marketId) (map_option nt_id receipt) (Some nob) (Some proceeds)
                       (retire c (lg_tx e) rp1)
           in next_state c (old + proceeds) newc SETTLE_CREDIT ts rp2)"

subsubsection \<open>Withdrawals and merges\<close>

definition replay_withdraw :: "replay_ctx \<Rightarrow> log_entry \<Rightarrow> string \<Rightarrow> int \<Rightarrow> string \<Rightarrow> replay \<Rightarrow> replay" where
  "replay_withdraw c e nf amt newc rp =
     (if \<not> spends nf rp then rp
      else let ts = tsOf (rx_env c) (lg_block e); old = ln_balance (rp_ln rp);
               rp1 = log_activity c (''withdrawal-'' @ lg_tx e) A_withdrawal amt ts (lg_tx e) None None None None
                       (retire c (lg_tx e) rp)
           in if newc = ZERO_NULL then rp1\<lparr>rp_ln := (rp_ln rp1)\<lparr>ln_balance := 0, ln_spent := True\<rparr>\<rparr>
              else next_state c (old - amt) newc BET_OUTPUT ts rp1)"

definition merged_sum :: "string list \<Rightarrow> (string \<times> int) list \<Rightarrow> int" where
  "merged_sum nl tab = sum_list (map (\<lambda>n. if n = ZERO_NULL then 0 else zero_or (map_of tab n)) nl)"

definition replay_consolidate :: "replay_ctx \<Rightarrow> log_entry \<Rightarrow> string list \<Rightarrow> string \<Rightarrow> replay \<Rightarrow> replay" where
  "replay_consolidate c e nullifiers newc rp =
     (let nl = map lower nullifiers; cur = lower (ln_nullifier (rp_ln rp)) in
      if cur \<notin> set nl \<or> ln_spent (rp_ln rp) then rp
      else let rp1 = retire c (lg_tx e)
                 (rp\<lparr>rp_balances := AList.update cur (ln_balance (rp_ln rp)) (rp_balances rp)\<rparr>)
           in if cur \<noteq> nl ! 0 \<or> \<not> rx_final c then rp1
              else next_state c (merged_sum nl (rp_balances rp1)) newc BET_OUTPUT (tsOf (rx_env c) (lg_block e)) rp1)"

subsubsection \<open>The lineage\<close>

definition replay_event :: "replay_ctx \<Rightarrow> replay \<Rightarrow> log_entry \<Rightarrow> replay" where
  "replay_event c rp e =
     (case lg_event e of
        EvBet b \<Rightarrow> replay_bet c e b rp
      | EvSettle nf nob newc \<Rightarrow> replay_credit c e CSettle nf nob newc rp
      | EvBetCancel nf nob newc \<Rightarrow> replay_credit c e CBetCancel nf nob newc rp
      | EvNaCancel nf nob newc \<Rightarrow> replay_credit c e CNaCancel nf nob newc rp
      | EvPartial nf nob newc \<Rightarrow> replay_partial c e nf nob newc rp
      | EvClose nf nob newc full \<Rightarrow> replay_close c e nf nob newc full rp
      | EvConsolidate nfs newc \<Rightarrow> replay_consolidate c e nfs newc rp
      | EvWithdraw nf recipient amt newc \<Rightarrow> replay_withdraw c e nf amt newc rp)"

text \<open>
  All spending events in the order of the chain; of the withdrawals only those to
  the wallet.  Two entries never share block and index, so the last tie-break, on
  the transaction hash, is left out.
\<close>

fun recipient_of :: "chain_event \<Rightarrow> string" where
  "recipient_of (EvWithdraw nf recipient amt newc) = recipient"
| "recipient_of _ = ''''"

definition timeline :: "string \<Rightarrow> vault_logs \<Rightarrow> log_entry list" where
  "timeline address vl = sort_key (\<lambda>e. (lg_block e, lg_idx e))
     (vl_bets vl @ vl_settlements vl @ vl_betCancels vl @ vl_naCancels vl @ vl_partials vl @ vl_closes vl @
      vl_consolidations vl @ filter (\<lambda>e. sameAddress (recipient_of (lg_event e)) address) (vl_withdrawals vl))"

definition start_state :: "replay_ctx \<Rightarrow> deposit_log \<Rightarrow> lineage" where
  "start_state c d =
     \<lparr>ln_balance = dl_amount d, ln_nonce = 0, ln_commitment = dl_commitment d,
      ln_nullifier = computeNullifier (rx_crypto c) (rx_secret c) 0, ln_kind = DEPOSIT, ln_spent = False,
      ln_createdAt = tsOf (rx_env c) (dl_block d)\<rparr>"

definition start_replay :: "replay_ctx \<Rightarrow> deposit_log \<Rightarrow> Note list \<Rightarrow> WalletActivityEvent list
    \<Rightarrow> (string \<times> (int \<times> int) list) list \<Rightarrow> (string \<times> int) list \<Rightarrow> replay" where
  "start_replay c d notes acts sold bals =
     log_activity c (''deposit-'' @ dl_tx d @ ''-'' @ to_string10 (rx_index c)) A_deposit (dl_amount d)
       (tsOf (rx_env c) (dl_block d)) (dl_tx d) None None None None
       \<lparr>rp_ln = start_state c d, rp_notes = notes, rp_activity = acts, rp_receipts = [], rp_sold = sold,
        rp_balances = bals\<rparr>"

definition push_tip :: "replay_ctx \<Rightarrow> replay \<Rightarrow> replay" where
  "push_tip c rp = (if \<not> ln_spent (rp_ln rp) \<and> ln_balance (rp_ln rp) > 0 then pushFree c None rp else rp)"

definition replayLineage :: "replay_ctx \<Rightarrow> deposit_log \<Rightarrow> log_entry list \<Rightarrow> Note list \<Rightarrow> WalletActivityEvent list
    \<Rightarrow> (string \<times> (int \<times> int) list) list \<Rightarrow> (string \<times> int) list \<Rightarrow> replay" where
  "replayLineage c d evs notes acts sold bals =
     push_tip c (foldl (replay_event c) (start_replay c d notes acts sold bals) evs)"

subsection \<open>Matching deposits to secrets\<close>

record deposit_match =
  dm_index :: nat
  dm_deposit :: deposit_log
  dm_secret :: string
  dm_version :: nat

definition findDeposit :: "crypto \<Rightarrow> string \<Rightarrow> deposit_log list \<Rightarrow> string list \<Rightarrow> string \<Rightarrow> deposit_log option" where
  "findDeposit cx address ds matched secret =
     List.find (\<lambda>d. lower (dl_commitment d) \<notin> set matched \<and>
       lower (computeCommitment cx secret (dl_amount d) 0 address) = lower (dl_commitment d)) ds"

definition matched_of :: "deposit_match list \<Rightarrow> string list" where
  "matched_of ms = map (\<lambda>m. lower (dl_commitment (dm_deposit m))) ms"

text \<open>
  The scan over the indices from \<open>i\<close>: it stops at the cap, when every deposit is
  matched, or after \<open>gap\<close> empty indices in a row.  \<open>secret_at\<close> gives an index's
  secret (\<open>None\<close>: the user refused to sign), \<open>taken\<close> the indices to skip.
\<close>

function scan_indices :: "(deposit_match list \<Rightarrow> string \<Rightarrow> deposit_log option) \<Rightarrow> nat \<Rightarrow> nat \<Rightarrow> nat
    \<Rightarrow> (nat \<Rightarrow> string option) \<Rightarrow> nat list \<Rightarrow> nat \<Rightarrow> nat \<Rightarrow> nat \<Rightarrow> deposit_match list \<Rightarrow> deposit_match list option" where
  "scan_indices look cap quota gap secret_at taken version i misses ms =
     (if \<not> (i < cap \<and> length ms < quota \<and> misses < gap) then Some ms
      else if i \<in> set taken then scan_indices look cap quota gap secret_at taken version (i + 1) misses ms
      else case secret_at i of
             None \<Rightarrow> None
           | Some secret \<Rightarrow>
               (case look ms secret of
                  None \<Rightarrow> scan_indices look cap quota gap secret_at taken version (i + 1) (misses + 1) ms
                | Some d \<Rightarrow> scan_indices look cap quota gap secret_at taken version (i + 1) 0
                    (ms @ [\<lparr>dm_index = i, dm_deposit = d, dm_secret = secret, dm_version = version\<rparr>])))"
  by pat_completeness auto
termination
  by (relation "measure (\<lambda>(look, cap, quota, gap, secret_at, taken, version, i, misses, ms). cap - i)") auto

declare scan_indices.simps [simp del]

definition match_deposits :: "crypto \<Rightarrow> (string \<Rightarrow> string option) \<Rightarrow> string option \<Rightarrow> string \<Rightarrow> nat \<Rightarrow> nat
    \<Rightarrow> deposit_log list \<Rightarrow> deposit_match list option" where
  "match_deposits cx sign seed address gap cap ds =
     (let look = (\<lambda>ms secret. findDeposit cx address ds (matched_of ms) secret);
          v2 = (case seed of
                  None \<Rightarrow> Some []
                | Some s \<Rightarrow> scan_indices look cap (length ds) gap (\<lambda>i. Some (deriveSecretV2 cx s i)) [] 2 0 0 [])
      in Option.bind v2 (\<lambda>ms. scan_indices look cap (length ds) gap (deriveSecret cx sign address)
                               (map dm_index ms) 1 0 0 ms))"

subsection \<open>The whole recovery\<close>

definition buildSoldByBet :: "sold_log list \<Rightarrow> (string \<times> (int \<times> int) list) list" where
  "buildSoldByBet ss =
     foldl (\<lambda>tab s. AList.update (lower (so_bet s))
              ((case map_of tab (lower (so_bet s)) of Some xs \<Rightarrow> xs | None \<Rightarrow> []) @ [(so_proceeds s, so_shares s)]) tab)
       [] (sort_key (\<lambda>s. (so_block s, so_idx s)) ss)"

definition ctx_of :: "crypto \<Rightarrow> recovery_env \<Rightarrow> string \<Rightarrow> bool \<Rightarrow> deposit_match \<Rightarrow> replay_ctx" where
  "ctx_of cx env address final m = \<lparr>rx_crypto = cx, rx_env = env, rx_address = address, rx_index = dm_index m,
     rx_secret = dm_secret m, rx_version = dm_version m, rx_final = final\<rparr>"

text \<open>One pass over the lineages: the notes and activity so far, the unused sales, the balances of merged notes.\<close>

definition recovery_pass :: "crypto \<Rightarrow> recovery_env \<Rightarrow> string \<Rightarrow> bool \<Rightarrow> log_entry list \<Rightarrow> deposit_match list
    \<Rightarrow> (string \<times> (int \<times> int) list) list \<Rightarrow> (string \<times> int) list
    \<Rightarrow> Note list \<times> WalletActivityEvent list \<times> (string \<times> int) list" where
  "recovery_pass cx env address final evs ms sold bals =
     (let (notes, acts, sold', bals') =
        foldl (\<lambda>(ns, as, so, ba) m.
                 let r = replayLineage (ctx_of cx env address final m) (dm_deposit m) evs ns as so ba
                 in (rp_notes r, rp_activity r, rp_sold r, rp_balances r)) ([], [], sold, bals) ms
      in (notes, acts, bals'))"

definition recoverNotesWithClient :: "crypto \<Rightarrow> recovery_env \<Rightarrow> (string \<Rightarrow> string option) \<Rightarrow> string option \<Rightarrow> string
    \<Rightarrow> nat \<Rightarrow> nat \<Rightarrow> vault_logs \<Rightarrow> browser \<Rightarrow> Note list option \<times> browser" where
  "recoverNotesWithClient cx env sign seed address gap cap vl b =
     (case match_deposits cx sign seed address gap cap (vl_deposits vl) of
        None \<Rightarrow> (None, b)
      | Some found \<Rightarrow>
          let ms = sort_key dm_index found; evs = timeline address vl; sold = buildSoldByBet (vl_sold vl);
              (n1, a1, bals) = recovery_pass cx env address False evs ms sold [];
              (notes, acts, bals2) = recovery_pass cx env address True evs ms sold bals;
              b1 = saveAll notes b;
              others = filter (\<lambda>e. \<not> sameAddress (wa_wallet e) address) (loadActivity b1)
          in (Some notes, saveActivity (others @ acts) b1))"

end
