(* ===== verification/Note_Recovery_Props.thy ===== *)
theory Note_Recovery_Props
  imports Note_Recovery
begin

section \<open>Recovery: what the replay computes\<close>

text \<open>
  The specification of a lineage is what the vault does with it
  (\<open>contracts/src/VaultLogic.sol\<close>, \<open>Vault.sol\<close> and the balance equations of the
  circuits): \<open>ledger_step\<close> is one event, \<open>None\<close> where the vault cannot have
  emitted it.  The replay is shown to simulate it.
\<close>

subsection \<open>The vault's view of a lineage\<close>

datatype bet_status = BActive | BFilled | BDone

record vault_bet =
  vb_market :: string
  vb_side :: nat
  vb_shares :: int
  vb_sold :: int
  vb_amount :: int
  vb_fee :: int
  vb_status :: bet_status

record ledger =
  ld_balance :: int
  ld_nonce :: int
  ld_live :: bool
  ld_bets :: "(string \<times> vault_bet) list"
  ld_sales :: "(string \<times> (int \<times> int) list) list"

text \<open>
  The payout per share of a market and outcome, the shares and the cost an operator
  reported for a partly filled bet, and the balance behind a nullifier of another
  lineage.
\<close>

record vault_view =
  vv_payout :: "string \<Rightarrow> nat \<Rightarrow> int"
  vv_fill :: "string \<Rightarrow> int \<times> int"
  vv_input :: "string \<Rightarrow> int"

definition own_nullifier :: "replay_ctx \<Rightarrow> int \<Rightarrow> string" where
  "own_nullifier c nonce = lower (computeNullifier (rx_crypto c) (rx_secret c) nonce)"

definition mine :: "replay_ctx \<Rightarrow> string \<Rightarrow> ledger \<Rightarrow> bool" where
  "mine c nf l \<longleftrightarrow> ld_live l \<and> lower nf = own_nullifier c (ld_nonce l)"

text \<open>The lineage's nullifiers up to the current note: the vault takes each once.\<close>

definition used_nullifiers :: "replay_ctx \<Rightarrow> ledger \<Rightarrow> string set" where
  "used_nullifiers c l = set (map (own_nullifier c) [0..ld_nonce l])"

definition advance :: "replay_ctx \<Rightarrow> int \<Rightarrow> string \<Rightarrow> ledger \<Rightarrow> ledger option" where
  "advance c bal newc l =
     (if newc = computeCommitment (rx_crypto c) (rx_secret c) bal (ld_nonce l + 1) (rx_address c)
      then Some (l\<lparr>ld_balance := bal, ld_nonce := ld_nonce l + 1\<rparr>) else None)"

definition set_bet :: "string \<Rightarrow> vault_bet \<Rightarrow> ledger \<Rightarrow> ledger" where
  "set_bet nob v l = l\<lparr>ld_bets := AList.update (lower nob) v (ld_bets l)\<rparr>"

definition settle_bet :: "replay_ctx \<Rightarrow> string \<Rightarrow> string \<Rightarrow> (vault_bet \<Rightarrow> (int \<times> vault_bet) option) \<Rightarrow> ledger \<Rightarrow> ledger option" where
  "settle_bet c nob newc f l =
     Option.bind (map_of (ld_bets l) (lower nob)) (\<lambda>v. Option.bind (f v) (\<lambda>(credit, v').
       advance c (ld_balance l + credit) newc (set_bet nob v' l)))"

definition vault_merge :: "vault_view \<Rightarrow> string \<Rightarrow> int \<Rightarrow> string list \<Rightarrow> int" where
  "vault_merge vv cur bal nl =
     sum_list (map (\<lambda>n. if n = ZERO_NULL then 0 else if n = cur then bal else vv_input vv n) nl)"

definition vault_settle :: "vault_view \<Rightarrow> vault_bet \<Rightarrow> (int \<times> vault_bet) option" where
  "vault_settle vv v = (if vb_status v = BDone then None
     else Some ((vb_shares v - vb_sold v) * vv_payout vv (vb_market v) (vb_side v), v\<lparr>vb_status := BDone\<rparr>))"

definition vault_cancel :: "vault_bet \<Rightarrow> (int \<times> vault_bet) option" where
  "vault_cancel v = (if vb_status v \<noteq> BActive then None else Some (vb_amount v + vb_fee v, v\<lparr>vb_status := BDone\<rparr>))"

definition vault_na :: "vault_bet \<Rightarrow> (int \<times> vault_bet) option" where
  "vault_na v = (if vb_status v = BDone \<or> vb_sold v > 0 then None else Some (vb_amount v, v\<lparr>vb_status := BDone\<rparr>))"

definition vault_partial :: "int \<times> int \<Rightarrow> vault_bet \<Rightarrow> (int \<times> vault_bet) option" where
  "vault_partial fl v =
     (case fl of (filled, spent) \<Rightarrow>
        if vb_status v \<noteq> BActive \<or> \<not> (0 < filled \<and> filled < vb_shares v \<and> 0 < spent \<and> spent \<le> vb_amount v) then None
        else Some (vb_amount v - spent + vb_fee v * (vb_amount v - spent) div vb_amount v,
               v\<lparr>vb_shares := filled, vb_amount := spent, vb_fee := 0, vb_status := BFilled\<rparr>))"

definition vault_close :: "bool \<Rightarrow> int \<times> int \<Rightarrow> vault_bet \<Rightarrow> (int \<times> vault_bet) option" where
  "vault_close full sale v =
     (case sale of (proceeds, sold) \<Rightarrow>
        if vb_status v = BDone \<or> \<not> (0 < sold \<and> vb_sold v + sold \<le> vb_shares v) \<or>
           full \<noteq> (vb_sold v + sold = vb_shares v) then None
        else Some (proceeds, v\<lparr>vb_sold := vb_sold v + sold, vb_status := (if full then BDone else BFilled)\<rparr>))"

definition ledger_step :: "replay_ctx \<Rightarrow> vault_view \<Rightarrow> ledger \<Rightarrow> chain_event \<Rightarrow> ledger option" where
  "ledger_step c vv l e =
     (case e of
        EvBet b \<Rightarrow>
          if \<not> mine c (bl_nullifier b) l then Some l
          else (case bl_protocolFee b of
                  None \<Rightarrow> None
                | Some pf \<Rightarrow>
                    if \<not> (0 < bl_bet_amount b \<and> 0 < bl_expected_shares b \<and> 0 \<le> pf) \<or>
                       map_of (ld_bets l) (lower (bl_nullifier b)) \<noteq> None then None
                    else advance c (ld_balance l - bl_bet_amount b - pf - zero_or (bl_relayFee b)) (bl_new_commitment b)
                           (set_bet (bl_nullifier b) \<lparr>vb_market = bl_market_id b, vb_side = bl_outcome_side b,
                              vb_shares = bl_expected_shares b, vb_sold = 0, vb_amount = bl_bet_amount b, vb_fee = pf,
                              vb_status = BActive\<rparr> l))
      | EvSettle nf nob newc \<Rightarrow> if \<not> mine c nf l then Some l else settle_bet c nob newc (vault_settle vv) l
      | EvBetCancel nf nob newc \<Rightarrow> if \<not> mine c nf l then Some l else settle_bet c nob newc vault_cancel l
      | EvNaCancel nf nob newc \<Rightarrow> if \<not> mine c nf l then Some l else settle_bet c nob newc vault_na l
      | EvPartial nf nob newc \<Rightarrow>
          if \<not> mine c nf l then Some l else settle_bet c nob newc (vault_partial (vv_fill vv (lower nob))) l
      | EvClose nf nob newc full \<Rightarrow>
          if \<not> mine c nf l then Some l
          else (case first_sale nob (ld_sales l) of
                  None \<Rightarrow> None
                | Some sale \<Rightarrow> settle_bet c nob newc (vault_close full sale) (l\<lparr>ld_sales := shift_sale nob (ld_sales l)\<rparr>))
      | EvConsolidate nfs newc \<Rightarrow>
          let nl = map lower nfs; cur = own_nullifier c (ld_nonce l) in
          if \<not> ld_live l \<or> cur \<notin> set nl then Some l
          else if cur \<noteq> nl ! 0 then Some (l\<lparr>ld_live := False\<rparr>)
          else if \<exists>n\<in>set nl. n \<noteq> cur \<and> n \<noteq> ZERO_NULL \<and> n \<in> used_nullifiers c l then None
          else advance c (vault_merge vv cur (ld_balance l) nl) newc l
      | EvWithdraw nf recipient amt newc \<Rightarrow>
          if \<not> mine c nf l then Some l
          else if newc = ZERO_NULL then Some (l\<lparr>ld_balance := 0, ld_live := False\<rparr>)
          else advance c (ld_balance l - amt) newc l)"

fun ledger_run :: "replay_ctx \<Rightarrow> vault_view \<Rightarrow> ledger \<Rightarrow> log_entry list \<Rightarrow> ledger option" where
  "ledger_run c vv l [] = Some l"
| "ledger_run c vv l (e # es) = Option.bind (ledger_step c vv l (lg_event e)) (\<lambda>l'. ledger_run c vv l' es)"

definition ledger_start :: "deposit_log \<Rightarrow> (string \<times> (int \<times> int) list) list \<Rightarrow> ledger" where
  "ledger_start d sold =
     \<lparr>ld_balance = dl_amount d, ld_nonce = 0, ld_live = True, ld_bets = [], ld_sales = sold\<rparr>"

subsection \<open>Receipts and open bets\<close>

definition receipt_ok :: "string \<Rightarrow> Note \<Rightarrow> vault_bet \<Rightarrow> bool" where
  "receipt_ok k r v \<longleftrightarrow>
     nt_kind r = BET_RECEIPT \<and> map_option lower (nt_nullifier_of_bet r) = Some k \<and>
     nt_spent r = (vb_status v = BDone) \<and> nt_bet_amount r = Some (vb_amount v) \<and>
     nt_condition_id r = Some (vb_market v) \<and> nt_side r = None \<and> 0 < vb_amount v \<and> 0 \<le> vb_sold v \<and> vb_side v = 0 \<and>
     (vb_status v = BActive \<longrightarrow> nt_protocolFee r = Some (vb_fee v) \<and> 0 \<le> vb_fee v \<and> vb_sold v = 0) \<and>
     (vb_status v \<noteq> BDone \<longrightarrow> nt_expectedShares r = Some (vb_shares v - vb_sold v) \<and> vb_sold v < vb_shares v)"

text \<open>The notes from position \<open>m\<close> on: receipts are the bets of the ledger, the other notes are spent.\<close>

definition receipts_sim :: "nat \<Rightarrow> Note list \<Rightarrow> (string \<times> nat) list \<Rightarrow> (string \<times> vault_bet) list \<Rightarrow> bool" where
  "receipts_sim m ns rs bets \<longleftrightarrow>
     (\<forall>k. map_of rs k = None \<longleftrightarrow> map_of bets k = None) \<and>
     (\<forall>k i. map_of rs k = Some i \<longrightarrow> m \<le> i \<and> i < length ns \<and> (\<forall>v. map_of bets k = Some v \<longrightarrow> receipt_ok k (ns ! i) v)) \<and>
     (\<forall>i. m \<le> i \<longrightarrow> i < length ns \<longrightarrow>
        (if nt_kind (ns ! i) = BET_RECEIPT then \<exists>k. map_of rs k = Some i else nt_spent (ns ! i)))"

lemma receipts_simD:
  assumes "receipts_sim m ns rs bets"
  shows "map_of rs k = None \<longleftrightarrow> map_of bets k = None"
    and "map_of rs k = Some i \<Longrightarrow> m \<le> i \<and> i < length ns"
    and "map_of rs k = Some i \<Longrightarrow> map_of bets k = Some v \<Longrightarrow> receipt_ok k (ns ! i) v"
    and "m \<le> i \<Longrightarrow> i < length ns \<Longrightarrow> nt_kind (ns ! i) = BET_RECEIPT \<Longrightarrow> \<exists>k. map_of rs k = Some i"
    and "m \<le> i \<Longrightarrow> i < length ns \<Longrightarrow> nt_kind (ns ! i) \<noteq> BET_RECEIPT \<Longrightarrow> nt_spent (ns ! i)"
  using assms by (auto simp: receipts_sim_def)

lemma receipts_sim_find:
  assumes "receipts_sim m ns rs bets" and "map_of bets k = Some v"
  obtains i where "map_of rs k = Some i" "m \<le> i" "i < length ns" "receipt_ok k (ns ! i) v"
proof -
  obtain i where "map_of rs k = Some i" using receipts_simD(1) [OF assms(1), of k] assms(2) by (cases "map_of rs k") auto
  with receipts_simD [OF assms(1)] assms(2) show ?thesis by (intro that [of i]) auto
qed

lemma receipts_sim_inj:
  assumes sim: "receipts_sim m ns rs bets" and k: "map_of rs k = Some i" and k': "map_of rs k' = Some i"
  shows "k = k'"
proof -
  have "map_of bets k \<noteq> None" "map_of bets k' \<noteq> None"
    using receipts_simD(1) [OF sim, of k] receipts_simD(1) [OF sim, of k'] k k' by auto
  then obtain v v' where "map_of bets k = Some v" "map_of bets k' = Some v'" by auto
  from receipts_simD(3) [OF sim k this(1)] receipts_simD(3) [OF sim k' this(2)] show ?thesis
    by (auto simp: receipt_ok_def)
qed

lemma receipts_sim_append:
  assumes sim: "receipts_sim m ns rs bets" and n: "nt_kind n \<noteq> BET_RECEIPT" "nt_spent n"
  shows "receipts_sim m (ns @ [n]) rs bets"
proof -
  have len: "i < length ns" if "map_of rs k = Some i" for k i using receipts_simD(2) [OF sim that] by simp
  show ?thesis
    unfolding receipts_sim_def
  proof (intro conjI allI impI)
    show "(map_of rs k = None) = (map_of bets k = None)" for k by (rule receipts_simD(1) [OF sim])
    fix k i assume i: "map_of rs k = Some i"
    show "m \<le> i" "i < length (ns @ [n])" using receipts_simD(2) [OF sim i] by auto
    show "receipt_ok k ((ns @ [n]) ! i) v" if "map_of bets k = Some v" for v
      using receipts_simD(3) [OF sim i that] len [OF i] by (simp add: nth_append)
  next
    fix i assume "m \<le> i" "i < length (ns @ [n])"
    then show "if nt_kind ((ns @ [n]) ! i) = BET_RECEIPT then \<exists>k. map_of rs k = Some i else nt_spent ((ns @ [n]) ! i)"
      using receipts_simD(4,5) [OF sim, of i] n by (auto simp: nth_append less_Suc_eq)
  qed
qed

lemma receipts_sim_update:
  assumes sim: "receipts_sim m ns rs bets" and i: "map_of rs k = Some i" and ok: "receipt_ok k r v'"
  shows "receipts_sim m (ns[i := r]) rs (AList.update k v' bets)"
proof -
  have len: "i < length ns" using receipts_simD(2) [OF sim i] by simp
  have inj: "k' = k" if "map_of rs k' = Some i" for k' using receipts_sim_inj [OF sim that i] .
  have bk: "map_of bets k \<noteq> None" using receipts_simD(1) [OF sim, of k] i by simp
  have kind: "nt_kind (ns ! i) = BET_RECEIPT" "nt_kind r = BET_RECEIPT"
    using receipts_simD(3) [OF sim i] bk ok by (auto simp: receipt_ok_def)
  show ?thesis unfolding receipts_sim_def
  proof (intro conjI allI impI)
    show "(map_of rs k' = None) = (map_of (AList.update k v' bets) k' = None)" for k'
      using receipts_simD(1) [OF sim, of k'] i by (auto simp: map_of_update)
    fix k' j assume j: "map_of rs k' = Some j"
    show "m \<le> j" "j < length (ns[i := r])" using receipts_simD(2) [OF sim j] by auto
    show "receipt_ok k' (ns[i := r] ! j) w" if w: "map_of (AList.update k v' bets) k' = Some w" for w
    proof (cases "k' = k")
      case True
      then show ?thesis using i j w ok len by (simp add: map_of_update)
    next
      case False
      then have "j \<noteq> i" using inj j by auto
      then show ?thesis using False receipts_simD(3) [OF sim j] w by (auto simp: map_of_update)
    qed
  next
    fix j assume j: "m \<le> j" "j < length (ns[i := r])"
    show "if nt_kind (ns[i := r] ! j) = BET_RECEIPT then \<exists>k. map_of rs k = Some j else nt_spent (ns[i := r] ! j)"
      using receipts_simD(4,5) [OF sim, of j] j i kind by (cases "j = i") auto
  qed
qed

lemma receipts_sim_new:
  assumes sim: "receipts_sim m ns rs bets" and ok: "receipt_ok k r v" and new: "map_of bets k = None" and m: "m \<le> length ns"
  shows "receipts_sim m (ns @ [r]) (AList.update k (length ns) rs) (AList.update k v bets)"
proof -
  have len: "i < length ns" if "map_of rs k' = Some i" for k' i using receipts_simD(2) [OF sim that] by simp
  have nk: "map_of rs k = None" using receipts_simD(1) [OF sim, of k] new by simp
  show ?thesis unfolding receipts_sim_def
  proof (intro conjI allI impI)
    show "(map_of (AList.update k (length ns) rs) k' = None) = (map_of (AList.update k v bets) k' = None)" for k'
      using receipts_simD(1) [OF sim, of k'] by (auto simp: map_of_update)
    fix k' j assume j: "map_of (AList.update k (length ns) rs) k' = Some j"
    show "m \<le> j" "j < length (ns @ [r])"
      using j receipts_simD(2) [OF sim, of k' j] m by (auto simp: map_of_update split: if_splits)
    show "receipt_ok k' ((ns @ [r]) ! j) w" if "map_of (AList.update k v bets) k' = Some w" for w
      using j that ok receipts_simD(3) [OF sim, of k' j w] len [of k' j]
      by (auto simp: map_of_update nth_append split: if_splits)
  next
    fix i assume i: "m \<le> i" "i < length (ns @ [r])"
    have "\<exists>k'. map_of (AList.update k (length ns) rs) k' = Some i" if "\<exists>k'. map_of rs k' = Some i"
      using that nk by (metis map_of_update fun_upd_apply option.distinct(1))
    then show "if nt_kind ((ns @ [r]) ! i) = BET_RECEIPT then \<exists>k'. map_of (AList.update k (length ns) rs) k' = Some i
          else nt_spent ((ns @ [r]) ! i)"
      using receipts_simD(4,5) [OF sim, of i] i ok
      by (auto simp: nth_append less_Suc_eq receipt_ok_def map_of_update)
  qed
qed

subsection \<open>Simulation\<close>

text \<open>The relation between the ledger and the replay that started with \<open>m\<close> notes and the balances \<open>bals\<close>.\<close>

definition tip_ok :: "replay_ctx \<Rightarrow> ledger \<Rightarrow> lineage \<Rightarrow> bool" where
  "tip_ok c l s \<longleftrightarrow>
     0 \<le> ld_nonce l \<and> ln_nonce s = ld_nonce l \<and> ln_spent s = (\<not> ld_live l) \<and> ln_kind s \<noteq> BET_RECEIPT \<and>
     ln_nullifier s = computeNullifier (rx_crypto c) (rx_secret c) (ld_nonce l) \<and>
     (ld_live l \<longrightarrow> ln_balance s = ld_balance l \<and>
        ln_commitment s = computeCommitment (rx_crypto c) (rx_secret c) (ld_balance l) (ld_nonce l) (rx_address c))"

definition foreign_kept :: "replay_ctx \<Rightarrow> ledger \<Rightarrow> (string \<times> int) list \<Rightarrow> (string \<times> int) list \<Rightarrow> bool" where
  "foreign_kept c l bals tab \<longleftrightarrow> (\<forall>n. n \<notin> used_nullifiers c l \<longrightarrow> map_of tab n = map_of bals n)"

definition sim :: "replay_ctx \<Rightarrow> nat \<Rightarrow> (string \<times> int) list \<Rightarrow> ledger \<Rightarrow> replay \<Rightarrow> bool" where
  "sim c m bals l rp \<longleftrightarrow>
     tip_ok c l (rp_ln rp) \<and> m \<le> length (rp_notes rp) \<and> receipts_sim m (rp_notes rp) (rp_receipts rp) (ld_bets l) \<and>
     rp_sold rp = ld_sales l \<and> foreign_kept c l bals (rp_balances rp)"

definition tip_note :: "replay_ctx \<Rightarrow> string option \<Rightarrow> lineage \<Rightarrow> Note" where
  "tip_note c tx s = plain_note (ln_commitment s) (ln_kind s) (rx_address c) (rx_index c) (ln_balance s)
     (ln_nonce s) (ln_commitment s) (ln_nullifier s) (ln_spent s) (ln_createdAt s) tx (Some (rx_version c))"

lemma tip_note_fields [simp]:
  "nt_kind (tip_note c tx s) = ln_kind s" "nt_spent (tip_note c tx s) = ln_spent s"
  "nt_balance (tip_note c tx s) = ln_balance s" "nt_nonce (tip_note c tx s) = ln_nonce s"
  "nt_commitment (tip_note c tx s) = ln_commitment s" "nt_nullifier (tip_note c tx s) = ln_nullifier s"
  by (simp_all add: tip_note_def plain_note_def)

lemma pushFree_eq: "pushFree c tx rp = rp\<lparr>rp_notes := rp_notes rp @ [tip_note c tx (rp_ln rp)]\<rparr>"
  by (simp add: pushFree_def tip_note_def Let_def)

text \<open>What the pieces of a step leave in each field.\<close>

lemma retire_fields [simp]:
  "rp_ln (retire c tx rp) = (rp_ln rp)\<lparr>ln_spent := True\<rparr>"
  "rp_notes (retire c tx rp) = rp_notes rp @ [tip_note c (Some tx) ((rp_ln rp)\<lparr>ln_spent := True\<rparr>)]"
  "rp_receipts (retire c tx rp) = rp_receipts rp" "rp_sold (retire c tx rp) = rp_sold rp"
  "rp_balances (retire c tx rp) = rp_balances rp"
  by (simp_all add: retire_def pushFree_eq)

lemma log_activity_fields [simp]:
  "rp_ln (log_activity c i k amt ts tx mk rid rnf pay rp) = rp_ln rp"
  "rp_notes (log_activity c i k amt ts tx mk rid rnf pay rp) = rp_notes rp"
  "rp_receipts (log_activity c i k amt ts tx mk rid rnf pay rp) = rp_receipts rp"
  "rp_sold (log_activity c i k amt ts tx mk rid rnf pay rp) = rp_sold rp"
  "rp_balances (log_activity c i k amt ts tx mk rid rnf pay rp) = rp_balances rp"
  by (simp_all add: log_activity_def)

lemma next_state_fields [simp]:
  "rp_ln (next_state c bal newc k ts rp) =
     \<lparr>ln_balance = bal, ln_nonce = ln_nonce (rp_ln rp) + 1, ln_commitment = newc,
      ln_nullifier = computeNullifier (rx_crypto c) (rx_secret c) (ln_nonce (rp_ln rp) + 1), ln_kind = k,
      ln_spent = False, ln_createdAt = ts\<rparr>"
  "rp_notes (next_state c bal newc k ts rp) = rp_notes rp"
  "rp_receipts (next_state c bal newc k ts rp) = rp_receipts rp"
  "rp_sold (next_state c bal newc k ts rp) = rp_sold rp"
  "rp_balances (next_state c bal newc k ts rp) = rp_balances rp"
  by (simp_all add: next_state_def Let_def)

lemma update_receipt_fields [simp]:
  "rp_ln (update_receipt nob f rp) = rp_ln rp"
  "rp_receipts (update_receipt nob f rp) = rp_receipts rp"
  "rp_sold (update_receipt nob f rp) = rp_sold rp"
  "rp_balances (update_receipt nob f rp) = rp_balances rp"
  "length (rp_notes (update_receipt nob f rp)) = length (rp_notes rp)"
  by (simp_all add: update_receipt_def split: option.split)

lemma update_receipt_notes:
  "map_of (rp_receipts rp) (lower nob) = Some i \<Longrightarrow>
     rp_notes (update_receipt nob f rp) = (rp_notes rp)[i := f (rp_notes rp ! i)]"
  by (simp add: update_receipt_def)

lemma spends_sim: "sim c m bals l rp \<Longrightarrow> spends nf rp \<longleftrightarrow> mine c nf l"
  by (auto simp: sim_def tip_ok_def spends_def mine_def own_nullifier_def)

lemma used_mono: "0 \<le> ld_nonce l \<Longrightarrow> ld_nonce l' = ld_nonce l + 1 \<Longrightarrow> used_nullifiers c l \<subseteq> used_nullifiers c l'"
  by (auto simp: used_nullifiers_def)

lemma foreign_kept_mono:
  "foreign_kept c l bals tab \<Longrightarrow> used_nullifiers c l \<subseteq> used_nullifiers c l' \<Longrightarrow> foreign_kept c l' bals tab"
  by (auto simp: foreign_kept_def)

lemma advance_Some:
  "advance c bal newc l = Some l' \<longleftrightarrow>
     newc = computeCommitment (rx_crypto c) (rx_secret c) bal (ld_nonce l + 1) (rx_address c) \<and>
     l' = l\<lparr>ld_balance := bal, ld_nonce := ld_nonce l + 1\<rparr>"
  by (auto simp: advance_def)

text \<open>A step that advances the lineage: what is left to show is the receipts.\<close>

lemma sim_advance:
  assumes s: "sim c m bals l rp" and live: "ld_live l" and adv: "advance c bal newc l0 = Some l'"
    and l0: "ld_nonce l0 = ld_nonce l" "ld_live l0 = ld_live l" "ld_bets l0 = bets" "ld_sales l0 = rp_sold rp'"
    and rp: "rp_ln rp' = \<lparr>ln_balance = bal, ln_nonce = ln_nonce (rp_ln rp) + 1, ln_commitment = newc,
        ln_nullifier = computeNullifier (rx_crypto c) (rx_secret c) (ln_nonce (rp_ln rp) + 1), ln_kind = k,
        ln_spent = False, ln_createdAt = ts\<rparr>" "k \<noteq> BET_RECEIPT"
    and tab: "rp_balances rp' = rp_balances rp \<or> rp_balances rp' = AList.update (own_nullifier c (ld_nonce l)) b (rp_balances rp)"
    and recs: "m \<le> length (rp_notes rp')" "receipts_sim m (rp_notes rp') (rp_receipts rp') bets"
  shows "sim c m bals l' rp'"
proof -
  have nn: "0 \<le> ld_nonce l" and nn': "ln_nonce (rp_ln rp) = ld_nonce l" and fk: "foreign_kept c l bals (rp_balances rp)"
    using s by (auto simp: sim_def tip_ok_def)
  have l': "l' = l0\<lparr>ld_balance := bal, ld_nonce := ld_nonce l0 + 1\<rparr>" using adv by (simp add: advance_Some)
  have own: "own_nullifier c (ld_nonce l) \<in> used_nullifiers c l" using nn by (simp add: used_nullifiers_def)
  have sub: "used_nullifiers c l \<subseteq> used_nullifiers c l'" using nn l0 l' by (intro used_mono) simp_all
  have "foreign_kept c l bals (rp_balances rp')"
    using tab fk own by (auto simp: foreign_kept_def map_of_update)
  then have "foreign_kept c l' bals (rp_balances rp')" using sub by (rule foreign_kept_mono)
  moreover have "tip_ok c l' (rp_ln rp')" using adv rp live nn nn' l0 by (auto simp: tip_ok_def advance_Some l')
  ultimately show ?thesis using recs l0 by (simp add: sim_def l')
qed

text \<open>The credits of a bet: the receipt is found, changed, and the lineage moves on.\<close>

lemma settle_bet_sim:
  assumes s: "sim c m bals l rp" and b: "settle_bet c nob newc f l0 = Some l'" and l0: "ld_bets l0 = ld_bets l"
  obtains v i cr v' where "f v = Some (cr, v')" "map_of (rp_receipts rp) (lower nob) = Some i" "m \<le> i"
    "i < length (rp_notes rp)" "receipt_ok (lower nob) (rp_notes rp ! i) v"
    "advance c (ld_balance l0 + cr) newc (set_bet nob v' l0) = Some l'"
proof -
  obtain v cr v' where v: "map_of (ld_bets l) (lower nob) = Some v" and f: "f v = Some (cr, v')"
    and a: "advance c (ld_balance l0 + cr) newc (set_bet nob v' l0) = Some l'"
    using b l0 by (auto simp: settle_bet_def bind_eq_Some_conv)
  have rs: "receipts_sim m (rp_notes rp) (rp_receipts rp) (ld_bets l)" using s by (simp add: sim_def)
  obtain i where "map_of (rp_receipts rp) (lower nob) = Some i" "m \<le> i" "i < length (rp_notes rp)"
    "receipt_ok (lower nob) (rp_notes rp ! i) v" using receipts_sim_find [OF rs v] by blast
  with f a show ?thesis using that by blast
qed

lemma sim_settled:
  assumes s: "sim c m bals l rp" and live: "ld_live l"
    and i: "map_of (rp_receipts rp) (lower nob) = Some i" "i < length (rp_notes rp)"
    and ok: "receipt_ok (lower nob) r' v'"
    and adv: "advance c bal newc (set_bet nob v' l0) = Some l'"
    and l0: "ld_nonce l0 = ld_nonce l" "ld_live l0 = ld_live l" "ld_bets l0 = ld_bets l" "ld_sales l0 = rp_sold rp'"
    and rp: "rp_ln rp' = \<lparr>ln_balance = bal, ln_nonce = ln_nonce (rp_ln rp) + 1, ln_commitment = newc,
        ln_nullifier = computeNullifier (rx_crypto c) (rx_secret c) (ln_nonce (rp_ln rp) + 1), ln_kind = k,
        ln_spent = False, ln_createdAt = ts\<rparr>" "k \<noteq> BET_RECEIPT"
    and rest: "rp_balances rp' = rp_balances rp" "rp_receipts rp' = rp_receipts rp"
    and ns: "rp_notes rp' = (rp_notes rp)[i := r'] @ [tip_note c tx ((rp_ln rp)\<lparr>ln_spent := True\<rparr>)]"
  shows "sim c m bals l' rp'"
proof -
  have rs: "receipts_sim m (rp_notes rp) (rp_receipts rp) (ld_bets l)" and kind: "ln_kind (rp_ln rp) \<noteq> BET_RECEIPT"
    using s by (auto simp: sim_def tip_ok_def)
  have "receipts_sim m (rp_notes rp') (rp_receipts rp') (AList.update (lower nob) v' (ld_bets l))"
    unfolding ns rest(2)
    by (rule receipts_sim_append [OF receipts_sim_update [OF rs i(1) ok]]) (simp_all add: kind)
  moreover have "m \<le> length (rp_notes rp')" using s ns by (auto simp: sim_def)
  ultimately show ?thesis using rest(1)
    by (intro sim_advance [OF s live adv _ _ _ _ rp, of "AList.update (lower nob) v' (ld_bets l)"])
      (simp_all add: set_bet_def l0)
qed

lemma receipt_at_updated:
  "map_of (rp_receipts rp) (lower nob) = Some i \<Longrightarrow> i < length (rp_notes rp) \<Longrightarrow>
     receipt_at nob (update_receipt nob f rp) = Some (f (rp_notes rp ! i))"
  by (simp add: receipt_at_def update_receipt_notes)

lemma receipt_at_Some:
  "map_of (rp_receipts rp) (lower nob) = Some i \<Longrightarrow> receipt_at nob rp = Some (rp_notes rp ! i)"
  by (simp add: receipt_at_def)

text \<open>What a credit computes from a receipt is what the vault pays for the bet.\<close>

definition reads_ok :: "replay_ctx \<Rightarrow> vault_view \<Rightarrow> bool" where
  "reads_ok c vv \<longleftrightarrow> (\<forall>mk. re_pendingCredit (rx_env c) mk 0 = Some (vv_payout vv mk 0)) \<and>
     (\<forall>nob. re_betRecord (rx_env c) nob = Some (vv_fill vv (lower nob)))"

fun vault_credit :: "vault_view \<Rightarrow> credit_kind \<Rightarrow> vault_bet \<Rightarrow> (int \<times> vault_bet) option" where
  "vault_credit vv CSettle = vault_settle vv"
| "vault_credit vv CBetCancel = vault_cancel"
| "vault_credit vv CNaCancel = vault_na"

lemma credit_amount:
  assumes "reads_ok c vv" and "receipt_ok k r v" and "vault_credit vv ck v = Some (cr, v')"
  shows "credited_balance c ck (Some (r\<lparr>nt_spent := True\<rparr>)) old = old + cr" and "receipt_ok k (r\<lparr>nt_spent := True\<rparr>) v'"
  using assms
  by (cases ck; auto simp: credited_balance_def reads_ok_def receipt_ok_def vault_settle_def vault_cancel_def
        vault_na_def truthy_def zero_or_def split: if_splits)+

lemma partial_amount:
  assumes "receipt_ok k r v" and "vault_partial fl v = Some (cr, v')"
  shows "partial_refund (Some r) (Some fl) = cr" and "receipt_ok k (normalize (Some fl) r) v'"
  using assms
  by (auto simp: Let_def partial_refund_def normalize_def receipt_ok_def vault_partial_def zero_or_def big_div_nonneg
       split: prod.splits if_splits)

lemma close_amount:
  assumes "receipt_ok k r v" and "vault_close full (p, n) v = Some (cr, v')"
  shows "p = cr" and "receipt_ok k (close_receipt full (Some (p, n)) r) v'"
  using assms
  by (auto simp: close_receipt_def receipt_ok_def vault_close_def split: prod.splits if_splits)

subsection \<open>The events one by one\<close>

lemma sim_bet:
  assumes s: "sim c m bals l rp" and b: "ledger_step c vv l (EvBet b) = Some l'"
    and yes: "lower (bl_nullifier b) = own_nullifier c (ld_nonce l) \<Longrightarrow> bl_outcome_side b = 0"
  shows "sim c m bals l' (replay_bet c e b rp)"
proof (cases "mine c (bl_nullifier b) l")
  case False
  then show ?thesis using s b spends_sim [OF s, of "bl_nullifier b"] by (auto simp: ledger_step_def replay_bet_def)
next
  case True
  then have sp: "spends (bl_nullifier b) rp" and live: "ld_live l" and side: "bl_outcome_side b = 0"
    using spends_sim [OF s] yes by (auto simp: mine_def)
  let ?k = "lower (bl_nullifier b)"
  let ?bal = "ld_balance l - bl_bet_amount b - the (bl_protocolFee b) - zero_or (bl_relayFee b)"
  let ?v = "\<lparr>vb_market = bl_market_id b, vb_side = bl_outcome_side b, vb_shares = bl_expected_shares b, vb_sold = 0,
     vb_amount = bl_bet_amount b, vb_fee = the (bl_protocolFee b), vb_status = BActive\<rparr>"
  obtain pf where pf: "bl_protocolFee b = Some pf" "0 < bl_bet_amount b" "0 < bl_expected_shares b" "0 \<le> pf"
    and new: "map_of (ld_bets l) ?k = None"
    and adv: "advance c ?bal (bl_new_commitment b) (set_bet (bl_nullifier b) ?v l) = Some l'"
    using b True by (auto simp: ledger_step_def split: option.splits if_splits)
  have tip: "tip_ok c l (rp_ln rp)" and rs: "receipts_sim m (rp_notes rp) (rp_receipts rp) (ld_bets l)"
    and len: "m \<le> length (rp_notes rp)" and sold: "rp_sold rp = ld_sales l" using s by (auto simp: sim_def)
  have bal: "post_bet_balance c b (rp_ln rp) = ?bal" using tip live pf by (simp add: post_bet_balance_def tip_ok_def)
  let ?ts = "tsOf (rx_env c) (lg_block e)"
  let ?r = "bet_receipt c b ?ts (lg_tx e) (rp_ln rp)"
  have ok: "receipt_ok ?k ?r ?v" using pf side by (simp add: receipt_ok_def bet_receipt_def plain_note_def)
  let ?ns = "rp_notes rp @ [tip_note c (Some (lg_tx e)) ((rp_ln rp)\<lparr>ln_spent := True\<rparr>)]"
  have rs1: "receipts_sim m ?ns (rp_receipts rp) (ld_bets l)"
    using receipts_sim_append [OF rs] tip by (simp add: tip_ok_def)
  have rs2: "receipts_sim m (?ns @ [?r]) (AList.update ?k (length ?ns) (rp_receipts rp)) (AList.update ?k ?v (ld_bets l))"
    by (rule receipts_sim_new [OF rs1 ok new]) (use len in simp)
  show ?thesis
    by (rule sim_advance [OF s live adv, where bets = "AList.update ?k ?v (ld_bets l)" and k = BET_OUTPUT and ts = ?ts])
      (use sp bal sold len rs2 in \<open>simp_all add: replay_bet_def Let_def set_bet_def\<close>)
qed

lemma sim_credit:
  assumes s: "sim c m bals l rp" and reads: "reads_ok c vv"
    and b: "(if \<not> mine c nf l then Some l else settle_bet c nob newc (vault_credit vv ck) l) = Some l'"
  shows "sim c m bals l' (replay_credit c e ck nf nob newc rp)"
proof (cases "mine c nf l")
  case False
  then show ?thesis using s b spends_sim [OF s, of nf] by (simp add: replay_credit_def)
next
  case True
  then have sp: "spends nf rp" and live: "ld_live l" using spends_sim [OF s] by (auto simp: mine_def)
  have sb: "settle_bet c nob newc (vault_credit vv ck) l = Some l'" using b True by simp
  obtain v i cr v' where f: "vault_credit vv ck v = Some (cr, v')"
    and i: "map_of (rp_receipts rp) (lower nob) = Some i" and "m \<le> i" and len: "i < length (rp_notes rp)"
    and ok: "receipt_ok (lower nob) (rp_notes rp ! i) v"
    and adv: "advance c (ld_balance l + cr) newc (set_bet nob v' l) = Some l'"
    by (rule settle_bet_sim [OF s sb refl])
  note am = credit_amount [OF reads ok f]
  have old: "ln_balance (rp_ln rp) = ld_balance l" and sold: "rp_sold rp = ld_sales l"
    using s live by (auto simp: sim_def tip_ok_def)
  show ?thesis
    by (rule sim_settled [OF s live i len am(2) adv, where k = "if ck = CSettle then SETTLE_CREDIT else CANCEL_CREDIT"
          and ts = "tsOf (rx_env c) (lg_block e)" and tx = "Some (lg_tx e)"])
      (use sp old sold am(1) in \<open>simp_all add: replay_credit_def Let_def receipt_at_updated [OF i len]
         update_receipt_notes [OF i]\<close>)
qed

lemma sim_partial:
  assumes s: "sim c m bals l rp" and reads: "reads_ok c vv"
    and b: "ledger_step c vv l (EvPartial nf nob newc) = Some l'"
  shows "sim c m bals l' (replay_partial c e nf nob newc rp)"
proof (cases "mine c nf l")
  case False
  then show ?thesis using s b spends_sim [OF s, of nf] by (simp add: replay_partial_def ledger_step_def)
next
  case True
  then have sp: "spends nf rp" and live: "ld_live l" using spends_sim [OF s] by (auto simp: mine_def)
  have sb: "settle_bet c nob newc (vault_partial (vv_fill vv (lower nob))) l = Some l'"
    using b True by (simp add: ledger_step_def)
  obtain v i cr v' where f: "vault_partial (vv_fill vv (lower nob)) v = Some (cr, v')"
    and i: "map_of (rp_receipts rp) (lower nob) = Some i" and "m \<le> i" and len: "i < length (rp_notes rp)"
    and ok: "receipt_ok (lower nob) (rp_notes rp ! i) v"
    and adv: "advance c (ld_balance l + cr) newc (set_bet nob v' l) = Some l'"
    by (rule settle_bet_sim [OF s sb refl])
  note am = partial_amount [OF ok f]
  have old: "ln_balance (rp_ln rp) = ld_balance l" and sold: "rp_sold rp = ld_sales l"
    using s live by (auto simp: sim_def tip_ok_def)
  have rd: "re_betRecord (rx_env c) nob = Some (vv_fill vv (lower nob))" using reads by (simp add: reads_ok_def)
  show ?thesis
    by (rule sim_settled [OF s live i len am(2) adv, where k = "CANCEL_CREDIT"
          and ts = "tsOf (rx_env c) (lg_block e)" and tx = "Some (lg_tx e)"])
      (use sp old sold am(1) i len in \<open>simp_all add: replay_partial_def Let_def receipt_at_Some rd
         update_receipt_notes nth_append list_update_append\<close>)
qed

lemma sim_close:
  assumes s: "sim c m bals l rp"
    and b: "ledger_step c vv l (EvClose nf nob newc full) = Some l'"
  shows "sim c m bals l' (replay_close c e nf nob newc full rp)"
proof (cases "mine c nf l")
  case False
  then show ?thesis using s b spends_sim [OF s, of nf] by (simp add: replay_close_def ledger_step_def)
next
  case True
  let ?l0 = "l\<lparr>ld_sales := shift_sale nob (ld_sales l)\<rparr>"
  have sp: "spends nf rp" and live: "ld_live l" using spends_sim [OF s] True by (auto simp: mine_def)
  obtain p n where sale: "first_sale nob (ld_sales l) = Some (p, n)"
    and sb: "settle_bet c nob newc (vault_close full (p, n)) ?l0 = Some l'"
    using b True by (auto simp: ledger_step_def split: option.splits)
  have l0: "ld_bets ?l0 = ld_bets l" by simp
  obtain v i cr v' where f: "vault_close full (p, n) v = Some (cr, v')"
    and i: "map_of (rp_receipts rp) (lower nob) = Some i" and "m \<le> i" and len: "i < length (rp_notes rp)"
    and ok: "receipt_ok (lower nob) (rp_notes rp ! i) v"
    and adv: "advance c (ld_balance ?l0 + cr) newc (set_bet nob v' ?l0) = Some l'"
    by (rule settle_bet_sim [OF s sb l0])
  note am = close_amount [OF ok f]
  have old: "ln_balance (rp_ln rp) = ld_balance l" and sold: "rp_sold rp = ld_sales l"
    using s live by (auto simp: sim_def tip_ok_def)
  show ?thesis
    by (rule sim_settled [OF s live i len am(2) adv, where k = "SETTLE_CREDIT"
          and ts = "tsOf (rx_env c) (lg_block e)" and tx = "Some (lg_tx e)"])
      (use sp old sold am(1) sale i len in \<open>simp_all add: replay_close_def Let_def update_receipt_notes\<close>)
qed

lemma sim_withdraw:
  assumes s: "sim c m bals l rp"
    and b: "ledger_step c vv l (EvWithdraw nf recipient amt newc) = Some l'"
  shows "sim c m bals l' (replay_withdraw c e nf amt newc rp)"
proof (cases "mine c nf l")
  case False
  then show ?thesis using s b spends_sim [OF s, of nf] by (simp add: replay_withdraw_def ledger_step_def)
next
  case True
  then have sp: "spends nf rp" and live: "ld_live l" using spends_sim [OF s] by (auto simp: mine_def)
  have tip: "tip_ok c l (rp_ln rp)" and rs: "receipts_sim m (rp_notes rp) (rp_receipts rp) (ld_bets l)"
    and len: "m \<le> length (rp_notes rp)" and sold: "rp_sold rp = ld_sales l"
    and fk: "foreign_kept c l bals (rp_balances rp)" using s by (auto simp: sim_def)
  have rs1: "receipts_sim m (rp_notes rp @ [tip_note c (Some (lg_tx e)) ((rp_ln rp)\<lparr>ln_spent := True\<rparr>)]) (rp_receipts rp) (ld_bets l)"
    using receipts_sim_append [OF rs] tip by (simp add: tip_ok_def)
  show ?thesis
  proof (cases "newc = ZERO_NULL")
    case True
    then have "l' = l\<lparr>ld_balance := 0, ld_live := False\<rparr>" using b \<open>mine c nf l\<close> by (simp add: ledger_step_def)
    then show ?thesis using True sp tip rs1 len sold fk
      by (simp add: sim_def replay_withdraw_def Let_def tip_ok_def foreign_kept_def used_nullifiers_def)
  next
    case False
    then have adv: "advance c (ld_balance l - amt) newc l = Some l'" using b True by (simp add: ledger_step_def)
    show ?thesis
      by (rule sim_advance [OF s live adv, where bets = "ld_bets l" and k = BET_OUTPUT and ts = "tsOf (rx_env c) (lg_block e)"])
        (use False sp sold len rs1 tip live in \<open>simp_all add: replay_withdraw_def Let_def tip_ok_def\<close>)
  qed
qed

text \<open>
  What the exactness of a replay needs of an event beyond the vault's rules: the
  wallet's bets are on outcome 0 (a receipt does not record its outcome), and the
  other inputs of a merge are in the table of balances.
\<close>

definition event_ok :: "replay_ctx \<Rightarrow> vault_view \<Rightarrow> (string \<times> int) list \<Rightarrow> chain_event \<Rightarrow> bool" where
  "event_ok c vv bals e =
     (case e of
        EvBet b \<Rightarrow> \<forall>k. lower (bl_nullifier b) = own_nullifier c k \<longrightarrow> bl_outcome_side b = 0
      | EvConsolidate nfs newc \<Rightarrow>
          \<forall>k. hd (map lower nfs) = own_nullifier c k \<longrightarrow>
            (\<forall>n\<in>set (tl (map lower nfs)). n \<noteq> ZERO_NULL \<longrightarrow> map_of bals n = Some (vv_input vv n))
      | _ \<Rightarrow> True)"

lemma merged_sum_eq:
  assumes fk: "foreign_kept c l bals tab"
    and old: "\<forall>n\<in>set nl. n \<noteq> cur \<longrightarrow> n \<noteq> ZERO_NULL \<longrightarrow> n \<notin> used_nullifiers c l \<and> map_of bals n = Some (vv_input vv n)"
  shows "merged_sum nl (AList.update cur b tab) = vault_merge vv cur b nl"
proof -
  have "(if n = ZERO_NULL then 0 else zero_or (map_of (AList.update cur b tab) n)) =
      (if n = ZERO_NULL then 0 else if n = cur then b else vv_input vv n)" if "n \<in> set nl" for n
    using that old fk by (auto simp: map_of_update zero_or_def foreign_kept_def)
  then show ?thesis by (simp add: merged_sum_def vault_merge_def cong: map_cong)
qed

lemma sim_consolidate:
  assumes s: "sim c m bals l rp" and fin: "rx_final c" and ok: "event_ok c vv bals (EvConsolidate nfs newc)"
    and b: "ledger_step c vv l (EvConsolidate nfs newc) = Some l'"
  shows "sim c m bals l' (replay_consolidate c e nfs newc rp)"
proof -
  let ?nl = "map lower nfs" and ?cur = "own_nullifier c (ld_nonce l)"
  have tip: "tip_ok c l (rp_ln rp)" and rs: "receipts_sim m (rp_notes rp) (rp_receipts rp) (ld_bets l)"
    and len: "m \<le> length (rp_notes rp)" and sold: "rp_sold rp = ld_sales l"
    and fk: "foreign_kept c l bals (rp_balances rp)" using s by (auto simp: sim_def)
  have cur: "lower (ln_nullifier (rp_ln rp)) = ?cur" and sp: "ln_spent (rp_ln rp) = (\<not> ld_live l)"
    using tip by (simp_all add: tip_ok_def own_nullifier_def)
  have rs1: "receipts_sim m (rp_notes rp @ [tip_note c (Some (lg_tx e)) ((rp_ln rp)\<lparr>ln_spent := True\<rparr>)]) (rp_receipts rp) (ld_bets l)"
    using receipts_sim_append [OF rs] tip by (simp add: tip_ok_def)
  have own: "?cur \<in> used_nullifiers c l" using tip by (simp add: used_nullifiers_def tip_ok_def)
  have fk1: "foreign_kept c l bals (AList.update ?cur (ln_balance (rp_ln rp)) (rp_balances rp))"
    using fk own by (auto simp: foreign_kept_def map_of_update)
  consider (skip) "\<not> ld_live l \<or> ?cur \<notin> set ?nl" | (given_up) "ld_live l" "?cur \<in> set ?nl" "?cur \<noteq> ?nl ! 0"
    | (merge) "ld_live l" "?cur \<in> set ?nl" "?cur = ?nl ! 0" by blast
  then show ?thesis
  proof cases
    case skip
    then show ?thesis using s b cur sp by (auto simp: ledger_step_def replay_consolidate_def Let_def)
  next
    case given_up
    then have "l' = l\<lparr>ld_live := False\<rparr>" using b by (simp add: ledger_step_def Let_def)
    then show ?thesis using given_up cur sp tip rs1 len sold fk1
      by (simp add: sim_def replay_consolidate_def Let_def tip_ok_def foreign_kept_def used_nullifiers_def)
  next
    case merge
    then have ne: "nfs \<noteq> []" by auto
    have adv: "advance c (vault_merge vv ?cur (ld_balance l) ?nl) newc l = Some l'"
      and un: "\<forall>n\<in>set ?nl. n \<noteq> ?cur \<longrightarrow> n \<noteq> ZERO_NULL \<longrightarrow> n \<notin> used_nullifiers c l"
      using merge b by (auto simp: ledger_step_def Let_def split: if_splits)
    have bal: "ln_balance (rp_ln rp) = ld_balance l" using tip merge by (simp add: tip_ok_def)
    have hd: "hd ?nl = ?cur" using merge ne by (simp add: hd_conv_nth)
    have "\<forall>n\<in>set (tl ?nl). n \<noteq> ZERO_NULL \<longrightarrow> map_of bals n = Some (vv_input vv n)"
      using ok hd by (auto simp: event_ok_def)
    then have known: "\<forall>n\<in>set ?nl. n \<noteq> ?cur \<longrightarrow> n \<noteq> ZERO_NULL \<longrightarrow> n \<notin> used_nullifiers c l \<and> map_of bals n = Some (vv_input vv n)"
      using un hd ne by (cases nfs) auto
    have sum: "merged_sum ?nl (AList.update ?cur (ld_balance l) (rp_balances rp)) = vault_merge vv ?cur (ld_balance l) ?nl"
      by (rule merged_sum_eq [OF fk known])
    show ?thesis
      by (rule sim_advance [OF s merge(1) adv, where bets = "ld_bets l" and k = BET_OUTPUT
            and ts = "tsOf (rx_env c) (lg_block e)" and b = "ld_balance l"])
        (use merge fin cur sp bal sum sold len rs1 in \<open>simp_all add: replay_consolidate_def Let_def\<close>)
  qed
qed

lemma sim_event:
  assumes s: "sim c m bals l rp" and fin: "rx_final c" and reads: "reads_ok c vv"
    and ok: "event_ok c vv bals (lg_event e)" and b: "ledger_step c vv l (lg_event e) = Some l'"
  shows "sim c m bals l' (replay_event c rp e)"
proof (cases "lg_event e")
  case (EvBet x)
  have "bl_outcome_side x = 0" if "lower (bl_nullifier x) = own_nullifier c (ld_nonce l)"
    using ok that by (auto simp: EvBet event_ok_def)
  then show ?thesis using sim_bet [OF s b [unfolded EvBet]] by (simp add: replay_event_def EvBet)
next
  case (EvSettle nf nob newc)
  then show ?thesis using sim_credit [OF s reads, of nf nob newc CSettle] b
    by (simp add: replay_event_def ledger_step_def cong: if_cong)
next
  case (EvBetCancel nf nob newc)
  then show ?thesis using sim_credit [OF s reads, of nf nob newc CBetCancel] b
    by (simp add: replay_event_def ledger_step_def cong: if_cong)
next
  case (EvNaCancel nf nob newc)
  then show ?thesis using sim_credit [OF s reads, of nf nob newc CNaCancel] b
    by (simp add: replay_event_def ledger_step_def cong: if_cong)
next
  case (EvPartial nf nob newc)
  then show ?thesis using sim_partial [OF s reads b [unfolded EvPartial]] by (simp add: replay_event_def)
next
  case (EvClose nf nob newc full)
  then show ?thesis using sim_close [OF s b [unfolded EvClose]] by (simp add: replay_event_def)
next
  case (EvConsolidate nfs newc)
  then show ?thesis using sim_consolidate [OF s fin ok [unfolded EvConsolidate] b [unfolded EvConsolidate]]
    by (simp add: replay_event_def)
next
  case (EvWithdraw nf recipient amt newc)
  then show ?thesis using sim_withdraw [OF s b [unfolded EvWithdraw]] by (simp add: replay_event_def)
qed

lemma sim_run:
  assumes "sim c m bals l rp" and "rx_final c" and "reads_ok c vv"
    and "\<forall>e\<in>set evs. event_ok c vv bals (lg_event e)" and "ledger_run c vv l evs = Some l'"
  shows "sim c m bals l' (foldl (replay_event c) rp evs)"
  using assms
proof (induction evs arbitrary: l rp)
  case (Cons e evs)
  obtain l1 where l1: "ledger_step c vv l (lg_event e) = Some l1" and rest: "ledger_run c vv l1 evs = Some l'"
    using Cons.prems(5) by (auto simp: bind_eq_Some_conv)
  have "sim c m bals l1 (replay_event c rp e)"
    by (rule sim_event [OF Cons.prems(1-3) _ l1]) (use Cons.prems(4) in simp)
  from Cons.IH [OF this Cons.prems(2,3) _ rest] Cons.prems(4) show ?case by simp
qed simp

lemma sim_start:
  assumes "dl_commitment d = computeCommitment (rx_crypto c) (rx_secret c) (dl_amount d) 0 (rx_address c)"
  shows "sim c (length notes) bals (ledger_start d sold) (start_replay c d notes acts sold bals)"
  using assms
  by (auto simp: sim_def start_replay_def tip_ok_def start_state_def ledger_start_def receipts_sim_def foreign_kept_def)

subsection \<open>What a recovered lineage shows\<close>

definition is_receipt :: "Note \<Rightarrow> bool" where
  "is_receipt n \<longleftrightarrow> nt_kind n = BET_RECEIPT"

definition free_tips :: "Note list \<Rightarrow> (int \<times> int \<times> string \<times> string) list" where
  "free_tips ns = map (\<lambda>n. (nt_balance n, nt_nonce n, nt_commitment n, nt_nullifier n))
     (filter (\<lambda>n. \<not> is_receipt n \<and> \<not> nt_spent n) ns)"

definition open_receipts :: "Note list \<Rightarrow> (string option \<times> int option \<times> int option) set" where
  "open_receipts ns = (\<lambda>n. (map_option lower (nt_nullifier_of_bet n), nt_bet_amount n, nt_expectedShares n)) `
     {n \<in> set ns. is_receipt n \<and> \<not> nt_spent n}"

definition live_tip :: "replay_ctx \<Rightarrow> ledger \<Rightarrow> (int \<times> int \<times> string \<times> string) list" where
  "live_tip c l = (if ld_live l \<and> 0 < ld_balance l
     then [(ld_balance l, ld_nonce l,
            computeCommitment (rx_crypto c) (rx_secret c) (ld_balance l) (ld_nonce l) (rx_address c),
            computeNullifier (rx_crypto c) (rx_secret c) (ld_nonce l))] else [])"

definition open_bets :: "ledger \<Rightarrow> (string option \<times> int option \<times> int option) set" where
  "open_bets l = (\<lambda>k. case map_of (ld_bets l) k of
       Some v \<Rightarrow> (Some k, Some (vb_amount v), Some (vb_shares v - vb_sold v)) | None \<Rightarrow> (None, None, None)) `
     {k \<in> fst ` set (ld_bets l). map_option vb_status (map_of (ld_bets l) k) \<noteq> Some BDone}"

lemma set_drop_conv: "set (drop m xs) = {xs ! i | i. m \<le> i \<and> i < length xs}"
proof -
  have "\<exists>i\<ge>m. i < length xs \<and> x = xs ! i" if x: "x \<in> set (drop m xs)" for x
  proof -
    obtain j where "j < length (drop m xs)" "x = drop m xs ! j" using x by (auto simp: in_set_conv_nth)
    then show ?thesis by (intro exI [of _ "m + j"]) auto
  qed
  moreover have "xs ! i \<in> set (drop m xs)" if i: "m \<le> i" "i < length xs" for i
    using nth_mem [of "i - m" "drop m xs"] i by simp
  ultimately show ?thesis by blast
qed

lemma free_spent:
  assumes "receipts_sim m ns rs bets"
  shows "filter (\<lambda>n. \<not> is_receipt n \<and> \<not> nt_spent n) (drop m ns) = []"
  using receipts_simD(5) [OF assms] by (auto simp: filter_empty_conv set_drop_conv is_receipt_def)

lemma open_receipts_bets:
  assumes rs: "receipts_sim m ns rs (ld_bets l)"
  shows "open_receipts (drop m ns) = open_bets l"
proof (intro set_eqI iffI)
  fix x assume "x \<in> open_receipts (drop m ns)"
  then obtain i where i: "m \<le> i" "i < length ns" and r: "nt_kind (ns ! i) = BET_RECEIPT" "\<not> nt_spent (ns ! i)"
    and x: "x = (map_option lower (nt_nullifier_of_bet (ns ! i)), nt_bet_amount (ns ! i), nt_expectedShares (ns ! i))"
    by (auto simp: open_receipts_def set_drop_conv is_receipt_def)
  obtain k where k: "map_of rs k = Some i" using receipts_simD(4) [OF rs i r(1)] by auto
  then obtain v where v: "map_of (ld_bets l) k = Some v" using receipts_simD(1) [OF rs, of k] by (cases "map_of (ld_bets l) k") auto
  have ok: "receipt_ok k (ns ! i) v" by (rule receipts_simD(3) [OF rs k v])
  have "k \<in> fst ` set (ld_bets l)" using map_of_SomeD [OF v] by force
  then show "x \<in> open_bets l" using v ok r x
    by (auto simp: open_bets_def receipt_ok_def intro!: image_eqI [of _ _ k])
next
  fix x assume "x \<in> open_bets l"
  then obtain k where kin: "k \<in> fst ` set (ld_bets l)" and nd: "map_option vb_status (map_of (ld_bets l) k) \<noteq> Some BDone"
    and x: "x = (case map_of (ld_bets l) k of Some v \<Rightarrow> (Some k, Some (vb_amount v), Some (vb_shares v - vb_sold v))
              | None \<Rightarrow> (None, None, None))" by (auto simp: open_bets_def)
  obtain v where v: "map_of (ld_bets l) k = Some v" using kin by (cases "map_of (ld_bets l) k") (auto simp: map_of_eq_None_iff)
  obtain i where i: "m \<le> i" "i < length ns" "receipt_ok k (ns ! i) v" using receipts_sim_find [OF rs v] by blast
  have "ns ! i \<in> set (drop m ns)" using i by (auto simp: set_drop_conv)
  then show "x \<in> open_receipts (drop m ns)" using i nd v x
    by (auto simp: open_receipts_def is_receipt_def receipt_ok_def intro!: image_eqI [of _ _ "ns ! i"])
qed

lemma sim_lineage:
  assumes "ledger_run c vv (ledger_start d sold) evs = Some l" and "rx_final c" and "reads_ok c vv"
    and "\<forall>e\<in>set evs. event_ok c vv bals (lg_event e)"
    and "dl_commitment d = computeCommitment (rx_crypto c) (rx_secret c) (dl_amount d) 0 (rx_address c)"
  obtains rp where "sim c (length notes) bals l rp" "replayLineage c d evs notes acts sold bals = push_tip c rp"
  using sim_run [OF sim_start [OF assms(5)] assms(2,3,4,1)] by (auto simp: replayLineage_def)

lemma lineage_tips:
  assumes "ledger_run c vv (ledger_start d sold) evs = Some l" and "rx_final c" and "reads_ok c vv"
    and "\<forall>e\<in>set evs. event_ok c vv bals (lg_event e)"
    and "dl_commitment d = computeCommitment (rx_crypto c) (rx_secret c) (dl_amount d) 0 (rx_address c)"
  shows "free_tips (drop (length notes) (rp_notes (replayLineage c d evs notes acts sold bals))) = live_tip c l"
proof -
  obtain rp where s: "sim c (length notes) bals l rp"
    and r: "replayLineage c d evs notes acts sold bals = push_tip c rp" using sim_lineage [OF assms] .
  have rs: "receipts_sim (length notes) (rp_notes rp) (rp_receipts rp) (ld_bets l)" and tip: "tip_ok c l (rp_ln rp)"
    and len: "length notes \<le> length (rp_notes rp)" using s by (auto simp: sim_def)
  show ?thesis using tip len free_spent [OF rs]
    by (auto simp: r push_tip_def pushFree_eq free_tips_def live_tip_def tip_ok_def is_receipt_def)
qed

lemma lineage_receipts:
  assumes "ledger_run c vv (ledger_start d sold) evs = Some l" and "rx_final c" and "reads_ok c vv"
    and "\<forall>e\<in>set evs. event_ok c vv bals (lg_event e)"
    and "dl_commitment d = computeCommitment (rx_crypto c) (rx_secret c) (dl_amount d) 0 (rx_address c)"
  shows "open_receipts (drop (length notes) (rp_notes (replayLineage c d evs notes acts sold bals))) = open_bets l"
proof -
  obtain rp where s: "sim c (length notes) bals l rp"
    and r: "replayLineage c d evs notes acts sold bals = push_tip c rp" using sim_lineage [OF assms] .
  have rs: "receipts_sim (length notes) (rp_notes rp) (rp_receipts rp) (ld_bets l)" and tip: "tip_ok c l (rp_ln rp)"
    and len: "length notes \<le> length (rp_notes rp)" using s by (auto simp: sim_def)
  have "open_receipts (drop (length notes) (rp_notes (push_tip c rp))) = open_receipts (drop (length notes) (rp_notes rp))"
    using tip len by (auto simp: push_tip_def pushFree_eq open_receipts_def is_receipt_def tip_ok_def)
  then show ?thesis using open_receipts_bets [OF rs] by (simp add: r)
qed

text \<open>
  C3: the recovery of a lineage computes what the vault holds.  If the vault accepted
  the lineage's events (bets with their fees, settlements, cancellations, partial
  fills, closes, merges, withdrawals), then the replay of the final pass ends with one
  unspent note that carries the vault's balance, nonce, commitment and nullifier (none
  where the lineage is used up or its balance is 0), and its unspent receipts are the
  open bets, with the stake and the shares that are left.  The wallet's bets are on
  outcome 0, and the other inputs of its merges were found by the first pass.
\<close>
theorem recovery_exact:
  assumes "ledger_run c vv (ledger_start d sold) evs = Some l" and "rx_final c" and "reads_ok c vv"
    and "\<forall>e\<in>set evs. event_ok c vv bals (lg_event e)"
    and "dl_commitment d = computeCommitment (rx_crypto c) (rx_secret c) (dl_amount d) 0 (rx_address c)"
  shows "free_tips (drop (length notes) (rp_notes (replayLineage c d evs notes acts sold bals))) = live_tip c l \<and>
    open_receipts (drop (length notes) (rp_notes (replayLineage c d evs notes acts sold bals))) = open_bets l"
  using lineage_tips [OF assms] lineage_receipts [OF assms] by simp

text \<open>A lineage: two bets, the first filled in part, closed in part and settled, and a withdrawal.\<close>

definition sample_crypto :: crypto where
  "sample_crypto = \<lparr>cx_keccak_hex = (\<lambda>s. length s), cx_keccak_text = (\<lambda>s. length s),
     cx_poseidon2 = (\<lambda>s n. 16 * s + nat n), cx_poseidon4 = (\<lambda>s b n w. 65536 * s + 16 * nat b + nat n)\<rparr>"

definition sample_ctx :: replay_ctx where
  "sample_ctx = \<lparr>rx_crypto = sample_crypto,
     rx_env = \<lparr>re_now = 0, re_time = (\<lambda>b. Some b), re_fee = None, re_pendingCredit = (\<lambda>m s. Some 2),
               re_betRecord = (\<lambda>n. Some (200, 80))\<rparr>,
     rx_address = ''0x9'', rx_index = 0, rx_secret = ''0x7'', rx_version = 2, rx_final = True\<rparr>"

definition sample_view :: vault_view where
  "sample_view = \<lparr>vv_payout = (\<lambda>m s. 2), vv_fill = (\<lambda>n. (200, 80)), vv_input = (\<lambda>n. 0)\<rparr>"

definition sample_note :: "int \<Rightarrow> int \<Rightarrow> string" where
  "sample_note bal nonce = computeCommitment sample_crypto ''0x7'' bal nonce ''0x9''"

definition sample_null :: "int \<Rightarrow> string" where
  "sample_null nonce = computeNullifier sample_crypto ''0x7'' nonce"

definition sample_bet :: "int \<Rightarrow> int \<Rightarrow> int \<Rightarrow> int \<Rightarrow> string \<Rightarrow> chain_event" where
  "sample_bet nonce shares amt fee newc = EvBet \<lparr>bl_nullifier = sample_null nonce, bl_market_id = ''m'', bl_position_id = None,
     bl_expected_shares = shares, bl_bet_amount = amt, bl_outcome_side = 0, bl_new_commitment = newc,
     bl_protocolFee = Some fee, bl_relayFee = Some 1\<rparr>"

definition sample_events :: "log_entry list" where
  "sample_events = map (\<lambda>(i, e). \<lparr>lg_block = i, lg_idx = 0, lg_tx = ''t'', lg_event = e\<rparr>)
     [(1, sample_bet 0 300 100 2 (sample_note 897 1)),
      (2, EvPartial (sample_null 1) (sample_null 0) (sample_note 917 2)),
      (3, EvClose (sample_null 2) (sample_null 0) (sample_note 967 3) False),
      (4, sample_bet 3 10 20 0 (sample_note 946 4)),
      (5, EvSettle (sample_null 4) (sample_null 0) (sample_note 1226 5)),
      (6, EvWithdraw (sample_null 5) ''0x9'' 200 (sample_note 1026 6))]"

definition sample_deposit :: deposit_log where
  "sample_deposit = \<lparr>dl_commitment = sample_note 1000 0, dl_amount = 1000, dl_block = 0, dl_tx = ''t''\<rparr>"

definition sample_sales :: "(string \<times> (int \<times> int) list) list" where
  "sample_sales = [(lower (sample_null 0), [(50, 60)])]"

definition sample_end :: ledger where
  "sample_end = \<lparr>ld_balance = 1026, ld_nonce = 6, ld_live = True,
     ld_bets = [(sample_null 0, \<lparr>vb_market = ''m'', vb_side = 0, vb_shares = 200, vb_sold = 60, vb_amount = 80, vb_fee = 0,
                   vb_status = BDone\<rparr>),
                (sample_null 3, \<lparr>vb_market = ''m'', vb_side = 0, vb_shares = 10, vb_sold = 0, vb_amount = 20, vb_fee = 0,
                   vb_status = BActive\<rparr>)],
     ld_sales = [(sample_null 0, [])]\<rparr>"

lemma sample_null_eq: "sample_null m = sample_null n \<longleftrightarrow> nat m = nat n"
  by (simp add: sample_null_def computeNullifier_def toHex_inject sample_crypto_def)

lemma lower_sample_null: "lower (sample_null n) = sample_null n"
  by (simp add: sample_null_def computeNullifier_def lower_toHex)

lemma own_sample_null: "own_nullifier sample_ctx n = sample_null n"
  using lower_sample_null [of n] by (simp add: own_nullifier_def sample_ctx_def sample_null_def)

lemma sample_note_nonzero: "sample_note bal nonce \<noteq> ZERO_NULL"
proof -
  have z: "ZERO_NULL = toHex 0" by code_simp
  show ?thesis unfolding z by (simp add: sample_note_def computeCommitment_def sample_crypto_def field_num_def hex_val_def toHex_inject)
qed

lemma sample_commitment:
  "computeCommitment (rx_crypto sample_ctx) (rx_secret sample_ctx) b n (rx_address sample_ctx) = sample_note b n"
  by (simp add: sample_ctx_def sample_note_def)

lemma sample_run: "ledger_run sample_ctx sample_view (ledger_start sample_deposit sample_sales) sample_events = Some sample_end"
  by (simp add: sample_events_def ledger_start_def sample_deposit_def sample_sales_def sample_end_def ledger_step_def
      sample_bet_def mine_def own_sample_null lower_sample_null sample_null_eq advance_def sample_commitment set_bet_def
      settle_bet_def zero_or_def vault_partial_def vault_close_def vault_settle_def sample_view_def first_sale_def
      shift_sale_def sample_note_nonzero)

theorem recovery_exact_witness:
  "free_tips (rp_notes (replayLineage sample_ctx sample_deposit sample_events [] [] sample_sales [])) =
     [(1026, 6, sample_note 1026 6, sample_null 6)] \<and>
   open_receipts (rp_notes (replayLineage sample_ctx sample_deposit sample_events [] [] sample_sales [])) =
     {(Some (sample_null 3), Some 20, Some 10)}"
proof -
  have tip: "live_tip sample_ctx sample_end = [(1026, 6, sample_note 1026 6, sample_null 6)]"
    unfolding live_tip_def sample_commitment by (simp add: sample_end_def sample_null_def sample_ctx_def)
  have bets: "open_bets sample_end = {(Some (sample_null 3), Some 20, Some 10)}"
    by (auto simp: open_bets_def sample_end_def sample_null_eq split: if_splits)
  have ok: "\<forall>e\<in>set sample_events. event_ok sample_ctx sample_view [] (lg_event e)"
    by (simp add: sample_events_def sample_bet_def event_ok_def)
  have reads: "reads_ok sample_ctx sample_view" by (simp add: reads_ok_def sample_ctx_def sample_view_def)
  have fin: "rx_final sample_ctx" by (simp add: sample_ctx_def)
  have dep: "dl_commitment sample_deposit = computeCommitment (rx_crypto sample_ctx) (rx_secret sample_ctx)
      (dl_amount sample_deposit) 0 (rx_address sample_ctx)"
    unfolding sample_commitment by (simp add: sample_deposit_def)
  from recovery_exact [OF sample_run fin reads ok dep, of "[]" "[]"] tip bets show ?thesis by simp
qed

subsection \<open>Limits of the recovery\<close>

text \<open>
  A position whose note has balance 0 is recovered without its note.  Where the
  wallet staked its whole note, the vault still holds a live note (of balance 0), which
  a settlement or a close has to spend; the replay shows the open bets but no unspent
  note of the lineage.
\<close>
lemma staked_out_lineage_has_no_note:
  assumes "ledger_run c vv (ledger_start d sold) evs = Some l" and "rx_final c" and "reads_ok c vv"
    and "\<forall>e\<in>set evs. event_ok c vv bals (lg_event e)"
    and "dl_commitment d = computeCommitment (rx_crypto c) (rx_secret c) (dl_amount d) 0 (rx_address c)"
    and "ld_live l" and "ld_balance l = 0"
  shows "filter (\<lambda>n. \<not> is_receipt n \<and> \<not> nt_spent n)
      (drop (length notes) (rp_notes (replayLineage c d evs notes acts sold bals))) = [] \<and>
    open_receipts (drop (length notes) (rp_notes (replayLineage c d evs notes acts sold bals))) = open_bets l"
  using lineage_tips [OF assms(1-5), of "notes" "acts"] lineage_receipts [OF assms(1-5)] assms(7)
  by (simp_all add: free_tips_def live_tip_def)

definition staked_events :: "log_entry list" where
  "staked_events = [\<lparr>lg_block = 1, lg_idx = 0, lg_tx = ''t'', lg_event = sample_bet 0 3000 997 2 (sample_note 0 1)\<rparr>]"

definition staked_end :: ledger where
  "staked_end = \<lparr>ld_balance = 0, ld_nonce = 1, ld_live = True,
     ld_bets = [(sample_null 0, \<lparr>vb_market = ''m'', vb_side = 0, vb_shares = 3000, vb_sold = 0, vb_amount = 997, vb_fee = 2,
                   vb_status = BActive\<rparr>)], ld_sales = []\<rparr>"

lemma staked_run: "ledger_run sample_ctx sample_view (ledger_start sample_deposit []) staked_events = Some staked_end"
  by (simp add: staked_events_def staked_end_def ledger_start_def sample_deposit_def ledger_step_def sample_bet_def mine_def
      own_sample_null lower_sample_null sample_null_eq advance_def sample_commitment set_bet_def zero_or_def)

lemma sample_reads: "reads_ok sample_ctx sample_view"
  by (simp add: reads_ok_def sample_ctx_def sample_view_def)

lemma sample_final: "rx_final sample_ctx"
  by (simp add: sample_ctx_def)

lemma sample_dep: "dl_commitment sample_deposit = computeCommitment (rx_crypto sample_ctx) (rx_secret sample_ctx)
    (dl_amount sample_deposit) 0 (rx_address sample_ctx)"
  unfolding sample_commitment by (simp add: sample_deposit_def)

lemma staked_out_lineage_has_no_note_witness:
  "filter (\<lambda>n. \<not> is_receipt n \<and> \<not> nt_spent n)
     (rp_notes (replayLineage sample_ctx sample_deposit staked_events [] [] [] [])) = [] \<and>
   open_receipts (rp_notes (replayLineage sample_ctx sample_deposit staked_events [] [] [] [])) =
     {(Some (sample_null 0), Some 997, Some 3000)}"
proof -
  have ok: "\<forall>e\<in>set staked_events. event_ok sample_ctx sample_view [] (lg_event e)"
    by (simp add: staked_events_def sample_bet_def event_ok_def)
  have l: "ld_live staked_end" "ld_balance staked_end = 0" by (simp_all add: staked_end_def)
  have "open_bets staked_end = {(Some (sample_null 0), Some 997, Some 3000)}"
    by (auto simp: open_bets_def staked_end_def)
  with staked_out_lineage_has_no_note [OF staked_run sample_final sample_reads ok sample_dep l, of "[]" "[]"]
  show ?thesis by simp
qed

text \<open>
  C39: the settlement of a recovered bet is credited at outcome 0, whichever outcome
  was bought: the receipt that the replay builds does not record \<open>outcome_side\<close> of
  the event, so the payout that is read is that of outcome 0.
\<close>
theorem settlement_ignores_outcome:
  assumes "bl_expected_shares b \<noteq> 0" and "re_pendingCredit (rx_env c) (bl_market_id b) 0 = Some p"
  shows "credited_balance c CSettle (Some (bet_receipt c (b\<lparr>bl_outcome_side := s\<rparr>) ts tx st)) old =
    old + bl_expected_shares b * p"
  using assms by (simp add: credited_balance_def bet_receipt_def plain_note_def truthy_def zero_or_def)

theorem settlement_ignores_outcome_witness:
  "credited_balance (sample_ctx\<lparr>rx_env := (rx_env sample_ctx)\<lparr>re_pendingCredit := (\<lambda>m s. Some (if s = 1 then 1 else 0))\<rparr>\<rparr>)
     CSettle (Some (bet_receipt sample_ctx
       \<lparr>bl_nullifier = ''n'', bl_market_id = ''m'', bl_position_id = None, bl_expected_shares = 5, bl_bet_amount = 3,
        bl_outcome_side = 1, bl_new_commitment = ''c'', bl_protocolFee = Some 0, bl_relayFee = Some 0\<rparr> 1 ''t''
       (start_state sample_ctx sample_deposit))) 10 = 10"
  using settlement_ignores_outcome [of "\<lparr>bl_nullifier = ''n'', bl_market_id = ''m'', bl_position_id = None,
      bl_expected_shares = 5, bl_bet_amount = 3, bl_outcome_side = 1, bl_new_commitment = ''c'',
      bl_protocolFee = Some 0, bl_relayFee = Some 0\<rparr>"
    "sample_ctx\<lparr>rx_env := (rx_env sample_ctx)\<lparr>re_pendingCredit := (\<lambda>m s. Some (if s = 1 then 1 else 0))\<rparr>\<rparr>" 0 1 1 "''t''"
    "start_state sample_ctx sample_deposit" 10]
  by (simp add: bet_receipt_def)

subsection \<open>The paged read\<close>

definition in_blocks :: "('e \<Rightarrow> int) \<Rightarrow> int \<Rightarrow> int \<Rightarrow> 'e list \<Rightarrow> 'e list" where
  "in_blocks block_of a b evs = filter (\<lambda>e. a \<le> block_of e \<and> block_of e \<le> b) evs"

lemma in_blocks_split:
  assumes "sorted (map block_of evs)" and "a \<le> m" and "m \<le> b"
  shows "in_blocks block_of a b evs = in_blocks block_of a m evs @ in_blocks block_of (m + 1) b evs"
  using assms
proof (induction evs)
  case (Cons e evs)
  have IH: "in_blocks block_of a b evs = in_blocks block_of a m evs @ in_blocks block_of (m + 1) b evs"
    using Cons by simp
  show ?case
  proof (cases "block_of e \<le> m")
    case True
    then show ?thesis using IH Cons.prems by (simp add: in_blocks_def)
  next
    case False
    then have "in_blocks block_of a m evs = []" using Cons.prems by (auto simp: in_blocks_def filter_empty_conv)
    then show ?thesis using IH False Cons.prems by (simp add: in_blocks_def)
  qed
qed (simp add: in_blocks_def)

text \<open>
  C38: the paged read ends and is exact: if every answer holds the events of its range,
  and one block alone is always answered, the read returns every event of the range once
  and in order, whatever larger ranges the node rejects.
\<close>
theorem paged_read_complete:
  assumes "\<And>a b xs. fetch a b = Inr xs \<Longrightarrow> xs = in_blocks block_of a b evs" and "\<And>a. \<exists>xs. fetch a a = Inr xs"
    and "sorted (map block_of evs)" and "width \<noteq> 0"
  shows "getLogsPaged fetch a toBlock width = Inr (in_blocks block_of a toBlock evs)"
  using assms
proof (induction fetch a toBlock width rule: getLogsPaged.induct)
  case (1 fetch a toBlock width)
  note ex = "1.prems"(1) and single = "1.prems"(2)
  show ?case
  proof (cases "a > toBlock")
    case True
    then have "in_blocks block_of a toBlock evs = []" by (auto simp: in_blocks_def filter_empty_conv)
    then show ?thesis using True by (simp add: getLogsPaged.simps [of fetch a])
  next
    case False
    define b where "b = (if a + int width - 1 > toBlock then toBlock else a + int width - 1)"
    have g: "\<not> (a > toBlock \<or> width = 0)" using False "1.prems"(4) by simp
    have ab: "a \<le> b" "b \<le> toBlock" using g by (auto simp: b_def)
    show ?thesis
    proof (cases "fetch a b")
      case (Inr xs)
      have "getLogsPaged fetch (b + 1) toBlock width = Inr (in_blocks block_of (b + 1) toBlock evs)"
        by (rule "1.IH"(2) [OF g b_def Inr ex single "1.prems"(3,4)])
      then show ?thesis using g Inr ex [OF Inr] in_blocks_split [OF "1.prems"(3) ab]
        by (simp add: getLogsPaged.simps [of fetch a] Let_def flip: b_def)
    next
      case (Inl e)
      then have nb: "b \<noteq> a" using single [of a] by auto
      have "getLogsPaged fetch a toBlock (if width div 2 > 0 then width div 2 else 1) = Inr (in_blocks block_of a toBlock evs)"
        by (rule "1.IH"(1) [OF g b_def Inl nb ex single "1.prems"(3)]) auto
      then show ?thesis using g Inl nb by (simp add: getLogsPaged.simps [of fetch a] Let_def flip: b_def)
    qed
  qed
qed

theorem paged_read_complete_witness:
  "getLogsPaged (\<lambda>a b. if b - a > 1 then Inl ''limit'' else Inr (in_blocks id a b [1, 3, 3, 8])) 0 7 9000 = Inr [1, 3, 3]"
proof -
  let ?f = "\<lambda>a b. if b - a > 1 then Inl ''limit'' else Inr (in_blocks id a b [1, 3, 3, 8])"
  have ex: "xs = in_blocks id a b [1, 3, 3, 8]" if "?f a b = Inr xs" for a b xs using that by (simp split: if_splits)
  have single: "\<exists>xs. ?f a a = Inr xs" for a by simp
  have "getLogsPaged ?f 0 7 9000 = Inr (in_blocks id 0 7 [1, 3, 3, 8])"
    by (rule paged_read_complete [OF ex single]) simp_all
  then show ?thesis by (simp add: in_blocks_def)
qed

end
