(* ===== verification/Note_Flows_Props.thy ===== *)
theory Note_Flows_Props
  imports Liquidation Note_Recovery_Props
begin

section \<open>The flows keep the notes in step with the vault\<close>

text \<open>
  The four flows that credit a bet are shown to refine \<open>ledger_step\<close>: what they
  prove is what the circuit states, what they credit is what the vault pays, and the
  note they leave is the vault's.  The run that closes everything never spends a
  lineage with an open position.
\<close>

subsection \<open>The store at one lineage\<close>

definition free_at :: "string \<Rightarrow> nat \<Rightarrow> Note \<Rightarrow> bool" where
  "free_at wallet ix n \<longleftrightarrow> nt_depositIndex n = ix \<and> \<not> nt_spent n \<and> nt_kind n \<noteq> BET_RECEIPT \<and>
     (wallet = '''' \<or> sameAddress (nt_owner n) wallet)"

definition known_as :: "string \<Rightarrow> Note \<Rightarrow> bool" where
  "known_as k n \<longleftrightarrow> nt_commitment n = k \<or> nt_id n = k"

text \<open>The note of the ledger: the only unspent note of its deposit, and the only one under its commitment.\<close>

definition tip_in :: "replay_ctx \<Rightarrow> ledger \<Rightarrow> Note list \<Rightarrow> Note \<Rightarrow> bool" where
  "tip_in c l ns n \<longleftrightarrow>
     filter (free_at (rx_address c) (rx_index c)) ns = [n] \<and> filter (known_as (nt_commitment n)) ns = [n] \<and>
     nt_balance n = ld_balance l \<and> nt_nonce n = ld_nonce l \<and> version_of n = rx_version c \<and>
     nt_commitment n = computeCommitment (rx_crypto c) (rx_secret c) (ld_balance l) (ld_nonce l) (rx_address c) \<and>
     nt_nullifier n = computeNullifier (rx_crypto c) (rx_secret c) (ld_nonce l)"

definition in_step :: "replay_ctx \<Rightarrow> ledger \<Rightarrow> browser \<Rightarrow> bool" where
  "in_step c l b \<longleftrightarrow> ld_live l \<and> (\<exists>n. tip_in c l (loadAll b) n)"

lemma loadAll_simps [simp]:
  "loadAll (saveAll ns b) = ns" "loadAll (addNote n b) = loadAll b @ [n]"
  "loadAll (recordWalletActivity e b) = loadAll b"
  by (simp_all add: loadAll_def saveAll_def addNote_def recordWalletActivity_def saveActivity_def)

lemma update_first_unique: "length (filter P ns) \<le> 1 \<Longrightarrow> update_first P f ns = map (\<lambda>x. if P x then f x else x) ns"
proof (induction ns)
  case (Cons x xs)
  then show ?case
  proof (cases "P x")
    case True
    then have "\<forall>y\<in>set xs. \<not> P y" using Cons.prems by (auto simp: filter_empty_conv)
    then show ?thesis using True by (simp add: map_idI)
  qed simp
qed simp

lemma update_first_none: "\<not> list_ex P ns \<Longrightarrow> update_first P f ns = ns"
  by (induction ns) auto

lemma loadAll_mark: "loadAll (markNoteSpent k b) = update_first (known_as k) (\<lambda>n. n\<lparr>nt_spent := True\<rparr>) (loadAll b)"
  by (simp add: markNoteSpent_def known_as_def [abs_def] Let_def update_first_none)

lemma free_update_first:
  "(\<And>n. P n \<Longrightarrow> nt_kind n = BET_RECEIPT \<and> nt_kind (f n) = BET_RECEIPT) \<Longrightarrow>
     filter (free_at w ix) (update_first P f ns) = filter (free_at w ix) ns"
  by (induction ns) (auto simp: free_at_def)

definition unknown :: "string \<Rightarrow> Note list \<Rightarrow> bool" where
  "unknown k ns \<longleftrightarrow> (\<forall>n\<in>set ns. \<not> known_as k n)"

lemma unknown_simps [simp]:
  "unknown k []" "unknown k (n # ns) \<longleftrightarrow> \<not> known_as k n \<and> unknown k ns"
  "unknown k (ns @ ms) \<longleftrightarrow> unknown k ns \<and> unknown k ms"
  by (auto simp: unknown_def)

lemma unknown_filter: "unknown k ns \<Longrightarrow> filter (known_as k) ns = []"
  by (auto simp: unknown_def filter_empty_conv)

lemma unknown_update_first: "(\<And>n. known_as k (f n) = known_as k n) \<Longrightarrow> unknown k (update_first P f ns) = unknown k ns"
  by (induction ns) auto

lemma known_spent [simp]: "known_as k (n\<lparr>nt_spent := sp\<rparr>) = known_as k n"
  by (simp add: known_as_def)

lemma receipt_marked:
  "filter (free_at w ix) (loadAll (markBetReceiptSpent nf b)) = filter (free_at w ix) (loadAll b)"
  "unknown k (loadAll (markBetReceiptSpent nf b)) = unknown k (loadAll b)"
  by (auto simp: markBetReceiptSpent_def Let_def unknown_update_first intro: free_update_first)

lemma note_marked:
  "unknown k (loadAll (markNoteSpent c b)) = unknown k (loadAll b)"
  by (simp add: loadAll_mark unknown_update_first)

text \<open>Spending the tip leaves no free note of the deposit.\<close>

lemma tip_spent:
  assumes "tip_in c l (loadAll b) n"
  shows "filter (free_at (rx_address c) (rx_index c)) (loadAll (markNoteSpent (nt_commitment n) b)) = []"
proof -
  let ?P = "known_as (nt_commitment n)" and ?F = "free_at (rx_address c) (rx_index c)"
  have P: "filter ?P (loadAll b) = [n]" and F: "filter ?F (loadAll b) = [n]" using assms by (auto simp: tip_in_def)
  have "update_first ?P (\<lambda>x. x\<lparr>nt_spent := True\<rparr>) (loadAll b) =
      map (\<lambda>x. if ?P x then x\<lparr>nt_spent := True\<rparr> else x) (loadAll b)"
    by (rule update_first_unique) (simp add: P)
  moreover have "?P x" if "x \<in> set (loadAll b)" "?F x" for x
  proof -
    have "x \<in> set (filter ?F (loadAll b))" using that by simp
    then show ?thesis by (simp add: F known_as_def)
  qed
  ultimately show ?thesis by (auto simp: loadAll_mark filter_empty_conv free_at_def)
qed

lemma free_note_of_tip:
  assumes "tip_in c l (loadAll b) n"
  shows "getFreeNoteForDeposit (rx_address c) (rx_index c) b = Some n"
proof -
  have "filter (\<lambda>n. nt_depositIndex n = rx_index c) (getFreeNotes (rx_address c) b) = [n]"
    using assms by (simp add: tip_in_def getFreeNotes_def free_at_def [abs_def] conj_ac)
  then show ?thesis by (simp add: getFreeNoteForDeposit_def)
qed

text \<open>A new note of the deposit after the old one was spent.\<close>

definition continues :: "replay_ctx \<Rightarrow> ledger \<Rightarrow> Note \<Rightarrow> bool" where
  "continues c l n \<longleftrightarrow> free_at (rx_address c) (rx_index c) n \<and> nt_id n = nt_commitment n \<and>
     nt_balance n = ld_balance l \<and> nt_nonce n = ld_nonce l \<and> version_of n = rx_version c \<and>
     nt_commitment n = computeCommitment (rx_crypto c) (rx_secret c) (ld_balance l) (ld_nonce l) (rx_address c) \<and>
     nt_nullifier n = computeNullifier (rx_crypto c) (rx_secret c) (ld_nonce l)"

lemma continues_tip:
  assumes "filter (free_at (rx_address c) (rx_index c)) ns = []" and "continues c l n" and "unknown (nt_commitment n) ns"
  shows "tip_in c l (ns @ [n]) n"
  using assms by (simp add: tip_in_def continues_def unknown_filter) (simp add: known_as_def)

subsection \<open>Credits\<close>

text \<open>What the circuits of the four credits state (\<open>packages/circuits\<close>); the path is the relay's.\<close>

definition credit_ok :: "crypto \<Rightarrow> credit_inputs \<Rightarrow> bool" where
  "credit_ok cx i \<longleftrightarrow>
     ci_leaf i = computeCommitment cx (ci_secret i) (ci_balance i) (ci_nonce i) (ci_owner i) \<and>
     ci_nullifier i = computeNullifier cx (ci_secret i) (ci_nonce i) \<and>
     ci_new_commitment i = computeCommitment cx (ci_secret i) (ci_balance i + ci_amount i) (ci_nonce i + 1) (ci_owner i) \<and>
     ci_nullifier_of_bet i = computeNullifier cx (ci_secret i) (ci_bet_nonce i) \<and> ci_bet_nonce i < ci_nonce i"

text \<open>The four flows, the event the vault emits for each, and what the vault pays.\<close>

datatype credit_op = OpSettle int | OpClose bool | OpPartial | OpReclaim

fun run_credit :: "credit_op \<Rightarrow> flow_env \<Rightarrow> string \<Rightarrow> Note \<Rightarrow> session \<Rightarrow> bool \<times> session" where
  "run_credit (OpSettle claim) env wallet r s = (case settlePosition env wallet r claim s of (out, s') \<Rightarrow> (out = Inr (FDone claim), s'))"
| "run_credit (OpClose full) env wallet r s = (case finalizeClose env wallet r s of (out, s') \<Rightarrow> (\<exists>p. out = Inr (FDone p), s'))"
| "run_credit OpPartial env wallet r s = (case finalizePartialFill env wallet r s of (out, s') \<Rightarrow> (out = Inr True, s'))"
| "run_credit OpReclaim env wallet r s = (case creditFailedReclaim env wallet r s of (out, s') \<Rightarrow> (\<exists>p. out = Inr (FDone p), s'))"

fun op_event :: "credit_op \<Rightarrow> string \<Rightarrow> string \<Rightarrow> string \<Rightarrow> chain_event" where
  "op_event (OpSettle claim) nf nob newc = EvSettle nf nob newc"
| "op_event (OpClose full) nf nob newc = EvClose nf nob newc full"
| "op_event OpPartial nf nob newc = EvPartial nf nob newc"
| "op_event OpReclaim nf nob newc = EvBetCancel nf nob newc"

fun op_pays :: "vault_view \<Rightarrow> credit_op \<Rightarrow> string \<Rightarrow> ledger \<Rightarrow> vault_bet \<Rightarrow> (int \<times> vault_bet) option" where
  "op_pays vv (OpSettle claim) nob l v = vault_settle vv v"
| "op_pays vv (OpClose full) nob l v = Option.bind (first_sale nob (ld_sales l)) (\<lambda>sale. vault_close full sale v)"
| "op_pays vv OpPartial nob l v = vault_partial (vv_fill vv (lower nob)) v"
| "op_pays vv OpReclaim nob l v = vault_cancel v"

fun op_sales :: "credit_op \<Rightarrow> string \<Rightarrow> ledger \<Rightarrow> ledger" where
  "op_sales (OpClose full) nob l = l\<lparr>ld_sales := shift_sale nob (ld_sales l)\<rparr>"
| "op_sales op nob l = l"

text \<open>The reads of the frontend agree with the vault's bet and with the operator's reports.\<close>

fun op_reads :: "vault_reads \<Rightarrow> vault_view \<Rightarrow> credit_op \<Rightarrow> string \<Rightarrow> ledger \<Rightarrow> vault_bet \<Rightarrow> bool" where
  "op_reads vr vv (OpSettle claim) nob l v \<longleftrightarrow>
     claim = (vb_shares v - vb_sold v) * vv_payout vv (vb_market v) (vb_side v) \<and>
     (\<exists>rec. vr_record vr nob = Some rec \<and> br_status rec \<noteq> BET_CREDITED)"
| "op_reads vr vv (OpClose full) nob l v \<longleftrightarrow>
     (\<exists>rec. vr_record vr nob = Some rec \<and> br_status rec \<noteq> BET_CLOSED_CREDITED) \<and>
     (\<exists>a. vr_att vr nob (Some REPORT_SOLD) = Some a \<and> first_sale nob (ld_sales l) = Some (sa_amountB a, sa_amountA a))"
| "op_reads vr vv OpPartial nob l v \<longleftrightarrow>
     (\<exists>rec. vr_record vr nob = Some rec \<and> br_betAmount rec = vb_amount v) \<and> vr_fee vr nob = Some (vb_fee v) \<and>
     (\<exists>a. vr_att vr nob None = Some a \<and> vv_fill vv (lower nob) = (sa_amountA a, sa_amountB a))"
| "op_reads vr vv OpReclaim nob l v \<longleftrightarrow>
     (\<exists>rec. vr_record vr nob = Some rec \<and> br_betAmount rec = vb_amount v \<and> 0 < vb_amount v) \<and>
     vr_fee vr nob = Some (vb_fee v)"

text \<open>A receipt of the lineage, stored once.\<close>

definition receipt_in :: "replay_ctx \<Rightarrow> ledger \<Rightarrow> Note list \<Rightarrow> Note \<Rightarrow> bool" where
  "receipt_in c l ns r \<longleftrightarrow>
     nt_kind r = BET_RECEIPT \<and> nt_depositIndex r = rx_index c \<and> filter (known_as (nt_id r)) ns = [r] \<and>
     bet_key r = computeNullifier (rx_crypto c) (rx_secret c) (nt_nonce r) \<and> nt_nonce r < ld_nonce l"

lemma replace_receipt:
  assumes "filter (known_as (nt_id r)) (loadAll b) = [r]" and "nt_kind r = BET_RECEIPT" and "nt_kind r' = BET_RECEIPT"
    and "nt_id r' = nt_id r" and "nt_commitment r' = nt_commitment r"
  shows "filter (free_at w ix) (loadAll (replaceNote (nt_id r) r' b)) = filter (free_at w ix) (loadAll b)"
    and "\<not> known_as k r \<Longrightarrow> filter (known_as k) (loadAll (replaceNote (nt_id r) r' b)) = filter (known_as k) (loadAll b)"
proof -
  have ex: "list_ex (known_as (nt_id r)) (loadAll b)"
    using assms(1) by (auto simp: list_ex_iff filter_eq_Cons_iff)
  have only: "n = r" if "n \<in> set (loadAll b)" "known_as (nt_id r) n" for n
  proof -
    have "n \<in> set (filter (known_as (nt_id r)) (loadAll b))" using that by simp
    then show ?thesis by (simp add: assms(1))
  qed
  have eq: "loadAll (replaceNote (nt_id r) r' b) = update_first (known_as (nt_id r)) (\<lambda>_. r') (loadAll b)"
    using ex by (simp add: replaceNote_def known_as_def [abs_def] Let_def disj_commute)
  have *: "filter (free_at w ix) (update_first P (\<lambda>_. r') ns) = filter (free_at w ix) ns \<and>
      (\<not> known_as k r \<longrightarrow> filter (known_as k) (update_first P (\<lambda>_. r') ns) = filter (known_as k) ns)"
    if "\<forall>n\<in>set ns. P n \<longrightarrow> n = r" for P ns
    using that assms(2-5) by (induction ns) (auto simp: free_at_def known_as_def)
  show "filter (free_at w ix) (loadAll (replaceNote (nt_id r) r' b)) = filter (free_at w ix) (loadAll b)"
    and "\<not> known_as k r \<Longrightarrow> filter (known_as k) (loadAll (replaceNote (nt_id r) r' b)) = filter (known_as k) (loadAll b)"
    using * [of "loadAll b" "known_as (nt_id r)"] only by (auto simp: eq)
qed

lemma on_browser_simps [simp]:
  "sn_browser (on_browser f s) = f (sn_browser s)" "sn_sent (on_browser f s) = sn_sent s"
  by (simp_all add: on_browser_def)

lemma prove_and_relay_ok:
  "prove_and_relay env r s = (Inr tx, s1) \<Longrightarrow> s1 = s\<lparr>sn_sent := sn_sent s @ [r]\<rparr>"
  by (auto simp: prove_and_relay_def relay_and_wait_def Let_def split: if_splits option.splits)

lemma prove_and_relay_browser: "prove_and_relay env r s = (out, s1) \<Longrightarrow> sn_browser s1 = sn_browser s"
  by (auto simp: prove_and_relay_def relay_and_wait_def Let_def split: if_splits option.splits)

text \<open>The amount a flow asks for, from its reads.\<close>

fun op_asks :: "vault_reads \<Rightarrow> credit_op \<Rightarrow> string \<Rightarrow> int" where
  "op_asks vr (OpSettle claim) nob = claim"
| "op_asks vr (OpClose full) nob = sa_amountB (the (vr_att vr nob (Some REPORT_SOLD)))"
| "op_asks vr OpPartial nob = partial_fill_refund (br_betAmount (the (vr_record vr nob)))
     (sa_amountB (the (vr_att vr nob None))) (the (vr_fee vr nob))"
| "op_asks vr OpReclaim nob = br_betAmount (the (vr_record vr nob)) + the (vr_fee vr nob)"

lemma op_asks_pays:
  assumes "op_reads vr vv op nob l v" and "op_pays vv op nob l v = Some (cr, v')"
    and "0 \<le> vb_fee v"
  shows "op_asks vr op nob = cr"
proof (cases op)
  case (OpSettle claim)
  then show ?thesis using assms by (auto simp: vault_settle_def split: if_splits)
next
  case (OpClose full)
  then show ?thesis using assms by (auto simp: vault_close_def split: if_splits)
next
  case OpPartial
  then show ?thesis using assms
    by (auto simp: vault_partial_def partial_fill_refund_def big_div_nonneg Let_def split: if_splits)
next
  case OpReclaim
  then show ?thesis using assms by (auto simp: vault_cancel_def split: if_splits)
qed

text \<open>A note that differs from \<open>next_note\<close> in its display fields only.\<close>

definition same_note :: "Note \<Rightarrow> Note \<Rightarrow> bool" where
  "same_note n m \<longleftrightarrow> (\<exists>k mk cid. n = m\<lparr>nt_kind := k, nt_marketId := mk, nt_condition_id := cid\<rparr> \<and> k \<noteq> BET_RECEIPT)"

lemma next_note_fields [simp]:
  "nt_id (next_note env k w f sec bal tx) = computeCommitment (fl_crypto env) sec bal (nt_nonce f + 1) w"
  "nt_commitment (next_note env k w f sec bal tx) = computeCommitment (fl_crypto env) sec bal (nt_nonce f + 1) w"
  "nt_nullifier (next_note env k w f sec bal tx) = computeNullifier (fl_crypto env) sec (nt_nonce f + 1)"
  "nt_balance (next_note env k w f sec bal tx) = bal" "nt_nonce (next_note env k w f sec bal tx) = nt_nonce f + 1"
  "nt_kind (next_note env k w f sec bal tx) = k" "nt_owner (next_note env k w f sec bal tx) = w"
  "nt_depositIndex (next_note env k w f sec bal tx) = nt_depositIndex f"
  "nt_spent (next_note env k w f sec bal tx) = False"
  "nt_version (next_note env k w f sec bal tx) = Some (version_of f)"
  by (simp_all add: next_note_def plain_note_def Let_def)

text \<open>What a flow that went through has done: one request, the tip spent, its successor stored.\<close>

definition credited :: "flow_env \<Rightarrow> string \<Rightarrow> Note \<Rightarrow> Note \<Rightarrow> int \<Rightarrow> session \<Rightarrow> session \<Rightarrow> bool" where
  "credited env wallet r n amt s s' \<longleftrightarrow>
     (\<exists>circ sec rt tx new. open_note env n = Inr (sec, rt) \<and>
        sn_sent s' = sn_sent s @ [R_credit (credit_request env circ wallet n sec rt r amt)] \<and>
        same_note new (next_note env SETTLE_CREDIT wallet n sec (nt_balance n + amt) tx) \<and>
        (unknown (nt_commitment new) (loadAll (sn_browser s)) \<longrightarrow>
           (\<forall>w ix. filter (free_at w ix) (loadAll (sn_browser s')) =
              filter (free_at w ix) (loadAll (markNoteSpent (nt_commitment n) (sn_browser s)) @ [new])) \<and>
           filter (known_as (nt_commitment new)) (loadAll (sn_browser s')) = [new]))"

lemma same_note_next:
  "k \<noteq> BET_RECEIPT \<Longrightarrow>
     same_note ((next_note env k w f sec bal tx)\<lparr>nt_marketId := mk, nt_condition_id := cid\<rparr>) (next_note env k' w f sec bal tx)"
  unfolding same_note_def by (rule exI [of _ k], rule exI [of _ mk], rule exI [of _ cid])
    (simp add: next_note_def plain_note_def Let_def)

lemma same_note_fields:
  assumes "same_note new m"
  shows "nt_id new = nt_id m" "nt_commitment new = nt_commitment m" "nt_nullifier new = nt_nullifier m"
    "nt_balance new = nt_balance m" "nt_nonce new = nt_nonce m" "nt_owner new = nt_owner m"
    "nt_depositIndex new = nt_depositIndex m" "nt_spent new = nt_spent m" "nt_version new = nt_version m"
    "nt_kind new \<noteq> BET_RECEIPT"
  using assms by (auto simp: same_note_def)

lemma known_new: "nt_id new = nt_commitment new \<Longrightarrow> known_as (nt_commitment new) new"
  by (simp add: known_as_def)

text \<open>The bookkeeping shared by the flows, whatever the order of its steps.\<close>

lemma credited_intro:
  assumes "open_note env n = Inr (sec, rt)"
    and "sn_sent s' = sn_sent s @ [R_credit (credit_request env circ wallet n sec rt r amt)]"
    and new: "same_note new (next_note env SETTLE_CREDIT wallet n sec (nt_balance n + amt) tx)"
    and free: "unknown (nt_commitment new) (loadAll (sn_browser s)) \<Longrightarrow>
      \<forall>w ix. filter (free_at w ix) (loadAll (sn_browser s')) =
        filter (free_at w ix) (loadAll (markNoteSpent (nt_commitment n) (sn_browser s)) @ [new])"
    and known: "unknown (nt_commitment new) (loadAll (sn_browser s)) \<Longrightarrow>
      filter (known_as (nt_commitment new)) (loadAll (sn_browser s')) = [new]"
  shows "credited env wallet r n amt s s'"
  unfolding credited_def using assms by blast

lemma stored_new:
  assumes "same_note new (next_note env k wallet n sec bal tx)" and "unknown (nt_commitment new) (loadAll b)"
  shows "filter (known_as (nt_commitment new)) (loadAll (addNote new b)) = [new]"
  using assms same_note_fields [OF assms(1)] by (simp add: unknown_filter known_as_def)

lemma settle_credited:
  assumes run: "run_credit (OpSettle claim) env wallet r s = (True, s')"
    and n: "getFreeNoteForDeposit wallet (nt_depositIndex r) (sn_browser s) = Some n"
    and reads: "op_reads (fl_reads env) vv (OpSettle claim) (bet_key r) l v"
  shows "credited env wallet r n claim s s'"
proof -
  obtain sec rt tx s1 where o: "open_note env n = Inr (sec, rt)"
    and p: "prove_and_relay env (R_credit (credit_request env C_settlement wallet n sec rt r claim)) s = (Inr tx, s1)"
    and s': "s' = on_browser (addNote ((next_note env SETTLE_CREDIT wallet n sec (nt_balance n + claim) tx)
         \<lparr>nt_marketId := nt_marketId r, nt_condition_id := Some (case nt_condition_id r of Some c \<Rightarrow> c
             | None \<Rightarrow> ''0x'' @ replicate 64 (CHR ''0''))\<rparr>) \<circ>
       recordWalletActivity (activity_event env ''settlement'' wallet A_settlement claim tx r) \<circ>
       markBetReceiptSpent (bet_key r) \<circ> markNoteSpent (nt_commitment n)) s1"
    using run n reads
    by (auto simp: settlePosition_def Let_def split: prod.splits sum.splits option.splits if_splits)
  show ?thesis
    by (rule credited_intro [OF o, where tx = tx and circ = C_settlement
          and new = "(next_note env SETTLE_CREDIT wallet n sec (nt_balance n + claim) tx)
         \<lparr>nt_marketId := nt_marketId r, nt_condition_id := Some (case nt_condition_id r of Some c \<Rightarrow> c
             | None \<Rightarrow> ''0x'' @ replicate 64 (CHR ''0''))\<rparr>"])
      (use prove_and_relay_ok [OF p] in \<open>simp_all add: s' same_note_next receipt_marked note_marked unknown_filter known_as_def\<close>)
qed

lemma close_credited:
  assumes run: "run_credit (OpClose full) env wallet r s = (True, s')"
    and n: "getFreeNoteForDeposit wallet (nt_depositIndex r) (sn_browser s) = Some n"
    and reads: "op_reads (fl_reads env) vv (OpClose full) (bet_key r) l v"
  shows "credited env wallet r n (op_asks (fl_reads env) (OpClose full) (bet_key r)) s s'"
proof -
  obtain rec a where rec: "vr_record (fl_reads env) (bet_key r) = Some rec" "br_status rec \<noteq> BET_CLOSED_CREDITED"
    and a: "vr_att (fl_reads env) (bet_key r) (Some REPORT_SOLD) = Some a" using reads by auto
  let ?new = "\<lambda>sec tx. (next_note env SETTLE_CREDIT wallet n sec (nt_balance n + sa_amountB a) tx)
      \<lparr>nt_marketId := nt_marketId r, nt_condition_id := nt_condition_id r\<rparr>"
  obtain sec rt tx s1 where o: "open_note env n = Inr (sec, rt)"
    and p: "prove_and_relay env (R_credit (credit_request env C_position_close wallet n sec rt r (sa_amountB a))) s = (Inr tx, s1)"
    and s': "s' = on_browser (addNote (?new sec tx) \<circ>
       recordWalletActivity (activity_event env ''close'' wallet A_settlement (sa_amountB a) tx r) \<circ>
       (if sa_amountA a \<ge> br_expectedShares rec then markBetReceiptSpent (bet_key r) else id) \<circ>
       markNoteSpent (nt_commitment n)) s1"
    using run n rec a
    by (auto simp: finalizeClose_def Let_def split: prod.splits sum.splits option.splits if_splits)
  show ?thesis
    by (rule credited_intro [OF o, where tx = tx and circ = C_position_close and new = "?new sec tx"])
      (use prove_and_relay_ok [OF p] in
        \<open>simp_all add: s' a same_note_next receipt_marked note_marked unknown_filter known_as_def\<close>)
qed

lemma reclaim_credited:
  assumes run: "run_credit OpReclaim env wallet r s = (True, s')"
    and n: "getFreeNoteForDeposit wallet (nt_depositIndex r) (sn_browser s) = Some n"
    and reads: "op_reads (fl_reads env) vv OpReclaim (bet_key r) l v"
  shows "credited env wallet r n (op_asks (fl_reads env) OpReclaim (bet_key r)) s s'"
proof -
  obtain rec where rec: "vr_record (fl_reads env) (bet_key r) = Some rec" "0 < br_betAmount rec"
    and fee: "vr_fee (fl_reads env) (bet_key r) = Some (vb_fee v)" using reads by auto
  let ?amt = "br_betAmount rec + vb_fee v"
  let ?new = "\<lambda>sec tx. (next_note env CANCEL_CREDIT wallet n sec (nt_balance n + ?amt) tx)
      \<lparr>nt_marketId := nt_marketId r, nt_condition_id := nt_condition_id r\<rparr>"
  obtain sec rt tx s1 where o: "open_note env n = Inr (sec, rt)"
    and p: "prove_and_relay env (R_credit (credit_request env C_bet_cancel wallet n sec rt r ?amt)) s = (Inr tx, s1)"
    and s': "s' = on_browser (recordWalletActivity (activity_event env ''betcancel'' wallet A_refund ?amt tx r) \<circ>
       addNote (?new sec tx) \<circ> markBetReceiptSpent (bet_key r) \<circ> markNoteSpent (nt_commitment n)) s1"
    using run n rec fee
    by (auto simp: creditFailedReclaim_def Let_def add.assoc split: prod.splits sum.splits option.splits if_splits)
  show ?thesis
    by (rule credited_intro [OF o, where tx = tx and circ = C_bet_cancel and new = "?new sec tx"])
      (use prove_and_relay_ok [OF p] in
        \<open>simp_all add: s' rec fee same_note_next receipt_marked note_marked unknown_filter known_as_def\<close>)
qed

lemma partial_credited:
  assumes run: "run_credit OpPartial env wallet r s = (True, s')"
    and n: "getFreeNoteForDeposit wallet (nt_depositIndex r) (sn_browser s) = Some n"
    and reads: "op_reads (fl_reads env) vv OpPartial (bet_key r) l v"
    and r: "filter (known_as (nt_id r)) (loadAll (sn_browser s)) = [r]" "nt_kind r = BET_RECEIPT"
    and nr: "\<not> known_as (nt_commitment n) r"
  shows "credited env wallet r n (op_asks (fl_reads env) OpPartial (bet_key r)) s s'"
proof -
  obtain rec a where rec: "vr_record (fl_reads env) (bet_key r) = Some rec"
    and fee: "vr_fee (fl_reads env) (bet_key r) = Some (vb_fee v)"
    and a: "vr_att (fl_reads env) (bet_key r) None = Some a" using reads by auto
  let ?amt = "partial_fill_refund (br_betAmount rec) (sa_amountB a) (vb_fee v)"
  let ?new = "\<lambda>sec tx. (next_note env CANCEL_CREDIT wallet n sec (nt_balance n + ?amt) tx)
      \<lparr>nt_marketId := nt_marketId r, nt_condition_id := nt_condition_id r\<rparr>"
  let ?r = "r\<lparr>nt_bet_amount := Some (sa_amountB a), nt_expectedShares := Some (sa_amountA a)\<rparr>"
  obtain sec rt tx s1 where o: "open_note env n = Inr (sec, rt)"
    and p: "prove_and_relay env (R_credit (credit_request env C_partial_credit wallet n sec rt r ?amt)) s = (Inr tx, s1)"
    and s': "s' = on_browser ((if ?amt > 0 then recordWalletActivity (activity_event env ''partial'' wallet A_refund ?amt tx r) else id) \<circ>
       replaceNote (nt_id r) ?r \<circ> addNote (?new sec tx) \<circ> markNoteSpent (nt_commitment n)) s1"
    using run n rec fee a
    by (auto simp: finalizePartialFill_def Let_def split: prod.splits sum.splits option.splits if_splits)
  let ?b = "addNote (?new sec tx) (markNoteSpent (nt_commitment n) (sn_browser s))"
  have one: "filter (known_as (nt_id r)) (loadAll ?b) = [r] \<and> \<not> known_as (nt_commitment (?new sec tx)) r"
    if "unknown (nt_commitment (?new sec tx)) (loadAll (sn_browser s))"
  proof -
    have mem: "r \<in> set (loadAll (sn_browser s))" using r(1) by (auto simp: filter_eq_Cons_iff)
    then have new: "\<not> known_as (nt_commitment (?new sec tx)) r" using that by (auto simp: unknown_def)
    then have "\<not> known_as (nt_id r) (?new sec tx)" by (auto simp: known_as_def)
    moreover have "filter (known_as k) (update_first (known_as c) (\<lambda>n. n\<lparr>nt_spent := True\<rparr>) ns) = filter (known_as k) ns"
      if "\<forall>m\<in>set ns. known_as c m \<longrightarrow> \<not> known_as k m" for c k ns
      using that by (induction ns) auto
    moreover have "\<not> known_as (nt_id r) m" if m: "m \<in> set (loadAll (sn_browser s))" "known_as (nt_commitment n) m" for m
    proof
      assume "known_as (nt_id r) m"
      then have "m \<in> set (filter (known_as (nt_id r)) (loadAll (sn_browser s)))" using m by simp
      then show False using r(1) m nr by simp
    qed
    ultimately show ?thesis using r(1) new by (simp add: loadAll_mark)
  qed
  have s1: "s1 = s\<lparr>sn_sent := sn_sent s @ [R_credit (credit_request env C_partial_credit wallet n sec rt r ?amt)]\<rparr>"
    by (rule prove_and_relay_ok [OF p])
  have all: "loadAll (sn_browser s') = loadAll (replaceNote (nt_id r) ?r ?b)" by (simp add: s' s1)
  have b: "loadAll ?b = loadAll (markNoteSpent (nt_commitment n) (sn_browser s)) @ [?new sec tx]" by simp
  show ?thesis
  proof (rule credited_intro [OF o, where tx = tx and circ = C_partial_credit and new = "?new sec tx"])
    assume u: "unknown (nt_commitment (?new sec tx)) (loadAll (sn_browser s))"
    note o1 = conjunct1 [OF one [OF u]] and o2 = conjunct2 [OF one [OF u]]
    show "\<forall>w ix. filter (free_at w ix) (loadAll (sn_browser s')) =
        filter (free_at w ix) (loadAll (markNoteSpent (nt_commitment n) (sn_browser s)) @ [?new sec tx])"
      using replace_receipt(1) [OF o1 r(2), of ?r] r(2) unfolding all b by simp
    have "filter (known_as (nt_commitment (?new sec tx))) (loadAll (sn_browser s')) =
        filter (known_as (nt_commitment (?new sec tx))) (loadAll ?b)"
      unfolding all by (rule replace_receipt(2) [OF o1 r(2) _ _ _ o2]) (simp_all add: r(2))
    then show "filter (known_as (nt_commitment (?new sec tx))) (loadAll (sn_browser s')) = [?new sec tx]"
      unfolding b using u by (simp add: note_marked unknown_filter known_as_def)
  qed (simp_all add: s' s1 rec fee a same_note_next)
qed

lemma credit_flow_credited:
  assumes "run_credit op env wallet r s = (True, s')"
    and "getFreeNoteForDeposit wallet (nt_depositIndex r) (sn_browser s) = Some n"
    and "op_reads (fl_reads env) vv op (bet_key r) l v"
    and "filter (known_as (nt_id r)) (loadAll (sn_browser s)) = [r]" "nt_kind r = BET_RECEIPT"
    and "op = OpPartial \<Longrightarrow> \<not> known_as (nt_commitment n) r"
  shows "credited env wallet r n (op_asks (fl_reads env) op (bet_key r)) s s'"
proof (cases op)
  case (OpSettle claim)
  have "credited env wallet r n claim s s'"
    by (rule settle_credited [OF _ assms(2)]) (use assms(1,3) OpSettle in auto)
  then show ?thesis by (simp add: OpSettle)
next
  case (OpClose full)
  then show ?thesis using close_credited [OF _ assms(2)] assms(1,3) by blast
next
  case OpPartial
  then show ?thesis using partial_credited [OF _ assms(2) _ assms(4,5)] assms(1,3,6) by blast
next
  case OpReclaim
  then show ?thesis using reclaim_credited [OF _ assms(2)] assms(1,3) by blast
qed

text \<open>The vault's side: the event of the flow, and what it makes of the lineage.\<close>

definition after_credit :: "credit_op \<Rightarrow> string \<Rightarrow> int \<Rightarrow> vault_bet \<Rightarrow> ledger \<Rightarrow> ledger" where
  "after_credit op nob cr v' l =
     (set_bet nob v' (op_sales op nob l))\<lparr>ld_balance := ld_balance l + cr, ld_nonce := ld_nonce l + 1\<rparr>"

lemma op_sales_fields [simp]:
  "ld_bets (op_sales op nob l) = ld_bets l" "ld_balance (op_sales op nob l) = ld_balance l"
  "ld_nonce (op_sales op nob l) = ld_nonce l" "ld_live (op_sales op nob l) = ld_live l"
  by (cases op; simp)+

lemma after_credit_fields [simp]:
  "ld_balance (after_credit op nob cr v' l) = ld_balance l + cr" "ld_nonce (after_credit op nob cr v' l) = ld_nonce l + 1"
  "ld_live (after_credit op nob cr v' l) = ld_live l"
  by (simp_all add: after_credit_def set_bet_def)

lemma settle_bet_pays:
  assumes "map_of (ld_bets l) (lower nob) = Some v" and "f v = Some (cr, v')"
    and "newc = computeCommitment (rx_crypto c) (rx_secret c) (ld_balance l + cr) (ld_nonce l + 1) (rx_address c)"
  shows "settle_bet c nob newc f l =
    Some ((set_bet nob v' l)\<lparr>ld_balance := ld_balance l + cr, ld_nonce := ld_nonce l + 1\<rparr>)"
  using assms by (simp add: settle_bet_def advance_def set_bet_def)

lemma credit_event_steps:
  assumes live: "ld_live l" and v: "map_of (ld_bets l) (lower nob) = Some v"
    and pays: "op_pays vv op nob l v = Some (cr, v')"
    and nf: "nf = computeNullifier (rx_crypto c) (rx_secret c) (ld_nonce l)"
    and newc: "newc = computeCommitment (rx_crypto c) (rx_secret c) (ld_balance l + cr) (ld_nonce l + 1) (rx_address c)"
  shows "ledger_step c vv l (op_event op nf nob newc) = Some (after_credit op nob cr v' l)"
proof -
  have mine: "mine c nf l" using live nf by (simp add: mine_def own_nullifier_def)
  note [simp] = settle_bet_pays [OF _ _ newc]
  show ?thesis
  proof (cases op)
    case (OpClose full)
    then obtain sale where sale: "first_sale nob (ld_sales l) = Some sale" "vault_close full sale v = Some (cr, v')"
      using pays by (cases "first_sale nob (ld_sales l)") auto
    let ?l = "l\<lparr>ld_sales := shift_sale nob (ld_sales l)\<rparr>"
    have "settle_bet c nob newc (vault_close full sale) ?l =
        Some ((set_bet nob v' ?l)\<lparr>ld_balance := ld_balance l + cr, ld_nonce := ld_nonce l + 1\<rparr>)"
      using settle_bet_pays [of ?l nob v "vault_close full sale" cr v' newc c] v sale newc by simp
    then show ?thesis using sale mine by (simp add: OpClose ledger_step_def after_credit_def)
  qed (use mine v pays in \<open>simp_all add: ledger_step_def after_credit_def\<close>)
qed

lemma tip_not_receipt:
  assumes "tip_in c l ns n" and "receipt_in c l ns r"
  shows "\<not> known_as (nt_commitment n) r"
proof
  assume "known_as (nt_commitment n) r"
  moreover have "r \<in> set ns" using assms(2) by (auto simp: receipt_in_def filter_eq_Cons_iff)
  ultimately have "r \<in> set (filter (known_as (nt_commitment n)) ns)" by simp
  moreover have "filter (known_as (nt_commitment n)) ns = [n]" using assms(1) unfolding tip_in_def by blast
  ultimately have "r = n" by simp
  moreover have "n \<in> set (filter (free_at (rx_address c) (rx_index c)) ns)" using assms(1) by (simp add: tip_in_def)
  ultimately show False using assms(2) by (simp add: receipt_in_def free_at_def)
qed

text \<open>
  The world a flow runs in: the hashes, the secret and the wallet are those of the
  lineage, the note to spend is the vault's, and the receipt is one of its bets.
\<close>

definition flow_at :: "flow_env \<Rightarrow> replay_ctx \<Rightarrow> ledger \<Rightarrow> Note \<Rightarrow> session \<Rightarrow> Note \<Rightarrow> vault_bet \<Rightarrow> bool" where
  "flow_at env c l r s n v \<longleftrightarrow>
     fl_crypto env = rx_crypto c \<and> fl_secret env (rx_index c) (rx_version c) = Some (rx_secret c) \<and>
     rx_address c \<noteq> '''' \<and> ld_live l \<and> tip_in c l (loadAll (sn_browser s)) n \<and>
     receipt_in c l (loadAll (sn_browser s)) r \<and> map_of (ld_bets l) (lower (bet_key r)) = Some v \<and> 0 \<le> vb_fee v"

definition next_commitment :: "replay_ctx \<Rightarrow> ledger \<Rightarrow> int \<Rightarrow> string" where
  "next_commitment c l cr =
     computeCommitment (rx_crypto c) (rx_secret c) (ld_balance l + cr) (ld_nonce l + 1) (rx_address c)"

lemma flow_at_note:
  assumes "flow_at env c l r s n v"
  shows "nt_depositIndex n = rx_index c" "nt_balance n = ld_balance l" "nt_nonce n = ld_nonce l" "version_of n = rx_version c"
    "getFreeNoteForDeposit (rx_address c) (nt_depositIndex r) (sn_browser s) = Some n"
proof -
  have tip: "tip_in c l (loadAll (sn_browser s)) n" using assms by (simp add: flow_at_def)
  then have "n \<in> set (filter (free_at (rx_address c) (rx_index c)) (loadAll (sn_browser s)))" by (simp add: tip_in_def)
  then show "nt_depositIndex n = rx_index c" by (simp add: free_at_def)
  show "nt_balance n = ld_balance l" "nt_nonce n = ld_nonce l" "version_of n = rx_version c"
    using tip by (auto simp: tip_in_def)
  show "getFreeNoteForDeposit (rx_address c) (nt_depositIndex r) (sn_browser s) = Some n"
    using free_note_of_tip [OF tip] assms by (simp add: flow_at_def receipt_in_def)
qed

text \<open>A credited flow left a note that continues the lineage, and no other.\<close>

lemma credited_in_step:
  assumes at: "flow_at env c l r s n v" and cr: "credited env (rx_address c) r n cr s s'"
    and l': "ld_balance l' = ld_balance l + cr" "ld_nonce l' = ld_nonce l + 1" "ld_live l'"
    and fresh: "unknown (next_commitment c l cr) (loadAll (sn_browser s))"
  shows "in_step c l' (sn_browser s')"
proof -
  note n = flow_at_note [OF at]
  have tip: "tip_in c l (loadAll (sn_browser s)) n" using at by (simp add: flow_at_def)
  obtain circ sec rt tx new where o: "open_note env n = Inr (sec, rt)"
    and new: "same_note new (next_note env SETTLE_CREDIT (rx_address c) n sec (nt_balance n + cr) tx)"
    and u: "unknown (nt_commitment new) (loadAll (sn_browser s)) \<Longrightarrow>
           (\<forall>w ix. filter (free_at w ix) (loadAll (sn_browser s')) =
              filter (free_at w ix) (loadAll (markNoteSpent (nt_commitment n) (sn_browser s)) @ [new])) \<and>
           filter (known_as (nt_commitment new)) (loadAll (sn_browser s')) = [new]"
    using cr unfolding credited_def by blast
  have sec: "sec = rx_secret c" "fl_crypto env = rx_crypto c"
    using o at n by (auto simp: open_note_def flow_at_def split: option.splits)
  note f = same_note_fields [OF new]
  have com: "nt_commitment new = next_commitment c l cr" using f sec n by (simp add: next_commitment_def)
  have cont: "continues c l' new"
    using f sec n l' com at
    by (simp add: continues_def free_at_def version_of_def [of new] next_commitment_def flow_at_def sameAddress_def)
  have "tip_in c l' (loadAll (sn_browser s')) new"
    using u [unfolded com, OF fresh] cont tip_spent [OF tip] by (simp add: tip_in_def continues_def com)
  then show ?thesis using l'(3) by (auto simp: in_step_def)
qed

text \<open>The request of a credited flow satisfies its circuit.\<close>

lemma credit_request_ok:
  assumes at: "flow_at env c l r s n v" and o: "open_note env n = Inr (sec, rt)"
  shows "credit_ok (rx_crypto c) (credit_request env circ (rx_address c) n sec rt r cr)"
    and "ci_nullifier (credit_request env circ (rx_address c) n sec rt r cr) =
      computeNullifier (rx_crypto c) (rx_secret c) (ld_nonce l)"
    and "ci_new_commitment (credit_request env circ (rx_address c) n sec rt r cr) = next_commitment c l cr"
proof -
  note n = flow_at_note [OF at]
  have sec: "sec = rx_secret c" "fl_crypto env = rx_crypto c"
    using o at n by (auto simp: open_note_def flow_at_def split: option.splits)
  have tip: "nt_commitment n = computeCommitment (rx_crypto c) (rx_secret c) (ld_balance l) (ld_nonce l) (rx_address c)"
    "nt_nullifier n = computeNullifier (rx_crypto c) (rx_secret c) (ld_nonce l)"
    using at by (auto simp: flow_at_def tip_in_def)
  have r: "bet_key r = computeNullifier (rx_crypto c) (rx_secret c) (nt_nonce r)" "nt_nonce r < ld_nonce l"
    using at by (auto simp: flow_at_def receipt_in_def)
  show "credit_ok (rx_crypto c) (credit_request env circ (rx_address c) n sec rt r cr)"
    using tip r sec n by (simp add: credit_ok_def credit_request_def)
  show "ci_nullifier (credit_request env circ (rx_address c) n sec rt r cr) =
      computeNullifier (rx_crypto c) (rx_secret c) (ld_nonce l)"
    and "ci_new_commitment (credit_request env circ (rx_address c) n sec rt r cr) = next_commitment c l cr"
    using tip sec n by (simp_all add: credit_request_def next_commitment_def)
qed

text \<open>
  C5: the flows that credit a bet keep the notes in step with the vault.  When a settlement,
  the crediting of a close, a partial fill or a reclaim goes through on reads that agree with
  the vault, it sent one request; the request satisfies its circuit and credits exactly
  what the vault pays; the vault takes the event it emits; and the browser then
  holds exactly one free note of the deposit, with the vault's new balance and nonce.
\<close>

theorem credit_flows_in_step:
  assumes at: "flow_at env c l r s n v"
    and reads: "op_reads (fl_reads env) vv op (bet_key r) l v"
    and pays: "op_pays vv op (bet_key r) l v = Some (cr, v')"
    and fresh: "unknown (next_commitment c l cr) (loadAll (sn_browser s))"
    and run: "run_credit op env (rx_address c) r s = (True, s')"
  shows "\<exists>ci. sn_sent s' = sn_sent s @ [R_credit ci] \<and> credit_ok (rx_crypto c) ci \<and> ci_amount ci = cr \<and>
    ledger_step c vv l (op_event op (ci_nullifier ci) (bet_key r) (ci_new_commitment ci)) =
      Some (after_credit op (bet_key r) cr v' l) \<and>
    in_step c (after_credit op (bet_key r) cr v' l) (sn_browser s')"
proof -
  have tip: "tip_in c l (loadAll (sn_browser s)) n" and r: "receipt_in c l (loadAll (sn_browser s)) r"
    and v: "map_of (ld_bets l) (lower (bet_key r)) = Some v" "0 \<le> vb_fee v" and live: "ld_live l"
    using at by (simp_all add: flow_at_def)
  have cr: "op_asks (fl_reads env) op (bet_key r) = cr" by (rule op_asks_pays [OF reads pays v(2)])
  have went: "credited env (rx_address c) r n cr s s'"
    unfolding cr [symmetric]
    by (rule credit_flow_credited [OF run flow_at_note(5) [OF at] reads])
      (use r tip_not_receipt [OF tip r] in \<open>simp_all add: receipt_in_def\<close>)
  then obtain circ sec rt where o: "open_note env n = Inr (sec, rt)"
    and sent: "sn_sent s' = sn_sent s @ [R_credit (credit_request env circ (rx_address c) n sec rt r cr)]"
    unfolding credited_def by blast
  note q = credit_request_ok [OF at o, of circ cr]
  have step: "ledger_step c vv l (op_event op (computeNullifier (rx_crypto c) (rx_secret c) (ld_nonce l)) (bet_key r)
      (next_commitment c l cr)) = Some (after_credit op (bet_key r) cr v' l)"
    by (rule credit_event_steps [OF live v(1) pays]) (simp_all add: next_commitment_def)
  have "in_step c (after_credit op (bet_key r) cr v' l) (sn_browser s')"
    by (rule credited_in_step [OF at went _ _ _ fresh]) (simp_all add: live)
  then show ?thesis using sent q step by (intro exI [of _ "credit_request env circ (rx_address c) n sec rt r cr"])
      (simp add: credit_request_def)
qed

text \<open>A lineage with a partly filled bet, and the world in which it is normalised.\<close>

definition sample_free :: Note where
  "sample_free = plain_note (sample_note 897 1) BET_OUTPUT ''0x9'' 0 897 1 (sample_note 897 1) (sample_null 1) False 0 None (Some 2)"

definition sample_receipt :: Note where
  "sample_receipt = (plain_note ''r'' BET_RECEIPT ''0x9'' 0 100 0 ''r'' (sample_null 0) False 0 None (Some 2))
     \<lparr>nt_nullifier_of_bet := Some (sample_null 0), nt_bet_amount := Some 100, nt_expectedShares := Some 300\<rparr>"

definition sample_vault_bet :: vault_bet where
  "sample_vault_bet = \<lparr>vb_market = ''m'', vb_side = 0, vb_shares = 300, vb_sold = 0, vb_amount = 100, vb_fee = 2, vb_status = BActive\<rparr>"

definition sample_ledger :: ledger where
  "sample_ledger = \<lparr>ld_balance = 897, ld_nonce = 1, ld_live = True, ld_bets = [(sample_null 0, sample_vault_bet)], ld_sales = []\<rparr>"

definition sample_session :: session where
  "sample_session = \<lparr>sn_browser = \<lparr>bw_notes = Some [sample_free, sample_receipt], bw_activity = None,
     bw_hydrated = True, bw_writable = False, bw_db_notes = None, bw_db_activity = None, bw_plain_notes = None,
     bw_plain_activity = None, bw_index = [], bw_hidden = [], bw_healed = []\<rparr>,
     sn_sent = [], sn_closes = [], sn_markers = [], sn_intents = [], sn_deposits = [], sn_withdraws = []\<rparr>"

definition sample_env :: flow_env where
  "sample_env = \<lparr>fl_crypto = sample_crypto, fl_secret = (\<lambda>i v. Some ''0x7''), fl_root = (\<lambda>k. Some ''root''),
     fl_proves = (\<lambda>q. True), fl_relay = (\<lambda>q. Some ''t2''), fl_confirms = (\<lambda>t. True), fl_close = (\<lambda>k. True), fl_intent = (\<lambda>i. True),
     fl_reads = \<lparr>vr_chain = \<lparr>ch_vault = True, ch_isSpent = (\<lambda>n. Some False), ch_betStatus = (\<lambda>n. Some 0)\<rparr>,
       vr_record = (\<lambda>n. Some \<lparr>br_status = 0, br_expectedShares = 300, br_betAmount = 100, br_soldShares = 0, br_sellProceeds = 0\<rparr>),
       vr_att = (\<lambda>n t. Some \<lparr>sa_type = 3, sa_amountA = 200, sa_amountB = 80\<rparr>), vr_fee = (\<lambda>n. Some 2),
       vr_payout = (\<lambda>m s. None), vr_resolvedAt = (\<lambda>m. None)\<rparr>,
     fl_now = 7\<rparr>"

lemma sample_null_not_r: "lower (sample_null n) = sample_null n" "sample_note b n \<noteq> ''r''"
  by (simp_all add: lower_sample_null) (simp add: sample_note_def computeCommitment_def toHex_def)

lemma sample_note_next: "sample_note 897 1 \<noteq> sample_note 917 2"
  by (simp add: sample_note_def computeCommitment_def sample_crypto_def toHex_inject)

lemma sample_flow_at: "flow_at sample_env sample_ctx sample_ledger sample_receipt sample_session sample_free sample_vault_bet"
proof -
  have *: "rx_address sample_ctx = ''0x9''" "rx_index sample_ctx = 0" "rx_version sample_ctx = 2"
    "rx_crypto sample_ctx = sample_crypto" "rx_secret sample_ctx = ''0x7''" by (simp_all add: sample_ctx_def)
  have tip: "tip_in sample_ctx sample_ledger (loadAll (sn_browser sample_session)) sample_free"
    unfolding tip_in_def * using sample_null_not_r(2) [of 897 1]
    by (simp add: sample_session_def loadAll_def sample_free_def sample_receipt_def plain_note_def free_at_def known_as_def
        sameAddress_def sample_ledger_def version_of_def flip: sample_note_def sample_null_def)
  have r: "receipt_in sample_ctx sample_ledger (loadAll (sn_browser sample_session)) sample_receipt"
    unfolding receipt_in_def * using sample_null_not_r(2) [of 897 1]
    by (simp add: sample_session_def loadAll_def sample_free_def sample_receipt_def plain_note_def known_as_def
        sample_ledger_def bet_key_def flip: sample_note_def sample_null_def)
  show ?thesis unfolding flow_at_def * using tip r
    by (simp add: sample_env_def sample_ledger_def sample_receipt_def bet_key_def lower_sample_null sample_vault_bet_def)
qed

theorem credit_flows_in_step_witness:
  "in_step sample_ctx (after_credit OpPartial (sample_null 0) 20
      (sample_vault_bet\<lparr>vb_shares := 200, vb_amount := 80, vb_fee := 0, vb_status := BFilled\<rparr>) sample_ledger)
     (sn_browser (snd (run_credit OpPartial sample_env ''0x9'' sample_receipt sample_session)))"
proof -
  let ?v = "sample_vault_bet\<lparr>vb_shares := 200, vb_amount := 80, vb_fee := 0, vb_status := BFilled\<rparr>"
  let ?s = "snd (run_credit OpPartial sample_env ''0x9'' sample_receipt sample_session)"
  have key: "bet_key sample_receipt = sample_null 0" by (simp add: sample_receipt_def bet_key_def)
  have addr: "rx_address sample_ctx = ''0x9''" by (simp add: sample_ctx_def)
  have reads: "op_reads (fl_reads sample_env) sample_view OpPartial (bet_key sample_receipt) sample_ledger sample_vault_bet"
    by (simp add: sample_env_def sample_view_def sample_vault_bet_def)
  have pays: "op_pays sample_view OpPartial (bet_key sample_receipt) sample_ledger sample_vault_bet = Some (20, ?v)"
    by (simp add: sample_view_def sample_vault_bet_def vault_partial_def)
  have nextc: "next_commitment sample_ctx sample_ledger 20 = sample_note 917 2"
    by (simp add: next_commitment_def sample_commitment sample_ledger_def)
  have fresh: "unknown (next_commitment sample_ctx sample_ledger 20) (loadAll (sn_browser sample_session))"
    using sample_note_next sample_null_not_r(2) [of 917 2] unfolding nextc
    by (auto simp: sample_session_def loadAll_def sample_free_def sample_receipt_def plain_note_def known_as_def)
  have "getFreeNoteForDeposit ''0x9'' 0 (sn_browser sample_session) = Some sample_free"
    using flow_at_note(5) [OF sample_flow_at] by (simp add: addr sample_receipt_def plain_note_def)
  then have "fst (run_credit OpPartial sample_env ''0x9'' sample_receipt sample_session)"
    by (simp add: finalizePartialFill_def sample_env_def report_defs status_defs sample_receipt_def plain_note_def
        open_note_def prove_and_relay_def relay_and_wait_def Let_def)
  then have run: "run_credit OpPartial sample_env (rx_address sample_ctx) sample_receipt sample_session = (True, ?s)"
    by (simp add: addr prod_eq_iff del: run_credit.simps)
  show ?thesis
    using credit_flows_in_step [OF sample_flow_at reads pays fresh run] by (auto simp: key simp del: run_credit.simps)
qed

text \<open>What a credit needs beside the vault's agreement: a report of its kind, and a bet that was not normalised yet.\<close>

fun op_reported :: "vault_reads \<Rightarrow> credit_op \<Rightarrow> string \<Rightarrow> bool" where
  "op_reported vr (OpClose full) nob \<longleftrightarrow> (case vr_att vr nob (Some REPORT_SOLD) of Some a \<Rightarrow> sa_type a = REPORT_SOLD | None \<Rightarrow> False)"
| "op_reported vr OpPartial nob \<longleftrightarrow>
     (case vr_att vr nob None of Some a \<Rightarrow> sa_type a = REPORT_PARTIAL | None \<Rightarrow> False) \<and>
     (case vr_record vr nob of Some rec \<Rightarrow> br_status rec = ST_ACTIVE | None \<Rightarrow> False)"
| "op_reported vr op nob \<longleftrightarrow> True"

lemma reported_credit_goes_through:
  assumes at: "flow_at env c l r s n v"
    and reads: "op_reads (fl_reads env) vv op (bet_key r) l v"
    and reported: "op_reported (fl_reads env) op (bet_key r)"
    and path: "fl_root env (nt_commitment n) = Some rt"
    and works: "\<And>q. fl_proves env q \<and> fl_relay env q = Some tx \<and> fl_confirms env tx"
  shows "\<exists>s'. run_credit op env (rx_address c) r s = (True, s')"
proof -
  note n = flow_at_note [OF at]
  have o: "open_note env n = Inr (rx_secret c, rt)" using at n path by (simp add: open_note_def flow_at_def)
  have p: "\<exists>s1. prove_and_relay env q s = (Inr tx, s1)" for q
    using works by (simp add: prove_and_relay_def relay_and_wait_def Let_def)
  show ?thesis
  proof (cases op)
    case (OpSettle claim)
    then show ?thesis using reads n o p [of "R_credit (credit_request env C_settlement (rx_address c) n (rx_secret c) rt r claim)"]
      by (auto simp: settlePosition_def Let_def)
  next
    case (OpClose full)
    then obtain a where a: "vr_att (fl_reads env) (bet_key r) (Some REPORT_SOLD) = Some a" "sa_type a = REPORT_SOLD"
      using reported by (auto split: option.splits)
    with OpClose show ?thesis
      using reads n o p [of "R_credit (credit_request env C_position_close (rx_address c) n (rx_secret c) rt r (sa_amountB a))"]
      by (auto simp: finalizeClose_def Let_def)
  next
    case OpPartial
    then obtain a rec where a: "vr_att (fl_reads env) (bet_key r) None = Some a" "sa_type a = REPORT_PARTIAL"
      and rec: "vr_record (fl_reads env) (bet_key r) = Some rec" "br_status rec = ST_ACTIVE"
      using reported by (auto split: option.splits)
    with OpPartial show ?thesis
      using reads n o p [of "R_credit (credit_request env C_partial_credit (rx_address c) n (rx_secret c) rt r
          (partial_fill_refund (br_betAmount rec) (sa_amountB a) (vb_fee v)))"]
      by (auto simp: finalizePartialFill_def Let_def)
  next
    case OpReclaim
    then obtain rec where rec: "vr_record (fl_reads env) (bet_key r) = Some rec" "0 < br_betAmount rec"
      using reads by auto
    with OpReclaim show ?thesis
      using reads n o p [of "R_credit (credit_request env C_bet_cancel (rx_address c) n (rx_secret c) rt r
          (br_betAmount rec + vb_fee v))"]
      by (auto simp: creditFailedReclaim_def Let_def)
  qed
qed

text \<open>Without the report the flow ends at its check, with the browser and the relay untouched.\<close>

lemma unreported_credit_ends:
  assumes reads: "op_reads (fl_reads env) vv op (bet_key r) l v" and "\<not> op_reported (fl_reads env) op (bet_key r)"
  shows "run_credit op env w r s = (False, s)"
proof (cases op)
  case (OpClose full)
  then show ?thesis using assms by (auto simp: finalizeClose_def Let_def)
next
  case OpPartial
  then show ?thesis using assms by (auto simp: finalizePartialFill_def Let_def)
qed (use assms in auto)

text \<open>
  C32: A credit goes through exactly when the operator's report for it is there.  With a prover
  that proves, a relay whose transactions confirm, a path for the note, and reads
  that agree with the vault: a settlement and a reclaim always go through; a close goes
  through if and only if the sale's report has the type SOLD; a partial fill if and only if the bet's report has
  the type PARTIAL and its record is still ACTIVE, so a second run on a bet that was normalised already credits nothing.  A flow that does not go through
  sends nothing and leaves the browser as it was.
\<close>

theorem credit_flows_go_through:
  assumes at: "flow_at env c l r s n v"
    and reads: "op_reads (fl_reads env) vv op (bet_key r) l v"
    and path: "fl_root env (nt_commitment n) = Some rt"
    and works: "\<And>q. fl_proves env q \<and> fl_relay env q = Some tx \<and> fl_confirms env tx"
  shows "fst (run_credit op env (rx_address c) r s) =
      (case op of
         OpSettle claim \<Rightarrow> True
       | OpReclaim \<Rightarrow> True
       | OpClose full \<Rightarrow> \<exists>a. vr_att (fl_reads env) (bet_key r) (Some REPORT_SOLD) = Some a \<and> sa_type a = REPORT_SOLD
       | OpPartial \<Rightarrow> (\<exists>a. vr_att (fl_reads env) (bet_key r) None = Some a \<and> sa_type a = REPORT_PARTIAL) \<and>
           (\<exists>rec. vr_record (fl_reads env) (bet_key r) = Some rec \<and> br_status rec = ST_ACTIVE)) \<and>
    (fst (run_credit op env (rx_address c) r s) \<or> snd (run_credit op env (rx_address c) r s) = s)"
proof -
  let ?run = "run_credit op env (rx_address c) r s"
  have through: "\<exists>s'. ?run = (True, s')" if "op_reported (fl_reads env) op (bet_key r)"
    by (rule reported_credit_goes_through [OF at reads that path works])
  have ends: "?run = (False, s)" if "\<not> op_reported (fl_reads env) op (bet_key r)"
    by (rule unreported_credit_ends [OF reads that])
  have "fst ?run = op_reported (fl_reads env) op (bet_key r)" "fst ?run \<or> snd ?run = s"
    using through ends by (cases "op_reported (fl_reads env) op (bet_key r)"; force)+
  moreover have "op_reported (fl_reads env) op (bet_key r) =
      (case op of
         OpSettle claim \<Rightarrow> True
       | OpReclaim \<Rightarrow> True
       | OpClose full \<Rightarrow> \<exists>a. vr_att (fl_reads env) (bet_key r) (Some REPORT_SOLD) = Some a \<and> sa_type a = REPORT_SOLD
       | OpPartial \<Rightarrow> (\<exists>a. vr_att (fl_reads env) (bet_key r) None = Some a \<and> sa_type a = REPORT_PARTIAL) \<and>
           (\<exists>rec. vr_record (fl_reads env) (bet_key r) = Some rec \<and> br_status rec = ST_ACTIVE))"
    by (cases op) (auto split: option.splits)
  ultimately show ?thesis by (simp only: simp_thms)
qed

text \<open>The sample's partial fill goes through.\<close>

theorem credit_flows_go_through_witness:
  "fst (run_credit OpPartial sample_env ''0x9'' sample_receipt sample_session)"
proof -
  have "fst (run_credit OpPartial sample_env (rx_address sample_ctx) sample_receipt sample_session)"
    using credit_flows_go_through [OF sample_flow_at, of sample_view OpPartial "''root''" "''t2''"]
    by (simp add: sample_env_def sample_view_def sample_vault_bet_def report_defs status_defs del: run_credit.simps)
  then show ?thesis by (simp add: sample_ctx_def del: run_credit.simps)
qed

end
