(* ===== verification/Liquidation_Props.thy ===== *)
theory Liquidation_Props
  imports Note_Flows_Props
begin

section \<open>Failures, and what a run may withdraw\<close>

text \<open>
  A flow that fails leaves the notes alone, and the run that closes everything
  spends the notes of deposits without open positions only.
\<close>

subsection \<open>Failures\<close>

lemma relay_failed: "prove_and_relay env q s = (Inl e, s1) \<Longrightarrow> sn_browser s1 = sn_browser s"
  by (rule prove_and_relay_browser)

lemmas flow_splits = prod.splits sum.splits option.splits if_splits

text \<open>
  A flow that fails changes no note.  Whatever the failure (a read, the signature,
  the path, the proof, the relay, the wait for the transaction), after a settlement, a
  close, a partial fill, a reclaim, a merge or a withdrawal that did not go through, and
  after one that reports the position as still open, the browser is what it was.
\<close>

lemma failing_flow_keeps_notes:
  assumes "(\<exists>e. settlePosition env wallet r claim s = (Inl e, s')) \<or> (\<exists>w. settlePosition env wallet r claim s = (Inr (FOpen w), s')) \<or>
    (\<exists>e. finalizeClose env wallet r s = (Inl e, s')) \<or> (\<exists>w. finalizeClose env wallet r s = (Inr (FOpen w), s')) \<or>
    (\<exists>e. finalizePartialFill env wallet r s = (Inl e, s')) \<or> finalizePartialFill env wallet r s = (Inr False, s') \<or>
    (\<exists>e. creditFailedReclaim env wallet r s = (Inl e, s')) \<or> (\<exists>w. creditFailedReclaim env wallet r s = (Inr (FOpen w), s')) \<or>
    (\<exists>e. consolidateNotes env wallet ns s = (Inl e, s')) \<or> withdrawOneNote env wallet r claim s = (False, s')"
  shows "sn_browser s' = sn_browser s"
proof -
  have a: "sn_browser s' = sn_browser s"
    if "settlePosition env wallet r claim s = (Inl e, s') \<or> settlePosition env wallet r claim s = (Inr (FOpen w), s')" for e w
    using that relay_failed by (fastforce simp: settlePosition_def Let_def split: flow_splits)
  have b: "sn_browser s' = sn_browser s"
    if "finalizeClose env wallet r s = (Inl e, s') \<or> finalizeClose env wallet r s = (Inr (FOpen w), s')" for e w
    using that relay_failed by (fastforce simp: finalizeClose_def Let_def split: flow_splits)
  have c: "sn_browser s' = sn_browser s"
    if "finalizePartialFill env wallet r s = (Inl e, s') \<or> finalizePartialFill env wallet r s = (Inr False, s')" for e
    using that relay_failed by (fastforce simp: finalizePartialFill_def Let_def split: flow_splits)
  have d: "sn_browser s' = sn_browser s"
    if "creditFailedReclaim env wallet r s = (Inl e, s') \<or> creditFailedReclaim env wallet r s = (Inr (FOpen w), s')" for e w
    using that relay_failed by (fastforce simp: creditFailedReclaim_def Let_def split: flow_splits)
  have e: "sn_browser s' = sn_browser s" if "consolidateNotes env wallet ns s = (Inl e, s')" for e
    using that relay_failed by (fastforce simp: consolidateNotes_def Let_def split: flow_splits)
  have f: "sn_browser s' = sn_browser s" if "withdrawOneNote env wallet r claim s = (False, s')"
    using that relay_failed by (fastforce simp: withdrawOneNote_def Let_def split: flow_splits)
  show ?thesis using assms a b c d e f by blast
qed

lemma failing_flow_keeps_notes_witness:
  "sn_browser (snd (settlePosition (sample_env\<lparr>fl_confirms := (\<lambda>t. False)\<rparr>) ''0x9'' sample_receipt 20 sample_session)) =
     sn_browser sample_session \<and>
   length (sn_sent (snd (settlePosition (sample_env\<lparr>fl_confirms := (\<lambda>t. False)\<rparr>) ''0x9'' sample_receipt 20 sample_session))) = 1"
proof -
  let ?env = "sample_env\<lparr>fl_confirms := (\<lambda>t. False)\<rparr>"
  have free: "getFreeNoteForDeposit ''0x9'' 0 (sn_browser sample_session) = Some sample_free"
    using flow_at_note(5) [OF sample_flow_at] by (simp add: sample_ctx_def sample_receipt_def plain_note_def)
  have run: "fst (settlePosition ?env ''0x9'' sample_receipt 20 sample_session) = Inl ''not confirmed''"
    "length (sn_sent (snd (settlePosition ?env ''0x9'' sample_receipt 20 sample_session))) = 1"
    using free by (simp_all add: settlePosition_def sample_env_def status_defs sample_receipt_def plain_note_def sample_session_def
        open_note_def prove_and_relay_def relay_and_wait_def Let_def)
  have "settlePosition ?env ''0x9'' sample_receipt 20 sample_session =
      (Inl ''not confirmed'', snd (settlePosition ?env ''0x9'' sample_receipt 20 sample_session))"
    using run(1) by (simp add: prod_eq_iff)
  then show ?thesis using failing_flow_keeps_notes [of ?env "''0x9''" sample_receipt 20 sample_session] run(2) by blast
qed

subsection \<open>Withdrawals\<close>

lemma clear_by_balance:
  "filter (\<lambda>n. nt_depositIndex n \<notin> D) (by_balance ns) = by_balance (filter (\<lambda>n. nt_depositIndex n \<notin> D) ns)"
  by (simp add: by_balance_def filter_sort)

text \<open>What a merge of the run selects: clear notes, since their four largest cover its target.\<close>

lemma run_selects_clear:
  assumes "selectNotesForAmount wallet (total_balance (take MAX_CONSOLIDATE_INPUTS (by_balance (clear_notes wallet b))))
      (Some (open_deposits wallet b)) pref b = Inr (ns, tot)"
  shows "mset ns \<subseteq># mset (clear_notes wallet b)"
proof -
  let ?D = "open_deposits wallet b" and ?all = "by_balance (getFreeNotes wallet b)"
  let ?amt = "total_balance (take MAX_CONSOLIDATE_INPUTS (by_balance (clear_notes wallet b)))"
  have clear: "filter (\<lambda>n. nt_depositIndex n \<notin> set ?D) ?all = by_balance (clear_notes wallet b)"
    by (simp add: clear_by_balance clear_notes_def)
  have pool: "(if ?D \<noteq> [] then selection_pool ?D ?amt ?all else ?all) = by_balance (clear_notes wallet b)"
    using clear by (auto simp: selection_pool_def Let_def clear_notes_def split: list.splits)
  obtain j where j: "foldl (tryAdd ?amt) ([], 0) (by_balance (clear_notes wallet b)) =
      (take j (by_balance (clear_notes wallet b)), total_balance (take j (by_balance (clear_notes wallet b))))"
    using tryAdd_fold [of 0 "[]" ?amt "by_balance (clear_notes wallet b)"] by auto
  have "\<exists>sl. ns = (case sl of Some ix \<Rightarrow> to_front ix (take j (by_balance (clear_notes wallet b)))
      | None \<Rightarrow> take j (by_balance (clear_notes wallet b)))"
    using assms unfolding selectNotesForAmount_def Let_def option.case pool j prod.case by (auto split: if_splits)
  then have "mset ns = mset (take j (by_balance (clear_notes wallet b)))"
    by (auto simp: to_front_mset split: option.splits)
  also have "\<dots> \<subseteq># mset (by_balance (clear_notes wallet b))" by (metis append_take_drop_id mset_append mset_subset_eq_add_left)
  finally show ?thesis by simp
qed

lemma withdrawal_spares_cases:
  assumes clear: "clear_notes wallet (sn_browser s) \<noteq> []"
    and run: "note_to_withdraw env wallet s = (note, s1)"
  shows "nt_depositIndex note \<notin> set (open_deposits wallet (sn_browser s)) \<and>
    (sn_sent s1 = sn_sent s \<or>
     (\<exists>ns opened. sn_sent s1 = sn_sent s @ [R_consolidate (consolidate_request env wallet ns opened)] \<and>
        mset ns \<subseteq># mset (clear_notes wallet (sn_browser s)) \<and> length ns \<le> MAX_CONSOLIDATE_INPUTS))"
proof -
  let ?clear = "clear_notes wallet (sn_browser s)" and ?D = "open_deposits wallet (sn_browser s)"
  have in_clear: "nt_depositIndex n \<notin> set ?D" if "n \<in> set ?clear" for n using that by (simp add: clear_notes_def)
  have "by_balance ?clear \<noteq> []" using clear by simp
  then have "hd (by_balance ?clear) \<in> set ?clear" using list.set_sel(1) [of "by_balance ?clear"] by simp
  then have largest: "nt_depositIndex (hd (by_balance ?clear)) \<notin> set ?D" by (rule in_clear)
  show ?thesis
  proof (cases "\<exists>ns tot. selectNotesForAmount wallet (total_balance (take MAX_CONSOLIDATE_INPUTS (by_balance ?clear)))
      (Some ?D) (Some (nt_depositIndex (hd (by_balance ?clear)))) (sn_browser s) = Inr (ns, tot) \<and>
      total_balance (take MAX_CONSOLIDATE_INPUTS (by_balance ?clear)) > nt_balance (hd (by_balance ?clear))")
    case False
    then have "note = hd (by_balance ?clear) \<and> s1 = s"
      using run by (auto simp: note_to_withdraw_def Let_def split: flow_splits)
    then show ?thesis using largest by simp
  next
    case True
    then obtain ns tot where sel: "selectNotesForAmount wallet (total_balance (take MAX_CONSOLIDATE_INPUTS (by_balance ?clear)))
      (Some ?D) (Some (nt_depositIndex (hd (by_balance ?clear)))) (sn_browser s) = Inr (ns, tot)"
      and more: "total_balance (take MAX_CONSOLIDATE_INPUTS (by_balance ?clear)) > nt_balance (hd (by_balance ?clear))" by blast
    have sub: "mset ns \<subseteq># mset ?clear" by (rule run_selects_clear [OF sel])
    show ?thesis
    proof (cases "consolidateNotes env wallet ns s")
      case (Pair out s2)
      have s1: "s1 = s2" "note = (case out of Inl e \<Rightarrow> hd (by_balance ?clear) | Inr merged \<Rightarrow> merged)"
        using run sel more Pair by (auto simp: note_to_withdraw_def Let_def split: sum.splits)
      have sent: "sn_sent s2 = sn_sent s \<or>
          (\<exists>opened. sn_sent s2 = sn_sent s @ [R_consolidate (consolidate_request env wallet ns opened)] \<and>
             length ns \<le> MAX_CONSOLIDATE_INPUTS)"
        using Pair by (auto simp: consolidateNotes_def prove_and_relay_def relay_and_wait_def Let_def split: flow_splits)
      have fine: "nt_depositIndex note \<notin> set ?D"
      proof (cases out)
        case (Inr merged)
        then have "nt_depositIndex merged = nt_depositIndex (hd ns)" "ns \<noteq> []"
          using Pair by (auto simp: consolidateNotes_def Let_def split: flow_splits)
        moreover have "hd ns \<in> set ?clear" using sub \<open>ns \<noteq> []\<close> by (meson list.set_sel(1) mset_subset_eqD set_mset_mset in_multiset_in_set)
        ultimately show ?thesis using s1 Inr in_clear by simp
      qed (use s1 largest in simp)
      show ?thesis using fine sent sub s1(1) by blast
    qed
  qed
qed

lemma clear_notes_spec:
  "clear_notes wallet b = filter (\<lambda>n. is_free wallet n \<and> \<not> open_position wallet b (nt_depositIndex n)) (loadAll b)"
  using open_deposits_spec [of wallet b]
  by (simp add: clear_notes_def open_deposits_def openBetDeposits_def free_notes_spec)

text \<open>
  C10: a withdrawal of the run never touches a deposit with an open position, an unspent receipt that is not hidden, whose
  payout could then not be credited.  The note an iteration spends is of a clear
  deposit, and the only request it may send before is a merge of clear notes, each
  once.
\<close>

theorem withdrawal_spares_open:
  assumes clear: "\<exists>n \<in> set (loadAll (sn_browser s)). is_free wallet n \<and> \<not> open_position wallet (sn_browser s) (nt_depositIndex n)"
    and run: "note_to_withdraw env wallet s = (note, s1)"
  shows "\<not> open_position wallet (sn_browser s) (nt_depositIndex note) \<and>
    (sn_sent s1 = sn_sent s \<or>
     (\<exists>ns opened. sn_sent s1 = sn_sent s @ [R_consolidate (consolidate_request env wallet ns opened)] \<and> length ns \<le> 4 \<and>
        mset ns \<subseteq># mset (filter (\<lambda>n. is_free wallet n \<and> \<not> open_position wallet (sn_browser s) (nt_depositIndex n))
          (loadAll (sn_browser s)))))"
proof -
  have "clear_notes wallet (sn_browser s) \<noteq> []" using clear by (auto simp: clear_notes_spec filter_empty_conv)
  moreover have "set (open_deposits wallet (sn_browser s)) = {ix. open_position wallet (sn_browser s) ix}"
    using open_deposits_spec [of wallet "sn_browser s"] by (simp add: open_deposits_def openBetDeposits_def)
  ultimately show ?thesis
    using withdrawal_spares_cases [OF _ run] unfolding clear_notes_spec MAX_CONSOLIDATE_INPUTS_def by auto
qed

theorem withdrawal_spares_open_witness:
  "nt_depositIndex (fst (note_to_withdraw sample_env ''0xA'' (sample_session\<lparr>sn_browser := demo_browser\<rparr>))) \<noteq> 1"
proof -
  let ?s = "sample_session\<lparr>sn_browser := demo_browser\<rparr>"
  obtain nt s1 where run: "note_to_withdraw sample_env ''0xA'' ?s = (nt, s1)" by fastforce
  have opn: "open_deposits ''0xA'' demo_browser = [1]"
    using demo_open by (simp add: open_deposits_def openBetDeposits_def)
  have "clear_notes ''0xA'' (sn_browser ?s) = [demo_note ''0x1'' 0 3]"
    by (simp add: clear_notes_def opn demo_free demo_note_def plain_note_def)
  then have "demo_note ''0x1'' 0 3 \<in> set (clear_notes ''0xA'' (sn_browser ?s))" by (simp only: list.set_intros)
  then have "\<exists>n \<in> set (loadAll (sn_browser ?s)). is_free ''0xA'' n \<and> \<not> open_position ''0xA'' (sn_browser ?s) (nt_depositIndex n)"
    unfolding clear_notes_spec by (simp only: set_filter mem_Collect_eq) blast
  from conjunct1 [OF withdrawal_spares_open [OF this run]] have "\<not> open_position ''0xA'' demo_browser (nt_depositIndex nt)" by simp
  moreover have "open_position ''0xA'' demo_browser 1" using open_deposits_spec [of "''0xA''" demo_browser] by (auto simp: demo_open)
  ultimately show ?thesis using run by auto
qed

end
