(* ===== verification/Account_State_Props.thy ===== *)
theory Account_State_Props
  imports Note_Flows
begin

section \<open>What the portfolio's figures mean\<close>

text \<open>
  When a position is offered for settlement, and what the profit and the recoverable
  capital that the portfolio shows amount to.
\<close>

subsection \<open>Settlement\<close>

text \<open>The position is open on the chain and was filled.\<close>

definition filled_open :: "vault_reads \<Rightarrow> string \<Rightarrow> BetRecordView \<Rightarrow> bool" where
  "filled_open vr nob rec \<longleftrightarrow>
     vr_record vr nob = Some rec \<and> (br_status rec = ST_FILLED \<or> br_status rec = ST_PARTIAL_FILLED \<or> br_status rec = ST_ACTIVE) \<and>
     br_soldShares rec < br_expectedShares rec \<and>
     (br_status rec = ST_FILLED \<or> (\<exists>a. vr_att vr nob None = Some a \<and> sa_type a = REPORT_FILLED))"

lemma betDidFill_record:
  "betDidFill vr nob \<Longrightarrow> vr_record vr nob = Some rec \<Longrightarrow>
     br_status rec = ST_FILLED \<or> (\<exists>a. vr_att vr nob None = Some a \<and> sa_type a = REPORT_FILLED)"
  by (auto simp: betDidFill_def fetchBetStatus_def split: option.splits)

lemma resolved_iff:
  "(case vr_resolvedAt vr key of None \<Rightarrow> S_pending | Some t \<Rightarrow> if t > 0 then x else S_pending) = y \<Longrightarrow> y \<noteq> S_pending \<Longrightarrow>
     y = x \<and> (\<exists>t. vr_resolvedAt vr key = Some t \<and> 0 < t)"
  by (auto split: option.splits if_splits)

lemma settlement_cases:
  assumes "checkSettlementStatus cx vr receipt = Inr st" and "st \<noteq> S_pending"
  obtains (unfilled) key t where "receiptCircuitKey cx receipt = Inr (Some key)" "\<not> betDidFill vr (bet_key receipt)"
      "vr_resolvedAt vr key = Some t" "0 < t" "st = S_unfilled_resolved"
    | (ready) key rec p where "receiptCircuitKey cx receipt = Inr (Some key)" "filled_open vr (bet_key receipt) rec"
      "vr_payout vr key (if nt_side receipt = Some NO then 1 else 0) = Some p" "0 < p"
      "st = S_ready p ((br_expectedShares rec - br_soldShares rec) * p)"
    | (lost) key rec p t where "receiptCircuitKey cx receipt = Inr (Some key)" "filled_open vr (bet_key receipt) rec"
      "vr_payout vr key (if nt_side receipt = Some NO then 1 else 0) = Some p" "p \<le> 0"
      "vr_resolvedAt vr key = Some t" "0 < t" "st = S_lost"
proof -
  obtain key where key: "receiptCircuitKey cx receipt = Inr (Some key)"
    using assms by (auto simp: checkSettlementStatus_def bind_sum_def split: if_splits sum.splits option.splits)
  show thesis
  proof (cases "betDidFill vr (bet_key receipt)")
    case False
    then show thesis using assms key
      by (auto simp: checkSettlementStatus_def Let_def split: if_splits option.splits intro: unfilled)
  next
    case True
    then obtain rec where rec: "vr_record vr (bet_key receipt) = Some rec"
      by (auto simp: betDidFill_def fetchBetStatus_def split: option.splits)
    have s: "settleable (br_status rec)" "remaining_shares rec = br_expectedShares rec - br_soldShares rec"
      "br_soldShares rec < br_expectedShares rec"
      using assms key True rec
      by (auto simp: checkSettlementStatus_def Let_def remaining_shares_def split: if_splits option.splits)
    then have fo: "filled_open vr (bet_key receipt) rec"
      using rec betDidFill_record [OF True rec] by (auto simp: filled_open_def settleable_def)
    show thesis using assms key True rec s
      by (auto simp: checkSettlementStatus_def Let_def split: if_splits option.splits intro: ready [OF key fo] lost [OF key fo])
  qed
qed

text \<open>What the portfolio can see of a fill: the record, or the report beside it.\<close>

definition seen_filled :: "vault_reads \<Rightarrow> string \<Rightarrow> bool" where
  "seen_filled vr nob \<longleftrightarrow> (\<exists>rec. vr_record vr nob = Some rec \<and>
     (br_status rec = ST_FILLED \<or> (\<exists>a. vr_att vr nob None = Some a \<and> sa_type a = REPORT_FILLED)))"

lemma betDidFill_seen: "betDidFill vr nob \<longleftrightarrow> seen_filled vr nob"
  by (auto simp: betDidFill_def fetchBetStatus_def seen_filled_def split: option.splits)

lemma filled_open_ready:
  assumes "nt_expectedShares receipt = Some m" "m \<noteq> 0" "receiptCircuitKey cx receipt = Inr (Some key)"
    and fo: "filled_open vr (bet_key receipt) rec"
    and "vr_payout vr key (if nt_side receipt = Some NO then 1 else 0) = Some p" "0 < p"
  shows "checkSettlementStatus cx vr receipt = Inr (S_ready p ((br_expectedShares rec - br_soldShares rec) * p))"
proof -
  have "betDidFill vr (bet_key receipt)" using fo by (auto simp: betDidFill_seen seen_filled_def filled_open_def)
  moreover have "vr_record vr (bet_key receipt) = Some rec" "settleable (br_status rec)" "\<not> remaining_shares rec \<le> 0"
    "remaining_shares rec = br_expectedShares rec - br_soldShares rec"
    using fo by (auto simp: filled_open_def settleable_def remaining_shares_def)
  ultimately show ?thesis using assms(1-3,5,6) by (simp add: checkSettlementStatus_def Let_def)
qed

lemma unseen_reclaimed:
  assumes "nt_expectedShares receipt = Some m" "m \<noteq> 0" "receiptCircuitKey cx receipt = Inr (Some key)"
    and "\<not> seen_filled vr (bet_key receipt)" and "vr_resolvedAt vr key = Some t" "0 < t"
  shows "checkSettlementStatus cx vr receipt = Inr S_unfilled_resolved"
  using assms by (simp add: checkSettlementStatus_def betDidFill_seen Let_def)

text \<open>
  C31: Only filled positions settle, and for exactly what they hold.  A receipt is ready only when the
  vault's record is open with unsold shares, the bet was filled, and the market pays, and
  the claim is the unsold shares times the payout; every such receipt is ready.  It is lost only when such a position's
  market is resolved and pays nothing.  So no failed read makes a receipt ready or lost.  It is offered for reclaim only
  once the market is resolved and the bet is not seen to be filled; a record or a
  report that cannot be read counts as a bet that was not filled, so a filled bet of a resolved market is
  offered for reclaim whenever the read of its record fails, or that of its report where its fill is in the report only.
\<close>

theorem settlement_status_sound:
  assumes "checkSettlementStatus cx vr receipt = Inr st"
  shows "(case st of
      S_ready p claim \<Rightarrow> \<exists>key rec. receiptCircuitKey cx receipt = Inr (Some key) \<and> filled_open vr (bet_key receipt) rec \<and>
        vr_payout vr key (if nt_side receipt = Some NO then 1 else 0) = Some p \<and>
        claim = (br_expectedShares rec - br_soldShares rec) * p \<and> 0 < claim
    | S_lost \<Rightarrow> \<exists>key rec p t. receiptCircuitKey cx receipt = Inr (Some key) \<and> filled_open vr (bet_key receipt) rec \<and>
        vr_payout vr key (if nt_side receipt = Some NO then 1 else 0) = Some p \<and> p \<le> 0 \<and> vr_resolvedAt vr key = Some t \<and> 0 < t
    | S_unfilled_resolved \<Rightarrow> \<exists>key t. receiptCircuitKey cx receipt = Inr (Some key) \<and> \<not> seen_filled vr (bet_key receipt) \<and>
        vr_resolvedAt vr key = Some t \<and> 0 < t
    | S_pending \<Rightarrow> True) \<and>
    (\<forall>m key. nt_expectedShares receipt = Some m \<longrightarrow> m \<noteq> 0 \<longrightarrow> receiptCircuitKey cx receipt = Inr (Some key) \<longrightarrow>
      (\<forall>rec p. filled_open vr (bet_key receipt) rec \<longrightarrow>
         vr_payout vr key (if nt_side receipt = Some NO then 1 else 0) = Some p \<longrightarrow> 0 < p \<longrightarrow>
         st = S_ready p ((br_expectedShares rec - br_soldShares rec) * p)) \<and>
      (\<forall>t. vr_resolvedAt vr key = Some t \<longrightarrow> 0 < t \<longrightarrow>
         vr_record vr (bet_key receipt) = None \<or>
           (\<exists>rec. vr_record vr (bet_key receipt) = Some rec \<and> br_status rec \<noteq> ST_FILLED) \<and> vr_att vr (bet_key receipt) None = None \<longrightarrow>
         st = S_unfilled_resolved))"
proof (intro conjI allI impI)
  show "case st of
      S_ready p claim \<Rightarrow> \<exists>key rec. receiptCircuitKey cx receipt = Inr (Some key) \<and> filled_open vr (bet_key receipt) rec \<and>
        vr_payout vr key (if nt_side receipt = Some NO then 1 else 0) = Some p \<and>
        claim = (br_expectedShares rec - br_soldShares rec) * p \<and> 0 < claim
    | S_lost \<Rightarrow> \<exists>key rec p t. receiptCircuitKey cx receipt = Inr (Some key) \<and> filled_open vr (bet_key receipt) rec \<and>
        vr_payout vr key (if nt_side receipt = Some NO then 1 else 0) = Some p \<and> p \<le> 0 \<and> vr_resolvedAt vr key = Some t \<and> 0 < t
    | S_unfilled_resolved \<Rightarrow> \<exists>key t. receiptCircuitKey cx receipt = Inr (Some key) \<and> \<not> seen_filled vr (bet_key receipt) \<and>
        vr_resolvedAt vr key = Some t \<and> 0 < t
    | S_pending \<Rightarrow> True"
  proof (cases "st = S_pending")
    case False
    show ?thesis
    proof (rule settlement_cases [OF assms False], goal_cases)
      case (2 key rec p)
      then have "0 < (br_expectedShares rec - br_soldShares rec) * p" by (simp add: filled_open_def)
      then show ?case using 2 by auto
    qed (auto simp: betDidFill_seen)
  qed simp
next
  fix m key rec p
  assume "nt_expectedShares receipt = Some m" "m \<noteq> 0" "receiptCircuitKey cx receipt = Inr (Some key)"
    "filled_open vr (bet_key receipt) rec" "vr_payout vr key (if nt_side receipt = Some NO then 1 else 0) = Some p" "0 < p"
  from filled_open_ready [OF this] show "st = S_ready p ((br_expectedShares rec - br_soldShares rec) * p)"
    using assms by simp
next
  fix m key t
  assume k: "nt_expectedShares receipt = Some m" "m \<noteq> 0" "receiptCircuitKey cx receipt = Inr (Some key)"
    and t: "vr_resolvedAt vr key = Some t" "0 < t"
    and "vr_record vr (bet_key receipt) = None \<or>
      (\<exists>rec. vr_record vr (bet_key receipt) = Some rec \<and> br_status rec \<noteq> ST_FILLED) \<and> vr_att vr (bet_key receipt) None = None"
  then have "\<not> seen_filled vr (bet_key receipt)" by (auto simp: seen_filled_def)
  from unseen_reclaimed [OF k this t] show "st = S_unfilled_resolved" using assms by simp
qed

text \<open>A receipt of 300 shares for a stake of 100, and reads with a given status and report.\<close>

definition one_crypto :: crypto where
  "one_crypto = \<lparr>cx_keccak_hex = length, cx_keccak_text = length, cx_poseidon2 = (\<lambda>s n. s + nat n),
     cx_poseidon4 = (\<lambda>s b n w. s + nat b + nat n + w)\<rparr>"

definition one_receipt :: Note where
  "one_receipt = (plain_note ''r'' BET_RECEIPT ''0xA'' 0 100 0 ''r'' ''0x5'' False 0 None None)
     \<lparr>nt_nullifier_of_bet := Some ''0x5'', nt_bet_amount := Some 100, nt_expectedShares := Some 300,
      nt_raw_condition_id := Some (toHex 7)\<rparr>"

definition one_reads :: "int \<Rightarrow> int \<Rightarrow> vault_reads" where
  "one_reads status report = \<lparr>vr_chain = \<lparr>ch_vault = True, ch_isSpent = (\<lambda>n. Some False), ch_betStatus = (\<lambda>n. Some status)\<rparr>,
     vr_record = (\<lambda>n. Some \<lparr>br_status = status, br_expectedShares = 300, br_betAmount = 100, br_soldShares = 100, br_sellProceeds = 0\<rparr>),
     vr_att = (\<lambda>n t. if t = None then Some \<lparr>sa_type = report, sa_amountA = 200, sa_amountB = 80\<rparr> else None),
     vr_fee = (\<lambda>n. Some 2), vr_payout = (\<lambda>m s. Some 3), vr_resolvedAt = (\<lambda>m. Some 9)\<rparr>"

lemma one_key: "\<exists>key. receiptCircuitKey one_crypto one_receipt = Inr (Some key)"
proof -
  have "field_safe (toHex 7) = Inr (Some (toHex 7))" by (simp add: field_safe_def toFieldSafe_def BigInt_toHex BN254_P_def)
  moreover have "toHex 7 \<noteq> ''''" by (simp add: toHex_def)
  ultimately show ?thesis by (simp add: receiptCircuitKey_def one_receipt_def plain_note_def given_def)
qed

lemma one_fields: "bet_key one_receipt = ''0x5''" "nt_expectedShares one_receipt = Some 300" "nt_bet_amount one_receipt = Some 100"
  "nt_side one_receipt = None" "nt_id one_receipt = ''r''"
  by (simp_all add: one_receipt_def plain_note_def bet_key_def)

text \<open>The filled bet is ready for its 200 shares; with its record unreadable it is offered for reclaim.\<close>

theorem settlement_status_sound_witness:
  "(\<exists>rec. filled_open (one_reads ST_FILLED REPORT_PARTIAL) ''0x5'' rec \<and> 600 = (br_expectedShares rec - br_soldShares rec) * 3) \<and>
    checkSettlementStatus one_crypto ((one_reads ST_FILLED REPORT_PARTIAL)\<lparr>vr_record := \<lambda>n. None\<rparr>) one_receipt = Inr S_unfilled_resolved"
proof -
  let ?blind = "(one_reads ST_FILLED REPORT_PARTIAL)\<lparr>vr_record := \<lambda>n. None\<rparr>"
  obtain key where key: "receiptCircuitKey one_crypto one_receipt = Inr (Some key)" using one_key by blast
  have "checkSettlementStatus one_crypto (one_reads ST_FILLED REPORT_PARTIAL) one_receipt = Inr (S_ready 3 600)"
    using key by (auto simp: checkSettlementStatus_def one_fields betDidFill_def fetchBetStatus_def one_reads_def
        settleable_def remaining_shares_def Let_def)
  from conjunct1 [OF settlement_status_sound [OF this]]
  have ready: "\<exists>rec. filled_open (one_reads ST_FILLED REPORT_PARTIAL) ''0x5'' rec \<and> 600 = (br_expectedShares rec - br_soldShares rec) * 3"
    by (auto simp: one_fields)
  obtain st where st: "checkSettlementStatus one_crypto ?blind one_receipt = Inr st"
    using key by (auto simp: checkSettlementStatus_def one_fields)
  have "st = S_unfilled_resolved"
    using conjunct2 [OF settlement_status_sound [OF st]] key by (auto simp: one_fields one_reads_def)
  then show ?thesis using ready st by simp
qed

subsection \<open>Recoverable capital\<close>

text \<open>
  A bet that was filled in part and not yet normalised counts as unfilled once its
  market is resolved, and then its whole stake is shown as recoverable, where the credit
  returns the part that was not spent.
\<close>

lemma partial_fill_counted_in_full:
  assumes key: "receiptCircuitKey cx receipt = Inr (Some key)" and shares: "nt_expectedShares receipt = Some m" "m \<noteq> 0"
    and rec: "vr_record vr (bet_key receipt) = Some rec" "br_status rec = ST_ACTIVE"
    and part: "vr_att vr (bet_key receipt) None = Some a" "sa_type a = REPORT_PARTIAL" "vr_att vr (bet_key receipt) (Some REPORT_SOLD) = None"
    and res: "vr_resolvedAt vr key = Some t" "0 < t" and stake: "nt_bet_amount receipt = Some x"
  shows "checkSettlementStatus cx vr receipt = Inr S_unfilled_resolved \<and> action_needed vr [nt_id receipt] receipt = x"
  using assms
  by (simp add: checkSettlementStatus_def betDidFill_def fetchBetStatus_def action_needed_def terminal_status_def Let_def
      status_defs report_defs classifyReceipt_def)

lemma partial_fill_counted_in_full_witness:
  "action_needed (one_reads ST_ACTIVE REPORT_PARTIAL) [''r''] one_receipt = 100 \<and> partial_fill_refund 100 80 2 = 20"
proof -
  obtain key where key: "receiptCircuitKey one_crypto one_receipt = Inr (Some key)" using one_key by blast
  have "action_needed (one_reads ST_ACTIVE REPORT_PARTIAL) [nt_id one_receipt] one_receipt = 100"
    using partial_fill_counted_in_full [OF key one_fields(2), of "one_reads ST_ACTIVE REPORT_PARTIAL"
        "the (vr_record (one_reads ST_ACTIVE REPORT_PARTIAL) ''0x5'')" "the (vr_att (one_reads ST_ACTIVE REPORT_PARTIAL) ''0x5'' None)" 9 100]
    by (simp add: one_fields one_reads_def)
  then show ?thesis by (simp add: one_fields partial_fill_refund_def big_div_def)
qed

subsection \<open>Profit\<close>

lemma total_amount_simps [simp]:
  "total_amount [] = 0" "total_amount (e # es) = wa_amount e + total_amount es"
  by (simp_all add: total_amount_def)

lemma sum_pnl:
  "\<forall>e\<in>set es. cb_pnl (f e) = wa_amount e - k \<Longrightarrow> sum_list (map cb_pnl (map f es)) = total_amount es - int (length es) * k"
  by (induction es) (auto simp: algebra_simps)

lemma refund_rows_flat: "sum_list (map cb_pnl (map (refund_row bets) es)) = 0"
  by (induction es) (auto simp: refund_row_def)

text \<open>
  The profit shown for one bet.  With the activity of a single bet of stake \<open>stake\<close>, the refund of
  its partial fill and any number of credits, every credit is charged the same cost
  once more: the stake less the refund, which is the amount spent less the fee that the
  refund returned.  With one credit the profit is the credit less that cost; with a partial close
  and a settlement the cost is subtracted twice.
\<close>

lemma profit_of_a_bet:
  assumes bet: "of_kind A_bet acts = [b]" "given (wa_receiptId b)" "wa_amount b = stake"
    and refund: "of_kind A_refund acts = [f]" "wa_receiptId f = wa_receiptId b" "wa_amount f = partial_fill_refund stake spent fee"
    and credits: "\<forall>e\<in>set (of_kind A_settlement acts). wa_receiptId e = wa_receiptId b"
    and amounts: "0 < spent" "spent < stake" "0 \<le> fee" "fee < spent"
  shows "sum_list (map cb_pnl (closed_bets acts)) =
    total_amount (of_kind A_settlement acts) -
    int (length (of_kind A_settlement acts)) * (spent - fee * (stake - spent) div stake)"
proof -
  let ?u = "stake - spent" and ?k = "spent - fee * (stake - spent) div stake"
  have r: "partial_fill_refund stake spent fee = ?u + fee * ?u div stake"
    using amounts by (simp add: partial_fill_refund_def Let_def big_div_nonneg)
  have "fee * ?u div stake \<le> fee * stake div stake"
    using amounts by (intro zdiv_mono1 mult_left_mono) simp_all
  then have "fee * ?u div stake \<le> fee" using amounts by simp
  then have "stake > partial_fill_refund stake spent fee" using amounts r by simp
  then have row: "cb_pnl (settled_row [b] [f] e) = wa_amount e - ?k" if "e \<in> set (of_kind A_settlement acts)" for e
    using that bet refund credits r by (simp add: settled_row_def committed_stake_def betFor_def Let_def)
  show ?thesis
    using sum_pnl [of "of_kind A_settlement acts" "settled_row [b] [f]" ?k] row
      refund_rows_flat [of "[b]" "[f]"] bet(1) refund(1)
    by (simp add: closed_bets_def Let_def)
qed

text \<open>A bet of 100, filled for 80, sold in part for 50 and settled for 90.\<close>

definition sample_activity :: "string \<Rightarrow> activity_kind \<Rightarrow> int \<Rightarrow> WalletActivityEvent" where
  "sample_activity i k amt = \<lparr>wa_id = i, wa_wallet = ''0xA'', wa_kind = k, wa_amount = amt, wa_createdAt = 0, wa_txHash = None,
     wa_marketId = None, wa_receiptId = Some ''r'', wa_receiptNullifier = None, wa_payout = None\<rparr>"

lemma profit_of_a_bet_witness:
  "sum_list (map cb_pnl (closed_bets [sample_activity ''a'' A_bet 100, sample_activity ''b'' A_refund 20,
      sample_activity ''c'' A_settlement 50, sample_activity ''d'' A_settlement 90])) = 140 - 2 * 80"
proof -
  let ?acts = "[sample_activity ''a'' A_bet 100, sample_activity ''b'' A_refund 20,
      sample_activity ''c'' A_settlement 50, sample_activity ''d'' A_settlement 90]"
  have k: "of_kind A_bet ?acts = [sample_activity ''a'' A_bet 100]" "of_kind A_refund ?acts = [sample_activity ''b'' A_refund 20]"
    "of_kind A_settlement ?acts = [sample_activity ''c'' A_settlement 50, sample_activity ''d'' A_settlement 90]"
    by (simp_all add: of_kind_def sample_activity_def)
  have "sum_list (map cb_pnl (closed_bets ?acts)) =
      total_amount (of_kind A_settlement ?acts) - int (length (of_kind A_settlement ?acts)) * (80 - 2 * (100 - 80) div 100)"
    by (rule profit_of_a_bet [OF k(1) _ _ k(2)]) (simp_all add: of_kind_def sample_activity_def partial_fill_refund_def big_div_def given_def)
  moreover have "total_amount (of_kind A_settlement ?acts) = 140" "length (of_kind A_settlement ?acts) = 2"
    by (simp_all add: k(3)) (simp add: sample_activity_def)
  ultimately show ?thesis by simp
qed

end
