(* ===== verification/Decimal_Text.thy ===== *)
theory Decimal_Text
  imports Hex
begin

section \<open>Decimal text\<close>

text \<open>
  What the language's own operations make of decimal text: \<open>trim\<close>, digits and
  their value, and \<open>parseInt(s, 10)\<close>, which skips blanks, reads a sign and the
  longest run of digits, and is not a number (\<open>None\<close>) without one.
\<close>

definition js_space :: "char \<Rightarrow> bool" where
  "js_space c = (let n = (of_char c :: nat) in 9 \<le> n \<and> n \<le> 13 \<or> n = 32 \<or> n = 160)"

definition js_trim :: "string \<Rightarrow> string" where
  "js_trim s = rev (dropWhile js_space (rev (dropWhile js_space s)))"

definition is_digit :: "char \<Rightarrow> bool" where
  "is_digit c = (let n = (of_char c :: nat) in 48 \<le> n \<and> n \<le> 57)"

definition digits_value :: "string \<Rightarrow> int" where
  "digits_value s = (case parse_digits 10 0 s of Some n \<Rightarrow> int n | None \<Rightarrow> 0)"

lemma digits_of_hex_char: "d < 10 \<Longrightarrow> is_digit (hex_char d)"
  by (auto simp: is_digit_def hex_char_def)

lemma digits_to_string10: "list_all is_digit (to_string10 n)"
proof (induction n rule: to_string10.induct)
  case (1 n)
  then show ?case by (subst to_string10.simps) (auto simp: digits_of_hex_char)
qed

lemma length_to_string10: "n < 10 ^ Suc k \<Longrightarrow> length (to_string10 n) \<le> Suc k"
proof (induction k arbitrary: n)
  case 0
  then show ?case by (subst to_string10.simps) simp
next
  case (Suc k)
  then have "n div 10 < 10 ^ Suc k" by (simp add: less_mult_imp_div_less mult.commute)
  from Suc.IH [OF this] show ?case by (subst to_string10.simps) simp
qed

lemma not_space_digit: "is_digit c \<Longrightarrow> \<not> js_space c"
  by (auto simp: is_digit_def js_space_def Let_def)

lemma dot_not_digit: "\<not> is_digit (CHR ''.'')" "is_digit (CHR ''0'')"
  by (simp_all add: is_digit_def)

lemma trim_digits:
  assumes "list_all (\<lambda>c. \<not> js_space c) s"
  shows "js_trim s = s"
proof -
  have d: "dropWhile js_space t = t" if "list_all (\<lambda>c. \<not> js_space c) t" for t using that by (cases t) auto
  have "list_all (\<lambda>c. \<not> js_space c) (rev s)" using assms by (simp add: list_all_iff)
  then show ?thesis using d [OF assms] d [of "rev s"] by (simp add: js_trim_def)
qed

lemma takeWhile_digits:
  assumes "list_all is_digit w"
  shows "takeWhile is_digit (w @ CHR ''.'' # q) = w" "dropWhile is_digit (w @ CHR ''.'' # q) = CHR ''.'' # q"
    "takeWhile is_digit w = w" "dropWhile is_digit w = []"
  using assms dot_not_digit by (induction w) auto

lemma digits_value_zeros: "digits_value (replicate k (CHR ''0'') @ s) = digits_value s"
proof -
  have "parse_digits 10 0 (replicate k (CHR ''0'') @ s) = parse_digits 10 0 s" by (induction k) simp_all
  then show ?thesis by (simp add: digits_value_def)
qed

definition parse_int10 :: "string \<Rightarrow> int option" where
  "parse_int10 s =
     (let t = dropWhile js_space s;
          neg = (take 1 t = ''-'');
          ds = takeWhile is_digit (if take 1 t \<in> {''-'', ''+''} then drop 1 t else t)
      in if ds = '''' then None else Some (if neg then - digits_value ds else digits_value ds))"

text \<open>\<open>parseInt(s, 10) || d\<close>: not a number and zero give \<open>d\<close>.\<close>

definition parse_int_or :: "int \<Rightarrow> string \<Rightarrow> int" where
  "parse_int_or d s = (case parse_int10 s of Some n \<Rightarrow> if n = 0 then d else n | None \<Rightarrow> d)"

lemma sign_no_digit: "\<not> is_digit (CHR ''-'')" "\<not> is_digit (CHR ''+'')"
  by (simp_all add: is_digit_def)

lemma parse_int10_text: "parse_int10 (to_string10 n) = Some (int n)"
proof -
  have d: "list_all is_digit (to_string10 n)" by (rule digits_to_string10)
  have ne: "to_string10 n \<noteq> ''''" by (subst to_string10.simps) simp
  then obtain c cs where s: "to_string10 n = c # cs" by (cases "to_string10 n") auto
  have c: "is_digit c" using d s by simp
  have t: "dropWhile js_space (to_string10 n) = to_string10 n" using s not_space_digit [OF c] by simp
  have sg: "take 1 (to_string10 n) \<notin> {''-'', ''+''}" using s c sign_no_digit by auto
  have tw: "takeWhile is_digit (to_string10 n) = to_string10 n" using d by (simp add: list_all_iff)
  show ?thesis using sg ne by (simp add: parse_int10_def digits_value_def parse_to_string10 t tw Let_def)
qed

lemma parse_int_or_text: "parse_int_or 0 (to_string10 n) = int n"
  by (simp add: parse_int_or_def parse_int10_text)

end
