(* ===== verification/Money_Flows.thy ===== *)
theory Money_Flows
  imports Liquidation Pricing Decimal_Text
begin

section \<open>Depositing, betting and withdrawing\<close>

text \<open>
  The flows behind the frontend's pages: \<open>submit\<close> of \<open>components/app/BetModal.tsx\<close>
  and of \<open>app/app/withdraw/page.tsx\<close> and the steps of \<open>app/app/deposit/page.tsx\<close>,
  with the session of the master seed (\<open>secretSession.ts\<close>).  A page reads some values
  when it is drawn and uses them when a button is pressed; those values are arguments, so that they
  may be out of date.  Rendering, messages and logging are left out.
\<close>

subsection \<open>Amounts as text\<close>

definition parseUsdcToMicro :: "string \<Rightarrow> int option" where
  "parseUsdcToMicro v =
     (let s = js_trim v; whole = takeWhile is_digit s in
      if s = '''' then None
      else case dropWhile is_digit s of
             [] \<Rightarrow> Some (digits_value whole * 1000000)
           | c # fr \<Rightarrow>
               if c = CHR ''.'' \<and> list_all is_digit fr \<and> length fr \<le> 6
               then Some (digits_value whole * 1000000 + digits_value (take 6 (fr @ ''000000''))) else None)"

definition strip_zeros :: "string \<Rightarrow> string" where
  "strip_zeros s = rev (dropWhile (\<lambda>c. c = CHR ''0'') (rev s))"

definition formatUsdcInput :: "int \<Rightarrow> string" where
  "formatUsdcInput micro =
     (let whole = big_div micro 1000000;
          fracText = strip_zeros (pad_start 6 (CHR ''0'') (int_text (micro - whole * 1000000)))
      in if fracText \<noteq> '''' then int_text whole @ ''.'' @ fracText else int_text whole)"

definition dollarsToMicro :: "rat \<Rightarrow> int" where
  "dollarsToMicro d = (if d \<le> 0 then 0 else math_round (d * 1000000))"

subsection \<open>The master seed of a session\<close>

type_synonym seed_session = "(string \<times> string) option"

definition getMasterSeed :: "crypto \<Rightarrow> (string \<Rightarrow> string option) \<Rightarrow> string \<Rightarrow> seed_session
    \<Rightarrow> string option \<times> seed_session" where
  "getMasterSeed cx sign a ses =
     (case ses of
        Some (own, seed) \<Rightarrow>
          if sameAddress own a then (Some seed, ses)
          else (case deriveMasterSeed cx sign a of None \<Rightarrow> (None, ses) | Some sd \<Rightarrow> (Some sd, Some (lower a, sd)))
      | None \<Rightarrow> (case deriveMasterSeed cx sign a of None \<Rightarrow> (None, ses) | Some sd \<Rightarrow> (Some sd, Some (lower a, sd))))"

definition hasMasterSeed :: "string \<Rightarrow> seed_session \<Rightarrow> bool" where
  "hasMasterSeed a ses = (case ses of Some (own, seed) \<Rightarrow> sameAddress own a | None \<Rightarrow> False)"

definition clearSession :: "seed_session \<Rightarrow> seed_session" where "clearSession ses = None"

definition getNoteSecret :: "crypto \<Rightarrow> (string \<Rightarrow> string option) \<Rightarrow> string \<Rightarrow> nat \<Rightarrow> nat \<Rightarrow> seed_session
    \<Rightarrow> string option \<times> seed_session" where
  "getNoteSecret cx sign a ix version ses =
     (if version = 1 then (deriveSecret cx sign a ix, ses)
      else (case getMasterSeed cx sign a ses of
              (None, ses1) \<Rightarrow> (None, ses1)
            | (Some seed, ses1) \<Rightarrow> (Some (deriveSecretV2 cx seed ix), ses1)))"

subsection \<open>Placing a bet\<close>

record fee_config =
  fc_betFeeBps :: int
  fc_relayGas :: int
  fc_minBet :: int
  fc_withdrawalFee :: int
  fc_minWithdrawal :: int

datatype order_choice = O_MARKET | O_LIMIT

record bet_form =
  bf_amount :: "int option"
  bf_order :: order_choice
  bf_price :: rat
  bf_side :: outcome
  bf_sideLabel :: "string option"
  bf_condition :: string
  bf_market :: string
  bf_marketName :: string
  bf_expiry :: "int option"
  bf_combinable :: int
  bf_takerFeeBps :: int

text \<open>The price that the proof commits to.\<close>

definition effective_price :: "order_choice \<Rightarrow> BookLevel list \<Rightarrow> int option \<Rightarrow> rat option \<Rightarrow> rat option \<Rightarrow> rat \<Rightarrow> rat \<Rightarrow> rat \<Rightarrow> rat" where
  "effective_price k levels amount tick bestAsk price limitCents bps =
     (case k of
        O_MARKET \<Rightarrow> marketBuyCeilingFromBook levels
          (case amount of Some a \<Rightarrow> if a \<noteq> 0 then of_int a / 1000000 else 0 | None \<Rightarrow> 0) tick
          (Some (case bestAsk of Some a \<Rightarrow> a | None \<Rightarrow> price)) bps
      | O_LIMIT \<Rightarrow> roundToTick (limitCents / 100) tick)"

definition combinable_balance :: "string \<Rightarrow> browser \<Rightarrow> int" where
  "combinable_balance wallet b = total_balance (take MAX_CONSOLIDATE_INPUTS (by_balance (getFreeNotes wallet b)))"

definition max_bettable :: "int \<Rightarrow> fee_config \<Rightarrow> int" where
  "max_bettable combinable fc =
     (if combinable \<le> fc_relayGas fc then 0
      else big_div ((combinable - fc_relayGas fc) * 10000) (10000 + fc_betFeeBps fc))"

definition bet_preview :: "bet_form \<Rightarrow> fee_config \<Rightarrow> string + OrderPreview" where
  "bet_preview f fc = computeOrderPreview
     \<lparr>oi_amount = (case bf_amount f of Some a \<Rightarrow> a | None \<Rightarrow> 0), oi_price = bf_price f, oi_protocolFeeBps = fc_betFeeBps fc,
      oi_relayGas = fc_relayGas fc, oi_takerFeeBps = bf_takerFeeBps f, oi_minBet = fc_minBet fc\<rparr>"

text \<open>The note to bet from: the largest one, or the merge of up to four where that one does not cover the cost.\<close>

definition covering_note :: "flow_env \<Rightarrow> string \<Rightarrow> int \<Rightarrow> Note \<Rightarrow> session \<Rightarrow> (string + Note) \<times> session" where
  "covering_note env wallet cost cash s =
     (if cost > nt_balance cash then
        (case selectNotesForAmount wallet cost None None (sn_browser s) of
           Inl e \<Rightarrow> (Inl ''cannot combine'', s)
         | Inr (ns, tot) \<Rightarrow> consolidateNotes env wallet ns s)
      else (Inr cash, s))"

definition bet_output :: "flow_env \<Rightarrow> string \<Rightarrow> Note \<Rightarrow> string \<Rightarrow> int \<Rightarrow> outcome \<Rightarrow> string \<Rightarrow> Note" where
  "bet_output env wallet cash sec left sd tx = (next_note env BET_OUTPUT wallet cash sec left tx)\<lparr>nt_side := Some sd\<rparr>"

definition new_receipt :: "flow_env \<Rightarrow> string \<Rightarrow> bet_form \<Rightarrow> Note \<Rightarrow> string \<Rightarrow> string \<Rightarrow> int \<Rightarrow> int \<Rightarrow> string \<Rightarrow> Note" where
  "new_receipt env wallet f cash nf key stake shares tx =
     (plain_note (''receipt-'' @ nf) BET_RECEIPT wallet (nt_depositIndex cash) stake (nt_nonce cash) (''receipt-'' @ nf) nf False
        (fl_now env) (Some tx) (Some (version_of cash)))
       \<lparr>nt_nullifier_of_bet := Some nf, nt_position_id := Some (positionToField (bf_condition f) (bf_side f)),
        nt_marketId := Some (bf_market f), nt_marketName := Some (bf_marketName f), nt_condition_id := Some key,
        nt_raw_condition_id := Some (bf_condition f), nt_bet_amount := Some stake, nt_expectedShares := Some shares,
        nt_side := Some (bf_side f), nt_sideLabel := bf_sideLabel f\<rparr>"

definition bet_request :: "flow_env \<Rightarrow> string \<Rightarrow> bet_form \<Rightarrow> Note \<Rightarrow> string \<Rightarrow> string \<Rightarrow> string \<Rightarrow> int \<Rightarrow> int \<Rightarrow> int \<Rightarrow> bet_inputs" where
  "bet_request env wallet f cash sec rt key stake fee shares =
     (let price = math_round (bf_price f * 100000000) in
      \<lparr>bi_secret = sec, bi_balance = nt_balance cash, bi_nonce = nt_nonce cash, bi_leaf = nt_commitment cash, bi_owner = wallet,
       bi_root = rt, bi_nullifier = computeNullifier (fl_crypto env) sec (nt_nonce cash),
       bi_new_commitment = computeCommitment (fl_crypto env) sec (nt_balance cash - stake - fee) (nt_nonce cash + 1) wallet,
       bi_amount = stake, bi_price = price, bi_shares = shares, bi_remainder = (stake * 100000000) mod price,
       bi_market = key, bi_side = (if bf_side f = YES then 0 else 1),
       bi_position = positionToField (bf_condition f) (bf_side f), bi_fee = fee\<rparr>)"

text \<open>From the note on: the proof, the intent of a limit order, the relay, and the new notes.\<close>

definition bet_from_note :: "flow_env \<Rightarrow> string \<Rightarrow> bet_form \<Rightarrow> int \<Rightarrow> int \<Rightarrow> int \<Rightarrow> Note \<Rightarrow> session \<Rightarrow> (string + string) \<times> session" where
  "bet_from_note env wallet f stake fee shares cash s =
     (if nt_balance cash < stake + fee then (Inl ''exceeds balance'', s)
      else case open_note env cash of
             Inl e \<Rightarrow> (Inl e, s)
           | Inr (sec, rt) \<Rightarrow>
               (case toFieldSafe (bf_condition f) of
                  None \<Rightarrow> (Inl ''SyntaxError'', s)
                | Some key \<Rightarrow>
                    let bi = bet_request env wallet f cash sec rt key stake fee shares;
                        nf = bi_nullifier bi;
                        intent = \<lparr>li_nullifier = nf, li_expiration = bf_expiry f\<rparr>;
                        s1 = (if bf_order f = O_LIMIT then s\<lparr>sn_intents := sn_intents s @ [intent]\<rparr> else s)
                    in if bi_price bi = 0 then (Inl ''RangeError: Division by zero'', s)
                       else if \<not> fl_proves env (R_bet bi) then (Inl ''proof'', s)
                       else if bf_order f = O_LIMIT \<and> \<not> fl_intent env intent then (Inl ''limit-order'', s1)
                       else (case relay_and_wait env (R_bet bi) s1 of
                               (Inl e, s2) \<Rightarrow> (Inl e, s2)
                             | (Inr tx, s2) \<Rightarrow>
                                 (Inr tx,
                                  on_browser (recordWalletActivity \<lparr>wa_id = ''bet-'' @ tx, wa_wallet = wallet, wa_kind = A_bet,
                                      wa_amount = stake, wa_createdAt = fl_now env, wa_txHash = Some tx,
                                      wa_marketId = Some (bf_condition f), wa_receiptId = Some (''receipt-'' @ nf),
                                      wa_receiptNullifier = Some nf, wa_payout = None\<rparr> \<circ>
                                    addNote (new_receipt env wallet f cash nf key stake shares tx) \<circ>
                                    addNote (bet_output env wallet cash sec (nt_balance cash - stake - fee) (bf_side f) tx) \<circ>
                                    markNoteSpent (nt_commitment cash)) s2))))"

definition submit_bet :: "flow_env \<Rightarrow> fee_config option \<Rightarrow> string \<Rightarrow> bet_form \<Rightarrow> session \<Rightarrow> (string + string) \<times> session" where
  "submit_bet env fees wallet f s =
     (case (bf_amount f, fees) of
        (None, _) \<Rightarrow> (Inl ''no amount'', s)
      | (Some stake, None) \<Rightarrow> (if stake \<le> 0 then (Inl ''no amount'', s) else (Inl ''Loading fee schedule'', s))
      | (Some stake, Some fc) \<Rightarrow>
          if stake \<le> 0 then (Inl ''no amount'', s)
          else (case bet_preview f fc of
              Inl e \<Rightarrow> (Inl e, s)
            | Inr p \<Rightarrow>
                if stake < op_effectiveMinBet p then (Inl ''Minimum bet'', s)
                else if op_shares p < MIN_SHARES then (Inl ''minimum order is 5 shares'', s)
                else
                  let s0 = on_browser (\<lambda>b. snd (reconcileSpentStatus (vr_chain (fl_reads env)) wallet b)) s;
                      fee = op_totalFee p
                  in (case getCurrentCashNote wallet (sn_browser s0) of
                        None \<Rightarrow> (Inl ''No available cash balance'', s0)
                      | Some cash \<Rightarrow>
                          if stake > max_bettable (bf_combinable f) fc then (Inl ''exceeds your balance'', s0)
                          else (case covering_note env wallet (stake + fee) cash s0 of
                              (Inl e, s1) \<Rightarrow> (Inl e, s1)
                            | (Inr nt, s1) \<Rightarrow> bet_from_note env wallet f stake fee (op_shares p) nt s1))))"

subsection \<open>Withdrawing an amount\<close>

text \<open>What the page read when it was drawn: the cash note and balance, the deposits with open positions, the free notes.\<close>

record withdraw_view =
  wv_cashNote :: "Note option"
  wv_cashBalance :: int
  wv_open :: "nat list"
  wv_free :: "Note list"
  wv_vaultUsdc :: int

definition withdraw_page :: "string \<Rightarrow> int \<Rightarrow> browser \<Rightarrow> withdraw_view" where
  "withdraw_page wallet vaultUsdc b =
     \<lparr>wv_cashNote = getCurrentCashNote wallet b, wv_cashBalance = getCashBalance wallet b,
      wv_open = map nt_depositIndex (getOpenBetReceipts wallet b), wv_free = getFreeNotes wallet b, wv_vaultUsdc = vaultUsdc\<rparr>"

definition top_sum :: "Note list \<Rightarrow> nat \<Rightarrow> int" where
  "top_sum ns k = total_balance (take k (by_balance ns))"

definition safe_max :: "withdraw_view \<Rightarrow> int" where
  "safe_max v =
     (let clear = filter (\<lambda>n. nt_depositIndex n \<notin> set (wv_open v)) (wv_free v)
      in foldl (\<lambda>best d.
           let withOpen = total_balance (filter (\<lambda>n. nt_depositIndex n = d) (wv_free v)) + top_sum clear (MAX_CONSOLIDATE_INPUTS - 1)
           in if withOpen > best then withOpen else best)
         (top_sum clear MAX_CONSOLIDATE_INPUTS) (wv_open v))"

definition max_single_step :: "withdraw_view \<Rightarrow> int" where
  "max_single_step v = top_sum (wv_free v) MAX_CONSOLIDATE_INPUTS"

definition fragmented :: "withdraw_view \<Rightarrow> int \<Rightarrow> bool" where
  "fragmented v amt \<longleftrightarrow> amt > 0 \<and> amt \<le> wv_cashBalance v \<and> amt > max_single_step v"

definition hard_blocked :: "withdraw_view \<Rightarrow> int \<Rightarrow> bool" where
  "hard_blocked v amt \<longleftrightarrow> amt > 0 \<and> amt \<le> wv_cashBalance v \<and> amt > safe_max v"

definition invalid_amount :: "withdraw_view \<Rightarrow> int \<Rightarrow> int option \<Rightarrow> bool" where
  "invalid_amount v minWithdrawal amt =
     (case amt of None \<Rightarrow> True | Some a \<Rightarrow> a \<le> 0 \<or> a > wv_cashBalance v \<or> (a > 0 \<and> a < minWithdrawal))"

definition withdrawable_now :: "withdraw_view \<Rightarrow> int" where
  "withdrawable_now v =
     (let m = (if wv_cashBalance v < wv_vaultUsdc v then wv_cashBalance v else wv_vaultUsdc v)
      in if safe_max v > 0 \<and> m > safe_max v then safe_max v else m)"

text \<open>A full drain of a lineage with an open position leaves one micro-unit.\<close>

definition effective_withdrawal :: "nat list \<Rightarrow> Note \<Rightarrow> int \<Rightarrow> int" where
  "effective_withdrawal opn note requested =
     (if nt_depositIndex note \<in> set opn \<and> requested \<ge> nt_balance note \<and> nt_balance note > 1 then nt_balance note - 1
      else requested)"

definition merged_to_withdraw :: "flow_env \<Rightarrow> string \<Rightarrow> nat list \<Rightarrow> int \<Rightarrow> Note \<Rightarrow> session \<Rightarrow> (string + Note) \<times> session" where
  "merged_to_withdraw env wallet opn requested cash s =
     (if requested > nt_balance cash then
        (case selectNotesForAmount wallet requested (Some opn) (Some (nt_depositIndex cash)) (sn_browser s) of
           Inl e \<Rightarrow> (Inl ''cannot combine'', s)
         | Inr (ns, tot) \<Rightarrow> consolidateNotes env wallet ns s)
      else (Inr cash, s))"

definition withdrawal_request :: "flow_env \<Rightarrow> string \<Rightarrow> Note \<Rightarrow> string \<Rightarrow> string \<Rightarrow> int \<Rightarrow> withdrawal_inputs" where
  "withdrawal_request env wallet note sec rt amt =
     (let left = nt_balance note - amt in
      \<lparr>wi_secret = sec, wi_balance = nt_balance note, wi_nonce = nt_nonce note, wi_leaf = nt_commitment note, wi_owner = wallet,
       wi_root = rt, wi_nullifier = nt_nullifier note, wi_amount = amt, wi_recipient_hash = computeRecipientHash (fl_crypto env) wallet,
       wi_new_commitment = (if left > 0 then computeCommitment (fl_crypto env) sec left (nt_nonce note + 1) wallet
                            else ZERO_COMMITMENT)\<rparr>)"

definition markWithdrawSubmitted :: "string \<Rightarrow> string \<Rightarrow> session \<Rightarrow> session" where
  "markWithdrawSubmitted wallet nf s = s\<lparr>sn_withdraws := set_add (marker_key wallet nf) (sn_withdraws s)\<rparr>"

definition clearWithdrawMarker :: "string \<Rightarrow> string \<Rightarrow> session \<Rightarrow> session" where
  "clearWithdrawMarker wallet nf s = s\<lparr>sn_withdraws := set_del (marker_key wallet nf) (sn_withdraws s)\<rparr>"

definition submit_withdrawal :: "flow_env \<Rightarrow> fee_config option \<Rightarrow> string \<Rightarrow> withdraw_view \<Rightarrow> int option \<Rightarrow> session
    \<Rightarrow> (string + string) \<times> session" where
  "submit_withdrawal env fees wallet v requested s =
     (case (wv_cashNote v, requested) of
        (None, _) \<Rightarrow> (Inl ''nothing to do'', s)
      | (Some cash, None) \<Rightarrow> (Inl ''nothing to do'', s)
      | (Some cash, Some amt) \<Rightarrow>
          if invalid_amount v (case fees of Some fc \<Rightarrow> fc_minWithdrawal fc | None \<Rightarrow> 0) requested \<or> fragmented v amt \<or> hard_blocked v amt
          then (Inl ''nothing to do'', s)
          else
            let s0 = on_browser (\<lambda>b. snd (reconcileSpentStatus (vr_chain (fl_reads env)) wallet b)) s in
            (case merged_to_withdraw env wallet (wv_open v) amt cash s0 of
               (Inl e, s1) \<Rightarrow> (Inl e, s1)
             | (Inr note, s1) \<Rightarrow>
                 (case open_note env note of
                    Inl e \<Rightarrow> (Inl e, s1)
                  | Inr (sec, rt) \<Rightarrow>
                      let out = effective_withdrawal (wv_open v) note amt;
                          left = nt_balance note - out;
                          wi = withdrawal_request env wallet note sec rt out
                      in if \<not> fl_proves env (R_withdrawal wi) then (Inl ''proof'', s1)
                         else (case relay_and_wait env (R_withdrawal wi) (markWithdrawSubmitted wallet (nt_nullifier note) s1) of
                                 (Inl e, s2) \<Rightarrow> (Inl e, s2)
                               | (Inr tx, s2) \<Rightarrow>
                                   (Inr tx, clearWithdrawMarker wallet (nt_nullifier note)
                                     (on_browser ((if left > 0 then addNote (next_note env BET_OUTPUT wallet note sec left tx) else id) \<circ>
                                       recordWalletActivity \<lparr>wa_id = ''withdrawal-'' @ tx, wa_wallet = wallet, wa_kind = A_withdrawal,
                                         wa_amount = out, wa_createdAt = fl_now env, wa_txHash = Some tx, wa_marketId = None,
                                         wa_receiptId = None, wa_receiptNullifier = None, wa_payout = None\<rparr> \<circ>
                                       markNoteSpent (nt_commitment note)) s2))))))"

subsection \<open>Depositing\<close>

definition DEPOSIT_CAP_MICRO :: int where "DEPOSIT_CAP_MICRO = 50000000000"

definition remaining_cap :: "int \<Rightarrow> int" where
  "remaining_cap cumulative = (if cumulative \<ge> DEPOSIT_CAP_MICRO then 0 else DEPOSIT_CAP_MICRO - cumulative)"

text \<open>The button of the first step; \<open>amount\<close> is in dollars, \<open>balance\<close> and \<open>cumulative\<close> in micro-units.\<close>

definition parse_units6 :: "rat \<Rightarrow> int" where "parse_units6 amount = math_round (amount * 1000000)"

definition deposit_allowed :: "int \<Rightarrow> int \<Rightarrow> rat \<Rightarrow> bool" where
  "deposit_allowed balance cumulative amount \<longleftrightarrow>
     (let cap = of_int (remaining_cap cumulative) / 1000000 in
      \<not> amount < 1 \<and> \<not> balance < parse_units6 amount \<and> \<not> (amount > 0 \<and> amount > cap + 1 / 1000000000) \<and> \<not> cap \<le> 0)"

text \<open>
  The index of a deposit: from the first proposal, past every index whose first nullifier
  is already spent, at most \<open>guard\<close> times.  Version 2 secrets only.
\<close>

fun unspent_index :: "flow_env \<Rightarrow> nat \<Rightarrow> nat \<Rightarrow> string \<Rightarrow> string + nat \<times> string" where
  "unspent_index env 0 ix sec = Inr (ix, sec)"
| "unspent_index env (Suc guard) ix sec =
     (let nf = computeNullifier (fl_crypto env) sec 0 in
      if lower nf \<notin> set (fetchSpentNullifiers (vr_chain (fl_reads env)) [nf]) then Inr (ix, sec)
      else (case fl_secret env (ix + 1) 2 of
              None \<Rightarrow> Inl ''signature''
            | Some sec' \<Rightarrow> unspent_index env guard (ix + 1) sec'))"

definition INDEX_GUARD :: nat where "INDEX_GUARD = 20"

datatype tx_phase = P_prove | P_approve | P_wait_approve | P_deposit | P_wait_deposit | P_done

record deposit_state =
  dp_step :: nat
  dp_phase :: tx_phase
  dp_amount :: int
  dp_commitment :: string
  dp_nullifier :: string
  dp_index :: nat
  dp_secret :: "string option"
  dp_proof :: bool
  dp_submitted :: bool
  dp_inflight :: bool

definition deposit_start :: "int \<Rightarrow> deposit_state" where
  "deposit_start amount = \<lparr>dp_step = 0, dp_phase = P_prove, dp_amount = amount, dp_commitment = ''0x'', dp_nullifier = ''0x'',
     dp_index = 0, dp_secret = None, dp_proof = False, dp_submitted = False, dp_inflight = False\<rparr>"

text \<open>\<open>deposits\<close>: how many deposits of the wallet the relay's index knows, where it answers.\<close>

definition handleDeriveAndDeposit :: "flow_env \<Rightarrow> nat option \<Rightarrow> string \<Rightarrow> browser \<Rightarrow> deposit_state \<Rightarrow> deposit_state" where
  "handleDeriveAndDeposit env deposits wallet b d =
     (let ix0 = getSafeNextDepositIndex deposits wallet b in
      case fl_secret env ix0 2 of
        None \<Rightarrow> d
      | Some sec0 \<Rightarrow>
          (case unspent_index env INDEX_GUARD ix0 sec0 of
             Inl e \<Rightarrow> d
           | Inr (ix, sec) \<Rightarrow>
               d\<lparr>dp_step := 1, dp_phase := P_prove, dp_index := ix,
                 dp_commitment := computeCommitment (fl_crypto env) sec (dp_amount d) 0 wallet,
                 dp_nullifier := computeNullifier (fl_crypto env) sec 0, dp_secret := Some sec, dp_proof := False,
                 dp_submitted := False, dp_inflight := True\<rparr>))"

definition deposit_request :: "string \<Rightarrow> deposit_state \<Rightarrow> request" where
  "deposit_request wallet d = R_deposit \<lparr>di_secret = the (dp_secret d), di_commitment = dp_commitment d, di_amount = dp_amount d,
     di_owner = wallet\<rparr>"

definition doProve :: "flow_env \<Rightarrow> string \<Rightarrow> int \<Rightarrow> deposit_state \<Rightarrow> deposit_state" where
  "doProve env wallet allowance d =
     (if dp_proof d \<or> dp_secret d = None then d
      else if \<not> fl_proves env (deposit_request wallet d) then d
      else d\<lparr>dp_proof := True, dp_phase := (if allowance \<ge> dp_amount d then P_deposit else P_approve)\<rparr>)"

definition markDepositSubmitted :: "string \<Rightarrow> string \<Rightarrow> session \<Rightarrow> session" where
  "markDepositSubmitted wallet c s = s\<lparr>sn_deposits := set_add (marker_key wallet c) (sn_deposits s)\<rparr>"

definition clearDepositMarker :: "string \<Rightarrow> string \<Rightarrow> session \<Rightarrow> session" where
  "clearDepositMarker wallet c s = s\<lparr>sn_deposits := set_del (marker_key wallet c) (sn_deposits s)\<rparr>"

definition doDeposit :: "string \<Rightarrow> deposit_state \<times> session \<Rightarrow> deposit_state \<times> session" where
  "doDeposit wallet ds =
     (case ds of (d, s) \<Rightarrow>
        if dp_submitted d \<or> \<not> dp_proof d then (d, s)
        else (d\<lparr>dp_submitted := True\<rparr>,
              (markDepositSubmitted wallet (dp_commitment d) s)\<lparr>sn_sent := sn_sent s @ [deposit_request wallet d]\<rparr>))"

definition deposit_note :: "int \<Rightarrow> string \<Rightarrow> string \<Rightarrow> deposit_state \<Rightarrow> Note" where
  "deposit_note now wallet tx d =
     plain_note (dp_commitment d) DEPOSIT wallet (dp_index d) (dp_amount d) 0 (dp_commitment d) (dp_nullifier d) False now (Some tx) (Some 2)"

definition deposit_confirmed :: "int \<Rightarrow> string \<Rightarrow> string \<Rightarrow> deposit_state \<times> session \<Rightarrow> deposit_state \<times> session" where
  "deposit_confirmed now wallet tx ds =
     (case ds of (d, s) \<Rightarrow>
        (d\<lparr>dp_secret := None, dp_inflight := False, dp_phase := P_done, dp_step := 2\<rparr>,
         clearDepositMarker wallet (dp_commitment d)
           (on_browser (recordWalletActivity \<lparr>wa_id = ''deposit-'' @ tx, wa_wallet = wallet, wa_kind = A_deposit, wa_amount = dp_amount d,
                wa_createdAt = now, wa_txHash = Some tx, wa_marketId = None, wa_receiptId = None, wa_receiptNullifier = None,
                wa_payout = None\<rparr> \<circ>
              addNote (deposit_note now wallet tx d) \<circ> recordDepositIndexUsed wallet (dp_index d)) s)))"

text \<open>The effects of the wallet's answers.\<close>

definition approve_failed :: "deposit_state \<Rightarrow> deposit_state" where
  "approve_failed d = d\<lparr>dp_phase := P_approve, dp_inflight := False\<rparr>"

definition deposit_failed :: "deposit_state \<Rightarrow> deposit_state" where
  "deposit_failed d = d\<lparr>dp_submitted := False, dp_inflight := False\<rparr>"

text \<open>
  The page as a state machine.  The deposit transaction can be broadcast, fail or be
  reverted only after it was sent, and be confirmed only after it was broadcast; the
  time, the chain and the prover may answer differently at every step.
\<close>

inductive deposit_step :: "crypto \<Rightarrow> string \<Rightarrow> deposit_state \<times> session \<Rightarrow> deposit_state \<times> session \<Rightarrow> bool"
  for cx :: crypto and wallet :: string where
  derive: "dp_step d = 0 \<Longrightarrow> fl_crypto env = cx \<Longrightarrow> deposit_allowed balance cumulative amount \<Longrightarrow>
     dp_amount d = parse_units6 amount \<Longrightarrow> deposit_step cx wallet (d, s) (handleDeriveAndDeposit env deposits wallet (sn_browser s) d, s)"
| prove: "dp_step d = 1 \<Longrightarrow> dp_phase d = P_prove \<Longrightarrow> deposit_step cx wallet (d, s) (doProve env wallet allowance d, s)"
| approve_sent: "dp_step d = 1 \<Longrightarrow> dp_phase d = P_approve \<Longrightarrow> deposit_step cx wallet (d, s) (d\<lparr>dp_phase := P_wait_approve\<rparr>, s)"
| approve_error: "dp_step d = 1 \<Longrightarrow> dp_phase d \<in> {P_approve, P_wait_approve} \<Longrightarrow> deposit_step cx wallet (d, s) (approve_failed d, s)"
| approved: "dp_step d = 1 \<Longrightarrow> dp_phase d = P_wait_approve \<Longrightarrow> deposit_step cx wallet (d, s) (d\<lparr>dp_phase := P_deposit\<rparr>, s)"
| send: "dp_step d = 1 \<Longrightarrow> dp_phase d \<in> {P_deposit, P_wait_deposit} \<Longrightarrow> deposit_step cx wallet (d, s) (doDeposit wallet (d, s))"
| broadcast: "dp_step d = 1 \<Longrightarrow> dp_phase d = P_deposit \<Longrightarrow> dp_submitted d \<Longrightarrow>
     deposit_step cx wallet (d, s) (d\<lparr>dp_phase := P_wait_deposit\<rparr>, s)"
| failed: "dp_step d = 1 \<Longrightarrow> dp_phase d \<in> {P_deposit, P_wait_deposit} \<Longrightarrow> dp_submitted d \<Longrightarrow>
     deposit_step cx wallet (d, s) (deposit_failed d, s)"
| confirmed: "dp_step d = 1 \<Longrightarrow> dp_phase d = P_wait_deposit \<Longrightarrow> dp_submitted d \<Longrightarrow>
     deposit_step cx wallet (d, s) (deposit_confirmed now wallet tx (d, s))"

end
