(* ===== verification/Money_Flows_Props.thy ===== *)
theory Money_Flows_Props
  imports Money_Flows Note_Flows_Props
begin

section \<open>Bets and withdrawals keep the notes in step with the vault\<close>

text \<open>
  A bet and a withdrawal refine \<open>ledger_step\<close> like the credits do, and after a bet
  the credits apply to its receipt.
\<close>

subsection \<open>Bets\<close>

text \<open>What the bet circuit states (\<open>circuits/groth16/bet_auth.circom\<close>); the path is the relay's.\<close>

definition bet_ok :: "crypto \<Rightarrow> bet_inputs \<Rightarrow> bool" where
  "bet_ok cx i \<longleftrightarrow>
     bi_leaf i = computeCommitment cx (bi_secret i) (bi_balance i) (bi_nonce i) (bi_owner i) \<and>
     bi_nullifier i = computeNullifier cx (bi_secret i) (bi_nonce i) \<and>
     bi_new_commitment i = computeCommitment cx (bi_secret i) (bi_balance i - bi_amount i - bi_fee i) (bi_nonce i + 1) (bi_owner i) \<and>
     0 \<le> bi_balance i - bi_amount i - bi_fee i \<and>
     bi_shares i * bi_price i + bi_remainder i = bi_amount i * 100000000 \<and> 0 \<le> bi_remainder i \<and> bi_remainder i < bi_price i"

text \<open>The event of the vault for a bet, and the bet it then holds.\<close>

definition bet_event :: "bet_inputs \<Rightarrow> int \<Rightarrow> int \<Rightarrow> chain_event" where
  "bet_event i pf rf = EvBet \<lparr>bl_nullifier = bi_nullifier i, bl_market_id = bi_market i, bl_position_id = Some (bi_position i),
     bl_expected_shares = bi_shares i, bl_bet_amount = bi_amount i, bl_outcome_side = bi_side i,
     bl_new_commitment = bi_new_commitment i, bl_protocolFee = Some pf, bl_relayFee = Some rf\<rparr>"

definition placed_bet :: "bet_inputs \<Rightarrow> int \<Rightarrow> vault_bet" where
  "placed_bet i pf = \<lparr>vb_market = bi_market i, vb_side = bi_side i, vb_shares = bi_shares i, vb_sold = 0, vb_amount = bi_amount i,
     vb_fee = pf, vb_status = BActive\<rparr>"

definition after_bet :: "bet_inputs \<Rightarrow> int \<Rightarrow> ledger \<Rightarrow> ledger" where
  "after_bet i pf l = (set_bet (bi_nullifier i) (placed_bet i pf) l)
     \<lparr>ld_balance := ld_balance l - bi_amount i - bi_fee i, ld_nonce := ld_nonce l + 1\<rparr>"

lemma after_bet_fields [simp]:
  "ld_balance (after_bet i pf l) = ld_balance l - bi_amount i - bi_fee i" "ld_nonce (after_bet i pf l) = ld_nonce l + 1"
  "ld_live (after_bet i pf l) = ld_live l" "ld_bets (after_bet i pf l) = AList.update (lower (bi_nullifier i)) (placed_bet i pf) (ld_bets l)"
  by (simp_all add: after_bet_def set_bet_def)

lemma bet_event_steps:
  assumes "ld_live l" and "bi_nullifier i = computeNullifier (rx_crypto c) (rx_secret c) (ld_nonce l)"
    and "bi_new_commitment i = computeCommitment (rx_crypto c) (rx_secret c) (ld_balance l - bi_amount i - bi_fee i) (ld_nonce l + 1) (rx_address c)"
    and "map_of (ld_bets l) (lower (bi_nullifier i)) = None" and "0 < bi_amount i" "0 < bi_shares i" "0 \<le> pf" "bi_fee i = pf + rf"
  shows "ledger_step c vv l (bet_event i pf rf) = Some (after_bet i pf l)"
proof -
  have mine: "mine c (bi_nullifier i) l" using assms(1,2) by (simp add: mine_def own_nullifier_def)
  have amt: "ld_balance l - bi_amount i - pf - rf = ld_balance l - bi_amount i - bi_fee i" using assms(8) by simp
  show ?thesis using mine assms(3-7)
    by (simp add: ledger_step_def bet_event_def advance_def zero_or_def amt after_bet_def placed_bet_def set_bet_def)
qed

text \<open>A receipt beside the tip.\<close>

lemma tip_inD:
  assumes "tip_in c l ns n"
  shows "filter (free_at (rx_address c) (rx_index c)) ns = [n]" "filter (known_as (nt_commitment n)) ns = [n]"
  using assms unfolding tip_in_def by blast+

lemma tip_in_receipt:
  assumes tip: "tip_in c l ns n" and r: "nt_kind r = BET_RECEIPT" "\<not> known_as (nt_commitment n) r"
  shows "tip_in c l (ns @ [r]) n"
proof -
  have "filter (free_at (rx_address c) (rx_index c)) (ns @ [r]) = [n]" using r by (simp add: tip_inD [OF tip]) (simp add: free_at_def)
  moreover have "filter (known_as (nt_commitment n)) (ns @ [r]) = [n]" using r by (simp add: tip_inD [OF tip])
  ultimately show ?thesis using tip unfolding tip_in_def by blast
qed

lemma toHex_not_receipt: "toHex x \<noteq> ''receipt-'' @ s"
  by (simp add: toHex_def)

definition receipt_id :: "string \<Rightarrow> string" where "receipt_id nf = ''receipt-'' @ nf"

lemma new_receipt_fields [simp]:
  "nt_id (new_receipt env w f n nf key st sh tx) = receipt_id nf" "nt_commitment (new_receipt env w f n nf key st sh tx) = receipt_id nf"
  "nt_kind (new_receipt env w f n nf key st sh tx) = BET_RECEIPT" "nt_nonce (new_receipt env w f n nf key st sh tx) = nt_nonce n"
  "nt_depositIndex (new_receipt env w f n nf key st sh tx) = nt_depositIndex n" "bet_key (new_receipt env w f n nf key st sh tx) = nf"
  by (simp_all add: new_receipt_def plain_note_def bet_key_def receipt_id_def)

lemma bet_output_fields [simp]:
  "nt_id (bet_output env w n sec left sd tx) = computeCommitment (fl_crypto env) sec left (nt_nonce n + 1) w"
  "nt_commitment (bet_output env w n sec left sd tx) = computeCommitment (fl_crypto env) sec left (nt_nonce n + 1) w"
  "nt_nullifier (bet_output env w n sec left sd tx) = computeNullifier (fl_crypto env) sec (nt_nonce n + 1)"
  "nt_balance (bet_output env w n sec left sd tx) = left" "nt_nonce (bet_output env w n sec left sd tx) = nt_nonce n + 1"
  "nt_kind (bet_output env w n sec left sd tx) = BET_OUTPUT" "nt_owner (bet_output env w n sec left sd tx) = w"
  "nt_depositIndex (bet_output env w n sec left sd tx) = nt_depositIndex n" "nt_spent (bet_output env w n sec left sd tx) = False"
  "nt_version (bet_output env w n sec left sd tx) = Some (version_of n)"
  by (simp_all add: bet_output_def)

text \<open>A submission that needs no merge bets from the largest note.\<close>

lemma submit_bet_direct:
  assumes run: "submit_bet env (Some fc) wallet f s = (Inr tx, s')"
    and f: "bf_amount f = Some stake" "bet_preview f fc = Inr p"
    and s0: "s0 = on_browser (\<lambda>b. snd (reconcileSpentStatus (vr_chain (fl_reads env)) wallet b)) s"
    and n: "getCurrentCashNote wallet (sn_browser s0) = Some n" "stake + op_totalFee p \<le> nt_balance n"
  shows "bet_from_note env wallet f stake (op_totalFee p) (op_shares p) n s0 = (Inr tx, s') \<and> 0 < stake \<and> MIN_SHARES \<le> op_shares p"
  using run f n unfolding submit_bet_def
  by (auto simp: covering_note_def Let_def s0 split: if_splits option.splits)

lemma bet_from_note_done:
  assumes run: "bet_from_note env wallet f stake fee shares n s = (Inr tx, s')"
  obtains sec rt key bi where "open_note env n = Inr (sec, rt)" "toFieldSafe (bf_condition f) = Some key"
    "bi = bet_request env wallet f n sec rt key stake fee shares" "bi_price bi \<noteq> 0" "stake + fee \<le> nt_balance n"
    "sn_sent s' = sn_sent s @ [R_bet bi]"
    "loadAll (sn_browser s') = loadAll (markNoteSpent (nt_commitment n) (sn_browser s)) @
       [bet_output env wallet n sec (nt_balance n - stake - fee) (bf_side f) tx,
        new_receipt env wallet f n (bi_nullifier bi) key stake shares tx]"
proof -
  obtain sec rt where o: "open_note env n = Inr (sec, rt)" and bal: "stake + fee \<le> nt_balance n"
    using run by (auto simp: bet_from_note_def split: if_splits sum.splits)
  obtain key where key: "toFieldSafe (bf_condition f) = Some key"
    using run o bal by (auto simp: bet_from_note_def split: option.splits)
  define bi where "bi = bet_request env wallet f n sec rt key stake fee shares"
  have pr: "bi_price bi \<noteq> 0" using run o bal key by (auto simp: bet_from_note_def Let_def bi_def split: if_splits)
  have rest: "sn_sent s' = sn_sent s @ [R_bet bi] \<and> loadAll (sn_browser s') = loadAll (markNoteSpent (nt_commitment n) (sn_browser s)) @
       [bet_output env wallet n sec (nt_balance n - stake - fee) (bf_side f) tx,
        new_receipt env wallet f n (bi_nullifier bi) key stake shares tx]"
    using run o bal key
    by (auto simp: bet_from_note_def Let_def relay_and_wait_def bi_def [symmetric] split: if_splits option.splits)
  show thesis by (rule that [OF o key bi_def pr bal]) (use rest in auto)
qed

text \<open>The world in which a lineage's tip is spent by the page.\<close>

definition spends_tip :: "flow_env \<Rightarrow> replay_ctx \<Rightarrow> ledger \<Rightarrow> session \<Rightarrow> Note \<Rightarrow> bool" where
  "spends_tip env c l s n \<longleftrightarrow>
     fl_crypto env = rx_crypto c \<and> fl_secret env (rx_index c) (rx_version c) = Some (rx_secret c) \<and>
     rx_address c \<noteq> '''' \<and> ld_live l \<and> tip_in c l (loadAll (sn_browser s)) n"

lemma spends_tip_note:
  assumes "spends_tip env c l s n"
  shows "nt_depositIndex n = rx_index c" "nt_balance n = ld_balance l" "nt_nonce n = ld_nonce l" "version_of n = rx_version c"
    "nt_commitment n = computeCommitment (rx_crypto c) (rx_secret c) (ld_balance l) (ld_nonce l) (rx_address c)"
    "nt_nullifier n = computeNullifier (rx_crypto c) (rx_secret c) (ld_nonce l)"
    "fl_crypto env = rx_crypto c" "ld_live l" "rx_address c \<noteq> ''''"
proof -
  have tip: "tip_in c l (loadAll (sn_browser s)) n" using assms by (simp add: spends_tip_def)
  then have "n \<in> set (filter (free_at (rx_address c) (rx_index c)) (loadAll (sn_browser s)))" by (simp add: tip_inD)
  then show "nt_depositIndex n = rx_index c" by (simp add: free_at_def)
  show "nt_balance n = ld_balance l" "nt_nonce n = ld_nonce l" "version_of n = rx_version c"
    "nt_commitment n = computeCommitment (rx_crypto c) (rx_secret c) (ld_balance l) (ld_nonce l) (rx_address c)"
    "nt_nullifier n = computeNullifier (rx_crypto c) (rx_secret c) (ld_nonce l)"
    using tip unfolding tip_in_def by blast+
  show "fl_crypto env = rx_crypto c" "ld_live l" "rx_address c \<noteq> ''''" using assms by (simp_all add: spends_tip_def)
qed

lemma spends_tip_secret:
  assumes at: "spends_tip env c l s n" and o: "open_note env n = Inr (sec, rt)"
  shows "sec = rx_secret c"
proof -
  have "fl_secret env (nt_depositIndex n) (version_of n) = Some (rx_secret c)"
    unfolding spends_tip_note(1,4) [OF at] using at by (simp add: spends_tip_def)
  then show ?thesis using o by (simp add: open_note_def split: option.splits)
qed

text \<open>After the tip is spent, a new note of the lineage is its tip.\<close>

lemma tip_replaced:
  assumes at: "spends_tip env c l s n" and new: "continues c l' new" and fresh: "unknown (nt_commitment new) (loadAll (sn_browser s))"
  shows "tip_in c l' (loadAll (markNoteSpent (nt_commitment n) (sn_browser s)) @ [new]) new"
proof (rule continues_tip [OF _ new])
  have "tip_in c l (loadAll (sn_browser s)) n" using at by (simp add: spends_tip_def)
  then show "filter (free_at (rx_address c) (rx_index c)) (loadAll (markNoteSpent (nt_commitment n) (sn_browser s))) = []"
    by (rule tip_spent)
  show "unknown (nt_commitment new) (loadAll (markNoteSpent (nt_commitment n) (sn_browser s)))"
    using fresh by (simp only: note_marked)
qed

lemma math_round_pos: "math_round x \<noteq> 0 \<Longrightarrow> 0 < x \<Longrightarrow> 0 < math_round x"
  using math_round_nonneg [of x] by simp

text \<open>The shares of the preview and the remainder of the request divide the stake by the price.\<close>

lemma preview_request:
  assumes p: "bet_preview f fc = Inr p" and f: "bf_amount f = Some stake" "0 < stake" "0 < op_shares p" and fees: "0 \<le> fc_betFeeBps fc"
    and bi: "bi = bet_request env wallet f n sec rt key stake (op_totalFee p) (op_shares p)"
  shows "bi_shares bi * bi_price bi + bi_remainder bi = stake * 100000000" "0 \<le> bi_remainder bi" "bi_remainder bi < bi_price bi"
    "bi_fee bi = op_protocolFee p + op_relayFee p" "0 \<le> op_protocolFee p"
proof -
  let ?q = "math_round (bf_price f * 100000000)"
  have price: "0 < bf_price f" "?q \<noteq> 0"
    using p f by (auto simp: bet_preview_def computeOrderPreview_def Let_def split: if_splits)
  then have q: "0 < ?q" using math_round_pos by simp
  have sh: "op_shares p = big_div (stake * 100000000) ?q"
    using p f price by (auto simp: bet_preview_def computeOrderPreview_def Let_def)
  have "op_shares p = stake * 100000000 div ?q" using f(2) q by (simp add: sh big_div_nonneg)
  then show "bi_shares bi * bi_price bi + bi_remainder bi = stake * 100000000"
    by (simp add: bi bet_request_def Let_def)
  show "0 \<le> bi_remainder bi" "bi_remainder bi < bi_price bi" using q by (simp_all add: bi bet_request_def Let_def)
  show "bi_fee bi = op_protocolFee p + op_relayFee p" "0 \<le> op_protocolFee p"
    using p f price fees by (auto simp: bi bet_request_def bet_preview_def computeOrderPreview_def Let_def big_div_nonneg
        pos_imp_zdiv_nonneg_iff)
qed

lemma bet_output_continues:
  assumes at: "spends_tip env c l s n" and sec: "sec = rx_secret c" and l': "ld_balance l' = left" "ld_nonce l' = ld_nonce l + 1"
  shows "continues c l' (bet_output env (rx_address c) n sec left sd tx)"
  unfolding continues_def free_at_def bet_output_fields spends_tip_note [OF at] sec l'
  using spends_tip_note(9) [OF at] by (simp add: sameAddress_def version_of_def spends_tip_note(4) [OF at, unfolded version_of_def])

lemma next_bet: "next_commitment c l (- a - b) =
    computeCommitment (rx_crypto c) (rx_secret c) (ld_balance l - a - b) (ld_nonce l + 1) (rx_address c)"
proof -
  have "ld_balance l + (- a - b) = ld_balance l - a - b" by simp
  then show ?thesis by (simp only: next_commitment_def)
qed

text \<open>
  The fee that the vault computes for a stake and injects into the circuit (\<open>authorizeBet\<close> of
  \<open>contracts/src/Vault.sol\<close>): a share of the stake, rounded down, and the flat relay fee.
\<close>

definition vault_protocol_fee :: "fee_config \<Rightarrow> int \<Rightarrow> int" where
  "vault_protocol_fee fc stake = stake * fc_betFeeBps fc div 10000"

lemma preview_fees:
  assumes "bet_preview f fc = Inr p" "bf_amount f = Some stake" "0 < stake" "0 \<le> fc_betFeeBps fc"
  shows "op_protocolFee p = vault_protocol_fee fc stake" "op_relayFee p = fc_relayGas fc"
    "op_totalFee p = vault_protocol_fee fc stake + fc_relayGas fc"
  using assms by (auto simp: bet_preview_def computeOrderPreview_def Let_def vault_protocol_fee_def big_div_nonneg split: if_splits)

text \<open>
  C4: a bet keeps the notes in step with the vault, and prepares its credit.  When a bet from
  the wallet's largest note goes through under the vault's fee configuration, one request was sent;
  it satisfies the bet circuit, and the fee it is proved with is the one the vault computes from the
  stake: the stake times the rate over ten thousand, rounded down, and the relay fee.  The vault
  takes the event that it emits with these two fees; and the browser then holds the lineage's new
  note, less exactly the stake and those fees, and a receipt of the vault's bet, so that every later
  credit of the bet finds what it needs.
\<close>

theorem bet_in_step:
  assumes at: "spends_tip env c l s0 n"
    and s0: "s0 = on_browser (\<lambda>b. snd (reconcileSpentStatus (vr_chain (fl_reads env)) (rx_address c) b)) s"
    and f: "bf_amount f = Some stake" "bet_preview f fc = Inr p" "0 \<le> fc_betFeeBps fc"
    and n: "getCurrentCashNote (rx_address c) (sn_browser s0) = Some n" "stake + op_totalFee p \<le> nt_balance n"
    and new: "map_of (ld_bets l) (own_nullifier c (ld_nonce l)) = None"
    and fresh: "unknown (next_commitment c l (- stake - op_totalFee p)) (loadAll (sn_browser s0))"
      "unknown (receipt_id (nt_nullifier n)) (loadAll (sn_browser s0))"
    and run: "submit_bet env (Some fc) (rx_address c) f s = (Inr tx, s')"
  shows "\<exists>bi nt r. sn_sent s' = sn_sent s0 @ [R_bet bi] \<and> bet_ok (rx_crypto c) bi \<and> bi_amount bi = stake \<and>
    bi_fee bi = stake * fc_betFeeBps fc div 10000 + fc_relayGas fc \<and>
    nt_balance nt = nt_balance n - stake - (stake * fc_betFeeBps fc div 10000 + fc_relayGas fc) \<and>
    ledger_step c vv l (bet_event bi (vault_protocol_fee fc stake) (fc_relayGas fc)) =
      Some (after_bet bi (vault_protocol_fee fc stake) l) \<and>
    flow_at env c (after_bet bi (vault_protocol_fee fc stake) l) r s' nt (placed_bet bi (vault_protocol_fee fc stake))"
proof -
  note tip = spends_tip_note [OF at]
  have go: "bet_from_note env (rx_address c) f stake (op_totalFee p) (op_shares p) n s0 = (Inr tx, s')" "0 < stake" "0 < op_shares p"
    using submit_bet_direct [OF run f(1,2) s0 n] by (auto simp: MIN_SHARES_def)
  obtain sec rt key bi where o: "open_note env n = Inr (sec, rt)" and bi: "bi = bet_request env (rx_address c) f n sec rt key stake (op_totalFee p) (op_shares p)"
    and sent: "sn_sent s' = sn_sent s0 @ [R_bet bi]"
    and ns: "loadAll (sn_browser s') = loadAll (markNoteSpent (nt_commitment n) (sn_browser s0)) @
       [bet_output env (rx_address c) n sec (nt_balance n - stake - op_totalFee p) (bf_side f) tx,
        new_receipt env (rx_address c) f n (bi_nullifier bi) key stake (op_shares p) tx]"
    using bet_from_note_done [OF go(1)] by metis
  have sec: "sec = rx_secret c" by (rule spends_tip_secret [OF at o])
  note q = preview_request [OF f(2,1) go(2,3) f(3) bi]
  have flds: "bi_nullifier bi = computeNullifier (rx_crypto c) (rx_secret c) (ld_nonce l)" "bi_amount bi = stake" "bi_shares bi = op_shares p"
    "bi_fee bi = op_totalFee p" "bi_new_commitment bi = next_commitment c l (- stake - op_totalFee p)" "bi_nullifier bi = nt_nullifier n"
    by (simp_all add: bi bet_request_def Let_def next_bet sec tip)
  have ok: "bet_ok (rx_crypto c) bi"
    using q n(2) by (simp add: bet_ok_def) (simp add: bi bet_request_def Let_def sec tip)
  let ?l = "after_bet bi (op_protocolFee p) l"
  have low: "map_of (ld_bets l) (lower (bi_nullifier bi)) = None" using new by (simp add: own_nullifier_def flds(1))
  have step: "ledger_step c vv l (bet_event bi (op_protocolFee p) (op_relayFee p)) = Some ?l"
    by (rule bet_event_steps [OF tip(8) flds(1) _ low]) (use go q in \<open>simp_all add: flds next_bet\<close>)
  let ?out = "bet_output env (rx_address c) n sec (nt_balance n - stake - op_totalFee p) (bf_side f) tx"
  let ?r = "new_receipt env (rx_address c) f n (bi_nullifier bi) key stake (op_shares p) tx"
  have com: "nt_commitment ?out = next_commitment c l (- stake - op_totalFee p)" by (simp add: next_bet sec tip)
  have out: "tip_in c ?l (loadAll (markNoteSpent (nt_commitment n) (sn_browser s0)) @ [?out]) ?out"
    by (rule tip_replaced [OF at bet_output_continues [OF at sec]]) (use fresh in \<open>simp_all only: com\<close>, simp_all add: flds tip)
  have nr: "\<not> known_as (nt_commitment ?out) ?r" by (simp add: known_as_def receipt_id_def computeCommitment_def toHex_def)
  have tip': "tip_in c ?l (loadAll (sn_browser s')) ?out"
    using tip_in_receipt [OF out _ nr] by (simp add: ns del: new_receipt_fields(2))
  have "\<not> known_as (receipt_id (bi_nullifier bi)) ?out" by (simp add: known_as_def receipt_id_def computeCommitment_def toHex_def)
  then have "filter (known_as (nt_id ?r)) (loadAll (sn_browser s')) = [?r]"
    using fresh(2) by (simp add: ns flds(6) unknown_filter note_marked) (simp add: known_as_def)
  then have "receipt_in c ?l (loadAll (sn_browser s')) ?r"
    by (simp add: receipt_in_def tip flds(1))
  then have "flow_at env c ?l ?r s' ?out (placed_bet bi (op_protocolFee p))"
    using at tip' q(5) by (simp add: flow_at_def spends_tip_def map_of_update placed_bet_def)
  moreover note fees = preview_fees [OF f(2,1) go(2) f(3)]
  moreover have "nt_balance ?out = nt_balance n - stake - (stake * fc_betFeeBps fc div 10000 + fc_relayGas fc)"
    by (simp add: fees vault_protocol_fee_def)
  moreover have "bi_fee bi = stake * fc_betFeeBps fc div 10000 + fc_relayGas fc"
    using flds(4) fees(3) by (simp add: vault_protocol_fee_def)
  ultimately show ?thesis using sent ok flds(2) step unfolding fees(1,2) by blast
qed

text \<open>A lineage of five dollars, and a bet of two and a half at a price of one half.\<close>

definition rich_note :: Note where
  "rich_note = plain_note (sample_note 5000000 1) BET_OUTPUT ''0x9'' 0 5000000 1 (sample_note 5000000 1) (sample_null 1) False 0 None (Some 2)"

definition rich_ledger :: ledger where
  "rich_ledger = \<lparr>ld_balance = 5000000, ld_nonce = 1, ld_live = True, ld_bets = [], ld_sales = []\<rparr>"

definition rich_session :: session where
  "rich_session = sample_session\<lparr>sn_browser := (sn_browser sample_session)\<lparr>bw_notes := Some [rich_note]\<rparr>\<rparr>"

definition rich_env :: flow_env where
  "rich_env = sample_env\<lparr>fl_reads := (fl_reads sample_env)\<lparr>vr_chain := \<lparr>ch_vault = False, ch_isSpent = (\<lambda>n. None), ch_betStatus = (\<lambda>n. None)\<rparr>\<rparr>\<rparr>"

definition rich_fees :: fee_config where
  "rich_fees = \<lparr>fc_betFeeBps = 100, fc_relayGas = 10000, fc_minBet = 1000000, fc_withdrawalFee = 0, fc_minWithdrawal = 1000000\<rparr>"

definition rich_form :: bet_form where
  "rich_form = \<lparr>bf_amount = Some 2500000, bf_order = O_MARKET, bf_price = 1 / 2, bf_side = YES, bf_sideLabel = None,
     bf_condition = toHex 7, bf_market = ''m'', bf_marketName = ''M'', bf_expiry = None, bf_combinable = 5000000, bf_takerFeeBps = 100\<rparr>"

lemma rich_loaded: "loadAll (sn_browser rich_session) = [rich_note]"
  by (simp add: rich_session_def loadAll_def)

lemma rich_reconciled: "on_browser (\<lambda>b. snd (reconcileSpentStatus (vr_chain (fl_reads rich_env)) w b)) rich_session = rich_session"
  by (simp add: rich_env_def reconcileSpentStatus_def on_browser_def)

lemma sample_ctx_fields:
  "rx_address sample_ctx = ''0x9''" "rx_index sample_ctx = 0" "rx_version sample_ctx = 2"
  "rx_crypto sample_ctx = sample_crypto" "rx_secret sample_ctx = ''0x7''"
  by (simp_all add: sample_ctx_def)

lemma rich_tip: "spends_tip rich_env sample_ctx rich_ledger rich_session rich_note"
  unfolding spends_tip_def tip_in_def rich_loaded sample_ctx_fields
  by (simp add: rich_note_def plain_note_def free_at_def known_as_def sameAddress_def rich_ledger_def version_of_def rich_env_def sample_env_def
      flip: sample_note_def sample_null_def)

lemma rich_cash: "getCurrentCashNote ''0x9'' (sn_browser rich_session) = Some rich_note"
  by (simp add: getCurrentCashNote_def by_balance_def getFreeNotes_def rich_loaded)
     (simp add: rich_note_def plain_note_def sameAddress_def)

lemma rich_preview: "\<exists>p. bet_preview rich_form rich_fees = Inr p \<and> op_protocolFee p = 25000 \<and> op_relayFee p = 10000 \<and>
    op_totalFee p = 35000 \<and> op_shares p = 5000000 \<and> op_effectiveMinBet p \<le> 2500000"
proof -
  have "math_round (50000000 :: rat) = 50000000" using math_round_int [of 50000000] by (simp del: math_round_int)
  then show ?thesis
    by (simp add: bet_preview_def rich_form_def rich_fees_def computeOrderPreview_def big_div_def POLY_MIN_ORDER_BET_def
        POLY_MIN_ORDER_USDC_def ORDER_FEE_HEADROOM_BPS_def)
qed

lemma rich_run: "\<exists>s'. submit_bet rich_env (Some rich_fees) ''0x9'' rich_form rich_session = (Inr ''t2'', s')"
proof -
  obtain p where p: "bet_preview rich_form rich_fees = Inr p" "op_totalFee p = 35000" "op_shares p = 5000000" "op_effectiveMinBet p \<le> 2500000"
    using rich_preview by blast
  have f: "bf_amount rich_form = Some 2500000" "bf_order rich_form = O_MARKET" "bf_combinable rich_form = 5000000"
    "bf_condition rich_form = toHex 7" "bf_price rich_form = 1 / 2" by (simp_all add: rich_form_def)
  have cover: "max_bettable 5000000 rich_fees \<ge> 2500000" by (simp add: max_bettable_def rich_fees_def big_div_def)
  have bal: "nt_balance rich_note = 5000000" by (simp add: rich_note_def plain_note_def)
  have o: "open_note rich_env rich_note = Inr (''0x7'', ''root'')" by (simp add: open_note_def rich_env_def sample_env_def)
  have key: "toFieldSafe (toHex 7) = Some (toHex 7)" by (simp add: toFieldSafe_def BigInt_toHex BN254_P_def)
  have price: "bi_price (bet_request rich_env w rich_form n sec rt k a b d) \<noteq> 0" for w n sec rt k a b d
    using math_round_int [of 50000000] by (simp add: bet_request_def Let_def f del: math_round_int)
  have rel: "fl_proves rich_env q" "\<exists>s2. relay_and_wait rich_env q s1 = (Inr ''t2'', s2)" for q s1
    by (simp_all add: rich_env_def sample_env_def relay_and_wait_def Let_def)
  have "\<exists>s'. bet_from_note rich_env ''0x9'' rich_form 2500000 35000 5000000 rich_note rich_session = (Inr ''t2'', s')"
    using rel(2) [of "R_bet (bet_request rich_env ''0x9'' rich_form rich_note ''0x7'' ''root'' (toHex 7) 2500000 35000 5000000)" rich_session]
    by (auto simp: bet_from_note_def bal o f key price rel(1) Let_def)
  then show ?thesis
    unfolding submit_bet_def f rich_reconciled Let_def using p cover
    by (simp add: rich_cash covering_note_def bal MIN_SHARES_def)
qed

theorem bet_in_step_witness:
  "\<exists>bi nt r s'. submit_bet rich_env (Some rich_fees) ''0x9'' rich_form rich_session = (Inr ''t2'', s') \<and>
     flow_at rich_env sample_ctx (after_bet bi 25000 rich_ledger) r s' nt (placed_bet bi 25000)"
proof -
  obtain s' where run: "submit_bet rich_env (Some rich_fees) ''0x9'' rich_form rich_session = (Inr ''t2'', s')" using rich_run by blast
  obtain p where p: "bet_preview rich_form rich_fees = Inr p" "op_protocolFee p = 25000" "op_totalFee p = 35000"
    using rich_preview by blast
  have new: "next_commitment sample_ctx rich_ledger (- 2500000 - op_totalFee p) = sample_note 2465000 2"
    unfolding next_bet sample_commitment p by (simp add: rich_ledger_def)
  have ne: "sample_note 5000000 1 \<noteq> sample_note 2465000 2"
    by (simp add: sample_note_def computeCommitment_def sample_crypto_def toHex_inject)
  have nr: "sample_note 5000000 1 \<noteq> receipt_id k" for k
    by (simp add: sample_note_def computeCommitment_def toHex_def receipt_id_def)
  have fee: "vault_protocol_fee rich_fees 2500000 = 25000" by (simp add: vault_protocol_fee_def rich_fees_def)
  have "\<exists>bi nt r. sn_sent s' = sn_sent rich_session @ [R_bet bi] \<and> bet_ok (rx_crypto sample_ctx) bi \<and> bi_amount bi = 2500000 \<and>
    bi_fee bi = 2500000 * fc_betFeeBps rich_fees div 10000 + fc_relayGas rich_fees \<and>
    nt_balance nt = nt_balance rich_note - 2500000 - (2500000 * fc_betFeeBps rich_fees div 10000 + fc_relayGas rich_fees) \<and>
    ledger_step sample_ctx sample_view rich_ledger (bet_event bi (vault_protocol_fee rich_fees 2500000) (fc_relayGas rich_fees)) =
      Some (after_bet bi (vault_protocol_fee rich_fees 2500000) rich_ledger) \<and>
    flow_at rich_env sample_ctx (after_bet bi (vault_protocol_fee rich_fees 2500000) rich_ledger) r s' nt
      (placed_bet bi (vault_protocol_fee rich_fees 2500000))"
  proof (rule bet_in_step [OF rich_tip _ _ p(1), where stake = 2500000 and s = rich_session and tx = "''t2''"])
    show "rich_session = on_browser (\<lambda>b. snd (reconcileSpentStatus (vr_chain (fl_reads rich_env)) (rx_address sample_ctx) b)) rich_session"
      by (simp add: rich_reconciled)
    show "unknown (next_commitment sample_ctx rich_ledger (- 2500000 - op_totalFee p)) (loadAll (sn_browser rich_session))"
      unfolding new rich_loaded using ne by (simp add: known_as_def rich_note_def plain_note_def)
    show "unknown (receipt_id (nt_nullifier rich_note)) (loadAll (sn_browser rich_session))"
      unfolding rich_loaded using nr by (simp add: known_as_def rich_note_def plain_note_def)
    show "2500000 + op_totalFee p \<le> nt_balance rich_note" by (simp add: p rich_note_def plain_note_def)
  qed (use run rich_cash in \<open>simp_all add: rich_form_def rich_fees_def rich_ledger_def sample_ctx_fields\<close>)
  then show ?thesis using run unfolding fee by blast
qed

end
