(* ===== verification/Withdraw_Props.thy ===== *)
theory Withdraw_Props
  imports Money_Flows_Props
begin

section \<open>Withdrawals\<close>

text \<open>
  A withdrawal from the cash note refines the vault's step and keeps a lineage with an
  open position alive; and two ways in which the page sends a withdrawal that the vault refuses.
\<close>

subsection \<open>The refinement\<close>

text \<open>What the withdrawal circuit states (\<open>circuits/groth16/withdrawal.circom\<close>).\<close>

definition withdraw_ok :: "crypto \<Rightarrow> withdrawal_inputs \<Rightarrow> bool" where
  "withdraw_ok cx i \<longleftrightarrow>
     wi_leaf i = computeCommitment cx (wi_secret i) (wi_balance i) (wi_nonce i) (wi_owner i) \<and>
     wi_nullifier i = computeNullifier cx (wi_secret i) (wi_nonce i) \<and> wi_amount i \<le> wi_balance i \<and>
     wi_new_commitment i = (if wi_amount i < wi_balance i
       then computeCommitment cx (wi_secret i) (wi_balance i - wi_amount i) (wi_nonce i + 1) (wi_owner i) else ZERO_NULL)"

lemma zero_commitment: "ZERO_COMMITMENT = ZERO_NULL"
  by (simp add: ZERO_COMMITMENT_def ZERO_NULL_def)

lemma submit_withdrawal_direct:
  assumes run: "submit_withdrawal env fees wallet v (Some amt) s = (Inr tx, s')" and n: "wv_cashNote v = Some n" "amt \<le> nt_balance n"
    and s0: "s0 = on_browser (\<lambda>b. snd (reconcileSpentStatus (vr_chain (fl_reads env)) wallet b)) s"
  obtains sec rt wi where "open_note env n = Inr (sec, rt)" "0 < amt"
    "wi = withdrawal_request env wallet n sec rt (effective_withdrawal (wv_open v) n amt)"
    "sn_sent s' = sn_sent s0 @ [R_withdrawal wi]"
    "loadAll (sn_browser s') = loadAll (markNoteSpent (nt_commitment n) (sn_browser s0)) @
       (if nt_balance n > effective_withdrawal (wv_open v) n amt
        then [next_note env BET_OUTPUT wallet n sec (nt_balance n - effective_withdrawal (wv_open v) n amt) tx] else [])"
proof -
  have pos: "0 < amt" using run n by (auto simp: submit_withdrawal_def invalid_amount_def split: if_splits)
  obtain sec rt where o: "open_note env n = Inr (sec, rt)"
    using run n by (auto simp: submit_withdrawal_def merged_to_withdraw_def Let_def split: if_splits sum.splits)
  define wi where "wi = withdrawal_request env wallet n sec rt (effective_withdrawal (wv_open v) n amt)"
  have rest: "sn_sent s' = sn_sent s0 @ [R_withdrawal wi] \<and>
      loadAll (sn_browser s') = loadAll (markNoteSpent (nt_commitment n) (sn_browser s0)) @
       (if nt_balance n > effective_withdrawal (wv_open v) n amt
        then [next_note env BET_OUTPUT wallet n sec (nt_balance n - effective_withdrawal (wv_open v) n amt) tx] else [])"
    using run n o
    by (auto simp: submit_withdrawal_def merged_to_withdraw_def relay_and_wait_def markWithdrawSubmitted_def clearWithdrawMarker_def
        s0 wi_def Let_def split: if_splits option.splits)
  show thesis by (rule that [OF o pos wi_def]) (use rest in auto)
qed

lemma effective_withdrawal_cases:
  assumes "amt \<le> nt_balance n" "0 < amt"
  shows "effective_withdrawal opn n amt \<le> nt_balance n"
    and "nt_depositIndex n \<in> set opn \<Longrightarrow> 1 < nt_balance n \<Longrightarrow> effective_withdrawal opn n amt < nt_balance n"
    and "0 < effective_withdrawal opn n amt"
  using assms by (auto simp: effective_withdrawal_def)

definition after_withdrawal :: "int \<Rightarrow> ledger \<Rightarrow> ledger" where
  "after_withdrawal out l =
     (if out < ld_balance l then l\<lparr>ld_balance := ld_balance l - out, ld_nonce := ld_nonce l + 1\<rparr>
      else l\<lparr>ld_balance := 0, ld_live := False\<rparr>)"

text \<open>
  C6: a withdrawal keeps the notes in step with the vault, and never strands a
  position.  When a withdrawal from the cash note goes through, its request satisfies the
  circuit and is for the amount asked for, less one micro-unit where that would empty the note of a deposit
  with an open position, the vault takes its event, and the browser holds the lineage's new note, or
  none where the note was emptied; and a note of a deposit with an open position is
  not emptied if it is worth more than one micro-unit, so the position can still be credited.
\<close>

theorem withdrawal_in_step:
  assumes at: "spends_tip env c l s0 n"
    and s0: "s0 = on_browser (\<lambda>b. snd (reconcileSpentStatus (vr_chain (fl_reads env)) (rx_address c) b)) s"
    and n: "wv_cashNote v = Some n" "amt \<le> nt_balance n"
    and amount: "out = (if nt_depositIndex n \<in> set (wv_open v) \<and> nt_balance n \<le> amt \<and> 1 < nt_balance n
      then nt_balance n - 1 else amt)"
    and fresh: "unknown (next_commitment c l (- out)) (loadAll (sn_browser s0))" and nonzero: "next_commitment c l (- out) \<noteq> ZERO_NULL"
    and run: "submit_withdrawal env fees (rx_address c) v (Some amt) s = (Inr tx, s')"
  shows "\<exists>wi. sn_sent s' = sn_sent s0 @ [R_withdrawal wi] \<and> withdraw_ok (rx_crypto c) wi \<and> wi_amount wi = out \<and>
    ledger_step c vv l (EvWithdraw (wi_nullifier wi) to out (wi_new_commitment wi)) = Some (after_withdrawal out l) \<and>
    (if out < nt_balance n then in_step c (after_withdrawal out l) (sn_browser s')
     else filter (free_at (rx_address c) (rx_index c)) (loadAll (sn_browser s')) = []) \<and>
    (nt_depositIndex n \<in> set (wv_open v) \<and> 1 < nt_balance n \<longrightarrow> out < nt_balance n)"
proof -
  have out: "out = effective_withdrawal (wv_open v) n amt" by (simp add: amount effective_withdrawal_def)
  note tip = spends_tip_note [OF at]
  obtain sec rt wi where o: "open_note env n = Inr (sec, rt)" and pos: "0 < amt"
    and wi: "wi = withdrawal_request env (rx_address c) n sec rt out" and sent: "sn_sent s' = sn_sent s0 @ [R_withdrawal wi]"
    and ns: "loadAll (sn_browser s') = loadAll (markNoteSpent (nt_commitment n) (sn_browser s0)) @
       (if nt_balance n > out then [next_note env BET_OUTPUT (rx_address c) n sec (nt_balance n - out) tx] else [])"
    using submit_withdrawal_direct [OF run n s0] unfolding out by metis
  have sec: "sec = rx_secret c" by (rule spends_tip_secret [OF at o])
  have le: "out \<le> nt_balance n" and keep: "nt_depositIndex n \<in> set (wv_open v) \<and> 1 < nt_balance n \<longrightarrow> out < nt_balance n"
    using effective_withdrawal_cases [OF n(2) pos] by (auto simp: out)
  have com: "computeCommitment (rx_crypto c) (rx_secret c) (ld_balance l - out) (ld_nonce l + 1) (rx_address c) = next_commitment c l (- out)"
    by (simp add: next_commitment_def)
  have newc: "wi_new_commitment wi = (if out < ld_balance l then next_commitment c l (- out) else ZERO_NULL)"
    and flds: "wi_amount wi = out" "wi_nullifier wi = computeNullifier (rx_crypto c) (rx_secret c) (ld_nonce l)"
    by (simp_all add: wi withdrawal_request_def Let_def zero_commitment sec tip com)
  have ok: "withdraw_ok (rx_crypto c) wi"
    using le by (simp add: withdraw_ok_def) (simp add: wi withdrawal_request_def Let_def zero_commitment sec tip)
  have mine: "mine c (wi_nullifier wi) l" by (simp add: mine_def own_nullifier_def flds tip)
  have step: "ledger_step c vv l (EvWithdraw (wi_nullifier wi) to out (wi_new_commitment wi)) = Some (after_withdrawal out l)"
    using mine nonzero by (simp add: ledger_step_def newc after_withdrawal_def advance_def com)
  have "if out < nt_balance n then in_step c (after_withdrawal out l) (sn_browser s')
     else filter (free_at (rx_address c) (rx_index c)) (loadAll (sn_browser s')) = []"
  proof (cases "out < nt_balance n")
    case True
    let ?new = "next_note env BET_OUTPUT (rx_address c) n sec (nt_balance n - out) tx"
    have c': "continues c (after_withdrawal out l) ?new"
      using True unfolding continues_def free_at_def next_note_fields spends_tip_note(1,2,3,7) [OF at] sec
      by (simp add: sameAddress_def tip after_withdrawal_def version_of_def tip(4) [unfolded version_of_def])
    have "tip_in c (after_withdrawal out l) (loadAll (sn_browser s')) ?new"
      using tip_replaced [OF at c'] fresh True by (simp add: ns sec tip com)
    then show ?thesis using True tip by (auto simp: in_step_def after_withdrawal_def)
  next
    case False
    have "tip_in c l (loadAll (sn_browser s0)) n" using at by (simp add: spends_tip_def)
    from tip_spent [OF this] show ?thesis using False by (simp add: ns)
  qed
  then show ?thesis using sent ok flds step keep by blast
qed

text \<open>The five dollars of a lineage with an open position, all requested.\<close>

definition rich_view :: withdraw_view where
  "rich_view = \<lparr>wv_cashNote = Some rich_note, wv_cashBalance = 5000000, wv_open = [0], wv_free = [rich_note], wv_vaultUsdc = 9000000\<rparr>"

lemma rich_fields: "nt_balance rich_note = 5000000" "nt_depositIndex rich_note = 0" "nt_commitment rich_note = sample_note 5000000 1"
  "nt_nullifier rich_note = sample_null 1" "nt_id rich_note = sample_note 5000000 1"
  by (simp_all add: rich_note_def plain_note_def)

lemma rich_view_open: "\<not> invalid_amount rich_view m (Some 5000000) \<longleftrightarrow> m \<le> 5000000" "\<not> fragmented rich_view 5000000"
  "\<not> hard_blocked rich_view 5000000"
  by (auto simp: invalid_amount_def fragmented_def hard_blocked_def safe_max_def max_single_step_def top_sum_def rich_view_def by_balance_def
      rich_fields MAX_CONSOLIDATE_INPUTS_def)

lemma rich_opens: "open_note rich_env rich_note = Inr (''0x7'', ''root'')"
  by (simp add: open_note_def rich_env_def sample_env_def)

lemma rich_relays: "fl_proves rich_env q" "\<exists>s2. relay_and_wait rich_env q s1 = (Inr ''t2'', s2)"
  by (simp_all add: rich_env_def sample_env_def relay_and_wait_def Let_def)

lemma rich_withdrawal_run:
  "\<exists>s'. submit_withdrawal rich_env (Some rich_fees) ''0x9'' rich_view (Some 5000000) rich_session = (Inr ''t2'', s')"
proof -
  have v: "wv_cashNote rich_view = Some rich_note" by (simp add: rich_view_def)
  have m: "fc_minWithdrawal rich_fees \<le> 5000000" by (simp add: rich_fees_def)
  let ?wi = "withdrawal_request rich_env ''0x9'' rich_note ''0x7'' ''root'' (effective_withdrawal (wv_open rich_view) rich_note 5000000)"
  obtain s2 where "relay_and_wait rich_env (R_withdrawal ?wi) (markWithdrawSubmitted ''0x9'' (nt_nullifier rich_note) rich_session) = (Inr ''t2'', s2)"
    using rich_relays(2) by blast
  then show ?thesis using rich_view_open m
    by (simp add: submit_withdrawal_def v rich_reconciled merged_to_withdraw_def rich_fields rich_opens rich_relays(1) Let_def)
qed

theorem withdrawal_in_step_witness:
  "\<exists>wi s'. submit_withdrawal rich_env (Some rich_fees) ''0x9'' rich_view (Some 5000000) rich_session = (Inr ''t2'', s') \<and>
     sn_sent s' = sn_sent rich_session @ [R_withdrawal wi] \<and> wi_amount wi = 4999999 \<and>
     in_step sample_ctx (after_withdrawal 4999999 rich_ledger) (sn_browser s')"
proof -
  obtain s' where run: "submit_withdrawal rich_env (Some rich_fees) ''0x9'' rich_view (Some 5000000) rich_session = (Inr ''t2'', s')"
    using rich_withdrawal_run by blast
  have new: "next_commitment sample_ctx rich_ledger (- 4999999) = sample_note 1 2"
    using sample_commitment [of 1 2] by (simp add: next_commitment_def rich_ledger_def)
  have ne: "sample_note 5000000 1 \<noteq> sample_note 1 2"
    by (simp add: sample_note_def computeCommitment_def sample_crypto_def toHex_inject)
  have "\<exists>wi. sn_sent s' = sn_sent rich_session @ [R_withdrawal wi] \<and> withdraw_ok (rx_crypto sample_ctx) wi \<and> wi_amount wi = 4999999 \<and>
    ledger_step sample_ctx sample_view rich_ledger (EvWithdraw (wi_nullifier wi) ''a'' 4999999 (wi_new_commitment wi)) =
      Some (after_withdrawal 4999999 rich_ledger) \<and>
    (if 4999999 < nt_balance rich_note then in_step sample_ctx (after_withdrawal 4999999 rich_ledger) (sn_browser s')
     else filter (free_at (rx_address sample_ctx) (rx_index sample_ctx)) (loadAll (sn_browser s')) = []) \<and>
    (nt_depositIndex rich_note \<in> set (wv_open rich_view) \<and> 1 < nt_balance rich_note \<longrightarrow> 4999999 < nt_balance rich_note)"
  proof (rule withdrawal_in_step [OF rich_tip, where v = rich_view and amt = 5000000 and s = rich_session and tx = "''t2''"
        and fees = "Some rich_fees"])
    show "rich_session = on_browser (\<lambda>b. snd (reconcileSpentStatus (vr_chain (fl_reads rich_env)) (rx_address sample_ctx) b)) rich_session"
      by (simp add: rich_reconciled)
    show "unknown (next_commitment sample_ctx rich_ledger (- 4999999)) (loadAll (sn_browser rich_session))"
      unfolding new rich_loaded using ne by (simp add: known_as_def rich_fields)
    show "next_commitment sample_ctx rich_ledger (- 4999999) \<noteq> ZERO_NULL" unfolding new by (rule sample_note_nonzero)
    show "submit_withdrawal rich_env (Some rich_fees) (rx_address sample_ctx) rich_view (Some 5000000) rich_session = (Inr ''t2'', s')"
      using run by (simp add: sample_ctx_fields)
  qed (simp_all add: rich_view_def rich_fields effective_withdrawal_def)
  then show ?thesis using run by (auto simp: rich_fields)
qed

subsection \<open>Requests that the vault refuses\<close>

lemma sends_from_cash_note:
  assumes n: "wv_cashNote v = Some n" "amt \<le> nt_balance n" and o: "open_note env n = Inr (sec, rt)" and pr: "\<And>q. fl_proves env q"
    and ok: "\<not> invalid_amount v (fc_minWithdrawal fc) (Some amt)" "\<not> fragmented v amt" "\<not> hard_blocked v amt"
  shows "sn_sent (snd (submit_withdrawal env (Some fc) wallet v (Some amt) s)) =
    sn_sent s @ [R_withdrawal (withdrawal_request env wallet n sec rt (effective_withdrawal (wv_open v) n amt))]"
  using assms
  by (auto simp: submit_withdrawal_def merged_to_withdraw_def relay_and_wait_def markWithdrawSubmitted_def clearWithdrawMarker_def Let_def
      split: option.splits)

text \<open>
  The check against the chain before a withdrawal does not change which note is
  spent.  The page reconciles first, so that it never picks a spent note, but then it spends the cash
  note that it read when it was drawn, also where the reconciliation has just marked that note spent.
\<close>

lemma stale_note_withdrawn:
  assumes n: "wv_cashNote v = Some n" "amt \<le> nt_balance n" and o: "open_note env n = Inr (sec, rt)" and pr: "\<And>q. fl_proves env q"
    and ok: "\<not> invalid_amount v (fc_minWithdrawal fc) (Some amt)" "\<not> fragmented v amt" "\<not> hard_blocked v amt"
    and spent: "getFreeNotes wallet (snd (reconcileSpentStatus (vr_chain (fl_reads env)) wallet (sn_browser s))) = []"
  shows "\<exists>wi. sn_sent (snd (submit_withdrawal env (Some fc) wallet v (Some amt) s)) = sn_sent s @ [R_withdrawal wi] \<and>
    wi_leaf wi = nt_commitment n \<and> wi_nullifier wi = nt_nullifier n"
  by (rule exI [of _ "withdrawal_request env wallet n sec rt (effective_withdrawal (wv_open v) n amt)"])
    (simp add: sends_from_cash_note [OF n o pr ok], simp add: withdrawal_request_def Let_def)

definition spent_env :: flow_env where
  "spent_env = rich_env\<lparr>fl_reads := (fl_reads rich_env)\<lparr>vr_chain := \<lparr>ch_vault = True, ch_isSpent = (\<lambda>n. Some True), ch_betStatus = (\<lambda>n. None)\<rparr>\<rparr>\<rparr>"

lemma spent_env_free: "getFreeNotes ''0x9'' (snd (reconcileSpentStatus (vr_chain (fl_reads spent_env)) ''0x9'' (sn_browser rich_session))) = []"
proof -
  have nz: "isNonZero (sample_null 1)"
    by (simp add: isNonZero_def sample_null_def computeNullifier_def sample_crypto_def BigInt_toHex) (simp add: toHex_def)
  have ne: "sample_null 1 \<noteq> ''''" by (simp add: sample_null_def computeNullifier_def toHex_def)
  have "mark_spent [lower (sample_null 1)] rich_note = rich_note\<lparr>nt_spent := True\<rparr>"
    using ne by (simp add: mark_spent_def rich_note_def plain_note_def)
  moreover have k: "nt_spent rich_note = False" "nt_kind rich_note = BET_OUTPUT" "sameAddress (nt_owner rich_note) ''0x9''"
    by (simp_all add: rich_note_def plain_note_def sameAddress_def)
  moreover have "vr_chain (fl_reads spent_env) = \<lparr>ch_vault = True, ch_isSpent = (\<lambda>n. Some True), ch_betStatus = (\<lambda>n. None)\<rparr>"
    by (simp add: spent_env_def)
  moreover have "heal_receipt ch w (rich_note\<lparr>nt_spent := True\<rparr>) = rich_note\<lparr>nt_spent := True\<rparr>" for ch w
    using k by (simp add: heal_cash)
  moreover have "rich_note\<lparr>nt_spent := True\<rparr> \<noteq> rich_note"
  proof
    assume "rich_note\<lparr>nt_spent := True\<rparr> = rich_note"
    then have "nt_spent (rich_note\<lparr>nt_spent := True\<rparr>) = nt_spent rich_note" by (rule arg_cong)
    then show False using k(1) by simp
  qed
  ultimately show ?thesis using nz
    by (simp add: reconcileSpentStatus_def rich_loaded rich_fields fetchSpentNullifiers_def Let_def getFreeNotes_def)
qed

lemma stale_note_withdrawn_witness:
  "\<exists>wi. sn_sent (snd (submit_withdrawal spent_env (Some rich_fees) ''0x9'' rich_view (Some 5000000) rich_session)) =
     sn_sent rich_session @ [R_withdrawal wi] \<and> wi_leaf wi = nt_commitment rich_note \<and> wi_nullifier wi = nt_nullifier rich_note"
proof (rule stale_note_withdrawn [where sec = "''0x7''" and rt = "''root''"])
  show "open_note spent_env rich_note = Inr (''0x7'', ''root'')" by (simp add: open_note_def spent_env_def rich_env_def sample_env_def)
  show "fl_proves spent_env q" for q by (simp add: spent_env_def rich_env_def sample_env_def)
  show "\<not> invalid_amount rich_view (fc_minWithdrawal rich_fees) (Some 5000000)" using rich_view_open by (simp add: rich_fees_def)
qed (simp_all add: rich_view_open spent_env_free, simp_all add: rich_view_def rich_fields)

text \<open>
  Keeping a lineage alive can take the withdrawal below the vault's minimum.  Where the only
  cash note belongs to an open position and holds exactly the minimum, a request for all
  of it passes every check of the page, and the request sent is for one micro-unit less
  than the minimum.
\<close>

lemma dust_below_minimum:
  assumes v: "v = withdraw_page wallet usdc b" and free: "getFreeNotes wallet b = [n]"
    and opn: "map nt_depositIndex (getOpenBetReceipts wallet b) = [nt_depositIndex n]"
    and bal: "nt_balance n = fc_minWithdrawal fc" "1 < nt_balance n"
    and o: "open_note env n = Inr (sec, rt)" and pr: "\<And>q. fl_proves env q"
  shows "\<exists>wi. sn_sent (snd (submit_withdrawal env (Some fc) wallet v (Some (fc_minWithdrawal fc)) s)) = sn_sent s @ [R_withdrawal wi] \<and>
    wi_amount wi = fc_minWithdrawal fc - 1"
proof -
  have w: "wv_cashNote v = Some n" "wv_cashBalance v = nt_balance n" "wv_open v = [nt_depositIndex n]" "wv_free v = [n]"
    using free opn by (simp_all add: v withdraw_page_def getCurrentCashNote_def by_balance_def getCashBalance_def)
  have ok: "\<not> invalid_amount v (fc_minWithdrawal fc) (Some (fc_minWithdrawal fc))" "\<not> fragmented v (fc_minWithdrawal fc)"
    "\<not> hard_blocked v (fc_minWithdrawal fc)"
    using bal by (simp_all add: invalid_amount_def fragmented_def hard_blocked_def safe_max_def max_single_step_def top_sum_def w
        by_balance_def MAX_CONSOLIDATE_INPUTS_def)
  show ?thesis
    by (rule exI [of _ "withdrawal_request env wallet n sec rt (effective_withdrawal (wv_open v) n (fc_minWithdrawal fc))"])
      (use bal in \<open>simp add: sends_from_cash_note [OF w(1) _ o pr ok]\<close>,
       use bal w in \<open>simp add: withdrawal_request_def effective_withdrawal_def Let_def\<close>)
qed

lemma dust_below_minimum_witness:
  "\<exists>wi. sn_sent (snd (submit_withdrawal sample_env (Some (rich_fees\<lparr>fc_minWithdrawal := 897\<rparr>)) ''0x9''
      (withdraw_page ''0x9'' 5000 (sn_browser sample_session)) (Some 897) sample_session)) = sn_sent sample_session @ [R_withdrawal wi] \<and>
     wi_amount wi = 896"
proof -
  let ?fc = "rich_fees\<lparr>fc_minWithdrawal := 897\<rparr>"
  have b: "getFreeNotes ''0x9'' (sn_browser sample_session) = [sample_free]"
    "map nt_depositIndex (getOpenBetReceipts ''0x9'' (sn_browser sample_session)) = [nt_depositIndex sample_free]"
    by (simp_all add: getFreeNotes_def getOpenBetReceipts_def loadAll_def sample_session_def)
      (simp_all add: sample_free_def sample_receipt_def plain_note_def sameAddress_def)
  have o: "open_note sample_env sample_free = Inr (''0x7'', ''root'')" by (simp add: open_note_def sample_env_def)
  have pr: "fl_proves sample_env q" for q by (simp add: sample_env_def)
  have bal: "nt_balance sample_free = fc_minWithdrawal ?fc" "1 < nt_balance sample_free" by (simp_all add: sample_free_def plain_note_def)
  show ?thesis using dust_below_minimum [OF refl b bal o pr, of 5000 sample_session] by simp
qed

end
