(* ===== verification/Deposit_Props.thy ===== *)
theory Deposit_Props
  imports Money_Flows_Props
begin

section \<open>Deposits, amounts and limits\<close>

text \<open>
  The amount field reads back what it shows, the largest bet the form allows is
  covered, and the deposit page, run as a state machine, deposits one commitment and
  saves exactly its note.
\<close>

subsection \<open>Amounts\<close>

lemma strip_zeros_split: "\<exists>k. s = strip_zeros s @ replicate k (CHR ''0'')"
proof -
  have "takeWhile (\<lambda>c. c = CHR ''0'') (rev s) = replicate (length (takeWhile (\<lambda>c. c = CHR ''0'') (rev s))) (CHR ''0'')"
    by (rule replicate_eqI) (auto dest: set_takeWhileD)
  then have "rev s = replicate (length (takeWhile (\<lambda>c. c = CHR ''0'') (rev s))) (CHR ''0'') @ dropWhile (\<lambda>c. c = CHR ''0'') (rev s)"
    by (metis takeWhile_dropWhile_id)
  then have "s = rev (dropWhile (\<lambda>c. c = CHR ''0'') (rev s)) @ replicate (length (takeWhile (\<lambda>c. c = CHR ''0'') (rev s))) (CHR ''0'')"
    by (metis rev_append rev_replicate rev_rev_ident)
  then show ?thesis unfolding strip_zeros_def by blast
qed

text \<open>The six digits of the fraction.\<close>

lemma fraction_digits:
  assumes "0 \<le> f" "f < 1000000" and p: "p = pad_start 6 (CHR ''0'') (int_text f)"
  shows "length p = 6" "list_all is_digit p" "digits_value p = f"
proof -
  have t: "int_text f = to_string10 (nat f)" using assms by (simp add: int_text_def)
  have len: "length (to_string10 (nat f)) \<le> 6" using length_to_string10 [of "nat f" 5] assms by simp
  then show "length p = 6" by (simp add: p t pad_start_def)
  show "list_all is_digit p" using digits_to_string10 [of "nat f"] dot_not_digit(2)
    unfolding p t pad_start_def list_all_append by (auto simp: list_all_iff)
  show "digits_value p = f"
    unfolding p t pad_start_def digits_value_zeros using assms by (simp add: digits_value_def parse_to_string10)
qed

text \<open>
  The amount field round-trips: what the form shows for an amount, read back, is that amount.
\<close>

lemma amount_field_roundtrip:
  assumes m: "0 \<le> m"
  shows "parseUsdcToMicro (formatUsdcInput m) = Some m"
proof -
  let ?w = "m div 1000000" and ?f = "m mod 1000000"
  define p where "p = pad_start 6 (CHR ''0'') (int_text ?f)"
  define q where "q = strip_zeros p"
  have whole: "big_div m 1000000 = ?w" using m by (simp add: big_div_nonneg)
  have f: "m - ?w * 1000000 = ?f" by (simp add: minus_div_mult_eq_mod)
  note p = fraction_digits [OF _ _ p_def]
  have p6: "length p = 6" "list_all is_digit p" "digits_value p = ?f" by (rule p; simp)+
  obtain k where k: "p = q @ replicate k (CHR ''0'')" using strip_zeros_split [of p] q_def by blast
  have qd: "list_all is_digit q" using p6(2) k by (simp add: list_all_iff)
  have w: "int_text ?w = to_string10 (nat ?w)" using m by (simp add: int_text_def pos_imp_zdiv_neg_iff)
  have wd: "list_all is_digit (int_text ?w)" "int_text ?w \<noteq> ''''" "digits_value (int_text ?w) = ?w"
    using digits_to_string10 [of "nat ?w"] to_string10_head [of "nat ?w"] m
    by (simp_all add: w digits_value_def parse_to_string10 pos_imp_zdiv_nonneg_iff)
  have sp: "list_all (\<lambda>c. \<not> js_space c) x" if "list_all is_digit x" for x
    using that not_space_digit by (auto simp: list_all_iff)
  show ?thesis
  proof (cases "q = ''''")
    case True
    have "digits_value p = 0" using k True digits_value_zeros [of k "''''"] by (simp add: digits_value_def)
    then have "?f = 0" using p6(3) by simp
    then have m': "?w * 1000000 = m" by (metis add.right_neutral div_mult_mod_eq)
    have shown: "formatUsdcInput m = int_text ?w"
      using True by (simp add: formatUsdcInput_def whole f Let_def flip: p_def q_def)
    show ?thesis
      unfolding parseUsdcToMicro_def shown trim_digits [OF sp [OF wd(1)]] Let_def takeWhile_digits(3,4) [OF wd(1)] wd(3) m'
      using wd(2) by simp
  next
    case False
    have shown: "formatUsdcInput m = int_text ?w @ CHR ''.'' # q"
      using False by (simp add: formatUsdcInput_def whole f Let_def flip: p_def q_def)
    have "\<not> js_space (CHR ''.'')" by (simp add: js_space_def)
    then have tr: "js_trim (int_text ?w @ CHR ''.'' # q) = int_text ?w @ CHR ''.'' # q"
      using sp [OF wd(1)] sp [OF qd] by (intro trim_digits) simp
    have len: "length q + k = 6" using p6(1) k by simp
    have z: "''000000'' = replicate 6 (CHR ''0'')" by (simp add: numeral_eq_Suc)
    have "take 6 (q @ ''000000'') = q @ replicate (6 - length q) (CHR ''0'')" using len by (simp add: z)
    then have tk: "take 6 (q @ ''000000'') = p" using len k by (metis diff_add_inverse)
    show ?thesis
      unfolding parseUsdcToMicro_def shown tr takeWhile_digits [OF wd(1)] Let_def list.case tk p6(3) wd(3)
      using qd len by (simp add: div_mult_mod_eq)
  qed
qed

lemma amount_field_roundtrip_witness: "parseUsdcToMicro (formatUsdcInput 2500000) = Some 2500000"
  by (rule amount_field_roundtrip) simp

subsection \<open>Limits of the forms\<close>

lemma preview_fee:
  "bet_preview f fc = Inr p \<Longrightarrow> bf_amount f = Some stake \<Longrightarrow> 0 < stake \<Longrightarrow> 0 \<le> fc_betFeeBps fc \<Longrightarrow>
     op_totalFee p = stake * fc_betFeeBps fc div 10000 + fc_relayGas fc"
  by (auto simp: bet_preview_def computeOrderPreview_def Let_def big_div_nonneg split: if_splits)

text \<open>
  The largest bet the form allows is covered with its fees by the notes that one merge can combine.
\<close>

lemma max_bettable_covered:
  assumes p: "bet_preview f fc = Inr p" "bf_amount f = Some stake" "0 < stake" and fees: "0 \<le> fc_betFeeBps fc"
    and le: "stake \<le> max_bettable (combinable_balance wallet b) fc"
  shows "stake + op_totalFee p \<le> total_balance (take MAX_CONSOLIDATE_INPUTS (by_balance (getFreeNotes wallet b)))"
proof -
  let ?B = "combinable_balance wallet b" and ?k = "fc_betFeeBps fc" and ?g = "fc_relayGas fc"
  have big: "?g < ?B" using le p(3) by (auto simp: max_bettable_def split: if_splits)
  have "stake \<le> (?B - ?g) * 10000 div (10000 + ?k)"
    using le big fees by (simp add: max_bettable_def big_div_nonneg)
  then have "stake * (10000 + ?k) \<le> ((?B - ?g) * 10000 div (10000 + ?k)) * (10000 + ?k)"
    using fees by (intro mult_right_mono) simp_all
  also have "\<dots> \<le> (?B - ?g) * 10000" using fees by (simp flip: minus_mod_eq_div_mult)
  finally have "stake * (10000 + ?k) \<le> (?B - ?g) * 10000" .
  then have "stake * ?k div 10000 \<le> ((?B - ?g) - stake) * 10000 div 10000"
    by (intro zdiv_mono1) (simp_all add: algebra_simps)
  then show ?thesis using preview_fee [OF p fees] by (simp add: combinable_balance_def)
qed

lemma max_bettable_covered_witness:
  "2500000 + 35000 \<le> total_balance (take MAX_CONSOLIDATE_INPUTS (by_balance (getFreeNotes ''0x9'' (sn_browser rich_session))))"
proof -
  obtain p where p: "bet_preview rich_form rich_fees = Inr p" "op_totalFee p = 35000" using rich_preview by blast
  have "combinable_balance ''0x9'' (sn_browser rich_session) = 5000000"
    by (simp add: combinable_balance_def by_balance_def getFreeNotes_def rich_loaded MAX_CONSOLIDATE_INPUTS_def)
       (simp add: rich_note_def plain_note_def sameAddress_def)
  then have "(2500000 :: int) \<le> max_bettable (combinable_balance ''0x9'' (sn_browser rich_session)) rich_fees"
    by (simp add: max_bettable_def rich_fees_def big_div_def)
  from max_bettable_covered [OF p(1) _ _ _ this] show ?thesis by (simp add: rich_form_def rich_fees_def p(2))
qed

lemma math_round_le: "x < of_int k + 1 / 2 \<Longrightarrow> math_round x \<le> k"
  by (simp add: math_round_def) linarith

text \<open>A deposit that the button allows is at least a dollar, and within the wallet's balance and the cap.\<close>

lemma deposit_within_cap:
  assumes "deposit_allowed balance cumulative amount"
  shows "parse_units6 amount \<le> balance" "parse_units6 amount \<le> remaining_cap cumulative" "1000000 \<le> parse_units6 amount"
proof -
  have a: "1 \<le> amount" "\<not> balance < parse_units6 amount" "amount \<le> of_int (remaining_cap cumulative) / 1000000 + 1 / 1000000000"
    using assms by (auto simp: deposit_allowed_def Let_def)
  then show "parse_units6 amount \<le> balance" by simp
  have "amount * 1000000 < of_int (remaining_cap cumulative) + 1 / 2" using a(3) by simp
  then show "parse_units6 amount \<le> remaining_cap cumulative" unfolding parse_units6_def by (rule math_round_le)
  have "of_int 1000000 \<le> amount * 1000000" using a(1) by simp
  then have "math_round (of_int 1000000) \<le> math_round (amount * 1000000)" unfolding math_round_def by (intro floor_mono) simp
  then show "1000000 \<le> parse_units6 amount" unfolding parse_units6_def math_round_int .
qed

subsection \<open>The index of a deposit\<close>

definition reported_spent :: "flow_env \<Rightarrow> string \<Rightarrow> bool" where
  "reported_spent env sec \<longleftrightarrow> ch_isSpent (vr_chain (fl_reads env)) (computeNullifier (fl_crypto env) sec 0) = Some True"

lemma fetch_one: "lower nf \<in> set (fetchSpentNullifiers ch [nf]) \<longleftrightarrow> ch_isSpent ch nf = Some True"
  by (simp add: fetchSpentNullifiers_def)

text \<open>
  A deposit does not reuse an index whose note was spent.  The index taken is the first from the proposed
  one whose first nullifier the registry does not report, its secret is the one of
  that index, and only where twenty indices in a row are spent is the next one taken without a check.
\<close>

lemma deposit_index_unspent:
  assumes "fl_secret env ix 2 = Some sec" and "unspent_index env guard ix sec = Inr (ix', sec')"
  shows "fl_secret env ix' 2 = Some sec' \<and> ix \<le> ix' \<and> ix' \<le> ix + guard \<and> (ix' < ix + guard \<longrightarrow> \<not> reported_spent env sec') \<and>
    (\<forall>j x. ix \<le> j \<and> j < ix' \<and> fl_secret env j 2 = Some x \<longrightarrow> reported_spent env x)"
  using assms
proof (induction env guard ix sec arbitrary: ix' sec' rule: unspent_index.induct)
  case (2 env guard ix sec)
  show ?case
  proof (cases "reported_spent env sec")
    case False
    then show ?thesis using 2 by (auto simp: fetch_one reported_spent_def Let_def)
  next
    case True
    then obtain sec1 where s1: "fl_secret env (ix + 1) 2 = Some sec1" "unspent_index env guard (ix + 1) sec1 = Inr (ix', sec')"
      using 2(3) by (auto simp: fetch_one reported_spent_def Let_def split: option.splits)
    have ih: "fl_secret env ix' 2 = Some sec' \<and> ix + 1 \<le> ix' \<and> ix' \<le> ix + 1 + guard \<and> (ix' < ix + 1 + guard \<longrightarrow> \<not> reported_spent env sec') \<and>
      (\<forall>j x. ix + 1 \<le> j \<and> j < ix' \<and> fl_secret env j 2 = Some x \<longrightarrow> reported_spent env x)"
      by (rule 2(1)) (use True s1 in \<open>auto simp: fetch_one reported_spent_def\<close>)
    have "reported_spent env x" if j: "ix \<le> j" "j < ix'" "fl_secret env j 2 = Some x" for j x
    proof (cases "j = ix")
      case False
      then have "ix + 1 \<le> j" using j(1) by simp
      then show ?thesis using ih j by blast
    qed (use True 2(2) j in simp)
    then show ?thesis using ih by auto
  qed
qed auto

lemma deposit_index_unspent_witness:
  "\<exists>sec. unspent_index sample_env INDEX_GUARD 3 ''0x7'' = Inr (3, sec) \<and> fl_secret sample_env 3 2 = Some sec"
proof -
  have sec: "fl_secret sample_env 3 2 = Some ''0x7''" by (simp add: sample_env_def)
  have "unspent_index sample_env INDEX_GUARD 3 ''0x7'' = Inr (3, ''0x7'')"
    by (simp add: INDEX_GUARD_def numeral_eq_Suc fetchSpentNullifiers_def sample_env_def)
  with deposit_index_unspent [OF sec this] show ?thesis by blast
qed

subsection \<open>The deposit page\<close>

lemmas deposit_ops = handleDeriveAndDeposit_def doProve_def doDeposit_def approve_failed_def deposit_failed_def

text \<open>The note that a run of the page is about.\<close>

definition derived :: "crypto \<Rightarrow> string \<Rightarrow> int \<Rightarrow> string \<Rightarrow> deposit_state \<Rightarrow> bool" where
  "derived cx wallet amount sec d \<longleftrightarrow>
     dp_amount d = amount \<and> dp_commitment d = computeCommitment cx sec amount 0 wallet \<and> dp_nullifier d = computeNullifier cx sec 0"

definition the_deposit :: "crypto \<Rightarrow> string \<Rightarrow> int \<Rightarrow> string \<Rightarrow> request" where
  "the_deposit cx wallet amount sec =
     R_deposit \<lparr>di_secret = sec, di_commitment = computeCommitment cx sec amount 0 wallet, di_amount = amount, di_owner = wallet\<rparr>"

definition before_confirmation :: "crypto \<Rightarrow> string \<Rightarrow> int \<Rightarrow> session \<Rightarrow> deposit_state \<times> session \<Rightarrow> bool" where
  "before_confirmation cx wallet amount s0 ds \<longleftrightarrow>
     (case ds of (d, s) \<Rightarrow> dp_step d = 1 \<and> sn_browser s = sn_browser s0 \<and>
        (\<exists>sec k. dp_secret d = Some sec \<and> derived cx wallet amount sec d \<and>
           sn_sent s = sn_sent s0 @ replicate k (the_deposit cx wallet amount sec) \<and> (dp_submitted d \<longrightarrow> 0 < k) \<and>
           (0 < k \<longrightarrow> marker_key wallet (dp_commitment d) \<in> set (sn_deposits s))))"

definition after_confirmation :: "crypto \<Rightarrow> string \<Rightarrow> int \<Rightarrow> session \<Rightarrow> deposit_state \<times> session \<Rightarrow> bool" where
  "after_confirmation cx wallet amount s0 ds \<longleftrightarrow>
     (case ds of (d, s) \<Rightarrow> dp_step d = 2 \<and> dp_phase d = P_done \<and> dp_secret d = None \<and>
        (\<exists>sec k now tx. 0 < k \<and> derived cx wallet amount sec d \<and>
           sn_sent s = sn_sent s0 @ replicate k (the_deposit cx wallet amount sec) \<and>
           loadAll (sn_browser s) = loadAll (sn_browser s0) @ [deposit_note now wallet tx d]) \<and>
        dp_index d < getNextDepositIndex wallet (sn_browser s) \<and> marker_key wallet (dp_commitment d) \<notin> set (sn_deposits s))"

lemma sent_deposit: "dp_secret d = Some sec \<Longrightarrow> derived cx wallet amount sec d \<Longrightarrow> deposit_request wallet d = the_deposit cx wallet amount sec"
  by (simp add: deposit_request_def the_deposit_def derived_def)

lemma derive_starts:
  assumes "fl_crypto env = cx" and "d = deposit_start amount"
  shows "handleDeriveAndDeposit env deposits wallet (sn_browser s0) d = d \<or>
    before_confirmation cx wallet amount s0 (handleDeriveAndDeposit env deposits wallet (sn_browser s0) d, s0)"
  using assms
  by (auto simp: handleDeriveAndDeposit_def before_confirmation_def derived_def deposit_start_def Let_def
      split: option.splits sum.splits intro!: exI [of _ 0])

lemma send_keeps:
  assumes "before_confirmation cx wallet amount s0 (d, s)"
  shows "before_confirmation cx wallet amount s0 (doDeposit wallet (d, s))"
proof -
  obtain sec k where d: "dp_step d = 1" "sn_browser s = sn_browser s0" "dp_secret d = Some sec" "derived cx wallet amount sec d"
    "sn_sent s = sn_sent s0 @ replicate k (the_deposit cx wallet amount sec)" "dp_submitted d \<longrightarrow> 0 < k"
    "0 < k \<longrightarrow> marker_key wallet (dp_commitment d) \<in> set (sn_deposits s)"
    using assms by (auto simp: before_confirmation_def)
  show ?thesis
  proof (cases "dp_submitted d \<or> \<not> dp_proof d")
    case False
    have "sn_sent s @ [deposit_request wallet d] = sn_sent s0 @ replicate (Suc k) (the_deposit cx wallet amount sec)"
      unfolding sent_deposit [OF d(3,4)] d(5) by (simp add: replicate_append_same)
    then show ?thesis using d False
      by (auto simp: before_confirmation_def doDeposit_def markDepositSubmitted_def derived_def intro!: exI [of _ "Suc k"])
  qed (use assms in \<open>simp add: doDeposit_def\<close>)
qed

lemma confirm_saves:
  assumes "before_confirmation cx wallet amount s0 (d, s)" and "dp_submitted d"
  shows "after_confirmation cx wallet amount s0 (deposit_confirmed now wallet tx (d, s))"
proof -
  obtain sec k where d: "sn_browser s = sn_browser s0" "derived cx wallet amount sec d" "0 < k"
    "sn_sent s = sn_sent s0 @ replicate k (the_deposit cx wallet amount sec)"
    using assms by (auto simp: before_confirmation_def)
  show ?thesis using d
    by (auto simp: after_confirmation_def deposit_confirmed_def clearDepositMarker_def on_browser_def derived_def
        getNextDepositIndex_def recordDepositIndexUsed_def map_of_update loadAll_def recordWalletActivity_def saveActivity_def addNote_def
        saveAll_def deposit_note_def intro!: exI [of _ sec] exI [of _ k])
      (intro exI, rule refl)
qed

text \<open>
  C35: a run of the deposit page deposits one commitment, and saves its note when it is
  confirmed.  In every reachable state of the page, either nothing was derived and nothing sent; or
  the notes are untouched and every request sent, retries included, is for the one commitment
  of the amount and the derived secret, with a marker left for recovery; or the deposit was
  confirmed, that commitment was sent, its note was added, its index will not be proposed again, and the marker is
  gone.
\<close>

theorem deposit_page_invariant:
  assumes "(deposit_step cx wallet)\<^sup>*\<^sup>* (deposit_start amount, s0) ds"
  shows "ds = (deposit_start amount, s0) \<or> before_confirmation cx wallet amount s0 ds \<or> after_confirmation cx wallet amount s0 ds"
  using assms
proof (induction rule: rtranclp_induct)
  case (step ds ds')
  have no: "dp_step d = 1" "dp_step d = 1 \<longrightarrow> before_confirmation cx wallet amount s0 (d, s)"
    if "dp_step d = 1" "ds = (d, s)" for d s
    using step.IH that by (auto simp: after_confirmation_def deposit_start_def)
  from step.hyps(2) show ?case
  proof (cases rule: deposit_step.cases)
    case (derive d env balance cumulative amt s deposits)
    then have "d = deposit_start amount \<and> s = s0"
      using step.IH by (auto simp: before_confirmation_def after_confirmation_def)
    then show ?thesis using derive_starts [of env cx d amount deposits wallet s0] derive by auto
  next
    case (prove d s env allowance)
    then show ?thesis using no by (auto simp: before_confirmation_def doProve_def derived_def)
  next
    case (approve_sent d s)
    then show ?thesis using no by (auto simp: before_confirmation_def derived_def)
  next
    case (approve_error d s)
    then show ?thesis using no by (auto simp: before_confirmation_def derived_def approve_failed_def)
  next
    case (approved d s)
    then show ?thesis using no by (auto simp: before_confirmation_def derived_def)
  next
    case (send d s)
    then show ?thesis using no send_keeps by blast
  next
    case (broadcast d s)
    then show ?thesis using no by (auto simp: before_confirmation_def derived_def)
  next
    case (failed d s)
    then show ?thesis using no by (auto simp: before_confirmation_def derived_def deposit_failed_def)
  next
    case (confirmed d s now tx)
    then show ?thesis using no confirm_saves by blast
  qed
qed simp

theorem deposit_page_invariant_witness:
  "\<exists>d. dp_step d = 1 \<and> before_confirmation sample_crypto ''0x9'' 2000000 rich_session (d, rich_session)"
proof -
  let ?d = "deposit_start 2000000"
  let ?d' = "handleDeriveAndDeposit sample_env None ''0x9'' (sn_browser rich_session) ?d"
  have allowed: "deposit_allowed 5000000 0 2"
    using math_round_int [of 2000000] by (simp add: deposit_allowed_def parse_units6_def remaining_cap_def DEPOSIT_CAP_MICRO_def Let_def del: math_round_int)
  have amt: "dp_amount ?d = parse_units6 2"
    using math_round_int [of 2000000] by (simp add: deposit_start_def parse_units6_def del: math_round_int)
  have "deposit_step sample_crypto ''0x9'' (?d, rich_session) (?d', rich_session)"
    by (rule deposit_step.derive [OF _ _ allowed amt]) (simp_all add: deposit_start_def sample_env_def)
  then have "(deposit_step sample_crypto ''0x9'')\<^sup>*\<^sup>* (?d, rich_session) (?d', rich_session)" by (rule r_into_rtranclp)
  from deposit_page_invariant [OF this] have inv: "?d' = ?d \<or> before_confirmation sample_crypto ''0x9'' 2000000 rich_session (?d', rich_session) \<or>
      after_confirmation sample_crypto ''0x9'' 2000000 rich_session (?d', rich_session)" by simp
  have one: "dp_step ?d' = 1"
    by (simp add: handleDeriveAndDeposit_def sample_env_def INDEX_GUARD_def numeral_eq_Suc fetchSpentNullifiers_def)
  then have "?d' \<noteq> ?d" by (auto simp: deposit_start_def)
  then show ?thesis using inv one by (auto simp: after_confirmation_def)
qed

end
