(* ===== verification/Relay.thy ===== *)
theory Relay
  imports Nonce_Manager Merkle_Props Event_Index_Props
begin

section \<open>The proof relay: requests that send transactions\<close>

text \<open>
  \<open>proof-relay/src/relayer.ts\<close> and the \<open>/relay\<close> routes of \<open>api.ts\<close>.  A request
  body is a JSON value; the routes validate it against a schema, send the call to
  the vault with the next nonce of the relayer's wallet, and answer the hash or an
  error.  The node and the contract are parameters over a world \<open>'w\<close>.
\<close>

subsection \<open>Bodies and schemas\<close>

datatype jv = V_null | V_bool bool | V_num rat | V_str string | V_arr "jv list" | V_obj "(string \<times> jv) list"

text \<open>
  The schemas are written with the library zod.  As documented, parsing an object
  keeps the declared keys only, \<open>optional\<close> lets a key be absent (not null), and
  the first failure makes \<open>safeParse\<close> fail.  An absent value is \<open>None\<close>.
\<close>

datatype zod = Z_string "string \<Rightarrow> bool" | Z_int int int | Z_array zod nat
  | Z_object "(string \<times> zod) list" | Z_optional zod

fun safeParse :: "zod \<Rightarrow> jv option \<Rightarrow> jv option option"
  and parse_fields :: "(string \<times> zod) list \<Rightarrow> (string \<times> jv) list \<Rightarrow> (string \<times> jv) list option" where
  "safeParse (Z_string p) v = (case v of Some (V_str s) \<Rightarrow> if p s then Some v else None | _ \<Rightarrow> None)"
| "safeParse (Z_int lo hi) v =
     (case v of Some (V_num x) \<Rightarrow> if x = of_int \<lfloor>x\<rfloor> \<and> of_int lo \<le> x \<and> x \<le> of_int hi then Some v else None
      | _ \<Rightarrow> None)"
| "safeParse (Z_array z n) v =
     (case v of Some (V_arr vs) \<Rightarrow>
        if length vs = n
        then map_option (\<lambda>ws. Some (V_arr ws)) (those (map (\<lambda>x. Option.bind (safeParse z (Some x)) id) vs))
        else None
      | _ \<Rightarrow> None)"
| "safeParse (Z_optional z) v = (case v of None \<Rightarrow> Some None | Some x \<Rightarrow> safeParse z (Some x))"
| "safeParse (Z_object fs) v =
     (case v of Some (V_obj kvs) \<Rightarrow> map_option (\<lambda>ws. Some (V_obj ws)) (parse_fields fs kvs) | _ \<Rightarrow> None)"
| "parse_fields [] kvs = Some []"
| "parse_fields ((k, z) # fs) kvs =
     (case safeParse z (map_of kvs k) of
        None \<Rightarrow> None
      | Some w \<Rightarrow> map_option (\<lambda>ws. case w of None \<Rightarrow> ws | Some x \<Rightarrow> (k, x) # ws) (parse_fields fs kvs))"

definition hex_text :: "string \<Rightarrow> bool" where
  "hex_text s \<longleftrightarrow> take 2 s = ''0x'' \<and> list_all (\<lambda>c. hex_val c \<noteq> None) (drop 2 s)"

definition hex_bytes :: "nat \<Rightarrow> string \<Rightarrow> bool" where
  "hex_bytes n s \<longleftrightarrow> hex_text s \<and> length s = 2 * n + 2"

definition num_text :: "string \<Rightarrow> bool" where
  "num_text s \<longleftrightarrow> s \<noteq> '''' \<and> list_all (\<lambda>c. c \<in> set ''0123456789'') s"

definition HEX32_schema :: zod where "HEX32_schema = Z_string (hex_bytes 32)"
definition NUM_schema :: zod where "NUM_schema = Z_string num_text"
definition PROOF_schema :: zod where "PROOF_schema = Z_string hex_text"
definition SIG_schema :: zod where "SIG_schema = Z_optional (Z_string hex_text)"

definition betInputsSchema :: zod where
  "betInputsSchema = Z_object
     [(''merkle_root'', HEX32_schema), (''nullifier'', HEX32_schema), (''new_commitment'', HEX32_schema),
      (''bet_amount'', NUM_schema), (''price'', NUM_schema), (''expected_shares'', NUM_schema),
      (''market_id'', HEX32_schema), (''outcome_side'', NUM_schema), (''position_id'', HEX32_schema)]"

definition settlementInputsSchema :: zod where
  "settlementInputsSchema = Z_object
     [(''merkle_root'', HEX32_schema), (''nullifier'', HEX32_schema), (''new_commitment'', HEX32_schema),
      (''nullifier_of_bet'', HEX32_schema), (''market_id'', HEX32_schema), (''total_credit'', NUM_schema)]"

definition withdrawalInputsSchema :: zod where
  "withdrawalInputsSchema = Z_object
     [(''merkle_root'', HEX32_schema), (''nullifier'', HEX32_schema), (''withdrawal_amount'', NUM_schema),
      (''recipient_hash'', HEX32_schema), (''new_commitment'', HEX32_schema)]"

definition fourFieldInputsSchema :: zod where
  "fourFieldInputsSchema = Z_object
     [(''merkle_root'', HEX32_schema), (''nullifier'', HEX32_schema), (''new_commitment'', HEX32_schema),
      (''nullifier_of_bet'', HEX32_schema)]"

definition naCancelInputsSchema :: zod where
  "naCancelInputsSchema = Z_object
     [(''merkle_root'', HEX32_schema), (''nullifier'', HEX32_schema), (''new_commitment'', HEX32_schema),
      (''nullifier_of_bet'', HEX32_schema), (''market_id'', HEX32_schema)]"

definition attestationSchema :: zod where
  "attestationSchema = Z_optional (Z_object
     [(''nullifierOfBet'', HEX32_schema), (''reportType'', Z_int 1 4), (''amountA'', NUM_schema), (''amountB'', NUM_schema)])"

definition consolidateInputsSchema :: zod where
  "consolidateInputsSchema = Z_object
     [(''merkle_root'', HEX32_schema), (''nullifiers'', Z_array HEX32_schema 4), (''new_commitment'', HEX32_schema)]"

definition betSchema :: zod where
  "betSchema = Z_object [(''proof'', PROOF_schema), (''inputs'', betInputsSchema)]"

definition settlementSchema :: zod where
  "settlementSchema = Z_object [(''proof'', PROOF_schema), (''inputs'', settlementInputsSchema),
     (''attestation'', attestationSchema), (''signature'', SIG_schema)]"

definition withdrawalSchema :: zod where
  "withdrawalSchema = Z_object [(''proof'', PROOF_schema), (''inputs'', withdrawalInputsSchema),
     (''recipientAddress'', Z_string (hex_bytes 20))]"

definition betCancelSchema :: zod where
  "betCancelSchema = Z_object [(''proof'', PROOF_schema), (''inputs'', fourFieldInputsSchema),
     (''attestation'', attestationSchema), (''signature'', SIG_schema)]"

definition naCancelSchema :: zod where
  "naCancelSchema = Z_object [(''proof'', PROOF_schema), (''inputs'', naCancelInputsSchema),
     (''attestation'', attestationSchema), (''signature'', SIG_schema)]"

definition closeSchema :: zod where
  "closeSchema = Z_object [(''proof'', PROOF_schema), (''inputs'', fourFieldInputsSchema),
     (''attestation'', attestationSchema), (''signature'', SIG_schema)]"

definition partialCreditSchema :: zod where
  "partialCreditSchema = Z_object [(''proof'', PROOF_schema), (''inputs'', fourFieldInputsSchema),
     (''attestation'', attestationSchema), (''signature'', SIG_schema)]"

definition consolidateSchema :: zod where
  "consolidateSchema = Z_object [(''proof'', PROOF_schema), (''inputs'', consolidateInputsSchema)]"

text \<open>Reading a property of a parsed object; on any other value it is undefined.\<close>

fun prop_of :: "string \<Rightarrow> jv \<Rightarrow> jv option" where
  "prop_of k (V_obj kvs) = map_of kvs k"
| "prop_of k _ = None"

fun str_of :: "jv option \<Rightarrow> string" where
  "str_of (Some (V_str s)) = s"
| "str_of _ = ''''"

subsection \<open>The wallet's nonces\<close>

text \<open>
  An exception is what the code reads of it: its text, the candidates for the
  revert data, the reason and the message.  The relayer's counter is a copy of the
  signing layer's, with acquisitions that wait for each other.
\<close>

record relay_exn =
  ex_text :: string
  ex_datas :: "string option list"
  ex_reason :: "string option"
  ex_message :: "string option"

definition acquire_nonce :: "relay_exn + int \<Rightarrow> nonce_mgr \<Rightarrow> (relay_exn + int) \<times> nonce_mgr" where
  "acquire_nonce seed m =
     (case nm_nonce m of
        None \<Rightarrow> (case seed of Inl e \<Rightarrow> (Inl e, m) | Inr c \<Rightarrow> (Inr c, m\<lparr>nm_nonce := Some (c + 1)\<rparr>))
      | Some n \<Rightarrow> (Inr n, m\<lparr>nm_nonce := Some (n + 1)\<rparr>))"

definition release_nonce :: "nonce_mgr \<Rightarrow> nonce_mgr" where
  "release_nonce m =
     (case nm_nonce m of Some n \<Rightarrow> if n > 0 then m\<lparr>nm_nonce := Some (n - 1)\<rparr> else m | None \<Rightarrow> m)"

definition forget_nonce :: "nonce_mgr \<Rightarrow> nonce_mgr" where
  "forget_nonce m = m\<lparr>nm_nonce := None\<rparr>"

definition check_chain_reset :: "bool \<Rightarrow> string + int \<Rightarrow> nonce_mgr \<Rightarrow> nonce_mgr" where
  "check_chain_reset production head m =
     (if production then m
      else case head of
        Inl e \<Rightarrow> m
      | Inr current \<Rightarrow> (if current < nm_last_seen m then forget_nonce m else m)\<lparr>nm_last_seen := current\<rparr>)"

definition RELAY_NONCE_PATTERNS :: "string list" where
  "RELAY_NONCE_PATTERNS = [''nonce too low'', ''nonce too high'', ''replacement underpriced'',
     ''NONCE_EXPIRED'', ''already known'', ''invalid nonce'']"

definition relay_nonce_error :: "relay_exn \<Rightarrow> bool" where
  "relay_nonce_error e \<longleftrightarrow> (\<exists>p \<in> set RELAY_NONCE_PATTERNS. js_includes (lower p) (lower (ex_text e)))"

definition sendWithNonce :: "('w \<Rightarrow> relay_exn + int) \<Rightarrow> (int \<Rightarrow> 'w \<Rightarrow> (relay_exn + 'tx) \<times> 'w)
    \<Rightarrow> nonce_mgr \<times> 'w \<Rightarrow> (relay_exn + 'tx) \<times> nonce_mgr \<times> 'w" where
  "sendWithNonce seed fn = (\<lambda>(m, w).
     (case acquire_nonce (seed w) m of
        (Inl e, m1) \<Rightarrow> (Inl e, m1, w)
      | (Inr n, m1) \<Rightarrow>
          (case fn n w of
             (Inr tx, w1) \<Rightarrow> (Inr tx, m1, w1)
           | (Inl err, w1) \<Rightarrow>
               if relay_nonce_error err then
                 (case acquire_nonce (seed w1) (forget_nonce m1) of
                    (Inl e, m2) \<Rightarrow> (Inl e, m2, w1)
                  | (Inr n2, m2) \<Rightarrow> (let (r, w2) = fn n2 w1 in (r, m2, w2)))
               else (Inl err, release_nonce m1, w1))))"

definition initRelayer :: "bool \<Rightarrow> string + int \<Rightarrow> nonce_mgr \<Rightarrow> nonce_mgr" where
  "initRelayer production head m = check_chain_reset production head (forget_nonce m)"

subsection \<open>Calls to the vault\<close>

text \<open>A call is the function and its arguments in order; the overrides hold the nonce only.\<close>

record vault_call =
  vc_fn :: string
  vc_args :: "jv list"

record 'w relay_env =
  rv_seed :: "'w \<Rightarrow> relay_exn + int"
  rv_vault :: "vault_call \<Rightarrow> int \<Rightarrow> 'w \<Rightarrow> (relay_exn + string) \<times> 'w"
  rv_configured :: bool
  rv_status :: "string \<Rightarrow> 'w \<Rightarrow> string + int"
  rv_parse_error :: "string \<Rightarrow> string option"

type_synonym 'w relay_state = "nonce_mgr \<times> 'w"

definition relay_send :: "'w relay_env \<Rightarrow> vault_call \<Rightarrow> 'w relay_state \<Rightarrow> (relay_exn + string) \<times> 'w relay_state" where
  "relay_send env c = sendWithNonce (rv_seed env) (rv_vault env c)"

definition ZERO_HASH :: string where "ZERO_HASH = ''0x'' @ replicate 64 (CHR ''0'')"

definition ZERO_ATT :: jv where
  "ZERO_ATT = V_obj [(''nullifierOfBet'', V_str ZERO_HASH), (''reportType'', V_num 0),
     (''amountA'', V_str ''0''), (''amountB'', V_str ''0'')]"

definition attArgs :: "jv option \<Rightarrow> string option \<Rightarrow> jv list" where
  "attArgs att sig =
     [case att of None \<Rightarrow> ZERO_ATT | Some a \<Rightarrow> a, V_str (case sig of None \<Rightarrow> ''0x'' | Some s \<Rightarrow> s)]"

definition relayAuthorizeBet :: "'w relay_env \<Rightarrow> string \<Rightarrow> jv \<Rightarrow> 'w relay_state \<Rightarrow> (relay_exn + string) \<times> 'w relay_state" where
  "relayAuthorizeBet env pf inputs =
     relay_send env \<lparr>vc_fn = ''authorizeBet'', vc_args = [V_str pf, inputs]\<rparr>"

definition relayCreditSettlement :: "'w relay_env \<Rightarrow> string \<Rightarrow> jv \<Rightarrow> jv option \<Rightarrow> string option
    \<Rightarrow> 'w relay_state \<Rightarrow> (relay_exn + string) \<times> 'w relay_state" where
  "relayCreditSettlement env pf inputs att sig =
     relay_send env \<lparr>vc_fn = ''creditSettlement'', vc_args = [V_str pf, inputs] @ attArgs att sig\<rparr>"

definition relayWithdraw :: "'w relay_env \<Rightarrow> string \<Rightarrow> jv \<Rightarrow> string \<Rightarrow> 'w relay_state \<Rightarrow> (relay_exn + string) \<times> 'w relay_state" where
  "relayWithdraw env pf inputs recipient =
     relay_send env \<lparr>vc_fn = ''withdraw'', vc_args = [V_str pf, inputs, V_str recipient]\<rparr>"

definition relayBetCancellationCredit :: "'w relay_env \<Rightarrow> string \<Rightarrow> jv \<Rightarrow> jv option \<Rightarrow> string option
    \<Rightarrow> 'w relay_state \<Rightarrow> (relay_exn + string) \<times> 'w relay_state" where
  "relayBetCancellationCredit env pf inputs att sig =
     relay_send env \<lparr>vc_fn = ''betCancellationCredit'', vc_args = [V_str pf, inputs] @ attArgs att sig\<rparr>"

definition relayNACancellationCredit :: "'w relay_env \<Rightarrow> string \<Rightarrow> jv \<Rightarrow> jv option \<Rightarrow> string option
    \<Rightarrow> 'w relay_state \<Rightarrow> (relay_exn + string) \<times> 'w relay_state" where
  "relayNACancellationCredit env pf inputs att sig =
     relay_send env \<lparr>vc_fn = ''naCancellationCredit'', vc_args = [V_str pf, inputs] @ attArgs att sig\<rparr>"

definition relayClosePosition :: "'w relay_env \<Rightarrow> string \<Rightarrow> jv \<Rightarrow> jv option \<Rightarrow> string option
    \<Rightarrow> 'w relay_state \<Rightarrow> (relay_exn + string) \<times> 'w relay_state" where
  "relayClosePosition env pf inputs att sig =
     relay_send env \<lparr>vc_fn = ''closePosition'', vc_args = [V_str pf, inputs] @ attArgs att sig\<rparr>"

definition relayPartialFillCredit :: "'w relay_env \<Rightarrow> string \<Rightarrow> jv \<Rightarrow> jv option \<Rightarrow> string option
    \<Rightarrow> 'w relay_state \<Rightarrow> (relay_exn + string) \<times> 'w relay_state" where
  "relayPartialFillCredit env pf inputs att sig =
     relay_send env \<lparr>vc_fn = ''partialFillCredit'', vc_args = [V_str pf, inputs] @ attArgs att sig\<rparr>"

text \<open>The vault's tuple names the array \<open>nullifier\<close>.\<close>

definition consolidate_tuple :: "jv \<Rightarrow> jv" where
  "consolidate_tuple inputs =
     (let put = (\<lambda>k k' kvs. case prop_of k inputs of None \<Rightarrow> kvs | Some v \<Rightarrow> (k', v) # kvs)
      in V_obj (put ''merkle_root'' ''merkle_root'' (put ''nullifiers'' ''nullifier''
           (put ''new_commitment'' ''new_commitment'' []))))"

definition relayConsolidate :: "'w relay_env \<Rightarrow> string \<Rightarrow> jv \<Rightarrow> 'w relay_state \<Rightarrow> (relay_exn + string) \<times> 'w relay_state" where
  "relayConsolidate env pf inputs =
     relay_send env \<lparr>vc_fn = ''consolidate'', vc_args = [V_str pf, consolidate_tuple inputs]\<rparr>"

subsection \<open>Errors that leave the relay\<close>

definition VAULT_ERROR_SIGS :: "string list" where
  "VAULT_ERROR_SIGS =
     [''AlreadyPartiallyClosed()'', ''AttestationMismatch()'', ''AttestationRequired()'', ''BadRecipient()'',
      ''BelowMinimum()'', ''BetNotActive()'', ''BetNotCancellable()'', ''BetNotClosing()'', ''BetNotFailed()'',
      ''BetNotFilled()'', ''BetNotFound()'', ''BetNotPartialFillable()'', ''BetNotPartialFilled()'',
      ''BetNotReportable()'', ''BetTimeoutNotElapsed()'', ''CannotCloseResolvedMarket()'', ''ConditionNotRegistered()'',
      ''ConditionNotResolved()'', ''DeployCapExceeded()'', ''DepositCapExceeded()'', ''EmptyConsolidation()'',
      ''InsufficientLiquidity(uint256,uint256)'', ''InsufficientVaultLiquidity()'', ''InvalidAmount()'',
      ''InvalidAttestation()'', ''InvalidFilledShares()'', ''InvalidProof()'', ''InvalidSoldShares()'',
      ''InvalidSpentAmount()'', ''MarketAlreadyResolved()'', ''MarketNotResolved()'', ''NonMonotonicProceeds()'',
      ''NotFeeRecipient()'', ''NotNA()'', ''NullifierSpent()'', ''OnlyOperator()'', ''PayoutRoundsToZero()'',
      ''UnknownRoot()'', ''VerifierTimelockActive()'', ''WrongMarket()'', ''ZeroAddress()'']"

text \<open>Dashes and arrows in the texts are written in ASCII.\<close>

definition ERROR_HINTS :: "(string \<times> string) list" where
  "ERROR_HINTS =
     [(''NullifierSpent'', ''This note was already spent - your wallet is out of sync with the chain. Open Portfolio > Restore to recover your notes, then retry.''),
      (''UnknownRoot'', ''Your note's Merkle root is no longer in the vault's recent window - recover your notes (Portfolio > Restore) and retry.''),
      (''InvalidProof'', ''Proof verification failed (often a fee or input mismatch). Refresh the page and try again.''),
      (''BelowMinimum'', ''Amount is below the minimum allowed.''),
      (''DepositCapExceeded'', ''This would exceed the $50,000 per-address deposit cap.''),
      (''InsufficientLiquidity'', ''The vault is temporarily short on USDC to pay this out - try a smaller amount or retry shortly.''),
      (''ConditionNotResolved'', ''This market hasn't resolved yet - settlement isn't available.''),
      (''MarketNotResolved'', ''This market hasn't resolved yet - settlement isn't available.''),
      (''BadRecipient'', ''Withdrawals can only go to your depositing wallet.''),
      (''BetNotFound'', ''No matching bet was found on-chain for this note.'')]"

text \<open>\<open>/^0x[0-9a-fA-F]{8}/\<close>, and the first match of \<open>/data="?(0x[0-9a-fA-F]{8,})"?/\<close>.\<close>

definition selector_prefix :: "string \<Rightarrow> bool" where
  "selector_prefix s \<longleftrightarrow> take 2 s = ''0x'' \<and> length (takeWhile (\<lambda>c. hex_val c \<noteq> None) (drop 2 s)) \<ge> 8"

fun data_match :: "string \<Rightarrow> string option" where
  "data_match [] = None"
| "data_match (c # cs) =
     (if take 5 (c # cs) = ''data='' then
        (let rest = drop 5 (c # cs);
             body = (if take 1 rest = [CHR 34] then drop 1 rest else rest)
         in if selector_prefix body then Some (''0x'' @ takeWhile (\<lambda>c. hex_val c \<noteq> None) (drop 2 body))
            else data_match cs)
      else data_match cs)"

definition extractRevertData :: "relay_exn \<Rightarrow> string option" where
  "extractRevertData e =
     (case List.find (\<lambda>d. case d of Some s \<Rightarrow> selector_prefix s | None \<Rightarrow> False) (ex_datas e) of
        Some d \<Rightarrow> d
      | None \<Rightarrow> Option.bind (ex_message e) data_match)"

definition decodeVaultError :: "'w relay_env \<Rightarrow> relay_exn \<Rightarrow> (string \<times> string option) option" where
  "decodeVaultError env e =
     (case extractRevertData e of
        None \<Rightarrow> None
      | Some d \<Rightarrow> if d = '''' then None
                  else map_option (\<lambda>name. (name, map_of ERROR_HINTS name)) (rv_parse_error env d))"

text \<open>A response: its status and body.  The random reference of an error is left out.\<close>

datatype reply = Reply nat jv

definition error_reply :: "nat \<Rightarrow> string \<Rightarrow> reply" where
  "error_reply st msg = Reply st (V_obj [(''error'', V_str msg)])"

definition sig_name :: "string \<Rightarrow> string" where
  "sig_name s = takeWhile (\<lambda>c. c \<noteq> CHR ''('') s"

definition error_text :: "relay_exn \<Rightarrow> string" where
  "error_text e = (case ex_reason e of Some r \<Rightarrow> r | None \<Rightarrow> '''') @
     (case ex_message e of Some m \<Rightarrow> '' '' @ m | None \<Rightarrow> '''')"

definition safeError :: "'w relay_env \<Rightarrow> relay_exn \<Rightarrow> reply" where
  "safeError env e =
     (case decodeVaultError env e of
        Some (name, hint) \<Rightarrow>
          Reply 500 (V_obj [(''error'', V_str (case hint of Some h \<Rightarrow> h | None \<Rightarrow> name)), (''code'', V_str name)])
      | None \<Rightarrow>
          (case List.find (\<lambda>name. js_includes name (error_text e)) (map sig_name VAULT_ERROR_SIGS) of
             Some name \<Rightarrow> Reply 500 (V_obj [(''error'', V_str name), (''code'', V_str name)])
           | None \<Rightarrow> error_reply 500 ''relay failed''))"

subsection \<open>The routes that relay\<close>

text \<open>
  \<open>BET_STATUS\<close> names five of the contract's nine states.  A missing configuration or
  a failing read is the status -1.
\<close>

definition ST_ACTIVE :: int where "ST_ACTIVE = 0"
definition ST_FILLED :: int where "ST_FILLED = 1"
definition ST_FAILED :: int where "ST_FAILED = 2"
definition ST_CREDITED :: int where "ST_CREDITED = 3"

definition checkBetFilled :: "'w relay_env \<Rightarrow> string \<Rightarrow> 'w \<Rightarrow> bool \<times> int" where
  "checkBetFilled env nf w =
     (if \<not> rv_configured env then (True, -1)
      else case rv_status env nf w of Inl e \<Rightarrow> (True, -1) | Inr st \<Rightarrow> (st = ST_FILLED, st))"

definition answer :: "'w relay_env \<Rightarrow> (relay_exn + string) \<times> 'w relay_state \<Rightarrow> reply \<times> 'w relay_state" where
  "answer env = (\<lambda>(r, s). (case r of
     Inr h \<Rightarrow> Reply 200 (V_obj [(''txHash'', V_str h)])
   | Inl e \<Rightarrow> safeError env e, s))"

definition validated :: "zod \<Rightarrow> jv option \<Rightarrow> (jv \<Rightarrow> reply \<times> 'w relay_state) \<Rightarrow> 'w relay_state \<Rightarrow> reply \<times> 'w relay_state" where
  "validated z body k s =
     (case safeParse z body of
        Some (Some d) \<Rightarrow> k d
      | _ \<Rightarrow> (error_reply 400 ''invalid inputs'', s))"

definition sig_of :: "jv \<Rightarrow> string option" where
  "sig_of d = map_option (\<lambda>v. str_of (Some v)) (prop_of ''signature'' d)"

definition inputs_of :: "jv \<Rightarrow> jv" where
  "inputs_of d = (case prop_of ''inputs'' d of Some v \<Rightarrow> v | None \<Rightarrow> V_null)"

definition proof_of :: "jv \<Rightarrow> string" where
  "proof_of d = str_of (prop_of ''proof'' d)"

definition relay_bet :: "'w relay_env \<Rightarrow> jv option \<Rightarrow> 'w relay_state \<Rightarrow> reply \<times> 'w relay_state" where
  "relay_bet env body s = validated betSchema body (\<lambda>d.
     answer env (relayAuthorizeBet env (proof_of d) (inputs_of d) s)) s"

definition settlement_terminal :: "int \<Rightarrow> bool \<Rightarrow> string option" where
  "settlement_terminal status has_att =
     (if status = ST_CREDITED then Some ''settlement already claimed''
      else if status = ST_FAILED then Some ''bet was FOK-failed; use /relay/bet-cancel instead''
      else if status = ST_ACTIVE \<and> \<not> has_att then Some ''not yet filled - include the operator fill attestation''
      else None)"

definition relay_settlement :: "'w relay_env \<Rightarrow> jv option \<Rightarrow> 'w relay_state \<Rightarrow> reply \<times> 'w relay_state" where
  "relay_settlement env body s = validated settlementSchema body (\<lambda>d.
     let att = prop_of ''attestation'' d;
         nob = str_of (prop_of ''nullifier_of_bet'' (inputs_of d));
         go = answer env (relayCreditSettlement env (proof_of d) (inputs_of d) att (sig_of d) s)
     in if nob \<noteq> '''' then
          if \<not> hex_bytes 32 nob then (error_reply 400 ''invalid inputs'', s)
          else (case settlement_terminal (snd (checkBetFilled env nob (snd s))) (att \<noteq> None) of
                  Some t \<Rightarrow> (error_reply 409 (''bet '' @ t), s)
                | None \<Rightarrow> go)
        else go) s"

definition relay_withdrawal :: "'w relay_env \<Rightarrow> jv option \<Rightarrow> 'w relay_state \<Rightarrow> reply \<times> 'w relay_state" where
  "relay_withdrawal env body s = validated withdrawalSchema body (\<lambda>d.
     answer env (relayWithdraw env (proof_of d) (inputs_of d) (str_of (prop_of ''recipientAddress'' d)) s)) s"

definition relay_bet_cancel :: "'w relay_env \<Rightarrow> jv option \<Rightarrow> 'w relay_state \<Rightarrow> reply \<times> 'w relay_state" where
  "relay_bet_cancel env body s = validated betCancelSchema body (\<lambda>d.
     answer env (relayBetCancellationCredit env (proof_of d) (inputs_of d) (prop_of ''attestation'' d) (sig_of d) s)) s"

definition relay_na_cancel :: "'w relay_env \<Rightarrow> jv option \<Rightarrow> 'w relay_state \<Rightarrow> reply \<times> 'w relay_state" where
  "relay_na_cancel env body s = validated naCancelSchema body (\<lambda>d.
     answer env (relayNACancellationCredit env (proof_of d) (inputs_of d) (prop_of ''attestation'' d) (sig_of d) s)) s"

definition relay_close :: "'w relay_env \<Rightarrow> jv option \<Rightarrow> 'w relay_state \<Rightarrow> reply \<times> 'w relay_state" where
  "relay_close env body s = validated closeSchema body (\<lambda>d.
     answer env (relayClosePosition env (proof_of d) (inputs_of d) (prop_of ''attestation'' d) (sig_of d) s)) s"

definition relay_partial_credit :: "'w relay_env \<Rightarrow> jv option \<Rightarrow> 'w relay_state \<Rightarrow> reply \<times> 'w relay_state" where
  "relay_partial_credit env body s = validated partialCreditSchema body (\<lambda>d.
     answer env (relayPartialFillCredit env (proof_of d) (inputs_of d) (prop_of ''attestation'' d) (sig_of d) s)) s"

definition relay_consolidate :: "'w relay_env \<Rightarrow> jv option \<Rightarrow> 'w relay_state \<Rightarrow> reply \<times> 'w relay_state" where
  "relay_consolidate env body s = validated consolidateSchema body (\<lambda>d.
     answer env (relayConsolidate env (proof_of d) (inputs_of d) s)) s"

datatype relay_route = P_bet | P_settlement | P_withdrawal | P_bet_cancel | P_na_cancel | P_close
  | P_partial_credit | P_consolidate

fun relay_request :: "'w relay_env \<Rightarrow> relay_route \<Rightarrow> jv option \<Rightarrow> 'w relay_state \<Rightarrow> reply \<times> 'w relay_state" where
  "relay_request env P_bet = relay_bet env"
| "relay_request env P_settlement = relay_settlement env"
| "relay_request env P_withdrawal = relay_withdrawal env"
| "relay_request env P_bet_cancel = relay_bet_cancel env"
| "relay_request env P_na_cancel = relay_na_cancel env"
| "relay_request env P_close = relay_close env"
| "relay_request env P_partial_credit = relay_partial_credit env"
| "relay_request env P_consolidate = relay_consolidate env"

fun relay_requests :: "'w relay_env \<Rightarrow> (relay_route \<times> jv option) list \<Rightarrow> 'w relay_state \<Rightarrow> reply list \<times> 'w relay_state" where
  "relay_requests env [] s = ([], s)"
| "relay_requests env ((p, b) # rs) s =
     (let (r, s1) = relay_request env p b s; (out, s2) = relay_requests env rs s1 in (r # out, s2))"

end
