(* ===== verification/Relay_Bodies.thy ===== *)
theory Relay_Bodies
  imports Relay Note_Flows
begin

section \<open>From a request to the prover and to the relay\<close>

text \<open>
  The second half of \<open>frontend/src/lib/api.ts\<close> and \<open>frontend/src/lib/prover.ts\<close>: the
  signals a request gives to its circuit, the encoding of the proof, and the bodies the relay's
  clients post.  The proving library is a parameter; what it answers is \<open>groth_proof\<close>.
  The routes between the browser and the services forward the bodies and are not
  part of the repository.
\<close>

subsection \<open>Values as text\<close>

definition big_val :: "int \<Rightarrow> jv" where "big_val n = V_str (int_text n)"

definition recipient_field :: "string \<Rightarrow> string" where
  "recipient_field a = toHex (case BigInt a of Some n \<Rightarrow> n | None \<Rightarrow> 0)"

subsection \<open>Circuit inputs\<close>

text \<open>A path is its siblings and its index bits.\<close>

type_synonym path_inputs = "string list \<times> int list"

definition path_signals :: "path_inputs \<Rightarrow> (string \<times> jv) list" where
  "path_signals = (\<lambda>(p, ix). [(''merkle_path'', V_arr (map V_str p)), (''merkle_path_indices'', V_arr (map big_val ix))])"

definition generateBetAuthProof :: "path_inputs \<Rightarrow> bet_inputs \<Rightarrow> (string \<times> jv) list" where
  "generateBetAuthProof mp b =
     [(''secret'', V_str (bi_secret b)), (''current_balance'', big_val (bi_balance b)), (''nonce'', big_val (bi_nonce b))] @ path_signals mp @
     [(''share_remainder'', big_val (bi_remainder b)), (''owner_address'', V_str (bi_owner b)), (''merkle_root'', V_str (bi_root b)),
      (''nullifier'', V_str (bi_nullifier b)), (''new_commitment'', V_str (bi_new_commitment b)), (''bet_amount'', big_val (bi_amount b)),
      (''price'', big_val (bi_price b)), (''expected_shares'', big_val (bi_shares b)), (''market_id'', V_str (bi_market b)),
      (''outcome_side'', big_val (int (bi_side b))), (''position_id'', V_str (bi_position b)), (''fee'', big_val (bi_fee b))]"

definition generateWithdrawalProof :: "path_inputs \<Rightarrow> withdrawal_inputs \<Rightarrow> (string \<times> jv) list" where
  "generateWithdrawalProof mp w =
     [(''secret'', V_str (wi_secret w)), (''final_balance'', big_val (wi_balance w)), (''nonce'', big_val (wi_nonce w))] @ path_signals mp @
     [(''owner_address'', V_str (wi_owner w)), (''recipient_address'', V_str (recipient_field (wi_owner w))), (''merkle_root'', V_str (wi_root w)),
      (''nullifier'', V_str (wi_nullifier w)), (''withdrawal_amount'', big_val (wi_amount w)),
      (''recipient_hash'', V_str (wi_recipient_hash w)), (''new_commitment'', V_str (wi_new_commitment w))]"

text \<open>The four circuits that credit a bet, with the inputs they have in common.\<close>

definition credit_signals :: "string \<Rightarrow> path_inputs \<Rightarrow> credit_inputs \<Rightarrow> (string \<times> jv) list" where
  "credit_signals balance_name mp c =
     [(''secret'', V_str (ci_secret c)), (balance_name, big_val (ci_balance c)), (''nonce'', big_val (ci_nonce c)),
      (''bet_nonce'', big_val (ci_bet_nonce c))] @ path_signals mp @
     [(''owner_address'', V_str (ci_owner c)), (''merkle_root'', V_str (ci_root c)), (''nullifier'', V_str (ci_nullifier c)),
      (''new_commitment'', V_str (ci_new_commitment c)), (''nullifier_of_bet'', V_str (ci_nullifier_of_bet c))]"

definition generateSettlementProof :: "string \<Rightarrow> path_inputs \<Rightarrow> credit_inputs \<Rightarrow> (string \<times> jv) list" where
  "generateSettlementProof market mp c = credit_signals ''balance_before_credit'' mp c @
     [(''market_id'', V_str market), (''total_credit'', big_val (ci_amount c))]"

definition generateBetCancelProof :: "path_inputs \<Rightarrow> credit_inputs \<Rightarrow> (string \<times> jv) list" where
  "generateBetCancelProof mp c = credit_signals ''current_balance'' mp c @ [(''bet_amount'', big_val (ci_amount c))]"

definition generatePositionCloseProof :: "path_inputs \<Rightarrow> credit_inputs \<Rightarrow> (string \<times> jv) list" where
  "generatePositionCloseProof mp c = credit_signals ''balance_before_credit'' mp c @ [(''sell_proceeds'', big_val (ci_amount c))]"

definition generatePartialCreditProof :: "path_inputs \<Rightarrow> credit_inputs \<Rightarrow> (string \<times> jv) list" where
  "generatePartialCreditProof mp c = credit_signals ''current_balance'' mp c @ [(''refund_amount'', big_val (ci_amount c))]"

definition generateDepositProof :: "deposit_inputs \<Rightarrow> (string \<times> jv) list" where
  "generateDepositProof d = [(''secret'', V_str (di_secret d)), (''commitment'', V_str (di_commitment d)),
     (''amount'', big_val (di_amount d)), (''owner_address'', V_str (di_owner d))]"

text \<open>The slots of a merge as arrays; an empty slot has zeros and is not active.\<close>

definition slot_signals :: "slot list \<Rightarrow> path_inputs list \<Rightarrow> (string \<times> jv) list" where
  "slot_signals slots mps =
     [(''secret'', V_arr (map (\<lambda>s. V_str (case s of None \<Rightarrow> ''0'' | Some (sec, b, n, l) \<Rightarrow> sec)) slots)),
      (''balance'', V_arr (map (\<lambda>s. big_val (case s of None \<Rightarrow> 0 | Some (sec, b, n, l) \<Rightarrow> b)) slots)),
      (''nonce'', V_arr (map (\<lambda>s. big_val (case s of None \<Rightarrow> 0 | Some (sec, b, n, l) \<Rightarrow> n)) slots)),
      (''merkle_path'', V_arr (map (\<lambda>mp. V_arr (map V_str (fst mp))) mps)),
      (''merkle_path_indices'', V_arr (map (\<lambda>mp. V_arr (map big_val (snd mp))) mps)),
      (''is_active'', V_arr (map (\<lambda>s. big_val (if s = None then 0 else 1)) slots))]"

definition generateConsolidateProof :: "path_inputs list \<Rightarrow> consolidate_inputs \<Rightarrow> (string \<times> jv) list" where
  "generateConsolidateProof mps c = slot_signals (co_slots c) mps @
     [(''owner_address'', V_str (co_owner c)), (''merkle_root'', V_str (co_root c)),
      (''nullifier'', V_arr (map V_str (co_nullifiers c))), (''new_commitment'', V_str (co_new_commitment c))]"

fun circuit_inputs :: "string \<Rightarrow> path_inputs list \<Rightarrow> request \<Rightarrow> string \<times> (string \<times> jv) list" where
  "circuit_inputs market mps (R_bet b) = (''bet_auth'', generateBetAuthProof (hd mps) b)"
| "circuit_inputs market mps (R_withdrawal w) = (''withdrawal'', generateWithdrawalProof (hd mps) w)"
| "circuit_inputs market mps (R_deposit d) = (''deposit'', generateDepositProof d)"
| "circuit_inputs market mps (R_consolidate c) = (''consolidate'', generateConsolidateProof mps c)"
| "circuit_inputs market mps (R_credit c) =
     (case ci_circuit c of
        C_settlement \<Rightarrow> (''settlement_credit'', generateSettlementProof market (hd mps) c)
      | C_bet_cancel \<Rightarrow> (''bet_cancel'', generateBetCancelProof (hd mps) c)
      | C_position_close \<Rightarrow> (''position_close'', generatePositionCloseProof (hd mps) c)
      | C_partial_credit \<Rightarrow> (''partial_credit'', generatePartialCreditProof (hd mps) c))"

subsection \<open>Proofs as bytes\<close>

record groth_proof =
  gp_a :: "string list"
  gp_b :: "string list list"
  gp_c :: "string list"

definition word_hex :: "nat \<Rightarrow> string" where
  "word_hex n = pad_start 64 (CHR ''0'') (to_string16 n)"

text \<open>The coordinates of the point in \<open>pi_b\<close> are swapped; \<open>None\<close> where \<open>BigInt\<close> throws.\<close>

definition encodeProof :: "groth_proof \<Rightarrow> string option" where
  "encodeProof p =
     map_option (\<lambda>ws. ''0x'' @ concat (map word_hex ws))
       (those (map BigInt [gp_a p ! 0, gp_a p ! 1, gp_b p ! 0 ! 1, gp_b p ! 0 ! 0, gp_b p ! 1 ! 1, gp_b p ! 1 ! 0, gp_c p ! 0, gp_c p ! 1]))"

definition signalToHex :: "string \<Rightarrow> string option" where
  "signalToHex sig = map_option toHex (BigInt sig)"

subsection \<open>Bodies\<close>

text \<open>The signed report is split into the report and its signature; an absent key is dropped by JSON.\<close>

definition attBody :: "jv option \<Rightarrow> (string \<times> jv) list" where
  "attBody att =
     (case att of
        Some (V_obj kvs) \<Rightarrow> (''attestation'', V_obj (filter (\<lambda>(k, v). k \<noteq> ''signature'') kvs)) #
          (case map_of kvs ''signature'' of None \<Rightarrow> [] | Some sg \<Rightarrow> [(''signature'', sg)])
      | _ \<Rightarrow> [])"

definition bet_body_inputs :: "bet_inputs \<Rightarrow> (string \<times> jv) list" where
  "bet_body_inputs b =
     [(''merkle_root'', V_str (bi_root b)), (''nullifier'', V_str (bi_nullifier b)), (''new_commitment'', V_str (bi_new_commitment b)),
      (''bet_amount'', big_val (bi_amount b)), (''price'', big_val (bi_price b)), (''expected_shares'', big_val (bi_shares b)),
      (''market_id'', V_str (bi_market b)), (''outcome_side'', V_str (if bi_side b = 0 then ''0'' else ''1'')),
      (''position_id'', V_str (bi_position b))]"

definition withdrawal_body_inputs :: "withdrawal_inputs \<Rightarrow> (string \<times> jv) list" where
  "withdrawal_body_inputs w =
     [(''merkle_root'', V_str (wi_root w)), (''nullifier'', V_str (wi_nullifier w)), (''withdrawal_amount'', big_val (wi_amount w)),
      (''recipient_hash'', V_str (wi_recipient_hash w)), (''new_commitment'', V_str (wi_new_commitment w))]"

definition credit_body_inputs :: "credit_inputs \<Rightarrow> (string \<times> jv) list" where
  "credit_body_inputs c =
     [(''merkle_root'', V_str (ci_root c)), (''nullifier'', V_str (ci_nullifier c)), (''new_commitment'', V_str (ci_new_commitment c)),
      (''nullifier_of_bet'', V_str (ci_nullifier_of_bet c))]"

definition consolidate_body_inputs :: "consolidate_inputs \<Rightarrow> (string \<times> jv) list" where
  "consolidate_body_inputs c =
     [(''merkle_root'', V_str (co_root c)), (''nullifiers'', V_arr (map V_str (co_nullifiers c))),
      (''new_commitment'', V_str (co_new_commitment c))]"

definition post_body :: "string \<Rightarrow> (string \<times> jv) list \<Rightarrow> (string \<times> jv) list \<Rightarrow> jv" where
  "post_body pf inputs rest = V_obj ([(''proof'', V_str pf), (''inputs'', V_obj inputs)] @ rest)"

text \<open>
  The route and the body of a request.  A settlement names the market, a withdrawal its
  recipient, a credit carries the operator's report if there is one; a deposit goes to
  the wallet and not to the relay.
\<close>

fun client_call :: "string \<Rightarrow> string \<Rightarrow> jv option \<Rightarrow> request \<Rightarrow> (relay_route \<times> jv) option" where
  "client_call pf market att (R_bet b) = Some (P_bet, post_body pf (bet_body_inputs b) [])"
| "client_call pf market att (R_withdrawal w) =
     Some (P_withdrawal, post_body pf (withdrawal_body_inputs w) [(''recipientAddress'', V_str (wi_owner w))])"
| "client_call pf market att (R_consolidate c) = Some (P_consolidate, post_body pf (consolidate_body_inputs c) [])"
| "client_call pf market att (R_deposit d) = None"
| "client_call pf market att (R_credit c) =
     (case ci_circuit c of
        C_settlement \<Rightarrow> Some (P_settlement, post_body pf
          (credit_body_inputs c @ [(''market_id'', V_str market), (''total_credit'', big_val (ci_amount c))]) (attBody att))
      | C_bet_cancel \<Rightarrow> Some (P_bet_cancel, post_body pf (credit_body_inputs c) (attBody att))
      | C_position_close \<Rightarrow> Some (P_close, post_body pf (credit_body_inputs c) (attBody att))
      | C_partial_credit \<Rightarrow> Some (P_partial_credit, post_body pf (credit_body_inputs c) (attBody att)))"

end
