(* ===== verification/Relay_Reads.thy ===== *)
theory Relay_Reads
  imports Relay Decimal_Text
begin

section \<open>The proof relay: the caches it serves\<close>

text \<open>
  The read routes of \<open>proof-relay/src/api.ts\<close> over the Merkle cache and the event
  index, and the nudges that pull new blocks into both (\<open>index.ts\<close>, \<open>trackReceipt\<close>
  of \<open>relayer.ts\<close>).  Time is what the caller passes; a nudge at a later time is a
  synchronisation against the node of that time.
\<close>

subsection \<open>Nudges\<close>

record caches =
  ca_tree :: mtree
  ca_index :: event_index

record node_view =
  nv_tree :: tree_env
  nv_index :: index_env

definition nudgeCaches :: "hash2 \<Rightarrow> node_view \<Rightarrow> caches \<Rightarrow> caches" where
  "nudgeCaches h nv c =
     \<lparr>ca_tree = syncNow h (nv_tree nv) (ca_tree c), ca_index = index_syncNow (nv_index nv) (ca_index c)\<rparr>"

text \<open>
  After a relayed transaction confirms, one nudge at once and one when the
  confirmation buffer has passed; a receipt that cannot be read causes none.
\<close>

definition trackReceipt :: "hash2 \<Rightarrow> bool \<Rightarrow> node_view \<Rightarrow> node_view \<Rightarrow> caches \<Rightarrow> caches" where
  "trackReceipt h confirmed now later c =
     (if confirmed then nudgeCaches h later (nudgeCaches h now c) else c)"

definition deposit_hint :: "hash2 \<Rightarrow> node_view \<Rightarrow> caches \<Rightarrow> reply \<times> caches" where
  "deposit_hint h later c = (Reply 202 (V_obj [(''status'', V_str ''syncing'')]), nudgeCaches h later c)"

subsection \<open>Merkle paths\<close>

text \<open>
  \<open>pe_set\<close>: the provider and the tree address are configured.  The chain path reads
  the node on its own; \<open>pe_logs\<close> answers its log queries, with a chunk size.
\<close>

record path_env =
  pe_set :: bool
  pe_node :: tree_env
  pe_latest :: "string + int"
  pe_deploy :: int
  pe_chunk :: int
  pe_logs :: "nat \<Rightarrow> int \<Rightarrow> int \<Rightarrow> rpc_error + (int \<times> nat \<times> nat) option list"

datatype path_reply = PathOk merkle_proof | PathErr nat string

definition chain_path :: "hash2 \<Rightarrow> path_env \<Rightarrow> string \<Rightarrow> path_reply" where
  "chain_path h env c =
     (case computeMerkleProof h c (pe_latest env) (Some (pe_deploy env)) (pe_chunk env) (pe_logs env) of
        Inl e \<Rightarrow> PathErr 500 ''merkle path computation failed''
      | Inr None \<Rightarrow> PathErr 404 ''commitment not found in tree''
      | Inr (Some p) \<Rightarrow> PathOk p)"

definition merkle_path :: "hash2 \<Rightarrow> path_env \<Rightarrow> string \<Rightarrow> mtree option \<Rightarrow> path_reply \<times> mtree option" where
  "merkle_path h env c cache =
     (if \<not> pe_set env then (PathErr 503 ''merkle provider not initialised'', cache)
      else if \<not> hex_bytes 32 c then (PathErr 400 ''commitment must be 0x-prefixed 32-byte hex'', cache)
      else case cache of
        None \<Rightarrow> (chain_path h env c, cache)
      | Some t \<Rightarrow>
          (case proofFor h c t of
             Inl e \<Rightarrow> (PathErr 500 ''merkle path computation failed'', cache)
           | Inr first \<Rightarrow>
               let miss = (first = None \<and> isReady t);
                   t1 = (if miss then syncNow h (pe_node env) t else t)
               in (case (if miss then proofFor h c t1 else Inr first) of
                     Inl e \<Rightarrow> (PathErr 500 ''merkle path computation failed'', Some t1)
                   | Inr (Some p) \<Rightarrow> (PathOk p, Some t1)
                   | Inr None \<Rightarrow>
                       if isReady t1 then (PathErr 404 ''commitment not yet indexed - retry shortly'', Some t1)
                       else (chain_path h env c, Some t1))))"

subsection \<open>Recovery data\<close>

definition FEE_CONFIG_TTL_MS :: int where "FEE_CONFIG_TTL_MS = 300000"

record fee_cache =
  fk_bps :: string
  fk_gas :: string
  fk_at :: int

record data_env =
  de_set :: bool
  de_node :: index_env
  de_fee :: "(string \<times> string) option"
  de_root :: "string option"
  de_now :: int
  de_deploy :: int

record recovery_body =
  rb_deposits :: "IndexedEvent list"
  rb_spends :: "IndexedEvent list"
  rb_timestamps :: "(int \<times> int) list"
  rb_bps :: string
  rb_gas :: string
  rb_root :: string
  rb_deploy :: int

datatype data_reply = DataOk recovery_body | DataErr nat string

definition fee_answer :: "data_env \<Rightarrow> fee_cache option \<Rightarrow> (string \<times> string) \<times> fee_cache option" where
  "fee_answer env fk =
     (case (case fk of Some k \<Rightarrow> if de_now env - fk_at k < FEE_CONFIG_TTL_MS then Some (fk_bps k, fk_gas k) else None
            | None \<Rightarrow> None) of
        Some cached \<Rightarrow> (cached, fk)
      | None \<Rightarrow>
          (case de_fee env of
             Some (bps, gas) \<Rightarrow> ((bps, gas), Some \<lparr>fk_bps = bps, fk_gas = gas, fk_at = de_now env\<rparr>)
           | None \<Rightarrow> ((''0'', ''0''), fk)))"

definition recovery_data :: "data_env \<Rightarrow> string \<Rightarrow> event_index option \<times> fee_cache option
    \<Rightarrow> data_reply \<times> event_index option \<times> fee_cache option" where
  "recovery_data env depositor = (\<lambda>(idx, fk).
     if \<not> hex_bytes 20 depositor then (DataErr 400 ''depositor must be a 0x-prefixed 20-byte address'', idx, fk)
     else case idx of
       None \<Rightarrow> (DataErr 503 ''recovery index not ready'', idx, fk)
     | Some s \<Rightarrow>
         if \<not> index_isReady s \<or> \<not> de_set env then (DataErr 503 ''recovery index not ready'', idx, fk)
         else let s1 = index_syncNow (de_node env) s;
                  (deposits, spends) = recoveryData depositor s1;
                  blocks = foldl (\<lambda>bs b. set_add b bs) [] (map ev_block (deposits @ spends));
                  ((bps, gas), fk1) = fee_answer env fk
              in (DataOk \<lparr>rb_deposits = deposits, rb_spends = spends, rb_timestamps = blockTimestamps blocks s1,
                    rb_bps = bps, rb_gas = gas, rb_root = (case de_root env of Some r \<Rightarrow> r | None \<Rightarrow> ''0x''),
                    rb_deploy = de_deploy env\<rparr>, Some s1, fk1))"

subsection \<open>Event lists\<close>

text \<open>A missing index and one that is not ready answer 503, here \<open>None\<close>.\<close>

definition ready_index :: "event_index option \<Rightarrow> event_index option" where
  "ready_index idx = (case idx of Some s \<Rightarrow> if index_isReady s then Some s else None | None \<Rightarrow> None)"

definition events_limit :: "string option \<Rightarrow> int" where
  "events_limit q = min (max (parse_int_or 1000 (case q of Some s \<Rightarrow> s | None \<Rightarrow> ''1000'')) 1) 5000"

definition events_route :: "string option \<Rightarrow> event_index option \<Rightarrow> (IndexedEvent \<times> int option) list option" where
  "events_route q idx = map_option (allEvents (nat (events_limit q))) (ready_index idx)"

definition index_head_route :: "event_index option \<Rightarrow> (int \<times> bool) option" where
  "index_head_route idx = map_option (\<lambda>s. (headBlock s, True)) (ready_index idx)"

definition bet_authorized_route :: "string option \<Rightarrow> string option \<Rightarrow> event_index option \<Rightarrow> (int \<times> IndexedEvent list) option" where
  "bet_authorized_route qfrom qto idx =
     map_option (\<lambda>s.
       let lo = max 0 (parse_int_or 0 (case qfrom of Some t \<Rightarrow> t | None \<Rightarrow> ''0''));
           hi = (case qto of Some t \<Rightarrow> parse_int_or 0 t | None \<Rightarrow> headBlock s)
       in (headBlock s, betAuthorizedEvents lo hi s)) (ready_index idx)"

definition resolved_markets_route :: "event_index option \<Rightarrow> (int \<times> string list) option" where
  "resolved_markets_route idx = map_option (\<lambda>s. (headBlock s, resolvedMarketIds s)) (ready_index idx)"

end
