(* ===== verification/Relay_Props.thy ===== *)
theory Relay_Props
  imports Relay_Reads
begin

section \<open>What the relay guarantees\<close>

text \<open>
  Only validated calls reach the vault, with consecutive nonces; the path route
  serves verified paths whatever the node answers, and the event routes serve the
  index as it is.
\<close>

subsection \<open>Parsing is idempotent\<close>

fun wf_schema :: "zod \<Rightarrow> bool" and wf_fields :: "(string \<times> zod) list \<Rightarrow> bool" where
  "wf_schema (Z_string p) \<longleftrightarrow> True"
| "wf_schema (Z_int lo hi) \<longleftrightarrow> True"
| "wf_schema (Z_array z n) \<longleftrightarrow> wf_schema z"
| "wf_schema (Z_optional z) \<longleftrightarrow> wf_schema z"
| "wf_schema (Z_object fs) \<longleftrightarrow> wf_fields fs"
| "wf_fields [] \<longleftrightarrow> True"
| "wf_fields ((k, z) # fs) \<longleftrightarrow> wf_schema z \<and> k \<notin> fst ` set fs \<and> wf_fields fs"

definition declared :: "(string \<times> zod) list \<Rightarrow> (string \<Rightarrow> jv option) \<Rightarrow> (string \<times> jv) list" where
  "declared fs f = concat (map (\<lambda>(k, z). case f k of None \<Rightarrow> [] | Some x \<Rightarrow> [(k, x)]) fs)"

lemma parse_fields_declared:
  assumes "\<forall>(k, z) \<in> set fs. safeParse z (map_of kvs k) = Some (map_of kvs k)"
  shows "parse_fields fs kvs = Some (declared fs (map_of kvs))"
  using assms by (induction fs) (auto simp: declared_def split: option.splits)

lemma declared_keys: "fst ` set (declared fs f) \<subseteq> fst ` set fs"
  by (force simp: declared_def split: option.splits)

lemma declared_cong: "(\<And>k. k \<in> fst ` set fs \<Longrightarrow> f k = g k) \<Longrightarrow> declared fs f = declared fs g"
  by (induction fs) (auto simp: declared_def)

lemma those_Some: "those xs = Some ys \<Longrightarrow> xs = map Some ys"
  by (induction xs arbitrary: ys) (auto split: option.splits)

lemma those_map_Some: "(\<And>y. y \<in> set ys \<Longrightarrow> f y = Some y) \<Longrightarrow> those (map f ys) = Some ys"
  by (induction ys) auto

lemma parsed_again:
  "wf_schema z \<Longrightarrow> safeParse z v = Some w \<Longrightarrow> safeParse z w = Some w"
  "wf_fields fs \<Longrightarrow> parse_fields fs kvs = Some ws \<Longrightarrow>
     (\<forall>(k, z) \<in> set fs. safeParse z (map_of ws k) = Some (map_of ws k)) \<and> declared fs (map_of ws) = ws"
proof (induction z v and fs kvs arbitrary: w and ws rule: safeParse_parse_fields.induct)
  case (1 p v)
  then show ?case by (auto split: option.splits jv.splits if_splits)
next
  case (2 lo hi v)
  then show ?case by (auto split: option.splits jv.splits if_splits)
next
  case (3 z n v)
  from 3(3) obtain vs ys where v: "v = Some (V_arr vs)" "length vs = n"
    and ys: "those (map (\<lambda>x. Option.bind (safeParse z (Some x)) id) vs) = Some ys" "w = Some (V_arr ys)"
    by (auto split: option.splits jv.splits if_splits)
  have m: "map (\<lambda>x. Option.bind (safeParse z (Some x)) id) vs = map Some ys" by (rule those_Some [OF ys(1)])
  then have len: "length ys = n" using v(2) by (metis length_map)
  have "Option.bind (safeParse z (Some y)) id = Some y" if y: "y \<in> set ys" for y
  proof -
    obtain i where i: "i < length ys" "ys ! i = y" using y by (auto simp: in_set_conv_nth)
    then have "map (\<lambda>x. Option.bind (safeParse z (Some x)) id) vs ! i = Some y" using m by simp
    then have "Option.bind (safeParse z (Some (vs ! i))) id = Some y" using i len v(2) by simp
    then have "safeParse z (Some (vs ! i)) = Some (Some y)" by (cases "safeParse z (Some (vs ! i))") auto
    moreover have "vs ! i \<in> set vs" using i len v(2) by simp
    ultimately have "safeParse z (Some y) = Some (Some y)"
      using 3(1) [OF v(1) refl v(2)] 3(2) by simp
    then show ?thesis by simp
  qed
  then have "those (map (\<lambda>x. Option.bind (safeParse z (Some x)) id) ys) = Some ys"
    by (rule those_map_Some)
  then show ?case using ys(2) len by simp
next
  case (4 z v)
  show ?case
  proof (cases v)
    case None
    then show ?thesis using 4(3) by simp
  next
    case (Some x)
    then have "safeParse z w = Some w" using 4(1) [OF Some] 4(2,3) by simp
    then show ?thesis by (cases w) simp_all
  qed
next
  case (5 fs v)
  obtain kvs ws where p: "v = Some (V_obj kvs)" "parse_fields fs kvs = Some ws" "w = Some (V_obj ws)"
    using 5(3) by (cases v) (auto split: jv.splits)
  have "(\<forall>(k, z) \<in> set fs. safeParse z (map_of ws k) = Some (map_of ws k)) \<and> declared fs (map_of ws) = ws"
    by (rule 5(1) [OF p(1) refl _ p(2)]) (use 5(2) in simp)
  then have "parse_fields fs ws = Some ws" using parse_fields_declared [of fs ws] by simp
  then show ?case by (simp add: p(3))
next
  case (6 kvs)
  then show ?case by (simp add: declared_def)
next
  case (7 k z fs kvs)
  obtain x ws' where x: "safeParse z (map_of kvs k) = Some x" and ws': "parse_fields fs kvs = Some ws'"
    and ws: "ws = (case x of None \<Rightarrow> ws' | Some y \<Rightarrow> (k, y) # ws')"
    using 7(4) by (auto split: option.splits)
  have k: "k \<notin> fst ` set fs" and wf: "wf_schema z" "wf_fields fs" using 7(3) by auto
  have IH: "\<forall>(k, z) \<in> set fs. safeParse z (map_of ws' k) = Some (map_of ws' k)" "declared fs (map_of ws') = ws'"
    using 7(2) [OF x wf(2) ws'] by auto
  have "k \<notin> fst ` set ws'" using declared_keys [of fs "map_of ws'"] IH(2) k by auto
  then have look: "map_of ws k = x" "\<And>k'. k' \<in> fst ` set fs \<Longrightarrow> map_of ws k' = map_of ws' k'"
    using ws k by (auto simp: map_of_eq_None_iff split: option.splits)
  have "declared ((k, z) # fs) (map_of ws) = ws"
    using IH(2) declared_cong [of fs "map_of ws" "map_of ws'"] look ws
    by (auto simp: declared_def split: option.splits)
  moreover have "\<forall>(k, z) \<in> set fs. safeParse z (map_of ws k) = Some (map_of ws k)"
    using IH(1) look(2) by (metis (no_types, lifting) case_prodI2 fst_conv image_eqI case_prodD)
  ultimately show ?case using look(1) 7(1) [OF wf(1) x] by auto
qed

subsection \<open>Only validated calls are sent\<close>

text \<open>
  The inputs each function of the vault takes, as the schemas state them.  The tuple
  of \<open>consolidate\<close> calls the array \<open>nullifier\<close>.
\<close>

definition call_schema :: "string \<Rightarrow> zod option" where
  "call_schema fn = map_of
     [(''authorizeBet'', betInputsSchema), (''creditSettlement'', settlementInputsSchema),
      (''withdraw'', withdrawalInputsSchema), (''betCancellationCredit'', fourFieldInputsSchema),
      (''naCancellationCredit'', naCancelInputsSchema), (''closePosition'', fourFieldInputsSchema),
      (''partialFillCredit'', fourFieldInputsSchema),
      (''consolidate'', Z_object [(''merkle_root'', HEX32_schema), (''nullifier'', Z_array HEX32_schema 4),
         (''new_commitment'', HEX32_schema)])] fn"

definition valid_rest :: "string \<Rightarrow> jv list \<Rightarrow> bool" where
  "valid_rest fn rest =
     (if fn = ''authorizeBet'' \<or> fn = ''consolidate'' then rest = []
      else if fn = ''withdraw'' then (case rest of [V_str a] \<Rightarrow> hex_bytes 20 a | _ \<Rightarrow> False)
      else (case rest of
              [att, V_str sg] \<Rightarrow> (att = ZERO_ATT \<or> safeParse attestationSchema (Some att) = Some (Some att)) \<and> hex_text sg
            | _ \<Rightarrow> False))"

definition valid_call :: "vault_call \<Rightarrow> bool" where
  "valid_call c =
     (case vc_args c of
        V_str pf # inputs # rest \<Rightarrow>
          hex_text pf \<and> valid_rest (vc_fn c) rest \<and>
          (case call_schema (vc_fn c) of
             Some z \<Rightarrow> safeParse z (Some inputs) = Some (Some inputs)
           | None \<Rightarrow> False)
      | _ \<Rightarrow> False)"

lemmas schema_defs = HEX32_schema_def NUM_schema_def PROOF_schema_def SIG_schema_def betInputsSchema_def
  settlementInputsSchema_def withdrawalInputsSchema_def fourFieldInputsSchema_def naCancelInputsSchema_def
  attestationSchema_def consolidateInputsSchema_def

lemmas body_defs = betSchema_def settlementSchema_def withdrawalSchema_def betCancelSchema_def naCancelSchema_def
  closeSchema_def partialCreditSchema_def consolidateSchema_def

lemma wf_input_schemas:
  "wf_schema betInputsSchema" "wf_schema settlementInputsSchema" "wf_schema withdrawalInputsSchema"
  "wf_schema fourFieldInputsSchema" "wf_schema naCancelInputsSchema" "wf_schema attestationSchema"
  "wf_schema consolidateInputsSchema"
  by (simp_all add: schema_defs)

text \<open>What a parsed body holds: a proof, inputs of the schema, and the optional report.\<close>

lemma parse_string_schema:
  "safeParse (Z_string p) v = Some w \<longleftrightarrow> (\<exists>s. v = Some (V_str s) \<and> p s \<and> w = v)"
  by (auto split: option.splits jv.splits)

lemma parsed_field:
  assumes "safeParse (Z_object fs) body = Some (Some d)" "wf_schema (Z_object fs)" "(k, z) \<in> set fs"
  shows "safeParse z (prop_of k d) = Some (prop_of k d)"
proof -
  obtain kvs ws where p: "parse_fields fs kvs = Some ws" "d = V_obj ws"
    using assms(1) by (cases body) (auto split: jv.splits)
  have "\<forall>(k, z) \<in> set fs. safeParse z (map_of ws k) = Some (map_of ws k)"
    using parsed_again(2) [OF _ p(1)] assms(2) by simp
  then have "safeParse z (map_of ws k) = Some (map_of ws k)" using assms(3) by (auto dest!: bspec)
  then show ?thesis by (simp only: p(2) prop_of.simps)
qed

lemma body_parts:
  assumes "safeParse (Z_object fs) body = Some (Some d)" "wf_schema (Z_object fs)"
  shows "(''proof'', PROOF_schema) \<in> set fs \<Longrightarrow> hex_text (proof_of d)"
    "(''inputs'', Z_object gs) \<in> set fs \<Longrightarrow> safeParse (Z_object gs) (Some (inputs_of d)) = Some (Some (inputs_of d))"
    "(''attestation'', attestationSchema) \<in> set fs \<Longrightarrow> (''signature'', SIG_schema) \<in> set fs \<Longrightarrow>
       \<exists>att sg. attArgs (prop_of ''attestation'' d) (sig_of d) = [att, V_str sg] \<and>
         (att = ZERO_ATT \<or> safeParse attestationSchema (Some att) = Some (Some att)) \<and> hex_text sg"
    "(''recipientAddress'', Z_string (hex_bytes 20)) \<in> set fs \<Longrightarrow> hex_bytes 20 (str_of (prop_of ''recipientAddress'' d))"
proof -
  note f = parsed_field [OF assms]
  show "hex_text (proof_of d)" if "(''proof'', PROOF_schema) \<in> set fs"
    using f [OF that] by (auto simp: PROOF_schema_def parse_string_schema proof_of_def simp del: safeParse.simps)
  show "hex_bytes 20 (str_of (prop_of ''recipientAddress'' d))"
    if "(''recipientAddress'', Z_string (hex_bytes 20)) \<in> set fs"
    using f [OF that] by (auto simp: parse_string_schema simp del: safeParse.simps)
  show "safeParse (Z_object gs) (Some (inputs_of d)) = Some (Some (inputs_of d))" if "(''inputs'', Z_object gs) \<in> set fs"
    using f [OF that] by (cases "prop_of ''inputs'' d") (auto simp: inputs_of_def simp del: parse_fields.simps)
  assume a: "(''attestation'', attestationSchema) \<in> set fs" and s: "(''signature'', SIG_schema) \<in> set fs"
  let ?sg = "case sig_of d of None \<Rightarrow> ''0x'' | Some s \<Rightarrow> s"
  let ?att = "case prop_of ''attestation'' d of None \<Rightarrow> ZERO_ATT | Some a \<Rightarrow> a"
  have "hex_text ?sg"
  proof (cases "prop_of ''signature'' d")
    case None
    then show ?thesis by (simp add: sig_of_def hex_text_def)
  next
    case (Some v)
    then show ?thesis using f [OF s]
      by (auto simp: SIG_schema_def sig_of_def split: option.splits jv.splits if_splits)
  qed
  moreover have "?att = ZERO_ATT \<or> safeParse attestationSchema (Some ?att) = Some (Some ?att)"
    using f [OF a] by (cases "prop_of ''attestation'' d") simp_all
  ultimately show "\<exists>att sg. attArgs (prop_of ''attestation'' d) (sig_of d) = [att, V_str sg] \<and>
      (att = ZERO_ATT \<or> safeParse attestationSchema (Some att) = Some (Some att)) \<and> hex_text sg"
    unfolding attArgs_def by blast
qed

lemma validated_cases:
  "validated z body k s = (error_reply 400 ''invalid inputs'', s) \<or>
     (\<exists>d. safeParse z body = Some (Some d) \<and> validated z body k s = k d)"
  by (auto simp: validated_def split: option.splits)

lemma valid_call_intro:
  assumes "hex_text pf" "call_schema fn = Some z" "safeParse z (Some inputs) = Some (Some inputs)" "valid_rest fn rest"
  shows "valid_call \<lparr>vc_fn = fn, vc_args = V_str pf # inputs # rest\<rparr>"
  using assms by (simp add: valid_call_def)

definition relayed :: "'w relay_env \<Rightarrow> reply \<times> 'w relay_state \<Rightarrow> 'w relay_state \<Rightarrow> bool" where
  "relayed env r s \<longleftrightarrow> (\<exists>c. valid_call c \<and> r = answer env (relay_send env c s)) \<or>
     (\<exists>st msg. st \<in> {400, 409} \<and> r = (error_reply st msg, s))"

lemma relayed_send:
  assumes "valid_call c"
  shows "relayed env (answer env (relay_send env c s)) s"
  using assms by (auto simp: relayed_def)

lemma relayed_refused: "st \<in> {400, 409} \<Longrightarrow> relayed env (error_reply st msg, s) s"
  by (auto simp: relayed_def)

lemma relayed_validated:
  assumes "\<And>d. safeParse z body = Some (Some d) \<Longrightarrow> relayed env (k d) s"
  shows "relayed env (validated z body k s) s"
  using validated_cases [of z body k s] assms relayed_refused by (metis insertI1)

lemma consolidate_tuple_valid:
  assumes "safeParse consolidateInputsSchema (Some i) = Some (Some i)"
  shows "safeParse (the (call_schema ''consolidate'')) (Some (consolidate_tuple i)) = Some (Some (consolidate_tuple i))"
proof -
  have f: "safeParse z (prop_of k i) = Some (prop_of k i)"
    if "(k, z) \<in> {(''merkle_root'', HEX32_schema), (''nullifiers'', Z_array HEX32_schema 4), (''new_commitment'', HEX32_schema)}" for k z
    using parsed_field [OF assms [unfolded consolidateInputsSchema_def]] that wf_input_schemas(7)
    by (auto simp: consolidateInputsSchema_def)
  obtain r where r: "prop_of ''merkle_root'' i = Some (V_str r)" "hex_bytes 32 r"
    using f [of "''merkle_root''" HEX32_schema] by (auto simp: HEX32_schema_def parse_string_schema simp del: safeParse.simps)
  obtain c where c: "prop_of ''new_commitment'' i = Some (V_str c)" "hex_bytes 32 c"
    using f [of "''new_commitment''" HEX32_schema] by (auto simp: HEX32_schema_def parse_string_schema simp del: safeParse.simps)
  obtain ns where ns: "prop_of ''nullifiers'' i = Some ns"
    using f [of "''nullifiers''" "Z_array HEX32_schema 4"] by (cases "prop_of ''nullifiers'' i") simp_all
  have n: "safeParse (Z_array HEX32_schema 4) (Some ns) = Some (Some ns)"
    using f [of "''nullifiers''" "Z_array HEX32_schema 4"] ns by simp
  have h: "safeParse HEX32_schema (Some (V_str s)) = Some (Some (V_str s))" if "hex_bytes 32 s" for s
    using that by (simp add: HEX32_schema_def)
  have t: "consolidate_tuple i = V_obj [(''merkle_root'', V_str r), (''nullifier'', ns), (''new_commitment'', V_str c)]"
    by (simp add: consolidate_tuple_def r(1) c(1) ns)
  have "safeParse (Z_object [(''merkle_root'', HEX32_schema), (''nullifier'', Z_array HEX32_schema 4),
      (''new_commitment'', HEX32_schema)]) (Some (consolidate_tuple i)) = Some (Some (consolidate_tuple i))"
    unfolding t using n h [OF r(2)] h [OF c(2)] by (simp del: safeParse.simps(1,3) add: safeParse.simps(5))
  then show ?thesis by (simp add: call_schema_def)
qed

lemma credit_call_relayed:
  assumes "safeParse (Z_object [(''proof'', PROOF_schema), (''inputs'', Z_object gs),
      (''attestation'', attestationSchema), (''signature'', SIG_schema)]) body = Some (Some d)"
    "wf_schema (Z_object gs)" "call_schema fn = Some (Z_object gs)" "fn \<notin> {''authorizeBet'', ''consolidate'', ''withdraw''}"
  shows "relayed env (answer env (relay_send env
     \<lparr>vc_fn = fn, vc_args = [V_str (proof_of d), inputs_of d] @ attArgs (prop_of ''attestation'' d) (sig_of d)\<rparr> s)) s"
proof -
  have wf: "wf_schema (Z_object [(''proof'', PROOF_schema), (''inputs'', Z_object gs),
      (''attestation'', attestationSchema), (''signature'', SIG_schema)])"
    using assms(2) wf_input_schemas(6) by (simp add: PROOF_schema_def SIG_schema_def)
  obtain att sg where a: "attArgs (prop_of ''attestation'' d) (sig_of d) = [att, V_str sg]"
    "att = ZERO_ATT \<or> safeParse attestationSchema (Some att) = Some (Some att)" "hex_text sg"
    using body_parts(3) [OF assms(1) wf] by auto
  have "valid_call \<lparr>vc_fn = fn, vc_args = V_str (proof_of d) # inputs_of d # [att, V_str sg]\<rparr>"
    by (rule valid_call_intro [OF _ assms(3)])
      (use body_parts(1) [OF assms(1) wf] body_parts(2) [OF assms(1) wf, of gs] a(2,3) assms(4) in
        \<open>simp_all add: valid_rest_def del: safeParse.simps\<close>)
  from relayed_send [OF this] show ?thesis by (simp add: a(1))
qed

lemma relay_request_relayed: "relayed env (relay_request env p b s) s"
proof (cases p)
  case P_bet
  show ?thesis unfolding P_bet relay_request.simps relay_bet_def
  proof (rule relayed_validated)
    fix d assume d: "safeParse betSchema b = Some (Some d)"
    have "valid_call \<lparr>vc_fn = ''authorizeBet'', vc_args = V_str (proof_of d) # inputs_of d # []\<rparr>"
      using body_parts(1,2) [OF d [unfolded betSchema_def betInputsSchema_def]]
      by (intro valid_call_intro) (simp_all add: call_schema_def valid_rest_def betInputsSchema_def schema_defs del: safeParse.simps)
    then show "relayed env (answer env (relayAuthorizeBet env (proof_of d) (inputs_of d) s)) s"
      unfolding relayAuthorizeBet_def by (rule relayed_send)
  qed
next
  case P_withdrawal
  show ?thesis unfolding P_withdrawal relay_request.simps relay_withdrawal_def
  proof (rule relayed_validated)
    fix d assume d: "safeParse withdrawalSchema b = Some (Some d)"
    have "valid_call \<lparr>vc_fn = ''withdraw'', vc_args = V_str (proof_of d) # inputs_of d #
        [V_str (str_of (prop_of ''recipientAddress'' d))]\<rparr>"
      using body_parts(1,2,4) [OF d [unfolded withdrawalSchema_def withdrawalInputsSchema_def]]
      by (intro valid_call_intro) (simp_all add: call_schema_def valid_rest_def withdrawalInputsSchema_def schema_defs del: safeParse.simps)
    then show "relayed env (answer env (relayWithdraw env (proof_of d) (inputs_of d) (str_of (prop_of ''recipientAddress'' d)) s)) s"
      unfolding relayWithdraw_def by (rule relayed_send)
  qed
next
  case P_consolidate
  show ?thesis unfolding P_consolidate relay_request.simps relay_consolidate_def
  proof (rule relayed_validated)
    fix d assume d: "safeParse consolidateSchema b = Some (Some d)"
    have "safeParse consolidateInputsSchema (Some (inputs_of d)) = Some (Some (inputs_of d))"
      using body_parts(2) [OF d [unfolded consolidateSchema_def consolidateInputsSchema_def]]
      by (simp add: schema_defs del: safeParse.simps)
    from consolidate_tuple_valid [OF this]
    have "valid_call \<lparr>vc_fn = ''consolidate'', vc_args = V_str (proof_of d) # consolidate_tuple (inputs_of d) # []\<rparr>"
      using body_parts(1) [OF d [unfolded consolidateSchema_def consolidateInputsSchema_def]]
      by (intro valid_call_intro) (simp_all add: call_schema_def valid_rest_def schema_defs del: safeParse.simps)
    then show "relayed env (answer env (relayConsolidate env (proof_of d) (inputs_of d) s)) s"
      unfolding relayConsolidate_def by (rule relayed_send)
  qed
next
  case P_settlement
  show ?thesis unfolding P_settlement relay_request.simps relay_settlement_def
  proof (rule relayed_validated)
    fix d assume d: "safeParse settlementSchema b = Some (Some d)"
    have "relayed env (answer env (relayCreditSettlement env (proof_of d) (inputs_of d) (prop_of ''attestation'' d) (sig_of d) s)) s"
      unfolding relayCreditSettlement_def
      by (rule credit_call_relayed [OF d [unfolded settlementSchema_def settlementInputsSchema_def]])
        (simp_all add: call_schema_def schema_defs)
    then show "relayed env (let att = prop_of ''attestation'' d; nob = str_of (prop_of ''nullifier_of_bet'' (inputs_of d));
        go = answer env (relayCreditSettlement env (proof_of d) (inputs_of d) att (sig_of d) s)
      in if nob \<noteq> '''' then
          if \<not> hex_bytes 32 nob then (error_reply 400 ''invalid inputs'', s)
          else (case settlement_terminal (snd (checkBetFilled env nob (snd s))) (att \<noteq> None) of
                  Some t \<Rightarrow> (error_reply 409 (''bet '' @ t), s)
                | None \<Rightarrow> go)
        else go) s"
      by (auto simp: Let_def relayed_refused split: option.splits)
  qed
next
  case P_bet_cancel
  show ?thesis unfolding P_bet_cancel relay_request.simps relay_bet_cancel_def relayBetCancellationCredit_def
    by (rule relayed_validated, rule credit_call_relayed, simp only: betCancelSchema_def fourFieldInputsSchema_def)
      (simp_all add: call_schema_def schema_defs)
next
  case P_na_cancel
  show ?thesis unfolding P_na_cancel relay_request.simps relay_na_cancel_def relayNACancellationCredit_def
    by (rule relayed_validated, rule credit_call_relayed, simp only: naCancelSchema_def naCancelInputsSchema_def)
      (simp_all add: call_schema_def schema_defs)
next
  case P_close
  show ?thesis unfolding P_close relay_request.simps relay_close_def relayClosePosition_def
    by (rule relayed_validated, rule credit_call_relayed, simp only: closeSchema_def fourFieldInputsSchema_def)
      (simp_all add: call_schema_def schema_defs)
next
  case P_partial_credit
  show ?thesis unfolding P_partial_credit relay_request.simps relay_partial_credit_def relayPartialFillCredit_def
    by (rule relayed_validated, rule credit_call_relayed, simp only: partialCreditSchema_def fourFieldInputsSchema_def)
      (simp_all add: call_schema_def schema_defs)
qed

text \<open>
  C12: the relay sends only what it has validated.  Every request to one of its eight
  routes either is refused, with status 400 or 409, before a nonce is taken and without
  any effect, or sends one call to the vault whose proof and inputs conform to the
  function's schema (hashes of 32 bytes, decimal amounts, four nullifiers for a merge),
  whose recipient is an address, and whose report is either absent (all zero) or well-formed.
\<close>

theorem relay_sends_validated:
  "(\<exists>c. valid_call c \<and> relay_request env p body s = answer env (relay_send env c s)) \<or>
     (\<exists>st msg. st \<in> {400, 409} \<and> relay_request env p body s = (error_reply st msg, s))"
  using relay_request_relayed [of env p body s] unfolding relayed_def .

subsection \<open>Consecutive nonces\<close>

text \<open>
  \<open>sendWithNonce\<close> is the signing layer's \<open>send\<close> on exceptions that carry more than
  their text, so the facts about that one carry over.
\<close>

definition as_text :: "relay_exn + 'a \<Rightarrow> string + 'a" where
  "as_text r = (case r of Inl e \<Rightarrow> Inl (ex_text e) | Inr x \<Rightarrow> Inr x)"

definition text_fn :: "(int \<Rightarrow> 'w \<Rightarrow> (relay_exn + 'tx) \<times> 'w) \<Rightarrow> int \<Rightarrow> 'w \<Rightarrow> (string + 'tx) \<times> 'w" where
  "text_fn fn n w = (as_text (fst (fn n w)), snd (fn n w))"

lemma acquire_as_text:
  "getAndIncrement (as_text seed) m = (as_text (fst (acquire_nonce seed m)), snd (acquire_nonce seed m))"
  by (auto simp: acquire_nonce_def getAndIncrement_def as_text_def split: option.splits sum.splits)

lemma nonce_ops_agree:
  "release_nonce = decrement" "forget_nonce = reset_nonce" "relay_nonce_error e = isNonceError (ex_text e)"
  by (auto simp: fun_eq_iff release_nonce_def decrement_def forget_nonce_def reset_nonce_def relay_nonce_error_def
      isNonceError_def RELAY_NONCE_PATTERNS_def NONCE_ERROR_PATTERNS_def split: option.splits)

lemma sendWithNonce_as_text:
  "nonce_send (\<lambda>w. as_text (seed w)) (text_fn fn) (m, w) =
     (as_text (fst (sendWithNonce seed fn (m, w))), snd (sendWithNonce seed fn (m, w)))"
proof -
  have err: "\<And>e. as_text (Inl e) = Inl (ex_text e)" "\<And>x. as_text (Inr x) = Inr x" by (simp_all add: as_text_def)
  obtain q m1 where q: "acquire_nonce (seed w) m = (q, m1)" by fastforce
  show ?thesis
  proof (cases q)
    case (Inl e)
    then show ?thesis by (simp add: nonce_send_def sendWithNonce_def acquire_as_text q err)
  next
    case (Inr n)
    obtain r w1 where r: "fn n w = (r, w1)" by fastforce
    obtain q2 m2 where q2: "acquire_nonce (seed w1) (forget_nonce m1) = (q2, m2)" by fastforce
    show ?thesis
      by (cases r; cases q2)
        (simp_all add: nonce_send_def sendWithNonce_def acquire_as_text q Inr r text_fn_def err q2
          nonce_ops_agree [symmetric] Let_def split_beta)
  qed
qed

text \<open>A vault and node as documented, for every call the relay may send.\<close>

definition honest_vault :: "('w \<Rightarrow> int) \<Rightarrow> 'w relay_env \<Rightarrow> bool" where
  "honest_vault pc env \<longleftrightarrow> (\<forall>c. valid_call c \<longrightarrow> honest_node pc (\<lambda>w. as_text (rv_seed env w)) (text_fn (rv_vault env c)))"

definition ok_reply :: "reply \<Rightarrow> bool" where
  "ok_reply r = (case r of Reply st b \<Rightarrow> st = 200)"

lemma safeError_not_ok: "\<not> ok_reply (safeError env e)"
  by (auto simp: safeError_def ok_reply_def error_reply_def split: option.splits prod.splits)

lemma relay_request_in_sync:
  assumes "honest_vault pc env" "in_sync pc m w" "relay_request env p b (m, w) = (r, m', w')"
  shows "in_sync pc m' w' \<and> pc w' = pc w + (if ok_reply r then 1 else 0)"
proof -
  consider c where "valid_call c" "(r, m', w') = answer env (relay_send env c (m, w))"
    | st msg where "st \<in> {400, 409}" "(r, m', w') = (error_reply st msg, m, w)"
    using relay_request_relayed [of env p b "(m, w)"] assms(3) unfolding relayed_def by metis
  then show ?thesis
  proof cases
    case 1
    obtain q s' where q: "relay_send env c (m, w) = (q, s')" by (meson surj_pair)
    have s': "s' = (m', w')" and r: "r = (case q of Inr h \<Rightarrow> Reply 200 (V_obj [(''txHash'', V_str h)]) | Inl e \<Rightarrow> safeError env e)"
      using 1(2) q by (auto simp: answer_def)
    have sends: "nonce_send (\<lambda>w. as_text (rv_seed env w)) (text_fn (rv_vault env c)) (m, w) = (as_text q, m', w')"
      using q s' unfolding relay_send_def by (simp add: sendWithNonce_as_text)
    have honest: "honest_node pc (\<lambda>w. as_text (rv_seed env w)) (text_fn (rv_vault env c))"
      using assms(1) 1(1) by (simp add: honest_vault_def)
    show ?thesis using nonce_send_in_sync [OF honest assms(2)] sends r safeError_not_ok
      by (auto simp: as_text_def ok_reply_def split: sum.splits)
  next
    case 2
    then show ?thesis using assms(2) by (auto simp: error_reply_def ok_reply_def)
  qed
qed

text \<open>
  C20: requests served one after another use consecutive nonces. Over a vault that accepts the
  account's next nonce only, after any sequence of requests (malformed ones, reverted
  ones and refused ones among them) the counter is the account's next nonce or unset, and
  the account advanced by exactly the number of requests answered with a hash.
\<close>

theorem relay_nonces_consecutive:
  assumes "honest_vault pc env" "in_sync pc m w" "relay_requests env rs (m, w) = (out, m', w')"
  shows "in_sync pc m' w' \<and> pc w' = pc w + int (length (filter ok_reply out))"
  using assms(2,3)
proof (induction rs arbitrary: m w out)
  case Nil
  then show ?case by simp
next
  case (Cons pb rs)
  obtain p b where pb: "pb = (p, b)" by fastforce
  obtain r m1 w1 where one: "relay_request env p b (m, w) = (r, m1, w1)" by (metis prod_cases3)
  obtain out1 where rest: "relay_requests env rs (m1, w1) = (out1, m', w')" "out = r # out1"
    using Cons.prems(2) one by (auto simp: pb Let_def split: prod.splits)
  have step: "in_sync pc m1 w1 \<and> pc w1 = pc w + (if ok_reply r then 1 else 0)"
    by (rule relay_request_in_sync [OF assms(1) Cons.prems(1) one])
  from Cons.IH [OF conjunct1 [OF step] rest(1)] step rest(2) show ?case by auto
qed

definition demo_relay :: "nat relay_env" where
  "demo_relay = \<lparr>rv_seed = (\<lambda>w. Inr (int w)),
     rv_vault = (\<lambda>c n w. if n \<noteq> int w then (Inl \<lparr>ex_text = ''nonce too low'', ex_datas = [], ex_reason = None, ex_message = None\<rparr>, w)
        else if vc_fn c = ''withdraw'' then (Inl \<lparr>ex_text = ''reverted'', ex_datas = [], ex_reason = None, ex_message = None\<rparr>, w)
        else (Inr ''0xh'', w + 1)),
     rv_configured = False, rv_status = (\<lambda>nf w. Inl ''''), rv_parse_error = (\<lambda>d. None)\<rparr>"

definition demo_h32 :: string where "demo_h32 = ''0x'' @ replicate 64 (CHR ''a'')"

definition demo_merge :: jv where
  "demo_merge = V_obj [(''proof'', V_str ''0xab''), (''inputs'', V_obj [(''merkle_root'', V_str demo_h32),
     (''nullifiers'', V_arr [V_str demo_h32, V_str demo_h32, V_str demo_h32, V_str demo_h32]),
     (''new_commitment'', V_str demo_h32), (''extra'', V_bool True)])]"

lemma demo_relay_honest: "honest_vault int demo_relay"
proof -
  have "isNonceError ''nonce too low''" "\<not> isNonceError ''reverted''"
    by (simp_all add: isNonceError_def NONCE_ERROR_PATTERNS_def) (simp_all add: lower_def lower_char_def)
  then show ?thesis by (auto simp: honest_vault_def honest_node_def demo_relay_def text_fn_def as_text_def)
qed

lemma demo_h32_ok: "hex_bytes 32 demo_h32"
  by (simp add: hex_bytes_def hex_text_def demo_h32_def hex_val_def numeral_eq_Suc)

theorem relay_nonces_consecutive_witness:
  "\<exists>out m' w'. relay_requests demo_relay [(P_consolidate, Some demo_merge), (P_bet, Some V_null), (P_consolidate, Some demo_merge)]
     (\<lparr>nm_nonce = None, nm_last_seen = 0\<rparr>, 7) = (out, m', w') \<and> map ok_reply out = [True, False, True] \<and> w' = 9"
proof -
  let ?rs = "[(P_consolidate, Some demo_merge), (P_bet, Some V_null), (P_consolidate, Some demo_merge)]"
  let ?m = "\<lparr>nm_nonce = None, nm_last_seen = 0\<rparr>"
  obtain out m' w' where run: "relay_requests demo_relay ?rs (?m, 7) = (out, m', w')" by (metis prod_cases3)
  have d: "safeParse consolidateSchema (Some demo_merge) = Some (Some (V_obj [(''proof'', V_str ''0xab''),
      (''inputs'', V_obj [(''merkle_root'', V_str demo_h32),
        (''nullifiers'', V_arr [V_str demo_h32, V_str demo_h32, V_str demo_h32, V_str demo_h32]),
        (''new_commitment'', V_str demo_h32)])]))"
    using demo_h32_ok by (simp add: demo_merge_def body_defs schema_defs hex_text_def hex_val_def)
  have n: "safeParse betSchema (Some V_null) = None" by (simp add: betSchema_def)
  have ok: "map ok_reply out = [True, False, True]"
    using run by (auto simp: relay_consolidate_def relay_bet_def validated_def d n relayConsolidate_def relay_send_def
        sendWithNonce_def acquire_nonce_def demo_relay_def answer_def Let_def ok_reply_def error_reply_def)
  have "int w' = int 7 + int (length (filter ok_reply out))"
    using relay_nonces_consecutive [OF demo_relay_honest _ run] by (simp add: in_sync_def)
  moreover have "length (filter ok_reply out) = length (filter id (map ok_reply out))" by (simp add: filter_map comp_def)
  ultimately have w: "w' = 9" unfolding ok by simp
  show ?thesis by (intro exI conjI) (rule run, rule ok, rule w)
qed

subsection \<open>Requests that overlap\<close>

text \<open>
  Acquisitions queue behind the one that waits for the pending count; \<open>rs_held\<close> are nonces handed out
  and not yet broadcast.  A failed broadcast gives a nonce back (\<open>refused\<close>).
\<close>

record relay_sys =
  rs_nonce :: "int option"
  rs_waiting :: nat
  rs_seeding :: bool
  rs_held :: "int list"
  rs_sent :: "int list"

inductive acquire_step :: "int \<Rightarrow> relay_sys \<Rightarrow> relay_sys \<Rightarrow> bool" for base :: int where
  arrives: "acquire_step base s (s\<lparr>rs_waiting := rs_waiting s + 1\<rparr>)"
| asks: "0 < rs_waiting s \<Longrightarrow> \<not> rs_seeding s \<Longrightarrow> rs_nonce s = None \<Longrightarrow>
     acquire_step base s (s\<lparr>rs_waiting := rs_waiting s - 1, rs_seeding := True\<rparr>)"
| seeded: "rs_seeding s \<Longrightarrow>
     acquire_step base s (s\<lparr>rs_seeding := False, rs_nonce := Some (base + 1), rs_held := rs_held s @ [base]\<rparr>)"
| takes: "0 < rs_waiting s \<Longrightarrow> \<not> rs_seeding s \<Longrightarrow> rs_nonce s = Some n \<Longrightarrow>
     acquire_step base s (s\<lparr>rs_waiting := rs_waiting s - 1, rs_nonce := Some (n + 1), rs_held := rs_held s @ [n]\<rparr>)"
| broadcasts: "n \<in> set (rs_held s) \<Longrightarrow>
     acquire_step base s (s\<lparr>rs_held := remove1 n (rs_held s), rs_sent := rs_sent s @ [n]\<rparr>)"

inductive refuse_step :: "relay_sys \<Rightarrow> relay_sys \<Rightarrow> bool" where
  refused: "n \<in> set (rs_held s) \<Longrightarrow> rs_nonce s = Some k \<Longrightarrow> 0 < k \<Longrightarrow>
     refuse_step s (s\<lparr>rs_held := remove1 n (rs_held s), rs_nonce := Some (k - 1)\<rparr>)"

definition idle_relay :: relay_sys where
  "idle_relay = \<lparr>rs_nonce = None, rs_waiting = 0, rs_seeding = False, rs_held = [], rs_sent = []\<rparr>"

definition given :: "int \<Rightarrow> relay_sys \<Rightarrow> bool" where
  "given base s \<longleftrightarrow> distinct (rs_held s @ rs_sent s) \<and>
     (case rs_nonce s of
        None \<Rightarrow> rs_held s = [] \<and> rs_sent s = []
      | Some n \<Rightarrow> \<not> rs_seeding s \<and> base \<le> n \<and> set (rs_held s @ rs_sent s) = {base..<n})"

lemma given_step:
  assumes "acquire_step base s s'" "given base s"
  shows "given base s'"
  using assms
proof (induction rule: acquire_step.induct)
  case (seeded s)
  then have "rs_nonce s = None" by (auto simp: given_def split: option.splits)
  with seeded show ?case by (auto simp: given_def)
next
  case (takes s n)
  then have r: "set (rs_held s) \<union> set (rs_sent s) = {base..<n}" "base \<le> n" "distinct (rs_held s @ rs_sent s)"
    by (auto simp: given_def)
  have "{base..<n + 1} = insert n {base..<n}" using r(2) by auto
  moreover have "n \<notin> set (rs_held s)" "n \<notin> set (rs_sent s)" using r(1) by auto
  ultimately show ?case using r takes by (auto simp: given_def)
next
  case (broadcasts n s)
  have "set (remove1 n (rs_held s) @ rs_sent s @ [n]) = set (rs_held s @ rs_sent s)"
    using broadcasts by (auto simp: given_def)
  moreover have "distinct (remove1 n (rs_held s) @ rs_sent s @ [n])" using broadcasts by (auto simp: given_def)
  ultimately show ?case using broadcasts by (auto simp: given_def split: option.splits)
qed (auto simp: given_def split: option.splits)

text \<open>
  C24: overlapping requests never share a nonce and leave no gap. However requests
  arrive, wait for one another, read the pending count and broadcast, as long as no broadcast is
  refused the nonces handed out are distinct and are exactly those from the pending count up to the
  counter.
\<close>

theorem overlapping_nonces_distinct:
  assumes "(acquire_step base)\<^sup>*\<^sup>* idle_relay s"
  shows "distinct (rs_held s @ rs_sent s) \<and>
    set (rs_held s @ rs_sent s) = (case rs_nonce s of None \<Rightarrow> {} | Some n \<Rightarrow> {base..<n})"
proof -
  have "given base s"
    using assms
  proof (induction rule: rtranclp_induct)
    case base
    show ?case by (simp add: given_def idle_relay_def)
  qed (rule given_step)
  then show ?thesis by (auto simp: given_def split: option.splits)
qed

theorem overlapping_nonces_distinct_witness:
  "\<exists>s :: relay_sys. rs_nonce s = Some 9 \<and> rs_sent s = [8, 7] \<and> set (rs_held s @ rs_sent s) = {7..<9}"
proof -
  let ?s = "\<lambda>n w b held sent. \<lparr>rs_nonce = n, rs_waiting = w, rs_seeding = b, rs_held = held, rs_sent = sent\<rparr>"
  note st = arrives [of 7] asks [of _ 7] seeded [of _ 7] takes [of _ _ 7] broadcasts [of _ _ 7]
  have "acquire_step 7 (?s None 0 False [] []) (?s None 1 False [] [])" using st(1) [of "?s None 0 False [] []"] by simp
  moreover have "acquire_step 7 (?s None 1 False [] []) (?s None 0 True [] [])" using st(2) [of "?s None 1 False [] []"] by simp
  moreover have "acquire_step 7 (?s None 0 True [] []) (?s None 1 True [] [])" using st(1) [of "?s None 0 True [] []"] by simp
  moreover have "acquire_step 7 (?s None 1 True [] []) (?s (Some 8) 1 False [7] [])" using st(3) [of "?s None 1 True [] []"] by simp
  moreover have "acquire_step 7 (?s (Some 8) 1 False [7] []) (?s (Some 9) 0 False [7, 8] [])" using st(4) [of "?s (Some 8) 1 False [7] []" 8] by simp
  moreover have "acquire_step 7 (?s (Some 9) 0 False [7, 8] []) (?s (Some 9) 0 False [7] [8])" using st(5) [of 8 "?s (Some 9) 0 False [7, 8] []"] by simp
  moreover have "acquire_step 7 (?s (Some 9) 0 False [7] [8]) (?s (Some 9) 0 False [] [8, 7])" using st(5) [of 7 "?s (Some 9) 0 False [7] [8]"] by simp
  ultimately have "(acquire_step 7)\<^sup>*\<^sup>* idle_relay (?s (Some 9) 0 False [] [8, 7])"
    unfolding idle_relay_def by (meson r_into_rtranclp rtranclp_trans)
  then have "set (rs_held (?s (Some 9) 0 False [] [8, 7]) @ rs_sent (?s (Some 9) 0 False [] [8, 7])) = {7..<9}"
    using overlapping_nonces_distinct [of 7 "?s (Some 9) 0 False [] [8, 7]"] by (simp del: append.simps)
  then show ?thesis by (intro exI [of _ "?s (Some 9) 0 False [] [8, 7]"]) simp
qed

text \<open>A refused broadcast gives back the counter's last nonce, which another request may hold.\<close>

lemma refused_nonce_reused:
  assumes "refuse_step s s1" "rs_held s = [n, n + 1]" "rs_nonce s = Some (n + 2)" "rs_held s1 = [n + 1]"
    "rs_waiting s1 = Suc 0" "\<not> rs_seeding s1"
  shows "\<exists>s2. acquire_step base s1 s2 \<and> rs_held s2 = [n + 1, n + 1]"
proof -
  have "rs_nonce s1 = Some (n + 1)" using assms(1,3) by (cases rule: refuse_step.cases) simp_all
  then have "acquire_step base s1 (s1\<lparr>rs_waiting := rs_waiting s1 - 1, rs_nonce := Some (n + 1 + 1),
      rs_held := rs_held s1 @ [n + 1]\<rparr>)" using assms(5,6) by (intro takes) simp_all
  then show ?thesis using assms(4) by (intro exI [of _ "s1\<lparr>rs_waiting := rs_waiting s1 - 1, rs_nonce := Some (n + 1 + 1),
      rs_held := rs_held s1 @ [n + 1]\<rparr>"]) simp
qed

end
