(* ===== verification/Relay_Bodies_Props.thy ===== *)
theory Relay_Bodies_Props
  imports Relay_Bodies Relay_Props Money_Flows
begin

section \<open>What is proved is what is relayed\<close>

text \<open>
  Every value that a relay body shares with the circuit's signals is the same text;
  the bodies of well-formed requests pass the relay's validation and
  reach the vault as they were sent; an encoded proof is one word per coordinate.
\<close>

subsection \<open>Signals and bodies agree\<close>

text \<open>The names under which the body's inputs appear among the signals.\<close>

definition signal_name :: "string \<Rightarrow> string" where
  "signal_name k = (if k = ''nullifiers'' then ''nullifier'' else k)"

definition body_inputs :: "jv \<Rightarrow> (string \<times> jv) list" where
  "body_inputs body = (case prop_of ''inputs'' body of Some (V_obj kvs) \<Rightarrow> kvs | _ \<Rightarrow> [])"

lemma body_inputs_post [simp]: "body_inputs (post_body pf inputs rest) = inputs"
  by (simp add: body_inputs_def post_body_def)

lemmas signal_defs = generateBetAuthProof_def generateWithdrawalProof_def generateSettlementProof_def generateBetCancelProof_def
  generatePositionCloseProof_def generatePartialCreditProof_def generateConsolidateProof_def credit_signals_def slot_signals_def
  path_signals_def signal_name_def

lemmas body_inputs_defs = bet_body_inputs_def withdrawal_body_inputs_def credit_body_inputs_def consolidate_body_inputs_def

lemma digit_texts: "to_string10 0 = ''0''" "to_string10 (Suc 0) = ''1''"
  by (simp_all add: to_string10.simps [of 0] to_string10.simps [of "Suc 0"] hex_char_def char_of_def bit_Suc_0_iff)

lemma side_text: "bi_side b \<le> 1 \<Longrightarrow> big_val (int (bi_side b)) = V_str (if bi_side b = 0 then ''0'' else ''1'')"
  by (cases "bi_side b") (simp_all add: big_val_def int_text_def digit_texts)

definition agree :: "(string \<times> jv) list \<Rightarrow> (string \<times> jv) list \<Rightarrow> bool" where
  "agree signals inputs \<longleftrightarrow> list_all (\<lambda>(k, v). map_of signals (signal_name k) = Some v) inputs"

lemma agreeD: "agree signals inputs \<Longrightarrow> (k, v) \<in> set inputs \<Longrightarrow> map_of signals (signal_name k) = Some v"
  by (auto simp: agree_def list_all_iff)

lemma bet_agrees: "bi_side b \<le> 1 \<Longrightarrow> agree (generateBetAuthProof mp b) (bet_body_inputs b)"
  using side_text [of b] by (simp add: agree_def signal_defs body_inputs_defs case_prod_beta)

lemma withdrawal_agrees: "agree (generateWithdrawalProof mp w) (withdrawal_body_inputs w)"
  by (simp add: agree_def signal_defs body_inputs_defs case_prod_beta)

lemma consolidate_agrees: "agree (generateConsolidateProof mps c) (consolidate_body_inputs c)"
  by (simp add: agree_def signal_defs body_inputs_defs case_prod_beta)

lemma credit_agrees:
  "agree (generateSettlementProof market mp c) (credit_body_inputs c @ [(''market_id'', V_str market), (''total_credit'', big_val (ci_amount c))])"
  "agree (generateBetCancelProof mp c) (credit_body_inputs c)"
  "agree (generatePositionCloseProof mp c) (credit_body_inputs c)"
  "agree (generatePartialCreditProof mp c) (credit_body_inputs c)"
  by (simp_all add: agree_def signal_defs body_inputs_defs case_prod_beta)

text \<open>
  C9: the vault checks a proof against the values it was made for. For every
  request that is relayed, each input in the body that the relay gets is the value that
  the circuit was given under the same name.
\<close>

theorem proved_is_relayed:
  assumes "client_call pf market att q = Some (r, body)" "(k, v) \<in> set (body_inputs body)"
    and "\<And>b. q = R_bet b \<Longrightarrow> bi_side b \<le> 1"
  shows "map_of (snd (circuit_inputs market mps q)) (signal_name k) = Some v"
proof -
  have "agree (snd (circuit_inputs market mps q)) (body_inputs body)"
  proof (cases q)
    case (R_credit c)
    then show ?thesis using assms(1) by (cases "ci_circuit c") (auto simp: credit_agrees)
  next
    case (R_bet b)
    then show ?thesis using assms(1) by (auto simp: bet_agrees [OF assms(3) [OF R_bet]])
  qed (use assms(1) in \<open>auto simp: withdrawal_agrees consolidate_agrees\<close>)
  from agreeD [OF this assms(2)] show ?thesis .
qed

subsection \<open>The relay takes the bodies and passes them on\<close>

abbreviation h32 :: "string \<Rightarrow> bool" where "h32 \<equiv> hex_bytes 32"

text \<open>A request of words of 32 bytes and unsigned amounts.\<close>

fun relayable :: "string \<Rightarrow> request \<Rightarrow> bool" where
  "relayable market (R_bet b) \<longleftrightarrow> h32 (bi_root b) \<and> h32 (bi_nullifier b) \<and> h32 (bi_new_commitment b) \<and> h32 (bi_market b) \<and>
     h32 (bi_position b) \<and> 0 \<le> bi_amount b \<and> 0 \<le> bi_price b \<and> 0 \<le> bi_shares b"
| "relayable market (R_withdrawal w) \<longleftrightarrow> h32 (wi_root w) \<and> h32 (wi_nullifier w) \<and> h32 (wi_recipient_hash w) \<and>
     h32 (wi_new_commitment w) \<and> 0 \<le> wi_amount w \<and> hex_bytes 20 (wi_owner w)"
| "relayable market (R_consolidate c) \<longleftrightarrow> h32 (co_root c) \<and> list_all h32 (co_nullifiers c) \<and> length (co_nullifiers c) = 4 \<and>
     h32 (co_new_commitment c)"
| "relayable market (R_credit c) \<longleftrightarrow> h32 (ci_root c) \<and> h32 (ci_nullifier c) \<and> h32 (ci_new_commitment c) \<and>
     h32 (ci_nullifier_of_bet c) \<and> (ci_circuit c = C_settlement \<longrightarrow> h32 market \<and> 0 \<le> ci_amount c)"
| "relayable market (R_deposit d) \<longleftrightarrow> False"

text \<open>A report as the signing layer answers it: its four fields in the schema's form, and a signature.\<close>

definition report :: "string \<Rightarrow> int \<Rightarrow> int \<Rightarrow> int \<Rightarrow> jv" where
  "report nob kind a b = V_obj [(''nullifierOfBet'', V_str nob), (''reportType'', V_num (of_int kind)),
     (''amountA'', big_val a), (''amountB'', big_val b)]"

definition signed_report :: "string \<Rightarrow> int \<Rightarrow> int \<Rightarrow> int \<Rightarrow> string \<Rightarrow> jv" where
  "signed_report nob kind a b sg = V_obj [(''nullifierOfBet'', V_str nob), (''reportType'', V_num (of_int kind)),
     (''amountA'', big_val a), (''amountB'', big_val b), (''signature'', V_str sg)]"

definition report_ok :: "jv option \<Rightarrow> jv option \<Rightarrow> string option \<Rightarrow> bool" where
  "report_ok att rep sg \<longleftrightarrow> (att = None \<and> rep = None \<and> sg = None) \<or>
     (\<exists>nob kind a b s. h32 nob \<and> 1 \<le> kind \<and> kind \<le> 4 \<and> 0 \<le> a \<and> 0 \<le> b \<and> hex_text s \<and>
        att = Some (signed_report nob kind a b s) \<and> rep = Some (report nob kind a b) \<and> sg = Some s)"

text \<open>The call the vault should get.\<close>

fun vault_call_of :: "string \<Rightarrow> string \<Rightarrow> jv option \<Rightarrow> string option \<Rightarrow> request \<Rightarrow> vault_call" where
  "vault_call_of pf market rep sg (R_bet b) = \<lparr>vc_fn = ''authorizeBet'', vc_args = [V_str pf, V_obj (bet_body_inputs b)]\<rparr>"
| "vault_call_of pf market rep sg (R_withdrawal w) =
     \<lparr>vc_fn = ''withdraw'', vc_args = [V_str pf, V_obj (withdrawal_body_inputs w), V_str (wi_owner w)]\<rparr>"
| "vault_call_of pf market rep sg (R_consolidate c) =
     \<lparr>vc_fn = ''consolidate'', vc_args = [V_str pf, V_obj [(''merkle_root'', V_str (co_root c)),
        (''nullifier'', V_arr (map V_str (co_nullifiers c))), (''new_commitment'', V_str (co_new_commitment c))]]\<rparr>"
| "vault_call_of pf market rep sg (R_credit c) =
     (case ci_circuit c of
        C_settlement \<Rightarrow> \<lparr>vc_fn = ''creditSettlement'', vc_args = [V_str pf, V_obj (credit_body_inputs c @
          [(''market_id'', V_str market), (''total_credit'', big_val (ci_amount c))])] @ attArgs rep sg\<rparr>
      | C_bet_cancel \<Rightarrow> \<lparr>vc_fn = ''betCancellationCredit'', vc_args = [V_str pf, V_obj (credit_body_inputs c)] @ attArgs rep sg\<rparr>
      | C_position_close \<Rightarrow> \<lparr>vc_fn = ''closePosition'', vc_args = [V_str pf, V_obj (credit_body_inputs c)] @ attArgs rep sg\<rparr>
      | C_partial_credit \<Rightarrow> \<lparr>vc_fn = ''partialFillCredit'', vc_args = [V_str pf, V_obj (credit_body_inputs c)] @ attArgs rep sg\<rparr>)"
| "vault_call_of pf market rep sg (R_deposit d) = \<lparr>vc_fn = '''', vc_args = []\<rparr>"

lemma hex_digits: "map hex_char [0..<10] = ''0123456789''"
  by code_simp

lemma num_text_decimal: "num_text (to_string10 n)"
proof (induction n rule: to_string10.induct)
  case (1 n)
  have d: "hex_char k \<in> set ''0123456789''" if "k < 10" for k
    using that unfolding hex_digits [symmetric] by simp
  show ?case
  proof (cases "n < 10")
    case True
    then show ?thesis using d by (subst to_string10.simps) (simp add: num_text_def del: list.set)
  next
    case False
    then show ?thesis using "1.IH" d [of "n mod 10"]
      by (subst to_string10.simps) (simp add: num_text_def del: list.set)
  qed
qed

lemma parse_amount: "0 \<le> n \<Longrightarrow> safeParse NUM_schema (Some (big_val n)) = Some (Some (big_val n))"
  by (simp add: NUM_schema_def big_val_def int_text_def num_text_decimal)

lemma parse_texts:
  "h32 s \<Longrightarrow> safeParse HEX32_schema (Some (V_str s)) = Some (Some (V_str s))"
  "hex_text s \<Longrightarrow> safeParse PROOF_schema (Some (V_str s)) = Some (Some (V_str s))"
  "hex_text s \<Longrightarrow> safeParse SIG_schema (Some (V_str s)) = Some (Some (V_str s))"
  "safeParse SIG_schema None = Some None" "safeParse attestationSchema None = Some None"
  by (simp_all add: HEX32_schema_def PROOF_schema_def SIG_schema_def attestationSchema_def)

lemma parse_side: "safeParse NUM_schema (Some (V_str (if c then ''0'' else ''1''))) = Some (Some (V_str (if c then ''0'' else ''1'')))"
  by (simp add: NUM_schema_def num_text_def)

lemma parse_report:
  assumes "h32 nob" "1 \<le> kind" "kind \<le> 4" "0 \<le> a" "0 \<le> b"
  shows "safeParse attestationSchema (Some (report nob kind a b)) = Some (Some (report nob kind a b))"
proof -
  have "safeParse (Z_int 1 4) (Some (V_num (of_int kind))) = Some (Some (V_num (of_int kind)))"
    using assms(2,3) by simp
  then show ?thesis using assms
    by (simp add: attestationSchema_def report_def parse_texts parse_amount del: safeParse.simps(1,2))
qed

lemma attBody_report:
  assumes "report_ok att rep sg"
  shows "(rep = None \<and> sg = None \<and> attBody att = []) \<or>
    (\<exists>v s. rep = Some v \<and> sg = Some s \<and> hex_text s \<and> safeParse attestationSchema (Some v) = Some (Some v) \<and>
       attBody att = [(''attestation'', v), (''signature'', V_str s)])"
  using assms unfolding report_ok_def
proof (elim disjE exE conjE)
  fix nob kind a b s
  assume h: "h32 nob" "1 \<le> kind" "kind \<le> 4" "0 \<le> a" "0 \<le> b" "hex_text s"
    "att = Some (signed_report nob kind a b s)" "rep = Some (report nob kind a b)" "sg = Some s"
  have "attBody att = [(''attestation'', report nob kind a b), (''signature'', V_str s)]"
    by (simp add: h(7) attBody_def signed_report_def report_def)
  then show ?thesis using h parse_report [OF h(1-5)] by blast
qed (simp add: attBody_def)

lemmas folded_schemas = parse_texts parse_amount parse_side

text \<open>The schemas of the inputs keep each of the bodies' inputs as it is.\<close>

lemma parse_inputs:
  "relayable market (R_bet b) \<Longrightarrow> safeParse betInputsSchema (Some (V_obj (bet_body_inputs b))) = Some (Some (V_obj (bet_body_inputs b)))"
  "relayable market (R_withdrawal w) \<Longrightarrow>
     safeParse withdrawalInputsSchema (Some (V_obj (withdrawal_body_inputs w))) = Some (Some (V_obj (withdrawal_body_inputs w)))"
  "relayable market (R_credit c) \<Longrightarrow>
     safeParse fourFieldInputsSchema (Some (V_obj (credit_body_inputs c))) = Some (Some (V_obj (credit_body_inputs c)))"
  "relayable market (R_credit c) \<Longrightarrow> ci_circuit c = C_settlement \<Longrightarrow>
     safeParse settlementInputsSchema (Some (V_obj (credit_body_inputs c @ [(''market_id'', V_str market), (''total_credit'', big_val (ci_amount c))]))) =
       Some (Some (V_obj (credit_body_inputs c @ [(''market_id'', V_str market), (''total_credit'', big_val (ci_amount c))])))"
  by (simp_all add: betInputsSchema_def withdrawalInputsSchema_def fourFieldInputsSchema_def settlementInputsSchema_def body_inputs_defs
      folded_schemas)

lemma those_h32: "list_all h32 ns \<Longrightarrow>
    those (map (\<lambda>x. Option.bind (safeParse HEX32_schema (Some x)) id) (map V_str ns)) = Some (map V_str ns)"
  by (induction ns) (simp_all add: parse_texts)

lemma parse_consolidate:
  "relayable market (R_consolidate c) \<Longrightarrow>
     safeParse consolidateInputsSchema (Some (V_obj (consolidate_body_inputs c))) = Some (Some (V_obj (consolidate_body_inputs c)))"
  using those_h32 [of "co_nullifiers c"]
  by (simp add: consolidateInputsSchema_def body_inputs_defs parse_texts comp_def)

lemma validated_ok: "safeParse z body = Some (Some d) \<Longrightarrow> validated z body k s = k d"
  by (simp add: validated_def)

lemma post_parts [simp]:
  "proof_of (post_body pf inputs rest) = pf" "inputs_of (post_body pf inputs rest) = V_obj inputs"
  by (simp_all add: proof_of_def inputs_of_def post_body_def)

lemma post_no_report: "prop_of ''attestation'' (post_body pf inputs []) = None" "sig_of (post_body pf inputs []) = None"
  by (simp_all add: sig_of_def post_body_def)

lemma post_report:
  "prop_of ''attestation'' (post_body pf inputs [(''attestation'', v), (''signature'', V_str s)]) = Some v"
  "sig_of (post_body pf inputs [(''attestation'', v), (''signature'', V_str s)]) = Some s"
  by (simp_all add: sig_of_def post_body_def)

text \<open>A body with a report, or without one, parses to itself.\<close>

lemma parse_post:
  assumes "hex_text pf" "safeParse z (Some (V_obj inputs)) = Some (Some (V_obj inputs))"
  shows "safeParse (Z_object [(''proof'', PROOF_schema), (''inputs'', z)]) (Some (post_body pf inputs [])) = Some (Some (post_body pf inputs []))"
    "report_ok att rep sg \<Longrightarrow>
      safeParse (Z_object [(''proof'', PROOF_schema), (''inputs'', z), (''attestation'', attestationSchema), (''signature'', SIG_schema)])
        (Some (post_body pf inputs (attBody att))) = Some (Some (post_body pf inputs (attBody att)))"
  using assms attBody_report [of att rep sg] by (auto simp: post_body_def parse_texts)

lemma attached_report:
  assumes "report_ok att rep sg"
  shows "prop_of ''attestation'' (post_body pf inputs (attBody att)) = rep" "sig_of (post_body pf inputs (attBody att)) = sg"
  using attBody_report [OF assms] by (auto simp: post_no_report post_report)

lemma relayed_body:
  assumes "client_call pf market att q = Some (r, body)" "relayable market q" "hex_text pf" "report_ok att rep sg"
    and "\<And>c. q = R_credit c \<Longrightarrow> ci_circuit c = C_settlement \<Longrightarrow>
       settlement_terminal (snd (checkBetFilled env (ci_nullifier_of_bet c) (snd s))) (rep \<noteq> None) = None"
  shows "relay_request env r (Some body) s = answer env (relay_send env (vault_call_of pf market rep sg q) s)"
proof (cases q)
  case (R_bet b)
  then have "r = P_bet" "body = post_body pf (bet_body_inputs b) []" using assms(1) by simp_all
  then show ?thesis using R_bet parse_post(1) [OF assms(3) parse_inputs(1)] assms(2)
    by (simp add: relay_bet_def betSchema_def validated_ok relayAuthorizeBet_def del: safeParse.simps)
next
  case (R_withdrawal w)
  let ?body = "post_body pf (withdrawal_body_inputs w) [(''recipientAddress'', V_str (wi_owner w))]"
  have "safeParse withdrawalSchema (Some ?body) = Some (Some ?body)"
    using assms(2,3) R_withdrawal parse_inputs(2) [of market w] by (simp add: withdrawalSchema_def post_body_def parse_texts)
  then show ?thesis using R_withdrawal assms(1)
    by (auto simp: relay_withdrawal_def validated_ok relayWithdraw_def simp del: safeParse.simps) (simp add: post_body_def)
next
  case (R_consolidate c)
  then have "r = P_consolidate" "body = post_body pf (consolidate_body_inputs c) []" using assms(1) by simp_all
  moreover have "consolidate_tuple (V_obj (consolidate_body_inputs c)) = V_obj [(''merkle_root'', V_str (co_root c)),
      (''nullifier'', V_arr (map V_str (co_nullifiers c))), (''new_commitment'', V_str (co_new_commitment c))]"
    by (simp add: consolidate_tuple_def consolidate_body_inputs_def)
  ultimately show ?thesis using R_consolidate parse_post(1) [OF assms(3) parse_consolidate] assms(2)
    by (simp add: relay_consolidate_def consolidateSchema_def validated_ok relayConsolidate_def del: safeParse.simps)
next
  case (R_credit c)
  note p4 = parse_post(2) [OF assms(3) parse_inputs(3) assms(4)] and at = attached_report [OF assms(4)]
  have rc: "relayable market (R_credit c)" using assms(2) R_credit by simp
  show ?thesis
  proof (cases "ci_circuit c")
    case C_settlement
    let ?ins = "credit_body_inputs c @ [(''market_id'', V_str market), (''total_credit'', big_val (ci_amount c))]"
    have b: "r = P_settlement" "body = post_body pf ?ins (attBody att)" using assms(1) R_credit C_settlement by simp_all
    have nob: "prop_of ''nullifier_of_bet'' (V_obj ?ins) = Some (V_str (ci_nullifier_of_bet c))" by (simp add: credit_body_inputs_def)
    have h: "h32 (ci_nullifier_of_bet c)" "ci_nullifier_of_bet c \<noteq> ''''" using rc by (auto simp: hex_bytes_def)
    show ?thesis using R_credit C_settlement b h assms(5) [OF R_credit C_settlement]
        parse_post(2) [OF assms(3) parse_inputs(4) [OF rc C_settlement] assms(4)]
      by (simp add: relay_settlement_def settlementSchema_def validated_ok relayCreditSettlement_def at nob Let_def del: safeParse.simps prop_of.simps)
  next
    case C_position_close
    then show ?thesis using R_credit assms(1) p4 [OF rc]
      by (auto simp: relay_close_def closeSchema_def validated_ok relayClosePosition_def at simp del: safeParse.simps)
  next
    case C_partial_credit
    then show ?thesis using R_credit assms(1) p4 [OF rc]
      by (auto simp: relay_partial_credit_def partialCreditSchema_def validated_ok relayPartialFillCredit_def at simp del: safeParse.simps)
  next
    case C_bet_cancel
    then show ?thesis using R_credit assms(1) p4 [OF rc]
      by (auto simp: relay_bet_cancel_def betCancelSchema_def validated_ok relayBetCancellationCredit_def at simp del: safeParse.simps)
  qed
next
  case (R_deposit d)
  then show ?thesis using assms(1) by simp
qed

text \<open>
  C8: the relay accepts what the frontend sends and hands it to the vault unchanged. A
  request of 32-byte words and unsigned amounts, with its proof and the operator's report as
  the signing layer answers it, passes the schema of its route; unless the vault
  already settled or failed the bet, the only call made is the one meant, with the proof,
  the inputs, the recipient and the report of the request, and its outcome is the answer.
\<close>

theorem relayed_unchanged:
  assumes "client_call pf market att q = Some (r, body)" "relayable market q" "hex_text pf" "report_ok att rep sg"
    and "\<And>c. q = R_credit c \<Longrightarrow> ci_circuit c = C_settlement \<Longrightarrow>
       settlement_terminal (snd (checkBetFilled env (ci_nullifier_of_bet c) (snd s))) (rep \<noteq> None) = None"
  shows "relay_request env r (Some body) s = answer env (relay_send env (vault_call_of pf market rep sg q) s)"
  using assms by (rule relayed_body)

subsection \<open>Hashes are words\<close>

lemma hex_val_digit: "d < 16 \<Longrightarrow> hex_val (hex_char d) \<noteq> None"
  by simp

lemma hex_digits_text: "list_all (\<lambda>c. hex_val c \<noteq> None) (to_string16 n)"
proof (induction n rule: to_string16.induct)
  case (1 n)
  then show ?case
    by (cases "n < 16") (subst to_string16.simps, simp add: hex_val_digit del: not_None_eq)+
qed

lemma toHex_word: "n < 2 ^ 256 \<Longrightarrow> h32 (toHex n)"
  using length_toHex [of n] hex_digits_text [of n]
  by (simp add: hex_bytes_def hex_text_def toHex_def pad_start_def list_all_append) (simp add: list_all_length)

definition word_hashes :: "crypto \<Rightarrow> bool" where
  "word_hashes cx \<longleftrightarrow> (\<forall>a n. cx_poseidon2 cx a n < 2 ^ 256) \<and> (\<forall>a b n w. cx_poseidon4 cx a b n w < 2 ^ 256)"

lemma word_hashesD:
  assumes "word_hashes cx"
  shows "h32 (computeCommitment cx sec bal n w)" "h32 (computeNullifier cx sec n)" "h32 (computeRecipientHash cx w)"
  using assms by (simp_all add: word_hashes_def computeCommitment_def computeNullifier_def computeRecipientHash_def toHex_word)

subsection \<open>What the flows send\<close>

definition word_env :: "flow_env \<Rightarrow> bool" where
  "word_env env \<longleftrightarrow> word_hashes (fl_crypto env) \<and> (\<forall>c rt. fl_root env c = Some rt \<longrightarrow> h32 rt)"

definition word_notes :: "browser \<Rightarrow> bool" where
  "word_notes b \<longleftrightarrow> (\<forall>n \<in> set (loadAll b). nt_kind n \<noteq> BET_RECEIPT \<longrightarrow> h32 (nt_nullifier n))"

definition market_of :: "Note \<Rightarrow> string" where
  "market_of receipt = (case nt_condition_id receipt of Some c \<Rightarrow> c | None \<Rightarrow> ''0x'' @ replicate 64 (CHR ''0''))"

definition adds_relayable :: "string \<Rightarrow> session \<Rightarrow> session \<Rightarrow> bool" where
  "adds_relayable market s s' \<longleftrightarrow>
     sn_sent s' = sn_sent s \<or> (\<exists>q. sn_sent s' = sn_sent s @ [q] \<and> relayable market q)"

lemma zero_word: "h32 (''0x'' @ replicate 64 (CHR ''0''))"
  by (simp add: hex_bytes_def hex_text_def list_all_length)

lemma free_for_deposit:
  assumes "getFreeNoteForDeposit w ix b = Some n"
  shows "n \<in> set (getFreeNotes w b)"
proof -
  obtain ns where "sort_key (\<lambda>n. - nt_nonce n) (filter (\<lambda>n. nt_depositIndex n = ix) (getFreeNotes w b)) = n # ns"
    using assms by (auto simp: getFreeNoteForDeposit_def split: list.splits)
  then have "n \<in> set (sort_key (\<lambda>n. - nt_nonce n) (filter (\<lambda>n. nt_depositIndex n = ix) (getFreeNotes w b)))"
    by (simp only: list.set_intros)
  then show ?thesis by simp
qed

lemma free_word: "word_notes b \<Longrightarrow> getFreeNoteForDeposit w ix b = Some n \<Longrightarrow> h32 (nt_nullifier n)"
  using free_for_deposit [of w ix b n] by (auto simp: word_notes_def getFreeNotes_def)

lemma opened_word: "word_env env \<Longrightarrow> open_note env n = Inr (sec, rt) \<Longrightarrow> h32 rt"
  by (auto simp: word_env_def open_note_def split: option.splits)

lemma relayed_adds:
  assumes "relayable market q" "prove_and_relay env q s = (out, s1)"
  shows "adds_relayable market s s1"
  using assms by (auto simp: prove_and_relay_def relay_and_wait_def adds_relayable_def Let_def split: if_splits option.splits)

lemma adds_browser [simp]: "adds_relayable market s (on_browser f s1) = adds_relayable market s s1"
  by (simp add: adds_relayable_def on_browser_def)

lemma adds_refl [simp]: "adds_relayable market s s"
  by (simp add: adds_relayable_def)

lemma credit_relayable:
  assumes "word_env env" "h32 (bet_key receipt)" "open_note env free = Inr (sec, rt)" "h32 (nt_nullifier free)"
    "circ = C_settlement \<Longrightarrow> h32 market \<and> 0 \<le> amount"
  shows "relayable market (R_credit (credit_request env circ w free sec rt receipt amount))"
  using assms opened_word [OF assms(1,3)] word_hashesD(1) by (simp add: credit_request_def word_env_def)

text \<open>
  Every request of the flows that credit a bet passes the relay. From notes whose
  nullifiers are words, with hashes and roots that are words, a settlement, the crediting of
  a close, a partial fill or a reclaim sends at most one request, and the relay validates it.
\<close>

lemma credit_flows_relayable:
  assumes "word_env env" "word_notes (sn_browser s)" "h32 (bet_key receipt)" "h32 (market_of receipt)" "0 \<le> claim"
  shows "adds_relayable (market_of receipt) s (snd (settlePosition env w receipt claim s)) \<and>
    adds_relayable (market_of receipt) s (snd (finalizeClose env w receipt s)) \<and>
    adds_relayable (market_of receipt) s (snd (finalizePartialFill env w receipt s)) \<and>
    adds_relayable (market_of receipt) s (snd (creditFailedReclaim env w receipt s))"
proof -
  let ?m = "market_of receipt"
  have one: "adds_relayable ?m s s1"
    if "prove_and_relay env (R_credit (credit_request env circ w free sec rt receipt amount)) s = (out, s1)"
      "getFreeNoteForDeposit w ix (sn_browser s) = Some free" "open_note env free = Inr (sec, rt)" "circ = C_settlement \<Longrightarrow> 0 \<le> amount"
    for circ free sec rt amount out s1 ix
    by (rule relayed_adds [OF _ that(1)], rule credit_relayable [OF assms(1,3) that(3) free_word [OF assms(2) that(2)]])
      (use that(4) assms(4) in simp)
  have "adds_relayable ?m s (snd (settlePosition env w receipt claim s))"
    using assms(5) by (auto simp: settlePosition_def Let_def split: option.splits sum.splits prod.splits dest: one)
  moreover have "adds_relayable ?m s (snd (finalizeClose env w receipt s))"
    by (auto simp: finalizeClose_def Let_def split: option.splits sum.splits prod.splits dest: one)
  moreover have "adds_relayable ?m s (snd (finalizePartialFill env w receipt s))"
    by (auto simp: finalizePartialFill_def Let_def split: option.splits sum.splits prod.splits dest: one)
  moreover have "adds_relayable ?m s (snd (creditFailedReclaim env w receipt s))"
    by (auto simp: creditFailedReclaim_def Let_def split: option.splits sum.splits prod.splits dest: one)
  ultimately show ?thesis by blast
qed

lemma reduced_word: "n mod BN254_P < 2 ^ 256"
proof -
  have "n mod BN254_P < BN254_P" by (simp add: BN254_P_def)
  also have "BN254_P < 2 ^ 256" by (simp add: BN254_P_def)
  finally show ?thesis .
qed

lemma reduced_h32: "h32 (toHex (n mod BN254_P))"
  by (rule toHex_word [OF reduced_word])

lemma bet_relayable:
  assumes "word_env env" "open_note env cash = Inr (sec, rt)" "toFieldSafe (bf_condition f) = Some key"
    "0 \<le> stake" "0 \<le> shares" "0 \<le> bf_price f"
  shows "relayable market (R_bet (bet_request env w f cash sec rt key stake fee shares))"
proof -
  have "h32 key" using assms(3) by (auto simp: toFieldSafe_def reduced_h32)
  moreover have "h32 (positionToField (bf_condition f) (bf_side f))" by (simp add: positionToField_def reduced_h32)
  moreover have "0 \<le> math_round (bf_price f * 100000000)" using assms(6) by (simp add: math_round_def)
  ultimately show ?thesis using assms(4,5) opened_word [OF assms(1,2)] word_hashesD assms(1)
    by (simp add: bet_request_def word_env_def Let_def)
qed

lemma withdrawal_relayable:
  assumes "word_hashes (fl_crypto env)" "h32 rt" "h32 (nt_nullifier n)" "0 \<le> amt" "hex_bytes 20 w"
  shows "relayable market (R_withdrawal (withdrawal_request env w n sec rt amt))"
  using assms word_hashesD zero_word
  by (simp add: withdrawal_request_def word_env_def ZERO_COMMITMENT_def Let_def)

lemma open_notes_roots:
  "word_env env \<Longrightarrow> open_notes env ns = Inr opened \<Longrightarrow> length opened = length ns \<and> (\<forall>p \<in> set opened. h32 (snd p))"
proof (induction ns arbitrary: opened)
  case (Cons n ns)
  then show ?case using opened_word [OF Cons.prems(1)] by (auto simp: bind_sum_def split: sum.splits)
qed simp

lemma merge_relayable:
  assumes "word_env env" "open_notes env ns = Inr opened" "2 \<le> length ns" "length ns \<le> MAX_CONSOLIDATE_INPUTS"
  shows "relayable market (R_consolidate (consolidate_request env w ns opened))"
proof -
  have o: "length opened = length ns" "\<forall>p \<in> set opened. h32 (snd p)" using open_notes_roots [OF assms(1,2)] by auto
  then have "h32 (snd (hd opened))" using assms(3) by (cases opened) auto
  moreover have "h32 (slot_nullifier (fl_crypto env) sl)" for sl
    using word_hashesD(2) assms(1) zero_word by (auto simp: slot_nullifier_def word_env_def split: option.splits)
  then have "list_all h32 (map (slot_nullifier (fl_crypto env)) slots)" for slots by (simp add: list_all_iff)
  moreover have "length (padded_slots (zip ns (map fst opened))) = 4" using o(1) assms(4) by (simp add: padded_slots_def MAX_CONSOLIDATE_INPUTS_def)
  ultimately show ?thesis using word_hashesD(1) assms(1) by (simp add: consolidate_request_def word_env_def Let_def)
qed

text \<open>
  So do bets, merges and withdrawals. A bet on a market whose condition is a number,
  at a price that is not negative, a merge of two to four notes, and a withdrawal to an
  address send at most one request each, and the relay validates it.
\<close>

lemma spends_relayable:
  assumes "word_env env" "0 \<le> stake" "0 \<le> shares" "0 \<le> bf_price f" "h32 (nt_nullifier n)" "hex_bytes 20 w"
  shows "adds_relayable market s (snd (bet_from_note env w f stake fee shares cash s)) \<and>
    adds_relayable market s (snd (consolidateNotes env w ns s)) \<and>
    adds_relayable market s (snd (withdrawOneNote env w n amt s))"
proof -
  have intents: "adds_relayable market (s\<lparr>sn_intents := x\<rparr>) s2 \<Longrightarrow> adds_relayable market s s2" for x s2
    by (simp add: adds_relayable_def)
  have waits: "adds_relayable market s1 s2" if "relay_and_wait env q s1 = (out, s2)" "relayable market q" for q s1 s2 out
    using that by (auto simp: relay_and_wait_def adds_relayable_def Let_def split: if_splits option.splits)
  have "adds_relayable market s (snd (bet_from_note env w f stake fee shares cash s))"
    using bet_relayable [OF assms(1) _ _ assms(2-4), where w = w and fee = fee and market = market]
    by (auto simp: bet_from_note_def Let_def split: option.splits sum.splits prod.splits
        dest!: waits intro: intents) (auto simp: adds_relayable_def)
  moreover have "adds_relayable market s (snd (consolidateNotes env w ns s))"
    using merge_relayable [OF assms(1)]
    by (auto simp: consolidateNotes_def Let_def not_less split: sum.splits prod.splits dest: relayed_adds [rotated])
  moreover have "adds_relayable market s (snd (withdrawOneNote env w n amt s))"
  proof (cases "amt \<le> 0")
    case False
    show ?thesis
    proof (cases "open_note env n")
      case (Inr p)
      obtain sec rt where p: "p = (sec, rt)" by fastforce
      obtain out s1 where r: "prove_and_relay env (R_withdrawal (withdrawal_request env w n sec rt amt)) s = (out, s1)" by fastforce
      have "adds_relayable market s s1"
        using relayed_adds [OF withdrawal_relayable [OF _ opened_word [OF assms(1) Inr [unfolded p]] assms(5) _ assms(6)] r] False assms(1)
        by (simp add: word_env_def)
      then show ?thesis using False Inr p r
        by (simp add: withdrawOneNote_def withdrawal_request_def Let_def split: sum.splits)
    qed (use False in \<open>simp add: withdrawOneNote_def\<close>)
  qed (simp add: withdrawOneNote_def)
  ultimately show ?thesis by blast
qed

subsection \<open>A withdrawal and a bet\<close>

lemma demo_word: "h32 demo_h32"
  by (simp add: demo_h32_def hex_bytes_def hex_text_def list_all_length hex_val_def)

definition demo_address :: string where "demo_address = ''0x'' @ replicate 40 (CHR ''9'')"

lemma demo_address_bytes: "hex_bytes 20 demo_address"
  by (simp add: demo_address_def hex_bytes_def hex_text_def list_all_length hex_val_def)

definition demo_out :: withdrawal_inputs where
  "demo_out = \<lparr>wi_secret = ''0x7'', wi_balance = 9, wi_nonce = 1, wi_leaf = demo_h32, wi_owner = demo_address, wi_root = demo_h32,
     wi_nullifier = demo_h32, wi_amount = 5, wi_recipient_hash = demo_h32, wi_new_commitment = demo_h32\<rparr>"

definition word_demo :: flow_env where
  "word_demo = \<lparr>fl_crypto = \<lparr>cx_keccak_hex = length, cx_keccak_text = length, cx_poseidon2 = (\<lambda>a n. 5), cx_poseidon4 = (\<lambda>a b n w. 6)\<rparr>,
     fl_secret = (\<lambda>i v. Some ''0x7''), fl_root = (\<lambda>c. Some demo_h32), fl_proves = (\<lambda>q. True), fl_relay = (\<lambda>q. Some ''t''),
     fl_confirms = (\<lambda>t. True), fl_close = (\<lambda>k. True), fl_intent = (\<lambda>i. True),
     fl_reads = \<lparr>vr_chain = \<lparr>ch_vault = True, ch_isSpent = (\<lambda>n. Some False), ch_betStatus = (\<lambda>n. Some 0)\<rparr>,
       vr_record = (\<lambda>n. Some \<lparr>br_status = 0, br_expectedShares = 300, br_betAmount = 100, br_soldShares = 0, br_sellProceeds = 0\<rparr>),
       vr_att = (\<lambda>n t. None), vr_fee = (\<lambda>n. Some 2), vr_payout = (\<lambda>m s. None), vr_resolvedAt = (\<lambda>m. None)\<rparr>,
     fl_now = 7\<rparr>"

lemma word_demo_env: "word_env word_demo"
  by (simp add: word_env_def word_demo_def word_hashes_def demo_word)

theorem proved_is_relayed_witness:
  "map_of (snd (circuit_inputs demo_h32 [([], [])] (R_withdrawal demo_out))) ''recipient_hash'' = Some (V_str demo_h32)"
proof -
  have "map_of (snd (circuit_inputs demo_h32 [([], [])] (R_withdrawal demo_out))) (signal_name ''recipient_hash'') = Some (V_str demo_h32)"
    by (rule proved_is_relayed [where pf = "''0xab''" and att = None and r = P_withdrawal
          and body = "post_body ''0xab'' (withdrawal_body_inputs demo_out) [(''recipientAddress'', V_str (wi_owner demo_out))]"])
      (simp_all add: withdrawal_body_inputs_def demo_out_def)
  then show ?thesis by (simp add: signal_name_def)
qed

theorem relayed_unchanged_witness:
  "relay_request demo_relay P_withdrawal
     (Some (post_body ''0xab'' (withdrawal_body_inputs demo_out) [(''recipientAddress'', V_str demo_address)])) (\<lparr>nm_nonce = None, nm_last_seen = 0\<rparr>, 7) =
   answer demo_relay (relay_send demo_relay \<lparr>vc_fn = ''withdraw'', vc_args = [V_str ''0xab'', V_obj (withdrawal_body_inputs demo_out), V_str demo_address]\<rparr>
     (\<lparr>nm_nonce = None, nm_last_seen = 0\<rparr>, 7))"
proof -
  have "relay_request demo_relay P_withdrawal
     (Some (post_body ''0xab'' (withdrawal_body_inputs demo_out) [(''recipientAddress'', V_str demo_address)])) (\<lparr>nm_nonce = None, nm_last_seen = 0\<rparr>, 7) =
     answer demo_relay (relay_send demo_relay (vault_call_of ''0xab'' demo_h32 None None (R_withdrawal demo_out))
       (\<lparr>nm_nonce = None, nm_last_seen = 0\<rparr>, 7))"
    by (rule relayed_unchanged [where att = None])
      (simp_all add: demo_out_def demo_word demo_address_bytes report_ok_def, simp_all add: hex_text_def hex_val_def)
  then show ?thesis by (simp add: demo_out_def)
qed

definition demo_form :: bet_form where
  "demo_form = \<lparr>bf_amount = Some 100, bf_order = O_MARKET, bf_price = 1, bf_side = YES, bf_sideLabel = None, bf_condition = ''0x5'',
     bf_market = ''m'', bf_marketName = ''M'', bf_expiry = None, bf_combinable = 0, bf_takerFeeBps = 0\<rparr>"

definition demo_cash :: Note where
  "demo_cash = plain_note demo_h32 BET_OUTPUT demo_address 0 897 1 demo_h32 demo_h32 False 0 None (Some 2)"

definition demo_session :: session where
  "demo_session = \<lparr>sn_browser = \<lparr>bw_notes = Some [demo_cash], bw_activity = None,
     bw_hydrated = True, bw_writable = False, bw_db_notes = None, bw_db_activity = None, bw_plain_notes = None,
     bw_plain_activity = None, bw_index = [], bw_hidden = [], bw_healed = []\<rparr>,
     sn_sent = [], sn_closes = [], sn_markers = [], sn_intents = [], sn_deposits = [], sn_withdraws = []\<rparr>"

lemma spends_relayable_witness:
  "adds_relayable demo_h32 demo_session (snd (bet_from_note word_demo demo_address demo_form 100 2 300 demo_cash demo_session)) \<and>
   adds_relayable demo_h32 demo_session (snd (withdrawOneNote word_demo demo_address demo_cash 50 demo_session))"
  using spends_relayable [OF word_demo_env, of 100 300 demo_form demo_cash demo_address demo_h32 demo_session 2 demo_cash "[]" 50]
  by (simp add: demo_form_def demo_cash_def plain_note_def demo_word demo_address_bytes)

definition demo_open_bet :: Note where
  "demo_open_bet = (plain_note ''r'' BET_RECEIPT demo_address 0 100 0 ''r'' demo_h32 False 0 None (Some 2))
     \<lparr>nt_nullifier_of_bet := Some demo_h32\<rparr>"

lemma credit_flows_relayable_witness:
  "adds_relayable (market_of demo_open_bet) demo_session (snd (settlePosition word_demo demo_address demo_open_bet 40 demo_session))"
proof -
  have "word_notes (sn_browser demo_session)"
    by (simp add: word_notes_def demo_session_def loadAll_def demo_cash_def plain_note_def demo_word)
  moreover have "h32 (bet_key demo_open_bet)" by (simp add: bet_key_def demo_open_bet_def plain_note_def demo_word)
  moreover have "h32 (market_of demo_open_bet)" using zero_word by (simp add: market_of_def demo_open_bet_def plain_note_def)
  ultimately show ?thesis using credit_flows_relayable [OF word_demo_env] by simp
qed

subsection \<open>Proofs as bytes\<close>

lemma word_hex_text: "list_all (\<lambda>c. hex_val c \<noteq> None) (word_hex n)"
  using hex_digits_text [of n] by (simp add: word_hex_def pad_start_def list_all_append) (simp add: list_all_length)

lemma word_hex_length: "n < 2 ^ 256 \<Longrightarrow> length (word_hex n) = 64"
  using length_toHex [of n] by (simp add: toHex_def word_hex_def)

lemma words_hex_text: "list_all (\<lambda>c. hex_val c \<noteq> None) (concat (map word_hex ws))"
  by (induction ws) (simp_all add: list_all_append word_hex_text del: not_None_eq)

text \<open>An encoded proof is hex text that the relay takes, eight words of 32 bytes.\<close>

lemma encoded_proof_accepted:
  assumes "encodeProof p = Some t"
  shows "hex_text t"
  using assms words_hex_text by (auto simp: encodeProof_def hex_text_def simp del: not_None_eq)

lemma encoded_proof_words:
  assumes "those (map BigInt [gp_a p ! 0, gp_a p ! 1, gp_b p ! 0 ! 1, gp_b p ! 0 ! 0, gp_b p ! 1 ! 1, gp_b p ! 1 ! 0, gp_c p ! 0, gp_c p ! 1]) = Some ws"
    "\<forall>w \<in> set ws. w < 2 ^ 256" "encodeProof p = Some t"
  shows "hex_bytes 256 t"
proof -
  have "length ws = 8" using assms(1) by (auto split: option.splits)
  moreover have "length (concat (map word_hex ws)) = 64 * length ws"
    using assms(2) by (induction ws) (simp_all add: word_hex_length)
  ultimately show ?thesis using assms(1,3) encoded_proof_accepted [OF assms(3)] by (auto simp: encodeProof_def hex_bytes_def simp del: concat.simps)
qed

end
