(* ===== verification/Flow_Types.thy ===== *)
theory Flow_Types
  imports Money_Flows_Props Relay_Bodies_Props
begin

section \<open>Every flow keeps the notes well-formed\<close>

text \<open>
  The shape of the notes that the rest of the frontend relies on, and that every flow
  preserves it, whatever the outcome.
\<close>

text \<open>A 32-byte value, printed with all its digits.\<close>

definition word_text :: "string \<Rightarrow> bool" where
  "word_text s \<longleftrightarrow> (\<exists>x < 2 ^ 256. s = toHex x)"

lemma word_text_bytes: "word_text s \<Longrightarrow> length s = 66 \<and> hex_bytes 32 s"
  by (auto simp: word_text_def length_toHex toHex_word)

lemma word_text_hash:
  assumes "word_hashes cx"
  shows "word_text (computeCommitment cx sec bal n w)" "word_text (computeNullifier cx sec n)"
  using assms unfolding word_text_def word_hashes_def computeCommitment_def computeNullifier_def by blast+

definition wf_note :: "Note \<Rightarrow> bool" where
  "wf_note n \<longleftrightarrow> 0 \<le> nt_balance n \<and> 0 \<le> nt_nonce n \<and>
     (if nt_kind n = BET_RECEIPT
      then (\<exists>nf. nt_nullifier_of_bet n = Some nf) \<and> (\<exists>a. nt_bet_amount n = Some a \<and> 0 \<le> a) \<and>
        (\<exists>m. nt_expectedShares n = Some m \<and> 0 \<le> m)
      else nt_id n = nt_commitment n \<and> word_text (nt_commitment n) \<and> word_text (nt_nullifier n))"

definition wf_store :: "browser \<Rightarrow> bool" where
  "wf_store b \<longleftrightarrow> (\<forall>n\<in>set (loadAll b). wf_note n)"

text \<open>Unsigned values, as the decoders of the contract's answers produce them.\<close>

definition typed_reads :: "vault_reads \<Rightarrow> bool" where
  "typed_reads vr \<longleftrightarrow>
     (\<forall>n rec. vr_record vr n = Some rec \<longrightarrow> 0 \<le> br_betAmount rec \<and> 0 \<le> br_expectedShares rec) \<and>
     (\<forall>n t a. vr_att vr n t = Some a \<longrightarrow> 0 \<le> sa_amountA a \<and> 0 \<le> sa_amountB a) \<and>
     (\<forall>n f. vr_fee vr n = Some f \<longrightarrow> 0 \<le> f)"

lemma typed_readsD:
  assumes "typed_reads vr"
  shows "vr_record vr n = Some rec \<Longrightarrow> 0 \<le> br_betAmount rec" "vr_att vr n t = Some a \<Longrightarrow> 0 \<le> sa_amountA a"
    "vr_att vr n t = Some a \<Longrightarrow> 0 \<le> sa_amountB a" "vr_fee vr n = Some f \<Longrightarrow> 0 \<le> f"
  using assms by (auto simp: typed_reads_def)

subsection \<open>The operations of the store\<close>

lemma wf_note_spent [simp]: "wf_note (n\<lparr>nt_spent := sp\<rparr>) = wf_note n"
  by (simp add: wf_note_def)

lemma wf_update_first: "\<forall>n\<in>set ns. wf_note n \<Longrightarrow> (\<And>n. wf_note n \<Longrightarrow> wf_note (f n)) \<Longrightarrow> n \<in> set (update_first P f ns) \<Longrightarrow> wf_note n"
  by (induction ns) (auto split: if_splits)

lemma wf_spent_first: "\<forall>n\<in>set ns. wf_note n \<Longrightarrow> n \<in> set (update_first P (\<lambda>n. n\<lparr>nt_spent := True\<rparr>) ns) \<Longrightarrow> wf_note n"
  by (erule wf_update_first) simp_all

lemma wf_replaced_first: "\<forall>n\<in>set ns. wf_note n \<Longrightarrow> wf_note m \<Longrightarrow> n \<in> set (update_first P (\<lambda>n. m) ns) \<Longrightarrow> wf_note n"
  by (erule wf_update_first) simp_all

lemma wf_store_ops [intro]:
  "wf_store b \<Longrightarrow> wf_note n \<Longrightarrow> wf_store (addNote n b)"
  "wf_store b \<Longrightarrow> wf_store (recordWalletActivity e b)"
  "wf_store b \<Longrightarrow> wf_store (markNoteSpent k b)"
  "wf_store b \<Longrightarrow> wf_store (markBetReceiptSpent k b)"
  "wf_store b \<Longrightarrow> wf_note n \<Longrightarrow> wf_store (replaceNote i n b)"
  by (auto simp: wf_store_def markNoteSpent_def markBetReceiptSpent_def replaceNote_def Let_def
      intro: wf_spent_first wf_replaced_first split: if_splits)

lemma wf_marked: "wf_note (mark_spent S n) = wf_note n" "wf_note (heal_receipt ch w n) = wf_note n"
  by (simp_all add: mark_spent_def heal_receipt_def)

lemma wf_reconcile: "wf_store b \<Longrightarrow> wf_store (snd (reconcileSpentStatus ch w b))"
proof (cases "ch_vault ch")
  case True
  assume "wf_store b"
  then show ?thesis by (auto simp: wf_store_def reconcile_notes [OF True] wf_marked)
qed (simp add: reconcileSpentStatus_def)

lemma wf_free: "wf_store b \<Longrightarrow> n \<in> set (getFreeNotes w b) \<Longrightarrow> wf_note n"
  by (simp add: wf_store_def getFreeNotes_def)

lemma wf_free_note: "wf_store b \<Longrightarrow> getFreeNoteForDeposit w ix b = Some n \<Longrightarrow> wf_note n"
proof -
  assume b: "wf_store b" and "getFreeNoteForDeposit w ix b = Some n"
  then obtain ns where "sort_key (\<lambda>n. - nt_nonce n) (filter (\<lambda>n. nt_depositIndex n = ix) (getFreeNotes w b)) = n # ns"
    by (auto simp: getFreeNoteForDeposit_def split: list.splits)
  then have "n \<in> set (sort_key (\<lambda>n. - nt_nonce n) (filter (\<lambda>n. nt_depositIndex n = ix) (getFreeNotes w b)))"
    by (simp only: list.set_intros)
  then show "wf_note n" using wf_free [OF b, of n w] by simp
qed

lemma wf_cash_note: "wf_store b \<Longrightarrow> getCurrentCashNote w b = Some n \<Longrightarrow> wf_note n"
proof -
  assume b: "wf_store b" and "getCurrentCashNote w b = Some n"
  then obtain ns where "by_balance (getFreeNotes w b) = n # ns" by (auto simp: getCurrentCashNote_def split: list.splits)
  then have "n \<in> set (by_balance (getFreeNotes w b))" by (simp only: list.set_intros)
  then show "wf_note n" using wf_free [OF b] by simp
qed

text \<open>New notes of a lineage.\<close>

lemma wf_next_note:
  assumes "wf_note f" "0 \<le> bal" "k \<noteq> BET_RECEIPT" "word_hashes (fl_crypto env)"
  shows "wf_note ((next_note env k w f sec bal tx)\<lparr>nt_marketId := mk, nt_condition_id := cid\<rparr>)" "wf_note (next_note env k w f sec bal tx)"
    "k = BET_OUTPUT \<Longrightarrow> wf_note ((next_note env k w f sec bal tx)\<lparr>nt_side := sd\<rparr>)"
  using assms by (auto simp: wf_note_def word_text_hash)

lemma wf_new_receipt:
  "wf_note n \<Longrightarrow> 0 \<le> st \<Longrightarrow> 0 \<le> sh \<Longrightarrow> wf_note (new_receipt env w f n nf key st sh tx)"
  by (simp add: wf_note_def new_receipt_def plain_note_def)

lemma sent_browser [simp]:
  "prove_and_relay env q s = (out, s1) \<Longrightarrow> sn_browser s1 = sn_browser s"
  by (rule prove_and_relay_browser)

lemma relayed_browser: "relay_and_wait env q s = (out, s1) \<Longrightarrow> sn_browser s1 = sn_browser s"
  by (auto simp: relay_and_wait_def Let_def split: if_splits option.splits)

lemma wf_nonneg: "wf_note n \<Longrightarrow> 0 \<le> nt_balance n"
  by (simp add: wf_note_def)

subsection \<open>The flows\<close>

lemma settle_typed:
  assumes "wf_store (sn_browser s)" "0 \<le> claim" "word_hashes (fl_crypto env)"
  shows "wf_store (sn_browser (snd (settlePosition env w r claim s)))"
  using assms
  by (auto simp: settlePosition_def Let_def wf_nonneg split: option.splits sum.splits prod.splits
      dest!: prove_and_relay_browser intro!: wf_store_ops wf_next_note dest: wf_free_note)

lemma close_typed:
  assumes "wf_store (sn_browser s)" "typed_reads (fl_reads env)" and cx: "word_hashes (fl_crypto env)"
  shows "wf_store (sn_browser (snd (finalizeClose env w r s)))"
  using assms typed_readsD [OF assms(2)]
  by (auto simp: finalizeClose_def Let_def wf_nonneg split: option.splits sum.splits prod.splits
      dest!: prove_and_relay_browser intro!: wf_store_ops wf_next_note dest: wf_free_note)

lemma partial_refund_nonneg: "0 \<le> fee \<Longrightarrow> 0 \<le> partial_fill_refund a b fee"
  by (simp add: partial_fill_refund_def Let_def big_div_nonneg pos_imp_zdiv_nonneg_iff)

lemma partial_typed:
  assumes "wf_store (sn_browser s)" "typed_reads (fl_reads env)" "wf_note r" and cx: "word_hashes (fl_crypto env)"
  shows "wf_store (sn_browser (snd (finalizePartialFill env w r s)))"
proof -
  have rec: "wf_note (r\<lparr>nt_bet_amount := Some (sa_amountB a), nt_expectedShares := Some (sa_amountA a)\<rparr>)"
    if "vr_att (fl_reads env) n t = Some a" for a n t
    using assms(3) typed_readsD(2,3) [OF assms(2) that] by (simp add: wf_note_def)
  have amt: "0 \<le> nt_balance f + partial_fill_refund a b fee" if "wf_note f" "vr_fee (fl_reads env) n = Some fee" for f a b fee n
    using wf_nonneg [OF that(1)] partial_refund_nonneg [OF typed_readsD(4) [OF assms(2) that(2)]] by simp
  show ?thesis using assms(1) rec amt cx
    by (auto simp: finalizePartialFill_def Let_def split: option.splits sum.splits prod.splits
        dest!: prove_and_relay_browser intro!: wf_store_ops wf_next_note dest: wf_free_note)
qed

lemma reclaim_typed:
  assumes "wf_store (sn_browser s)" "typed_reads (fl_reads env)" and cx: "word_hashes (fl_crypto env)"
  shows "wf_store (sn_browser (snd (creditFailedReclaim env w r s)))"
proof -
  have amt: "0 \<le> nt_balance f + (br_betAmount rec + fee)"
    if "wf_note f" "vr_record (fl_reads env) k = Some rec" "vr_fee (fl_reads env) n = Some fee" for f rec fee n k
    using wf_nonneg [OF that(1)] typed_readsD(1) [OF assms(2) that(2)] typed_readsD(4) [OF assms(2) that(3)] by simp
  show ?thesis using assms(1) amt cx
    by (auto simp: creditFailedReclaim_def Let_def split: option.splits sum.splits prod.splits
        dest!: prove_and_relay_browser intro!: wf_store_ops wf_next_note dest: wf_free_note)
qed

lemma wf_mark_all: "wf_store b \<Longrightarrow> wf_store (foldl (\<lambda>b n. markNoteSpent (nt_commitment n) b) b ns)"
  by (induction ns arbitrary: b) auto

lemma wf_total: "\<forall>n\<in>set ns. wf_note n \<Longrightarrow> 0 \<le> total_balance ns"
  by (induction ns) (auto simp: wf_note_def)

lemma merge_typed:
  assumes "wf_store (sn_browser s)" and ns: "\<forall>n\<in>set ns. wf_note n" and run: "consolidateNotes env w ns s = (out, s')"
    and cx: "word_hashes (fl_crypto env)"
  shows "wf_store (sn_browser s')" "out = Inr m \<Longrightarrow> wf_note m"
proof -
  have hd: "wf_note (hd ns)" if "\<not> length ns < 2" using ns that by (cases ns) auto
  show "wf_store (sn_browser s')"
    using assms hd wf_total [OF ns]
    by (auto simp: consolidateNotes_def Let_def split: sum.splits prod.splits if_splits dest!: prove_and_relay_browser
        intro!: wf_store_ops wf_next_note wf_mark_all)
  show "out = Inr m \<Longrightarrow> wf_note m"
    using run hd wf_total [OF ns] cx
    by (auto simp: consolidateNotes_def Let_def split: sum.splits prod.splits if_splits intro!: wf_next_note)
qed

lemma selected_free:
  assumes "selectNotesForAmount w amt opt p b = Inr (ns, tot)"
  shows "set ns \<subseteq> set (getFreeNotes w b)"
proof -
  let ?all = "by_balance (getFreeNotes w b)"
  define D where "D = (case opt of Some ds \<Rightarrow> ds | None \<Rightarrow> openBetDeposits w b)"
  define pool where "pool = (if D \<noteq> [] then selection_pool D amt ?all else ?all)"
  obtain j where j: "foldl (tryAdd amt) ([], 0) pool = (take j pool, total_balance (take j pool))"
    using tryAdd_fold [of 0 "[]" amt pool] by auto
  have "mset pool \<subseteq># mset ?all" using selection_pool_sub [of D amt ?all] by (simp add: pool_def)
  then have sub: "set pool \<subseteq> set (getFreeNotes w b)" by (metis mset_by_balance(2) set_mset_mono set_mset_mset)
  have "set ns = set (take j pool)"
    using assms j
    by (auto simp: selectNotesForAmount_def Let_def to_front_mset simp flip: D_def pool_def split: if_splits option.splits)
  then show ?thesis using sub set_take_subset [of j pool] by blast
qed

lemma covering_typed:
  assumes "wf_store (sn_browser s)" "wf_note cash" "covering_note env w cost cash s = (out, s')"
    and cx: "word_hashes (fl_crypto env)"
  shows "wf_store (sn_browser s')" "out = Inr m \<Longrightarrow> wf_note m"
proof -
  have sel: "\<forall>n\<in>set ns. wf_note n" if "selectNotesForAmount w cost None None (sn_browser s) = Inr (ns, tot)" for ns tot
    using selected_free [OF that] wf_free [OF assms(1)] by blast
  show "wf_store (sn_browser s')"
    using assms sel merge_typed(1) [OF assms(1) _ _ cx] by (fastforce simp: covering_note_def split: if_splits sum.splits prod.splits)
  show "out = Inr m \<Longrightarrow> wf_note m"
    using assms sel merge_typed(2) [OF assms(1) _ _ cx] by (fastforce simp: covering_note_def split: if_splits sum.splits prod.splits)
qed

lemma merged_typed:
  assumes "wf_store (sn_browser s)" "wf_note cash" "merged_to_withdraw env w opn amt cash s = (out, s')"
    and cx: "word_hashes (fl_crypto env)"
  shows "wf_store (sn_browser s')" "out = Inr m \<Longrightarrow> wf_note m"
proof -
  have sel: "\<forall>n\<in>set ns. wf_note n" if "selectNotesForAmount w amt (Some opn) p (sn_browser s) = Inr (ns, tot)" for ns tot p
    using selected_free [OF that] wf_free [OF assms(1)] by blast
  show "wf_store (sn_browser s')"
    using assms sel merge_typed(1) [OF assms(1) _ _ cx] by (fastforce simp: merged_to_withdraw_def split: if_splits sum.splits prod.splits)
  show "out = Inr m \<Longrightarrow> wf_note m"
    using assms sel merge_typed(2) [OF assms(1) _ _ cx] by (fastforce simp: merged_to_withdraw_def split: if_splits sum.splits prod.splits)
qed

lemma withdraw_one_typed:
  assumes "wf_store (sn_browser s)" "wf_note n" and cx: "word_hashes (fl_crypto env)"
  shows "wf_store (sn_browser (snd (withdrawOneNote env w n amt s)))"
  using assms
  by (auto simp: withdrawOneNote_def Let_def split: sum.splits prod.splits if_splits dest!: prove_and_relay_browser
      intro!: wf_store_ops wf_next_note)

lemma on_wf: "wf_store (f (sn_browser s)) \<Longrightarrow> wf_store (sn_browser (on_browser f s))"
  by simp

lemma bet_note_typed:
  assumes "wf_store (sn_browser s)" "wf_note n" "0 \<le> stake" "0 \<le> shares" and cx: "word_hashes (fl_crypto env)"
  shows "wf_store (sn_browser (snd (bet_from_note env w f stake fee shares n s)))"
proof (cases "nt_balance n < stake + fee")
  case False
  then have left: "0 \<le> nt_balance n - stake - fee" by simp
  show ?thesis
    using assms left
    by (auto simp: bet_from_note_def bet_output_def Let_def split: sum.splits prod.splits if_splits option.splits dest!: relayed_browser
        intro!: wf_store_ops wf_next_note wf_new_receipt)
qed (use assms in \<open>simp add: bet_from_note_def\<close>)

lemma submit_bet_typed:
  assumes b: "wf_store (sn_browser s)" and cx: "word_hashes (fl_crypto env)"
  shows "wf_store (sn_browser (snd (submit_bet env fees w f s)))"
proof -
  let ?s0 = "on_browser (\<lambda>b. snd (reconcileSpentStatus (vr_chain (fl_reads env)) w b)) s"
  have b0: "wf_store (sn_browser ?s0)" using wf_reconcile [OF b] by simp
  have cash: "wf_note n" if "getCurrentCashNote w (sn_browser ?s0) = Some n" for n by (rule wf_cash_note [OF b0 that])
  have cov: "wf_store (sn_browser s1)" "wf_note m"
    if "covering_note env w cost n ?s0 = (Inr m, s1)" "getCurrentCashNote w (sn_browser ?s0) = Some n" for cost n m s1
    using covering_typed [OF b0 cash [OF that(2)] that(1) cx] by auto
  have bad: "wf_store (sn_browser s1)"
    if "covering_note env w cost n ?s0 = (Inl e, s1)" "getCurrentCashNote w (sn_browser ?s0) = Some n" for cost n e s1
    by (rule covering_typed(1) [OF b0 cash [OF that(2)] that(1) cx])
  show ?thesis
  proof (cases "bf_amount f")
    case (Some stake)
    show ?thesis
    proof (cases fees)
      case fees: (Some fc)
      have go: "wf_store (sn_browser (snd (bet_from_note env w f stake (op_totalFee p) (op_shares p) m s1)))"
        if "covering_note env w cost n ?s0 = (Inr m, s1)" "getCurrentCashNote w (sn_browser ?s0) = Some n" "\<not> stake \<le> 0"
          "\<not> op_shares p < MIN_SHARES" for cost n m s1 p
        by (rule bet_note_typed [OF cov [OF that(1,2)] _ _ cx]) (use that(3,4) in \<open>simp_all add: MIN_SHARES_def\<close>)
      show ?thesis
        unfolding submit_bet_def Some fees Let_def
        using b b0 bad go by (fastforce split: sum.splits option.splits prod.splits if_splits)
    qed (use b in \<open>simp add: submit_bet_def Some\<close>)
  qed (use b in \<open>simp add: submit_bet_def\<close>)
qed

lemma submit_withdrawal_typed:
  assumes b: "wf_store (sn_browser s)" and cash: "\<And>n. wv_cashNote v = Some n \<Longrightarrow> wf_note n"
    and cx: "word_hashes (fl_crypto env)"
  shows "wf_store (sn_browser (snd (submit_withdrawal env fees w v amt s)))"
proof -
  let ?s0 = "on_browser (\<lambda>b. snd (reconcileSpentStatus (vr_chain (fl_reads env)) w b)) s"
  have b0: "wf_store (sn_browser ?s0)" using wf_reconcile [OF b] by simp
  have m: "wf_store (sn_browser s1)" if "merged_to_withdraw env w opn a n ?s0 = (out, s1)" "wv_cashNote v = Some n" for opn a n out s1
    by (rule merged_typed(1) [OF b0 cash [OF that(2)] that(1) cx])
  have n: "wf_note nt" if "merged_to_withdraw env w opn a n ?s0 = (Inr nt, s1)" "wv_cashNote v = Some n" for opn a n nt s1
    by (rule merged_typed(2) [OF b0 cash [OF that(2)] that(1) cx refl])
  show ?thesis
  proof (cases "wv_cashNote v")
    case (Some c)
    show ?thesis
    proof (cases amt)
      case amt: (Some a)
      obtain out s1 where run: "merged_to_withdraw env w (wv_open v) a c ?s0 = (out, s1)" by fastforce
      have s1: "wf_store (sn_browser s1)" by (rule m [OF run Some])
      show ?thesis
      proof (cases out)
        case (Inl e)
        then show ?thesis unfolding submit_withdrawal_def Some amt Let_def using b s1 run by simp
      next
        case (Inr nt)
        have nt: "wf_note nt" using n run Some Inr by blast
        show ?thesis
          unfolding submit_withdrawal_def Some amt Let_def using b s1 run Inr nt cx
          by (auto simp: markWithdrawSubmitted_def clearWithdrawMarker_def split: sum.splits prod.splits if_splits
              dest!: relayed_browser intro!: wf_store_ops wf_next_note)
      qed
    qed (use b in \<open>simp add: submit_withdrawal_def Some\<close>)
  qed (use b in \<open>simp add: submit_withdrawal_def\<close>)
qed

text \<open>
  C36: Every flow keeps the notes well-formed, whatever its outcome.  Cash notes are named by their commitment, a
  32-byte value (a number below 2 to the 256 with its 64 digits), hold a 32-byte nullifier and no negative balance; receipts name
  their bet and hold a stake and shares; after a settlement, a close, a
  partial fill, a reclaim, a merge, a bet or a withdrawal, done or failed, all notes still are so.
  The hash is taken to yield 32-byte values, as Poseidon, whose values are field elements, does, and the
  decoded answers of the vault to be unsigned.
\<close>

theorem flows_keep_notes_typed:
  assumes cx: "word_hashes (fl_crypto env)" and b: "wf_store (sn_browser s)" and vr: "typed_reads (fl_reads env)" and r: "wf_note r" and claim: "0 \<le> claim"
    and ns: "\<forall>n\<in>set ns. wf_note n" and v: "wv_cashNote v = Some cash" "wf_note cash"
  shows "wf_store (sn_browser (snd (settlePosition env w r claim s))) \<and> wf_store (sn_browser (snd (finalizeClose env w r s))) \<and>
    wf_store (sn_browser (snd (finalizePartialFill env w r s))) \<and> wf_store (sn_browser (snd (creditFailedReclaim env w r s))) \<and>
    wf_store (sn_browser (snd (consolidateNotes env w ns s))) \<and> wf_store (sn_browser (snd (withdrawOneNote env w cash amt s))) \<and>
    wf_store (sn_browser (snd (submit_bet env fees w f s))) \<and> wf_store (sn_browser (snd (submit_withdrawal env fees w v requested s)))"
  using settle_typed [OF b claim cx] close_typed [OF b vr cx] partial_typed [OF b vr r cx] reclaim_typed [OF b vr cx]
    merge_typed(1) [OF b ns surjective_pairing cx] withdraw_one_typed [OF b v(2) cx] submit_bet_typed [OF b cx]
    submit_withdrawal_typed [OF b _ cx, of v fees w requested] v
  by simp

text \<open>The sample's hash, reduced to the field as Poseidon's values are.\<close>

definition reduced_crypto :: crypto where
  "reduced_crypto = sample_crypto\<lparr>cx_poseidon2 := \<lambda>a n. cx_poseidon2 sample_crypto a n mod BN254_P,
     cx_poseidon4 := \<lambda>a b n w. cx_poseidon4 sample_crypto a b n w mod BN254_P\<rparr>"

lemma reduced_crypto_words: "word_hashes reduced_crypto"
  using reduced_word by (simp add: word_hashes_def reduced_crypto_def)

theorem flows_keep_notes_typed_witness:
  "wf_store (sn_browser (snd (finalizePartialFill (sample_env\<lparr>fl_crypto := reduced_crypto\<rparr>) ''0x9'' sample_receipt sample_session)))"
proof -
  have seven: "field_num ''0x7'' = 7" by code_simp
  have free: "wf_note sample_free"
    by (auto simp: wf_note_def word_text_def sample_free_def plain_note_def sample_note_def computeCommitment_def sample_null_def
        computeNullifier_def sample_crypto_def seven toHex_inject)
  have r: "wf_note sample_receipt" by (simp add: wf_note_def sample_receipt_def plain_note_def)
  have b: "wf_store (sn_browser sample_session)" using free r by (simp add: wf_store_def sample_session_def loadAll_def)
  have vr: "typed_reads (fl_reads (sample_env\<lparr>fl_crypto := reduced_crypto\<rparr>))" by (simp add: typed_reads_def sample_env_def)
  have "wv_cashNote (withdraw_page ''0x9'' 0 (sn_browser sample_session)) = Some sample_free"
    by (simp add: withdraw_page_def getCurrentCashNote_def by_balance_def getFreeNotes_def loadAll_def sample_session_def)
       (simp add: sample_free_def sample_receipt_def plain_note_def sameAddress_def)
  from flows_keep_notes_typed [OF _ b vr r _ _ this free, of 0 "[]" "''0x9''"] show ?thesis
    by (simp add: reduced_crypto_words)
qed

end
