(* ===== verification/Relay_Reads_Props.thy ===== *)
theory Relay_Reads_Props
  imports Relay_Props
begin

section \<open>The paths and lists the relay serves\<close>

text \<open>
  Every path served verifies, whatever the node answers; a relayed leaf is served
  without a full scan once it is confirmed; recovery data and bets are the chain's,
  up to the index head.
\<close>

subsection \<open>Reading the chain's own logs\<close>

lemma scan_loop_set:
  assumes "scan_loop query k from to_block chunk out = Inr res" "x \<in> set res"
  shows "x \<in> set out \<or> (\<exists>j lo hi ls. query j lo hi = Inr ls \<and> x \<in> set ls)"
  using assms
proof (induction query k "from" to_block chunk out rule: scan_loop.induct)
  case (1 query k lo to_block chunk out)
  let ?hi = "min (lo + chunk - 1) to_block"
  show ?case
  proof (cases "lo \<le> to_block \<and> 1 \<le> chunk")
    case False
    then show ?thesis using "1.prems" by (auto simp: scan_loop.simps [of query k lo])
  next
    case True
    show ?thesis
    proof (cases "query k lo ?hi")
      case (Inl e)
      then have e: "\<not> isRateLimit e" "?hi \<noteq> lo"
        "scan_loop query (k + 1) lo to_block (max 1 (chunk div 2)) out = Inr res"
        using "1.prems"(1) True by (auto simp: scan_loop.simps [of query k lo] Let_def split: if_splits)
      show ?thesis by (rule "1.IH"(1) [OF True refl Inl e "1.prems"(2)])
    next
      case (Inr logs)
      then have "scan_loop query (k + 1) (?hi + 1) to_block chunk (out @ logs) = Inr res"
        using "1.prems"(1) True by (simp add: scan_loop.simps [of query k lo] Let_def)
      from "1.IH"(2) [OF True refl Inr this "1.prems"(2)] Inr show ?thesis by auto
    qed
  qed
qed

lemma length_array_set: "length (array_set i v xs) = max (length xs) (Suc i)"
  by (auto simp: array_set_def)

lemma length_collect_leaves:
  assumes "\<forall>(i, l, r) \<in> set evs. nat i < B"
  shows "length (collect_leaves evs) \<le> B"
proof -
  have "length (foldl (\<lambda>leaves (i, leaf, r). array_set (nat i) leaf leaves) acc evs) \<le> B" if "length acc \<le> B" for acc
    using assms that by (induction evs arbitrary: acc) (auto simp: length_array_set Suc_le_eq)
  then show ?thesis by (simp add: collect_leaves_def)
qed

definition logs_bounded :: "path_env \<Rightarrow> bool" where
  "logs_bounded env \<longleftrightarrow> (\<forall>k lo hi ls i l r. pe_logs env k lo hi = Inr ls \<longrightarrow> Some (i, l, r) \<in> set ls \<longrightarrow> i < 2 ^ TREE_DEPTH)"

lemma all_present: "None \<notin> set xs \<Longrightarrow> xs = map Some (map the xs)"
  by (induction xs) auto

lemma chain_path_verifies:
  assumes "logs_bounded env" "chain_path h env c = PathOk p"
  shows "\<exists>x. BigInt c = Some x \<and> verify_proof h x p"
proof -
  obtain n logs x where n: "pe_latest env = Inr n"
    and logs: "getLogsChunked (pe_logs env) (max 0 (min (pe_deploy env) n)) n (pe_chunk env) = Inr logs"
    and x: "BigInt c = Some x" and p: "proof_from_leaves h (collect_leaves (List.map_filter id logs)) x = Inr (Some p)"
    using assms(2) by (auto simp: chain_path_def computeMerkleProof_def Let_def split: sum.splits option.splits)
  let ?ls = "collect_leaves (List.map_filter id logs)"
  have "i < 2 ^ TREE_DEPTH" if "(i, l, r) \<in> set (List.map_filter id logs)" for i l r
  proof -
    have "Some (i, l, r) \<in> set logs" using that by (auto simp: map_filter_def)
    then show ?thesis using scan_loop_set [OF logs [unfolded getLogsChunked_def]] assms(1)
      unfolding logs_bounded_def by fastforce
  qed
  then have "\<forall>(i, l, r) \<in> set (List.map_filter id logs). nat i < 2 ^ TREE_DEPTH" by (auto simp: nat_less_iff)
  then have len: "length ?ls \<le> 2 ^ TREE_DEPTH" by (rule length_collect_leaves)
  have "None \<notin> set ?ls" using p by (auto simp: proof_from_leaves_def split: option.splits if_splits)
  then obtain xs where xs: "?ls = map Some xs" using all_present by blast
  have "\<exists>y. BigInt c = Some y \<and> y \<in> set xs \<and> verify_proof h y p \<and> proof_root p = toHex (spec_root h xs) \<and> xs ! nat (leaf_index p) = y"
    by (rule direct_server.served_verifies [of "map Some xs"]) (use len p x in \<open>simp_all add: xs\<close>)
  then show ?thesis by blast
qed

subsection \<open>Synchronising keeps the service open\<close>

lemma ready_append [simp]: "ready (snd (append_leaf h x t)) = ready t"
proof -
  have "ready (fst (foldl (append_level h) (t', i) ls)) = ready t'" for t' i ls
    by (induction ls arbitrary: t' i) (auto simp: append_level_def setNode_def Let_def)
  then show ?thesis by (auto simp: append_leaf_def setNode_def Let_def split: prod.splits)
qed

lemma ready_process: "ready (snd (process_events h evs t)) = ready t"
proof (induction evs arbitrary: t)
  case (Cons ev evs)
  have p: "ready (persistLeaf i l u) = ready u" for i l u by (simp add: persistLeaf_def)
  show ?case using Cons by (cases ev) (auto simp: resetInMemory_def p Let_def case_prod_beta)
qed simp

lemma ready_sync_windows: "ready (snd (sync_windows h env cursor target t)) = ready t"
proof (induction h env cursor target t rule: sync_windows.induct)
  case (1 h env cursor target t)
  let ?W = "min (cursor + SCAN_WINDOW - 1) target"
  show ?case
  proof (cases "cursor \<le> target \<and> consistent t")
    case False
    then show ?thesis by (auto simp: sync_windows.simps [of h env cursor])
  next
    case True
    show ?thesis
    proof (cases "window_logs env cursor ?W")
      case (Inl e)
      then show ?thesis using True by (simp add: sync_windows.simps [of h env cursor] Let_def)
    next
      case (Inr ls)
      obtain b t1 where pe: "process_events h (window_events ls) t = (b, t1)" by fastforce
      have r: "ready t1 = ready t" using ready_process [of h "window_events ls" t] pe by simp
      show ?thesis
      proof (cases b)
        case True
        then show ?thesis using \<open>cursor \<le> target \<and> consistent t\<close> Inr pe r
          by (simp add: sync_windows.simps [of h env cursor] Let_def)
      next
        case False
        have "ready (snd (sync_windows h env (?W + 1) target (persistLastBlock (t1\<lparr>last_block := ?W\<rparr>)))) = ready t1"
          using "1.IH" [OF True refl Inr pe [symmetric]] False by (simp add: persistLastBlock_def)
        then show ?thesis using True Inr pe r False by (simp add: sync_windows.simps [of h env cursor] Let_def)
      qed
    qed
  qed
qed

lemma ready_syncNow: "ready (syncNow h env t) = ready t"
  by (auto simp: syncNow_def sync_def ready_sync_windows Let_def split: sum.splits)

subsection \<open>Paths\<close>

lemma hex_bytes_number:
  assumes "hex_bytes n c" "0 < n"
  shows "\<exists>x. BigInt c = Some x"
proof -
  have d: "\<exists>x. parse_digits 16 a ds = Some x" if "list_all (\<lambda>c. hex_val c \<noteq> None) ds" for a ds
    using that
  proof (induction ds arbitrary: a)
    case (Cons c ds)
    then obtain v where v: "hex_val c = Some v" by auto
    then have "v < 16" by (auto simp: hex_val_def Let_def split: if_splits)
    with Cons v show ?case by simp
  qed simp
  obtain z x cs where c: "c = z # x # cs" using assms by (cases c; cases "tl c") (auto simp: hex_bytes_def)
  then show ?thesis using assms d [of cs 0] by (auto simp: hex_bytes_def hex_text_def)
qed

lemma cached_path_verifies:
  assumes "good h t xs" "proofFor h c t = Inr (Some p)"
  shows "\<exists>x. BigInt c = Some x \<and> verify_proof h x p"
  using cache_server.served_verifies [OF good_treeD [OF assms(1)] assms(2)] by blast

lemma synced_good:
  assumes "good h t xs" "index_bounded env" "consistent (syncNow h env t)"
  shows "\<exists>ys. good h (syncNow h env t) ys"
proof (cases "consistent t")
  case True
  then show ?thesis using sync_safe_sync [OF assms(1,2)] assms(3) by (auto simp: syncNow_def sync_safe_def)
next
  case False
  then show ?thesis using assms(1) by (auto simp: syncNow_def)
qed

text \<open>
  C21: every path the route serves verifies. Whatever the node answers while the cache
  catches up or while the tree is rebuilt from the log, a path sent with status 200 folds
  the requested commitment, by its siblings and index bits, into the root it names.
\<close>

theorem route_path_verifies:
  assumes "good h t xs" "index_bounded (pe_node env)" "logs_bounded env"
    and "merkle_path h env c (Some t) = (PathOk p, cache')"
  shows "\<exists>x. BigInt c = Some x \<and> verify_proof h x p"
proof -
  let ?t1 = "syncNow h (pe_node env) t"
  consider "proofFor h c t = Inr (Some p)" | "proofFor h c ?t1 = Inr (Some p)" | "chain_path h env c = PathOk p"
    using assms(4) by (auto simp: merkle_path_def Let_def split: sum.splits option.splits if_splits)
  then show ?thesis
  proof cases
    case 2
    then have "consistent ?t1" by (auto simp: proofFor_def isReady_def split: if_splits)
    then obtain ys where "good h ?t1 ys" using synced_good [OF assms(1,2)] by blast
    then show ?thesis using 2 by (rule cached_path_verifies)
  qed (use cached_path_verifies [OF assms(1)] chain_path_verifies [OF assms(3)] in blast)+
qed

definition demo_path_env :: path_env where
  "demo_path_env = \<lparr>pe_set = True, pe_node = demo_env, pe_latest = Inl ''offline'', pe_deploy = 0, pe_chunk = 9500,
     pe_logs = (\<lambda>k lo hi. Inr [])\<rparr>"

definition demo_leaf7 :: string where "demo_leaf7 = ''0x'' @ replicate 63 (CHR ''0'') @ ''7''"

lemma demo_leaf7: "hex_bytes 32 demo_leaf7" "BigInt demo_leaf7 = Some 7"
  by (simp_all add: hex_bytes_def hex_text_def demo_leaf7_def hex_val_def numeral_eq_Suc parse_leading_zeros)

lemma demo_cache:
  "\<exists>t. catchUp demo_hash demo_env (new_mtree 0 (Some demo_db)) = (None, t) \<and> isReady t \<and> good demo_hash t [7, 5, 9] \<and> last_block t = 27"
proof -
  have "\<exists>t'. catchUp demo_hash demo_env (new_mtree 0 (Some demo_db)) = (None, t') \<and> isReady t' \<and>
      good demo_hash t' (take (max 1 (demo_cnt (30 - CONFIRMATIONS))) demo_leaves) \<and>
      last_block t' = 30 - CONFIRMATIONS"
    by (rule catchUp_complete [where n = 1, OF _ _ demo_chain])
      (simp_all add: demo_db_def demo_cnt_def demo_env_def CONFIRMATIONS_def demo_leaves_def)
  then show ?thesis by (auto simp: demo_cnt_def CONFIRMATIONS_def demo_leaves_def)
qed

theorem route_path_verifies_witness:
  "\<exists>t p. fst (merkle_path demo_hash demo_path_env demo_leaf7 (Some t)) = PathOk p \<and> verify_proof demo_hash 7 p"
proof -
  obtain t where t: "isReady t" "good demo_hash t [7, 5, 9]" using demo_cache by blast
  obtain p where p: "proofFor demo_hash demo_leaf7 t = Inr (Some p)"
    using cache_server.serves_all [OF good_treeD [OF t(2)] t(1) demo_leaf7(2)] by auto
  then have m: "merkle_path demo_hash demo_path_env demo_leaf7 (Some t) = (PathOk p, Some t)"
    using demo_leaf7(1) by (simp add: merkle_path_def demo_path_env_def Let_def)
  have "\<exists>x. BigInt demo_leaf7 = Some x \<and> verify_proof demo_hash x p"
    by (rule route_path_verifies [OF t(2) _ _ m])
      (simp_all add: demo_path_env_def demo_bounded logs_bounded_def)
  then have "verify_proof demo_hash 7 p" using demo_leaf7(2) by simp
  then show ?thesis using m by (intro exI [of _ t] exI [of _ p]) simp
qed

text \<open>One nudge against an honest node with a head it can read, or without one.\<close>

lemma nudge_complete:
  assumes "good h t (take n ls)" "cnt (last_block t) \<le> n" "n \<le> length ls" "chain_view h ls cnt env" "isReady t"
    "te_head env = Inr head" "last_block t \<le> head - CONFIRMATIONS"
  shows "isReady (syncNow h env t)"
    "good h (syncNow h env t) (take (max n (cnt (head - CONFIRMATIONS))) ls)"
    "last_block (syncNow h env t) = head - CONFIRMATIONS"
proof -
  have c: "consistent t" using assms(5) by (simp add: isReady_def)
  obtain t' where t': "sync h env t = (None, t')" "consistent t'"
    "good h t' (take (max n (cnt (head - CONFIRMATIONS))) ls)" "last_block t' = head - CONFIRMATIONS"
    using sync_complete [OF assms(1-4) c assms(6,7)] by blast
  have s: "syncNow h env t = t'" using t'(1) c by (simp add: syncNow_def)
  show "isReady (syncNow h env t)" using ready_syncNow [of h env t] t'(2) assms(5) s by (simp add: isReady_def)
  show "good h (syncNow h env t) (take (max n (cnt (head - CONFIRMATIONS))) ls)"
    "last_block (syncNow h env t) = head - CONFIRMATIONS" using t' s by simp_all
qed

lemma holds_leaf:
  assumes "good h t (take k ls)" "isReady t" "i < k" "k \<le> length ls" "BigInt c = Some (ls ! i)"
  shows "\<exists>p. proofFor h c t = Inr (Some p) \<and> verify_proof h (ls ! i) p \<and> proof_root p = toHex (spec_root h (take k ls))"
proof -
  have "ls ! i \<in> set (take k ls)" using assms(3,4) by (auto simp: in_set_conv_nth intro!: exI [of _ i])
  then obtain p where p: "proofFor h c t = Inr (Some p)"
    using cache_server.serves_all [OF good_treeD [OF assms(1)] assms(2,5)] by blast
  then show ?thesis using cache_server.served_verifies [OF good_treeD [OF assms(1)] p] assms(5) by auto
qed

text \<open>
  The leaf of a relayed transaction is served without scanning the chain. Once the
  transaction is confirmed, the second nudge runs when the confirmation buffer has
  passed; if the node answers it, and the leaf was inserted at least that deep, a request
  for its path is answered from the cache, without a call to the node, with a path
  that verifies against the root of all leaves up to that depth.
\<close>

lemma relayed_leaf_served:
  assumes "good h (ca_tree c) (take n ls)" "cnt (last_block (ca_tree c)) \<le> n" "n \<le> length ls" "isReady (ca_tree c)"
    and "chain_view h ls cnt (nv_tree now)" "te_head (nv_tree now) = Inr hn" "last_block (ca_tree c) \<le> hn - CONFIRMATIONS"
    and "chain_view h ls cnt (nv_tree later)" "te_head (nv_tree later) = Inr hl" "hn \<le> hl"
    and "n \<le> cnt (hl - CONFIRMATIONS)" "i < cnt (hl - CONFIRMATIONS)" "BigInt leaf = Some (ls ! i)" "hex_bytes 32 leaf" "pe_set env"
  shows "\<exists>p t. merkle_path h env leaf (Some (ca_tree (trackReceipt h True now later c))) = (PathOk p, Some t) \<and>
    t = ca_tree (trackReceipt h True now later c) \<and> verify_proof h (ls ! i) p \<and>
    proof_root p = toHex (spec_root h (take (cnt (hl - CONFIRMATIONS)) ls))"
proof -
  let ?t1 = "syncNow h (nv_tree now) (ca_tree c)" and ?k = "cnt (hl - CONFIRMATIONS)"
  let ?n1 = "max n (cnt (hn - CONFIRMATIONS))" and ?t2 = "syncNow h (nv_tree later) (syncNow h (nv_tree now) (ca_tree c))"
  have cnt: "mono cnt" "\<And>b. cnt b \<le> length ls" using assms(5) by (auto simp: chain_view_def)
  note one = nudge_complete [OF assms(1-3,5,4,6,7)]
  have k: "max ?n1 ?k = ?k" using assms(10,11) monoD [OF cnt(1), of "hn - CONFIRMATIONS" "hl - CONFIRMATIONS"] by simp
  have "cnt (last_block ?t1) \<le> ?n1" "?n1 \<le> length ls" "last_block ?t1 \<le> hl - CONFIRMATIONS"
    using one(3) cnt(2) assms(3,10) by simp_all
  note two = nudge_complete [OF one(2) this(1,2) assms(8) one(1) assms(9) this(3), unfolded k]
  obtain p where p: "proofFor h leaf ?t2 = Inr (Some p)" "verify_proof h (ls ! i) p"
    "proof_root p = toHex (spec_root h (take ?k ls))"
    using holds_leaf [OF two(2,1) assms(12) cnt(2) assms(13)] by blast
  have t2: "ca_tree (trackReceipt h True now later c) = ?t2" by (simp add: trackReceipt_def nudgeCaches_def)
  have "merkle_path h env leaf (Some ?t2) = (PathOk p, Some ?t2)"
    using p(1) assms(14,15) by (simp add: merkle_path_def Let_def)
  then show ?thesis using p(2,3) t2 by auto
qed

lemma relayed_leaf_served_witness:
  "\<exists>c p t. merkle_path demo_hash demo_path_env demo_leaf7 (Some (ca_tree (trackReceipt demo_hash True
     \<lparr>nv_tree = demo_env, nv_index = demo_index_env\<rparr> \<lparr>nv_tree = demo_env, nv_index = demo_index_env\<rparr> c))) = (PathOk p, Some t)"
proof -
  obtain t where t: "isReady t" "good demo_hash t [7, 5, 9]" "last_block t = 27" using demo_cache by blast
  define c where "c = \<lparr>ca_tree = t, ca_index = demo_synced\<rparr>"
  define nv where "nv = \<lparr>nv_tree = demo_env, nv_index = demo_index_env\<rparr>"
  have n: "nv_tree nv = demo_env" "ca_tree c = t" by (simp_all add: nv_def c_def)
  have h: "te_head demo_env = Inr 30" by (simp add: demo_env_def)
  have k: "demo_cnt (30 - CONFIRMATIONS) = 3" "demo_cnt 27 = 3" by (simp_all add: demo_cnt_def CONFIRMATIONS_def)
  have g: "good demo_hash t (take 3 demo_leaves)" using t(2) by (simp add: demo_leaves_def)
  have "\<exists>p t'. merkle_path demo_hash demo_path_env demo_leaf7 (Some (ca_tree (trackReceipt demo_hash True nv nv c))) = (PathOk p, Some t') \<and>
    t' = ca_tree (trackReceipt demo_hash True nv nv c) \<and> verify_proof demo_hash (demo_leaves ! 0) p \<and>
    proof_root p = toHex (spec_root demo_hash (take (demo_cnt (30 - CONFIRMATIONS)) demo_leaves))"
    by (rule relayed_leaf_served [where n = 3 and hn = 30 and cnt = demo_cnt])
      (use t g demo_chain demo_leaf7 in \<open>simp_all add: n h k demo_leaves_def CONFIRMATIONS_def demo_path_env_def\<close>)
  then show ?thesis unfolding nv_def by blast
qed

subsection \<open>Recovery data and bets\<close>

lemma index_syncNow_inv:
  assumes "index_inv env lg s" "truthful_index env lg"
  shows "index_inv env lg (index_syncNow env s)" "headBlock s \<le> headBlock (index_syncNow env s)"
proof -
  have "index_inv env lg (snd (index_sync env s)) \<and> headBlock s \<le> headBlock (snd (index_sync env s))"
    using index_sync_mirror [OF assms prod.collapse [symmetric]] by blast
  then show "index_inv env lg (index_syncNow env s)" "headBlock s \<le> headBlock (index_syncNow env s)"
    using assms(1) by (auto simp: index_syncNow_def)
qed

text \<open>
  A wallet's recovery data is complete and holds no other wallet's deposits. With a
  node that tells the truth, whether the synchronisation before the answer succeeds, fails or
  is cut short, the answer holds exactly the wallet's deposits and all other events of the
  vault up to the index head, which never moves back.
\<close>

lemma recovery_route_exact:
  assumes "index_inv (de_node env) lg s" "truthful_index (de_node env) lg"
    and "recovery_data env dep (Some s, fk) = (DataOk b, Some s', fk')"
  shows "set (rb_deposits b) = {e \<in> events_upto (de_node env) lg (headBlock s'). ev_type e = ''Deposited'' \<and>
      lower (js_json (map_of (ev_args e) ''depositor'')) = lower dep} \<and>
    set (rb_spends b) = {e \<in> events_upto (de_node env) lg (headBlock s'). ev_type e \<noteq> ''Deposited''} \<and>
    headBlock s \<le> headBlock s'"
proof -
  obtain ds ss where r: "recoveryData dep s' = (ds, ss)" by fastforce
  have "s' = index_syncNow (de_node env) s" "rb_deposits b = ds" "rb_spends b = ss"
    using assms(3) r by (auto simp: recovery_data_def Let_def split: if_splits prod.splits)
  then show ?thesis using index_syncNow_inv [OF assms(1,2)] recovery_payload_exact [OF _ r] by auto
qed

definition demo_open :: event_index where "demo_open = demo_synced\<lparr>ei_ready := True\<rparr>"

lemma demo_open_inv: "index_inv demo_index_env demo_logs demo_open" "headBlock demo_open = 17" "index_isReady demo_open"
  using demo_synced_inv demo_synced_head by (auto simp: index_inv_def demo_open_def headBlock_def index_isReady_def)

definition demo_data_env :: data_env where
  "demo_data_env = \<lparr>de_set = True, de_node = demo_index_env, de_fee = None, de_root = None, de_now = 0, de_deploy = 1\<rparr>"

lemma recovery_route_exact_witness:
  "\<exists>b s' fk'. recovery_data demo_data_env (''0x'' @ replicate 40 (CHR ''a'')) (Some demo_open, None) = (DataOk b, Some s', fk') \<and>
     rb_spends b = []"
proof -
  let ?dep = "''0x'' @ replicate 40 (CHR ''a'')"
  have dep: "hex_bytes 20 ?dep" by (simp add: hex_bytes_def hex_text_def hex_val_def numeral_eq_Suc)
  obtain ds ss where d: "recoveryData ?dep (index_syncNow demo_index_env demo_open) = (ds, ss)" by fastforce
  obtain bps gas fk1 where f: "fee_answer demo_data_env None = ((bps, gas), fk1)" by (metis surj_pair)
  have n: "de_node demo_data_env = demo_index_env" "de_set demo_data_env" by (simp_all add: demo_data_env_def)
  obtain b s' fk' where r: "recovery_data demo_data_env ?dep (Some demo_open, None) = (DataOk b, Some s', fk')"
    using dep demo_open_inv(3) d f n by (simp add: recovery_data_def Let_def)
  have "set (rb_spends b) = {e \<in> events_upto demo_index_env demo_logs (headBlock s'). ev_type e \<noteq> ''Deposited''}"
    using recovery_route_exact [OF _ _ r, of demo_logs] demo_open_inv(1) demo_index_truthful n(1) by simp
  also have "\<dots> = {}" unfolding events_upto_def demo_chain_events by (auto simp: demo_event_def)
  finally have "rb_spends b = []" by simp
  then show ?thesis using r by (intro exI conjI)
qed

text \<open>The signing layer's request for a range of blocks, over the relay's route.\<close>

definition relay_bets :: "event_index \<Rightarrow> int \<Rightarrow> int \<Rightarrow> string + IndexedEvent list" where
  "relay_bets s lo hi =
     (case bet_authorized_route (Some (to_string10 (nat lo))) (Some (to_string10 (nat hi))) (Some s) of
        None \<Rightarrow> Inl ''HTTP 503''
      | Some (head, es) \<Rightarrow> Inr es)"

lemma relay_bets_range:
  assumes "index_isReady s" "0 \<le> lo" "0 \<le> hi"
  shows "relay_bets s lo hi = Inr (betAuthorizedEvents lo hi s)"
  using assms by (simp add: relay_bets_def bet_authorized_route_def ready_index_def parse_int_or_text Let_def)

text \<open>
  C23: bets arrive unchanged over both services. For a range the relay's index has
  ingested, what the signing layer reads through the relay's route, its decimal query
  parsed back and its answer decoded, is the set of bets in the chain's logs of that range.
\<close>

theorem bets_through_relay:
  assumes "index_inv env lg s" "well_formed_bets env lg" "index_isReady s" "0 \<le> lo" "0 \<le> hi" "hi \<le> headBlock s"
  shows "\<exists>rs. fetchBetAuthorized True (relay_bets s) query lo hi True = Inr (rs, FromIndex) \<and>
    set rs = set (List.map_filter recordFromChainLog (chain_query env lg lo hi))"
  using index_and_chain_agree [OF assms(1,2,6), of lo] relay_bets_range [OF assms(3-5)]
  by (auto simp: fetchBetAuthorized_def)

text \<open>A vault with two bets and a deposit between them, and the relay's index after a synchronisation.\<close>

definition demo_bet :: "string \<Rightarrow> nat \<Rightarrow> int \<Rightarrow> vault_log" where
  "demo_bet nf amt b = \<lparr>vl_address = ''0xV'', vl_topic0 = ''0x2'', vl_block = b, vl_index = 1, vl_tx = ''0xt'',
     vl_args = Some (bet_args nf ''0xm'' ''0xp'' 5000000 amt 50000000 1 ''0xc'' 10 20)\<rparr>"

definition demo_bet_logs :: "vault_log list" where
  "demo_bet_logs = [demo_bet ''0xa'' 2500000 4, demo_deposit ''0xd'' 6, demo_bet ''0xb'' 3000000 9]"

definition demo_bet_env :: index_env where
  "demo_bet_env = \<lparr>ie_vault = ''0xV'', ie_names = [(''0x1'', ''Deposited''), (''0x2'', ''BetAuthorized'')], ie_head = Inr 20,
     ie_combined = (\<lambda>lo hi. Inr None),
     ie_scan = (\<lambda>lo hi. Inr (filter (\<lambda>l. lo \<le> vl_block l \<and> vl_block l \<le> hi) demo_bet_logs)),
     ie_block_ts = (\<lambda>b. Inr (Some b))\<rparr>"

definition demo_bet_event :: "vault_log \<Rightarrow> string \<Rightarrow> IndexedEvent" where
  "demo_bet_event l ty = \<lparr>ev_type = ty, ev_block = vl_block l, ev_log = vl_index l, ev_tx = vl_tx l, ev_args = serializeArgs ty (the (vl_args l))\<rparr>"

lemma demo_bet_decode:
  "decode_log demo_bet_env (demo_bet nf amt b) = Some (demo_bet_event (demo_bet nf amt b) ''BetAuthorized'')"
  "decode_log demo_bet_env (demo_deposit who b) = Some (demo_bet_event (demo_deposit who b) ''Deposited'')"
  by (simp_all add: decode_log_def demo_bet_env_def demo_bet_def demo_deposit_def demo_bet_event_def)

lemma demo_bet_chain: "chain_events demo_bet_env demo_bet_logs =
    {demo_bet_event (demo_bet ''0xa'' 2500000 4) ''BetAuthorized'', demo_bet_event (demo_deposit ''0xd'' 6) ''Deposited'',
     demo_bet_event (demo_bet ''0xb'' 3000000 9) ''BetAuthorized''}"
  by (auto simp: chain_events_def demo_bet_logs_def demo_bet_decode)

lemma demo_bet_blocks: "vl_block (demo_bet nf amt b) = b" "vl_block (demo_deposit who b) = b" "ev_block (demo_bet_event l ty) = vl_block l"
  "ev_type (demo_bet_event l ty) = ty"
  by (simp_all add: demo_bet_def demo_deposit_def demo_bet_event_def)

lemma demo_bet_truthful: "truthful_index demo_bet_env demo_bet_logs"
proof -
  have "set (List.map_filter (decode_log demo_bet_env) (filter (\<lambda>l. lo \<le> vl_block l \<and> vl_block l \<le> hi) demo_bet_logs)) =
      {e \<in> chain_events demo_bet_env demo_bet_logs. lo \<le> ev_block e \<and> ev_block e \<le> hi}" for lo hi
    unfolding demo_bet_chain by (auto simp: demo_bet_logs_def map_filter_simps demo_bet_decode demo_bet_blocks)
  moreover have "inj_on key_of (chain_events demo_bet_env demo_bet_logs)"
    unfolding demo_bet_chain by (auto simp: inj_on_def key_of_def demo_bet_blocks)
  ultimately show ?thesis
    by (auto simp: truthful_index_def index_window_logs_def demo_bet_env_def)
qed

definition demo_bet_index :: event_index where
  "demo_bet_index = (snd (index_sync demo_bet_env (new_event_index 1 (Some \<lparr>vault_events = [], event_last_block = None\<rparr>))))\<lparr>ei_ready := True\<rparr>"

lemma demo_bet_index_inv: "index_inv demo_bet_env demo_bet_logs demo_bet_index" "headBlock demo_bet_index = 17" "index_isReady demo_bet_index"
proof -
  let ?s = "new_event_index 1 (Some \<lparr>vault_events = [], event_last_block = None\<rparr>)"
  have start: "index_inv demo_bet_env demo_bet_logs ?s"
    unfolding index_inv_def mirrors_def events_upto_def demo_bet_chain by (auto simp: new_event_index_def demo_bet_blocks)
  have "fst (index_sync demo_bet_env ?s) = None"
    by (simp add: index_sync_def new_event_index_def demo_bet_env_def INDEX_CONFIRMATIONS_def
        index_windows.simps INDEX_SCAN_WINDOW_def index_window_logs_def Let_def)
  then have sync: "index_sync demo_bet_env ?s = (None, snd (index_sync demo_bet_env ?s))" by (simp add: prod_eq_iff)
  note m = index_sync_mirror [OF start demo_bet_truthful sync]
  have head: "headBlock (snd (index_sync demo_bet_env ?s)) = 17"
    using m by (auto simp: demo_bet_env_def INDEX_CONFIRMATIONS_def headBlock_def new_event_index_def)
  show "index_inv demo_bet_env demo_bet_logs demo_bet_index" "headBlock demo_bet_index = 17" "index_isReady demo_bet_index"
    using m head by (auto simp: index_inv_def demo_bet_index_def headBlock_def index_isReady_def)
qed

definition demo_bet_record :: "string \<Rightarrow> nat \<Rightarrow> int \<Rightarrow> BetAuthorizedRecord" where
  "demo_bet_record nf amt b = \<lparr>br_nullifier = nf, br_market_id = ''0xm'', br_position_id = ''0xp'', br_expected_shares = 5000000,
     br_bet_amount = amt, br_price = 50000000, br_outcome_side = 1, br_new_commitment = ''0xc'', br_block = b, br_tx = ''0xt''\<rparr>"

theorem bets_through_relay_witness:
  "\<exists>rs. fetchBetAuthorized True (relay_bets demo_bet_index) (\<lambda>lo hi. Inl '''') 0 17 True = Inr (rs, FromIndex) \<and>
     set rs = {demo_bet_record ''0xa'' 2500000 4, demo_bet_record ''0xb'' 3000000 9}"
proof -
  have k: "is_bet_log demo_bet_env (demo_bet nf amt b)" "\<not> is_bet_log demo_bet_env (demo_deposit who b)"
    "recordFromChainLog (demo_bet nf amt b) = Some (demo_bet_record nf amt b)" for nf amt b who
    by (simp_all add: is_bet_log_def demo_bet_env_def demo_bet_def demo_deposit_def recordFromChainLog_def bet_args_def
        demo_bet_record_def)
  have w: "well_formed_bets demo_bet_env demo_bet_logs"
  proof -
    have "\<exists>n m p es ba pr os nc pf rf. vl_args (demo_bet nf amt b) = Some (bet_args n m p es ba pr os nc pf rf)" for nf amt b
      unfolding demo_bet_def vault_log.simps by (intro exI) (rule refl)
    then show ?thesis unfolding well_formed_bets_def demo_bet_logs_def using k(2) by auto
  qed
  have "\<exists>rs. fetchBetAuthorized True (relay_bets demo_bet_index) (\<lambda>lo hi. Inl '''') 0 17 True = Inr (rs, FromIndex) \<and>
      set rs = set (List.map_filter recordFromChainLog (chain_query demo_bet_env demo_bet_logs 0 17))"
    by (rule bets_through_relay [OF demo_bet_index_inv(1) w demo_bet_index_inv(3)]) (simp_all add: demo_bet_index_inv(2))
  then show ?thesis by (auto simp: chain_query_def map_filter_simps demo_bet_logs_def k demo_bet_blocks)
qed

end
