(* ===== verification/Relay_Services.thy ===== *)
theory Relay_Services
  imports Relay_Reads
begin

section \<open>The relay's socket, consents and counters\<close>

text \<open>
  \<open>proof-relay/src/vaultLogSubscriber.ts\<close>, \<open>betaConsent.ts\<close> and \<open>analytics.ts\<close>.  The
  socket is a state machine: its variables are a record, every callback is a function on it,
  and the sockets that have not closed yet are kept with it, because callbacks of an
  earlier socket may still come.
\<close>

subsection \<open>The log socket\<close>

record sub_state =
  ss_ws :: "nat option"
  ss_stopped :: bool
  ss_attempts :: nat
  ss_reconnect :: "nat option"
  ss_ping :: "nat option"
  ss_nudge :: bool
  ss_sub :: "string option"
  ss_alive :: bool
  ss_live :: "nat list"
  ss_next :: nat
  ss_syncs :: nat

definition new_sub :: sub_state where
  "new_sub = \<lparr>ss_ws = None, ss_stopped = False, ss_attempts = 0, ss_reconnect = None, ss_ping = None, ss_nudge = False,
     ss_sub = None, ss_alive = False, ss_live = [], ss_next = 0, ss_syncs = 0\<rparr>"

definition RECONNECT_DELAYS_MS :: "nat list" where
  "RECONNECT_DELAYS_MS = [1000, 2000, 5000, 10000, 20000, 30000]"

definition debouncedNudge :: "sub_state \<Rightarrow> sub_state" where
  "debouncedNudge s = (if ss_nudge s then s else s\<lparr>ss_nudge := True\<rparr>)"

definition nudge_fires :: "sub_state \<Rightarrow> sub_state" where
  "nudge_fires s = s\<lparr>ss_nudge := False, ss_syncs := ss_syncs s + 1\<rparr>"

definition stopPing :: "sub_state \<Rightarrow> sub_state" where
  "stopPing s = s\<lparr>ss_ping := None\<rparr>"

definition startPing :: "nat \<Rightarrow> sub_state \<Rightarrow> sub_state" where
  "startPing ws s = (stopPing s)\<lparr>ss_alive := True, ss_ping := Some ws\<rparr>"

text \<open>A tick terminates a silent socket, whose close event comes later; here it is removed by that event.\<close>

definition ping_tick :: "sub_state \<Rightarrow> sub_state \<times> nat option" where
  "ping_tick s =
     (case ss_ping s of
        None \<Rightarrow> (s, None)
      | Some ws \<Rightarrow> if \<not> ss_alive s then (s, Some ws) else (s\<lparr>ss_alive := False\<rparr>, None))"

definition scheduleReconnect :: "sub_state \<Rightarrow> sub_state" where
  "scheduleReconnect s =
     (if ss_stopped s \<or> ss_reconnect s \<noteq> None then s
      else s\<lparr>ss_reconnect := Some (RECONNECT_DELAYS_MS ! min (ss_attempts s) (length RECONNECT_DELAYS_MS - 1)),
             ss_attempts := ss_attempts s + 1\<rparr>)"

text \<open>\<open>ok\<close>: the constructor did not throw.\<close>

definition connect :: "bool \<Rightarrow> sub_state \<Rightarrow> sub_state" where
  "connect ok s =
     (if \<not> ok then scheduleReconnect s
      else s\<lparr>ss_ws := Some (ss_next s), ss_sub := None, ss_live := ss_next s # ss_live s, ss_next := ss_next s + 1\<rparr>)"

definition on_open :: "nat \<Rightarrow> sub_state \<Rightarrow> sub_state" where
  "on_open ws s = debouncedNudge (startPing ws (s\<lparr>ss_attempts := 0\<rparr>))"

datatype sub_message = Garbled | Subscribed string | Rejected | Log_of string | Other_message

definition on_message :: "sub_message \<Rightarrow> sub_state \<Rightarrow> sub_state" where
  "on_message msg s0 =
     (let s = s0\<lparr>ss_alive := True\<rparr> in
      case msg of
        Garbled \<Rightarrow> s
      | Subscribed sid \<Rightarrow> s\<lparr>ss_sub := Some sid\<rparr>
      | Rejected \<Rightarrow> s
      | Log_of sid \<Rightarrow> if ss_sub s = Some sid then debouncedNudge s else s
      | Other_message \<Rightarrow> s)"

definition on_pong :: "sub_state \<Rightarrow> sub_state" where
  "on_pong s = s\<lparr>ss_alive := True\<rparr>"

definition on_close :: "nat \<Rightarrow> sub_state \<Rightarrow> sub_state" where
  "on_close ws s =
     (let s1 = stopPing (s\<lparr>ss_live := removeAll ws (ss_live s)\<rparr>)
      in if \<not> ss_stopped s1 then scheduleReconnect s1 else s1)"

definition reconnect_fires :: "bool \<Rightarrow> sub_state \<Rightarrow> sub_state" where
  "reconnect_fires ok s = connect ok (s\<lparr>ss_reconnect := None\<rparr>)"

definition startVaultLogSubscriber :: "string \<Rightarrow> bool \<Rightarrow> sub_state \<Rightarrow> sub_state" where
  "startVaultLogSubscriber url ok s =
     (if url = '''' then s else connect ok (s\<lparr>ss_stopped := False, ss_attempts := 0\<rparr>))"

definition stopVaultLogSubscriber :: "sub_state \<Rightarrow> sub_state" where
  "stopVaultLogSubscriber s =
     (stopPing (s\<lparr>ss_stopped := True, ss_reconnect := None, ss_nudge := False\<rparr>))\<lparr>ss_ws := None\<rparr>"

text \<open>
  The steps, after a start.  The flag beside the state says that activity was seen, by an
  opening or a log of the subscription, since the last sweep or stop.
\<close>

inductive sub_step :: "sub_state \<times> bool \<Rightarrow> sub_state \<times> bool \<Rightarrow> bool" where
  opens: "ws \<in> set (ss_live s) \<Longrightarrow> sub_step (s, d) (on_open ws s, True)"
| message: "sub_step (s, d) (on_message msg s, d \<or> (\<exists>sid. msg = Log_of sid \<and> ss_sub s = Some sid))"
| pong: "sub_step (s, d) (on_pong s, d)"
| closes: "ws \<in> set (ss_live s) \<Longrightarrow> sub_step (s, d) (on_close ws s, d)"
| ticks: "sub_step (s, d) (fst (ping_tick s), d)"
| reconnects: "ss_reconnect s \<noteq> None \<Longrightarrow> sub_step (s, d) (reconnect_fires ok s, d)"
| nudges: "ss_nudge s \<Longrightarrow> sub_step (s, d) (nudge_fires s, False)"
| stops: "sub_step (s, d) (stopVaultLogSubscriber s, False)"
| starts: "url \<noteq> '''' \<Longrightarrow> sub_step (s, d) (startVaultLogSubscriber url ok s, d)"

inductive_cases sub_stepE: "sub_step (s, d) (s', d')"

definition watching :: "sub_state \<times> bool \<Rightarrow> bool" where
  "watching sd = (case sd of (s, d) \<Rightarrow>
     (\<not> ss_stopped s \<longrightarrow> (ss_live s \<noteq> [] \<or> ss_reconnect s \<noteq> None)) \<and>
     (ss_stopped s \<longrightarrow> ss_reconnect s = None) \<and>
     (\<forall>t. ss_reconnect s = Some t \<longrightarrow> t \<in> set RECONNECT_DELAYS_MS))"

definition swept :: "sub_state \<times> bool \<Rightarrow> bool" where
  "swept sd = (case sd of (s, d) \<Rightarrow> d \<longrightarrow> ss_nudge s)"

lemma delay_in: "RECONNECT_DELAYS_MS ! min k (length RECONNECT_DELAYS_MS - 1) \<in> set RECONNECT_DELAYS_MS"
  by (rule nth_mem) (auto simp: RECONNECT_DELAYS_MS_def)

lemmas sub_defs = on_open_def debouncedNudge_def startPing_def stopPing_def on_message_def on_pong_def on_close_def ping_tick_def
  reconnect_fires_def connect_def scheduleReconnect_def nudge_fires_def stopVaultLogSubscriber_def startVaultLogSubscriber_def

lemma watching_schedule:
  assumes "\<forall>t. ss_reconnect s = Some t \<longrightarrow> t \<in> set RECONNECT_DELAYS_MS" "ss_stopped s \<longrightarrow> ss_reconnect s = None"
  shows "watching (scheduleReconnect s, d)"
  using assms delay_in by (auto simp: watching_def scheduleReconnect_def)

lemma watching_connect:
  assumes "\<forall>t. ss_reconnect s = Some t \<longrightarrow> t \<in> set RECONNECT_DELAYS_MS" "ss_stopped s \<longrightarrow> ss_reconnect s = None"
  shows "watching (connect ok s, d)"
proof (cases ok)
  case True
  then show ?thesis using assms by (auto simp: watching_def connect_def)
next
  case False
  then show ?thesis using watching_schedule [OF assms] by (simp add: connect_def)
qed

lemma sub_step_watching:
  assumes "sub_step sd sd'" "watching sd \<and> swept sd"
  shows "watching sd' \<and> swept sd'"
  using assms
proof (induction rule: sub_step.induct)
  case (closes ws s d)
  let ?s = "stopPing (s\<lparr>ss_live := removeAll ws (ss_live s)\<rparr>)"
  have "watching (on_close ws s, d)"
    using closes watching_schedule [of ?s d] by (auto simp: on_close_def Let_def watching_def stopPing_def)
  moreover have "swept (on_close ws s, d)" using closes by (auto simp: swept_def sub_defs Let_def)
  ultimately show ?case by simp
next
  case (reconnects s d ok)
  have "watching (reconnect_fires ok s, d)" unfolding reconnect_fires_def by (rule watching_connect) simp_all
  moreover have "swept (reconnect_fires ok s, d)" using reconnects by (auto simp: swept_def sub_defs)
  ultimately show ?case by simp
next
  case (starts url s d ok)
  have "watching (startVaultLogSubscriber url ok s, d)"
    unfolding startVaultLogSubscriber_def using starts by (simp, intro watching_connect) (auto simp: watching_def)
  moreover have "swept (startVaultLogSubscriber url ok s, d)" using starts by (auto simp: swept_def sub_defs)
  ultimately show ?case by simp
qed (auto simp: watching_def swept_def sub_defs Let_def split: sub_message.splits option.splits)

text \<open>
  The relay keeps watching, and sweeps what it saw. In every state of the log socket
  that can be reached from a start, whatever sockets open, close or stay silent, messages arrive and
  timers fire: unless it was stopped, there is a socket that has not closed or a timer that will
  open one, after at most thirty seconds; and after an opening or a log of the
  subscription a sweep is pending until it has run.
\<close>

lemma socket_keeps_watching:
  assumes "url \<noteq> ''''" "sub_step\<^sup>*\<^sup>* (startVaultLogSubscriber url ok new_sub, False) (s, d)"
  shows "(\<not> ss_stopped s \<longrightarrow> ss_live s \<noteq> [] \<or> (\<exists>t \<le> 30000. ss_reconnect s = Some t)) \<and> (d \<longrightarrow> ss_nudge s)"
proof -
  have "watching (startVaultLogSubscriber url ok new_sub, False) \<and> swept (startVaultLogSubscriber url ok new_sub, False)"
    using assms(1) watching_connect [of "new_sub\<lparr>ss_stopped := False, ss_attempts := 0\<rparr>" ok False]
    by (simp add: startVaultLogSubscriber_def swept_def) (simp add: new_sub_def)
  with assms(2) have "watching (s, d) \<and> swept (s, d)"
    by (induction rule: rtranclp_induct) (auto dest: sub_step_watching)
  moreover have "t \<le> 30000" if "t \<in> set RECONNECT_DELAYS_MS" for t using that by (auto simp: RECONNECT_DELAYS_MS_def)
  ultimately show ?thesis by (auto simp: watching_def swept_def)
qed

definition demo_socket :: sub_state where
  "demo_socket = on_close 0 (on_open 0 (startVaultLogSubscriber ''ws'' True new_sub))"

lemma socket_keeps_watching_witness:
  "\<not> ss_stopped demo_socket \<and> ss_live demo_socket = [] \<and> (\<exists>t \<le> 30000. ss_reconnect demo_socket = Some t) \<and> ss_nudge demo_socket"
proof -
  let ?s = "startVaultLogSubscriber ''ws'' True new_sub"
  have l: "ss_live ?s = [0]" "ss_live (on_open 0 ?s) = [0]" by (simp_all add: sub_defs new_sub_def)
  have "sub_step (?s, False) (on_open 0 ?s, True)" by (rule opens) (simp add: l)
  moreover have "sub_step (on_open 0 ?s, True) (demo_socket, True)"
    unfolding demo_socket_def by (rule closes) (simp add: l)
  ultimately have "sub_step\<^sup>*\<^sup>* (?s, False) (demo_socket, True)" by (meson r_into_rtranclp rtranclp_trans)
  from socket_keeps_watching [OF _ this]
  have "(\<not> ss_stopped demo_socket \<longrightarrow> ss_live demo_socket \<noteq> [] \<or> (\<exists>t \<le> 30000. ss_reconnect demo_socket = Some t)) \<and> ss_nudge demo_socket"
    by simp
  moreover have "\<not> ss_stopped demo_socket" "ss_live demo_socket = []"
    by (simp_all add: demo_socket_def sub_defs new_sub_def Let_def)
  ultimately show ?thesis by simp
qed

text \<open>A close that comes after a stop and a new start schedules a second socket.\<close>

lemma restart_doubles_socket:
  assumes "ss_live s = [w]" "w < ss_next s" "url \<noteq> ''''"
  shows "length (ss_live (reconnect_fires True (on_close w (startVaultLogSubscriber url True (stopVaultLogSubscriber s))))) = 2"
  using assms by (simp add: sub_defs Let_def)

subsection \<open>Consents\<close>

text \<open>
  \<open>ga\<close> is the address checksum (it throws on what is no address), \<open>vm\<close> the recovery of
  the signer of a message.  The dash of the text is in UTF-8.
\<close>

record consent_row =
  cs_signature :: string
  cs_version :: nat
  cs_signed_at :: int

definition CONSENT_VERSION :: nat where "CONSENT_VERSION = 1"

definition join_lines :: "string list \<Rightarrow> string" where
  "join_lines ls = concat (case ls of [] \<Rightarrow> [] | x # xs \<Rightarrow> x # map (\<lambda>y. CHR 10 # y) xs)"

definition consentMessage :: "(string \<Rightarrow> string option) \<Rightarrow> string \<Rightarrow> string option" where
  "consentMessage ga address = map_option (\<lambda>a. join_lines
     [''PolyShield Beta '' @ [CHR 226, CHR 128, CHR 148] @ '' Terms Acknowledgement (v'' @ to_string10 CONSENT_VERSION @ '')'',
      '''',
      ''I acknowledge that PolyShield is experimental beta software running on'',
      ''Polygon mainnet with real funds. I understand that I use it entirely at'',
      ''my own risk and that the PolyShield operators and contributors are not'',
      ''liable for any loss of funds. I confirm I am not restricted from using'',
      ''this protocol under applicable law.'',
      '''',
      ''Address: '' @ a]) (ga address)"

definition recordConsent :: "(string \<Rightarrow> string option) \<Rightarrow> (string \<Rightarrow> string \<Rightarrow> string option) \<Rightarrow> string \<Rightarrow> string \<Rightarrow> rat
    \<Rightarrow> (string \<times> consent_row) list \<Rightarrow> (string + string) \<times> (string \<times> consent_row) list" where
  "recordConsent ga vm raw sg at_ms t =
     (case ga raw of
        None \<Rightarrow> (Inl ''invalid address'', t)
      | Some a \<Rightarrow>
          if \<not> hex_bytes 65 sg then (Inl ''invalid signature format'', t)
          else (case Option.bind (consentMessage ga a) (\<lambda>m. vm m sg) of
              None \<Rightarrow> (Inl ''signature verification failed'', t)
            | Some rec \<Rightarrow>
                if lower rec \<noteq> lower a then (Inl ''signature does not match address'', t)
                else (Inr a, AList.update a \<lparr>cs_signature = sg, cs_version = CONSENT_VERSION, cs_signed_at = \<lfloor>at_ms\<rfloor>\<rparr> t)))"

definition hasConsent :: "(string \<Rightarrow> string option) \<Rightarrow> string \<Rightarrow> (string \<times> consent_row) list \<Rightarrow> bool" where
  "hasConsent ga raw t =
     (case ga raw of
        None \<Rightarrow> False
      | Some a \<Rightarrow> (case map_of t a of None \<Rightarrow> False | Some r \<Rightarrow> cs_version r \<ge> CONSENT_VERSION))"

definition consent_route :: "(string \<Rightarrow> string option) \<Rightarrow> (string \<Rightarrow> string \<Rightarrow> string option) \<Rightarrow> string \<Rightarrow> string \<Rightarrow> rat
    \<Rightarrow> (string \<times> consent_row) list \<Rightarrow> (nat \<times> string) \<times> (string \<times> consent_row) list" where
  "consent_route ga vm address sg now t =
     (if address = '''' \<or> sg = '''' then ((400, ''address and signature required''), t)
      else case recordConsent ga vm address sg now t of
             (Inr a, t1) \<Rightarrow> ((200, a), t1)
           | (Inl e, t1) \<Rightarrow> ((400, e), t1))"

text \<open>A sequence of requests: address, signature, time.\<close>

definition consent_requests :: "(string \<Rightarrow> string option) \<Rightarrow> (string \<Rightarrow> string \<Rightarrow> string option) \<Rightarrow> (string \<times> string \<times> rat) list
    \<Rightarrow> (string \<times> consent_row) list" where
  "consent_requests ga vm rs = foldl (\<lambda>t (a, s, now). snd (consent_route ga vm a s now t)) [] rs"

definition signed_by :: "(string \<Rightarrow> string option) \<Rightarrow> (string \<Rightarrow> string \<Rightarrow> string option) \<Rightarrow> string \<Rightarrow> string \<Rightarrow> bool" where
  "signed_by ga vm a sg \<longleftrightarrow> (\<exists>m rec. consentMessage ga a = Some m \<and> vm m sg = Some rec \<and> lower rec = lower a)"

lemma consent_step:
  assumes "map_of (snd (consent_route ga vm raw sg now t)) a = Some r"
  shows "map_of t a = Some r \<or> (ga raw = Some a \<and> cs_signature r = sg \<and> signed_by ga vm a sg)"
proof (cases "snd (consent_route ga vm raw sg now t) = t")
  case True
  then show ?thesis using assms by simp
next
  case False
  then obtain b rec where b: "ga raw = Some b" "Option.bind (consentMessage ga b) (\<lambda>m. vm m sg) = Some rec" "lower rec = lower b"
    and t: "snd (consent_route ga vm raw sg now t) = AList.update b \<lparr>cs_signature = sg, cs_version = CONSENT_VERSION, cs_signed_at = \<lfloor>now\<rfloor>\<rparr> t"
    by (auto simp: consent_route_def recordConsent_def split: if_splits option.splits)
  have "signed_by ga vm b sg" using b(2,3) by (auto simp: signed_by_def bind_eq_Some_conv)
  then show ?thesis using assms t b(1) by (auto simp: update_conv split: if_splits)
qed

text \<open>
  No consent is recorded in another's name. After any sequence of requests, an address has
  its consent on record only if one of the requests was for it and its signature is by
  that address over the text of the current version with that address in it.
\<close>

lemma consent_is_signed:
  assumes "hasConsent ga raw (consent_requests ga vm rs)"
  shows "\<exists>a raw' sg now. ga raw = Some a \<and> (raw', sg, now) \<in> set rs \<and> ga raw' = Some a \<and> signed_by ga vm a sg"
proof -
  obtain a r where a: "ga raw = Some a" "map_of (consent_requests ga vm rs) a = Some r"
    using assms by (auto simp: hasConsent_def split: option.splits)
  have "\<exists>raw' sg now. (raw', sg, now) \<in> set rs \<and> ga raw' = Some a \<and> signed_by ga vm a sg"
    using a(2)
  proof (induction rs rule: rev_induct)
    case (snoc x rs)
    obtain raw' sg now where x: "x = (raw', sg, now)" by (cases x)
    have "map_of (snd (consent_route ga vm raw' sg now (consent_requests ga vm rs))) a = Some r"
      using snoc.prems by (simp add: consent_requests_def x)
    from consent_step [OF this] show ?case using snoc.IH x by auto
  qed (simp add: consent_requests_def)
  then show ?thesis using a(1) by blast
qed

definition demo_sig :: string where "demo_sig = ''0x'' @ replicate 130 (CHR ''1'')"

lemma consent_is_signed_witness:
  "\<exists>a raw' sg now. Some ''0xA'' = Some a \<and> (raw', sg, now) \<in> set [(''0xa'', demo_sig, 5 :: rat)] \<and> Some ''0xA'' = Some a \<and>
     signed_by (\<lambda>s. Some ''0xA'') (\<lambda>m s. Some ''0xA'') a sg"
proof -
  have h: "hex_bytes 65 demo_sig" by (simp add: hex_bytes_def hex_text_def demo_sig_def hex_val_def numeral_eq_Suc)
  then have ne: "demo_sig \<noteq> ''''" by (auto simp: hex_bytes_def)
  have "hasConsent (\<lambda>s. Some ''0xA'') ''0xa'' (consent_requests (\<lambda>s. Some ''0xA'') (\<lambda>m s. Some ''0xA'') [(''0xa'', demo_sig, 5)])"
    using h ne by (simp add: consent_requests_def consent_route_def recordConsent_def consentMessage_def hasConsent_def)
  from consent_is_signed [OF this] show ?thesis .
qed

text \<open>A consent just given is found under every spelling of the address.\<close>

lemma consent_roundtrip:
  assumes "recordConsent ga vm raw sg now t = (Inr a, t')" "ga raw' = Some a"
  shows "hasConsent ga raw' t'"
  using assms by (auto simp: recordConsent_def hasConsent_def update_conv split: option.splits if_splits)

subsection \<open>Counters\<close>

definition SCOPES :: "string list" where
  "SCOPES = [''market_view'', ''tag_click'', ''sort_change'', ''category_click'', ''search_query'', ''search_live'']"

type_synonym counters = "((string \<times> string) \<times> nat) list"

definition count_event :: "nat \<times> counters \<Rightarrow> string \<times> string \<Rightarrow> nat \<times> counters" where
  "count_event = (\<lambda>(n, t) (scope, k).
       let key = lower (take 120 k) in
       if scope \<notin> set SCOPES \<or> key = '''' then (n, t)
       else (n + 1, AList.update (scope, key) ((case map_of t (scope, key) of None \<Rightarrow> 0 | Some c \<Rightarrow> c) + 1) t))"

definition recordEvents :: "(string \<times> string) list \<Rightarrow> counters \<Rightarrow> nat \<times> counters" where
  "recordEvents events t =
     foldl count_event (0, t) (take 50 events)"

definition topKeys :: "string \<Rightarrow> nat \<Rightarrow> counters \<Rightarrow> (string \<times> nat) list" where
  "topKeys scope limit t =
     take (min limit 500) (sort_key (\<lambda>(k, c). - int c) (map (\<lambda>((s, k), c). (k, c)) (filter (\<lambda>((s, k), c). s = scope) t)))"

definition analytics_route :: "(string \<times> string) list option \<Rightarrow> counters \<Rightarrow> nat \<times> counters" where
  "analytics_route body t =
     (let events = (case body of Some es \<Rightarrow> filter (\<lambda>(s, k). s \<noteq> '''' \<and> k \<noteq> '''') es | None \<Rightarrow> [])
      in if events \<noteq> [] then recordEvents events t else (0, t))"

text \<open>One request counts at most fifty events, and keys are short.\<close>

definition short_keys :: "counters \<Rightarrow> bool" where
  "short_keys t \<longleftrightarrow> (\<forall>e \<in> set t. fst (fst e) \<in> set SCOPES \<and> length (snd (fst e)) \<le> 120)"

lemma map_lower_len: "length (lower s) = length s"
  by (simp add: lower_def)

lemma count_event_bounds:
  assumes "count_event (n, t) e = (n', t')" "short_keys t"
  shows "n' \<le> n + 1 \<and> short_keys t'"
proof -
  obtain scope k where e: "e = (scope, k)" by fastforce
  have up: "set (AList.update q v u) \<subseteq> insert (q, v) (set u)" for q v and u :: counters by (induction u) auto
  have ins: "short_keys (AList.update (scope, lower (take 120 k)) v t)" if "scope \<in> set SCOPES" for v
    unfolding short_keys_def
  proof
    fix q assume "q \<in> set (AList.update (scope, lower (take 120 k)) v t)"
    then consider "q = ((scope, lower (take 120 k)), v)" | "q \<in> set t" using up by blast
    then show "fst (fst q) \<in> set SCOPES \<and> length (snd (fst q)) \<le> 120"
      using that assms(2) unfolding short_keys_def by cases (simp_all add: map_lower_len)
  qed
  show ?thesis
    using assms e ins by (auto simp: count_event_def Let_def split: if_splits)
qed

lemma count_events_bounds:
  "short_keys t \<Longrightarrow> foldl count_event (n, t) es = (n', t') \<Longrightarrow> n' \<le> n + length es \<and> short_keys t'"
proof (induction es arbitrary: n t)
  case (Cons e es)
  obtain m u where s: "count_event (n, t) e = (m, u)" by fastforce
  show ?case using count_event_bounds [OF s Cons.prems(1)] Cons.IH [of u m] Cons.prems(2) s by simp
qed simp

lemma recordEvents_bounds:
  assumes "short_keys t" "recordEvents es t = (n, t')"
  shows "n \<le> 50 \<and> short_keys t'"
  using count_events_bounds [OF assms(1), of 0 "take 50 es" n t'] assms(2)
  by (auto simp: recordEvents_def)

end
