(* ===== verification/Market_Catalog.thy ===== *)
theory Market_Catalog
  imports Market_Registry Decimal_Text "HOL-Library.Product_Lexorder"
begin

section \<open>The relay's market catalog\<close>

text \<open>
  \<open>proof-relay/src/marketCatalog.ts\<close>: the table of bettable markets, the durable
  table of names, the synchronisations that fill them, the queries, and the
  \<open>/markets\<close> routes of \<open>api.ts\<close>.  A row is the one of the theory
  \<open>Market_Registry\<close> with its descriptive columns; a table is in insertion order,
  which also breaks ties of a sort.  Gamma's answers are arguments: a request that fails
  answers the empty list.
\<close>

subsection \<open>Categories\<close>

text \<open>The alternatives of the patterns: a substring, a whole word, or two parts with at most one character between.\<close>

datatype tag_pattern = Sub string | Word string | Gap string string

definition word_char :: "char \<Rightarrow> bool" where
  "word_char c = (let n = (of_char c :: nat) in 48 \<le> n \<and> n \<le> 57 \<or> 65 \<le> n \<and> n \<le> 90 \<or> 97 \<le> n \<and> n \<le> 122 \<or> n = 95)"

fun word_from :: "bool \<Rightarrow> string \<Rightarrow> string \<Rightarrow> bool" where
  "word_from prev w [] \<longleftrightarrow> False"
| "word_from prev w (c # cs) \<longleftrightarrow>
     (\<not> prev \<and> take (length w) (c # cs) = w \<and>
        (case drop (length w) (c # cs) of [] \<Rightarrow> True | d # ds \<Rightarrow> \<not> word_char d)) \<or> word_from (word_char c) w cs"

fun gap_from :: "string \<Rightarrow> string \<Rightarrow> string \<Rightarrow> bool" where
  "gap_from a b [] \<longleftrightarrow> False"
| "gap_from a b (c # cs) \<longleftrightarrow>
     (take (length a) (c # cs) = a \<and>
        (let rest = drop (length a) (c # cs)
         in take (length b) rest = b \<or> (rest \<noteq> '''' \<and> hd rest \<noteq> CHR 10 \<and> take (length b) (tl rest) = b)))
     \<or> gap_from a b cs"

fun tag_matches :: "tag_pattern \<Rightarrow> string \<Rightarrow> bool" where
  "tag_matches (Sub p) s \<longleftrightarrow> js_includes p s"
| "tag_matches (Word p) s \<longleftrightarrow> word_from False p s"
| "tag_matches (Gap a b) s \<longleftrightarrow> gap_from a b s"

definition TAG_BUCKETS :: "(tag_pattern list \<times> string) list" where
  "TAG_BUCKETS =
     [([Sub ''crypto'', Sub ''bitcoin'', Sub ''ethereum'', Sub ''solana'', Sub ''memecoin'', Sub ''defi'',
        Word ''btc'', Word ''eth'', Word ''xrp'', Sub ''dogecoin''], ''CRYPTO''),
      ([Sub ''oil'', Sub ''crude'', Word ''wti'', Sub ''brent'', Gap ''natural'' ''gas'', Sub ''commodit'', Sub ''gasoline''],
        ''COMMODITIES''),
      ([Sub ''weather'', Sub ''temperature'', Word ''rain'', Sub ''hurricane'', Sub ''snowfall'', Word ''climate''], ''WEATHER''),
      ([Sub ''geopolit'', Sub ''iran'', Sub ''israel'', Sub ''russia'', Sub ''ukraine'', Sub ''china'', Sub ''taiwan'',
        Word ''war'', Gap ''middle'' ''east'', Sub ''nato'', Sub ''gaza''], ''GEO''),
      ([Sub ''econ'', Word ''fed'', Gap ''interest'' ''rate'', Sub ''inflation'', Sub ''recession'', Word ''gdp'', Word ''cpi'',
        Sub ''jobs'', Sub ''macro''], ''MACRO''),
      ([Word ''ai'', Sub ''artificial'', Sub ''technology'', Word ''tech'', Sub ''science'', Sub ''space'', Sub ''software'',
        Sub ''openai''], ''TECH''),
      ([Sub ''sport'', Sub ''soccer'', Sub ''football'', Word ''nfl'', Word ''nba'', Word ''mlb'', Sub ''fifa'', Sub ''tennis'',
        Word ''ufc'', Word ''f1'', Sub ''hockey'', Sub ''baseball'', Sub ''basketball'', Sub ''golf''], ''SPORTS''),
      ([Sub ''politic'', Sub ''election'', Sub ''trump'', Sub ''biden'', Sub ''congress'', Sub ''senate'', Sub ''president'',
        Word ''gov'', Sub ''democrat'', Sub ''republican''], ''POLITICS''),
      ([Sub ''culture'', Sub ''entertain'', Sub ''movie'', Sub ''music'', Sub ''award'', Sub ''celebr'', Word ''tv'', Sub ''oscar'',
        Sub ''grammy'', Word ''pop''], ''CULTURE'')]"

definition bucket_of :: "string \<Rightarrow> string option" where
  "bucket_of s = map_option snd (List.find (\<lambda>(ps, b). list_ex (\<lambda>p. tag_matches p s) ps) TAG_BUCKETS)"

fun categoryFromTags :: "(string option \<times> string option) list \<Rightarrow> string option \<Rightarrow> string" where
  "categoryFromTags [] fallback =
     upper (case fallback of Some f \<Rightarrow> if f = '''' then ''OTHER'' else f | None \<Rightarrow> ''OTHER'')"
| "categoryFromTags ((slug, label) # ts) fallback =
     (case bucket_of (lower ((case slug of Some s \<Rightarrow> s | None \<Rightarrow> '''') @ '' '' @ (case label of Some l \<Rightarrow> l | None \<Rightarrow> ''''))) of
        Some b \<Rightarrow> b
      | None \<Rightarrow> categoryFromTags ts fallback)"

subsection \<open>Rows\<close>

record full_market = GammaMarket +
  gx_slug :: "string option"
  gx_description :: "string option"
  gx_category :: "string option"
  gx_tags :: "(string option \<times> string option) list"
  gx_volume :: "rat option"
  gx_liquidity :: "rat option"
  gx_change :: "rat option"

record catalog_row = CatalogRow +
  ct_slug :: "string option"
  ct_category :: string
  ct_tags :: "string list"
  ct_volume :: rat
  ct_liquidity :: rat
  ct_change :: rat
  ct_accepting :: bool
  ct_description :: "string option"
  ct_source :: string
  ct_updated :: int

definition full_row :: "full_market \<Rightarrow> string \<Rightarrow> rat \<Rightarrow> string + catalog_row option" where
  "full_row m source ts =
     (case toCatalogRow (GammaMarket.truncate m) ts of
        Inl e \<Rightarrow> Inl e
      | Inr None \<Rightarrow> Inr None
      | Inr (Some r) \<Rightarrow> Inr (Some (CatalogRow.extend r
          (catalog_row.fields (gx_slug m) (categoryFromTags (gx_tags m) (gx_category m))
             (filter (\<lambda>t. t \<noteq> '''') (map (\<lambda>(slug, label). case slug of Some s \<Rightarrow> s
                | None \<Rightarrow> (case label of Some l \<Rightarrow> l | None \<Rightarrow> '''')) (gx_tags m)))
             (case gx_volume m of Some v \<Rightarrow> v | None \<Rightarrow> 0) (case gx_liquidity m of Some v \<Rightarrow> v | None \<Rightarrow> 0)
             (case gx_change m of Some v \<Rightarrow> v | None \<Rightarrow> 0) True (gx_description m) source \<lfloor>ts\<rfloor>))))"

text \<open>All markets of an answer; an id that is no number throws.\<close>

fun full_rows :: "string \<Rightarrow> rat \<Rightarrow> full_market list \<Rightarrow> string + catalog_row list" where
  "full_rows source ts [] = Inr []"
| "full_rows source ts (m # ms) =
     bind_sum (full_row m source ts) (\<lambda>r. bind_sum (full_rows source ts ms)
       (\<lambda>rs. Inr (case r of None \<Rightarrow> rs | Some x \<Rightarrow> x # rs)))"

subsection \<open>The two tables\<close>

record name_row =
  nr_condition_id :: string
  nr_question :: string
  nr_updated :: int

record catalog =
  ca_rows :: "(string \<times> catalog_row) list"
  ca_names :: "(string \<times> name_row) list"
  ca_last_live :: "(string \<times> int) list"

definition upsertNames :: "int \<Rightarrow> (string \<times> string \<times> string) list \<Rightarrow> catalog \<Rightarrow> catalog" where
  "upsertNames ts rows c = c\<lparr>ca_names := foldl (\<lambda>t (fs, cid, q).
     if cid = '''' \<or> q = '''' then t
     else AList.update (lower fs) \<lparr>nr_condition_id = lower cid, nr_question = q, nr_updated = ts\<rparr> t) (ca_names c) rows\<rparr>"

definition getMarketName :: "string \<Rightarrow> catalog \<Rightarrow> (string \<times> string) option" where
  "getMarketName i c = map_option (\<lambda>(fs, r). (nr_condition_id r, nr_question r))
     (List.find (\<lambda>(fs, r). fs = lower i \<or> nr_condition_id r = lower i) (ca_names c))"

text \<open>A conflict on the condition id keeps the stored \<open>field_safe_id\<close> and \<open>source\<close>.\<close>

definition upsert_catalog_row :: "(string \<times> catalog_row) list \<Rightarrow> catalog_row \<Rightarrow> (string \<times> catalog_row) list" where
  "upsert_catalog_row tab r =
     (case map_of tab (cr_condition_id r) of
        None \<Rightarrow> tab @ [(cr_condition_id r, r)]
      | Some old \<Rightarrow> AList.update (cr_condition_id r)
          (r\<lparr>cr_field_safe_id := cr_field_safe_id old, ct_source := ct_source old\<rparr>) tab)"

definition upsertRows :: "int \<Rightarrow> catalog_row list \<Rightarrow> catalog \<Rightarrow> nat \<times> catalog" where
  "upsertRows ts rows c =
     (length rows, upsertNames ts (map (\<lambda>r. (cr_field_safe_id r, cr_condition_id r, cr_question r)) rows)
        (c\<lparr>ca_rows := foldl upsert_catalog_row (ca_rows c) rows\<rparr>))"

subsection \<open>Queries\<close>

record client_market =
  cm_id :: string
  cm_cat :: string
  cm_name :: string
  cm_yes :: rat
  cm_delta :: rat
  cm_vol :: rat
  cm_liq :: rat
  cm_end_ts :: int
  cm_desc :: "string option"
  cm_yes_token :: string
  cm_no_token :: string
  cm_labels :: "string \<times> string"
  cm_accepting :: bool

definition toClient :: "catalog_row \<Rightarrow> client_market" where
  "toClient r = \<lparr>cm_id = cr_condition_id r, cm_cat = ct_category r, cm_name = cr_question r, cm_yes = cr_yes_price r,
     cm_delta = ct_change r, cm_vol = ct_volume r, cm_liq = ct_liquidity r,
     cm_end_ts = (case cr_end_date r of Some e \<Rightarrow> if e \<noteq> 0 then e * 1000 else 0 | None \<Rightarrow> 0),
     cm_desc = ct_description r, cm_yes_token = cr_yes r, cm_no_token = cr_no r, cm_labels = cr_labels r,
     cm_accepting = ct_accepting r\<rparr>"

text \<open>SQL's \<open>LIKE\<close>: percent, underscore, and letters of either case.\<close>

fun sql_like :: "string \<Rightarrow> string \<Rightarrow> bool" where
  "sql_like [] s \<longleftrightarrow> s = []"
| "sql_like (p # ps) [] \<longleftrightarrow> p = CHR ''%'' \<and> sql_like ps []"
| "sql_like (p # ps) (c # cs) \<longleftrightarrow>
     (if p = CHR ''%'' then sql_like ps (c # cs) \<or> sql_like (p # ps) cs
      else (p = CHR ''_'' \<or> lower_char p = lower_char c) \<and> sql_like ps cs)"

definition quote_text :: "string \<Rightarrow> string" where
  "quote_text s = [CHR 34] @ concat (map (\<lambda>c. if c \<in> {CHR 34, CHR 92} then [CHR 92, c] else [c]) s) @ [CHR 34]"

definition tags_text :: "string list \<Rightarrow> string" where
  "tags_text ts = ''['' @ concat (case map quote_text ts of [] \<Rightarrow> [] | x # xs \<Rightarrow> x # map (\<lambda>y. '','' @ y) xs) @ '']''"

record cat_query =
  cq_offset :: "int option"
  cq_limit :: "int option"
  cq_sort :: "string option"
  cq_category :: "string option"
  cq_q :: "string option"

definition truthy :: "string option \<Rightarrow> string option" where
  "truthy s = (if s = Some '''' then None else s)"

definition row_matches :: "int \<Rightarrow> cat_query \<Rightarrow> catalog_row \<Rightarrow> bool" where
  "row_matches now qy r \<longleftrightarrow>
     ct_accepting r \<and> (case cr_end_date r of None \<Rightarrow> True | Some e \<Rightarrow> e > now) \<and>
     (case truthy (cq_category qy) of Some c \<Rightarrow> c = ''ALL'' \<or> ct_category r = upper c | None \<Rightarrow> True) \<and>
     (case truthy (cq_q qy) of
        Some q \<Rightarrow> let pat = ''%'' @ lower q @ ''%'' in
          sql_like pat (lower (cr_question r)) \<or> sql_like pat (lower (tags_text (ct_tags r))) \<or>
          (case ct_slug r of Some s \<Rightarrow> sql_like pat (lower s) | None \<Rightarrow> False)
      | None \<Rightarrow> True)"

text \<open>
  \<open>SORT_COLUMNS\<close> is an object literal, so a lookup also finds what every object
  inherits.  An inherited value is no column list, and the statement with it does not
  compile: the query throws.  The fourth key is the change over a day, with its Greek letter
  in UTF-8.
\<close>

datatype sort_order = By_volume | By_liquidity | By_end | By_change | Inherited

definition INHERITED_KEYS :: "string list" where
  "INHERITED_KEYS = [''constructor'', ''toString'', ''toLocaleString'', ''valueOf'', ''hasOwnProperty'', ''isPrototypeOf'',
     ''propertyIsEnumerable'', ''__proto__'', ''__defineGetter__'', ''__defineSetter__'', ''__lookupGetter__'', ''__lookupSetter__'']"

definition SORT_COLUMNS :: "string \<Rightarrow> sort_order option" where
  "SORT_COLUMNS k =
     (if k = ''Volume'' then Some By_volume
      else if k = ''Liquidity'' then Some By_liquidity
      else if k = ''Resolves soon'' then Some By_end
      else if k = [CHR 206, CHR 148] @ ''24h'' then Some By_change
      else if k \<in> set INHERITED_KEYS then Some Inherited else None)"

definition order_of :: "string option \<Rightarrow> sort_order" where
  "order_of s = (case SORT_COLUMNS (case s of Some k \<Rightarrow> k | None \<Rightarrow> ''Volume'') of Some so \<Rightarrow> so | None \<Rightarrow> By_volume)"

fun ordered :: "sort_order \<Rightarrow> catalog_row list \<Rightarrow> string + catalog_row list" where
  "ordered By_volume rs = Inr (sort_key (\<lambda>r. - ct_volume r) rs)"
| "ordered By_liquidity rs = Inr (sort_key (\<lambda>r. - ct_liquidity r) rs)"
| "ordered By_end rs = Inr (sort_key (\<lambda>r. case cr_end_date r of None \<Rightarrow> (1 :: int, 0) | Some e \<Rightarrow> (0, e)) rs)"
| "ordered By_change rs = Inr (sort_key (\<lambda>r. - \<bar>ct_change r\<bar>) rs)"
| "ordered Inherited rs = Inl ''SqliteError''"

definition page_limit :: "cat_query \<Rightarrow> nat" where
  "page_limit qy = nat (min (max (case cq_limit qy of Some l \<Rightarrow> l | None \<Rightarrow> 60) 1) 200)"

definition page_offset :: "cat_query \<Rightarrow> nat" where
  "page_offset qy = nat (max (case cq_offset qy of Some i \<Rightarrow> i | None \<Rightarrow> 0) 0)"

definition queryCatalog :: "int \<Rightarrow> cat_query \<Rightarrow> catalog \<Rightarrow> string + client_market list \<times> nat" where
  "queryCatalog now qy c =
     (let hits = filter (row_matches now qy) (map snd (ca_rows c))
      in bind_sum (ordered (order_of (cq_sort qy)) hits)
           (\<lambda>rs. Inr (map toClient (take (page_limit qy) (drop (page_offset qy) rs)), length hits)))"

definition getMarketByCondition :: "string \<Rightarrow> catalog \<Rightarrow> client_market option" where
  "getMarketByCondition cid c = map_option toClient (map_of (ca_rows c) (lower cid))"

definition getMarketByFieldSafe :: "string \<Rightarrow> catalog \<Rightarrow> client_market option" where
  "getMarketByFieldSafe f c =
     map_option toClient (List.find (\<lambda>r. cr_field_safe_id r = lower f) (map snd (ca_rows c)))"

definition countCatalog :: "catalog \<Rightarrow> nat" where "countCatalog c = length (ca_rows c)"

subsection \<open>Synchronisation\<close>

definition CATALOG_PAGE :: nat where "CATALOG_PAGE = 100"
definition CATALOG_MAX_PAGES :: nat where "CATALOG_MAX_PAGES = 25"

fun catalog_pages :: "(nat \<Rightarrow> full_market list) \<Rightarrow> rat \<Rightarrow> nat \<Rightarrow> nat \<Rightarrow> nat \<Rightarrow> catalog \<Rightarrow> (string + nat) \<times> catalog" where
  "catalog_pages fetch ts page 0 n c = (Inr n, c)"
| "catalog_pages fetch ts page (Suc left) n c =
     (let data = fetch page in
      if data = [] then (Inr n, c)
      else (case full_rows ''sync'' ts data of
          Inl e \<Rightarrow> (Inl e, c)
        | Inr rows \<Rightarrow>
            let (k, c1) = upsertRows \<lfloor>ts\<rfloor> rows c
            in if length data < CATALOG_PAGE then (Inr (n + k), c1)
               else catalog_pages fetch ts (page + 1) left (n + k) c1))"

definition purge :: "int \<Rightarrow> catalog \<Rightarrow> catalog" where
  "purge now c = c\<lparr>ca_rows := filter (\<lambda>(k, r). \<not> (\<not> ct_accepting r \<or>
     (case cr_end_date r of None \<Rightarrow> False | Some e \<Rightarrow> e \<le> now))) (ca_rows c)\<rparr>"

definition syncCatalog :: "(nat \<Rightarrow> full_market list) \<Rightarrow> (nat \<Rightarrow> full_market list) \<Rightarrow> rat \<Rightarrow> catalog \<Rightarrow> (string + nat) \<times> catalog" where
  "syncCatalog by_vol by_soon ts c =
     (case catalog_pages by_vol ts 0 CATALOG_MAX_PAGES 0 c of
        (Inl e, c1) \<Rightarrow> (Inl e, c1)
      | (Inr n1, c1) \<Rightarrow>
          (case catalog_pages by_soon ts 0 4 0 c1 of
             (Inl e, c2) \<Rightarrow> (Inl e, c2)
           | (Inr n2, c2) \<Rightarrow> (Inr (n1 + n2), purge \<lfloor>ts\<rfloor> c2)))"

subsection \<open>Lookups that fall back to Gamma\<close>

definition market_id :: "full_market \<Rightarrow> string" where
  "market_id m = (case gm_conditionId m of None \<Rightarrow> '''' | Some c \<Rightarrow> c)"

definition market_question :: "full_market \<Rightarrow> string" where
  "market_question m = (case gm_question m of None \<Rightarrow> '''' | Some q \<Rightarrow> q)"

definition pickMarket :: "string \<Rightarrow> full_market list \<Rightarrow> full_market option" where
  "pickMarket cid data = List.find (\<lambda>m. lower (market_id m) = cid \<and> js_trim (market_question m) \<noteq> '''') data"

text \<open>\<open>Inl\<close> is the exception of an id that is no number; the caller answers null.\<close>

definition seedAndReturn :: "int \<Rightarrow> full_market option \<Rightarrow> catalog \<Rightarrow> (string + string option) \<times> catalog" where
  "seedAndReturn ts m c =
     (case m of
        None \<Rightarrow> (Inr None, c)
      | Some k \<Rightarrow>
          if market_id k = '''' \<or> market_question k = '''' then (Inr None, c)
          else (case toFieldSafe (market_id k) of
              None \<Rightarrow> (Inl ''SyntaxError'', c)
            | Some fs \<Rightarrow> (Inr (Some (market_question k)), upsertNames ts [(fs, market_id k, market_question k)] c)))"

definition resolveMarketName :: "full_market list \<Rightarrow> full_market list \<Rightarrow> int \<Rightarrow> string \<Rightarrow> catalog \<Rightarrow> string option \<times> catalog" where
  "resolveMarketName open_data closed_data ts conditionId c =
     (let cid = lower conditionId in
      case getMarketByCondition cid c of
        Some m \<Rightarrow> (Some (cm_name m), c)
      | None \<Rightarrow>
          (case getMarketByFieldSafe cid c of
             Some m \<Rightarrow> (Some (cm_name m), c)
           | None \<Rightarrow>
               (case getMarketName cid c of
                  Some (k, q) \<Rightarrow> (Some q, c)
                | None \<Rightarrow>
                    (case seedAndReturn ts (pickMarket cid open_data) c of
                       (Inl e, c1) \<Rightarrow> (None, c1)
                     | (Inr (Some q), c1) \<Rightarrow> (Some q, c1)
                     | (Inr None, c1) \<Rightarrow>
                         (case seedAndReturn ts (pickMarket cid closed_data) c1 of
                            (Inl e, c2) \<Rightarrow> (None, c2)
                          | (Inr r, c2) \<Rightarrow> (r, c2))))))"

definition ingestByConditionId :: "full_market list \<Rightarrow> rat \<Rightarrow> catalog \<Rightarrow> (string + client_market option) \<times> catalog" where
  "ingestByConditionId data ts c =
     (case full_rows ''search'' ts data of
        Inl e \<Rightarrow> (Inl e, c)
      | Inr [] \<Rightarrow> (Inr None, c)
      | Inr (row # rows) \<Rightarrow> (Inr (Some (toClient row)), snd (upsertRows \<lfloor>ts\<rfloor> [row] c)))"

definition gammaPublicSearchConditionIds :: "string option list \<Rightarrow> nat \<Rightarrow> string list" where
  "gammaPublicSearchConditionIds found cap =
     take cap (foldl (\<lambda>ids i. let cid = lower (case i of None \<Rightarrow> '''' | Some s \<Rightarrow> s)
                              in if id_shaped cid then set_add cid ids else ids) [] found)"

definition search_query :: "string \<Rightarrow> int \<Rightarrow> cat_query" where
  "search_query q limit = \<lparr>cq_offset = None, cq_limit = Some limit, cq_sort = Some ''Volume'', cq_category = None, cq_q = Some q\<rparr>"

definition searchMarkets :: "string option list \<Rightarrow> (string \<Rightarrow> full_market list) \<Rightarrow> rat \<Rightarrow> string \<Rightarrow> int \<Rightarrow> catalog
    \<Rightarrow> (string + client_market list \<times> bool) \<times> catalog" where
  "searchMarkets found fetch ts q limit c =
     (case queryCatalog \<lfloor>ts\<rfloor> (search_query q limit) c of
        Inl e \<Rightarrow> (Inl e, c)
      | Inr (local, hits_n) \<Rightarrow>
          if length local \<ge> 5 then (Inr (local, False), c)
          else let ids = gammaPublicSearchConditionIds found 25 in
               if ids = [] then (Inr (local, True), c)
               else (case full_rows ''search'' ts (concat (map fetch ids)) of
                   Inl e \<Rightarrow> (Inl e, c)
                 | Inr rows \<Rightarrow>
                     let c1 = (if rows \<noteq> [] then snd (upsertRows \<lfloor>ts\<rfloor> rows c) else c)
                     in (case queryCatalog \<lfloor>ts\<rfloor> (search_query q limit) c1 of
                           Inl e \<Rightarrow> (Inl e, c1)
                         | Inr (ms, hits_n) \<Rightarrow> (Inr (ms, True), c1))))"

subsection \<open>Deepening a category\<close>

definition CATEGORY_TAG_IDS :: "string \<Rightarrow> string option" where
  "CATEGORY_TAG_IDS = map_of
     [(''POLITICS'', ''2''), (''CRYPTO'', ''21''), (''COMMODITIES'', ''101031''), (''WEATHER'', ''84''), (''MACRO'', ''100328''),
      (''TECH'', ''1401''), (''GEO'', ''100265''), (''SPORTS'', ''1''), (''CULTURE'', ''596'')]"

definition OTHER_DEEPEN_TAG :: string where "OTHER_DEEPEN_TAG = ''120''"
definition OTHER_DEEPEN_PAGES :: nat where "OTHER_DEEPEN_PAGES = 3"
definition CATEGORY_LIVE_COOLDOWN_MS :: int where "CATEGORY_LIVE_COOLDOWN_MS = 60000"

text \<open>An exception on the way is logged; what the pages before it stored stays.\<close>

fun deepen_pages :: "(nat \<Rightarrow> full_market list) \<Rightarrow> bool \<Rightarrow> string \<Rightarrow> rat \<Rightarrow> nat \<Rightarrow> nat \<Rightarrow> catalog \<Rightarrow> catalog" where
  "deepen_pages fetch isOther cat ts p 0 c = c"
| "deepen_pages fetch isOther cat ts p (Suc left) c =
     (let data = fetch p in
      if data = [] then c
      else (case full_rows ''search'' ts data of
          Inl e \<Rightarrow> c
        | Inr mapped \<Rightarrow>
            let rows = (if isOther then mapped else map (\<lambda>r. r\<lparr>ct_category := cat\<rparr>) mapped);
                c1 = (if rows \<noteq> [] then snd (upsertRows \<lfloor>ts\<rfloor> rows c) else c)
            in if length data < CATALOG_PAGE then c1 else deepen_pages fetch isOther cat ts (p + 1) left c1))"

definition category_query :: "string \<Rightarrow> int \<Rightarrow> string \<Rightarrow> cat_query" where
  "category_query cat limit srt =
     \<lparr>cq_offset = None, cq_limit = Some limit, cq_sort = Some srt, cq_category = Some cat, cq_q = None\<rparr>"

text \<open>\<open>now\<close> is in milliseconds.  The first component of the result says whether Gamma was asked.\<close>

definition syncCategoryLive :: "(string \<Rightarrow> nat \<Rightarrow> full_market list) \<Rightarrow> int \<Rightarrow> string \<Rightarrow> int \<Rightarrow> string \<Rightarrow> catalog
    \<Rightarrow> (string + bool \<times> client_market list \<times> nat) \<times> catalog" where
  "syncCategoryLive fetch now category limit srt c =
     (let cat = upper category; isOther = (cat = ''OTHER'');
          tag = (if isOther then Some OTHER_DEEPEN_TAG else CATEGORY_TAG_IDS cat);
          seen = (case map_of (ca_last_live c) cat of Some t \<Rightarrow> t | None \<Rightarrow> 0)
      in case (if now - seen < CATEGORY_LIVE_COOLDOWN_MS then None else tag) of
           None \<Rightarrow> (bind_sum (queryCatalog (now div 1000) (category_query cat limit srt) c)
                     (\<lambda>(ms, hits_n). Inr (False, ms, hits_n)), c)
         | Some t \<Rightarrow>
             let c1 = c\<lparr>ca_last_live := AList.update cat now (ca_last_live c)\<rparr>;
                 c2 = deepen_pages (fetch t) isOther cat (of_int now / 1000) 0 (if isOther then OTHER_DEEPEN_PAGES else 1) c1
             in (bind_sum (queryCatalog (now div 1000) (category_query cat limit srt) c2)
                   (\<lambda>(ms, hits_n). Inr (True, ms, hits_n)), c2))"

definition fetchMidpoints :: "(string \<Rightarrow> rat option) \<Rightarrow> string list \<Rightarrow> (string \<times> rat) list" where
  "fetchMidpoints mid ids =
     foldl (\<lambda>out i. case mid i of Some m \<Rightarrow> AList.update i m out | None \<Rightarrow> out) [] (take 100 ids)"

subsection \<open>The routes\<close>

text \<open>
  Query parameters are texts, absent ones \<open>None\<close>.  \<open>Inl\<close> is a rejection that no handler
  takes: the framework's version does not await handlers, and the process has no
  handler for rejections, so it ends.
\<close>

definition markets_route :: "(string \<Rightarrow> nat \<Rightarrow> full_market list) \<Rightarrow> int \<Rightarrow> string option \<Rightarrow> string option \<Rightarrow> string option
    \<Rightarrow> string option \<Rightarrow> string option \<Rightarrow> catalog \<Rightarrow> (string + client_market list \<times> nat) \<times> catalog" where
  "markets_route fetch now qoffset qlimit qsort qcategory qq c =
     (let offset = (case qoffset of Some s \<Rightarrow> parse_int_or 0 s | None \<Rightarrow> 0);
          limit = (case qlimit of Some s \<Rightarrow> parse_int_or 60 s | None \<Rightarrow> 60);
          srt = truthy qsort; category = truthy qcategory; q = truthy qq;
          fallback = (\<lambda>c. (queryCatalog (now div 1000)
            \<lparr>cq_offset = Some offset, cq_limit = Some limit, cq_sort = srt, cq_category = category, cq_q = q\<rparr> c, c))
      in case category of
           None \<Rightarrow> fallback c
         | Some cat \<Rightarrow>
             if upper cat \<noteq> ''ALL'' \<and> q = None \<and> offset = 0 \<and> limit \<le> 60
             then (case syncCategoryLive fetch now cat limit (case srt of Some s \<Rightarrow> s | None \<Rightarrow> ''Volume'') c of
                     (Inr (live, ms, hits_n), c1) \<Rightarrow> (Inr (ms, hits_n), c1)
                   | (Inl e, c1) \<Rightarrow> fallback c1)
             else fallback c)"

definition market_name_route :: "full_market list \<Rightarrow> full_market list \<Rightarrow> int \<Rightarrow> string \<Rightarrow> catalog \<Rightarrow> (nat + string) \<times> catalog" where
  "market_name_route open_data closed_data ts cid c =
     (if \<not> hex_id cid then (Inl 400, c)
      else case resolveMarketName open_data closed_data ts cid c of
             (None, c1) \<Rightarrow> (Inl 404, c1)
           | (Some nm, c1) \<Rightarrow> (if nm = '''' then Inl 404 else Inr nm, c1))"

definition search_route :: "string option list \<Rightarrow> (string \<Rightarrow> full_market list) \<Rightarrow> rat \<Rightarrow> string option \<Rightarrow> string option
    \<Rightarrow> catalog \<Rightarrow> (client_market list \<times> bool) \<times> catalog" where
  "search_route found fetch ts qq qlimit c =
     (let q = js_trim (case qq of Some s \<Rightarrow> s | None \<Rightarrow> '''') in
      if length q < 2 then (([], False), c)
      else let limit = min (max (parse_int_or 50 (case qlimit of Some s \<Rightarrow> s | None \<Rightarrow> ''50'')) 1) 100
           in (case searchMarkets found fetch ts q limit c of
                 (Inr r, c1) \<Rightarrow> (r, c1)
               | (Inl e, c1) \<Rightarrow> (([], False), c1)))"

text \<open>\<open>split\<close> at a character.\<close>

fun split_at :: "char \<Rightarrow> string \<Rightarrow> string list" where
  "split_at d [] = [[]]"
| "split_at d (c # cs) = (if c = d then [] # split_at d cs
     else case split_at d cs of [] \<Rightarrow> [[c]] | x # xs \<Rightarrow> (c # x) # xs)"

definition prices_route :: "(string \<Rightarrow> rat option) \<Rightarrow> string option \<Rightarrow> (string \<times> rat) list" where
  "prices_route mid qids =
     (let ids = take 100 (filter (\<lambda>s. s \<noteq> '''') (map js_trim (split_at (CHR '','') (case qids of Some s \<Rightarrow> s | None \<Rightarrow> ''''))))
      in if ids = [] then [] else fetchMidpoints mid ids)"

definition market_route :: "full_market list \<Rightarrow> rat \<Rightarrow> string \<Rightarrow> catalog \<Rightarrow> (nat + client_market) \<times> catalog" where
  "market_route data ts cid c =
     (if \<not> hex_id cid then (Inl 400, c)
      else case getMarketByCondition cid c of
             Some m \<Rightarrow> (Inr m, c)
           | None \<Rightarrow>
               (case ingestByConditionId data ts c of
                  (Inr (Some m), c1) \<Rightarrow> (Inr m, c1)
                | (r, c1) \<Rightarrow> (Inl 404, c1)))"

end
