(* ===== verification/Market_Catalog_Props.thy ===== *)
theory Market_Catalog_Props
  imports Market_Catalog "HOL-Library.Multiset"
begin

section \<open>What the catalog guarantees\<close>

text \<open>
  Lists show open markets only and pages partition them; a market seen once keeps its
  name; and one sort parameter that ends the process.
\<close>

subsection \<open>The invariant of the two tables\<close>

definition cat_row_ok :: "catalog_row \<Rightarrow> bool" where
  "cat_row_ok r \<longleftrightarrow> cr_condition_id r \<noteq> '''' \<and> toFieldSafe (cr_condition_id r) = Some (cr_field_safe_id r)"

definition names_ok :: "(string \<times> name_row) list \<Rightarrow> bool" where
  "names_ok t \<longleftrightarrow> (\<forall>(k, n) \<in> set t. nr_question n \<noteq> '''')"

definition rows_ok :: "(string \<times> catalog_row) list \<Rightarrow> bool" where
  "rows_ok t \<longleftrightarrow> (\<forall>p \<in> set t. fst p = cr_condition_id (snd p) \<and> cat_row_ok (snd p))"

definition named :: "(string \<times> name_row) list \<Rightarrow> catalog_row \<Rightarrow> bool" where
  "named t r \<longleftrightarrow> (cr_question r \<noteq> '''' \<longrightarrow> lower (cr_field_safe_id r) \<in> dom (map_of t))"

definition catalog_ok :: "catalog \<Rightarrow> bool" where
  "catalog_ok c \<longleftrightarrow> names_ok (ca_names c) \<and> rows_ok (ca_rows c) \<and> (\<forall>p \<in> set (ca_rows c). named (ca_names c) (snd p))"

definition names_kept :: "catalog \<Rightarrow> catalog \<Rightarrow> bool" where
  "names_kept c c' \<longleftrightarrow> dom (map_of (ca_names c)) \<subseteq> dom (map_of (ca_names c'))"

definition keeps :: "catalog \<Rightarrow> catalog \<Rightarrow> bool" where
  "keeps c c' \<longleftrightarrow> (catalog_ok c \<longrightarrow> catalog_ok c') \<and> names_kept c c'"

lemma keeps_refl [simp, intro]: "keeps c c"
  by (simp add: keeps_def names_kept_def)

lemma keeps_trans: "keeps a b \<Longrightarrow> keeps b c \<Longrightarrow> keeps a c"
  by (auto simp: keeps_def names_kept_def)

lemma toCatalogRow_ids:
  assumes "toCatalogRow g ts = Inr (Some a)"
  shows "cr_condition_id a \<noteq> '''' \<and> toFieldSafe (cr_condition_id a) = Some (cr_field_safe_id a)"
proof -
  let ?cid = "candidate_id g"
  have "id_shaped ?cid" using assms by (simp add: toCatalogRow_def Let_def split: if_splits)
  moreover have "cr_condition_id a = ?cid \<and> toFieldSafe ?cid = Some (cr_field_safe_id a)"
    using assms unfolding toCatalogRow_def Let_def by (auto split: if_splits option.splits prod.splits)
  ultimately show ?thesis by (auto simp: id_shaped_def)
qed

lemma full_cat_row_ok: "full_row m source ts = Inr (Some r) \<Longrightarrow> cat_row_ok r"
proof -
  assume full: "full_row m source ts = Inr (Some r)"
  have x: "cr_condition_id (CatalogRow.extend a z) = cr_condition_id a" "cr_field_safe_id (CatalogRow.extend a z) = cr_field_safe_id a"
    for a and z :: "'z" by (simp_all add: CatalogRow.defs)
  obtain a where a: "toCatalogRow (GammaMarket.truncate m) ts = Inr (Some a)"
    "cr_condition_id r = cr_condition_id a" "cr_field_safe_id r = cr_field_safe_id a"
    using full by (auto simp: full_row_def x simp del: catalog_row.simps split: sum.splits option.splits)
  show ?thesis using toCatalogRow_ids [OF a(1)] a(2,3) by (simp add: cat_row_ok_def)
qed

lemma full_rows_ok: "full_rows source ts ms = Inr rs \<Longrightarrow> r \<in> set rs \<Longrightarrow> cat_row_ok r"
  by (induction ms arbitrary: rs)
    (auto simp: bind_sum_def full_cat_row_ok split: sum.splits option.splits)

lemma set_update: "set (AList.update k v t) \<subseteq> insert (k, v) (set t)"
  by (induction t) auto

text \<open>Names are added or overwritten by non-empty ones.\<close>

definition put_names :: "int \<Rightarrow> (string \<times> string \<times> string) list \<Rightarrow> (string \<times> name_row) list \<Rightarrow> (string \<times> name_row) list" where
  "put_names ts rows t0 = foldl (\<lambda>t (fs, cid, q). if cid = '''' \<or> q = '''' then t
     else AList.update (lower fs) \<lparr>nr_condition_id = lower cid, nr_question = q, nr_updated = ts\<rparr> t) t0 rows"

lemma upsertNames_put: "upsertNames ts rows c = c\<lparr>ca_names := put_names ts rows (ca_names c)\<rparr>"
  by (simp add: upsertNames_def put_names_def)

lemma put_names_props:
  "names_ok t \<Longrightarrow> names_ok (put_names ts rows t)"
  "dom (map_of t) \<subseteq> dom (map_of (put_names ts rows t))"
  "(fs, cid, q) \<in> set rows \<Longrightarrow> cid \<noteq> '''' \<Longrightarrow> q \<noteq> '''' \<Longrightarrow> lower fs \<in> dom (map_of (put_names ts rows t))"
proof -
  have step: "put_names ts ((f, i, w) # rs) t = put_names ts rs (if i = '''' \<or> w = '''' then t
      else AList.update (lower f) \<lparr>nr_condition_id = lower i, nr_question = w, nr_updated = ts\<rparr> t)" for f i w rs t
    by (simp add: put_names_def)
  have ok: "names_ok (AList.update k n t)" if "names_ok t" "nr_question n \<noteq> ''''" for k n t
    using that set_update [of k n t] by (auto simp: names_ok_def)
  have d: "dom (map_of t) \<subseteq> dom (map_of (put_names ts rows t))" for rows t
  proof (induction rows arbitrary: t)
    case (Cons x rs)
    obtain f i w where x: "x = (f, i, w)" by (cases x)
    show ?case unfolding x step by (rule order_trans [OF _ Cons.IH]) (auto simp: update_conv)
  qed (simp add: put_names_def)
  show "names_ok t \<Longrightarrow> names_ok (put_names ts rows t)"
  proof (induction rows arbitrary: t)
    case (Cons x rs)
    obtain f i w where x: "x = (f, i, w)" by (cases x)
    show ?case unfolding x step by (rule Cons.IH) (use Cons.prems ok in auto)
  qed (simp add: put_names_def)
  show "dom (map_of t) \<subseteq> dom (map_of (put_names ts rows t))" by (rule d)
  show "(fs, cid, q) \<in> set rows \<Longrightarrow> cid \<noteq> '''' \<Longrightarrow> q \<noteq> '''' \<Longrightarrow> lower fs \<in> dom (map_of (put_names ts rows t))"
  proof (induction rows arbitrary: t)
    case (Cons x rs)
    obtain f i w where x: "x = (f, i, w)" by (cases x)
    show ?case
    proof (cases "(fs, cid, q) = x")
      case True
      then have "lower fs \<in> dom (map_of (AList.update (lower f) \<lparr>nr_condition_id = lower i, nr_question = w, nr_updated = ts\<rparr> t))"
        using x by (simp add: update_conv dom_def)
      then show ?thesis unfolding x step using Cons.prems(2,3) True x d by fastforce
    next
      case False
      then have m: "(fs, cid, q) \<in> set rs" using Cons.prems(1) by simp
      show ?thesis unfolding x step by (rule Cons.IH [OF m Cons.prems(2,3)])
    qed
  qed simp
qed

lemma named_mono: "named t r \<Longrightarrow> dom (map_of t) \<subseteq> dom (map_of t') \<Longrightarrow> named t' r"
  by (auto simp: named_def)

lemma upsertNames_keeps: "keeps c (upsertNames ts rows c)"
  using put_names_props(1,2) [of "ca_names c" ts rows] named_mono
  by (auto simp: keeps_def names_kept_def upsertNames_put catalog_ok_def)

text \<open>Rows.\<close>

definition same_name :: "catalog_row \<Rightarrow> catalog_row \<Rightarrow> bool" where
  "same_name r r' \<longleftrightarrow> cr_field_safe_id r = cr_field_safe_id r' \<and> cr_question r = cr_question r'"

lemma upsert_row_cases:
  assumes "p \<in> set (upsert_catalog_row tab r)" "rows_ok tab" "cat_row_ok r"
  shows "p \<in> set tab \<or> (fst p = cr_condition_id (snd p) \<and> cat_row_ok (snd p) \<and> same_name (snd p) r)"
proof (cases "map_of tab (cr_condition_id r)")
  case None
  then show ?thesis using assms by (auto simp: upsert_catalog_row_def same_name_def)
next
  case (Some old)
  then have "(cr_condition_id r, old) \<in> set tab" by (rule map_of_SomeD)
  then have "cr_condition_id old = cr_condition_id r" "cat_row_ok old" using assms(2) by (fastforce simp: rows_ok_def)+
  then have "cr_field_safe_id old = cr_field_safe_id r" using assms(3) by (simp add: cat_row_ok_def)
  then have "p \<in> set (AList.update (cr_condition_id r) (r\<lparr>ct_source := ct_source old\<rparr>) tab)"
    using assms(1) Some by (simp add: upsert_catalog_row_def)
  then have "p \<in> insert (cr_condition_id r, r\<lparr>ct_source := ct_source old\<rparr>) (set tab)"
    using set_update by (rule subsetD [rotated])
  then show ?thesis using assms(3) by (auto simp: cat_row_ok_def same_name_def)
qed

lemma upsert_rows_cases:
  assumes "rows_ok tab" "\<forall>r \<in> set rs. cat_row_ok r"
  shows "rows_ok (foldl upsert_catalog_row tab rs) \<and>
    (\<forall>p \<in> set (foldl upsert_catalog_row tab rs). p \<in> set tab \<or> (\<exists>r \<in> set rs. same_name (snd p) r))"
  using assms
proof (induction rs arbitrary: tab)
  case (Cons r rs)
  have r: "cat_row_ok r" using Cons.prems(2) by simp
  have inv: "rows_ok (upsert_catalog_row tab r)"
    using upsert_row_cases [OF _ Cons.prems(1) r] Cons.prems(1) unfolding rows_ok_def by blast
  have IH: "rows_ok (foldl upsert_catalog_row (upsert_catalog_row tab r) rs)"
    "\<forall>p \<in> set (foldl upsert_catalog_row (upsert_catalog_row tab r) rs). p \<in> set (upsert_catalog_row tab r) \<or> (\<exists>r \<in> set rs. same_name (snd p) r)"
    using Cons.IH [OF inv] Cons.prems(2) by simp_all
  then show ?case using upsert_row_cases [OF _ Cons.prems(1) r] by auto
qed simp

lemma upsertRows_keeps:
  assumes "\<forall>r \<in> set rows. cat_row_ok r"
  shows "keeps c (snd (upsertRows ts rows c))"
proof -
  let ?tab = "foldl upsert_catalog_row (ca_rows c) rows"
  let ?triples = "map (\<lambda>r. (cr_field_safe_id r, cr_condition_id r, cr_question r)) rows"
  let ?names = "put_names ts ?triples (ca_names c)"
  have c': "snd (upsertRows ts rows c) = c\<lparr>ca_rows := ?tab, ca_names := ?names\<rparr>"
    by (simp add: upsertRows_def upsertNames_put)
  have grow: "dom (map_of (ca_names c)) \<subseteq> dom (map_of ?names)" by (rule put_names_props(2))
  have "catalog_ok (snd (upsertRows ts rows c))" if ok: "catalog_ok c"
  proof -
    have tab: "rows_ok ?tab" "\<forall>p \<in> set ?tab. p \<in> set (ca_rows c) \<or> (\<exists>r \<in> set rows. same_name (snd p) r)"
      using upsert_rows_cases [OF _ assms] ok by (simp_all add: catalog_ok_def)
    have new: "named ?names r" if r: "r \<in> set rows" for r
      unfolding named_def
    proof
      assume "cr_question r \<noteq> ''''"
      moreover have "(cr_field_safe_id r, cr_condition_id r, cr_question r) \<in> set ?triples" using r by auto
      moreover have "cr_condition_id r \<noteq> ''''" using assms r by (simp add: cat_row_ok_def)
      ultimately show "lower (cr_field_safe_id r) \<in> dom (map_of ?names)" by (intro put_names_props(3))
    qed
    have "named ?names (snd p)" if p: "p \<in> set ?tab" for p
      using tab(2) p
    proof (elim ballE disjE bexE)
      assume "p \<in> set (ca_rows c)"
      then show ?thesis using ok grow named_mono unfolding catalog_ok_def by blast
    next
      fix r assume "r \<in> set rows" "same_name (snd p) r"
      then show ?thesis using new [of r] by (simp add: named_def same_name_def)
    qed simp
    then show ?thesis using ok tab(1) put_names_props(1) by (simp add: c' catalog_ok_def)
  qed
  then show ?thesis using grow by (simp add: keeps_def names_kept_def c')
qed

subsection \<open>Everything the relay does to the catalog\<close>

lemma catalog_pages_keeps: "catalog_pages fetch ts page left n c = (r, c') \<Longrightarrow> keeps c c'"
proof (induction "left" arbitrary: page n c)
  case (Suc k)
  show ?case
  proof (cases "fetch page = []")
    case False
    show ?thesis
    proof (cases "full_rows ''sync'' ts (fetch page)")
      case (Inl e)
      then show ?thesis using Suc.prems False by (simp add: Let_def)
    next
      case (Inr rows)
      have u: "keeps c (snd (upsertRows \<lfloor>ts\<rfloor> rows c))"
        using full_rows_ok [OF Inr] by (intro upsertRows_keeps) blast
      obtain j c1 where j: "upsertRows \<lfloor>ts\<rfloor> rows c = (j, c1)" by fastforce
      have "keeps c1 c'" using Suc.prems False Inr j Suc.IH by (auto simp: Let_def split: if_splits)
      then show ?thesis using u j keeps_trans by fastforce
    qed
  qed (use Suc.prems in simp)
qed simp

lemma purge_keeps: "keeps c (purge now c)"
  by (auto simp: keeps_def names_kept_def purge_def catalog_ok_def rows_ok_def)

lemma seedAndReturn_keeps: "seedAndReturn ts m c = (r, c') \<Longrightarrow> keeps c c'"
  using upsertNames_keeps by (auto simp: seedAndReturn_def split: option.splits if_splits)

lemma full_rows_upsert_keeps: "full_rows source ts ms = Inr rows \<Longrightarrow> keeps c (snd (upsertRows t rows c))"
  by (intro upsertRows_keeps) (use full_rows_ok in blast)

lemma deepen_pages_keeps: "keeps c (deepen_pages fetch isOther cat ts p left c)"
proof (induction "left" arbitrary: p c)
  case (Suc k)
  show ?case
  proof (cases "full_rows ''search'' ts (fetch p)")
    case (Inr mapped)
    let ?rows = "if isOther then mapped else map (\<lambda>r. r\<lparr>ct_category := cat\<rparr>) mapped"
    have "\<forall>r \<in> set ?rows. cat_row_ok r" using full_rows_ok [OF Inr] by (auto simp: cat_row_ok_def)
    then have one: "keeps c (if ?rows \<noteq> [] then snd (upsertRows \<lfloor>ts\<rfloor> ?rows c) else c)" (is "keeps c ?c1")
      using upsertRows_keeps [of ?rows c] by simp
    have "deepen_pages fetch isOther cat ts p (Suc k) c \<in> {c, ?c1, deepen_pages fetch isOther cat ts (p + 1) k ?c1}"
      by (simp only: deepen_pages.simps Let_def Inr sum.case) simp
    then show ?thesis using one keeps_trans [OF one Suc.IH] by (elim insertE emptyE) simp_all
  qed (simp add: Let_def)
qed simp

text \<open>The steps: the bulk synchronisation, and what the requests do.\<close>

inductive catalog_step :: "catalog \<Rightarrow> catalog \<Rightarrow> bool" where
  bulk: "syncCatalog by_vol by_soon ts c = (r, c') \<Longrightarrow> catalog_step c c'"
| lookup_name: "resolveMarketName open_data closed_data t i c = (n, c') \<Longrightarrow> catalog_step c c'"
| ingest: "ingestByConditionId data ts c = (m, c') \<Longrightarrow> catalog_step c c'"
| search: "searchMarkets found fetch ts q limit c = (s, c') \<Longrightarrow> catalog_step c c'"
| deepen: "syncCategoryLive live now cat limit srt c = (l, c') \<Longrightarrow> catalog_step c c'"

lemma syncCatalog_keeps:
  assumes "syncCatalog by_vol by_soon ts c = (r, c')"
  shows "keeps c c'"
proof -
  obtain r1 c1 where one: "catalog_pages by_vol ts 0 CATALOG_MAX_PAGES 0 c = (r1, c1)" by fastforce
  obtain r2 c2 where two: "catalog_pages by_soon ts 0 4 0 c1 = (r2, c2)" by fastforce
  have k: "keeps c c1" "keeps c1 c2" using one two by (auto intro: catalog_pages_keeps)
  show ?thesis
  proof (cases r1)
    case (Inl e)
    then show ?thesis using assms one k by (simp add: syncCatalog_def)
  next
    case (Inr n)
    then show ?thesis using assms one two k purge_keeps [of c2] keeps_trans
      by (cases r2) (auto simp: syncCatalog_def)
  qed
qed

lemma resolveMarketName_keeps:
  assumes "resolveMarketName open_data closed_data t i c = (n, c')"
  shows "keeps c c'"
proof -
  obtain r1 c1 where one: "seedAndReturn t (pickMarket (lower i) open_data) c = (r1, c1)" by fastforce
  obtain r2 c2 where two: "seedAndReturn t (pickMarket (lower i) closed_data) c1 = (r2, c2)" by fastforce
  have k: "keeps c c1" "keeps c c2" using one two seedAndReturn_keeps keeps_trans by blast+
  have "c' = c \<or> c' = c1 \<or> c' = c2"
    using assms unfolding resolveMarketName_def Let_def
    by (auto simp: one two split: option.splits sum.splits)
  then show ?thesis using k by (elim disjE) simp_all
qed

lemma ingest_keeps: "ingestByConditionId data ts c = (m, c') \<Longrightarrow> keeps c c'"
  using full_rows_ok by (fastforce simp: ingestByConditionId_def split: sum.splits list.splits intro!: upsertRows_keeps)

lemma searchMarkets_keeps:
  assumes "searchMarkets found fetch ts q limit c = (s, c')"
  shows "keeps c c'"
proof -
  have "c' = c \<or> (\<exists>rows ms. full_rows ''search'' ts ms = Inr rows \<and> c' = snd (upsertRows \<lfloor>ts\<rfloor> rows c))"
    using assms unfolding searchMarkets_def Let_def by (auto split: sum.splits prod.splits if_splits)
  then show ?thesis using full_rows_upsert_keeps by blast
qed

lemma syncCategoryLive_keeps:
  assumes "syncCategoryLive live now cat limit srt c = (l, c')"
  shows "keeps c c'"
proof -
  have mark: "keeps c (c\<lparr>ca_last_live := m\<rparr>)" for m
    by (simp add: keeps_def names_kept_def catalog_ok_def)
  let ?oth = "upper cat = ''OTHER''"
  let ?tag = "if now - (case map_of (ca_last_live c) (upper cat) of Some t \<Rightarrow> t | None \<Rightarrow> 0) < CATEGORY_LIVE_COOLDOWN_MS then None
    else if ?oth then Some OTHER_DEEPEN_TAG else CATEGORY_TAG_IDS (upper cat)"
  show ?thesis
  proof (cases ?tag)
    case None
    then have "c' = c" using assms unfolding syncCategoryLive_def Let_def by (simp only: option.case prod.inject)
    then show ?thesis by simp
  next
    case (Some t)
    then have "c' = deepen_pages (live t) ?oth (upper cat) (of_int now / 1000) 0 (if ?oth then OTHER_DEEPEN_PAGES else 1)
        (c\<lparr>ca_last_live := AList.update (upper cat) now (ca_last_live c)\<rparr>)"
      using assms unfolding syncCategoryLive_def Let_def by (simp only: option.case prod.inject)
    then show ?thesis using keeps_trans [OF mark deepen_pages_keeps] by simp
  qed
qed

lemma catalog_step_keeps: "catalog_step c c' \<Longrightarrow> keeps c c'"
  by (induction rule: catalog_step.induct)
    (erule syncCatalog_keeps resolveMarketName_keeps ingest_keeps searchMarkets_keeps syncCategoryLive_keeps)+

lemma catalog_steps_keep: "catalog_step\<^sup>*\<^sup>* c c' \<Longrightarrow> keeps c c'"
  by (induction rule: rtranclp_induct) (auto intro: keeps_trans catalog_step_keeps)

definition empty_catalog :: catalog where
  "empty_catalog = \<lparr>ca_rows = [], ca_names = [], ca_last_live = []\<rparr>"

lemma empty_catalog_ok: "catalog_ok empty_catalog"
  by (simp add: catalog_ok_def names_ok_def rows_ok_def empty_catalog_def)

lemma find_some: "x \<in> set xs \<Longrightarrow> P x \<Longrightarrow> \<exists>y. List.find P xs = Some y \<and> P y \<and> y \<in> set xs"
  by (induction xs) auto

text \<open>With a name in the table the lookup needs nothing else, and answers an empty one only from a row that has none.\<close>

lemma named_resolves:
  assumes "catalog_ok c" "lower i \<in> dom (map_of (ca_names c))"
  shows "\<exists>q. resolveMarketName open_data closed_data t i c = (Some q, c) \<and>
    (q \<noteq> '''' \<or> (\<exists>p \<in> set (ca_rows c). cr_question (snd p) = ''''))"
proof -
  obtain n where "(lower i, n) \<in> set (ca_names c)" using assms(2) by (auto dest!: map_of_SomeD)
  then obtain y where y: "List.find (\<lambda>(fs, r). fs = lower i \<or> nr_condition_id r = lower i) (ca_names c) = Some y" "y \<in> set (ca_names c)"
    using find_some [of "(lower i, n)" "ca_names c" "\<lambda>(fs, r). fs = lower i \<or> nr_condition_id r = lower i"] by auto
  have nm: "getMarketName (lower i) c = Some (nr_condition_id (snd y), nr_question (snd y))" "nr_question (snd y) \<noteq> ''''"
    using y assms(1) by (cases y; fastforce simp: getMarketName_def catalog_ok_def names_ok_def)+
  have shown: "\<exists>p \<in> set (ca_rows c). m = toClient (snd p)"
    if "getMarketByCondition (lower i) c = Some m \<or> getMarketByFieldSafe (lower i) c = Some m" for m
    using that
  proof
    assume "getMarketByCondition (lower i) c = Some m"
    then obtain r where "map_of (ca_rows c) (lower i) = Some r" "m = toClient r" by (auto simp: getMarketByCondition_def)
    then show ?thesis by (auto dest!: map_of_SomeD intro!: bexI [of _ "(lower i, r)"])
  next
    assume "getMarketByFieldSafe (lower i) c = Some m"
    then obtain r where "List.find (\<lambda>r. cr_field_safe_id r = lower i) (map snd (ca_rows c)) = Some r" "m = toClient r"
      by (auto simp: getMarketByFieldSafe_def)
    then show ?thesis by (fastforce simp: find_Some_iff in_set_conv_nth)
  qed
  have nonempty: "cm_name m \<noteq> '''' \<or> (\<exists>p \<in> set (ca_rows c). cr_question (snd p) = '''')"
    if "getMarketByCondition (lower i) c = Some m \<or> getMarketByFieldSafe (lower i) c = Some m" for m
    using shown [OF that] by (fastforce simp: toClient_def)
  have "cm_name m \<noteq> '''' \<or> (\<exists>p \<in> set (ca_rows c). cr_question (snd p) = '''')"
    if "getMarketByCondition (lower i) c = Some m" for m by (rule nonempty) (simp add: that)
  moreover have "cm_name m \<noteq> '''' \<or> (\<exists>p \<in> set (ca_rows c). cr_question (snd p) = '''')"
    if "getMarketByFieldSafe (lower i) c = Some m" for m by (rule nonempty) (simp add: that)
  ultimately show ?thesis using nm
    by (cases "getMarketByCondition (lower i) c"; cases "getMarketByFieldSafe (lower i) c")
      (simp_all add: resolveMarketName_def Let_def)
qed

text \<open>
  A market seen once keeps its name. In every run of the relay that starts with an
  empty catalog, a market that was ever in the catalog with a question resolves by its
  on-chain id later on, whatever synchronisations, purges, searches and lookups came in between
  and whether or not Gamma answers; the name is not empty unless Gamma itself sent an
  empty question for a market that is still listed.
\<close>

lemma market_names_survive:
  assumes "catalog_step\<^sup>*\<^sup>* empty_catalog c" "(k, r) \<in> set (ca_rows c)" "cr_question r \<noteq> ''''" "catalog_step\<^sup>*\<^sup>* c c'"
  shows "\<exists>q. resolveMarketName open_data closed_data t (cr_field_safe_id r) c' = (Some q, c') \<and>
    (q \<noteq> '''' \<or> (\<exists>p \<in> set (ca_rows c'). cr_question (snd p) = ''''))"
proof (rule named_resolves)
  have ok: "catalog_ok c" using catalog_steps_keep [OF assms(1)] empty_catalog_ok by (simp add: keeps_def)
  then show "catalog_ok c'" using catalog_steps_keep [OF assms(4)] by (simp add: keeps_def)
  have "named (ca_names c) r" using ok assms(2) by (auto simp: catalog_ok_def)
  then have "lower (cr_field_safe_id r) \<in> dom (map_of (ca_names c))" using assms(3) by (simp add: named_def)
  then show "lower (cr_field_safe_id r) \<in> dom (map_of (ca_names c'))"
    using catalog_steps_keep [OF assms(4)] by (auto simp: keeps_def names_kept_def)
qed

definition demo_cid :: string where "demo_cid = ''0x'' @ replicate 63 (CHR ''0'') @ ''7''"

definition demo_gamma :: full_market where
  "demo_gamma = \<lparr>gm_conditionId = Some demo_cid, gm_question = Some ''Rain?'', gm_outcomes = [''Yes'', ''No''], gm_tokens = [''11'', ''12''],
     gm_prices = [], gm_enableOrderBook = True, gm_acceptingOrders = None, gm_closed = None, gm_active = None, gm_end_ms = None,
     gx_slug = None, gx_description = None, gx_category = None, gx_tags = [], gx_volume = None, gx_liquidity = None, gx_change = None\<rparr>"

lemma demo_cid_facts: "lower demo_cid = demo_cid" "id_shaped demo_cid" "toFieldSafe demo_cid = Some demo_cid"
proof -
  have "lower demo_cid = demo_cid" by code_simp
  then show "lower demo_cid = demo_cid" .
  show "id_shaped demo_cid" by (simp add: id_shaped_def demo_cid_def numeral_eq_Suc)
  have t: "demo_cid = toHex 7" by (simp add: toHex_def pad_start_def demo_cid_def to_string16.simps [of 7] hex_char_def numeral_eq_Suc) code_simp
  show "toFieldSafe demo_cid = Some demo_cid" unfolding t by (simp add: toFieldSafe_def BigInt_toHex BN254_P_def)
qed

definition demo_catalog_row :: catalog_row where
  "demo_catalog_row = \<lparr>cr_condition_id = demo_cid, cr_field_safe_id = demo_cid, cr_question = ''Rain?'', cr_yes = ''11'', cr_no = ''12'',
     cr_labels = (''Yes'', ''No''), cr_end_date = None, cr_yes_price = 1 / 2, ct_slug = None, ct_category = ''OTHER'', ct_tags = [],
     ct_volume = 0, ct_liquidity = 0, ct_change = 0, ct_accepting = True, ct_description = None, ct_source = ''search'', ct_updated = 9\<rparr>"

lemma demo_full_row: "full_row demo_gamma ''search'' 9 = Inr (Some demo_catalog_row)"
proof -
  have b: "binaryIndices (map lower [''Yes'', ''No'']) [''Yes'', ''No''] = Some (0, 1, ''Yes'', ''No'')" by code_simp
  have u: "upper ''OTHER'' = ''OTHER''" by code_simp
  have t: "toCatalogRow (GammaMarket.truncate demo_gamma) 9 = Inr (Some \<lparr>cr_condition_id = demo_cid, cr_field_safe_id = demo_cid,
      cr_question = ''Rain?'', cr_yes = ''11'', cr_no = ''12'', cr_labels = (''Yes'', ''No''), cr_end_date = None, cr_yes_price = 1 / 2\<rparr>)"
    using demo_cid_facts b by (simp add: toCatalogRow_def GammaMarket.defs demo_gamma_def candidate_id_def elem_at_def present_def Let_def)
  show ?thesis
    unfolding full_row_def t by (simp add: CatalogRow.defs catalog_row.defs demo_catalog_row_def demo_gamma_def u)
qed

definition demo_catalog :: catalog where
  "demo_catalog = snd (ingestByConditionId [demo_gamma] 9 empty_catalog)"

lemma demo_catalog_run: "catalog_step\<^sup>*\<^sup>* empty_catalog demo_catalog" "(demo_cid, demo_catalog_row) \<in> set (ca_rows demo_catalog)"
proof -
  have "catalog_step empty_catalog demo_catalog"
    unfolding demo_catalog_def by (rule ingest [OF prod.collapse [symmetric]])
  then show "catalog_step\<^sup>*\<^sup>* empty_catalog demo_catalog" by simp
  show "(demo_cid, demo_catalog_row) \<in> set (ca_rows demo_catalog)"
    by (simp add: demo_catalog_def ingestByConditionId_def bind_sum_def demo_full_row upsertRows_def upsertNames_put
        upsert_catalog_row_def empty_catalog_def) (simp add: demo_catalog_row_def)
qed

lemma market_names_survive_witness:
  "\<exists>q. resolveMarketName [] [] 10 demo_cid demo_catalog = (Some q, demo_catalog) \<and>
    (q \<noteq> '''' \<or> (\<exists>p \<in> set (ca_rows demo_catalog). cr_question (snd p) = ''''))"
  using market_names_survive [OF demo_catalog_run, of demo_catalog "[]" "[]" 10]
  by (simp add: demo_catalog_row_def)

subsection \<open>Lists\<close>

lemma ordered_perm: "ordered so rs = Inr ys \<Longrightarrow> mset ys = mset rs"
  by (cases so) auto

lemma pages_concat:
  assumes "0 < L"
  shows "concat (map (\<lambda>i. take L (drop (i * L) xs)) [0..<n]) = take (n * L) xs"
proof (induction n)
  case (Suc n)
  have "take (Suc n * L) xs = take (n * L) xs @ take L (drop (n * L) xs)"
    by (simp add: take_add [symmetric] add.commute)
  with Suc show ?case by simp
qed simp

definition page_query :: "cat_query \<Rightarrow> nat \<Rightarrow> cat_query" where
  "page_query qy i = qy\<lparr>cq_offset := Some (int (i * page_limit qy))\<rparr>"

text \<open>
  The pages of a list are the list. The markets of the first pages of a query, as many
  as its total needs, are together exactly the stored markets that accept orders,
  have not ended and match the filters, each as often as it is stored, in the order asked
  for; every page reports the same total, the number of these markets.
\<close>

lemma catalog_pages_partition:
  assumes "ordered (order_of (cq_sort qy)) (filter (row_matches now qy) (map snd (ca_rows c))) = Inr ys"
    and "length ys \<le> n * page_limit qy"
  shows "(\<forall>i. \<exists>ms. queryCatalog now (page_query qy i) c = Inr (ms, length ys)) \<and>
    concat (map (\<lambda>i. case queryCatalog now (page_query qy i) c of Inr (ms, k) \<Rightarrow> ms | Inl e \<Rightarrow> []) [0..<n]) = map toClient ys \<and>
    mset ys = mset (filter (row_matches now qy) (map snd (ca_rows c)))"
proof -
  let ?L = "page_limit qy"
  have L: "0 < ?L" by (simp add: page_limit_def)
  have same: "row_matches now (page_query qy i) = row_matches now qy" "page_limit (page_query qy i) = ?L"
    "cq_sort (page_query qy i) = cq_sort qy" "page_offset (page_query qy i) = i * ?L" for i
    unfolding page_offset_def by (auto simp: fun_eq_iff row_matches_def page_query_def page_limit_def [of "qy\<lparr>cq_offset := z\<rparr>" for z]
        page_limit_def [of qy, symmetric] nat_mult_distrib)
  have len: "length (filter (row_matches now qy) (map snd (ca_rows c))) = length ys"
    by (rule mset_eq_length [OF ordered_perm [OF assms(1), symmetric]])
  have page: "queryCatalog now (page_query qy i) c = Inr (map toClient (take ?L (drop (i * ?L) ys)), length ys)" for i
    by (simp only: queryCatalog_def Let_def same assms(1) bind_sum_def sum.case len)
  have "concat (map (\<lambda>i. map toClient (take ?L (drop (i * ?L) ys))) [0..<n]) = map toClient (concat (map (\<lambda>i. take ?L (drop (i * ?L) ys)) [0..<n]))"
    by (simp add: map_concat comp_def)
  also have "\<dots> = map toClient ys" using pages_concat [OF L, of ys n] assms(2) by simp
  finally show ?thesis using page ordered_perm [OF assms(1)] by simp
qed

definition demo_cat_query :: cat_query where
  "demo_cat_query = \<lparr>cq_offset = None, cq_limit = None, cq_sort = None, cq_category = None, cq_q = None\<rparr>"

lemma catalog_pages_partition_witness:
  "concat (map (\<lambda>i. case queryCatalog 10 (page_query demo_cat_query i) demo_catalog of Inr (ms, k) \<Rightarrow> ms | Inl e \<Rightarrow> []) [0..<1]) =
     [toClient demo_catalog_row]"
proof -
  have rows: "map snd (ca_rows demo_catalog) = [demo_catalog_row]"
    by (simp add: demo_catalog_def ingestByConditionId_def bind_sum_def demo_full_row upsertRows_def upsertNames_put
        upsert_catalog_row_def empty_catalog_def)
  have m: "row_matches 10 demo_cat_query demo_catalog_row"
    by (simp add: row_matches_def demo_cat_query_def demo_catalog_row_def truthy_def)
  have "ordered (order_of (cq_sort demo_cat_query)) (filter (row_matches 10 demo_cat_query) (map snd (ca_rows demo_catalog))) = Inr [demo_catalog_row]"
    using m by (simp add: rows order_of_def demo_cat_query_def SORT_COLUMNS_def)
  from catalog_pages_partition [OF this, of 1] show ?thesis by (simp add: page_limit_def demo_cat_query_def)
qed

text \<open>
  One request ends the relay. The sort parameter is looked up in an object literal, and a
  key that every object inherits is found there; the query built from it does not
  compile, and the rejection reaches no handler. Every request for the market list with such a
  key, whatever its other parameters and whatever the catalog holds, ends so.
\<close>

lemma inherited_sort_rejects:
  assumes "key \<in> set INHERITED_KEYS"
  shows "\<exists>e c'. markets_route fetch now qoffset qlimit (Some key) qcategory qq c = (Inl e, c')"
proof -
  have k: "key \<notin> {''Volume'', ''Liquidity'', ''Resolves soon'', [CHR 206, CHR 148] @ ''24h'', ''''}"
    using assms by (auto simp: INHERITED_KEYS_def)
  then have so: "order_of (Some key) = Inherited" using assms by (simp add: order_of_def SORT_COLUMNS_def)
  have q: "queryCatalog t qy d = Inl ''SqliteError''" if "cq_sort qy = Some key" for t qy d
    using that so by (simp add: queryCatalog_def Let_def bind_sum_def)
  have t: "truthy (Some key) = Some key" using k by (simp add: truthy_def)
  have live: "\<exists>d. syncCategoryLive fetch now cat limit key c = (Inl ''SqliteError'', d)" for cat limit
    by (simp add: syncCategoryLive_def Let_def q category_query_def bind_sum_def split: option.splits)
  show ?thesis
  proof (cases "truthy qcategory")
    case None
    then show ?thesis by (simp add: markets_route_def Let_def q t)
  next
    case (Some cat)
    obtain d where "syncCategoryLive fetch now cat (case qlimit of Some s \<Rightarrow> parse_int_or 60 s | None \<Rightarrow> 60) key c = (Inl ''SqliteError'', d)"
      using live by blast
    then show ?thesis by (simp add: markets_route_def Let_def q t Some)
  qed
qed

lemma inherited_sort_rejects_witness:
  "\<exists>e c'. markets_route (\<lambda>t p. []) 0 None None (Some ''constructor'') None None empty_catalog = (Inl e, c')"
  by (rule inherited_sort_rejects) (simp add: INHERITED_KEYS_def)

text \<open>A category written in lower case is \<open>ALL\<close> to the route and a category of that name to the query.\<close>

lemma lower_case_all_is_empty:
  assumes "\<forall>p \<in> set (ca_rows c). ct_category (snd p) \<noteq> ''ALL''"
  shows "fst (markets_route fetch now None None None (Some ''all'') None c) = Inr ([], 0)"
proof -
  have u: "upper ''all'' = ''ALL''" by code_simp
  have none: "filter (row_matches t qy) (map snd (ca_rows c)) = []" if "cq_category qy = Some ''all''" for t qy
    using assms that by (auto simp: filter_empty_conv row_matches_def truthy_def u)
  show ?thesis
    by (simp add: markets_route_def Let_def truthy_def u queryCatalog_def none bind_sum_def order_of_def SORT_COLUMNS_def)
qed

text \<open>A market that has ended is still answered by its condition id until the next purge.\<close>

lemma ended_market_shown:
  assumes "map_of (ca_rows c) cid = Some r" "cr_end_date r = Some e" "e \<le> now" "lower cid = cid" "hex_id cid"
  shows "market_route data (of_int now) cid c = (Inr (toClient r), c) \<and> \<not> row_matches now qy r"
  using assms by (simp add: market_route_def getMarketByCondition_def row_matches_def)

end
