(* ===== verification/Vault_Reads.thy ===== *)
theory Vault_Reads
  imports Relay_Reads Account_State
begin

section \<open>The frontend's reads of the chain and of the services\<close>

text \<open>
  \<open>frontend/src/lib/api.ts\<close>: calls of the vault through a metered RPC, the decoding
  of what they answer, the wait for a transaction, the client of the path route, and
  the errors of the HTTP clients.  The RPC is a parameter: what it answers to a call of a contract
  with some data at each attempt.
\<close>

subsection \<open>Calls with retries\<close>

text \<open>
  \<open>Rpc_limited\<close> is HTTP 429, \<open>Rpc_down\<close> an exception of the request or of the
  parser, \<open>Rpc_fault\<close> an error object, \<open>Rpc_result\<close> a result (which may be absent).
\<close>

datatype rpc_answer = Rpc_limited | Rpc_down string | Rpc_fault "int option" string | Rpc_result "string option"

definition retryable_fault :: "int option \<Rightarrow> string \<Rightarrow> bool" where
  "retryable_fault code msg \<longleftrightarrow> code = Some 429 \<or> code = Some (-32005) \<or>
     (\<exists>w \<in> set [''rate'', ''compute unit'', ''throughput'', ''limit'', ''exceeded'']. js_includes w (lower msg))"

text \<open>
  The exception for a fault that is not retryable is thrown inside the \<open>try\<close>, so the
  \<open>catch\<close> takes it and the loop goes on.
\<close>

fun eth_attempts :: "(nat \<Rightarrow> rpc_answer) \<Rightarrow> nat \<Rightarrow> nat \<Rightarrow> string \<Rightarrow> string + string" where
  "eth_attempts ans k 0 lastErr = Inl lastErr"
| "eth_attempts ans k (Suc left) lastErr =
     (case ans k of
        Rpc_limited \<Rightarrow> eth_attempts ans (k + 1) left ''http 429''
      | Rpc_down e \<Rightarrow> eth_attempts ans (k + 1) left e
      | Rpc_fault code msg \<Rightarrow>
          eth_attempts ans (k + 1) left (if retryable_fault code msg then msg else ''eth_call error: '' @ msg)
      | Rpc_result r \<Rightarrow> Inr (case r of None \<Rightarrow> ''0x'' | Some s \<Rightarrow> s))"

definition ETH_CALL_ATTEMPTS :: nat where "ETH_CALL_ATTEMPTS = 5"

definition ethCall :: "(nat \<Rightarrow> rpc_answer) \<Rightarrow> string + string" where
  "ethCall ans = eth_attempts ans 0 ETH_CALL_ATTEMPTS ''eth_call failed after retries''"

type_synonym rpc = "string \<Rightarrow> string \<Rightarrow> nat \<Rightarrow> rpc_answer"

definition call_with :: "string \<Rightarrow> string \<Rightarrow> string" where
  "call_with selector arg = selector @ pad_start 64 (CHR ''0'') (drop 2 arg)"

subsection \<open>Spent nullifiers\<close>

definition last_chars :: "nat \<Rightarrow> string \<Rightarrow> string" where
  "last_chars n s = drop (length s - n) s"

definition resolveNullifierRegistry :: "rpc \<Rightarrow> string \<Rightarrow> string option \<Rightarrow> (string + string) \<times> string option" where
  "resolveNullifierRegistry rpc vault cache =
     (case cache of
        Some a \<Rightarrow> (Inr a, cache)
      | None \<Rightarrow>
          (case ethCall (rpc vault ''0x39b51ea5'') of
             Inl e \<Rightarrow> (Inl e, cache)
           | Inr raw \<Rightarrow>
               let addr = ''0x'' @ last_chars 40 raw
               in if \<not> hex_bytes 20 addr \<or> BigInt addr = Some 0 then (Inl ''could not resolve NullifierRegistry'', cache)
                  else (Inr addr, Some addr)))"

text \<open>\<open>None\<close>: the read failed, or its answer is not a number.\<close>

definition isSpent_read :: "rpc \<Rightarrow> string \<Rightarrow> string \<Rightarrow> bool option" where
  "isSpent_read rpc registry n =
     (case ethCall (rpc registry (call_with ''0xe5285dcc'' n)) of
        Inl e \<Rightarrow> None
      | Inr raw \<Rightarrow> if raw = '''' \<or> raw = ''0x'' then Some False else map_option (\<lambda>v. v = 1) (BigInt raw))"

definition readSpentNullifiers :: "rpc \<Rightarrow> string \<Rightarrow> string option \<Rightarrow> string list \<Rightarrow> string list \<times> string option" where
  "readSpentNullifiers rpc vault cache ns =
     (if ns = [] then ([], cache)
      else (case resolveNullifierRegistry rpc vault cache of
              (Inl e, c) \<Rightarrow> ([], c)
            | (Inr registry, c) \<Rightarrow> (map lower (filter (\<lambda>n. isSpent_read rpc registry n = Some True) ns), c)))"

subsection \<open>Bet records\<close>

definition word_text :: "string \<Rightarrow> nat \<Rightarrow> string" where
  "word_text raw i = take 64 (drop (2 + 64 * i) raw)"

text \<open>\<open>None\<close>: the digits are not hexadecimal, and \<open>BigInt\<close> throws.\<close>

definition word_of :: "string \<Rightarrow> nat \<Rightarrow> nat option" where
  "word_of raw i = (let s = word_text raw i in if length s = 64 then parse_digits 16 0 s else Some 0)"

record full_record = BetRecordView +
  br_filledShares :: int
  br_spentAmount :: int

definition absent_record :: full_record where
  "absent_record = \<lparr>br_status = -1, br_expectedShares = 0, br_betAmount = 0, br_soldShares = 0, br_sellProceeds = 0,
     br_filledShares = 0, br_spentAmount = 0\<rparr>"

definition decode_record :: "string \<Rightarrow> full_record option" where
  "decode_record raw =
     (if length raw < 2 + 64 * 11 then Some absent_record
      else (case (word_of raw 6, word_of raw 3, word_of raw 4, word_of raw 7, word_of raw 8, word_of raw 9, word_of raw 10) of
              (Some st, Some es, Some ba, Some sp, Some so, Some fi, Some sa) \<Rightarrow>
                Some \<lparr>br_status = int st, br_expectedShares = int es, br_betAmount = int ba, br_soldShares = int so,
                      br_sellProceeds = int sp, br_filledShares = int fi, br_spentAmount = int sa\<rparr>
            | _ \<Rightarrow> None))"

definition fetchBetRecord :: "rpc \<Rightarrow> string \<Rightarrow> string \<Rightarrow> full_record option" where
  "fetchBetRecord rpc vault nob =
     (case ethCall (rpc vault (call_with ''0x3e2ccd6c'' nob)) of Inl e \<Rightarrow> None | Inr raw \<Rightarrow> decode_record raw)"

definition fetchBetProtocolFee :: "rpc \<Rightarrow> string \<Rightarrow> string \<Rightarrow> int option" where
  "fetchBetProtocolFee rpc vault nob =
     (case ethCall (rpc vault (call_with ''0x6075ae59'' nob)) of Inl e \<Rightarrow> None | Inr raw \<Rightarrow> map_option int (word_of raw 0))"

definition fetchPartialFill :: "rpc \<Rightarrow> string \<Rightarrow> string \<Rightarrow> (int \<times> int \<times> int \<times> int) option" where
  "fetchPartialFill rpc vault nob =
     map_option (\<lambda>r. (br_status r, br_betAmount r, br_spentAmount r, br_filledShares r)) (fetchBetRecord rpc vault nob)"

definition read_status :: "rpc \<Rightarrow> string \<Rightarrow> string \<Rightarrow> int option" where
  "read_status rpc vault nob = map_option br_status (fetchBetRecord rpc vault nob)"

text \<open>\<open>BigInt(result || '0x0')\<close>; the result \<open>0x\<close> is not a number, and throws.\<close>

definition number_read :: "string \<Rightarrow> int option" where
  "number_read result = map_option int (BigInt (if result = '''' then ''0x0'' else result))"

definition fetchPendingCredit :: "rpc \<Rightarrow> string \<Rightarrow> string \<Rightarrow> nat \<Rightarrow> int option" where
  "fetchPendingCredit rpc vault market sd =
     (case ethCall (rpc vault (call_with ''0x64043a2f'' market @ pad_start 64 (CHR ''0'') (to_string16 sd))) of
        Inl e \<Rightarrow> None | Inr r \<Rightarrow> number_read r)"

definition fetchMarketResolvedAt :: "rpc \<Rightarrow> string \<Rightarrow> string \<Rightarrow> int option" where
  "fetchMarketResolvedAt rpc vault market =
     (case ethCall (rpc vault (call_with ''0x1acf3695'' market)) of Inl e \<Rightarrow> None | Inr r \<Rightarrow> number_read r)"

definition fetchCurrentMerkleRoot :: "rpc \<Rightarrow> string \<Rightarrow> string option" where
  "fetchCurrentMerkleRoot rpc vault =
     (case rpc vault ''0xfd54b228'' 0 of
        Rpc_result (Some treeRaw) \<Rightarrow>
          (case rpc (''0x'' @ last_chars 40 treeRaw) ''0xfdab463d'' 0 of Rpc_result r \<Rightarrow> r | _ \<Rightarrow> None)
      | _ \<Rightarrow> None)"

subsection \<open>The HTTP clients\<close>

text \<open>The services answer errors as text in \<open>error\<close>; without it the status is shown.\<close>

definition http_result :: "nat \<Rightarrow> jv \<Rightarrow> string + jv" where
  "http_result status data =
     (if 200 \<le> status \<and> status < 300 then Inr data
      else case prop_of ''error'' data of
             None \<Rightarrow> Inl (''HTTP '' @ to_string10 status)
           | Some V_null \<Rightarrow> Inl (''HTTP '' @ to_string10 status)
           | Some v \<Rightarrow> Inl (str_of (Some v)))"

text \<open>Every failure of the report's client is no report.  \<open>None\<close>: the request or its parser failed.\<close>

definition fetchAttestation :: "(nat \<times> jv) option \<Rightarrow> jv option" where
  "fetchAttestation res =
     (case res of
        None \<Rightarrow> None
      | Some (status, data) \<Rightarrow>
          if status = 404 then None else if \<not> (200 \<le> status \<and> status < 300) then None else Some data)"

subsection \<open>Waiting for a transaction\<close>

datatype receipt_answer = Receipt_down string | Receipt_fault string | Receipt_none | Receipt_status string

definition TX_WAIT_MS :: nat where "TX_WAIT_MS = 60000"
definition TX_POLL_MS :: nat where "TX_POLL_MS = 1500"

text \<open>
  \<open>lat k\<close> is the time the request of poll \<open>k\<close> takes.  A failed request is not
  caught; a fault with an empty message is read as no receipt.
\<close>

function wait_from :: "(nat \<Rightarrow> receipt_answer) \<Rightarrow> (nat \<Rightarrow> nat) \<Rightarrow> nat \<Rightarrow> nat \<Rightarrow> string + nat" where
  "wait_from ans lat k elapsed =
     (if elapsed \<ge> TX_WAIT_MS then Inl ''Timed out waiting for on-chain confirmation.''
      else let again = wait_from ans lat (k + 1) (elapsed + lat k + TX_POLL_MS) in
        case ans k of
          Receipt_down e \<Rightarrow> Inl e
        | Receipt_fault m \<Rightarrow> if m \<noteq> '''' then Inl m else again
        | Receipt_none \<Rightarrow> again
        | Receipt_status st \<Rightarrow>
            if st = ''0x1'' then Inr k
            else if st = ''0x0'' then Inl ''Transaction reverted on-chain.'' else again)"
  by pat_completeness auto
termination
  by (relation "measure (\<lambda>(ans, lat, k, elapsed). TX_WAIT_MS - elapsed)") (auto simp: TX_POLL_MS_def)

declare wait_from.simps [simp del]

definition waitForTransactionConfirmation :: "(nat \<Rightarrow> receipt_answer) \<Rightarrow> (nat \<Rightarrow> nat) \<Rightarrow> string + nat" where
  "waitForTransactionConfirmation ans lat = wait_from ans lat 0 0"

subsection \<open>Polling for a path\<close>

definition transient_path_error :: "string \<Rightarrow> bool" where
  "transient_path_error msg \<longleftrightarrow>
     (\<exists>p \<in> set [''not yet indexed'', ''not found'', ''relay is not running'', ''http 503'']. js_includes p (lower msg))"

definition PATH_RETRIES :: nat where "PATH_RETRIES = 12"

fun path_attempts :: "(nat \<Rightarrow> string + 'p) \<Rightarrow> nat \<Rightarrow> nat \<Rightarrow> string + 'p" where
  "path_attempts ans k left =
     (case ans k of
        Inr p \<Rightarrow> Inr p
      | Inl e \<Rightarrow>
          (case left of
             0 \<Rightarrow> Inl e
           | Suc l \<Rightarrow> if transient_path_error e then path_attempts ans (k + 1) l else Inl e))"

definition fetchMerklePath :: "(nat \<Rightarrow> string + 'p) \<Rightarrow> string + 'p" where
  "fetchMerklePath ans = path_attempts ans 0 PATH_RETRIES"

text \<open>What the path route's answer is to the client.\<close>

definition path_answer :: "path_reply \<Rightarrow> string + merkle_proof" where
  "path_answer r = (case r of PathOk p \<Rightarrow> Inr p | PathErr st msg \<Rightarrow> Inl msg)"

subsection \<open>The reads of the flows\<close>

text \<open>The reads that the state and the flows of the frontend use, made of these clients.\<close>

definition node_reads :: "rpc \<Rightarrow> string \<Rightarrow> string \<Rightarrow> (string \<Rightarrow> int option \<Rightarrow> SignedAttestation option) \<Rightarrow> vault_reads" where
  "node_reads rpc vault registry att =
     \<lparr>vr_chain = \<lparr>ch_vault = (vault \<noteq> ''''), ch_isSpent = isSpent_read rpc registry, ch_betStatus = read_status rpc vault\<rparr>,
      vr_record = (\<lambda>nob. map_option (\<lambda>r. BetRecordView.truncate r) (fetchBetRecord rpc vault nob)),
      vr_att = att, vr_fee = fetchBetProtocolFee rpc vault, vr_payout = fetchPendingCredit rpc vault,
      vr_resolvedAt = fetchMarketResolvedAt rpc vault\<rparr>"

end
