(* ===== verification/Vault_Reads_Props.thy ===== *)
theory Vault_Reads_Props
  imports Vault_Reads Relay_Reads_Props
begin

section \<open>What the frontend reads\<close>

text \<open>
  The decoders invert the contract's encoding, a call fails only if all its
  attempts fail, a wait ends in time and confirms exactly what the chain confirmed, and the client
  of the path route gets the path of a leaf the relay is about to index.
\<close>

subsection \<open>Calls\<close>

text \<open>A call answers the first result among its five attempts, whatever the others were.\<close>

fun first_result :: "rpc_answer list \<Rightarrow> string option" where
  "first_result [] = None"
| "first_result (Rpc_result r # as) = Some (case r of None \<Rightarrow> ''0x'' | Some s \<Rightarrow> s)"
| "first_result (_ # as) = first_result as"

lemma eth_attempts_first:
  "eth_attempts ans k left e = Inr s \<longleftrightarrow> first_result (map ans [k..<k + left]) = Some s"
proof (induction left arbitrary: k e)
  case (Suc left)
  have "map ans [k..<k + Suc left] = ans k # map ans [k + 1..<k + 1 + left]" by (simp add: upt_rec)
  then show ?case using Suc.IH [of "k + 1"] by (cases "ans k") auto
qed simp

lemma ethCall_first: "ethCall ans = Inr s \<longleftrightarrow> first_result (map ans [0..<ETH_CALL_ATTEMPTS]) = Some s"
  using eth_attempts_first [of ans 0] by (simp add: ethCall_def)

lemma ethCall_once: "ans 0 = Rpc_result (Some s) \<Longrightarrow> ethCall ans = Inr s"
  by (simp add: ethCall_def ETH_CALL_ATTEMPTS_def numeral_eq_Suc)

text \<open>A fault that no retry can mend costs four further calls before it is thrown.\<close>

lemma fault_is_retried:
  assumes "\<forall>k. ans k = Rpc_fault None ''execution reverted''" "ans' = ans(4 := Rpc_result (Some s))"
  shows "ethCall ans = Inl ''eth_call error: execution reverted'' \<and> ethCall ans' = Inr s"
proof -
  have "\<not> retryable_fault None ''execution reverted''"
    by (simp add: retryable_fault_def lower_def lower_char_def)
  then show ?thesis using assms by (simp add: ethCall_def ETH_CALL_ATTEMPTS_def numeral_eq_Suc)
qed

subsection \<open>Bet records\<close>

definition word64 :: "nat \<Rightarrow> string" where
  "word64 n = pad_start 64 (CHR ''0'') (to_string16 n)"

definition abi_words :: "nat list \<Rightarrow> string" where
  "abi_words ws = ''0x'' @ concat (map word64 ws)"

lemma word64_length: "n < 2 ^ 256 \<Longrightarrow> length (word64 n) = 64"
  using length_toHex [of n] by (simp add: toHex_def word64_def)

lemma word64_value: "parse_digits 16 0 (word64 n) = Some n"
  by (simp add: word64_def pad_start_def parse_leading_zeros parse_to_string16)

lemma drop_words:
  "\<forall>w \<in> set ws. w < 2 ^ 256 \<Longrightarrow> i < length ws \<Longrightarrow> take 64 (drop (64 * i) (concat (map word64 ws))) = word64 (ws ! i)"
proof (induction ws arbitrary: i)
  case (Cons w ws)
  then show ?case by (cases i) (simp_all add: word64_length)
qed simp

lemma word_of_abi:
  assumes "\<forall>w \<in> set ws. w < 2 ^ 256" "i < length ws"
  shows "word_of (abi_words ws) i = Some (ws ! i)"
proof -
  have "word_text (abi_words ws) i = word64 (ws ! i)"
    using drop_words [OF assms] by (simp add: word_text_def abi_words_def)
  then show ?thesis using assms by (simp add: word_of_def word64_value word64_length)
qed

lemma length_abi: "\<forall>w \<in> set ws. w < 2 ^ 256 \<Longrightarrow> length (abi_words ws) = 2 + 64 * length ws"
  by (induction ws) (simp_all add: abi_words_def word64_length)

text \<open>
  C13: the frontend reads the record that the vault holds. Where one of the five attempts
  of the call gets a result and the first one is the contract's encoding of its record of eleven words,
  the decoded record has the status, amounts and shares of that record,
  and the flows and the state of the page get these values.
\<close>

theorem bet_record_decoded:
  assumes "length ws = 11" "\<forall>w \<in> set ws. w < 2 ^ 256"
    and "first_result (map (rpc vault (call_with ''0x3e2ccd6c'' nob)) [0..<ETH_CALL_ATTEMPTS]) = Some (abi_words ws)"
  shows "fetchBetRecord rpc vault nob =
      Some \<lparr>br_status = int (ws ! 6), br_expectedShares = int (ws ! 3), br_betAmount = int (ws ! 4), br_soldShares = int (ws ! 8),
            br_sellProceeds = int (ws ! 7), br_filledShares = int (ws ! 9), br_spentAmount = int (ws ! 10)\<rparr> \<and>
    vr_record (node_reads rpc vault registry att) nob =
      Some \<lparr>br_status = int (ws ! 6), br_expectedShares = int (ws ! 3), br_betAmount = int (ws ! 4), br_soldShares = int (ws ! 8),
            br_sellProceeds = int (ws ! 7)\<rparr>"
proof -
  have "ethCall (rpc vault (call_with ''0x3e2ccd6c'' nob)) = Inr (abi_words ws)" using assms(3) by (simp add: ethCall_first)
  moreover have "decode_record (abi_words ws) =
      Some \<lparr>br_status = int (ws ! 6), br_expectedShares = int (ws ! 3), br_betAmount = int (ws ! 4), br_soldShares = int (ws ! 8),
            br_sellProceeds = int (ws ! 7), br_filledShares = int (ws ! 9), br_spentAmount = int (ws ! 10)\<rparr>"
    using word_of_abi [OF assms(2)] assms(1) length_abi [OF assms(2)] by (simp add: decode_record_def)
  ultimately have f: "fetchBetRecord rpc vault nob =
      Some \<lparr>br_status = int (ws ! 6), br_expectedShares = int (ws ! 3), br_betAmount = int (ws ! 4), br_soldShares = int (ws ! 8),
            br_sellProceeds = int (ws ! 7), br_filledShares = int (ws ! 9), br_spentAmount = int (ws ! 10)\<rparr>"
    by (simp add: fetchBetRecord_def)
  then show ?thesis by (simp add: node_reads_def BetRecordView.truncate_def)
qed

theorem bet_record_decoded_witness:
  "br_status (the (fetchBetRecord (\<lambda>to data k. if k < 2 then Rpc_limited else Rpc_result (Some (abi_words [0..<11]))) ''0x1'' ''0x2'')) = 6"
proof -
  let ?rpc = "\<lambda>to data k. if k < 2 then Rpc_limited else Rpc_result (Some (abi_words [0..<11]))"
  have f: "first_result (map (?rpc ''0x1'' (call_with ''0x3e2ccd6c'' ''0x2'')) [0..<ETH_CALL_ATTEMPTS]) = Some (abi_words [0..<11])"
    by (simp add: ETH_CALL_ATTEMPTS_def upt_rec numeral_eq_Suc)
  show ?thesis
    using bet_record_decoded [of "[0..<11]" ?rpc "''0x1''" "''0x2''", OF _ _ f] by simp
qed

text \<open>Every read is unsigned, whatever the node answers; only the reports come from elsewhere.\<close>

lemma decoded_unsigned:
  "decode_record raw = Some r \<Longrightarrow> 0 \<le> br_betAmount r \<and> 0 \<le> br_expectedShares r"
  by (auto simp: decode_record_def absent_record_def split: if_splits option.splits)

subsection \<open>Spent nullifiers\<close>

text \<open>With the registry known, the reads are the ones the note store is modelled over.\<close>

lemma spent_reads_refine:
  "resolveNullifierRegistry rpc vault c = (Inr registry, c') \<Longrightarrow>
   readSpentNullifiers rpc vault c ns =
     (if ns = [] then ([], c) else (fetchSpentNullifiers (vr_chain (node_reads rpc vault registry att)) ns, c'))"
  by (simp add: readSpentNullifiers_def fetchSpentNullifiers_def node_reads_def)

text \<open>The registry is read once, and a failure of any read hides no note.\<close>

lemma registry_cached:
  assumes "resolveNullifierRegistry rpc vault c = (Inr a, c')"
  shows "c' = Some a \<and> resolveNullifierRegistry rpc' vault c' = (Inr a, c')"
  using assms by (auto simp: resolveNullifierRegistry_def Let_def split: option.splits sum.splits if_splits)

lemma isSpent_reported:
  "isSpent_read rpc registry n = Some True \<Longrightarrow> \<exists>raw. ethCall (rpc registry (call_with ''0xe5285dcc'' n)) = Inr raw \<and> BigInt raw = Some 1"
  by (auto simp: isSpent_read_def split: sum.splits if_splits)

lemma spent_only_if_reported:
  assumes "x \<in> set (fst (readSpentNullifiers rpc vault c ns))"
  shows "\<exists>n \<in> set ns. \<exists>registry raw. x = lower n \<and> ethCall (rpc registry (call_with ''0xe5285dcc'' n)) = Inr raw \<and> BigInt raw = Some 1"
proof -
  obtain registry n where "n \<in> set ns" "x = lower n" "isSpent_read rpc registry n = Some True"
    using assms by (auto simp: readSpentNullifiers_def split: if_splits prod.splits sum.splits)
  then show ?thesis using isSpent_reported by blast
qed

subsection \<open>Waiting for a transaction\<close>

definition undecided :: "receipt_answer \<Rightarrow> bool" where
  "undecided a \<longleftrightarrow>
     (case a of Receipt_down e \<Rightarrow> False | Receipt_fault m \<Rightarrow> m = '''' | Receipt_none \<Rightarrow> True
      | Receipt_status st \<Rightarrow> st \<noteq> ''0x1'' \<and> st \<noteq> ''0x0'')"

text \<open>The time that has passed before poll \<open>k\<close>.\<close>

fun clock :: "(nat \<Rightarrow> nat) \<Rightarrow> nat \<Rightarrow> nat" where
  "clock lat 0 = 0"
| "clock lat (Suc k) = clock lat k + lat k + TX_POLL_MS"

lemma clock_ge: "k * TX_POLL_MS \<le> clock lat k"
  by (induction k) auto

lemma wait_from_confirmed:
  "wait_from ans lat k (clock lat k) = Inr n \<longleftrightarrow>
     k \<le> n \<and> ans n = Receipt_status ''0x1'' \<and> clock lat n < TX_WAIT_MS \<and> (\<forall>j. k \<le> j \<and> j < n \<longrightarrow> undecided (ans j))"
proof (induction "TX_WAIT_MS - clock lat k" arbitrary: k rule: less_induct)
  case less
  have mono: "clock lat k \<le> clock lat n" if "k \<le> n" for n using that by (induction rule: dec_induct) auto
  show ?case
  proof (cases "clock lat k < TX_WAIT_MS")
    case False
    then show ?thesis using mono [of n] by (auto simp: wait_from.simps [of ans lat k])
  next
    case True
    have IH: "wait_from ans lat (k + 1) (clock lat k + lat k + TX_POLL_MS) = Inr n \<longleftrightarrow>
        k + 1 \<le> n \<and> ans n = Receipt_status ''0x1'' \<and> clock lat n < TX_WAIT_MS \<and> (\<forall>j. k + 1 \<le> j \<and> j < n \<longrightarrow> undecided (ans j))"
      using less [of "k + 1"] True by (simp add: TX_POLL_MS_def)
    have from_k: "(\<forall>j. k \<le> j \<and> j < n \<longrightarrow> undecided (ans j)) \<longleftrightarrow> undecided (ans k) \<and> (\<forall>j. k + 1 \<le> j \<and> j < n \<longrightarrow> undecided (ans j))"
      if "k < n"
    proof -
      have "k \<le> j \<longleftrightarrow> j = k \<or> k + 1 \<le> j" for j by auto
      then show ?thesis using that by auto
    qed
    show ?thesis
    proof (cases "undecided (ans k)")
      case True
      then have "ans k \<noteq> Receipt_status ''0x1''" by (auto simp: undecided_def)
      moreover have "wait_from ans lat k (clock lat k) = wait_from ans lat (k + 1) (clock lat k + lat k + TX_POLL_MS)"
        using True \<open>clock lat k < TX_WAIT_MS\<close>
        by (auto simp: wait_from.simps [of ans lat k] undecided_def Let_def split: receipt_answer.splits)
      ultimately show ?thesis
        using IH from_k True by (cases "k < n") (auto simp: not_less le_eq_less_or_eq [of k n])
    next
      case False
      then have "wait_from ans lat k (clock lat k) = Inr n \<longleftrightarrow> ans k = Receipt_status ''0x1'' \<and> n = k"
        using \<open>clock lat k < TX_WAIT_MS\<close>
        by (auto simp: wait_from.simps [of ans lat k] undecided_def Let_def split: receipt_answer.splits)
      then show ?thesis
        using False \<open>clock lat k < TX_WAIT_MS\<close> by (cases "k < n") (auto simp: le_eq_less_or_eq [of k n])
    qed
  qed
qed

text \<open>
  C25: a flow goes on exactly when the chain confirmed its transaction in time. Whatever
  the answers and however long they take, the wait ends; it confirms at a poll if and
  only if that poll, begun before the minute was over, finds a receipt of success and no poll
  before it failed or found a receipt of failure. It sends at most forty polls.
\<close>

theorem transaction_wait_exact:
  "(waitForTransactionConfirmation ans lat = Inr n \<longleftrightarrow>
     ans n = Receipt_status ''0x1'' \<and> clock lat n < TX_WAIT_MS \<and> (\<forall>j<n. undecided (ans j))) \<and>
   (waitForTransactionConfirmation ans lat = Inr n \<longrightarrow> n < 40)"
proof -
  have "waitForTransactionConfirmation ans lat = Inr n \<longleftrightarrow>
     ans n = Receipt_status ''0x1'' \<and> clock lat n < TX_WAIT_MS \<and> (\<forall>j<n. undecided (ans j))"
    using wait_from_confirmed [of ans lat 0 n] by (simp add: waitForTransactionConfirmation_def)
  moreover have "n < 40" if "clock lat n < TX_WAIT_MS"
    using clock_ge [of n lat] that by (simp add: TX_WAIT_MS_def TX_POLL_MS_def)
  ultimately show ?thesis by blast
qed

theorem transaction_wait_exact_witness:
  "waitForTransactionConfirmation (\<lambda>k. if k < 3 then Receipt_none else Receipt_status ''0x1'') (\<lambda>k. 200) = Inr 3"
proof -
  have "clock (\<lambda>k. 200) 3 < TX_WAIT_MS" by (simp add: TX_WAIT_MS_def TX_POLL_MS_def numeral_3_eq_3)
  then show ?thesis
    using transaction_wait_exact [of "\<lambda>k. if k < 3 then Receipt_none else Receipt_status ''0x1''" "\<lambda>k. 200" 3]
    by (simp add: undecided_def)
qed

subsection \<open>Paths\<close>

lemma path_attempts_reach:
  assumes "j \<le> left" "ans (k + j) = Inr p" "\<forall>i<j. (\<exists>p. ans (k + i) = Inr p) \<or> (\<exists>e. ans (k + i) = Inl e \<and> transient_path_error e)"
  shows "\<exists>i\<le>j. \<exists>q. ans (k + i) = Inr q \<and> path_attempts ans k left = Inr q"
  using assms
proof (induction j arbitrary: k left)
  case 0
  then show ?case by simp
next
  case (Suc j)
  obtain l where l: "left = Suc l" "j \<le> l" using Suc.prems(1) by (cases left) auto
  show ?case
  proof (cases "ans k")
    case (Inr q)
    then show ?thesis by (intro exI [of _ 0]) simp
  next
    case (Inl e)
    have "(\<exists>p. ans (k + 0) = Inr p) \<or> (\<exists>e. ans (k + 0) = Inl e \<and> transient_path_error e)" using Suc.prems(3) by blast
    then have "transient_path_error e" using Inl by simp
    then have s: "path_attempts ans k left = path_attempts ans (k + 1) l" using Inl l by simp
    have "\<exists>i\<le>j. \<exists>q. ans (k + 1 + i) = Inr q \<and> path_attempts ans (k + 1) l = Inr q"
    proof (rule Suc.IH [OF l(2)])
      show "ans (k + 1 + j) = Inr p" using Suc.prems(2) by simp
      show "\<forall>i<j. (\<exists>p. ans (k + 1 + i) = Inr p) \<or> (\<exists>e. ans (k + 1 + i) = Inl e \<and> transient_path_error e)"
      proof (intro allI impI)
        fix i assume "i < j"
        then show "(\<exists>p. ans (k + 1 + i) = Inr p) \<or> (\<exists>e. ans (k + 1 + i) = Inl e \<and> transient_path_error e)"
          using Suc.prems(3) [rule_format, of "Suc i"] by simp
      qed
    qed
    then obtain i q where "i \<le> j" "ans (k + Suc i) = Inr q" "path_attempts ans (k + 1) l = Inr q" by auto
    then show ?thesis using s by (intro exI [of _ "Suc i"]) simp
  qed
qed

text \<open>The relay as the client sees it over its attempts: a cache that may grow between them.\<close>

definition relay_answers :: "hash2 \<Rightarrow> (nat \<Rightarrow> path_env) \<Rightarrow> (nat \<Rightarrow> mtree) \<Rightarrow> string \<Rightarrow> nat \<Rightarrow> string + merkle_proof" where
  "relay_answers h env t c k = path_answer (fst (merkle_path h (env k) c (Some (t k))))"

definition serving :: "hash2 \<Rightarrow> nat list \<Rightarrow> path_env \<Rightarrow> mtree \<Rightarrow> bool" where
  "serving h ls env t \<longleftrightarrow> pe_set env \<and> index_bounded (pe_node env) \<and> isReady t \<and> isReady (syncNow h (pe_node env) t) \<and>
     (\<exists>n \<le> length ls. good h t (take n ls))"

lemma serving_answer:
  assumes "serving h ls env t" "hex_bytes 32 c" "BigInt c = Some x"
  shows "(\<exists>p. fst (merkle_path h env c (Some t)) = PathOk p \<and> verify_proof h x p) \<or>
    fst (merkle_path h env c (Some t)) = PathErr 404 ''commitment not yet indexed - retry shortly''"
proof -
  let ?t1 = "syncNow h (pe_node env) t"
  obtain xs where g: "good h t xs" using assms(1) by (auto simp: serving_def)
  have r: "isReady t" "isReady ?t1" "pe_set env" using assms(1) by (auto simp: serving_def)
  then have "consistent ?t1" by (simp add: isReady_def)
  then obtain ys where g1: "good h ?t1 ys" using synced_good [OF g] assms(1) by (auto simp: serving_def)
  have no_throw: "\<exists>q. proofFor h c u = Inr q" if "isReady u" for u using that assms(3) by (simp add: proofFor_def split: option.splits)
  have v: "proofFor h c t = Inr (Some p) \<Longrightarrow> verify_proof h x p" "proofFor h c ?t1 = Inr (Some p) \<Longrightarrow> verify_proof h x p" for p
    using cached_path_verifies [OF g] cached_path_verifies [OF g1] assms(3) by fastforce+
  obtain a b where ab: "proofFor h c t = Inr a" "proofFor h c ?t1 = Inr b" using no_throw r by blast
  show ?thesis
    using r ab assms(2,3) v
    by (cases a; cases b) (auto simp: merkle_path_def Let_def)
qed

lemma not_indexed_transient: "transient_path_error ''commitment not yet indexed - retry shortly''"
  by (simp add: transient_path_error_def lower_def lower_char_def)

text \<open>
  C22: the client waits for a leaf the relay has not indexed yet, and gets its path.
  While the relay serves from a cache that follows the chain, however it grows from one
  request to the next, and holds the leaf at one of the thirteen attempts, the client ends with a path of
  the leaf that verifies against the root it names, and never with an error.
\<close>

theorem client_gets_path:
  assumes "\<forall>k \<le> j. serving h ls (env k) (t k)" "j \<le> PATH_RETRIES"
    and "good h (t j) (take n ls)" "i < n" "n \<le> length ls" "BigInt c = Some (ls ! i)" "hex_bytes 32 c"
  shows "\<exists>p. fetchMerklePath (relay_answers h env t c) = Inr p \<and> verify_proof h (ls ! i) p"
proof -
  let ?ans = "relay_answers h env t c"
  have each: "(\<exists>p. ?ans k = Inr p \<and> verify_proof h (ls ! i) p) \<or> (\<exists>e. ?ans k = Inl e \<and> transient_path_error e)" if "k \<le> j" for k
  proof -
    have "serving h ls (env k) (t k)" using assms(1) that by blast
    from serving_answer [OF this assms(7,6)] show ?thesis
      by (auto simp: relay_answers_def path_answer_def not_indexed_transient)
  qed
  have sj: "serving h ls (env j) (t j)" using assms(1) by blast
  obtain p where "proofFor h c (t j) = Inr (Some p)"
    using holds_leaf [OF assms(3) _ assms(4-6)] sj by (auto simp: serving_def)
  then have at_j: "?ans (0 + j) = Inr p"
    using sj assms(7) by (simp add: relay_answers_def path_answer_def merkle_path_def serving_def Let_def)
  have "\<forall>k<j. (\<exists>p. ?ans (0 + k) = Inr p) \<or> (\<exists>e. ?ans (0 + k) = Inl e \<and> transient_path_error e)"
    using each by (metis add_0 less_imp_le_nat)
  from path_attempts_reach [OF assms(2) at_j this] obtain k q where "k \<le> j" "?ans k = Inr q" "fetchMerklePath ?ans = Inr q"
    by (auto simp: fetchMerklePath_def)
  then show ?thesis using each [of k] by auto
qed

lemma demo_synced_cache: "isReady (syncNow demo_hash demo_env t)" "good demo_hash (syncNow demo_hash demo_env t) [7, 5, 9]"
  if "isReady t" "good demo_hash t [7, 5, 9]" "last_block t = 27"
proof -
  have h: "te_head demo_env = Inr 30" by (simp add: demo_env_def)
  have g: "good demo_hash t (take 3 demo_leaves)" using that(2) by (simp add: demo_leaves_def)
  have "isReady (syncNow demo_hash demo_env t) \<and> good demo_hash (syncNow demo_hash demo_env t) (take (max 3 (demo_cnt (30 - CONFIRMATIONS))) demo_leaves)"
    using nudge_complete [OF g _ _ demo_chain that(1) h] that(3) by (simp add: demo_cnt_def CONFIRMATIONS_def demo_leaves_def)
  then show "isReady (syncNow demo_hash demo_env t)" "good demo_hash (syncNow demo_hash demo_env t) [7, 5, 9]"
    by (simp_all add: demo_cnt_def CONFIRMATIONS_def demo_leaves_def)
qed

theorem client_gets_path_witness:
  "\<exists>t p. fetchMerklePath (relay_answers demo_hash (\<lambda>k. demo_path_env) t demo_leaf7) = Inr p \<and> verify_proof demo_hash 7 p"
proof -
  obtain t where t: "isReady t" "good demo_hash t [7, 5, 9]" "last_block t = 27" using demo_cache by blast
  have sv: "serving demo_hash demo_leaves demo_path_env t"
    using t demo_synced_cache(1) [OF t] unfolding serving_def
    by (auto simp: demo_path_env_def demo_bounded demo_leaves_def intro!: exI [of _ 3])
  have "\<exists>p. fetchMerklePath (relay_answers demo_hash (\<lambda>k. demo_path_env) (\<lambda>k. t) demo_leaf7) = Inr p \<and> verify_proof demo_hash (demo_leaves ! 0) p"
    by (rule client_gets_path [where j = 2 and n = 3]) (use sv t demo_leaf7 in \<open>simp_all add: PATH_RETRIES_def demo_leaves_def\<close>)
  then show ?thesis by (auto simp: demo_leaves_def)
qed

end
