(* ===== verification/Prover.thy ===== *)
theory Prover
  imports Prelude
begin

section \<open>The proof runner\<close>

text \<open>
  \<open>frontend/src/lib/prover.ts\<close> and \<open>workers/prover.worker.ts\<close> around the proving
  library: the cache of circuit files, the gate that runs proofs one at a time,
  the worker with its time limit, and the fall back to the main thread.
\<close>

subsection \<open>Circuit files\<close>

text \<open>
  A file is cached as the promise of its download.  A promise settles once; nothing
  removes one from the cache.  The cache belongs to one script context: the page has
  one, and each worker, which lives for one proof, has its own.
\<close>

datatype asset = A_loading | A_loaded | A_failed string

type_synonym asset_cache = "(string \<times> string) \<Rightarrow> asset option"

definition CIRCUIT_NAMES :: "string list" where
  "CIRCUIT_NAMES = [''bet_auth'', ''withdrawal'', ''settlement_credit'', ''bet_cancel'', ''cancel_credit'', ''deposit'',
     ''position_close'', ''partial_credit'', ''consolidate'']"

definition PRELOAD_CIRCUITS :: "string list" where "PRELOAD_CIRCUITS = [''deposit'', ''bet_auth'']"

definition ensurePreloaded :: "string \<Rightarrow> asset_cache \<Rightarrow> asset_cache" where
  "ensurePreloaded name c =
     (let c1 = (if c (''wasm'', name) = None then c((''wasm'', name) \<mapsto> A_loading) else c)
      in if c1 (''zkey'', name) = None then c1((''zkey'', name) \<mapsto> A_loading) else c1)"

definition preloadConsolidateCircuit :: "asset_cache \<Rightarrow> asset_cache" where
  "preloadConsolidateCircuit = ensurePreloaded ''consolidate''"

text \<open>A download ends, for a promise that is still open; \<open>None\<close>: it loaded.\<close>

definition download_ends :: "string \<times> string \<Rightarrow> string option \<Rightarrow> asset_cache \<Rightarrow> asset_cache" where
  "download_ends k failure c =
     (if c k = Some A_loading then c(k \<mapsto> (case failure of None \<Rightarrow> A_loaded | Some e \<Rightarrow> A_failed e)) else c)"

text \<open>The error of a download: the limit of two minutes, an abort by another cause, a status, or the cause itself.\<close>

datatype fetch_end = F_ok | F_status nat | F_timeout | F_aborted | F_error string

definition fetchAsset :: "string \<Rightarrow> (nat \<Rightarrow> string) \<Rightarrow> fetch_end \<Rightarrow> string option" where
  "fetchAsset url show_nat e =
     (case e of
        F_ok \<Rightarrow> None
      | F_status st \<Rightarrow> Some (''[prover] Failed to fetch '' @ url @ '': HTTP '' @ show_nat st)
      | F_timeout \<Rightarrow> Some (''[prover] Timed out downloading '' @ url @ '' after 120s - check your connection and retry.'')
      | F_aborted \<Rightarrow> Some (''[prover] Download of '' @ url @ '' was interrupted - check your connection and retry.'')
      | F_error m \<Rightarrow> Some m)"

text \<open>What a proof finds once both files have settled; \<open>None\<close>: one is still open and none failed.\<close>

definition assets_for :: "string \<Rightarrow> asset_cache \<Rightarrow> (string + unit) option" where
  "assets_for name c =
     (case (c (''wasm'', name), c (''zkey'', name)) of
        (Some (A_failed e), _) \<Rightarrow> Some (Inl e)
      | (_, Some (A_failed e)) \<Rightarrow> Some (Inl e)
      | (Some A_loaded, Some A_loaded) \<Rightarrow> Some (Inr ())
      | _ \<Rightarrow> None)"

record page_prover =
  pg_cache :: asset_cache
  pg_ready :: bool
  pg_callbacks :: "string list"
  pg_called :: "string list"

definition initProver :: "page_prover \<Rightarrow> page_prover" where
  "initProver p = p\<lparr>pg_cache := fold ensurePreloaded PRELOAD_CIRCUITS (pg_cache p)\<rparr>"

text \<open>The continuation of \<open>initProver\<close>, when all its downloads have settled.\<close>

definition preloaded :: "page_prover \<Rightarrow> page_prover" where
  "preloaded p =
     (if \<forall>n \<in> set PRELOAD_CIRCUITS. assets_for n (pg_cache p) = Some (Inr ())
      then p\<lparr>pg_ready := True, pg_called := pg_called p @ pg_callbacks p, pg_callbacks := []\<rparr> else p)"

definition onProverReady :: "string \<Rightarrow> page_prover \<Rightarrow> page_prover" where
  "onProverReady cb p =
     (if pg_ready p then p\<lparr>pg_called := pg_called p @ [cb]\<rparr> else p\<lparr>pg_callbacks := pg_callbacks p @ [cb]\<rparr>)"

text \<open>What can happen in the page's context.\<close>

inductive page_step :: "page_prover \<Rightarrow> page_prover \<Rightarrow> bool" where
  init: "page_step p (initProver p)"
| preload: "page_step p (preloaded p)"
| wait: "page_step p (onProverReady cb p)"
| need: "page_step p (p\<lparr>pg_cache := ensurePreloaded name (pg_cache p)\<rparr>)"
| ends: "page_step p (p\<lparr>pg_cache := download_ends k f (pg_cache p)\<rparr>)"

text \<open>Once the files are there the library proves, or throws.\<close>

definition main_thread_proof :: "string \<Rightarrow> (string + 'r) \<Rightarrow> asset_cache \<Rightarrow> (string + 'r) option" where
  "main_thread_proof name lib c = map_option (\<lambda>a. case a of Inl e \<Rightarrow> Inl e | Inr u \<Rightarrow> lib) (assets_for name c)"

subsection \<open>The worker\<close>

text \<open>
  What the page sees of a worker, in order: progress, the answer, a crash, or its own
  timer of three minutes.  After the first of these that is no progress the worker is
  terminated.
\<close>

datatype 'r worker_event = W_progress | W_done 'r | W_error string | W_crash | W_timeout

text \<open>\<open>None\<close>: nothing has settled the promise yet.  \<open>main\<close> is the run on the main thread.\<close>

fun worker_outcome :: "(string + 'r) option \<Rightarrow> 'r worker_event list \<Rightarrow> (string + 'r) option" where
  "worker_outcome main [] = None"
| "worker_outcome main (W_progress # es) = worker_outcome main es"
| "worker_outcome main (W_done r # es) = Some (Inr r)"
| "worker_outcome main (W_error m # es) = Some (Inl m)"
| "worker_outcome main (W_crash # es) = main"
| "worker_outcome main (W_timeout # es) = Some (Inl ''Proof generation timed out after 3 minutes'')"

definition runProofInWorker :: "bool \<Rightarrow> (string + 'r) option \<Rightarrow> 'r worker_event list \<Rightarrow> (string + 'r) option" where
  "runProofInWorker constructed main es = (if \<not> constructed then main else worker_outcome main es)"

text \<open>In the worker: the proof of the circuit, or the message of what it threw.\<close>

definition worker_reply :: "(string + 'r) \<Rightarrow> 'r worker_event" where
  "worker_reply r = (case r of Inr x \<Rightarrow> W_done x | Inl m \<Rightarrow> W_error m)"

subsection \<open>One proof at a time\<close>

text \<open>
  Each call of \<open>generateProofInWorker\<close> chains its run to the end of the run
  before it, whichever way that ended.  The chain is the list of runs since the page was
  loaded.
\<close>

datatype 'r run_state = Waiting | Running | Settled "string + 'r"

inductive gate_step :: "'r run_state list \<Rightarrow> 'r run_state list \<Rightarrow> bool" where
  calls: "gate_step rs (rs @ [Waiting])"
| starts: "i < length rs \<Longrightarrow> rs ! i = Waiting \<Longrightarrow> i = 0 \<or> (\<exists>r. rs ! (i - 1) = Settled r) \<Longrightarrow> gate_step rs (rs[i := Running])"
| settles: "i < length rs \<Longrightarrow> rs ! i = Running \<Longrightarrow> gate_step rs (rs[i := Settled r])"

inductive_cases gate_stepE: "gate_step rs rs'"

definition is_settled :: "'r run_state \<Rightarrow> bool" where
  "is_settled s \<longleftrightarrow> (\<exists>r. s = Settled r)"

text \<open>Ended runs, then at most one that is running, then the waiting ones.\<close>

definition in_order :: "'r run_state list \<Rightarrow> bool" where
  "in_order rs \<longleftrightarrow> (\<exists>k \<le> length rs. (\<forall>i<k. is_settled (rs ! i)) \<and> (\<forall>i. k < i \<and> i < length rs \<longrightarrow> rs ! i = Waiting) \<and>
     (k < length rs \<longrightarrow> rs ! k = Waiting \<or> rs ! k = Running))"

lemma in_order_call: "in_order rs \<Longrightarrow> in_order (rs @ [Waiting])"
proof -
  assume "in_order rs"
  then obtain k where k: "k \<le> length rs" "\<forall>i<k. is_settled (rs ! i)" "\<forall>i. k < i \<and> i < length rs \<longrightarrow> rs ! i = Waiting"
    "k < length rs \<longrightarrow> rs ! k = Waiting \<or> rs ! k = Running" unfolding in_order_def by blast
  then have "\<forall>i<k. is_settled ((rs @ [Waiting]) ! i)" by (auto simp: nth_append)
  moreover have "\<forall>i. k < i \<and> i < length (rs @ [Waiting]) \<longrightarrow> (rs @ [Waiting]) ! i = Waiting"
    using k(3) by (auto simp: nth_append less_Suc_eq)
  moreover have "k < length (rs @ [Waiting]) \<longrightarrow> (rs @ [Waiting]) ! k = Waiting \<or> (rs @ [Waiting]) ! k = Running"
    using k(4) by (auto simp: nth_append less_Suc_eq)
  ultimately show ?thesis using k(1) unfolding in_order_def by (metis le_SucI length_append_singleton)
qed

lemma in_order_step:
  assumes "gate_step rs rs'" "in_order rs"
  shows "in_order rs'"
  using assms
proof (induction rule: gate_step.induct)
  case (calls rs)
  then show ?case by (rule in_order_call)
next
  case (starts i rs)
  obtain k where k: "k \<le> length rs" "\<forall>i<k. is_settled (rs ! i)" "\<forall>i. k < i \<and> i < length rs \<longrightarrow> rs ! i = Waiting"
    "k < length rs \<longrightarrow> rs ! k = Waiting \<or> rs ! k = Running" using starts(4) unfolding in_order_def by blast
  have "\<not> i < k" using k(2) starts(2) by (auto simp: is_settled_def)
  moreover have "\<not> k < i"
  proof
    assume "k < i"
    then obtain r where r: "rs ! (i - 1) = Settled r" using starts(3) by auto
    have "i - 1 = k \<or> k < i - 1" "i - 1 < length rs" using \<open>k < i\<close> starts(1) by auto
    then have "rs ! (i - 1) = Waiting \<or> rs ! (i - 1) = Running" using k(3,4) by blast
    then show False using r by simp
  qed
  ultimately have i: "i = k" by simp
  show ?case unfolding in_order_def
    by (intro exI [of _ k]) (use k starts(1) i in auto)
next
  case (settles i rs r)
  obtain k where k: "k \<le> length rs" "\<forall>i<k. is_settled (rs ! i)" "\<forall>i. k < i \<and> i < length rs \<longrightarrow> rs ! i = Waiting"
    "k < length rs \<longrightarrow> rs ! k = Waiting \<or> rs ! k = Running" using settles(3) unfolding in_order_def by blast
  have "\<not> i < k" using k(2) settles(2) by (auto simp: is_settled_def)
  moreover have "\<not> k < i" using k(3) settles(1,2) by auto
  ultimately have i: "i = k" by simp
  have "\<forall>j<Suc k. is_settled (rs[i := Settled r] ! j)" using k(2) i settles(1) by (auto simp: is_settled_def less_Suc_eq)
  moreover have "\<forall>j. Suc k < j \<and> j < length (rs[i := Settled r]) \<longrightarrow> rs[i := Settled r] ! j = Waiting" using k(3) i by auto
  moreover have "Suc k < length (rs[i := Settled r]) \<longrightarrow> rs[i := Settled r] ! Suc k = Waiting \<or> rs[i := Settled r] ! Suc k = Running"
    using k(3) i by auto
  ultimately show ?case using settles(1) i unfolding in_order_def by (metis Suc_leI length_list_update)
qed

text \<open>
  C26: proofs run one at a time, in the order they were asked for, and a failure holds up
  none. In every state the page can reach, at most one run is under way, all before
  it have ended and all after it wait; and where a run has not ended, the first such one runs or
  may start now, however the runs before it ended.
\<close>

theorem proofs_one_at_a_time:
  assumes "gate_step\<^sup>*\<^sup>* [] rs" "i < length rs" "\<not> is_settled (rs ! i)"
  shows "\<exists>k \<le> i. (\<forall>j<k. is_settled (rs ! j)) \<and> (\<forall>j. k < j \<and> j < length rs \<longrightarrow> rs ! j = Waiting) \<and>
    (rs ! k = Running \<or> rs ! k = Waiting \<and> gate_step rs (rs[k := Running]))"
proof -
  have "in_order rs" using assms(1)
    by (induction rule: rtranclp_induct) (auto simp: in_order_def [of "[]"] intro: in_order_step)
  then obtain k where k: "k \<le> length rs" "\<forall>i<k. is_settled (rs ! i)" "\<forall>i. k < i \<and> i < length rs \<longrightarrow> rs ! i = Waiting"
    "k < length rs \<longrightarrow> rs ! k = Waiting \<or> rs ! k = Running" unfolding in_order_def by blast
  have ki: "k \<le> i" using k(2) assms(3) by (meson not_less)
  have "gate_step rs (rs[k := Running])" if "rs ! k = Waiting"
  proof (rule starts)
    show "k < length rs" using ki assms(2) by simp
    show "k = 0 \<or> (\<exists>r. rs ! (k - 1) = Settled r)" using k(2) by (cases k) (auto simp: is_settled_def)
  qed (rule that)
  then show ?thesis using k ki assms(2) by (intro exI [of _ k]) auto
qed

theorem proofs_one_at_a_time_witness:
  "gate_step [Settled (Inl ''out of memory''), Waiting] [Settled (Inl ''out of memory''), Running :: nat run_state]"
proof -
  let ?f = "Settled (Inl ''out of memory'') :: nat run_state"
  have "gate_step [] [Waiting :: nat run_state]" using calls [of "[]"] by simp
  moreover have "gate_step [Waiting] [Running :: nat run_state]" using starts [of 0 "[Waiting :: nat run_state]"] by simp
  moreover have "gate_step [Running] [Running, Waiting :: nat run_state]" using calls [of "[Running :: nat run_state]"] by simp
  moreover have "gate_step [Running, Waiting] [?f, Waiting]" using settles [of 0 "[Running, Waiting :: nat run_state]" "Inl ''out of memory''"] by simp
  ultimately have "gate_step\<^sup>*\<^sup>* [] [?f, Waiting]" by (meson r_into_rtranclp rtranclp_trans)
  from proofs_one_at_a_time [OF this, of 1] obtain k where k: "k \<le> 1" "\<forall>j<k. is_settled ([?f, Waiting] ! j)"
    "\<forall>j. k < j \<and> j < 2 \<longrightarrow> [?f, Waiting] ! j = Waiting"
    "[?f, Waiting] ! k = Running \<or> [?f, Waiting] ! k = Waiting \<and> gate_step [?f, Waiting] ([?f, Waiting][k := Running])"
    by (auto simp: is_settled_def)
  have "k = 1" using k(1,4) by (cases k) auto
  then show ?thesis using k(4) by simp
qed

subsection \<open>A file that failed\<close>

lemma preloaded_keeps: "pg_cache (preloaded p) = pg_cache p" "pg_cache (onProverReady cb p) = pg_cache p"
  by (simp_all add: preloaded_def onProverReady_def)

lemma ensure_keeps: "c k = Some a \<Longrightarrow> ensurePreloaded name c k = Some a"
  by (auto simp: ensurePreloaded_def Let_def)

lemma page_step_keeps:
  assumes "page_step p p'" "pg_cache p k = Some (A_failed e)"
  shows "pg_cache p' k = Some (A_failed e)"
  using assms
  by (induction rule: page_step.induct)
    (auto simp: initProver_def PRELOAD_CIRCUITS_def ensure_keeps preloaded_keeps download_ends_def split: option.splits)

text \<open>
  A circuit file that failed to load is never fetched again by the page. Once a
  download of one of its files failed, at the preload or later, then whatever the page
  does every proof of that circuit on the main thread fails; the
  comment at the preload says that files will be fetched when a proof needs them.
\<close>

lemma failed_file_stays_failed:
  assumes "page_step\<^sup>*\<^sup>* p p'" "pg_cache p (kind, name) = Some (A_failed e)" "kind = ''wasm'' \<or> kind = ''zkey''"
    "main_thread_proof name lib (ensurePreloaded name (pg_cache p')) = Some out"
  shows "\<exists>m. out = Inl m"
proof -
  have "pg_cache p' (kind, name) = Some (A_failed e)"
    using assms(1,2) by (induction rule: rtranclp_induct) (auto intro: page_step_keeps)
  then have "ensurePreloaded name (pg_cache p') (kind, name) = Some (A_failed e)" by (rule ensure_keeps)
  then show ?thesis using assms(3,4)
    by (auto simp: main_thread_proof_def assets_for_def split: option.splits asset.splits)
qed

lemma failed_file_stays_failed_witness:
  "\<exists>m. main_thread_proof ''deposit'' (Inr (5 :: nat)) (ensurePreloaded ''deposit''
     (ensurePreloaded ''deposit'' (Map.empty((''wasm'', ''deposit'') \<mapsto> A_failed ''offline'')))) = Some (Inl m)"
proof -
  let ?c = "Map.empty((''wasm'', ''deposit'') \<mapsto> A_failed ''offline'') :: asset_cache"
  let ?p = "\<lambda>c. \<lparr>pg_cache = c, pg_ready = False, pg_callbacks = [], pg_called = []\<rparr>"
  have step: "page_step\<^sup>*\<^sup>* (?p ?c) (?p (ensurePreloaded ''deposit'' ?c))"
    using need [of "?p ?c" "''deposit''"] by (intro r_into_rtranclp) simp
  have out: "main_thread_proof ''deposit'' (Inr (5 :: nat)) (ensurePreloaded ''deposit'' (ensurePreloaded ''deposit'' ?c)) = Some (Inl ''offline'')"
    by (simp add: main_thread_proof_def assets_for_def ensurePreloaded_def Let_def)
  from failed_file_stays_failed [OF step, of "''wasm''" "''deposit''" "''offline''" "Inr (5 :: nat)" "Inl ''offline''"] out
  show ?thesis by auto
qed

end
