(* ===== verification/End_To_End.thy ===== *)
theory End_To_End
  imports Relay_Bodies_Props Vault_Reads_Props Prover Flow_Types
begin

section \<open>From the page to the vault\<close>

text \<open>
  The parameters of the frontend's flows, filled in with the other parts: the reads
  are the decoded calls of the node, the path comes from the relay's route through the
  polling client, the request goes as a body to the relay's route, and the wait polls
  the receipt.  The prover, the node and the contract stay parameters.
\<close>

subsection \<open>Reads\<close>

text \<open>What the decoders produce is unsigned, which is what the flows' types rest on.\<close>

lemma node_reads_typed:
  assumes "\<And>n t a. att n t = Some a \<Longrightarrow> 0 \<le> sa_amountA a \<and> 0 \<le> sa_amountB a"
  shows "typed_reads (node_reads rpc vault registry att)"
  using assms decoded_unsigned
  by (auto simp: typed_reads_def node_reads_def fetchBetRecord_def fetchBetProtocolFee_def BetRecordView.truncate_def
      split: sum.splits)

subsection \<open>The composed flow\<close>

record 'w world =
  wd_hash :: hash2
  wd_crypto :: crypto
  wd_secret :: "nat \<Rightarrow> nat \<Rightarrow> string option"
  wd_prover :: "request \<Rightarrow> groth_proof option"
  wd_paths :: "nat \<Rightarrow> path_env"
  wd_trees :: "nat \<Rightarrow> mtree"
  wd_relay :: "'w relay_env"
  wd_state :: "'w relay_state"
  wd_receipts :: "string \<Rightarrow> nat \<Rightarrow> receipt_answer"
  wd_latency :: "nat \<Rightarrow> nat"
  wd_rpc :: rpc
  wd_vault :: string
  wd_registry :: string
  wd_att :: "string \<Rightarrow> int option \<Rightarrow> SignedAttestation option"

definition proof_text :: "'w world \<Rightarrow> request \<Rightarrow> string option" where
  "proof_text wd q = Option.bind (wd_prover wd q) encodeProof"

text \<open>The transaction hash of the relay's answer; any other answer throws in the client.\<close>

definition posted_hash :: "reply \<Rightarrow> string option" where
  "posted_hash r = (case r of Reply st data \<Rightarrow>
     (case http_result st data of
        Inl e \<Rightarrow> None
      | Inr d \<Rightarrow> (case prop_of ''txHash'' d of Some (V_str h) \<Rightarrow> Some h | _ \<Rightarrow> None)))"

definition post_request :: "'w world \<Rightarrow> string \<Rightarrow> request \<Rightarrow> string option" where
  "post_request wd market q =
     (case proof_text wd q of
        None \<Rightarrow> None
      | Some pf \<Rightarrow>
          (case client_call pf market None q of
             None \<Rightarrow> None
           | Some (r, body) \<Rightarrow> posted_hash (fst (relay_request (wd_relay wd) r (Some body) (wd_state wd)))))"

definition composed :: "'w world \<Rightarrow> string \<Rightarrow> flow_env" where
  "composed wd market =
     \<lparr>fl_crypto = wd_crypto wd, fl_secret = wd_secret wd,
      fl_root = (\<lambda>c. case fetchMerklePath (relay_answers (wd_hash wd) (wd_paths wd) (wd_trees wd) c) of
                  Inl e \<Rightarrow> None | Inr p \<Rightarrow> Some (proof_root p)),
      fl_proves = (\<lambda>q. proof_text wd q \<noteq> None), fl_relay = post_request wd market,
      fl_confirms = (\<lambda>tx. case waitForTransactionConfirmation (wd_receipts wd tx) (wd_latency wd) of Inl e \<Rightarrow> False | Inr k \<Rightarrow> True),
      fl_close = (\<lambda>k. True), fl_intent = (\<lambda>i. True),
      fl_reads = node_reads (wd_rpc wd) (wd_vault wd) (wd_registry wd) (wd_att wd), fl_now = 0\<rparr>"

lemma failure_not_posted: "posted_hash (safeError env e) = None"
proof -
  have "\<exists>d. safeError env e = Reply 500 d"
    unfolding safeError_def error_reply_def by (simp split: option.split prod.split)
  then obtain d where "safeError env e = Reply 500 d" ..
  then show ?thesis by (simp add: posted_hash_def http_result_def split: option.splits jv.splits)
qed

lemma answered_hash:
  assumes "posted_hash (fst (answer env (out, st))) = Some tx"
  shows "out = Inr tx"
proof (cases out)
  case (Inl e)
  then show ?thesis using assms failure_not_posted [of env e] by (simp add: answer_def)
next
  case (Inr h)
  then show ?thesis using assms by (simp add: answer_def posted_hash_def http_result_def)
qed

lemma answer_posted: "posted_hash (fst (answer env (Inr h, st))) = Some h"
  by (simp add: answer_def posted_hash_def http_result_def)

lemma relayed_through:
  assumes "prove_and_relay env q s = (Inr tx, s1)"
  shows "fl_relay env q = Some tx \<and> fl_confirms env tx"
proof (cases "fl_proves env q")
  case True
  then show ?thesis using assms
    by (cases "fl_relay env q"; cases "fl_confirms env (the (fl_relay env q))")
      (simp_all add: prove_and_relay_def relay_and_wait_def Let_def del: sent_browser)
qed (use assms in \<open>simp add: prove_and_relay_def del: sent_browser\<close>)

lemma composed_relayed:
  assumes "post_request wd market q = Some tx" "relayable market q"
    "\<And>c. q \<noteq> R_credit c"
  shows "\<exists>pf st'. proof_text wd q = Some pf \<and>
    relay_send (wd_relay wd) (vault_call_of pf market None None q) (wd_state wd) = (Inr tx, st')"
proof -
  obtain pf where pf: "proof_text wd q = Some pf"
    using assms(1) by (cases "proof_text wd q") (simp_all add: post_request_def)
  obtain r body where call: "client_call pf market None q = Some (r, body)"
    using assms(1) pf by (cases "client_call pf market None q") (auto simp: post_request_def)
  have hex: "hex_text pf" using pf encoded_proof_accepted by (auto simp: proof_text_def split: Option.bind_splits)
  have "relay_request (wd_relay wd) r (Some body) (wd_state wd) =
      answer (wd_relay wd) (relay_send (wd_relay wd) (vault_call_of pf market None None q) (wd_state wd))"
    by (rule relayed_body [OF call assms(2) hex]) (use assms(3) in \<open>simp_all add: report_ok_def\<close>)
  then have "posted_hash (fst (answer (wd_relay wd) (relay_send (wd_relay wd) (vault_call_of pf market None None q) (wd_state wd)))) = Some tx"
    using assms(1) pf call by (simp add: post_request_def)
  then show ?thesis using pf answered_hash by (metis prod.collapse)
qed

text \<open>
  C7: a withdrawal that the page reports as done has moved the money. With the
  relay, the path client, the proof encoder and the wait composed as the code composes
  them, when a withdrawal goes through then the note's path was served, the
  relay's only call was \<open>withdraw\<close> with the proof of this request, its inputs and the wallet
  as the recipient, the contract took it, and the transaction was confirmed.
\<close>

theorem withdrawal_end_to_end:
  assumes "word_hashes (wd_crypto wd)"
    and "\<And>p. fetchMerklePath (relay_answers (wd_hash wd) (wd_paths wd) (wd_trees wd) (nt_commitment n)) = Inr p \<Longrightarrow> h32 (proof_root p)"
    and "h32 (nt_nullifier n)" "hex_bytes 20 w"
    and "withdrawOneNote (composed wd market) w n amt s = (True, s')"
  shows "\<exists>sec p wi pf tx st' k.
    fetchMerklePath (relay_answers (wd_hash wd) (wd_paths wd) (wd_trees wd) (nt_commitment n)) = Inr p \<and>
    wi = withdrawal_request (composed wd market) w n sec (proof_root p) amt \<and> proof_text wd (R_withdrawal wi) = Some pf \<and>
    relay_send (wd_relay wd) \<lparr>vc_fn = ''withdraw'', vc_args = [V_str pf, V_obj (withdrawal_body_inputs wi), V_str w]\<rparr> (wd_state wd) = (Inr tx, st') \<and>
    waitForTransactionConfirmation (wd_receipts wd tx) (wd_latency wd) = Inr k"
proof -
  let ?env = "composed wd market"
  have pos: "0 \<le> amt" using assms(5) by (auto simp: withdrawOneNote_def split: if_splits)
  obtain sec rt where o: "open_note ?env n = Inr (sec, rt)"
    using assms(5) by (auto simp: withdrawOneNote_def split: if_splits sum.splits)
  then obtain p where p: "fetchMerklePath (relay_answers (wd_hash wd) (wd_paths wd) (wd_trees wd) (nt_commitment n)) = Inr p" "rt = proof_root p"
    by (auto simp: open_note_def composed_def split: option.splits sum.splits)
  let ?wi = "withdrawal_request ?env w n sec (proof_root p) amt"
  obtain out s1 where run: "prove_and_relay ?env (R_withdrawal ?wi) s = (out, s1)" by fastforce
  have "\<exists>tx. out = Inr tx"
    using assms(5) o run p(2) pos
    by (auto simp: withdrawOneNote_def withdrawal_request_def Let_def split: sum.splits if_splits)
  then obtain tx where tx: "fl_relay ?env (R_withdrawal ?wi) = Some tx" "fl_confirms ?env tx"
    using relayed_through [of ?env "R_withdrawal ?wi" s _ s1] run by auto
  have ok: "relayable market (R_withdrawal ?wi)"
    using withdrawal_relayable [OF _ assms(2) [OF p(1)] assms(3) pos assms(4)] assms(1) by (simp add: composed_def)
  have "post_request wd market (R_withdrawal ?wi) = Some tx" using tx(1) by (simp add: composed_def)
  from composed_relayed [OF this ok] obtain pf st' where c: "proof_text wd (R_withdrawal ?wi) = Some pf"
    "relay_send (wd_relay wd) (vault_call_of pf market None None (R_withdrawal ?wi)) (wd_state wd) = (Inr tx, st')" by auto
  obtain k where k: "waitForTransactionConfirmation (wd_receipts wd tx) (wd_latency wd) = Inr k"
    using tx(2) by (auto simp: composed_def split: sum.splits)
  have "wi_owner ?wi = w" by (simp add: withdrawal_request_def Let_def)
  then have "relay_send (wd_relay wd) \<lparr>vc_fn = ''withdraw'', vc_args = [V_str pf, V_obj (withdrawal_body_inputs ?wi), V_str w]\<rparr> (wd_state wd) = (Inr tx, st')"
    using c(2) by simp
  then show ?thesis using p(1) c(1) k
    by (intro exI [of _ sec] exI [of _ p] exI [of _ ?wi] exI [of _ pf] exI [of _ tx] exI [of _ st'] exI [of _ k]) simp
qed

subsection \<open>A run\<close>

definition demo_groth :: groth_proof where
  "demo_groth = \<lparr>gp_a = [''1'', ''2''], gp_b = [[''3'', ''4''], [''5'', ''6'']], gp_c = [''7'', ''8'']\<rparr>"

definition demo_vault :: "nat relay_env" where
  "demo_vault = \<lparr>rv_seed = (\<lambda>w. Inr (int w)), rv_vault = (\<lambda>c n w. (Inr ''0xh'', w + 1)),
     rv_configured = False, rv_status = (\<lambda>nf w. Inl ''''), rv_parse_error = (\<lambda>d. None)\<rparr>"

definition demo_world :: "mtree \<Rightarrow> nat world" where
  "demo_world t = \<lparr>wd_hash = demo_hash, wd_crypto = fl_crypto word_demo, wd_secret = (\<lambda>i v. Some ''0x7''), wd_prover = (\<lambda>q. Some demo_groth),
     wd_paths = (\<lambda>k. demo_path_env), wd_trees = (\<lambda>k. t), wd_relay = demo_vault, wd_state = (\<lparr>nm_nonce = None, nm_last_seen = 0\<rparr>, 7),
     wd_receipts = (\<lambda>tx k. Receipt_status ''0x1''), wd_latency = (\<lambda>k. 100), wd_rpc = (\<lambda>to d k. Rpc_limited), wd_vault = ''0x1'',
     wd_registry = ''0x2'', wd_att = (\<lambda>n t. None)\<rparr>"

lemma demo_proof: "encodeProof demo_groth = Some (''0x'' @ concat (map word_hex [1, 2, 4, 3, 6, 5, 7, 8]))"
  by (simp add: encodeProof_def demo_groth_def hex_val_def) (simp add: numeral_2_eq_2)

lemma demo_node_bound: "\<forall>x \<in> set xs. x \<le> 9 \<Longrightarrow> spec_node demo_hash xs l i + 1 \<le> 10 * 6 ^ l"
proof (induction l arbitrary: i)
  case 0
  then show ?case by (auto simp: nth_mem le_SucI)
next
  case (Suc l)
  have a: "spec_node demo_hash xs l j + 1 \<le> 10 * 6 ^ l" for j using Suc by blast
  have "spec_node demo_hash xs (Suc l) i = 2 * spec_node demo_hash xs l (2 * i) + 3 * spec_node demo_hash xs l (2 * i + 1) + 1"
    unfolding spec_node.simps by (subst demo_hash_def) (rule refl)
  then show ?case using a [of "2 * i"] a [of "2 * i + 1"] by simp
qed

lemma demo_root_word: "h32 (toHex (spec_root demo_hash [7, 5, 9]))"
proof (rule toHex_word)
  have "spec_root demo_hash [7, 5, 9] + 1 \<le> 10 * 6 ^ 32"
    using demo_node_bound [of "[7, 5, 9]" TREE_DEPTH 0] by (simp add: spec_root_def TREE_DEPTH_def)
  then show "spec_root demo_hash [7, 5, 9] < 2 ^ 256" by simp
qed

theorem withdrawal_end_to_end_witness:
  "\<exists>t pf wi st'. relay_send (wd_relay (demo_world t)) \<lparr>vc_fn = ''withdraw'', vc_args = [V_str pf, V_obj (withdrawal_body_inputs wi), V_str demo_address]\<rparr>
     (wd_state (demo_world t)) = (Inr ''0xh'', st') \<and> wi_amount wi = 50"
proof -
  obtain t where t: "isReady t" "good demo_hash t [7, 5, 9]" "last_block t = 27" using demo_cache by blast
  obtain pth where pth: "proofFor demo_hash demo_leaf7 t = Inr (Some pth)" "proof_root pth = toHex (spec_root demo_hash [7, 5, 9])"
    using holds_leaf [of demo_hash t 3 "[7, 5, 9]" 0 demo_leaf7] t demo_leaf7 by auto
  let ?n = "demo_cash\<lparr>nt_commitment := demo_leaf7\<rparr>" and ?wd = "demo_world t"
  let ?env = "composed ?wd demo_h32"
  have path: "fetchMerklePath (relay_answers (wd_hash ?wd) (wd_paths ?wd) (wd_trees ?wd) (nt_commitment ?n)) = Inr pth"
    using pth(1) demo_leaf7(1)
    by (simp add: demo_world_def fetchMerklePath_def relay_answers_def path_answer_def merkle_path_def demo_path_env_def Let_def)
  then have o: "open_note ?env ?n = Inr (''0x7'', proof_root pth)"
    by (simp add: open_note_def composed_def) (simp add: demo_world_def)
  let ?q = "R_withdrawal (withdrawal_request ?env demo_address ?n ''0x7'' (proof_root pth) 50)"
  have ws: "word_hashes (wd_crypto ?wd)" using word_demo_env by (simp add: word_env_def demo_world_def)
  have pt: "proof_text ?wd q = Some (''0x'' @ concat (map word_hex [1, 2, 4, 3, 6, 5, 7, 8]))" for q
    by (simp add: proof_text_def demo_world_def demo_proof del: append.simps concat.simps list.map)
  have h: "hex_text (''0x'' @ concat (map word_hex [1, 2, 4, 3, 6, 5, 7, 8]))" using encoded_proof_accepted [OF demo_proof] .
  have ok: "relayable demo_h32 ?q"
    using withdrawal_relayable [of ?env "proof_root pth" ?n 50 demo_address demo_h32 "''0x7''"] ws pth(2) demo_root_word
    by (simp add: composed_def demo_address_bytes demo_cash_def plain_note_def demo_word)
  have sent: "relay_send demo_vault c (\<lparr>nm_nonce = None, nm_last_seen = 0\<rparr>, 7) = (Inr ''0xh'', snd (relay_send demo_vault c (\<lparr>nm_nonce = None, nm_last_seen = 0\<rparr>, 7)))" for c
    by (simp add: relay_send_def sendWithNonce_def demo_vault_def acquire_nonce_def)
  have posted: "post_request ?wd demo_h32 ?q = Some ''0xh''"
  proof -
    let ?pf = "''0x'' @ concat (map word_hex [1, 2, 4, 3, 6, 5, 7, 8])"
    obtain body where call: "client_call ?pf demo_h32 None ?q = Some (P_withdrawal, body)" by simp
    have "relay_request demo_vault P_withdrawal (Some body) (\<lparr>nm_nonce = None, nm_last_seen = 0\<rparr>, 7) =
        answer demo_vault (relay_send demo_vault (vault_call_of ?pf demo_h32 None None ?q) (\<lparr>nm_nonce = None, nm_last_seen = 0\<rparr>, 7))"
      by (rule relayed_body [OF call ok h]) (simp_all add: report_ok_def)
    moreover have "posted_hash (fst (answer demo_vault (relay_send demo_vault c (\<lparr>nm_nonce = None, nm_last_seen = 0\<rparr>, 7)))) = Some ''0xh''" for c
      using sent [of c] by (metis (no_types, lifting) answer_posted)
    ultimately show ?thesis
      using pt [of ?q] call by (simp add: post_request_def demo_world_def del: client_call.simps append.simps concat.simps list.map)
  qed
  have through: "fst (withdrawOneNote ?env demo_address ?n 50 demo_session)"
  proof -
    have "prove_and_relay ?env ?q demo_session = (Inr ''0xh'', demo_session\<lparr>sn_sent := sn_sent demo_session @ [?q]\<rparr>)"
      using posted pt [of ?q]
      by (simp add: prove_and_relay_def relay_and_wait_def composed_def waitForTransactionConfirmation_def wait_from.simps [of _ _ 0 0]
          TX_WAIT_MS_def demo_world_def Let_def del: append.simps concat.simps list.map)
    then show ?thesis using o by (simp add: withdrawOneNote_def withdrawal_request_def Let_def)
  qed
  obtain s' where run: "withdrawOneNote ?env demo_address ?n 50 demo_session = (True, s')" using through by (metis prod.collapse)
  have nw: "h32 (nt_nullifier ?n)" by (simp add: demo_cash_def plain_note_def demo_word)
  have root: "h32 (proof_root p)"
    if "fetchMerklePath (relay_answers (wd_hash ?wd) (wd_paths ?wd) (wd_trees ?wd) (nt_commitment ?n)) = Inr p" for p
    using that path pth(2) demo_root_word by simp
  have "\<exists>sec p wi pf tx st' k.
    fetchMerklePath (relay_answers (wd_hash ?wd) (wd_paths ?wd) (wd_trees ?wd) (nt_commitment ?n)) = Inr p \<and>
    wi = withdrawal_request ?env demo_address ?n sec (proof_root p) 50 \<and> proof_text ?wd (R_withdrawal wi) = Some pf \<and>
    relay_send (wd_relay ?wd) \<lparr>vc_fn = ''withdraw'', vc_args = [V_str pf, V_obj (withdrawal_body_inputs wi), V_str demo_address]\<rparr> (wd_state ?wd) = (Inr tx, st') \<and>
    waitForTransactionConfirmation (wd_receipts ?wd tx) (wd_latency ?wd) = Inr k"
    by (rule withdrawal_end_to_end [OF ws root nw demo_address_bytes run])
  then show ?thesis
  proof (elim exE conjE)
    fix sec p wi pf tx st'
    assume e: "wi = withdrawal_request ?env demo_address ?n sec (proof_root p) 50"
      "relay_send (wd_relay ?wd) \<lparr>vc_fn = ''withdraw'', vc_args = [V_str pf, V_obj (withdrawal_body_inputs wi), V_str demo_address]\<rparr> (wd_state ?wd) = (Inr tx, st')"
    have "fst (relay_send demo_vault \<lparr>vc_fn = ''withdraw'', vc_args = [V_str pf, V_obj (withdrawal_body_inputs wi), V_str demo_address]\<rparr>
        (\<lparr>nm_nonce = None, nm_last_seen = 0\<rparr>, 7)) = Inr tx" using e(2) by (simp add: demo_world_def)
    then have "tx = ''0xh''" using arg_cong [OF sent, of fst] by simp
    moreover have "wi_amount wi = 50" by (simp add: e(1) withdrawal_request_def Let_def)
    ultimately show ?thesis using e(2) by blast
  qed
qed

end
