(* ===== verification/Spec2Isabelle.thy ===== *)
theory Spec2Isabelle
  imports Merkle_Props Log_Scan Fill_Tracker_Props Funding Event_Index_Props Order_Api Pricing Liquidation_Props Account_State_Props Withdraw_Props Deposit_Props Flow_Types Relay_Props Relay_Reads_Props Relay_Services Market_Catalog_Props End_To_End
begin

section \<open>Polyshield: the verified parts and how they fit\<close>

text \<open>
  Polyshield lets a depositor bet on Polymarket from notes in a shielded pool.  A
  note is a commitment to a secret, a balance and a nonce; the vault contract holds
  the money and a Merkle tree of the commitments.  This development models the
  TypeScript around the contracts, which lies in \<open>src/packages\<close>, and proves what
  makes it correct.  The parts:

  \<^item> The \<^bold>\<open>proof relay\<close> (\<open>backend/proof-relay\<close>) mirrors the vault's tree and
    events and serves Merkle paths and event lists to the frontend.
  \<^item> The \<^bold>\<open>signing layer\<close> (\<open>backend/signing-layer\<close>) is the operator: it finds
    the bets that were authorised on the chain, funds the trading wallet, sends the
    orders to the exchange, follows resting orders, and signs the reports (filled,
    failed, partial, sold) that the vault accepts.  It also settles resolved markets.
  \<^item> The \<^bold>\<open>frontend\<close> (\<open>frontend/src/lib\<close>) keeps the depositor's notes in the
    browser, chooses the notes to spend, prices orders, and rebuilds everything from
    the chain when the browser lost it.

  They meet in the vault's log: the relay and the signing layer read it in pages
  (\<open>Log_Scan\<close>), the signing layer prefers the relay's event index
  (\<open>Event_Index\<close>, \<open>bet_sources_agree\<close>), and the frontend replays it
  (\<open>Note_Recovery\<close>).  The vault's refunds follow the signed reports, so most safety
  properties of the signing layer say when a report may be signed.

  \<^bold>\<open>Theories and code.\<close>  Each theory names its source files in its own introduction.

  \<^item> \<open>Prelude\<close>, \<open>Hex\<close>: run-time values.  Insertion-ordered maps (association
    lists; the laws are the locale \<open>kv_store\<close>), 32-bit shifts, \<open>bigint\<close> division,
    hex and decimal text, reduction to the BN254 scalar field.
  \<^item> \<open>Merkle_Cache\<close>, \<open>Merkle_Sync\<close>, \<open>Merkle_Direct\<close>, \<open>Merkle_Props\<close>:
    \<open>merkleTree.ts\<close> and \<open>merkle.ts\<close>.  The cached tree is a record of the node
    map and the root; \<open>append_leaf\<close>, \<open>proofFor\<close>, the persisted leaves and the
    scan are its operations.  \<open>spec_node\<close> is the tree over a list of leaves; the
    append refines it, the two path servers are interpretations of one locale
    (\<open>path_server\<close>) and agree.
  \<^item> \<open>Log_Scan\<close>: \<open>merkle.ts\<close> and \<open>logScan.ts\<close>, the retries and the paged reads.
  \<^item> \<open>Attestation\<close>: \<open>attestationStore.ts\<close>, \<open>terminalAttestation.ts\<close>.  The
    table of signed reports; \<open>att_step\<close> interleaves two signers at their awaits.
  \<^item> \<open>Fill_Tracker\<close>, \<open>Fill_Tracker_Props\<close>: \<open>wsFillTracker.ts\<close>.  The resting
    orders, the socket messages, reconciliation, cancels and restarts; the step
    relation is \<open>tracker_step\<close>, the invariant \<open>tracker_inv\<close>.
  \<^item> \<open>Nonce_Manager\<close>: \<open>nonceManager.ts\<close>, \<open>circuitBreaker.ts\<close>.
  \<^item> \<open>Operator_Policy\<close>: \<open>tokenBinding.ts\<close>, \<open>limitOrderStore.ts\<close>,
    \<open>trackedMarkets.ts\<close>.
  \<^item> \<open>Funding\<close>: \<open>jitFunding.ts\<close>, \<open>bufferManager.ts\<close>, \<open>depositWalletExecutor.ts\<close>.
    The client is the locale \<open>funding_port\<close>, interpreted on the wallet's executor.
  \<^item> \<open>Event_Index\<close>, \<open>Event_Index_Props\<close>: \<open>eventIndex.ts\<close>,
    \<open>vaultEventSource.ts\<close>.
  \<^item> \<open>Market_Registry\<close>: \<open>marketRegistry.ts\<close> and the row mapping of the catalog.
  \<^item> \<open>Order_Base\<close>, \<open>Orders_Buy\<close>, \<open>Orders_Sell\<close>: \<open>orderBuilder.ts\<close>; the desk
    is one record, a job of the limiter is one step on it.
  \<^item> \<open>Bet_Listener\<close>: \<open>eventListener.ts\<close>; the poll, the deep sweep, the hand-over
    to the desk.
  \<^item> \<open>Settlement\<close>: \<open>settlementResolver.ts\<close>, \<open>redemptionPipeline.ts\<close>,
    \<open>multicall.ts\<close>.
  \<^item> \<open>Order_Api\<close>: \<open>autoSettlement.ts\<close>, the routes and what they may sign.
  \<^item> \<open>Note_Store\<close>, \<open>Note_Recovery\<close>, \<open>Note_Recovery_Props\<close>: \<open>notes.ts\<close>.  The
    browser's storages are one record; the recovery is a replay of the log, and is
    shown to refine \<open>ledger_step\<close>, the vault's view of one note lineage.
  \<^item> \<open>Pricing\<close>: \<open>pricing.ts\<close>, \<open>positionPricing.ts\<close>.
  \<^item> \<open>Account_State\<close>, \<open>Account_State_Props\<close>: \<open>accountState.ts\<close>, \<open>betClassify.ts\<close>.
    What the portfolio shows is computed from the notes, the vault's records and the
    prices.
  \<^item> \<open>Note_Flows\<close>, \<open>Liquidation\<close>, \<open>Note_Flows_Props\<close>, \<open>Liquidation_Props\<close>:
    \<open>settlePosition.ts\<close>, \<open>finalizeClose.ts\<close>, \<open>finalizePartial.ts\<close>,
    \<open>cancelAndReclaim.ts\<close>, \<open>submitMarketClose.ts\<close>, \<open>closeMarker.ts\<close>, \<open>consolidate.ts\<close>,
    \<open>settleCloseAndWithdraw.ts\<close>.  A flow reads the vault, proves, relays, waits, and
    then changes the notes; the chain, the prover and the relay are fields of
    \<open>flow_env\<close>, and the flows are shown to stay in step with \<open>ledger_step\<close>.
  \<^item> \<open>Decimal_Text\<close>, \<open>Money_Flows\<close>, \<open>Money_Flows_Props\<close>, \<open>Withdraw_Props\<close>,
    \<open>Deposit_Props\<close>, \<open>Flow_Types\<close>: \<open>BetModal.tsx\<close>, the withdraw and the deposit
    page, their markers and \<open>secretSession.ts\<close>.  The state and the handlers of the
    pages without their rendering; the deposit page is a step relation.
    \<open>Flow_Types\<close> shows that every flow keeps the notes well-formed.
  \<^item> \<open>Relay\<close>, \<open>Relay_Props\<close>: \<open>relayer.ts\<close> and the relay routes of \<open>api.ts\<close>.
    Bodies are JSON values, the schemas are data (\<open>zod\<close>) read by \<open>safeParse\<close>; the
    nonce manager is threaded through the sends, and \<open>acquire_step\<close> interleaves them.
  \<^item> \<open>Relay_Reads\<close>, \<open>Relay_Reads_Props\<close>: the read routes of \<open>api.ts\<close>, the nudges
    of \<open>index.ts\<close>; here the theorems on the tree, the index and the bet listener are
    carried to what a client of the relay is answered.
  \<^item> \<open>Relay_Services\<close>: \<open>vaultLogSubscriber.ts\<close> (state machine \<open>sub_step\<close>),
    \<open>betaConsent.ts\<close>, \<open>analytics.ts\<close>.
  \<^item> \<open>Market_Catalog\<close>, \<open>Market_Catalog_Props\<close>: \<open>marketCatalog.ts\<close> and the market
    routes; the tables are lists of rows, a statement is an operation on them.
  \<^item> \<open>Vault_Reads\<close>, \<open>Vault_Reads_Props\<close>: the reading half of \<open>frontend/src/lib/api.ts\<close>;
    retries, decoding, the spent check, the wait for a transaction, the polling of paths.
  \<^item> \<open>Relay_Bodies\<close>, \<open>Relay_Bodies_Props\<close>: its posting half, and the circuit signals
    and the proof encoding of \<open>prover.ts\<close>; what is proved is what is relayed, and
    the relay accepts it.  \<open>Prover\<close>: the files, the worker and the queue of proofs.
  \<^item> \<open>End_To_End\<close>: the parameters of the flows filled in with the decoded reads, the
    path client, the relay's routes and the wait; a withdrawal from the page to the vault.

  \<^bold>\<open>How the code is written down.\<close>  A class or module with state is a record, its
  methods take and return it.  An exception is the left side of a sum, a missing value
  \<open>None\<close>.  An \<open>await\<close> is a step boundary only where two runs of the code can
  interleave and the outcome depends on it (\<open>att_step\<close>, \<open>nonce_step\<close>,
  \<open>tracker_step\<close>, and the overlapping closes of \<open>Orders_Sell\<close>); elsewhere a call
  is one step.  Answers of other programs are arguments: the node's logs, the
  exchange's replies, the signer, the hash functions, the prover.  A theorem that needs
  them to behave says so by name (\<open>truthful_node\<close>, \<open>honest_node\<close>, \<open>answers_ranges\<close>,
  \<open>word_hashes\<close>).
  Prices are exact rationals; the rounding of doubles is left out.

  \<^bold>\<open>Loops and bounds.\<close>  No definition uses fuel.  Loops over a list are structural; the
  loops that halve a range or shrink a span have a termination measure (the blocks that
  are left, then the span); retry loops are bounded by the constants of the code.  The
  tree has the depth 32 of the code, and its indices are kept below \<open>2^31\<close> where the
  code's bit operators would change sign.

  \<^bold>\<open>What the theorems show.\<close>  Refinement of reference definitions (the incremental
  tree, the recovery of notes, the two sources of bets), invariants of every reachable
  state (tracker, registry, index, nonces), the conditions under which money-moving
  reports are signed (false reclaims, closes, cancels), agreement of the parts (bodies and schemas, signals and bodies, page and vault), amounts (budgets, previews,
  price ceilings, funding), liveness of restarts and catch-ups, termination and
  exactness of paged reads.  What a theorem measures the code against is written out apart from the code's own
  filters and readers: when a market is due (\<open>due\<close>), which token a market lists for
  a side (\<open>listed_token\<close>), what a reply or a poll of the exchange says (\<open>says_bought\<close>,
  \<open>says_missed\<close>, \<open>says_sold\<close>, \<open>shown_sold\<close>), the fee the vault takes
  (\<open>vault_protocol_fee\<close>), whether a fill can be seen (\<open>seen_filled\<close>).
  Theorems of the kind \<open>error\<close> record what the code does
  where it does not do what it means to.

  \<^bold>\<open>Not modelled.\<close>  The contracts (Solidity) and the circuits (Noir); what the
  TypeScript relies on is a named hypothesis.  The rendering of React pages and
  components, the proving library, the page content, start-up
  and the derivation of exchange credentials, operator scripts and test fixtures.  The
  libraries (\<open>zod\<close>, \<open>express\<close>, \<open>ethers\<close>, \<open>better-sqlite3\<close>) appear as their
  documented behaviour on what the code uses of them; rate limits, CORS, gas prices and
  logging are left out.  Sockets and timers are modelled as the order of the steps they
  trigger.
\<close>

end
